(* ===== verification/Prelude.thy ===== *)
theory Prelude
  imports Main "HOL-Library.Word" "HOL-Library.AList"
begin

text \<open>
  Shared vocabulary of the development: machine integers with their wrap-around, dictionaries
  as association lists, character and string helpers with the meaning the .NET and JavaScript
  libraries give them, operations that thread a state and may raise, and the retry loop that
  every lock-taking operation of the broker is written with.
\<close>

section \<open>Collections of facts\<close>

named_theorems dict_simps \<open>lookups in dictionaries after an update or a removal\<close>
named_theorems wrap_simps \<open>32-bit wrap-around arithmetic\<close>
named_theorems string_simps \<open>case folding and trimming\<close>

section \<open>Machine integers\<close>

type_synonym u64 = "64 word"
type_synonym guid = "128 word"
type_synonym ticks = int

text \<open>
  A C\# \<open>int\<close> is an \<open>int\<close> kept in range by \<open>wrap_i32\<close>, the two's complement reading of the
  low 32 bits. It is applied at every increment and decrement of a counter.
\<close>

definition wrap_i32 :: "int \<Rightarrow> int" where
  "wrap_i32 x = (x + 2147483648) mod 4294967296 - 2147483648"

lemma wrap_i32_bounds: "- 2147483648 \<le> wrap_i32 x \<and> wrap_i32 x < 2147483648"
  unfolding wrap_i32_def
  using pos_mod_bound [of 4294967296 "x + 2147483648"] pos_mod_sign [of 4294967296 "x + 2147483648"]
  by linarith

lemma wrap_i32_id [wrap_simps]: "- 2147483648 \<le> x \<Longrightarrow> x < 2147483648 \<Longrightarrow> wrap_i32 x = x"
  by (simp add: wrap_i32_def)

lemma wrap_i32_zero [simp]: "wrap_i32 0 = 0"
  by (simp add: wrap_i32_def)

lemma wrap_i32_add [wrap_simps]: "wrap_i32 (wrap_i32 x + y) = wrap_i32 (x + y)"
proof -
  have "(x + 2147483648) mod 4294967296 - 2147483648 + y + 2147483648
        = (x + 2147483648) mod 4294967296 + y"
    by simp
  then show ?thesis
    by (simp add: wrap_i32_def mod_add_left_eq mod_add_right_eq ac_simps)
qed

lemma wrap_i32_add' [wrap_simps]: "wrap_i32 (y + wrap_i32 x) = wrap_i32 (y + x)"
  using wrap_i32_add [of x y] by (simp add: add.commute)

lemma wrap_i32_diff [wrap_simps]: "wrap_i32 (wrap_i32 x - y) = wrap_i32 (x - y)"
  using wrap_i32_add [of x "- y"] by simp

section \<open>Dictionaries\<close>

text \<open>
  A \<open>Dictionary\<close> is an association list: it enumerates in list order, an assignment to a
  present key keeps its place, a new key goes to the end. Only \<open>map_of\<close> of it matters
  wherever the code does not enumerate it.
\<close>

type_synonym ('k, 'v) dict = "('k \<times> 'v) list"

definition dict_put :: "'k \<Rightarrow> 'v \<Rightarrow> ('k, 'v) dict \<Rightarrow> ('k, 'v) dict" where
  "dict_put = AList.update"

definition dict_remove :: "'k \<Rightarrow> ('k, 'v) dict \<Rightarrow> ('k, 'v) dict" where
  "dict_remove = AList.delete"

definition dict_keys :: "('k, 'v) dict \<Rightarrow> 'k list" where
  "dict_keys d = map fst d"

definition dict_ok :: "('k, 'v) dict \<Rightarrow> bool" where
  "dict_ok d = distinct (map fst d)"

lemma dict_put_simps [simp]:
  "dict_put k v [] = [(k, v)]"
  "dict_put k v (p # d) = (if fst p = k then (k, v) # d else p # dict_put k v d)"
  by (simp_all add: dict_put_def)

lemma dict_remove_simps [simp]:
  "dict_remove k [] = []"
  "dict_remove k (p # d) = (if fst p = k then dict_remove k d else p # dict_remove k d)"
  by (auto simp: dict_remove_def AList.delete_eq)

lemma map_of_dict_put [dict_simps]: "map_of (dict_put k v d) = (map_of d)(k \<mapsto> v)"
  by (simp add: dict_put_def update_conv')

lemma map_of_dict_remove [dict_simps]: "map_of (dict_remove k d) = (map_of d)(k := None)"
  by (simp add: dict_remove_def delete_conv')

lemma dict_ok_empty [simp]: "dict_ok []"
  by (simp add: dict_ok_def)

lemma dict_ok_put [simp]: "dict_ok d \<Longrightarrow> dict_ok (dict_put k v d)"
  by (simp add: dict_ok_def dict_put_def distinct_update)

lemma dict_ok_remove [simp]: "dict_ok d \<Longrightarrow> dict_ok (dict_remove k d)"
  by (simp add: dict_ok_def dict_remove_def distinct_delete)

lemma dict_remove_absent: "k \<notin> fst ` set d \<Longrightarrow> dict_remove k d = d"
  by (induction d) auto

lemma dict_put_absent: "k \<notin> fst ` set d \<Longrightarrow> dict_put k v d = d @ [(k, v)]"
  by (induction d) auto

lemma length_dict_put:
  "length (dict_put k v d) = (if k \<in> fst ` set d then length d else Suc (length d))"
  by (induction d) auto

lemma set_dict_remove: "set (dict_remove k d) = {p \<in> set d. fst p \<noteq> k}"
  by (induction d) auto

lemma map_of_eq_None_dict [dict_simps]: "map_of d k = None \<longleftrightarrow> k \<notin> fst ` set d"
  by (rule map_of_eq_None_iff)

section \<open>Lists\<close>

lemma distinct_remove1_set: "distinct xs \<Longrightarrow> set (remove1 x xs) = set xs - {x}"
  by simp

lemma length_remove1_mem: "x \<in> set xs \<Longrightarrow> Suc (length (remove1 x xs)) = length xs"
  by (induction xs) auto

lemma find_Some_mem: "find P xs = Some x \<Longrightarrow> x \<in> set xs \<and> P x"
  by (induction xs) (auto split: if_splits)

lemma find_None_all: "find P xs = None \<Longrightarrow> x \<in> set xs \<Longrightarrow> \<not> P x"
  by (induction xs) (auto split: if_splits)

section \<open>Characters and strings\<close>

text \<open>
  A string is a list of UTF-16 code units restricted to Latin-1 (\<open>char\<close> holds 0 to 255).
  \<open>ToLowerInvariant\<close> and \<open>Char.IsWhiteSpace\<close> are written out on that range.
\<close>

definition lower_char :: "char \<Rightarrow> char" where
  "lower_char c = (let n = (of_char c :: nat) in
     if 65 \<le> n \<and> n \<le> 90 \<or> 192 \<le> n \<and> n \<le> 222 \<and> n \<noteq> 215 then char_of (n + 32) else c)"

definition ToLowerInvariant :: "string \<Rightarrow> string" where
  "ToLowerInvariant s = map lower_char s"

definition is_white :: "char \<Rightarrow> bool" where
  "is_white c = (let n = (of_char c :: nat) in
     9 \<le> n \<and> n \<le> 13 \<or> n = 32 \<or> n = 133 \<or> n = 160)"

definition IsNullOrEmpty :: "string option \<Rightarrow> bool" where
  "IsNullOrEmpty s = (case s of None \<Rightarrow> True | Some t \<Rightarrow> t = [])"

definition IsNullOrWhiteSpace :: "string option \<Rightarrow> bool" where
  "IsNullOrWhiteSpace s = (case s of None \<Rightarrow> True | Some t \<Rightarrow> list_all is_white t)"

definition EndsWith :: "string \<Rightarrow> string \<Rightarrow> bool" where
  "EndsWith s suf = (length suf \<le> length s \<and> drop (length s - length suf) s = suf)"

lemma lower_char_idem [string_simps]: "lower_char (lower_char c) = lower_char c"
proof -
  show ?thesis
    by (auto simp: lower_char_def Let_def of_char_of)
qed

lemma ToLowerInvariant_idem [string_simps]:
  "ToLowerInvariant (ToLowerInvariant s) = ToLowerInvariant s"
  by (simp add: ToLowerInvariant_def lower_char_idem)

lemma ToLowerInvariant_append [string_simps]:
  "ToLowerInvariant (s @ t) = ToLowerInvariant s @ ToLowerInvariant t"
  by (simp add: ToLowerInvariant_def)

lemma length_ToLowerInvariant [simp]: "length (ToLowerInvariant s) = length s"
  by (simp add: ToLowerInvariant_def)

lemma EndsWith_append [string_simps]: "EndsWith (s @ suf) suf"
  by (simp add: EndsWith_def)

lemma EndsWith_iff: "EndsWith s suf \<longleftrightarrow> (\<exists>p. s = p @ suf)"
  unfolding EndsWith_def by (metis append_take_drop_id append_eq_conv_conj diff_diff_cancel
      diff_le_self drop_append le_add2 length_append length_drop add_diff_cancel_right')

end
