(* ===== verification/CMq_Types.thy ===== *)
theory CMq_Types
  imports Prelude
begin

text \<open>
  The enumerations of \<open>NTDLS.CatMQ.Shared/CMqTypes.cs\<close>, the defaults of \<open>CMqDefaults.cs\<close>, the
  consumption result a subscriber answers with, and the errors the broker raises.
\<close>

section \<open>Enumerations\<close>

datatype CMqInstrumentationEventType =
    EnqueueMessage | EnqueueMessageReadLock | EnqueueMessagePersistenceReadLock
  | EnqueueMessageEphemeralWriteLock | PersistenceStore | DeliverMessageWithResult
  | PersistenceCheckpoint | DeliveryMessageLock | ExpirationCheck | DeliverySubscribersLock
  | DeliveryYield | DeadLetter | PersistenceRemove | BufferRemove | DeferStore
  | DeferReadLock | MessageBufferHydrationWriteLock | MessageBufferHydration
  | PersistentInitialization | DeadlockAvoidance

text \<open>
  \<open>DeadLetter\<close> and \<open>Drop\<close> are constructors of several enumerations, as in the code; unqualified
  they are message states.
\<close>

datatype CMqConsumptionDisposition =
    NotInterested | NotConsumed | Consumed | Defer | DeadLetter | Drop | Exception

datatype CMqMessageState = Ready | OutForDelivery | DeadLetter | Drop | Shutdown

datatype CMqConsumptionScheme = AllSubscribersSatisfied | FirstConsumedSubscriber

datatype CMqDeliveryScheme = Balanced | Random

datatype CMqPersistenceScheme = Ephemeral | Persistent

datatype CMqErrorLevel = Verbose | Debug | Information | Warning | Error | Fatal

section \<open>Defaults\<close>

definition QUEUE_THREAD_DELIVERY_BURNDOWN :: int where
  "QUEUE_THREAD_DELIVERY_BURNDOWN = 100"

definition DEFAULT_LOCK_TIMEOUT_MS :: int where
  "DEFAULT_LOCK_TIMEOUT_MS = 10 * 1000"

definition DEFAULT_PERSISTENT_MESSAGES_BUFFER_SIZE :: nat where
  "DEFAULT_PERSISTENT_MESSAGES_BUFFER_SIZE = 5000"

definition DEFAULT_PERSISTENT_MESSAGES_MIN_BUFFER :: int where
  "DEFAULT_PERSISTENT_MESSAGES_MIN_BUFFER = 1000"

definition DEFAULT_MAX_HISTORICAL_STATISTICS_DATAPOINTS :: int where
  "DEFAULT_MAX_HISTORICAL_STATISTICS_DATAPOINTS = 60"

section \<open>Errors\<close>

text \<open>The exceptions the broker throws, with the text that tells them apart.\<close>

datatype cmq_error =
    TimeoutException ticks
  | ArgumentException string
  | ArgumentNullException string
  | InvalidOperationException string
  | PlainException string string

section \<open>What a subscriber answers\<close>

record CMqConsumeResult =
  Disposition :: CMqConsumptionDisposition
  cr_DeferDuration :: "ticks option"

definition CMqConsumeResult_new :: "CMqConsumptionDisposition \<Rightarrow> CMqConsumeResult" where
  "CMqConsumeResult_new d = \<lparr>Disposition = d, cr_DeferDuration = None\<rparr>"

definition Consumed_result :: CMqConsumeResult where
  "Consumed_result = CMqConsumeResult_new Consumed"

definition NotConsumed_result :: CMqConsumeResult where
  "NotConsumed_result = CMqConsumeResult_new NotConsumed"

definition NotInterested_result :: CMqConsumeResult where
  "NotInterested_result = CMqConsumeResult_new NotInterested"

definition DeadLetter_result :: CMqConsumeResult where
  "DeadLetter_result = CMqConsumeResult_new CMqConsumptionDisposition.DeadLetter"

definition Drop_result :: CMqConsumeResult where
  "Drop_result = CMqConsumeResult_new CMqConsumptionDisposition.Drop"

definition Defer_result :: "ticks \<Rightarrow> CMqConsumeResult" where
  "Defer_result d = (CMqConsumeResult_new Defer)\<lparr>cr_DeferDuration := Some d\<rparr>"

lemmas consume_result_defs = CMqConsumeResult_new_def Consumed_result_def NotConsumed_result_def
  NotInterested_result_def DeadLetter_result_def Drop_result_def Defer_result_def

text \<open>
  \<open>MessageQueueStatistics\<close>: the counters of one queue. \<open>ulong\<close> counters are 64-bit words, the two
  \<open>int\<close> gauges wrap at 32 bits. The last part is what survives a trip through \<open>queues.json\<close>:
  \<open>System.Text.Json\<close> writes the properties, skips the public field \<open>_lastSerialNumber\<close>, and on
  the way back sets only the properties that have a setter.
\<close>

record MessageQueueStatistics =
  lastSerialNumber :: u64
  QueueDepth :: int
  OutstandingDeliveries :: int
  ReceivedMessageCount :: u64
  ExpiredMessageCount :: u64
  DeliveredMessageCount :: u64
  FailedDeliveryCount :: u64
  DeferredDeliveryCount :: u64
  ExplicitDropCount :: u64
  ExplicitDeadLetterCount :: u64

definition MessageQueueStatistics_new :: MessageQueueStatistics where
  "MessageQueueStatistics_new = \<lparr>lastSerialNumber = 0, QueueDepth = 0, OutstandingDeliveries = 0,
     ReceivedMessageCount = 0, ExpiredMessageCount = 0, DeliveredMessageCount = 0,
     FailedDeliveryCount = 0, DeferredDeliveryCount = 0, ExplicitDropCount = 0,
     ExplicitDeadLetterCount = 0\<rparr>"

definition GetNextSerialNumber :: "MessageQueueStatistics \<Rightarrow> u64 \<times> MessageQueueStatistics" where
  "GetNextSerialNumber s = (let n = lastSerialNumber s + 1 in (n, s\<lparr>lastSerialNumber := n\<rparr>))"

definition SetLastSerialNumber :: "u64 \<Rightarrow> MessageQueueStatistics \<Rightarrow> MessageQueueStatistics" where
  "SetLastSerialNumber v s = s\<lparr>lastSerialNumber := v\<rparr>"

definition IncrementQueueDepth :: "MessageQueueStatistics \<Rightarrow> MessageQueueStatistics" where
  "IncrementQueueDepth s = s\<lparr>QueueDepth := wrap_i32 (QueueDepth s + 1)\<rparr>"

definition DecrementQueueDepth :: "MessageQueueStatistics \<Rightarrow> MessageQueueStatistics" where
  "DecrementQueueDepth s = s\<lparr>QueueDepth := wrap_i32 (QueueDepth s - 1)\<rparr>"

definition SetQueueDepth :: "int \<Rightarrow> MessageQueueStatistics \<Rightarrow> MessageQueueStatistics" where
  "SetQueueDepth v s = s\<lparr>QueueDepth := v\<rparr>"

definition IncrementOutstandingDeliveries :: "MessageQueueStatistics \<Rightarrow> MessageQueueStatistics" where
  "IncrementOutstandingDeliveries s = s\<lparr>OutstandingDeliveries := wrap_i32 (OutstandingDeliveries s + 1)\<rparr>"

definition DecrementOutstandingDeliveries :: "MessageQueueStatistics \<Rightarrow> MessageQueueStatistics" where
  "DecrementOutstandingDeliveries s = s\<lparr>OutstandingDeliveries := wrap_i32 (OutstandingDeliveries s - 1)\<rparr>"

definition IncrementReceivedMessageCount :: "MessageQueueStatistics \<Rightarrow> MessageQueueStatistics" where
  "IncrementReceivedMessageCount s = s\<lparr>ReceivedMessageCount := ReceivedMessageCount s + 1\<rparr>"

definition IncrementExpiredMessageCount :: "MessageQueueStatistics \<Rightarrow> MessageQueueStatistics" where
  "IncrementExpiredMessageCount s = s\<lparr>ExpiredMessageCount := ExpiredMessageCount s + 1\<rparr>"

definition IncrementDeliveredMessageCount :: "MessageQueueStatistics \<Rightarrow> MessageQueueStatistics" where
  "IncrementDeliveredMessageCount s = s\<lparr>DeliveredMessageCount := DeliveredMessageCount s + 1\<rparr>"

definition IncrementFailedDeliveryCount :: "MessageQueueStatistics \<Rightarrow> MessageQueueStatistics" where
  "IncrementFailedDeliveryCount s = s\<lparr>FailedDeliveryCount := FailedDeliveryCount s + 1\<rparr>"

definition IncrementDeferredDeliveryCount :: "MessageQueueStatistics \<Rightarrow> MessageQueueStatistics" where
  "IncrementDeferredDeliveryCount s = s\<lparr>DeferredDeliveryCount := DeferredDeliveryCount s + 1\<rparr>"

definition IncrementExplicitDropCount :: "MessageQueueStatistics \<Rightarrow> MessageQueueStatistics" where
  "IncrementExplicitDropCount s = s\<lparr>ExplicitDropCount := ExplicitDropCount s + 1\<rparr>"

definition IncrementExplicitDeadLetterCount :: "MessageQueueStatistics \<Rightarrow> MessageQueueStatistics" where
  "IncrementExplicitDeadLetterCount s = s\<lparr>ExplicitDeadLetterCount := ExplicitDeadLetterCount s + 1\<rparr>"

lemmas stat_defs = SetLastSerialNumber_def IncrementQueueDepth_def DecrementQueueDepth_def
  SetQueueDepth_def IncrementOutstandingDeliveries_def DecrementOutstandingDeliveries_def
  IncrementReceivedMessageCount_def IncrementExpiredMessageCount_def
  IncrementDeliveredMessageCount_def IncrementFailedDeliveryCount_def
  IncrementDeferredDeliveryCount_def IncrementExplicitDropCount_def
  IncrementExplicitDeadLetterCount_def

text \<open>The statistics as \<open>queues.json\<close> gives them back.\<close>

definition stats_from_json :: "MessageQueueStatistics \<Rightarrow> MessageQueueStatistics" where
  "stats_from_json s = s\<lparr>lastSerialNumber := 0, QueueDepth := 0, OutstandingDeliveries := 0\<rparr>"

lemma stats_from_json_idem: "stats_from_json (stats_from_json s) = stats_from_json s"
  by (simp add: stats_from_json_def)

end
