(* ===== verification/Message_Keys.thy ===== *)
theory Message_Keys
  imports Prelude
begin

text \<open>
  Database keys. \<open>Extensions.ToKey\<close> turns a serial number into eight bytes, most significant
  first, so that the store's bytewise order is the order of the serial numbers; the delivery
  thread turns a key back with \<open>Array.Reverse\<close> and \<open>BitConverter.ToUInt64\<close>. The endianness of
  the machine (\<open>BitConverter.IsLittleEndian\<close>) is the argument \<open>le\<close>.
\<close>

type_synonym byte_array = "8 word list"

definition GetBytes :: "bool \<Rightarrow> u64 \<Rightarrow> byte_array" where
  "GetBytes le w = (let b = map (\<lambda>i. ucast (drop_bit (8 * i) w)) [0..<8] in if le then b else rev b)"

definition ToUInt64 :: "bool \<Rightarrow> byte_array \<Rightarrow> u64 option" where
  "ToUInt64 le bs = (if length bs < 8 then None
     else Some (word_of_int (horner_sum uint 256 (if le then take 8 bs else rev (take 8 bs)))))"

definition ToKey :: "bool \<Rightarrow> u64 \<Rightarrow> byte_array" where
  "ToKey le serialNumber =
     (let keyBytes = GetBytes le serialNumber in if le then rev keyBytes else keyBytes)"

definition FromKey :: "bool \<Rightarrow> byte_array \<Rightarrow> u64 option" where
  "FromKey le key = ToUInt64 le (if le then rev key else key)"

text \<open>The bytewise order in which the store keeps its keys.\<close>

fun bytes_less :: "byte_array \<Rightarrow> byte_array \<Rightarrow> bool" where
  "bytes_less [] ys = (ys \<noteq> [])"
| "bytes_less (x # xs) [] = False"
| "bytes_less (x # xs) (y # ys) = (x < y \<or> x = y \<and> bytes_less xs ys)"

definition big_endian_value :: "byte_array \<Rightarrow> int" where
  "big_endian_value bs = horner_sum uint 256 (rev bs)"

lemma ToKey_eq: "ToKey le w = rev (map (\<lambda>i. ucast (drop_bit (8 * i) w)) [0..<8])"
  by (simp add: ToKey_def GetBytes_def Let_def)

lemma ToKey_endian: "ToKey le w = ToKey le' w"
  by (simp add: ToKey_eq)

lemma length_ToKey [simp]: "length (ToKey le w) = 8"
  by (simp add: ToKey_eq)

lemma byte_step: "(n div m) mod 256 + 256 * (n div (m * 256)) = n div (m :: int)" if "0 \<le> m"
  using that by (simp add: zdiv_zmult2_eq)

lemma uint_byte: "uint (ucast (drop_bit k (w :: u64)) :: 8 word) = (uint w div 2 ^ k) mod 256"
proof -
  have "uint (ucast (drop_bit k w) :: 8 word) = take_bit 8 (drop_bit k (uint w))"
    using uint_lt2p [of w]
    by (simp add: unsigned_ucast_eq unsigned_drop_bit_eq take_bit_int_eq_self)
  then show ?thesis by (simp add: take_bit_eq_mod drop_bit_eq_div)
qed

lemma big_endian_value_ToKey: "big_endian_value (ToKey le w) = uint w"
proof -
  let ?b = "\<lambda>i. ucast (drop_bit (8 * i) w) :: 8 word"
  have local_step: "uint (?b i) + 256 * (uint w div 256 ^ Suc i) = uint w div 256 ^ i" for i
  proof -
    have p: "(2 :: int) ^ (8 * i) = 256 ^ i" by (simp add: power_mult)
    have "uint (?b i) = uint w div 256 ^ i mod 256"
      unfolding uint_byte p by (rule refl)
    with byte_step [of "256 ^ i" "uint w"] show ?thesis by (simp add: mult.commute)
  qed
  have "horner_sum uint 256 (map ?b [i..<8]) = uint w div 256 ^ i" if "i \<le> 8" for i
    using that
  proof (induction i rule: inc_induct)
    case base
    show ?case using uint_lt2p [of w] by (simp add: div_pos_pos_trivial)
  next
    case (step i)
    then show ?case
      by (simp add: upt_conv_Cons local_step del: power_Suc)
  qed
  from this [of 0] show ?thesis
    by (simp add: big_endian_value_def ToKey_eq)
qed

lemma ToUInt64_big: "length bs = 8 \<Longrightarrow> FromKey le bs = Some (word_of_int (big_endian_value bs))"
  by (simp add: FromKey_def ToUInt64_def big_endian_value_def)

lemma FromKey_ToKey [simp]: "FromKey le (ToKey le' w) = Some w"
  by (simp add: ToUInt64_big big_endian_value_ToKey)

lemma ToKey_inject [simp]: "ToKey le a = ToKey le' b \<longleftrightarrow> a = b"
  by (metis FromKey_ToKey option.inject ToKey_endian)

lemma big_endian_value_bounds: "0 \<le> big_endian_value bs \<and> big_endian_value bs < 256 ^ length bs"
proof (induction bs rule: rev_induct)
  case Nil
  then show ?case by (simp add: big_endian_value_def)
next
  case (snoc b bs)
  have "uint b < 256" "0 \<le> uint b"
    using uint_lt2p [of b] by auto
  with snoc show ?case
    by (simp add: big_endian_value_def)
qed

lemma big_endian_value_Cons:
  "big_endian_value (b # bs) = 256 ^ length bs * uint b + big_endian_value bs"
  by (simp add: big_endian_value_def horner_sum_append)

lemma bytes_less_iff:
  "length xs = length ys \<Longrightarrow> bytes_less xs ys \<longleftrightarrow> big_endian_value xs < big_endian_value ys"
proof (induction xs ys rule: list_induct2)
  case Nil
  then show ?case by simp
next
  case (Cons x xs y ys)
  let ?B = "256 ^ length xs :: int"
  have bnd: "0 \<le> big_endian_value xs" "big_endian_value xs < ?B"
    "0 \<le> big_endian_value ys" "big_endian_value ys < ?B"
    using big_endian_value_bounds [of xs] big_endian_value_bounds [of ys] Cons.hyps by auto
  consider (less) "uint x < uint y" | (eq) "uint x = uint y" | (gt) "uint y < uint x" by linarith
  then show ?case
  proof cases
    case less
    then have "?B * uint x + ?B \<le> ?B * uint y"
      using mult_left_mono [of "uint x + 1" "uint y" ?B] by (simp add: algebra_simps)
    with less bnd Cons.hyps show ?thesis
      by (simp add: big_endian_value_Cons word_less_def)
  next
    case eq
    with Cons show ?thesis
      by (simp add: big_endian_value_Cons word_less_def word_uint_eq_iff)
  next
    case gt
    then have "?B * uint y + ?B \<le> ?B * uint x"
      using mult_left_mono [of "uint y + 1" "uint x" ?B] by (simp add: algebra_simps)
    with gt bnd Cons.hyps show ?thesis
      by (simp add: big_endian_value_Cons word_less_def word_uint_eq_iff)
  qed
qed

lemma bytes_less_ToKey [simp]: "bytes_less (ToKey le a) (ToKey le' b) \<longleftrightarrow> a < b"
  by (simp add: bytes_less_iff big_endian_value_ToKey word_less_def)

lemma bytes_less_irrefl [simp]: "\<not> bytes_less xs xs"
  by (induction xs) auto

lemma bytes_less_trans: "bytes_less xs ys \<Longrightarrow> bytes_less ys zs \<Longrightarrow> bytes_less xs zs"
proof (induction xs ys arbitrary: zs rule: bytes_less.induct)
  case (1 ys)
  then show ?case by (cases zs; cases ys) auto
next
  case (2 x xs)
  then show ?case by simp
next
  case (3 x xs y ys)
  then show ?case by (cases zs) auto
qed

lemma bytes_less_linear: "bytes_less xs ys \<or> xs = ys \<or> bytes_less ys xs"
proof (induction xs ys rule: bytes_less.induct)
  case (1 ys)
  then show ?case by (cases ys) auto
qed auto

end
