(* ===== verification/Messages.thy ===== *)
theory Messages
  imports CMq_Types Message_Keys
begin

text \<open>
  \<open>EnqueuedMessage\<close>, the object a queue holds for each message, the part of it that is written to
  the persistence database (everything not marked \<open>JsonIgnore\<close>), and the per-subscriber
  descriptor \<open>CMqSubscriberDescriptor\<close>.
\<close>

section \<open>Messages\<close>

text \<open>
  \<open>em_SubscriberMessageDeliveries\<close> maps a subscriber to its \<open>DeliveryAttemptCount\<close>
  (\<open>SubscriberMessageDeliveryStatistics\<close> has no other field).
\<close>

record EnqueuedMessage =
  em_State :: CMqMessageState
  em_QueueName :: string
  em_SerialNumber :: u64
  em_MessageId :: guid
  em_Timestamp :: ticks
  em_DeferredCount :: int
  em_DeferredUntil :: "ticks option"
  em_DeferDuration :: "ticks option"
  em_AssemblyQualifiedTypeName :: string
  em_MessageJson :: string
  em_SubscriberMessageDeliveries :: "(guid, int) dict"
  em_SatisfiedDeliverySubscriberIDs :: "guid set"
  em_ConsumedDeliverySubscriberIDs :: "guid set"
  em_DeliveryLimitReachedSubscriberIDs :: "guid set"

definition EnqueuedMessage_new :: "ticks \<Rightarrow> string \<Rightarrow> string \<Rightarrow> string \<Rightarrow> u64 \<Rightarrow> EnqueuedMessage" where
  "EnqueuedMessage_new utcNow queueName assemblyQualifiedTypeName messageJson serialNumber =
     \<lparr>em_State = Ready, em_QueueName = queueName, em_SerialNumber = serialNumber,
      em_MessageId = 0, em_Timestamp = utcNow, em_DeferredCount = 0, em_DeferredUntil = None,
      em_DeferDuration = None, em_AssemblyQualifiedTypeName = assemblyQualifiedTypeName,
      em_MessageJson = messageJson, em_SubscriberMessageDeliveries = [],
      em_SatisfiedDeliverySubscriberIDs = {}, em_ConsumedDeliverySubscriberIDs = {},
      em_DeliveryLimitReachedSubscriberIDs = {}\<rparr>"

definition CloneForDeadLetter :: "ticks \<Rightarrow> EnqueuedMessage \<Rightarrow> string \<Rightarrow> u64 \<Rightarrow> EnqueuedMessage" where
  "CloneForDeadLetter utcNow m queueName serialNumber =
     (EnqueuedMessage_new utcNow queueName (em_AssemblyQualifiedTypeName m) (em_MessageJson m) serialNumber)
       \<lparr>em_MessageId := em_MessageId m, em_Timestamp := em_Timestamp m,
        em_DeferredCount := em_DeferredCount m\<rparr>"

section \<open>The persisted part of a message\<close>

record message_doc =
  md_QueueName :: string
  md_SerialNumber :: u64
  md_MessageId :: guid
  md_Timestamp :: ticks
  md_DeferredCount :: int
  md_DeferredUntil :: "ticks option"
  md_DeferDuration :: "ticks option"
  md_AssemblyQualifiedTypeName :: string
  md_MessageJson :: string

text \<open>A stored value: a message document, the JSON literal \<open>null\<close>, or text that is not one.\<close>

datatype json_doc = JMessage message_doc | JNull | JMalformed

definition Serialize :: "EnqueuedMessage \<Rightarrow> json_doc" where
  "Serialize m = JMessage \<lparr>md_QueueName = em_QueueName m, md_SerialNumber = em_SerialNumber m,
     md_MessageId = em_MessageId m, md_Timestamp = em_Timestamp m,
     md_DeferredCount = em_DeferredCount m, md_DeferredUntil = em_DeferredUntil m,
     md_DeferDuration = em_DeferDuration m,
     md_AssemblyQualifiedTypeName = em_AssemblyQualifiedTypeName m,
     md_MessageJson = em_MessageJson m\<rparr>"

fun Deserialize :: "json_doc \<Rightarrow> cmq_error + EnqueuedMessage option" where
  "Deserialize (JMessage d) = Inr (Some
     \<lparr>em_State = Ready, em_QueueName = md_QueueName d, em_SerialNumber = md_SerialNumber d,
      em_MessageId = md_MessageId d, em_Timestamp = md_Timestamp d,
      em_DeferredCount = md_DeferredCount d, em_DeferredUntil = md_DeferredUntil d,
      em_DeferDuration = md_DeferDuration d,
      em_AssemblyQualifiedTypeName = md_AssemblyQualifiedTypeName d,
      em_MessageJson = md_MessageJson d, em_SubscriberMessageDeliveries = [],
      em_SatisfiedDeliverySubscriberIDs = {}, em_ConsumedDeliverySubscriberIDs = {},
      em_DeliveryLimitReachedSubscriberIDs = {}\<rparr>)"
| "Deserialize JNull = Inr None"
| "Deserialize JMalformed = Inl (PlainException ''JsonException'' [])"

text \<open>What a message is after a trip through the database: delivery progress is forgotten.\<close>

definition forget_delivery :: "EnqueuedMessage \<Rightarrow> EnqueuedMessage" where
  "forget_delivery m = m\<lparr>em_State := Ready, em_SubscriberMessageDeliveries := [],
     em_SatisfiedDeliverySubscriberIDs := {}, em_ConsumedDeliverySubscriberIDs := {},
     em_DeliveryLimitReachedSubscriberIDs := {}\<rparr>"

lemma Deserialize_Serialize: "Deserialize (Serialize m) = Inr (Some (forget_delivery m))"
  by (simp add: Serialize_def forget_delivery_def)

section \<open>Subscribers\<close>

record CMqSubscriberDescriptor =
  SubscriberId :: guid
  AttemptedDeliveryCount :: u64
  SuccessfulDeliveryCount :: u64
  sub_FailedDeliveryCount :: u64
  sub_DeferredDeliveryCount :: u64
  ConsumedDeliveryCount :: u64
  RemoteAddress :: "string option"
  RemotePort :: "int option"
  LocalAddress :: "string option"
  LocalPort :: "int option"

definition CMqSubscriberDescriptor_new :: "guid \<Rightarrow> CMqSubscriberDescriptor" where
  "CMqSubscriberDescriptor_new subscriberId = \<lparr>SubscriberId = subscriberId,
     AttemptedDeliveryCount = 0, SuccessfulDeliveryCount = 0, sub_FailedDeliveryCount = 0,
     sub_DeferredDeliveryCount = 0, ConsumedDeliveryCount = 0, RemoteAddress = None,
     RemotePort = None, LocalAddress = None, LocalPort = None\<rparr>"

definition IncrementAttemptedDeliveryCount :: "CMqSubscriberDescriptor \<Rightarrow> CMqSubscriberDescriptor" where
  "IncrementAttemptedDeliveryCount d = d\<lparr>AttemptedDeliveryCount := AttemptedDeliveryCount d + 1\<rparr>"

definition IncrementSuccessfulDeliveryCount :: "CMqSubscriberDescriptor \<Rightarrow> CMqSubscriberDescriptor" where
  "IncrementSuccessfulDeliveryCount d = d\<lparr>SuccessfulDeliveryCount := SuccessfulDeliveryCount d + 1\<rparr>"

definition sub_IncrementFailedDeliveryCount :: "CMqSubscriberDescriptor \<Rightarrow> CMqSubscriberDescriptor" where
  "sub_IncrementFailedDeliveryCount d = d\<lparr>sub_FailedDeliveryCount := sub_FailedDeliveryCount d + 1\<rparr>"

definition sub_IncrementDeferredDeliveryCount :: "CMqSubscriberDescriptor \<Rightarrow> CMqSubscriberDescriptor" where
  "sub_IncrementDeferredDeliveryCount d = d\<lparr>sub_DeferredDeliveryCount := sub_DeferredDeliveryCount d + 1\<rparr>"

definition IncrementConsumedDeliveryCount :: "CMqSubscriberDescriptor \<Rightarrow> CMqSubscriberDescriptor" where
  "IncrementConsumedDeliveryCount d = d\<lparr>ConsumedDeliveryCount := ConsumedDeliveryCount d + 1\<rparr>"

lemmas sub_stat_defs = IncrementAttemptedDeliveryCount_def IncrementSuccessfulDeliveryCount_def
  sub_IncrementFailedDeliveryCount_def sub_IncrementDeferredDeliveryCount_def
  IncrementConsumedDeliveryCount_def

lemma sub_stat_id [simp]:
  "SubscriberId (IncrementAttemptedDeliveryCount d) = SubscriberId d"
  "SubscriberId (IncrementSuccessfulDeliveryCount d) = SubscriberId d"
  "SubscriberId (sub_IncrementFailedDeliveryCount d) = SubscriberId d"
  "SubscriberId (sub_IncrementDeferredDeliveryCount d) = SubscriberId d"
  "SubscriberId (IncrementConsumedDeliveryCount d) = SubscriberId d"
  by (simp_all add: sub_stat_defs)

text \<open>
  The persistence database. RocksDB itself is not part of the repository: its calls are the
  fields of \<open>rocks_ops\<close>, an argument of every definition that stores something, and what the
  broker relies on is the locale \<open>rocksdb\<close>: a key/value map whose iterators are snapshots in
  bytewise key order. On top of it are the extension methods of \<open>Server/Extensions.cs\<close> and the
  container that pairs the in-memory buffer with the database.
\<close>

section \<open>The database interface\<close>

type_synonym db_entry = "byte_array \<times> json_doc"

text \<open>
  \<open>rk_NewIterator\<close> gives the entries a new iterator positioned by \<open>SeekToFirst\<close> walks through,
  \<open>rk_Seek\<close> those it walks through after \<open>Seek(key)\<close>.
\<close>

record 'db rocks_ops =
  rk_Put :: "byte_array \<Rightarrow> json_doc \<Rightarrow> 'db \<Rightarrow> 'db"
  rk_Remove :: "byte_array \<Rightarrow> 'db \<Rightarrow> 'db"
  rk_Get :: "'db \<Rightarrow> byte_array \<Rightarrow> json_doc option"
  rk_NewIterator :: "'db \<Rightarrow> db_entry list"
  rk_Seek :: "'db \<Rightarrow> byte_array \<Rightarrow> db_entry list"

section \<open>The extension methods\<close>

definition Purge :: "'db rocks_ops \<Rightarrow> 'db option \<Rightarrow> 'db option" where
  "Purge ops db = (case db of None \<Rightarrow> None
     | Some d \<Rightarrow> let keysToDelete = map fst (rk_NewIterator ops d)
                 in Some (fold (rk_Remove ops) keysToDelete d))"

definition Store :: "'db rocks_ops \<Rightarrow> bool \<Rightarrow> 'db option \<Rightarrow> EnqueuedMessage \<Rightarrow> 'db option" where
  "Store ops le db message =
     map_option (rk_Put ops (ToKey le (em_SerialNumber message)) (Serialize message)) db"

definition RetrieveMessage ::
  "'db rocks_ops \<Rightarrow> bool \<Rightarrow> 'db option \<Rightarrow> u64 \<Rightarrow> cmq_error + EnqueuedMessage option" where
  "RetrieveMessage ops le db serialNumber =
     (case Option.bind db (\<lambda>d. rk_Get ops d (ToKey le serialNumber)) of
        None \<Rightarrow> Inl (PlainException ''Message not found'' [])
      | Some json \<Rightarrow> Deserialize json)"

text \<open>
  Messages are objects that the buffer and the deliveries in flight share, so the buffer is a
  list of object identities; \<open>List.Remove\<close> takes out the first occurrence.
\<close>

type_synonym oid = nat

record 'db EnqueuedMessageContainer =
  MessageBuffer :: "oid list"
  Database :: "'db option"

definition RemoveFromBufferAndDatabase ::
  "'db rocks_ops \<Rightarrow> bool \<Rightarrow> oid \<Rightarrow> EnqueuedMessage \<Rightarrow> 'db EnqueuedMessageContainer
     \<Rightarrow> 'db EnqueuedMessageContainer" where
  "RemoveFromBufferAndDatabase ops le oid message container =
     container\<lparr>Database := map_option (rk_Remove ops (ToKey le (em_SerialNumber message))) (Database container),
       MessageBuffer := remove1 oid (MessageBuffer container)\<rparr>"

section \<open>What the broker relies on\<close>

lemma sorted_keys_distinct: "sorted_wrt bytes_less ks \<Longrightarrow> distinct ks"
  by (induction ks) auto

abbreviation "key_sorted es \<equiv> sorted_wrt bytes_less (map fst es)"

locale rocksdb =
  fixes ops :: "'db rocks_ops"
  assumes iter_sorted: "key_sorted (rk_NewIterator ops d)"
    and get_iter: "rk_Get ops d k = map_of (rk_NewIterator ops d) k"
    and put_iter: "map_of (rk_NewIterator ops (rk_Put ops k v d)) = (map_of (rk_NewIterator ops d))(k \<mapsto> v)"
    and remove_iter: "map_of (rk_NewIterator ops (rk_Remove ops k d)) = (map_of (rk_NewIterator ops d))(k := None)"
    and seek_iter: "rk_Seek ops d k = dropWhile (\<lambda>e. bytes_less (fst e) k) (rk_NewIterator ops d)"
begin

definition contents :: "'db \<Rightarrow> byte_array \<rightharpoonup> json_doc" where
  "contents d = map_of (rk_NewIterator ops d)"

lemma keys_distinct: "distinct (map fst (rk_NewIterator ops d))"
  by (rule sorted_keys_distinct [OF iter_sorted])

lemma contents_put [simp]: "contents (rk_Put ops k v d) = (contents d)(k \<mapsto> v)"
  by (simp add: contents_def put_iter)

lemma contents_remove [simp]: "contents (rk_Remove ops k d) = (contents d)(k := None)"
  by (simp add: contents_def remove_iter)

lemma dom_contents: "dom (contents d) = fst ` set (rk_NewIterator ops d)"
  by (simp add: contents_def dom_map_of_conv_image_fst)

lemma finite_contents [simp]: "finite (dom (contents d))"
  by (simp add: dom_contents)

lemma length_iter: "length (rk_NewIterator ops d) = card (dom (contents d))"
  using distinct_card [OF keys_distinct [of d]] by (simp add: dom_contents)

lemma entry_contents: "(k, v) \<in> set (rk_NewIterator ops d) \<longleftrightarrow> contents d k = Some v"
  using keys_distinct [of d] by (simp add: contents_def)

lemma contents_fold_remove:
  "contents (fold (rk_Remove ops) ks d) = (\<lambda>k. if k \<in> set ks then None else contents d k)"
  by (induction ks arbitrary: d) (auto simp: fun_eq_iff)

lemma contents_Purge: "Purge ops (Some d) = Some d' \<Longrightarrow> contents d' = Map.empty"
  by (auto simp: Purge_def Let_def contents_fold_remove fun_eq_iff dom_contents [symmetric] domIff)

lemma iter_empty_iff: "rk_NewIterator ops d = [] \<longleftrightarrow> contents d = Map.empty"
  by (auto simp: contents_def)

lemma Retrieve_Store:
  "RetrieveMessage ops le (Store ops le (Some d) m) (em_SerialNumber m) = Inr (Some (forget_delivery m))"
  by (simp add: RetrieveMessage_def Store_def get_iter put_iter Deserialize_Serialize)

lemma Retrieve_Store_other:
  "s \<noteq> em_SerialNumber m \<Longrightarrow>
     RetrieveMessage ops le (Store ops le (Some d) m) s = RetrieveMessage ops le (Some d) s"
  by (simp add: RetrieveMessage_def Store_def get_iter put_iter)

end

end
