(* ===== verification/Reference_Store.thy ===== *)
theory Reference_Store
  imports Messages "HOL-Library.RBT" "HOL-Library.List_Lexorder"
begin

text \<open>
  A concrete database that meets the interface \<open>rocksdb\<close>: a red-black tree over the keys in
  lexicographic order. The witnesses of the persistent queues run on it.
\<close>

type_synonym rbt_db = "(byte_array, json_doc) rbt"

definition rbt_ops :: "rbt_db rocks_ops" where
  "rbt_ops = \<lparr>rk_Put = RBT.insert, rk_Remove = RBT.delete, rk_Get = RBT.lookup,
     rk_NewIterator = RBT.entries,
     rk_Seek = (\<lambda>d k. dropWhile (\<lambda>e. bytes_less (fst e) k) (RBT.entries d))\<rparr>"

lemma bytes_less_lexorder: "bytes_less xs ys \<longleftrightarrow> xs < ys"
proof (induction xs ys rule: bytes_less.induct)
  case (1 ys)
  then show ?case by (cases ys) auto
qed auto

interpretation ref_store: rocksdb rbt_ops
proof
  fix d :: rbt_db and k v
  show "key_sorted (rk_NewIterator rbt_ops d)"
    using RBT.sorted_entries [of d] RBT.distinct_entries [of d]
    by (simp add: rbt_ops_def bytes_less_lexorder [abs_def] strict_sorted_iff)
  show "rk_Get rbt_ops d k = map_of (rk_NewIterator rbt_ops d) k"
    by (simp add: rbt_ops_def RBT.map_of_entries)
  show "map_of (rk_NewIterator rbt_ops (rk_Put rbt_ops k v d)) = (map_of (rk_NewIterator rbt_ops d))(k \<mapsto> v)"
    by (simp add: rbt_ops_def RBT.map_of_entries)
  show "map_of (rk_NewIterator rbt_ops (rk_Remove rbt_ops k d)) = (map_of (rk_NewIterator rbt_ops d))(k := None)"
    by (simp add: rbt_ops_def RBT.map_of_entries)
  show "rk_Seek rbt_ops d k = dropWhile (\<lambda>e. bytes_less (fst e) k) (rk_NewIterator rbt_ops d)"
    by (simp add: rbt_ops_def)
qed

lemma rbt_empty_iter [simp]: "rk_NewIterator rbt_ops RBT.empty = []"
proof -
  have "map_of (RBT.entries (RBT.empty :: rbt_db)) = Map.empty"
    by (simp only: RBT.map_of_entries RBT.lookup_empty)
  then have "RBT.entries (RBT.empty :: rbt_db) = []"
    by (simp only: map_of_eq_empty_iff)
  then show ?thesis by (simp add: rbt_ops_def)
qed

end
