(* ===== verification/Queue_Config.thy ===== *)
theory Queue_Config
  imports CMq_Types
begin

text \<open>
  Queue configurations: \<open>CMqQueueConfiguration\<close>, its dead-letter companion, and the rule for
  valid queue names that keeps a queue's directory inside the persistence path.
\<close>

section \<open>Queue names\<close>

text \<open>The character class of \<open>CMqCompiledRegEx.InvalidQueueNameChars\<close>.\<close>

definition InvalidQueueNameChars :: "char \<Rightarrow> bool" where
  "InvalidQueueNameChars c =
     (c \<in> {CHR ''<'', CHR ''>'', CHR '':'', CHR 0x22, CHR ''/'', CHR 0x5C, CHR ''|'', CHR ''?'', CHR ''*''}
      \<or> (of_char c :: nat) \<le> 31)"

fun split_on :: "char \<Rightarrow> string \<Rightarrow> string list" where
  "split_on d [] = [[]]"
| "split_on d (c # cs) =
     (if c = d then [] # split_on d cs
      else case split_on d cs of [] \<Rightarrow> [[c]] | s # ss \<Rightarrow> (c # s) # ss)"

definition IsValidQueueName :: "string option \<Rightarrow> bool" where
  "IsValidQueueName name =
     (if IsNullOrWhiteSpace name then False
      else case name of None \<Rightarrow> False
      | Some n \<Rightarrow>
          if list_ex InvalidQueueNameChars n then False
          else if list_all (\<lambda>segment. length segment = 0) (split_on CHR ''.'' n) then False
          else True)"

section \<open>The configuration records\<close>

record CMqDeadLetterQueueConfiguration =
  dlq_DeliveryThrottle :: ticks
  dlq_MaxDeliveryAttempts :: int
  dlq_MaxMessageAge :: "ticks option"
  dlq_ConsumptionScheme :: CMqConsumptionScheme
  dlq_DeliveryScheme :: CMqDeliveryScheme
  dlq_PersistenceScheme :: CMqPersistenceScheme

definition CMqDeadLetterQueueConfiguration_new :: CMqDeadLetterQueueConfiguration where
  "CMqDeadLetterQueueConfiguration_new = \<lparr>dlq_DeliveryThrottle = 0, dlq_MaxDeliveryAttempts = 10,
     dlq_MaxMessageAge = None, dlq_ConsumptionScheme = AllSubscribersSatisfied,
     dlq_DeliveryScheme = Random, dlq_PersistenceScheme = Ephemeral\<rparr>"

record CMqQueueConfiguration =
  cfg_queueName :: "string option"
  PathPart :: "string option"
  AsynchronousDelivery :: bool
  MaxOutstandingDeliveries :: int
  DeliveryThrottle :: ticks
  IsDeadLetter :: bool
  MaxDeliveryAttempts :: int
  MaxMessageAge :: "ticks option"
  ConsumptionScheme :: CMqConsumptionScheme
  DeliveryScheme :: CMqDeliveryScheme
  PersistenceScheme :: CMqPersistenceScheme
  DeadLetterConfiguration :: "CMqDeadLetterQueueConfiguration option"

definition CMqQueueConfiguration_empty :: CMqQueueConfiguration where
  "CMqQueueConfiguration_empty = \<lparr>cfg_queueName = None, PathPart = None,
     AsynchronousDelivery = True, MaxOutstandingDeliveries = 5, DeliveryThrottle = 0,
     IsDeadLetter = False, MaxDeliveryAttempts = 10, MaxMessageAge = None,
     ConsumptionScheme = AllSubscribersSatisfied, DeliveryScheme = Random,
     PersistenceScheme = Ephemeral, DeadLetterConfiguration = None\<rparr>"

definition QueueName_get :: "CMqQueueConfiguration \<Rightarrow> cmq_error + string" where
  "QueueName_get c = (case cfg_queueName c of
     None \<Rightarrow> Inl (ArgumentNullException ''QueueName'') | Some n \<Rightarrow> Inr n)"

definition QueueName_set :: "string option \<Rightarrow> CMqQueueConfiguration \<Rightarrow> cmq_error + CMqQueueConfiguration" where
  "QueueName_set value c =
     (if \<not> IsValidQueueName value then Inl (ArgumentException ''QueueName contains invalid characters'')
      else case value of None \<Rightarrow> Inl (ArgumentException ''QueueName contains invalid characters'')
      | Some n \<Rightarrow> Inr (c\<lparr>cfg_queueName := Some n,
           PathPart := Some (map (\<lambda>ch. if InvalidQueueNameChars ch then CHR ''_'' else ch) n)\<rparr>))"

definition CMqQueueConfiguration_new :: "string option \<Rightarrow> cmq_error + CMqQueueConfiguration" where
  "CMqQueueConfiguration_new queueName = QueueName_set queueName CMqQueueConfiguration_empty"

definition ToConfiguration ::
  "CMqDeadLetterQueueConfiguration \<Rightarrow> string option \<Rightarrow> cmq_error + CMqQueueConfiguration" where
  "ToConfiguration d parentQueueName =
     (if IsNullOrWhiteSpace parentQueueName then Inl (ArgumentNullException ''parentQueueName'')
      else case CMqQueueConfiguration_new (map_option (\<lambda>p. p @ ''.dlq'') parentQueueName) of
        Inl e \<Rightarrow> Inl e
      | Inr c \<Rightarrow> Inr (c\<lparr>IsDeadLetter := True, DeadLetterConfiguration := None,
          ConsumptionScheme := dlq_ConsumptionScheme d, MaxMessageAge := dlq_MaxMessageAge d,
          PersistenceScheme := dlq_PersistenceScheme d, MaxDeliveryAttempts := dlq_MaxDeliveryAttempts d,
          DeliveryScheme := dlq_DeliveryScheme d, DeliveryThrottle := dlq_DeliveryThrottle d\<rparr>))"

section \<open>What a configuration that passed its setter looks like\<close>

definition config_ok :: "CMqQueueConfiguration \<Rightarrow> bool" where
  "config_ok c = (IsValidQueueName (cfg_queueName c) \<and> PathPart c = cfg_queueName c)"

text \<open>The name of a queue that went through the setter; every registered queue did.\<close>

definition queue_name :: "CMqQueueConfiguration \<Rightarrow> string" where
  "queue_name c = (case cfg_queueName c of None \<Rightarrow> [] | Some n \<Rightarrow> n)"

lemma split_on_nonempty [simp]: "split_on d cs \<noteq> []"
  by (induction cs) (auto split: list.splits)

lemma all_segments_empty_iff:
  "list_all (\<lambda>s. s = []) (split_on d cs) \<longleftrightarrow> list_all (\<lambda>c. c = d) cs"
proof (induction cs)
  case Nil
  then show ?case by simp
next
  case (Cons c cs)
  then show ?case by (cases "split_on d cs") auto
qed

lemma valid_name_iff:
  "IsValidQueueName (Some n) \<longleftrightarrow>
     \<not> list_all is_white n \<and> \<not> list_ex InvalidQueueNameChars n \<and> \<not> list_all (\<lambda>c. c = CHR ''.'') n"
  by (auto simp: IsValidQueueName_def IsNullOrWhiteSpace_def all_segments_empty_iff)

lemma valid_name_None [simp]: "\<not> IsValidQueueName None"
  by (simp add: IsValidQueueName_def IsNullOrWhiteSpace_def)

lemma replace_invalid_id:
  "\<not> list_ex InvalidQueueNameChars n \<Longrightarrow>
     map (\<lambda>ch. if InvalidQueueNameChars ch then CHR ''_'' else ch) n = n"
  by (induction n) auto

lemma QueueName_set_ok: "QueueName_set v c = Inr c' \<Longrightarrow> config_ok c' \<and> cfg_queueName c' = v"
  by (auto simp: QueueName_set_def config_ok_def valid_name_iff replace_invalid_id
      split: if_splits option.splits)

lemma QueueName_set_total: "IsValidQueueName (Some n) \<Longrightarrow> \<exists>c'. QueueName_set (Some n) c = Inr c'"
  by (simp add: QueueName_set_def)

lemma valid_name_dlq: "IsValidQueueName (Some n) \<Longrightarrow> IsValidQueueName (Some (n @ ''.dlq''))"
  by (auto simp: valid_name_iff InvalidQueueNameChars_def is_white_def)

lemma ToConfiguration_ok:
  assumes "IsValidQueueName (Some n)"
  shows "\<exists>c. ToConfiguration d (Some n) = Inr c \<and> config_ok c \<and> cfg_queueName c = Some (n @ ''.dlq'')
    \<and> IsDeadLetter c \<and> DeadLetterConfiguration c = None
    \<and> PersistenceScheme c = dlq_PersistenceScheme d"
proof -
  have nw: "\<not> IsNullOrWhiteSpace (Some n)"
    using assms by (simp add: valid_name_iff IsNullOrWhiteSpace_def)
  obtain c0 where c0: "CMqQueueConfiguration_new (Some (n @ ''.dlq'')) = Inr c0"
    using QueueName_set_total [OF valid_name_dlq [OF assms]] by (auto simp: CMqQueueConfiguration_new_def)
  then have "config_ok c0 \<and> cfg_queueName c0 = Some (n @ ''.dlq'')"
    unfolding CMqQueueConfiguration_new_def by (rule QueueName_set_ok)
  with nw c0 show ?thesis
    by (auto simp: ToConfiguration_def config_ok_def)
qed

end
