(* ===== verification/Codec_Properties.thy ===== *)
theory Codec_Properties
  imports Reference_Store Queue_Config
begin

text \<open>The properties of names, keys and stored messages.\<close>

text \<open>
  C15. The database key of a serial number reads back as that number on every byte order, and the
  bytewise order of keys is the order of serial numbers, so an iterator runs in queue order.
\<close>

theorem keys_keep_serial_order:
  "FromKey le (ToKey le' a) = Some a \<and> length (ToKey le a) = 8 \<and> ToKey le a = ToKey le' a
     \<and> (bytes_less (ToKey le a) (ToKey le' b) \<longleftrightarrow> a < b)"
  by (simp add: ToKey_endian [of le a le'])

text \<open>
  C14. A stored message is retrieved as it was stored, apart from its delivery progress, and
  storing it disturbs no message with another serial number.
\<close>

theorem stored_messages_are_retrieved:
  assumes "rocksdb ops"
  shows "RetrieveMessage ops le (Store ops le (Some d) m) s =
     (if s = em_SerialNumber m then Inr (Some (forget_delivery m)) else RetrieveMessage ops le (Some d) s)"
  using rocksdb.Retrieve_Store [OF assms, of le d m] rocksdb.Retrieve_Store_other [OF assms, of s m le d] by simp

theorem stored_messages_are_retrieved_witness:
  "RetrieveMessage rbt_ops True (Store rbt_ops True (Some RBT.empty) (EnqueuedMessage_new 5 ''Jobs'' ''Job'' ''{}'' 3)) 3 =
     Inr (Some (forget_delivery (EnqueuedMessage_new 5 ''Jobs'' ''Job'' ''{}'' 3)))"
  using stored_messages_are_retrieved [OF ref_store.rocksdb_axioms, of True RBT.empty "EnqueuedMessage_new 5 ''Jobs'' ''Job'' ''{}'' 3" 3]
  by (simp add: EnqueuedMessage_new_def)

text \<open>
  C16. A queue name that passes the setter is its own directory name, one path component that is
  neither the directory itself nor its parent, and its dead-letter queue's name passes too.
\<close>

theorem accepted_names_are_path_components:
  assumes "QueueName_set v c = Inr c'"
  shows "\<exists>n. v = Some n \<and> cfg_queueName c' = Some n \<and> PathPart c' = Some n
     \<and> CHR ''/'' \<notin> set n \<and> CHR 0x5C \<notin> set n \<and> CHR '':'' \<notin> set n \<and> n \<noteq> [] \<and> n \<noteq> ''.'' \<and> n \<noteq> ''..''
     \<and> (\<exists>dc. ToConfiguration d (Some n) = Inr dc \<and> cfg_queueName dc = Some (n @ ''.dlq'') \<and> IsDeadLetter dc)"
proof -
  have ok: "config_ok c'" "cfg_queueName c' = v" using QueueName_set_ok [OF assms] by auto
  then obtain n where n: "v = Some n" "IsValidQueueName (Some n)" by (cases v) (auto simp: config_ok_def)
  have "\<not> list_ex InvalidQueueNameChars n" "\<not> list_all (\<lambda>c. c = CHR ''.'') n"
    using n(2) by (simp_all add: valid_name_iff)
  then have "\<forall>ch \<in> set n. \<not> InvalidQueueNameChars ch" "n \<noteq> []" "n \<noteq> ''.''" "n \<noteq> ''..''"
    by (auto simp: list_ex_iff)
  moreover obtain dc where "ToConfiguration d (Some n) = Inr dc \<and> cfg_queueName dc = Some (n @ ''.dlq'') \<and> IsDeadLetter dc"
    using ToConfiguration_ok [OF n(2)] by blast
  ultimately show ?thesis
    using ok n by (auto simp: config_ok_def InvalidQueueNameChars_def)
qed

theorem accepted_names_are_path_components_witness:
  "\<exists>c'. QueueName_set (Some ''Orders'') CMqQueueConfiguration_empty = Inr c' \<and> PathPart c' = Some ''Orders''"
proof -
  obtain c' where c: "QueueName_set (Some ''Orders'') CMqQueueConfiguration_empty = Inr c'"
    using QueueName_set_total [of "''Orders''" CMqQueueConfiguration_empty]
    by (auto simp: valid_name_iff is_white_def InvalidQueueNameChars_def)
  then show ?thesis using accepted_names_are_path_components [OF c, of CMqDeadLetterQueueConfiguration_new] by auto
qed

end
