(* ===== verification/Retry_Loop.thy ===== *)
theory Retry_Loop
  imports CMq_Types
begin

text \<open>
  The loop every lock-taking operation of \<open>CMqServer\<close> is written with: while the server runs,
  give up at the deadline, try the body, sleep and try again when a lock could not be had. The
  locks (\<open>OptimisticCriticalResource\<close>) and the clock are not part of the repository; an
  \<^emph>\<open>attempt\<close> records what one turn of the loop sees of them: the server's running flag, the
  tick count, and for each queue whether its lock is granted. A run that is still retrying when
  the recorded attempts end has no exit.
\<close>

record attempt =
  at_running :: bool
  at_tick :: ticks
  at_lock :: "string \<Rightarrow> bool"

datatype 'a loop_exit = Returned 'a | Raised cmq_error | NotRunning

type_synonym ('s, 'a) loop_body = "attempt \<Rightarrow> 's \<Rightarrow> 's \<times> (cmq_error + 'a option)"

fun retry_loop ::
  "ticks \<Rightarrow> ticks \<Rightarrow> ('s, 'a) loop_body \<Rightarrow> attempt list \<Rightarrow> 's \<Rightarrow> 's \<times> 'a loop_exit option" where
  "retry_loop deadline timeoutMs body [] s = (s, None)"
| "retry_loop deadline timeoutMs body (a # as) s =
     (if \<not> at_running a then (s, Some NotRunning)
      else if deadline \<le> at_tick a then (s, Some (Raised (TimeoutException timeoutMs)))
      else case body a s of
          (s', Inl e) \<Rightarrow> (s', Some (Raised e))
        | (s', Inr (Some r)) \<Rightarrow> (s', Some (Returned r))
        | (s', Inr None) \<Rightarrow> retry_loop deadline timeoutMs body as s')"

text \<open>\<open>timeoutMs = timeout?.TotalMilliseconds ?? DEFAULT_LOCK_TIMEOUT_MS\<close>; the deadline is relative to the entry tick.\<close>

definition timeout_or_default :: "ticks option \<Rightarrow> ticks" where
  "timeout_or_default t = (case t of None \<Rightarrow> DEFAULT_LOCK_TIMEOUT_MS | Some ms \<Rightarrow> ms)"

definition with_retry ::
  "ticks \<Rightarrow> ticks option \<Rightarrow> ('s, 'a) loop_body \<Rightarrow> attempt list \<Rightarrow> 's \<Rightarrow> 's \<times> 'a loop_exit option" where
  "with_retry now timeout body as s =
     (let timeoutMs = timeout_or_default timeout
      in retry_loop (now + timeoutMs) timeoutMs body as s)"

text \<open>What a method does after its loop when the server stopped: throw, or return quietly.\<close>

definition throw_not_running :: "'s \<times> 'a loop_exit option \<Rightarrow> 's \<times> 'a loop_exit option" where
  "throw_not_running r = (case r of
     (s, Some NotRunning) \<Rightarrow> (s, Some (Raised (InvalidOperationException ''The server is not running.'')))
   | _ \<Rightarrow> r)"

definition return_not_running :: "'a \<Rightarrow> 's \<times> 'a loop_exit option \<Rightarrow> 's \<times> 'a loop_exit option" where
  "return_not_running x r = (case r of (s, Some NotRunning) \<Rightarrow> (s, Some (Returned x)) | _ \<Rightarrow> r)"

lemma fst_throw_not_running [simp]: "fst (throw_not_running r) = fst r"
  by (auto simp: throw_not_running_def split: prod.splits option.splits loop_exit.splits)

lemma fst_return_not_running [simp]: "fst (return_not_running x r) = fst r"
  by (auto simp: return_not_running_def split: prod.splits option.splits loop_exit.splits)

lemma exit_throw_not_running [simp]: "snd (throw_not_running r) = None \<longleftrightarrow> snd r = None"
  by (auto simp: throw_not_running_def split: prod.splits option.splits loop_exit.splits)

lemma exit_return_not_running [simp]: "snd (return_not_running x r) = None \<longleftrightarrow> snd r = None"
  by (auto simp: return_not_running_def split: prod.splits option.splits loop_exit.splits)

section \<open>The contract of a loop body\<close>

text \<open>
  A body changes nothing when it gets no lock, does not ask for another turn when it gets every
  lock, and keeps the invariant of its state.
\<close>

locale retry_body =
  fixes body :: "('s, 'a) loop_body"
    and inv :: "'s \<Rightarrow> bool"
  assumes body_keeps: "inv s \<Longrightarrow> inv (fst (body a s))"
    and body_blocked: "(\<forall>k. \<not> at_lock a k) \<Longrightarrow> fst (body a s) = s"
    and body_granted: "(\<forall>k. at_lock a k) \<Longrightarrow> snd (body a s) \<noteq> Inr None"
begin

lemma loop_keeps: "inv s \<Longrightarrow> inv (fst (retry_loop deadline ms body as s))"
proof (induction as arbitrary: s)
  case Nil
  then show ?case by simp
next
  case (Cons a as)
  then show ?case
    using body_keeps [OF Cons.prems, of a]
    by (auto split: prod.splits sum.splits option.splits)
qed

lemma with_retry_keeps: "inv s \<Longrightarrow> inv (fst (with_retry now timeout body as s))"
  by (simp add: with_retry_def Let_def loop_keeps)

lemma loop_exits:
  "\<exists>a \<in> set as. \<not> at_running a \<or> deadline \<le> at_tick a \<or> (\<forall>k. at_lock a k) \<Longrightarrow>
     snd (retry_loop deadline ms body as s) \<noteq> None"
proof (induction as arbitrary: s)
  case Nil
  then show ?case by simp
next
  case (Cons a as)
  show ?case
  proof (cases "\<not> at_running a \<or> deadline \<le> at_tick a \<or> (\<forall>k. at_lock a k)")
    case True
    then show ?thesis
      using body_granted [of a s] by (auto split: prod.splits sum.splits option.splits)
  next
    case False
    with Cons.prems have "\<exists>a \<in> set as. \<not> at_running a \<or> deadline \<le> at_tick a \<or> (\<forall>k. at_lock a k)"
      by auto
    then show ?thesis
      using Cons.IH by (auto split: prod.splits sum.splits option.splits)
  qed
qed

lemma loop_blocked:
  "\<forall>a \<in> set as. \<forall>k. \<not> at_lock a k \<Longrightarrow> fst (retry_loop deadline ms body as s) = s"
proof (induction as arbitrary: s)
  case Nil
  then show ?case by simp
next
  case (Cons a as)
  then have "fst (body a s) = s" by (intro body_blocked) auto
  with Cons show ?case
    by (auto split: prod.splits sum.splits option.splits)
qed

end

text \<open>A body that changes nothing when it asks for another turn takes effect at most once.\<close>

locale atomic_body = retry_body +
  assumes body_pending: "snd (body a s) = Inr None \<Longrightarrow> fst (body a s) = s"
begin

lemma loop_once:
  "fst (retry_loop deadline ms body as s) = s
     \<or> (\<exists>a \<in> set as. fst (retry_loop deadline ms body as s) = fst (body a s))"
proof (induction as)
  case Nil
  then show ?case by simp
next
  case (Cons a as)
  show ?case
  proof (cases "snd (body a s) = Inr None")
    case True
    then have "body a s = (s, Inr None)" using body_pending [of a s] by (metis prod.collapse)
    then show ?thesis using Cons by auto
  next
    case False
    then show ?thesis by (auto split: prod.splits sum.splits option.splits)
  qed
qed

lemma with_retry_once:
  "fst (with_retry now timeout body as s) = s \<or> (\<exists>a. fst (with_retry now timeout body as s) = fst (body a s))"
  using loop_once by (fastforce simp: with_retry_def Let_def)

lemma loop_returned:
  "retry_loop deadline ms body as s = (s', Some (Returned r)) \<Longrightarrow>
     \<exists>a \<in> set as. at_running a \<and> at_tick a < deadline \<and> body a s = (s', Inr (Some r))"
proof (induction as)
  case Nil
  then show ?case by simp
next
  case (Cons a as)
  show ?case
  proof (cases "snd (body a s) = Inr None")
    case True
    then have "body a s = (s, Inr None)" using body_pending [of a s] by (metis prod.collapse)
    then show ?thesis using Cons by (auto split: if_splits)
  next
    case False
    then show ?thesis
      using Cons.prems by (auto split: prod.splits sum.splits option.splits if_splits)
  qed
qed

lemma with_retry_returned:
  "with_retry now timeout body as s = (s', Some (Returned r)) \<Longrightarrow>
     \<exists>a \<in> set as. at_running a \<and> at_tick a < now + timeout_or_default timeout \<and> body a s = (s', Inr (Some r))"
  unfolding with_retry_def Let_def by (rule loop_returned)

end

end
