(* ===== verification/Queue_Server.thy ===== *)
theory Queue_Server
  imports Queue_Config Messages Retry_Loop
begin

text \<open>
  \<open>SingleMessageQueueServer\<close>: the state of one queue and the operations on it that run under the
  queue's locks. Deliveries to subscribers are in \<open>Delivery\<close>.
\<close>

section \<open>The state of a queue\<close>

text \<open>
  Message objects and subscriber descriptors are shared by reference between the buffer, the
  subscriber dictionary and the deliveries in flight, so both live in stores indexed by object
  identity; \<open>q_next\<close> is the next unused identity.
\<close>

record 'db SingleMessageQueueServer =
  q_isRunning :: bool
  IsInitialized :: bool
  ErrorMessage :: "string option"
  q_event :: bool
  Subscribers :: "(guid, oid) dict"
  EnqueuedMessages :: "'db EnqueuedMessageContainer"
  Configuration :: CMqQueueConfiguration
  Statistics :: MessageQueueStatistics
  q_objects :: "oid \<Rightarrow> EnqueuedMessage"
  q_descriptors :: "oid \<Rightarrow> CMqSubscriberDescriptor"
  q_next :: oid

type_synonym 'db queue = "'db SingleMessageQueueServer"

definition SingleMessageQueueServer_new :: "CMqQueueConfiguration \<Rightarrow> 'db queue" where
  "SingleMessageQueueServer_new cfg = \<lparr>q_isRunning = False, IsInitialized = False,
     ErrorMessage = None, q_event = False, Subscribers = [],
     EnqueuedMessages = \<lparr>MessageBuffer = [], Database = None\<rparr>, Configuration = cfg,
     Statistics = MessageQueueStatistics_new,
     q_objects = (\<lambda>_. EnqueuedMessage_new 0 [] [] [] 0),
     q_descriptors = (\<lambda>_. CMqSubscriberDescriptor_new 0), q_next = 0\<rparr>"

definition IsStarted :: "'db queue \<Rightarrow> bool" where
  "IsStarted q = q_isRunning q"

abbreviation buffer :: "'db queue \<Rightarrow> oid list" where
  "buffer q \<equiv> MessageBuffer (EnqueuedMessages q)"

abbreviation database :: "'db queue \<Rightarrow> 'db option" where
  "database q \<equiv> Database (EnqueuedMessages q)"

abbreviation serial :: "'db queue \<Rightarrow> oid \<Rightarrow> u64" where
  "serial q i \<equiv> em_SerialNumber (q_objects q i)"

abbreviation is_persistent :: "'db queue \<Rightarrow> bool" where
  "is_persistent q \<equiv> PersistenceScheme (Configuration q) = Persistent"

definition set_buffer :: "oid list \<Rightarrow> 'db queue \<Rightarrow> 'db queue" where
  "set_buffer b q = q\<lparr>EnqueuedMessages := (EnqueuedMessages q)\<lparr>MessageBuffer := b\<rparr>\<rparr>"

definition set_database :: "'db option \<Rightarrow> 'db queue \<Rightarrow> 'db queue" where
  "set_database d q = q\<lparr>EnqueuedMessages := (EnqueuedMessages q)\<lparr>Database := d\<rparr>\<rparr>"

definition update_stats :: "(MessageQueueStatistics \<Rightarrow> MessageQueueStatistics) \<Rightarrow> 'db queue \<Rightarrow> 'db queue" where
  "update_stats f q = q\<lparr>Statistics := f (Statistics q)\<rparr>"

definition update_message :: "oid \<Rightarrow> (EnqueuedMessage \<Rightarrow> EnqueuedMessage) \<Rightarrow> 'db queue \<Rightarrow> 'db queue" where
  "update_message i f q = q\<lparr>q_objects := (q_objects q)(i := f (q_objects q i))\<rparr>"

definition update_descriptor ::
  "oid \<Rightarrow> (CMqSubscriberDescriptor \<Rightarrow> CMqSubscriberDescriptor) \<Rightarrow> 'db queue \<Rightarrow> 'db queue" where
  "update_descriptor i f q = q\<lparr>q_descriptors := (q_descriptors q)(i := f (q_descriptors q i))\<rparr>"

definition add_to_buffer :: "EnqueuedMessage \<Rightarrow> 'db queue \<Rightarrow> 'db queue" where
  "add_to_buffer m q = (set_buffer (buffer q @ [q_next q]) q)
     \<lparr>q_objects := (q_objects q)(q_next q := m), q_next := Suc (q_next q)\<rparr>"

definition set_event :: "'db queue \<Rightarrow> 'db queue" where
  "set_event q = q\<lparr>q_event := True\<rparr>"

lemmas queue_update_defs = set_buffer_def set_database_def update_stats_def update_message_def
  update_descriptor_def add_to_buffer_def set_event_def

section \<open>Enqueue, purge, subscribe\<close>

text \<open>What a client passes to \<open>Enqueue\<close>, and what the run time supplies.\<close>

record enqueue_args =
  ea_queueName :: string
  ea_deferDeliveryDuration :: "ticks option"
  ea_assemblyQualifiedTypeName :: string
  ea_messageJson :: string
  ea_NewGuid :: guid
  ea_Timestamp :: ticks
  ea_UtcNow :: ticks

definition enqueued_message :: "'db queue \<Rightarrow> enqueue_args \<Rightarrow> u64 \<Rightarrow> EnqueuedMessage" where
  "enqueued_message q e sn =
     (EnqueuedMessage_new (ea_Timestamp e) (queue_name (Configuration q))
        (ea_assemblyQualifiedTypeName e) (ea_messageJson e) sn)
       \<lparr>em_MessageId := ea_NewGuid e, em_DeferDuration := ea_deferDeliveryDuration e,
        em_DeferredUntil := map_option (\<lambda>d. ea_UtcNow e + d) (ea_deferDeliveryDuration e)\<rparr>"

definition count_received :: "'db queue \<Rightarrow> 'db queue" where
  "count_received q = update_stats (IncrementQueueDepth \<circ> IncrementReceivedMessageCount) q"

definition place_message ::
  "'db rocks_ops \<Rightarrow> bool \<Rightarrow> string \<Rightarrow> (u64 \<Rightarrow> EnqueuedMessage) \<Rightarrow> 'db queue \<Rightarrow> 'db queue \<times> (cmq_error + unit)" where
  "place_message ops le name mk q =
     (if is_persistent q then
        (case database q of
           None \<Rightarrow> (q, Inl (PlainException ''Persistence database has not been initialized for'' name))
         | Some d \<Rightarrow>
             let (sn, st) = GetNextSerialNumber (Statistics q);
                 q = q\<lparr>Statistics := st\<rparr>;
                 q = set_database (Store ops le (Some d) (mk sn)) q
             in (set_event (count_received q), Inr ()))
      else
        let (sn, st) = GetNextSerialNumber (Statistics q);
            q = q\<lparr>Statistics := st\<rparr>;
            q = add_to_buffer (mk sn) q
        in (set_event (count_received q), Inr ()))"

definition queue_enqueue ::
  "'db rocks_ops \<Rightarrow> bool \<Rightarrow> enqueue_args \<Rightarrow> 'db queue \<Rightarrow> 'db queue \<times> (cmq_error + unit)" where
  "queue_enqueue ops le e q = place_message ops le (ea_queueName e) (enqueued_message q e) q"

definition queue_purge :: "'db rocks_ops \<Rightarrow> string \<Rightarrow> 'db queue \<Rightarrow> 'db queue \<times> (cmq_error + unit)" where
  "queue_purge ops name q =
     (if is_persistent q \<and> database q = None
      then (q, Inl (PlainException ''Persistence database has not been initialized for'' name))
      else
        let q = (if is_persistent q then set_database (Purge ops (database q)) q else q);
            q = set_buffer [] q
        in (update_stats (SetQueueDepth 0) q, Inr ()))"

record endpoint =
  ep_Address :: string
  ep_Port :: int

definition queue_subscribe ::
  "guid \<Rightarrow> endpoint option \<Rightarrow> endpoint option \<Rightarrow> 'db queue \<Rightarrow> 'db queue" where
  "queue_subscribe subscriberId localEndpoint remoteEndpoint q =
     (if subscriberId \<in> fst ` set (Subscribers q) then q
      else q\<lparr>Subscribers := Subscribers q @ [(subscriberId, q_next q)],
             q_descriptors := (q_descriptors q)(q_next q :=
               (CMqSubscriberDescriptor_new subscriberId)
                 \<lparr>LocalAddress := map_option ep_Address localEndpoint,
                  RemoteAddress := map_option ep_Address remoteEndpoint,
                  LocalPort := map_option ep_Port localEndpoint,
                  RemotePort := map_option ep_Port remoteEndpoint\<rparr>),
             q_next := Suc (q_next q)\<rparr>)"

definition queue_unsubscribe :: "guid \<Rightarrow> 'db queue \<Rightarrow> 'db queue" where
  "queue_unsubscribe subscriberId q = q\<lparr>Subscribers := dict_remove subscriberId (Subscribers q)\<rparr>"

end
