(* ===== verification/Queue_Thread.thy ===== *)
theory Queue_Thread
  imports Queue_Server
begin

text \<open>
  The parts of \<open>SingleMessageQueueServer.DeliveryThreadProc\<close> that work on the queue alone:
  expiring old messages, choosing the next message, refilling the buffer from the database; and
  the queue's start, shutdown and database initialization.
\<close>

section \<open>Expiration\<close>

text \<open>\<open>(now - o.Timestamp) > MaxMessageAge\<close>, false when the age limit is null.\<close>

definition older_than :: "ticks \<Rightarrow> EnqueuedMessage \<Rightarrow> ticks option \<Rightarrow> bool" where
  "older_than now m age = (case age of None \<Rightarrow> False | Some a \<Rightarrow> now - em_Timestamp m > a)"

definition expired_state :: "CMqQueueConfiguration \<Rightarrow> ticks \<Rightarrow> EnqueuedMessage \<Rightarrow> CMqMessageState" where
  "expired_state cfg now m =
     (case DeadLetterConfiguration cfg of
        Some d \<Rightarrow> if older_than now m (dlq_MaxMessageAge d) then Drop else DeadLetter
      | None \<Rightarrow> Drop)"

definition is_expired :: "CMqQueueConfiguration \<Rightarrow> ticks \<Rightarrow> EnqueuedMessage \<Rightarrow> bool" where
  "is_expired cfg now m = (em_State m = Ready \<and> older_than now m (MaxMessageAge cfg))"

definition expire_one :: "ticks \<Rightarrow> oid \<Rightarrow> 'db queue \<Rightarrow> 'db queue" where
  "expire_one now i q =
     (if is_expired (Configuration q) now (q_objects q i)
      then update_stats IncrementExpiredMessageCount
             (update_message i (\<lambda>m. m\<lparr>em_State := expired_state (Configuration q) now m\<rparr>) q)
      else q)"

definition ExpireMessages :: "ticks \<Rightarrow> 'db queue \<Rightarrow> 'db queue" where
  "ExpireMessages now q =
     (if MaxMessageAge (Configuration q) \<noteq> None then fold (expire_one now) (buffer q) q else q)"

section \<open>Choosing the next message\<close>

definition deliverable :: "ticks \<Rightarrow> EnqueuedMessage \<Rightarrow> bool" where
  "deliverable now m = (em_State m = Ready \<and>
     (case em_DeferredUntil m of None \<Rightarrow> True | Some t \<Rightarrow> now \<ge> t))"

definition SelectTopMessage :: "ticks \<Rightarrow> 'db queue \<Rightarrow> oid option" where
  "SelectTopMessage now q =
     (if OutstandingDeliveries (Statistics q) < MaxOutstandingDeliveries (Configuration q)
         \<and> length (Subscribers q) > 0
      then find (\<lambda>i. deliverable now (q_objects q i)) (buffer q)
      else None)"

definition wants_rehydration :: "ticks \<Rightarrow> 'db queue \<Rightarrow> bool" where
  "wants_rehydration now q =
     (OutstandingDeliveries (Statistics q) < MaxOutstandingDeliveries (Configuration q)
      \<and> length (Subscribers q) > 0 \<and> is_persistent q
      \<and> QueueDepth (Statistics q) > int (length (buffer q))
      \<and> (SelectTopMessage now q = None
          \<or> int (length (buffer q)) < DEFAULT_PERSISTENT_MESSAGES_MIN_BUFFER))"

text \<open>Taking the chosen message out: it is counted and marked before any delivery starts.\<close>

definition begin_delivery :: "oid \<Rightarrow> 'db queue \<Rightarrow> 'db queue" where
  "begin_delivery i q = update_message i (\<lambda>m. m\<lparr>em_State := OutForDelivery\<rparr>)
     (update_stats IncrementOutstandingDeliveries q)"

section \<open>Refilling the buffer\<close>

definition max_buffered_serial :: "'db queue \<Rightarrow> u64 option" where
  "max_buffered_serial q =
     (if buffer q = [] then None else Some (Max (set (map (serial q) (buffer q)))))"

text \<open>
  One turn of the \<open>for\<close> loop over the iterator per entry. \<open>gen\<close> supplies the fresh identifier
  for a message stored without one.
\<close>

fun hydrate_loop ::
  "'db rocks_ops \<Rightarrow> bool \<Rightarrow> (u64 \<Rightarrow> guid) \<Rightarrow> nat \<Rightarrow> u64 option \<Rightarrow> db_entry list \<Rightarrow> nat \<Rightarrow> 'db queue
     \<Rightarrow> 'db queue \<times> (cmq_error + unit)" where
  "hydrate_loop ops le gen countToGet maxSn [] loaded q = (q, Inr ())"
| "hydrate_loop ops le gen countToGet maxSn ((key, json) # es) loaded q =
     (if \<not> loaded < countToGet then (q, Inr ())
      else case FromKey le key of
        None \<Rightarrow> (q, Inl (ArgumentException ''value''))
      | Some persistedSerialNumber \<Rightarrow>
          if (case maxSn of None \<Rightarrow> True | Some m \<Rightarrow> persistedSerialNumber > m) then
            (case Deserialize json of
               Inl e \<Rightarrow> (q, Inl e)
             | Inr None \<Rightarrow> hydrate_loop ops le gen countToGet maxSn es loaded q
             | Inr (Some m) \<Rightarrow>
                 let fresh = (em_MessageId m = 0);
                     m = (if fresh then m\<lparr>em_MessageId := gen persistedSerialNumber\<rparr> else m);
                     q = (if fresh then set_database (Store ops le (database q) m) q else q)
                 in hydrate_loop ops le gen countToGet maxSn es (Suc loaded) (add_to_buffer m q))
          else hydrate_loop ops le gen countToGet maxSn es loaded q)"

definition HydrateMessageBuffer ::
  "'db rocks_ops \<Rightarrow> bool \<Rightarrow> (u64 \<Rightarrow> guid) \<Rightarrow> nat \<Rightarrow> bool \<Rightarrow> 'db queue \<Rightarrow> 'db queue \<times> (cmq_error + bool)" where
  "HydrateMessageBuffer ops le gen countToGet locked q =
     (if \<not> is_persistent q then (q, Inr False)
      else if \<not> locked then (q, Inr False)
      else case database q of
        None \<Rightarrow> (q, Inl (PlainException ''Persistence database has not been initialized for'' (queue_name (Configuration q))))
      | Some d \<Rightarrow>
          let maxSn = max_buffered_serial q;
              entries = (case maxSn of Some m \<Rightarrow> rk_Seek ops d (ToKey le (m + 1)) | None \<Rightarrow> rk_NewIterator ops d)
          in case hydrate_loop ops le gen countToGet maxSn entries 0 q of
               (q', Inl e) \<Rightarrow> (q', Inl e)
             | (q', Inr _) \<Rightarrow> (q', Inr True))"

section \<open>Initialization, start and shutdown\<close>

text \<open>
  \<open>opened\<close> is what creating the directory and opening the database at the queue's path gave: the
  database as it is on disk, or the message of the exception.
\<close>

definition InitializePersistentDatabase ::
  "'db rocks_ops \<Rightarrow> bool \<Rightarrow> (string + 'db) \<Rightarrow> 'db queue \<Rightarrow> 'db queue" where
  "InitializePersistentDatabase ops le opened q =
     (if \<not> is_persistent q then q\<lparr>IsInitialized := True\<rparr>
      else case opened of
        Inl msg \<Rightarrow> q\<lparr>ErrorMessage := Some msg\<rparr>
      | Inr persistenceDatabase \<Rightarrow>
          let q = update_stats (SetQueueDepth 0) q;
              keys = map fst (rk_NewIterator ops persistenceDatabase);
              messagesLoaded = wrap_i32 (int (length keys));
              lastSerialNumberBytes = (if keys = [] then GetBytes le 0 else last keys)
          in case FromKey le lastSerialNumberBytes of
               None \<Rightarrow> q\<lparr>ErrorMessage := Some ''Critical error occurred initializing persistence database''\<rparr>
             | Some lastSerial \<Rightarrow>
                 (set_database (Some persistenceDatabase)
                    (update_stats (SetLastSerialNumber lastSerial \<circ> SetQueueDepth messagesLoaded) q))
                   \<lparr>IsInitialized := True\<rparr>)"

definition Start_queue :: "'db queue \<Rightarrow> 'db queue" where
  "Start_queue q = q\<lparr>q_isRunning := True\<rparr>"

definition SignalShutdown :: "'db queue \<Rightarrow> 'db queue" where
  "SignalShutdown q = q\<lparr>q_isRunning := False\<rparr>"

definition WaitForShutdown :: "'db queue \<Rightarrow> 'db queue" where
  "WaitForShutdown q = set_database None q"

section \<open>What the passes do\<close>

lemma buffer_updates [simp]:
  "buffer (set_buffer b q) = b"
  "buffer (set_database d q) = buffer q"
  "buffer (update_stats f q) = buffer q"
  "buffer (update_message i g q) = buffer q"
  "buffer (update_descriptor i h q) = buffer q"
  "buffer (add_to_buffer m q) = buffer q @ [q_next q]"
  "buffer (set_event q) = buffer q"
  "buffer (count_received q) = buffer q"
  by (simp_all add: queue_update_defs count_received_def)

lemma database_updates [simp]:
  "database (set_buffer b q) = database q"
  "database (set_database d q) = d"
  "database (update_stats f q) = database q"
  "database (update_message i g q) = database q"
  "database (update_descriptor i h q) = database q"
  "database (add_to_buffer m q) = database q"
  "database (set_event q) = database q"
  "database (count_received q) = database q"
  by (simp_all add: queue_update_defs count_received_def)

lemma config_updates [simp]:
  "Configuration (set_buffer b q) = Configuration q"
  "Configuration (set_database d q) = Configuration q"
  "Configuration (update_stats f q) = Configuration q"
  "Configuration (update_message i g q) = Configuration q"
  "Configuration (update_descriptor i h q) = Configuration q"
  "Configuration (add_to_buffer m q) = Configuration q"
  "Configuration (set_event q) = Configuration q"
  "Configuration (count_received q) = Configuration q"
  by (simp_all add: queue_update_defs count_received_def)

lemma subscribers_updates [simp]:
  "Subscribers (set_buffer b q) = Subscribers q"
  "Subscribers (set_database d q) = Subscribers q"
  "Subscribers (update_stats f q) = Subscribers q"
  "Subscribers (update_message i g q) = Subscribers q"
  "Subscribers (update_descriptor i h q) = Subscribers q"
  "Subscribers (add_to_buffer m q) = Subscribers q"
  "Subscribers (set_event q) = Subscribers q"
  "Subscribers (count_received q) = Subscribers q"
  by (simp_all add: queue_update_defs count_received_def)

lemma stats_updates [simp]:
  "Statistics (set_buffer b q) = Statistics q"
  "Statistics (set_database d q) = Statistics q"
  "Statistics (update_stats f q) = f (Statistics q)"
  "Statistics (update_message i g q) = Statistics q"
  "Statistics (update_descriptor i h q) = Statistics q"
  "Statistics (add_to_buffer m q) = Statistics q"
  "Statistics (set_event q) = Statistics q"
  "Statistics (count_received q) = IncrementQueueDepth (IncrementReceivedMessageCount (Statistics q))"
  by (simp_all add: queue_update_defs count_received_def)

lemma objects_updates [simp]:
  "q_objects (set_buffer b q) = q_objects q"
  "q_objects (set_database d q) = q_objects q"
  "q_objects (update_stats f q) = q_objects q"
  "q_objects (update_message i g q) = (q_objects q)(i := g (q_objects q i))"
  "q_objects (update_descriptor i h q) = q_objects q"
  "q_objects (add_to_buffer m q) = (q_objects q)(q_next q := m)"
  "q_objects (set_event q) = q_objects q"
  "q_objects (count_received q) = q_objects q"
  by (simp_all add: queue_update_defs count_received_def)

lemma next_updates [simp]:
  "q_next (set_buffer b q) = q_next q"
  "q_next (set_database d q) = q_next q"
  "q_next (update_stats f q) = q_next q"
  "q_next (update_message i g q) = q_next q"
  "q_next (update_descriptor i h q) = q_next q"
  "q_next (add_to_buffer m q) = Suc (q_next q)"
  "q_next (set_event q) = q_next q"
  "q_next (count_received q) = q_next q"
  by (simp_all add: queue_update_defs count_received_def)

lemma descriptors_updates [simp]:
  "q_descriptors (set_buffer b q) = q_descriptors q"
  "q_descriptors (set_database d q) = q_descriptors q"
  "q_descriptors (update_stats f q) = q_descriptors q"
  "q_descriptors (update_message i g q) = q_descriptors q"
  "q_descriptors (update_descriptor i h q) = (q_descriptors q)(i := h (q_descriptors q i))"
  "q_descriptors (add_to_buffer m q) = q_descriptors q"
  "q_descriptors (set_event q) = q_descriptors q"
  "q_descriptors (count_received q) = q_descriptors q"
  by (simp_all add: queue_update_defs count_received_def)

lemma running_updates [simp]:
  "q_isRunning (set_buffer b q) = q_isRunning q"
  "q_isRunning (set_database d q) = q_isRunning q"
  "q_isRunning (update_stats f q) = q_isRunning q"
  "q_isRunning (update_message i g q) = q_isRunning q"
  "q_isRunning (update_descriptor i h q) = q_isRunning q"
  "q_isRunning (add_to_buffer m q) = q_isRunning q"
  "q_isRunning (set_event q) = q_isRunning q"
  "q_isRunning (count_received q) = q_isRunning q"
  by (simp_all add: queue_update_defs count_received_def)

end
