(* ===== verification/Delivery.thy ===== *)
theory Delivery
  imports Queue_Thread
begin

text \<open>
  Delivering one message to the subscribers of its queue: \<open>SubscriberDispositions\<close>, the loop of
  \<open>DistributeToSubscribersWithDisposition\<close> and the verdict it reaches. The network round trip of
  \<open>DeliverMessageWithResultAsync\<close> is the argument \<open>client\<close>; each turn of the loop is split at
  that await into \<open>attempt_delivery\<close> (before) and \<open>handle_reply\<close> (after), so that the same
  definitions serve the sequential run here and the interleaved one of \<open>Queue_Machine\<close>.
\<close>

section \<open>Who still has to get the message\<close>

record SubscriberDispositions =
  sd_SubscriberIDs :: "guid set"
  sd_RemainingSubscriberIDs :: "guid set"
  sd_Remaining :: "oid list"
  sd_ConsumedSubscriberIDs :: "guid set"

definition completedIDs :: "EnqueuedMessage \<Rightarrow> guid set" where
  "completedIDs m = em_DeliveryLimitReachedSubscriberIDs m \<union> em_SatisfiedDeliverySubscriberIDs m"

text \<open>\<open>rnd\<close> gives the sort keys of \<open>OrderBy(_ => Guid.NewGuid())\<close>.\<close>

definition SubscriberDispositions_new ::
  "(oid \<Rightarrow> nat) \<Rightarrow> 'db queue \<Rightarrow> EnqueuedMessage \<Rightarrow> SubscriberDispositions" where
  "SubscriberDispositions_new rnd q m =
     (let s = Subscribers q;
          remainingIDs = fst ` set s - completedIDs m;
          remaining = map snd (filter (\<lambda>p. fst p \<in> remainingIDs) s)
      in \<lparr>sd_SubscriberIDs = fst ` set s, sd_RemainingSubscriberIDs = remainingIDs,
          sd_Remaining = (case DeliveryScheme (Configuration q) of
              Random \<Rightarrow> sort_key rnd remaining
            | Balanced \<Rightarrow> sort_key (\<lambda>i. AttemptedDeliveryCount (q_descriptors q i)) remaining),
          sd_ConsumedSubscriberIDs = em_ConsumedDeliverySubscriberIDs m\<rparr>)"

section \<open>One delivery\<close>

record CMqMessageDeliveryQuery =
  dq_QueueName :: string
  dq_SerialNumber :: u64
  dq_AssemblyQualifiedTypeName :: string
  dq_MessageJson :: string
  dq_MessageId :: guid
  dq_Timestamp :: ticks
  dq_DeferDuration :: "ticks option"
  dq_DeferredCount :: int
  dq_SubscriberDeliveryCount :: nat
  dq_SatisfiedSubscriberCount :: nat
  dq_FailedSubscriberCount :: nat

definition delivery_query :: "string \<Rightarrow> EnqueuedMessage \<Rightarrow> CMqMessageDeliveryQuery" where
  "delivery_query queueName m = \<lparr>dq_QueueName = queueName, dq_SerialNumber = em_SerialNumber m,
     dq_AssemblyQualifiedTypeName = em_AssemblyQualifiedTypeName m, dq_MessageJson = em_MessageJson m,
     dq_MessageId = em_MessageId m, dq_Timestamp = em_Timestamp m,
     dq_DeferDuration = em_DeferDuration m, dq_DeferredCount = em_DeferredCount m,
     dq_SubscriberDeliveryCount = length (em_SubscriberMessageDeliveries m),
     dq_SatisfiedSubscriberCount = card (em_SatisfiedDeliverySubscriberIDs m),
     dq_FailedSubscriberCount = card (em_DeliveryLimitReachedSubscriberIDs m)\<rparr>"

text \<open>A reply that came back, or the exception of a failed round trip.\<close>

datatype delivery_outcome = Delivered CMqConsumeResult | DeliveryFailed

definition count_attempt :: "guid \<Rightarrow> EnqueuedMessage \<Rightarrow> EnqueuedMessage" where
  "count_attempt g m = m\<lparr>em_SubscriberMessageDeliveries :=
     (case map_of (em_SubscriberMessageDeliveries m) g of
        Some n \<Rightarrow> dict_put g (wrap_i32 (n + 1)) (em_SubscriberMessageDeliveries m)
      | None \<Rightarrow> em_SubscriberMessageDeliveries m @ [(g, 1)])\<rparr>"

definition attempt_delivery :: "oid \<Rightarrow> oid \<Rightarrow> 'db queue \<Rightarrow> 'db queue" where
  "attempt_delivery msg sub q =
     update_descriptor sub IncrementAttemptedDeliveryCount
       (update_message msg (count_attempt (SubscriberId (q_descriptors q sub))) q)"

definition check_delivery_limit :: "oid \<Rightarrow> guid \<Rightarrow> 'db queue \<Rightarrow> 'db queue" where
  "check_delivery_limit msg g q =
     (let m = q_objects q msg;
          attempts = (case map_of (em_SubscriberMessageDeliveries m) g of Some n \<Rightarrow> n | None \<Rightarrow> 0)
      in if MaxDeliveryAttempts (Configuration q) > 0
            \<and> attempts \<ge> MaxDeliveryAttempts (Configuration q)
            \<and> g \<notin> em_SatisfiedDeliverySubscriberIDs m
         then update_message msg (\<lambda>m. m\<lparr>em_DeliveryLimitReachedSubscriberIDs :=
                insert g (em_DeliveryLimitReachedSubscriberIDs m)\<rparr>) q
         else q)"

definition satisfy :: "guid \<Rightarrow> EnqueuedMessage \<Rightarrow> EnqueuedMessage" where
  "satisfy g m = m\<lparr>em_SatisfiedDeliverySubscriberIDs := insert g (em_SatisfiedDeliverySubscriberIDs m)\<rparr>"

definition note_consumed :: "guid \<Rightarrow> EnqueuedMessage \<Rightarrow> EnqueuedMessage" where
  "note_consumed g m = (satisfy g m)\<lparr>em_ConsumedDeliverySubscriberIDs :=
     insert g (em_ConsumedDeliverySubscriberIDs m)\<rparr>"

definition defer_message :: "ticks \<Rightarrow> ticks option \<Rightarrow> EnqueuedMessage \<Rightarrow> EnqueuedMessage" where
  "defer_message utcNow d m = m\<lparr>em_DeferredUntil := map_option (\<lambda>x. utcNow + x) d,
     em_DeferDuration := d, em_DeferredCount := wrap_i32 (em_DeferredCount m + 1)\<rparr>"

definition note_failure :: "oid \<Rightarrow> 'db queue \<Rightarrow> 'db queue" where
  "note_failure sub q = update_descriptor sub sub_IncrementFailedDeliveryCount
     (update_stats IncrementFailedDeliveryCount q)"

definition note_success :: "oid \<Rightarrow> 'db queue \<Rightarrow> 'db queue" where
  "note_success sub q = update_descriptor sub IncrementSuccessfulDeliveryCount
     (update_stats IncrementDeliveredMessageCount q)"

definition store_if_buffered :: "'db rocks_ops \<Rightarrow> bool \<Rightarrow> oid \<Rightarrow> 'db queue \<Rightarrow> 'db queue" where
  "store_if_buffered ops le msg q =
     (if msg \<in> set (buffer q) then set_database (Store ops le (database q) (q_objects q msg)) q else q)"

text \<open>
  What the reply of one subscriber does: the queue, the subscribers that failed so far, and the
  state the method returns at once, if it does.
\<close>

definition handle_reply ::
  "'db rocks_ops \<Rightarrow> bool \<Rightarrow> ticks \<Rightarrow> oid \<Rightarrow> oid \<Rightarrow> delivery_outcome \<Rightarrow> guid set \<Rightarrow> 'db queue
     \<Rightarrow> 'db queue \<times> guid set \<times> CMqMessageState option" where
  "handle_reply ops le utcNow msg sub outcome failed q =
     (let g = SubscriberId (q_descriptors q sub) in
      case outcome of
        DeliveryFailed \<Rightarrow> (check_delivery_limit msg g (note_failure sub q), insert g failed, None)
      | Delivered r \<Rightarrow>
          let q = note_success sub q in
          (case Disposition r of
             Consumed \<Rightarrow>
               let q = update_message msg (note_consumed g) (update_descriptor sub IncrementConsumedDeliveryCount q)
               in (case ConsumptionScheme (Configuration q) of
                     FirstConsumedSubscriber \<Rightarrow> (q, failed, Some Drop)
                   | AllSubscribersSatisfied \<Rightarrow> (check_delivery_limit msg g q, failed, None))
           | NotInterested \<Rightarrow> (check_delivery_limit msg g (update_message msg (satisfy g) q), failed, None)
           | NotConsumed \<Rightarrow> (check_delivery_limit msg g q, failed, None)
           | Defer \<Rightarrow>
               (store_if_buffered ops le msg
                  (update_stats IncrementDeferredDeliveryCount
                    (update_descriptor sub sub_IncrementDeferredDeliveryCount
                      (update_message msg (defer_message utcNow (cr_DeferDuration r)) q))), failed, Some Ready)
           | CMqConsumptionDisposition.DeadLetter \<Rightarrow>
               (update_stats IncrementExplicitDeadLetterCount q, failed, Some DeadLetter)
           | CMqConsumptionDisposition.Drop \<Rightarrow>
               (update_stats IncrementExplicitDropCount q, failed, Some Drop)
           | Exception \<Rightarrow> (check_delivery_limit msg g (note_failure sub q), insert g failed, None)))"

section \<open>The verdict\<close>

definition no_remaining_verdict :: "SubscriberDispositions \<Rightarrow> CMqMessageState" where
  "no_remaining_verdict sd = (if sd_ConsumedSubscriberIDs sd \<noteq> {} then Drop else DeadLetter)"

definition final_verdict ::
  "(oid \<Rightarrow> nat) \<Rightarrow> oid \<Rightarrow> guid set \<Rightarrow> guid set \<Rightarrow> 'db queue \<Rightarrow> CMqMessageState" where
  "final_verdict rnd msg attempted failed q =
     (if \<not> q_isRunning q then Shutdown
      else if attempted - failed = {} then Ready
      else if sd_Remaining (SubscriberDispositions_new rnd q (q_objects q msg)) = [] then
        (if em_DeliveryLimitReachedSubscriberIDs (q_objects q msg) \<noteq> {}
            \<and> DeadLetterConfiguration (Configuration q) \<noteq> None
         then DeadLetter else Drop)
      else Ready)"

fun distribute_loop ::
  "'db rocks_ops \<Rightarrow> bool \<Rightarrow> ticks \<Rightarrow> (guid \<Rightarrow> CMqMessageDeliveryQuery \<Rightarrow> delivery_outcome) \<Rightarrow> oid
     \<Rightarrow> oid list \<Rightarrow> guid set \<Rightarrow> 'db queue \<Rightarrow> 'db queue \<times> guid set \<times> CMqMessageState option" where
  "distribute_loop ops le utcNow client msg [] failed q = (q, failed, None)"
| "distribute_loop ops le utcNow client msg (sub # subs) failed q =
     (if \<not> q_isRunning q then (q, failed, Some Shutdown)
      else
        let q = attempt_delivery msg sub q;
            outcome = client (SubscriberId (q_descriptors q sub))
                        (delivery_query (queue_name (Configuration q)) (q_objects q msg))
        in case handle_reply ops le utcNow msg sub outcome failed q of
             (q, failed, Some st) \<Rightarrow> (q, failed, Some st)
           | (q, failed, None) \<Rightarrow> distribute_loop ops le utcNow client msg subs failed q)"

definition DistributeToSubscribersWithDisposition ::
  "'db rocks_ops \<Rightarrow> bool \<Rightarrow> (oid \<Rightarrow> nat) \<Rightarrow> ticks \<Rightarrow> (guid \<Rightarrow> CMqMessageDeliveryQuery \<Rightarrow> delivery_outcome)
     \<Rightarrow> oid \<Rightarrow> 'db queue \<Rightarrow> 'db queue \<times> CMqMessageState" where
  "DistributeToSubscribersWithDisposition ops le rnd utcNow client msg q =
     (let sd = SubscriberDispositions_new rnd q (q_objects q msg) in
      if sd_Remaining sd = [] then (q, no_remaining_verdict sd)
      else case distribute_loop ops le utcNow client msg (sd_Remaining sd) {} q of
          (q', failed, Some st) \<Rightarrow> (q', st)
        | (q', failed, None) \<Rightarrow>
            (q', final_verdict rnd msg (SubscriberId ` q_descriptors q' ` set (sd_Remaining sd)) failed q'))"

text \<open>The wrapper: the verdict becomes the message's state, and the delivery is no longer outstanding.\<close>

definition finish_delivery :: "oid \<Rightarrow> CMqMessageState \<Rightarrow> 'db queue \<Rightarrow> 'db queue" where
  "finish_delivery msg st q = update_stats DecrementOutstandingDeliveries
     (update_message msg (\<lambda>m. m\<lparr>em_State := st\<rparr>) q)"

definition DistributeToSubscribersAsync ::
  "'db rocks_ops \<Rightarrow> bool \<Rightarrow> (oid \<Rightarrow> nat) \<Rightarrow> ticks \<Rightarrow> (guid \<Rightarrow> CMqMessageDeliveryQuery \<Rightarrow> delivery_outcome)
     \<Rightarrow> oid \<Rightarrow> 'db queue \<Rightarrow> 'db queue" where
  "DistributeToSubscribersAsync ops le rnd utcNow client msg q =
     (case DistributeToSubscribersWithDisposition ops le rnd utcNow client msg q of
        (q', st) \<Rightarrow> finish_delivery msg st q')"

end
