(* ===== verification/Mq_Server.thy ===== *)
theory Mq_Server
  imports Queue_Thread Delivery
begin

text \<open>
  \<open>CMqServer\<close>: the registry of queues and the operations a client, an administrator or a
  delivery thread calls on it. The lock-taking operations are bodies of \<open>with_retry\<close>.
\<close>

section \<open>The state of the server\<close>

text \<open>
  \<open>queues_json\<close> is the file of that name; \<open>messages_dir\<close> gives, for a queue's directory under
  \<open>messages\<close>, the database a closed queue left there. Writing the configuration and statistics as
  JSON and reading them back is the identity but for \<open>stats_from_json\<close>.
\<close>

type_synonym queue_metadata = "CMqQueueConfiguration \<times> MessageQueueStatistics"

record 'db CMqServer =
  s_isRunning :: bool
  PersistencePath :: "string option"
  messageQueues :: "(string, 'db queue) dict"
  queues_json :: "queue_metadata list option"
  messages_dir :: "string option \<Rightarrow> 'db option"

type_synonym 'db server = "'db CMqServer"

text \<open>
  What the server uses of its surroundings: the database operations, the byte order, opening the
  database of a directory (given what is in it), the failure, if any, of writing a checkpoint,
  and whether a directory can be deleted.
\<close>

record 'db server_env =
  env_ops :: "'db rocks_ops"
  env_le :: bool
  env_open :: "string option \<Rightarrow> 'db option \<Rightarrow> string + 'db"
  env_checkpoint :: "queue_metadata list \<Rightarrow> cmq_error option"
  env_delete :: "string option \<Rightarrow> bool"

definition CMqServer_new :: "string option \<Rightarrow> 'db server" where
  "CMqServer_new path = \<lparr>s_isRunning = False, PersistencePath = path, messageQueues = [],
     queues_json = None, messages_dir = (\<lambda>_. None)\<rparr>"

definition find_queue :: "string \<Rightarrow> 'db server \<Rightarrow> 'db queue option" where
  "find_queue key srv = map_of (messageQueues srv) key"

definition put_queue :: "string \<Rightarrow> 'db queue \<Rightarrow> 'db server \<Rightarrow> 'db server" where
  "put_queue key q srv = srv\<lparr>messageQueues := dict_put key q (messageQueues srv)\<rparr>"

definition remove_queue :: "string \<Rightarrow> 'db server \<Rightarrow> 'db server" where
  "remove_queue key srv = srv\<lparr>messageQueues := dict_remove key (messageQueues srv)\<rparr>"

text \<open>Disposing the database handle leaves its contents in the queue's directory.\<close>

definition close_database :: "'db queue \<Rightarrow> 'db server \<Rightarrow> 'db server" where
  "close_database q srv = (case database q of None \<Rightarrow> srv
     | Some d \<Rightarrow> srv\<lparr>messages_dir := (messages_dir srv)(PathPart (Configuration q) := Some d)\<rparr>)"

section \<open>Checkpoints\<close>

definition persistent_metadata :: "'db server \<Rightarrow> queue_metadata list" where
  "persistent_metadata srv = map (\<lambda>(k, q). (Configuration q, Statistics q))
     (filter (\<lambda>(k, q). is_persistent q) (messageQueues srv))"

definition CheckpointPersistentMessageQueues ::
  "'db server_env \<Rightarrow> 'db server \<Rightarrow> 'db server \<times> (cmq_error + unit)" where
  "CheckpointPersistentMessageQueues env srv =
     (if IsNullOrEmpty (PersistencePath srv) then (srv, Inr ())
      else case env_checkpoint env (persistent_metadata srv) of
          Some e \<Rightarrow> (srv, Inl e)
        | None \<Rightarrow> (srv\<lparr>queues_json := Some (persistent_metadata srv)\<rparr>, Inr ()))"

section \<open>Creating and deleting queues\<close>

lemma ToConfiguration_leaf: "ToConfiguration d n = Inr c \<Longrightarrow> DeadLetterConfiguration c = None"
  by (auto simp: ToConfiguration_def split: if_splits sum.splits)

definition new_queue :: "'db server_env \<Rightarrow> CMqQueueConfiguration \<Rightarrow> 'db server \<Rightarrow> 'db queue" where
  "new_queue env cfg srv = InitializePersistentDatabase (env_ops env) (env_le env)
     (env_open env (PathPart cfg) (messages_dir srv (PathPart cfg))) (SingleMessageQueueServer_new cfg)"

text \<open>The rollback: \<open>mqd.Remove\<close>, \<open>SignalShutdown\<close>, \<open>WaitForShutdown\<close>.\<close>

definition unpublish_queue :: "string \<Rightarrow> 'db queue \<Rightarrow> 'db server \<Rightarrow> 'db server" where
  "unpublish_queue key q srv = close_database q (remove_queue key srv)"

function CreateQueueInternal ::
  "'db server_env \<Rightarrow> CMqQueueConfiguration \<Rightarrow> 'db server \<Rightarrow> 'db server \<times> (cmq_error + unit)" where
  "CreateQueueInternal env cfg srv =
     (case QueueName_get cfg of Inl e \<Rightarrow> (srv, Inl e)
      | Inr n \<Rightarrow>
        if n = [] then (srv, Inl (ArgumentException ''A queue name is required.''))
        else let queueKey = ToLowerInvariant n in
        if queueKey \<in> fst ` set (messageQueues srv) then (srv, Inr ())
        else if PersistenceScheme cfg = Persistent \<and> IsNullOrEmpty (PersistencePath srv)
        then (srv, Inl (PlainException ''The server persistence path is not configured.'' []))
        else let q = new_queue env cfg srv in
        if \<not> IsInitialized q then
          (srv, Inl (PlainException (case ErrorMessage q of Some m \<Rightarrow> m | None \<Rightarrow> ''Failed to initialize queue'') n))
        else
          let srv1 = srv\<lparr>messageQueues := messageQueues srv @ [(queueKey, q)]\<rparr>;
              (srv2, r) = (case DeadLetterConfiguration cfg of
                  None \<Rightarrow> (srv1, Inr ())
                | Some d \<Rightarrow> (case ToConfiguration d (cfg_queueName cfg) of
                      Inl e \<Rightarrow> (srv1, Inl e)
                    | Inr dlqConfig \<Rightarrow> CreateQueueInternal env dlqConfig srv1));
              (srv3, r3) = (case r of Inl e \<Rightarrow> (srv2, Inl e)
                | Inr _ \<Rightarrow> CheckpointPersistentMessageQueues env srv2)
          in case r3 of
               Inl e \<Rightarrow> (unpublish_queue queueKey q srv3, Inl e)
             | Inr _ \<Rightarrow> (put_queue queueKey (Start_queue q) srv3, Inr ()))"
  by pat_completeness auto

termination CreateQueueInternal
  by (relation "measure (\<lambda>(env, cfg, srv). if DeadLetterConfiguration cfg = None then 0 else 1)")
    (auto dest: ToConfiguration_leaf)

definition CreateQueue ::
  "'db server_env \<Rightarrow> CMqQueueConfiguration \<Rightarrow> 'db server \<Rightarrow> 'db server \<times> (cmq_error + unit)" where
  "CreateQueue env cfg srv =
     (if IsDeadLetter cfg then (srv, Inl (ArgumentException ''Dead-letter queues cannot be directly created.''))
      else case QueueName_get cfg of Inl e \<Rightarrow> (srv, Inl e)
      | Inr n \<Rightarrow>
          if EndsWith (ToLowerInvariant n) ''.dlq''
          then (srv, Inl (ArgumentException ''Queue names cannot end with .dlq.''))
          else CreateQueueInternal env cfg srv)"

text \<open>The part of \<open>DeleteQueue\<close> after the locks are released: shut the queue down, delete its directory.\<close>

definition finish_delete :: "'db server_env \<Rightarrow> 'db queue \<Rightarrow> 'db server \<Rightarrow> 'db server" where
  "finish_delete env q srv =
     (let srv = close_database q srv; path = PathPart (Configuration q) in
      if IsNullOrEmpty (PersistencePath srv) \<or> \<not> env_delete env path then srv
      else srv\<lparr>messages_dir := (messages_dir srv)(path := None)\<rparr>)"

definition DeleteQueue_body :: "'db server_env \<Rightarrow> string \<Rightarrow> ('db server, unit) loop_body" where
  "DeleteQueue_body env queueName a srv =
     (let queueKey = ToLowerInvariant queueName in
      case find_queue queueKey srv of
        None \<Rightarrow> (srv, Inr (Some ()))
      | Some q \<Rightarrow>
          if \<not> at_lock a queueKey then (srv, Inr None)
          else (case CheckpointPersistentMessageQueues env (remove_queue queueKey srv) of
              (srv', Inl e) \<Rightarrow> (srv', Inl e)
            | (srv', Inr _) \<Rightarrow> (finish_delete env q srv', Inr (Some ()))))"

definition DeleteQueue ::
  "'db server_env \<Rightarrow> ticks \<Rightarrow> ticks option \<Rightarrow> attempt list \<Rightarrow> string \<Rightarrow> 'db server \<Rightarrow> 'db server \<times> unit loop_exit option" where
  "DeleteQueue env now timeout as queueName srv =
     return_not_running () (with_retry now timeout (DeleteQueue_body env queueName) as srv)"

section \<open>Operations on one queue\<close>

text \<open>Run an operation on the queue registered under a key, if its lock is granted.\<close>

definition on_queue ::
  "attempt \<Rightarrow> string \<Rightarrow> cmq_error + unit \<Rightarrow> ('db queue \<Rightarrow> 'db queue \<times> (cmq_error + unit)) \<Rightarrow> 'db server
     \<Rightarrow> 'db server \<times> (cmq_error + unit option)" where
  "on_queue a key absent f srv = (case find_queue key srv of
     None \<Rightarrow> (srv, (case absent of Inl e \<Rightarrow> Inl e | Inr _ \<Rightarrow> Inr (Some ())))
   | Some q \<Rightarrow>
       if \<not> at_lock a key then (srv, Inr None)
       else (case f q of
           (q', Inl e) \<Rightarrow> (put_queue key q' srv, Inl e)
         | (q', Inr _) \<Rightarrow> (put_queue key q' srv, Inr (Some ()))))"

definition Subscribe_body ::
  "guid \<Rightarrow> endpoint option \<Rightarrow> endpoint option \<Rightarrow> string \<Rightarrow> ('db server, unit) loop_body" where
  "Subscribe_body g l r queueName a srv =
     on_queue a (ToLowerInvariant queueName) (Inl (PlainException ''The specified queue does not exist.'' []))
       (\<lambda>q. (queue_subscribe g l r q, Inr ())) srv"

definition Subscribe ::
  "ticks \<Rightarrow> ticks option \<Rightarrow> attempt list \<Rightarrow> guid \<Rightarrow> endpoint option \<Rightarrow> endpoint option \<Rightarrow> string
     \<Rightarrow> 'db server \<Rightarrow> 'db server \<times> unit loop_exit option" where
  "Subscribe now timeout as g l r queueName srv =
     throw_not_running (with_retry now timeout (Subscribe_body g l r queueName) as srv)"

definition Unsubscribe_body :: "guid \<Rightarrow> string \<Rightarrow> ('db server, unit) loop_body" where
  "Unsubscribe_body g queueName a srv =
     on_queue a (ToLowerInvariant queueName) (Inr ()) (\<lambda>q. (queue_unsubscribe g q, Inr ())) srv"

definition Unsubscribe ::
  "ticks \<Rightarrow> ticks option \<Rightarrow> attempt list \<Rightarrow> guid \<Rightarrow> string \<Rightarrow> 'db server \<Rightarrow> 'db server \<times> unit loop_exit option" where
  "Unsubscribe now timeout as g queueName srv =
     return_not_running () (with_retry now timeout (Unsubscribe_body g queueName) as srv)"

definition Enqueue_body :: "'db server_env \<Rightarrow> enqueue_args \<Rightarrow> ('db server, unit) loop_body" where
  "Enqueue_body env e a srv =
     on_queue a (ToLowerInvariant (ea_queueName e)) (Inl (PlainException ''Queue not found'' (ea_queueName e)))
       (queue_enqueue (env_ops env) (env_le env) e) srv"

definition Enqueue ::
  "'db server_env \<Rightarrow> ticks \<Rightarrow> ticks option \<Rightarrow> attempt list \<Rightarrow> enqueue_args \<Rightarrow> 'db server
     \<Rightarrow> 'db server \<times> unit loop_exit option" where
  "Enqueue env now timeout as e srv =
     (if IsNullOrWhiteSpace (Some (ea_assemblyQualifiedTypeName e))
      then (srv, Some (Raised (ArgumentException ''A message type is required.'')))
      else if IsNullOrEmpty (Some (ea_messageJson e))
      then (srv, Some (Raised (ArgumentException ''A message body is required.'')))
      else throw_not_running (with_retry now timeout (Enqueue_body env e) as srv))"

definition PurgeQueue_body :: "'db server_env \<Rightarrow> string \<Rightarrow> ('db server, unit) loop_body" where
  "PurgeQueue_body env queueName a srv =
     on_queue a (ToLowerInvariant queueName) (Inl (PlainException ''Queue not found'' queueName))
       (queue_purge (env_ops env) queueName) srv"

definition PurgeQueue ::
  "'db server_env \<Rightarrow> ticks \<Rightarrow> ticks option \<Rightarrow> attempt list \<Rightarrow> string \<Rightarrow> 'db server \<Rightarrow> 'db server \<times> unit loop_exit option" where
  "PurgeQueue env now timeout as queueName srv =
     throw_not_running (with_retry now timeout (PurgeQueue_body env queueName) as srv)"

section \<open>A client disconnects\<close>

fun disconnect_queues :: "attempt \<Rightarrow> guid \<Rightarrow> (string, 'db queue) dict \<Rightarrow> (string, 'db queue) dict \<times> bool" where
  "disconnect_queues a g [] = ([], True)"
| "disconnect_queues a g ((k, q) # qs) =
     (if at_lock a k then
        (case disconnect_queues a g qs of (qs', success) \<Rightarrow> ((k, queue_unsubscribe g q) # qs', success))
      else ((k, q) # qs, False))"

definition OnDisconnected_body :: "guid \<Rightarrow> ('db server, unit) loop_body" where
  "OnDisconnected_body g a srv = (case disconnect_queues a g (messageQueues srv) of
     (qs, success) \<Rightarrow> (srv\<lparr>messageQueues := qs\<rparr>, Inr (if success then Some () else None)))"

definition RmServer_OnDisconnected ::
  "ticks \<Rightarrow> attempt list \<Rightarrow> guid \<Rightarrow> 'db server \<Rightarrow> 'db server \<times> unit loop_exit option" where
  "RmServer_OnDisconnected now as g srv =
     return_not_running () (with_retry now None (OnDisconnected_body g) as srv)"

section \<open>Dead letters\<close>

definition MoveMessageToDeadLetter_body ::
  "'db server_env \<Rightarrow> ticks \<Rightarrow> string \<Rightarrow> EnqueuedMessage \<Rightarrow> ('db server, unit) loop_body" where
  "MoveMessageToDeadLetter_body env utcNow sourceQueueName m a srv =
     (let dlqName = sourceQueueName @ ''.dlq'' in
      on_queue a (ToLowerInvariant dlqName) (Inr ())
        (\<lambda>q. place_message (env_ops env) (env_le env) (queue_name (Configuration q))
               (CloneForDeadLetter utcNow m dlqName) q) srv)"

definition MoveMessageToDeadLetter ::
  "'db server_env \<Rightarrow> ticks \<Rightarrow> ticks \<Rightarrow> ticks option \<Rightarrow> attempt list \<Rightarrow> string \<Rightarrow> EnqueuedMessage \<Rightarrow> 'db server
     \<Rightarrow> 'db server \<times> unit loop_exit option" where
  "MoveMessageToDeadLetter env utcNow now timeout as sourceQueueName m srv =
     return_not_running ()
       (with_retry now timeout (MoveMessageToDeadLetter_body env utcNow sourceQueueName m) as srv)"

text \<open>
  The disposition pass of a queue's delivery thread. It holds the source queue's lock; for each
  message, \<open>as\<close> records what the attempts to reach the dead-letter queue saw.
\<close>

definition dispose_message ::
  "'db server_env \<Rightarrow> ticks \<Rightarrow> ticks \<Rightarrow> attempt list \<Rightarrow> string \<Rightarrow> oid \<Rightarrow> 'db server \<Rightarrow> 'db server \<times> unit loop_exit option" where
  "dispose_message env utcNow now as key i srv = (case find_queue key srv of
     None \<Rightarrow> (srv, Some (Returned ()))
   | Some q \<Rightarrow>
       if i \<notin> set (buffer q) then (srv, Some (Returned ()))
       else
         let moved = (if em_State (q_objects q i) = DeadLetter \<and> DeadLetterConfiguration (Configuration q) \<noteq> None
                then MoveMessageToDeadLetter env utcNow now None as (queue_name (Configuration q)) (q_objects q i) srv
                else (srv, Some (Returned ())))
         in case moved of
              (srv', Some (Returned _)) \<Rightarrow>
                (if em_State (q_objects q i) = DeadLetter \<or> em_State (q_objects q i) = Drop
                 then (put_queue key (update_stats DecrementQueueDepth
                         (q\<lparr>EnqueuedMessages := RemoveFromBufferAndDatabase (env_ops env) (env_le env) i
                              (q_objects q i) (EnqueuedMessages q)\<rparr>)) srv', Some (Returned ()))
                 else (srv', Some (Returned ())))
            | r \<Rightarrow> r)"

fun dispose_messages ::
  "'db server_env \<Rightarrow> ticks \<Rightarrow> ticks \<Rightarrow> (oid \<Rightarrow> attempt list) \<Rightarrow> string \<Rightarrow> oid list \<Rightarrow> 'db server
     \<Rightarrow> 'db server \<times> unit loop_exit option" where
  "dispose_messages env utcNow now as key [] srv = (srv, Some (Returned ()))"
| "dispose_messages env utcNow now as key (i # is) srv =
     (case dispose_message env utcNow now (as i) key i srv of
        (srv', Some (Returned _)) \<Rightarrow> dispose_messages env utcNow now as key is srv'
      | r \<Rightarrow> r)"

definition ProcessDispositions ::
  "'db server_env \<Rightarrow> ticks \<Rightarrow> ticks \<Rightarrow> (oid \<Rightarrow> attempt list) \<Rightarrow> bool \<Rightarrow> string \<Rightarrow> 'db server
     \<Rightarrow> 'db server \<times> unit loop_exit option" where
  "ProcessDispositions env utcNow now as locked key srv = (case find_queue key srv of
     None \<Rightarrow> (srv, Some (Returned ()))
   | Some q \<Rightarrow>
       let messagesWithDispositions = filter (\<lambda>i. em_State (q_objects q i) = DeadLetter
             \<or> em_State (q_objects q i) = Drop) (buffer q)
       in if messagesWithDispositions \<noteq> [] \<and> locked
          then dispose_messages env utcNow now as key messagesWithDispositions srv
          else (srv, Some (Returned ())))"

text \<open>
  Starting the server from \<open>queues.json\<close> and stopping it. A new server object over the same
  persistence path begins with an empty registry and the files the old one left.
\<close>

section \<open>Loading the persisted queues\<close>

text \<open>
  A queue object made while loading: the list it was put on, and whether it made it into the
  registry (\<open>mqd.Add\<close> throws for a key that is present, after the lists were extended).
\<close>

datatype load_kind = DeadLetterQueueToLoad | MessageQueueToLoad | OnlyToStart

record 'db loaded_queue =
  lq_key :: string
  lq_queue :: "'db queue"
  lq_kind :: load_kind
  lq_registered :: bool

definition load_kind_of :: "string \<Rightarrow> load_kind" where
  "load_kind_of n = (if EndsWith n ''.dlq'' then DeadLetterQueueToLoad else MessageQueueToLoad)"

definition load_meta :: "string set \<Rightarrow> queue_metadata \<Rightarrow> 'db loaded_queue list" where
  "load_meta present qm = (case qm of (cfg, st) \<Rightarrow>
     let n = queue_name cfg;
         key = ToLowerInvariant n;
         mq = \<lparr>lq_key = key, lq_queue = (SingleMessageQueueServer_new cfg)\<lparr>Statistics := stats_from_json st\<rparr>,
               lq_kind = load_kind_of n, lq_registered = (key \<notin> present)\<rparr>
     in if key \<in> present then [mq]
        else case DeadLetterConfiguration cfg of
            None \<Rightarrow> [mq]
          | Some d \<Rightarrow>
              if dlq_PersistenceScheme d = Ephemeral then
                (case ToConfiguration d (cfg_queueName cfg) of
                   Inl e \<Rightarrow> [mq]
                 | Inr dlqConfig \<Rightarrow>
                     let dlqKey = ToLowerInvariant (queue_name dlqConfig) in
                     [mq, \<lparr>lq_key = dlqKey, lq_queue = SingleMessageQueueServer_new dlqConfig,
                           lq_kind = OnlyToStart, lq_registered = (dlqKey \<notin> insert key present)\<rparr>])
              else [mq])"

definition registered_keys :: "'db loaded_queue list \<Rightarrow> string set" where
  "registered_keys ls = lq_key ` set (filter lq_registered ls)"

fun load_metas :: "string set \<Rightarrow> queue_metadata list \<Rightarrow> 'db loaded_queue list" where
  "load_metas present [] = []"
| "load_metas present (qm # qms) =
     (let ls = load_meta present qm in ls @ load_metas (present \<union> registered_keys ls) qms)"

definition initialize_loaded :: "'db server_env \<Rightarrow> 'db server \<Rightarrow> 'db loaded_queue \<Rightarrow> 'db loaded_queue" where
  "initialize_loaded env srv l =
     (if lq_kind l = OnlyToStart then l
      else l\<lparr>lq_queue := InitializePersistentDatabase (env_ops env) (env_le env)
               (env_open env (PathPart (Configuration (lq_queue l)))
                  (messages_dir srv (PathPart (Configuration (lq_queue l))))) (lq_queue l)\<rparr>)"

definition start_loaded :: "'db loaded_queue \<Rightarrow> 'db loaded_queue" where
  "start_loaded l = (if IsInitialized (lq_queue l) then l\<lparr>lq_queue := Start_queue (lq_queue l)\<rparr> else l)"

definition loaded_queues :: "'db server_env \<Rightarrow> 'db server \<Rightarrow> 'db loaded_queue list" where
  "loaded_queues env srv =
     (if PersistencePath srv = None then []
      else case queues_json srv of None \<Rightarrow> []
        | Some qms \<Rightarrow> map (start_loaded \<circ> initialize_loaded env srv)
            (load_metas (fst ` set (messageQueues srv)) qms))"

definition Start :: "'db server_env \<Rightarrow> 'db server \<Rightarrow> 'db server" where
  "Start env srv =
     (if s_isRunning srv then srv
      else srv\<lparr>s_isRunning := True, messageQueues := messageQueues srv
             @ map (\<lambda>l. (lq_key l, lq_queue l)) (filter lq_registered (loaded_queues env srv))\<rparr>)"

section \<open>Stopping\<close>

definition Stop :: "'db server_env \<Rightarrow> 'db server \<Rightarrow> 'db server \<times> (cmq_error + unit)" where
  "Stop env srv =
     (let srv = srv\<lparr>s_isRunning := False,
            messageQueues := map (\<lambda>(k, q). (k, SignalShutdown q)) (messageQueues srv)\<rparr>
      in case CheckpointPersistentMessageQueues env srv of
          (srv', Inl e) \<Rightarrow> (srv', Inl e)
        | (srv', Inr _) \<Rightarrow>
            ((fold (\<lambda>(k, q). close_database q) (messageQueues srv') srv')
               \<lparr>messageQueues := map (\<lambda>(k, q). (k, WaitForShutdown q)) (messageQueues srv')\<rparr>, Inr ()))"

text \<open>A new \<open>CMqServer\<close> object over the files another one left.\<close>

definition reopened :: "'db server \<Rightarrow> 'db server" where
  "reopened srv = (CMqServer_new (PersistencePath srv))
     \<lparr>queues_json := queues_json srv, messages_dir := messages_dir srv\<rparr>"

end
