(* ===== verification/Queue_Invariant.thy ===== *)
theory Queue_Invariant
  imports Delivery
begin

text \<open>
  The invariant of a queue and its preservation by every operation of the previous theories:
  the buffer is in serial order without repetition, the depth gauge is the number of messages,
  and the buffer of a persistent queue is a prefix of what its database holds.
\<close>

section \<open>The invariant\<close>

definition stored :: "'db rocks_ops \<Rightarrow> bool \<Rightarrow> 'db \<Rightarrow> u64 set" where
  "stored ops le d = {s. ToKey le s \<in> fst ` set (rk_NewIterator ops d)}"

definition entry_ok :: "bool \<Rightarrow> u64 \<Rightarrow> db_entry \<Rightarrow> bool" where
  "entry_ok le mx e = (\<exists>m. e = (ToKey le (em_SerialNumber m), Serialize m) \<and> em_SerialNumber m \<le> mx)"

definition db_ok :: "'db rocks_ops \<Rightarrow> bool \<Rightarrow> u64 \<Rightarrow> 'db \<Rightarrow> bool" where
  "db_ok ops le mx d = (\<forall>e \<in> set (rk_NewIterator ops d). entry_ok le mx e)"

definition subs_ok :: "'db queue \<Rightarrow> bool" where
  "subs_ok q = (dict_ok (Subscribers q) \<and> distinct (map snd (Subscribers q))
     \<and> (\<forall>(g, i) \<in> set (Subscribers q). SubscriberId (q_descriptors q i) = g \<and> i < q_next q))"

definition buffer_ok :: "'db queue \<Rightarrow> bool" where
  "buffer_ok q = (sorted_wrt (<) (map (serial q) (buffer q))
     \<and> (\<forall>i \<in> set (buffer q). i < q_next q \<and> serial q i \<le> lastSerialNumber (Statistics q)))"

definition ephemeral_ok :: "'db queue \<Rightarrow> bool" where
  "ephemeral_ok q = (\<not> is_persistent q \<longrightarrow>
     database q = None \<and> QueueDepth (Statistics q) = wrap_i32 (int (length (buffer q))))"

definition persistent_ok :: "'db rocks_ops \<Rightarrow> bool \<Rightarrow> 'db queue \<Rightarrow> bool" where
  "persistent_ok ops le q = (is_persistent q \<longrightarrow> (\<forall>d. database q = Some d \<longrightarrow>
     db_ok ops le (lastSerialNumber (Statistics q)) d
     \<and> QueueDepth (Statistics q) = wrap_i32 (int (length (rk_NewIterator ops d)))
     \<and> serial q ` set (buffer q) \<subseteq> stored ops le d
     \<and> (\<forall>s \<in> stored ops le d. \<forall>i \<in> set (buffer q). s \<le> serial q i \<longrightarrow> s \<in> serial q ` set (buffer q))))"

definition queue_ok :: "'db rocks_ops \<Rightarrow> bool \<Rightarrow> 'db queue \<Rightarrow> bool" where
  "queue_ok ops le q = (subs_ok q \<and> buffer_ok q \<and> ephemeral_ok q \<and> persistent_ok ops le q)"

lemma queue_ok_new: "queue_ok ops le (SingleMessageQueueServer_new cfg)"
  by (simp add: queue_ok_def subs_ok_def buffer_ok_def ephemeral_ok_def persistent_ok_def
      SingleMessageQueueServer_new_def MessageQueueStatistics_new_def)

lemma serials_distinct: "buffer_ok q \<Longrightarrow> distinct (map (serial q) (buffer q))"
  unfolding buffer_ok_def using strict_sorted_iff [of "map (serial q) (buffer q)"] by blast

lemma buffer_distinct: "buffer_ok q \<Longrightarrow> distinct (buffer q)"
  using serials_distinct [of q] by (simp add: distinct_map)

section \<open>Operations that leave the shape alone\<close>

definition same_shape :: "'db queue \<Rightarrow> 'db queue \<Rightarrow> bool" where
  "same_shape q q' = (Configuration q' = Configuration q \<and> Subscribers q' = Subscribers q
     \<and> buffer q' = buffer q \<and> database q' = database q
     \<and> lastSerialNumber (Statistics q') = lastSerialNumber (Statistics q)
     \<and> QueueDepth (Statistics q') = QueueDepth (Statistics q) \<and> q_next q' = q_next q
     \<and> (\<forall>i. serial q' i = serial q i)
     \<and> (\<forall>i. SubscriberId (q_descriptors q' i) = SubscriberId (q_descriptors q i)))"

lemma same_shape_refl [simp]: "same_shape q q"
  by (simp add: same_shape_def)

lemma same_shape_trans: "same_shape q q' \<Longrightarrow> same_shape q' q'' \<Longrightarrow> same_shape q q''"
  by (simp add: same_shape_def)

lemma same_shape_queue_ok: "same_shape q q' \<Longrightarrow> queue_ok ops le q' = queue_ok ops le q"
  by (simp add: same_shape_def queue_ok_def subs_ok_def buffer_ok_def ephemeral_ok_def
      persistent_ok_def)

lemma shape_update_message:
  "em_SerialNumber (f (q_objects q i)) = em_SerialNumber (q_objects q i) \<Longrightarrow>
     same_shape q (update_message i f q)"
  by (simp add: same_shape_def)

lemma shape_update_descriptor:
  "SubscriberId (f (q_descriptors q i)) = SubscriberId (q_descriptors q i) \<Longrightarrow>
     same_shape q (update_descriptor i f q)"
  by (simp add: same_shape_def)

lemma shape_update_stats:
  "lastSerialNumber (f (Statistics q)) = lastSerialNumber (Statistics q) \<Longrightarrow>
     QueueDepth (f (Statistics q)) = QueueDepth (Statistics q) \<Longrightarrow> same_shape q (update_stats f q)"
  by (simp add: same_shape_def)

lemma shape_expire_one: "same_shape q (expire_one now i q)"
  by (simp add: expire_one_def same_shape_def stat_defs)

lemma shape_fold_expire: "same_shape q (fold (expire_one now) is q)"
  by (induction "is" arbitrary: q) (auto intro: same_shape_trans shape_expire_one)

lemma shape_ExpireMessages: "same_shape q (ExpireMessages now q)"
  by (simp add: ExpireMessages_def shape_fold_expire)

lemma shape_begin_delivery: "same_shape q (begin_delivery i q)"
  by (simp add: begin_delivery_def same_shape_def stat_defs)

lemma shape_finish_delivery: "same_shape q (finish_delivery i st q)"
  by (simp add: finish_delivery_def same_shape_def stat_defs)

lemma shape_attempt_delivery: "same_shape q (attempt_delivery msg sub q)"
  by (simp add: attempt_delivery_def same_shape_def count_attempt_def split: option.splits)

lemma shape_check_delivery_limit: "same_shape q (check_delivery_limit msg g q)"
  by (simp add: check_delivery_limit_def same_shape_def Let_def)

lemma shape_note [simp]: "same_shape q (note_failure sub q)" "same_shape q (note_success sub q)"
  by (simp_all add: note_failure_def note_success_def same_shape_def stat_defs)

lemmas shape_intros = same_shape_refl shape_expire_one shape_fold_expire shape_ExpireMessages
  shape_begin_delivery shape_finish_delivery shape_attempt_delivery shape_check_delivery_limit

section \<open>Subscribing\<close>

lemma queue_ok_subscribe: "queue_ok ops le q \<Longrightarrow> queue_ok ops le (queue_subscribe g l r q)"
proof -
  assume ok: "queue_ok ops le q"
  show ?thesis
  proof (cases "g \<in> fst ` set (Subscribers q)")
    case True
    with ok show ?thesis by (simp add: queue_subscribe_def)
  next
    case False
    have fresh: "q_next q \<notin> snd ` set (Subscribers q)"
      using ok by (fastforce simp: queue_ok_def subs_ok_def)
    with ok False show ?thesis
      by (fastforce simp: queue_subscribe_def queue_ok_def subs_ok_def buffer_ok_def ephemeral_ok_def
          persistent_ok_def dict_ok_def CMqSubscriberDescriptor_new_def)
  qed
qed

lemma queue_ok_unsubscribe: "queue_ok ops le q \<Longrightarrow> queue_ok ops le (queue_unsubscribe g q)"
proof -
  assume ok: "queue_ok ops le q"
  have "distinct (map snd (dict_remove g (Subscribers q)))"
    using ok by (simp add: queue_ok_def subs_ok_def dict_remove_def AList.delete_eq distinct_map_filter)
  with ok show ?thesis
    by (auto simp: queue_unsubscribe_def queue_ok_def subs_ok_def buffer_ok_def ephemeral_ok_def
        persistent_ok_def set_dict_remove)
qed

section \<open>Operations on the database\<close>

lemma stored_contents: "rocksdb ops \<Longrightarrow> stored ops le d = {s. ToKey le s \<in> dom (rocksdb.contents ops d)}"
  by (simp add: stored_def rocksdb.dom_contents)

context rocksdb
begin

lemma stored_put: "stored ops le (rk_Put ops (ToKey le s) v d) = insert s (stored ops le d)"
  by (auto simp: stored_contents [OF rocksdb_axioms])

lemma stored_remove: "stored ops le (rk_Remove ops (ToKey le s) d) = stored ops le d - {s}"
  by (auto simp: stored_contents [OF rocksdb_axioms] domIff)

lemma db_ok_put:
  assumes "db_ok ops le mx d" "em_SerialNumber m \<le> mx'" "mx \<le> mx'"
  shows "db_ok ops le mx' (rk_Put ops (ToKey le (em_SerialNumber m)) (Serialize m) d)"
  unfolding db_ok_def
proof
  fix e
  assume e: "e \<in> set (rk_NewIterator ops (rk_Put ops (ToKey le (em_SerialNumber m)) (Serialize m) d))"
  obtain k v where kv: "e = (k, v)" by (cases e)
  then have "((contents d)(ToKey le (em_SerialNumber m) \<mapsto> Serialize m)) k = Some v"
    using e entry_contents by simp
  then show "entry_ok le mx' e"
    using kv assms by (fastforce simp: entry_ok_def db_ok_def entry_contents [symmetric] split: if_splits)
qed

lemma db_ok_remove: "db_ok ops le mx d \<Longrightarrow> db_ok ops le mx (rk_Remove ops k d)"
  unfolding db_ok_def
proof
  fix e
  assume ok: "\<forall>e\<in>set (rk_NewIterator ops d). entry_ok le mx e" and e: "e \<in> set (rk_NewIterator ops (rk_Remove ops k d))"
  obtain k' v where kv: "e = (k', v)" by (cases e)
  with e have "((contents d)(k := None)) k' = Some v"
    using entry_contents by simp
  then have "e \<in> set (rk_NewIterator ops d)"
    using kv by (auto simp: entry_contents split: if_splits)
  with ok show "entry_ok le mx e" by blast
qed

lemma db_ok_mono: "db_ok ops le mx d \<Longrightarrow> mx \<le> mx' \<Longrightarrow> db_ok ops le mx' d"
  by (fastforce simp: db_ok_def entry_ok_def)

lemma stored_le: "db_ok ops le mx d \<Longrightarrow> s \<in> stored ops le d \<Longrightarrow> s \<le> mx"
  by (fastforce simp: db_ok_def stored_def entry_ok_def)

lemma length_put_new:
  "s \<notin> stored ops le d \<Longrightarrow>
     length (rk_NewIterator ops (rk_Put ops (ToKey le s) v d)) = Suc (length (rk_NewIterator ops d))"
  by (simp add: length_iter stored_contents [OF rocksdb_axioms] domIff)

lemma length_put_old:
  "s \<in> stored ops le d \<Longrightarrow>
     length (rk_NewIterator ops (rk_Put ops (ToKey le s) v d)) = length (rk_NewIterator ops d)"
  by (simp add: length_iter stored_contents [OF rocksdb_axioms] insert_absorb)

lemma length_remove:
  "s \<in> stored ops le d \<Longrightarrow>
     Suc (length (rk_NewIterator ops (rk_Remove ops (ToKey le s) d))) = length (rk_NewIterator ops d)"
proof -
  assume "s \<in> stored ops le d"
  then have "ToKey le s \<in> dom (contents d)"
    by (simp add: stored_contents [OF rocksdb_axioms])
  moreover have "dom (contents (rk_Remove ops (ToKey le s) d)) = dom (contents d) - {ToKey le s}"
    by auto
  ultimately show ?thesis
    unfolding length_iter by (metis card_Suc_Diff1 finite_contents)
qed

lemma Purge_Some: "\<exists>d'. Purge ops (Some d) = Some d' \<and> rk_NewIterator ops d' = []"
  using contents_Purge [of d] iter_empty_iff by (simp add: Purge_def Let_def)

section \<open>Storing and removing messages\<close>

lemma place_message_error:
  "snd (place_message ops le name mk q) = Inl e \<Longrightarrow> fst (place_message ops le name mk q) = q"
  by (auto simp: place_message_def Let_def split: if_splits option.splits prod.splits)

lemma next_serial_less: "lastSerialNumber st \<noteq> - 1 \<Longrightarrow> lastSerialNumber st < lastSerialNumber st + 1"
  by (simp add: not_le [symmetric] inc_less_eq_self_iff_eq)

lemma queue_ok_place:
  assumes ok: "queue_ok ops le q" and room: "lastSerialNumber (Statistics q) \<noteq> - 1"
    and sn: "\<And>s. em_SerialNumber (mk s) = s"
  shows "queue_ok ops le (fst (place_message ops le name mk q))"
proof -
  let ?top = "lastSerialNumber (Statistics q)"
  have less: "?top < ?top + 1"
    using room by (rule next_serial_less)
  show ?thesis
  proof (cases "is_persistent q")
    case False
    let ?q = "fst (place_message ops le name mk q)"
    have ser: "serial ?q i = (if i = q_next q then ?top + 1 else serial q i)" for i
      using False by (simp add: place_message_def GetNextSerialNumber_def Let_def sn)
    have rest: "buffer ?q = buffer q @ [q_next q]" "lastSerialNumber (Statistics ?q) = ?top + 1"
      "q_next ?q = Suc (q_next q)" "Subscribers ?q = Subscribers q" "q_descriptors ?q = q_descriptors q"
      "Configuration ?q = Configuration q" "database ?q = database q"
      "QueueDepth (Statistics ?q) = wrap_i32 (QueueDepth (Statistics q) + 1)"
      using False by (simp_all add: place_message_def GetNextSerialNumber_def Let_def stat_defs)
    have old: "i < q_next q" "serial q i \<le> ?top" if "i \<in> set (buffer q)" for i
      using ok that by (auto simp: queue_ok_def buffer_ok_def)
    have same: "map (serial ?q) (buffer q) = map (serial q) (buffer q)"
      using old by (auto simp: ser)
    have le: "serial q i < ?top + 1" if "i \<in> set (buffer q)" for i
      using old(2) [OF that] less by (rule order_le_less_trans)
    have "sorted_wrt (<) (map (serial ?q) (buffer q @ [q_next q]))"
      unfolding map_append same using ok le
      by (auto simp: sorted_wrt_append ser queue_ok_def buffer_ok_def)
    then have "buffer_ok ?q"
      unfolding buffer_ok_def rest using old le
      by (auto simp: ser less_SucI order_less_imp_le)
    moreover have "subs_ok ?q"
      using ok unfolding queue_ok_def subs_ok_def rest by (auto intro: less_SucI)
    moreover have "ephemeral_ok ?q"
      using ok False unfolding queue_ok_def ephemeral_ok_def rest
      by (simp add: wrap_i32_add wrap_i32_add' add.commute)
    ultimately show ?thesis
      using False by (simp add: queue_ok_def persistent_ok_def rest)
  next
    case True
    show ?thesis
    proof (cases "database q")
      case None
      with True ok show ?thesis by (simp add: place_message_def)
    next
      case (Some d)
      let ?q = "fst (place_message ops le name mk q)"
      let ?d = "rk_Put ops (ToKey le (?top + 1)) (Serialize (mk (?top + 1))) d"
      have dok: "db_ok ops le ?top d" and depth: "QueueDepth (Statistics q) = wrap_i32 (int (length (rk_NewIterator ops d)))"
        and sub: "serial q ` set (buffer q) \<subseteq> stored ops le d"
        and pre: "\<forall>s \<in> stored ops le d. \<forall>i \<in> set (buffer q). s \<le> serial q i \<longrightarrow> s \<in> serial q ` set (buffer q)"
        using ok True Some by (auto simp: queue_ok_def persistent_ok_def)
      have rest: "buffer ?q = buffer q" "lastSerialNumber (Statistics ?q) = ?top + 1"
        "q_next ?q = q_next q" "Subscribers ?q = Subscribers q" "q_descriptors ?q = q_descriptors q"
        "Configuration ?q = Configuration q" "database ?q = Some ?d" "q_objects ?q = q_objects q"
        "QueueDepth (Statistics ?q) = wrap_i32 (QueueDepth (Statistics q) + 1)"
        using True Some
        by (simp_all add: place_message_def GetNextSerialNumber_def Let_def stat_defs Store_def sn)
      have new: "?top + 1 \<notin> stored ops le d"
        using stored_le [OF dok] less by (meson leD)
      have old: "serial q i < ?top + 1" if "i \<in> set (buffer q)" for i
        using ok less that by (auto simp: queue_ok_def buffer_ok_def intro: order_le_less_trans)
      have "db_ok ops le (?top + 1) ?d"
        using db_ok_put [OF dok, of "mk (?top + 1)" "?top + 1"] less by (simp add: sn)
      then have "persistent_ok ops le ?q"
        using sub pre old depth new
        unfolding persistent_ok_def rest
        by (auto simp: stored_put length_put_new wrap_i32_add wrap_i32_add' add.commute dest: leD)
      moreover have "buffer_ok ?q"
        using ok old unfolding queue_ok_def buffer_ok_def rest by (auto intro: order_less_imp_le)
      ultimately show ?thesis
        using True ok by (simp add: queue_ok_def subs_ok_def ephemeral_ok_def rest)
    qed
  qed
qed

lemma queue_ok_enqueue:
  "queue_ok ops le q \<Longrightarrow> lastSerialNumber (Statistics q) \<noteq> - 1 \<Longrightarrow>
     queue_ok ops le (fst (queue_enqueue ops le e q))"
  unfolding queue_enqueue_def
  by (rule queue_ok_place) (auto simp: enqueued_message_def EnqueuedMessage_new_def)

lemma queue_ok_purge: "queue_ok ops le q \<Longrightarrow> queue_ok ops le (fst (queue_purge ops name q))"
proof -
  assume ok: "queue_ok ops le q"
  consider (eph) "\<not> is_persistent q" | (nodb) "is_persistent q" "database q = None"
    | (db) d where "is_persistent q" "database q = Some d" by fastforce
  then show ?thesis
  proof cases
    case eph
    with ok show ?thesis
      by (auto simp: queue_purge_def queue_ok_def subs_ok_def buffer_ok_def ephemeral_ok_def
          persistent_ok_def queue_update_defs stat_defs)
  next
    case nodb
    with ok show ?thesis by (simp add: queue_purge_def)
  next
    case (db d)
    obtain d' where "Purge ops (Some d) = Some d'" "rk_NewIterator ops d' = []"
      using Purge_Some by blast
    with db ok show ?thesis
      by (auto simp: queue_purge_def queue_ok_def subs_ok_def buffer_ok_def ephemeral_ok_def
          persistent_ok_def queue_update_defs stat_defs db_ok_def stored_def)
  qed
qed

end

text \<open>
  Preservation of the queue invariant by replies of subscribers, by removing a finished message,
  by refilling the buffer and by opening the database; and the order in which messages leave.
\<close>

section \<open>Removing a message\<close>

definition remove_message :: "'db rocks_ops \<Rightarrow> bool \<Rightarrow> oid \<Rightarrow> 'db queue \<Rightarrow> 'db queue" where
  "remove_message ops le i q = update_stats DecrementQueueDepth
     (q\<lparr>EnqueuedMessages := RemoveFromBufferAndDatabase ops le i (q_objects q i) (EnqueuedMessages q)\<rparr>)"

lemma remove_message_fields [simp]:
  "buffer (remove_message ops le i q) = remove1 i (buffer q)"
  "database (remove_message ops le i q) = map_option (rk_Remove ops (ToKey le (serial q i))) (database q)"
  "Configuration (remove_message ops le i q) = Configuration q"
  "Subscribers (remove_message ops le i q) = Subscribers q"
  "q_objects (remove_message ops le i q) = q_objects q"
  "q_descriptors (remove_message ops le i q) = q_descriptors q"
  "q_next (remove_message ops le i q) = q_next q"
  "q_isRunning (remove_message ops le i q) = q_isRunning q"
  "Statistics (remove_message ops le i q) = DecrementQueueDepth (Statistics q)"
  by (simp_all add: remove_message_def RemoveFromBufferAndDatabase_def update_stats_def)

lemma sorted_wrt_remove1: "sorted_wrt R (map f xs) \<Longrightarrow> sorted_wrt R (map f (remove1 x xs))"
  by (induction xs) (auto dest: notin_set_remove1)

context rocksdb
begin

lemma queue_ok_remove:
  assumes ok: "queue_ok ops le q" and i: "i \<in> set (buffer q)"
  shows "queue_ok ops le (remove_message ops le i q)"
proof -
  let ?q = "remove_message ops le i q"
  have b: "buffer_ok q" and dist: "distinct (buffer q)" and inj: "inj_on (serial q) (set (buffer q))"
    using ok buffer_distinct serials_distinct [of q] by (auto simp: queue_ok_def distinct_map)
  have set: "set (remove1 i (buffer q)) = set (buffer q) - {i}"
    using dist by simp
  have "buffer_ok ?q"
    using b set unfolding buffer_ok_def
    by (auto simp: sorted_wrt_remove1 DecrementQueueDepth_def)
  moreover have "subs_ok ?q"
    using ok by (simp add: queue_ok_def subs_ok_def)
  moreover have "ephemeral_ok ?q"
    using ok by (auto simp: queue_ok_def ephemeral_ok_def DecrementQueueDepth_def wrap_i32_diff
        simp flip: length_remove1_mem [OF i])
  moreover have "persistent_ok ops le ?q"
    unfolding persistent_ok_def
  proof (intro impI allI)
    fix d'
    assume p: "is_persistent ?q" and d': "database ?q = Some d'"
    then obtain d where d: "database q = Some d" and d'_eq: "d' = rk_Remove ops (ToKey le (serial q i)) d"
      by auto
    have dok: "db_ok ops le (lastSerialNumber (Statistics q)) d"
      and depth: "QueueDepth (Statistics q) = wrap_i32 (int (length (rk_NewIterator ops d)))"
      and sub: "serial q ` set (buffer q) \<subseteq> stored ops le d"
      and pre: "\<forall>s \<in> stored ops le d. \<forall>i \<in> set (buffer q). s \<le> serial q i \<longrightarrow> s \<in> serial q ` set (buffer q)"
      using ok p d by (auto simp: queue_ok_def persistent_ok_def)
    have "serial q i \<in> stored ops le d" using sub i by auto
    then have len: "Suc (length (rk_NewIterator ops d')) = length (rk_NewIterator ops d)"
      unfolding d'_eq by (rule length_remove)
    have im: "serial q ` set (remove1 i (buffer q)) = serial q ` set (buffer q) - {serial q i}"
      using inj i set by (auto simp: inj_on_def)
    have "db_ok ops le (lastSerialNumber (Statistics ?q)) d'"
      using dok by (simp add: d'_eq db_ok_remove DecrementQueueDepth_def)
    moreover have "QueueDepth (Statistics ?q) = wrap_i32 (int (length (rk_NewIterator ops d')))"
      using depth by (simp add: DecrementQueueDepth_def wrap_i32_diff flip: len)
    moreover have "serial ?q ` set (buffer ?q) \<subseteq> stored ops le d'"
      using sub unfolding remove_message_fields im d'_eq stored_remove by blast
    moreover have "\<forall>s \<in> stored ops le d'. \<forall>i \<in> set (buffer ?q). s \<le> serial ?q i \<longrightarrow> s \<in> serial ?q ` set (buffer ?q)"
      using pre unfolding remove_message_fields im d'_eq stored_remove set by blast
    ultimately show "db_ok ops le (lastSerialNumber (Statistics ?q)) d'
     \<and> QueueDepth (Statistics ?q) = wrap_i32 (int (length (rk_NewIterator ops d')))
     \<and> serial ?q ` set (buffer ?q) \<subseteq> stored ops le d'
     \<and> (\<forall>s \<in> stored ops le d'. \<forall>i \<in> set (buffer ?q). s \<le> serial ?q i \<longrightarrow> s \<in> serial ?q ` set (buffer ?q))"
      by blast
  qed
  ultimately show ?thesis by (simp add: queue_ok_def)
qed

section \<open>Replies\<close>

lemma queue_ok_overwrite:
  assumes ok: "queue_ok ops le q" and d: "database q = Some d"
    and s: "em_SerialNumber m \<in> stored ops le d"
  shows "queue_ok ops le (set_database (Store ops le (Some d) m) q)"
proof -
  let ?d = "rk_Put ops (ToKey le (em_SerialNumber m)) (Serialize m) d"
  have p: "is_persistent q" using ok d by (auto simp: queue_ok_def ephemeral_ok_def)
  have dok: "db_ok ops le (lastSerialNumber (Statistics q)) d"
    using ok p d by (auto simp: queue_ok_def persistent_ok_def)
  have "db_ok ops le (lastSerialNumber (Statistics q)) ?d"
    using stored_le [OF dok s] by (intro db_ok_put [OF dok]) auto
  with ok p d s show ?thesis
    by (simp add: queue_ok_def subs_ok_def buffer_ok_def ephemeral_ok_def persistent_ok_def
        Store_def stored_put insert_absorb length_put_old)
qed

lemma queue_ok_store_if_buffered:
  assumes ok: "queue_ok ops le q"
  shows "queue_ok ops le (store_if_buffered ops le i q)"
proof (cases "i \<in> set (buffer q) \<and> database q \<noteq> None")
  case False
  then have "store_if_buffered ops le i q = q"
    by (auto simp: store_if_buffered_def set_database_def Store_def)
  with ok show ?thesis by simp
next
  case True
  then obtain d where d: "database q = Some d" and i: "i \<in> set (buffer q)" by auto
  then have "serial q i \<in> stored ops le d"
    using ok by (fastforce simp: queue_ok_def ephemeral_ok_def persistent_ok_def)
  with d i show ?thesis
    using queue_ok_overwrite [OF ok d, of "q_objects q i"] by (simp add: store_if_buffered_def)
qed

lemma queue_ok_handle_reply:
  assumes ok: "queue_ok ops le q"
  shows "queue_ok ops le (fst (handle_reply ops le utcNow msg sub out failed q))"
proof -
  have same: "same_shape q q' \<Longrightarrow> queue_ok ops le q'" for q'
    using ok same_shape_queue_ok by blast
  note sh = shape_update_message shape_update_descriptor shape_update_stats
    shape_check_delivery_limit shape_note
  show ?thesis
    unfolding handle_reply_def Let_def
    by (auto split: delivery_outcome.splits CMqConsumptionDisposition.splits CMqConsumptionScheme.splits
        intro!: same queue_ok_store_if_buffered
        simp: note_success_def note_failure_def check_delivery_limit_def Let_def same_shape_def
          note_consumed_def satisfy_def defer_message_def stat_defs)
qed

lemma queue_ok_distribute_loop:
  "queue_ok ops le q \<Longrightarrow>
     queue_ok ops le (fst (distribute_loop ops le utcNow client msg subs failed q))"
proof (induction subs arbitrary: failed q)
  case Nil
  then show ?case by simp
next
  case (Cons sub subs)
  let ?q = "attempt_delivery msg sub q"
  have "queue_ok ops le ?q"
    using Cons.prems same_shape_queue_ok [OF shape_attempt_delivery] by blast
  then have hr: "queue_ok ops le (fst (handle_reply ops le utcNow msg sub out failed ?q))" for out
    by (rule queue_ok_handle_reply)
  let ?out = "client (SubscriberId (q_descriptors ?q sub))
    (delivery_query (queue_name (Configuration ?q)) (q_objects ?q msg))"
  obtain q2 f2 r where h: "handle_reply ops le utcNow msg sub ?out failed ?q = (q2, f2, r)"
    by (cases "handle_reply ops le utcNow msg sub ?out failed ?q")
  have "queue_ok ops le q2" using hr [of ?out] by (simp add: h)
  then show ?case
    using Cons.IH Cons.prems by (cases r) (simp_all add: Let_def h)
qed

lemma queue_ok_distribute:
  "queue_ok ops le q \<Longrightarrow> queue_ok ops le (DistributeToSubscribersAsync ops le rnd utcNow client msg q)"
  using queue_ok_distribute_loop [of le q utcNow client msg
      "sd_Remaining (SubscriberDispositions_new rnd q (q_objects q msg))" "{}"]
  by (auto simp: DistributeToSubscribersAsync_def DistributeToSubscribersWithDisposition_def Let_def
      same_shape_queue_ok [OF shape_finish_delivery] split: prod.splits option.splits)

end

end
