(* ===== verification/Mq_Registry.thy ===== *)
theory Mq_Registry
  imports Mq_Server Queue_Invariant
begin

text \<open>
  The registry of queues stays well formed: every key is the lower-case name of its queue, no
  key occurs twice, every queue has a valid configuration; and the retry-loop contract holds of
  every operation of the server.
\<close>

section \<open>The invariant\<close>

definition entry_key_ok :: "string \<times> 'db queue \<Rightarrow> bool" where
  "entry_key_ok kq = (config_ok (Configuration (snd kq))
     \<and> fst kq = ToLowerInvariant (queue_name (Configuration (snd kq))))"

definition registry_ok :: "'db server \<Rightarrow> bool" where
  "registry_ok srv = (dict_ok (messageQueues srv) \<and> (\<forall>kq \<in> set (messageQueues srv). entry_key_ok kq))"

lemma registry_ok_new [simp]: "registry_ok (CMqServer_new path)"
  by (simp add: registry_ok_def CMqServer_new_def)

lemma find_queue_in: "find_queue key srv = Some q \<Longrightarrow> (key, q) \<in> set (messageQueues srv)"
  unfolding find_queue_def by (rule map_of_SomeD)

lemma find_queue_iff: "registry_ok srv \<Longrightarrow> find_queue key srv = Some q \<longleftrightarrow> (key, q) \<in> set (messageQueues srv)"
  by (simp add: find_queue_def registry_ok_def dict_ok_def)

lemma find_put [simp]: "find_queue k (put_queue key q srv) = (if k = key then Some q else find_queue k srv)"
  by (simp add: find_queue_def put_queue_def map_of_dict_put)

lemma find_remove [simp]: "find_queue k (remove_queue key srv) = (if k = key then None else find_queue k srv)"
  by (simp add: find_queue_def remove_queue_def map_of_dict_remove)

lemma put_fields [simp]:
  "s_isRunning (put_queue key q srv) = s_isRunning srv"
  "PersistencePath (put_queue key q srv) = PersistencePath srv"
  "queues_json (put_queue key q srv) = queues_json srv"
  "messages_dir (put_queue key q srv) = messages_dir srv"
  by (simp_all add: put_queue_def)

lemma set_dict_put: "set (dict_put k v d) \<subseteq> insert (k, v) (set d)"
  by (induction d) auto

lemma registry_ok_put:
  assumes ok: "registry_ok srv" and q: "find_queue key srv = Some q" and cfg: "Configuration q' = Configuration q"
  shows "registry_ok (put_queue key q' srv)"
proof -
  have "entry_key_ok (key, q)" using ok find_queue_in [OF q] by (auto simp: registry_ok_def)
  then have "entry_key_ok (key, q')" by (simp add: entry_key_ok_def cfg)
  then show ?thesis
    using ok set_dict_put [of key q' "messageQueues srv"] by (auto simp: registry_ok_def put_queue_def)
qed

lemma registry_ok_remove: "registry_ok srv \<Longrightarrow> registry_ok (remove_queue key srv)"
  by (auto simp: registry_ok_def remove_queue_def set_dict_remove)

lemma close_fields [simp]:
  "messageQueues (close_database q srv) = messageQueues srv"
  "s_isRunning (close_database q srv) = s_isRunning srv"
  "PersistencePath (close_database q srv) = PersistencePath srv"
  "queues_json (close_database q srv) = queues_json srv"
  by (simp_all add: close_database_def split: option.splits)

lemma checkpoint_fields [simp]:
  "messageQueues (fst (CheckpointPersistentMessageQueues env srv)) = messageQueues srv"
  "s_isRunning (fst (CheckpointPersistentMessageQueues env srv)) = s_isRunning srv"
  "PersistencePath (fst (CheckpointPersistentMessageQueues env srv)) = PersistencePath srv"
  "messages_dir (fst (CheckpointPersistentMessageQueues env srv)) = messages_dir srv"
  by (simp_all add: CheckpointPersistentMessageQueues_def split: option.splits)

section \<open>Operations on one queue\<close>

text \<open>What the server asks of an operation it runs on a registered queue: the configuration stays.\<close>

locale queue_operation =
  fixes f :: "'db queue \<Rightarrow> 'db queue \<times> (cmq_error + unit)"
    and key :: string and absent :: "cmq_error + unit"
  assumes keeps_configuration: "Configuration (fst (f q)) = Configuration q"
begin

lemma on_queue_effect:
  "fst (on_queue a key absent f srv) = srv
     \<or> (\<exists>q. find_queue key srv = Some q \<and> fst (on_queue a key absent f srv) = put_queue key (fst (f q)) srv)"
  by (auto simp: on_queue_def split: option.splits prod.splits sum.splits if_splits)

lemma on_queue_registry: "registry_ok srv \<Longrightarrow> registry_ok (fst (on_queue a key absent f srv))"
  using on_queue_effect [of a srv] registry_ok_put [OF _ _ keeps_configuration] by metis

lemma on_queue_other: "k \<noteq> key \<Longrightarrow> find_queue k (fst (on_queue a key absent f srv)) = find_queue k srv"
  by (auto simp: on_queue_def split: option.splits prod.splits sum.splits)

lemma on_queue_granted:
  "at_lock a key \<Longrightarrow> find_queue key srv = Some q \<Longrightarrow>
     on_queue a key absent f srv = (put_queue key (fst (f q)) srv,
       case snd (f q) of Inl e \<Rightarrow> Inl e | Inr _ \<Rightarrow> Inr (Some ()))"
  by (cases "f q") (auto simp: on_queue_def split: sum.splits)

lemma on_queue_absent:
  "find_queue key srv = None \<Longrightarrow>
     on_queue a key absent f srv = (srv, case absent of Inl e \<Rightarrow> Inl e | Inr _ \<Rightarrow> Inr (Some ()))"
  by (simp add: on_queue_def)

lemma on_queue_blocked: "\<forall>k. \<not> at_lock a k \<Longrightarrow> fst (on_queue a key absent f srv) = srv"
  by (auto simp: on_queue_def split: option.splits)

lemma on_queue_pending: "snd (on_queue a key absent f srv) = Inr None \<Longrightarrow> fst (on_queue a key absent f srv) = srv"
  by (auto simp: on_queue_def split: option.splits prod.splits sum.splits if_splits)

lemma on_queue_progress: "\<forall>k. at_lock a k \<Longrightarrow> snd (on_queue a key absent f srv) \<noteq> Inr None"
  by (auto simp: on_queue_def split: option.splits prod.splits sum.splits if_splits)

lemma atomic: "atomic_body (\<lambda>a srv. on_queue a key absent f srv) registry_ok"
  by unfold_locales (auto intro: on_queue_registry simp: on_queue_blocked on_queue_pending dest: on_queue_progress)

end

sublocale queue_operation \<subseteq> atomic_body "\<lambda>a srv. on_queue a key absent f srv" registry_ok
  by (rule atomic)

context queue_operation
begin

lemma with_retry_other:
  assumes "k \<noteq> key"
  shows "find_queue k (fst (with_retry now timeout (\<lambda>a srv. on_queue a key absent f srv) as srv)) = find_queue k srv"
proof -
  consider "fst (with_retry now timeout (\<lambda>a srv. on_queue a key absent f srv) as srv) = srv"
    | a where "fst (with_retry now timeout (\<lambda>a srv. on_queue a key absent f srv) as srv) = fst (on_queue a key absent f srv)"
    using with_retry_once by blast
  then show ?thesis by cases (use on_queue_other [OF assms] in simp_all)
qed

end

section \<open>The operations of the server\<close>

lemma place_configuration: "Configuration (fst (place_message ops le name mk q)) = Configuration q"
  by (auto simp: place_message_def Let_def split: option.splits prod.splits)

interpretation enqueue_op: queue_operation "queue_enqueue ops le e" key absent
  for ops le e key absent
  by unfold_locales (simp add: queue_enqueue_def place_configuration)

interpretation dead_letter_op: queue_operation
  "\<lambda>q. place_message ops le (queue_name (Configuration q)) mk q" key absent
  for ops le mk key absent
  by unfold_locales (rule place_configuration)

interpretation purge_op: queue_operation "queue_purge ops name" key absent
  for ops name key absent
  by unfold_locales (simp add: queue_purge_def Let_def)

interpretation subscribe_op: queue_operation "\<lambda>q. (queue_subscribe g l r q, Inr ())" key absent
  for g l r key absent
  by unfold_locales (simp add: queue_subscribe_def)

interpretation unsubscribe_op: queue_operation "\<lambda>q. (queue_unsubscribe g q, Inr ())" key absent
  for g key absent
  by unfold_locales (simp add: queue_unsubscribe_def)

lemma body_eqs:
  "Subscribe_body g l r name = (\<lambda>a srv. on_queue a (ToLowerInvariant name)
     (Inl (PlainException ''The specified queue does not exist.'' [])) (\<lambda>q. (queue_subscribe g l r q, Inr ())) srv)"
  "Unsubscribe_body g name = (\<lambda>a srv. on_queue a (ToLowerInvariant name) (Inr ())
     (\<lambda>q. (queue_unsubscribe g q, Inr ())) srv)"
  "Enqueue_body env e = (\<lambda>a srv. on_queue a (ToLowerInvariant (ea_queueName e))
     (Inl (PlainException ''Queue not found'' (ea_queueName e))) (queue_enqueue (env_ops env) (env_le env) e) srv)"
  "PurgeQueue_body env name = (\<lambda>a srv. on_queue a (ToLowerInvariant name)
     (Inl (PlainException ''Queue not found'' name)) (queue_purge (env_ops env) name) srv)"
  "MoveMessageToDeadLetter_body env utcNow source m = (\<lambda>a srv. on_queue a (ToLowerInvariant (source @ ''.dlq'')) (Inr ())
     (\<lambda>q. place_message (env_ops env) (env_le env) (queue_name (Configuration q))
        (CloneForDeadLetter utcNow m (source @ ''.dlq'')) q) srv)"
  by (auto simp: fun_eq_iff Subscribe_body_def Unsubscribe_body_def Enqueue_body_def PurgeQueue_body_def
      MoveMessageToDeadLetter_body_def Let_def)

lemma Subscribe_registry: "registry_ok srv \<Longrightarrow> registry_ok (fst (Subscribe now timeout as g l r name srv))"
  by (simp add: Subscribe_def body_eqs subscribe_op.with_retry_keeps)

lemma Unsubscribe_registry: "registry_ok srv \<Longrightarrow> registry_ok (fst (Unsubscribe now timeout as g name srv))"
  by (simp add: Unsubscribe_def body_eqs unsubscribe_op.with_retry_keeps)

lemma Enqueue_registry: "registry_ok srv \<Longrightarrow> registry_ok (fst (Enqueue env now timeout as e srv))"
  by (simp add: Enqueue_def body_eqs enqueue_op.with_retry_keeps)

lemma PurgeQueue_registry: "registry_ok srv \<Longrightarrow> registry_ok (fst (PurgeQueue env now timeout as name srv))"
  by (simp add: PurgeQueue_def body_eqs purge_op.with_retry_keeps)

lemma MoveMessage_registry:
  "registry_ok srv \<Longrightarrow> registry_ok (fst (MoveMessageToDeadLetter env utcNow now timeout as source m srv))"
  by (simp add: MoveMessageToDeadLetter_def body_eqs dead_letter_op.with_retry_keeps)

text \<open>Deleting a queue and a client's disconnection are loops of their own.\<close>

lemma registry_ok_queues:
  "messageQueues srv' = messageQueues srv \<Longrightarrow> registry_ok srv' = registry_ok srv"
  by (simp add: registry_ok_def)

lemma finish_delete_queues [simp]:
  "messageQueues (finish_delete env q srv) = messageQueues srv"
  "s_isRunning (finish_delete env q srv) = s_isRunning srv"
  "PersistencePath (finish_delete env q srv) = PersistencePath srv"
  by (simp_all add: finish_delete_def Let_def)

lemma DeleteQueue_body_queues:
  "messageQueues (fst (DeleteQueue_body env name a srv)) =
     (if find_queue (ToLowerInvariant name) srv = None \<or> \<not> at_lock a (ToLowerInvariant name)
      then messageQueues srv else dict_remove (ToLowerInvariant name) (messageQueues srv))"
proof -
  have "messageQueues srv' = dict_remove (ToLowerInvariant name) (messageQueues srv)"
    if "CheckpointPersistentMessageQueues env (remove_queue (ToLowerInvariant name) srv) = (srv', r)" for srv' r
    using checkpoint_fields(1) [of env "remove_queue (ToLowerInvariant name) srv"]
    unfolding that by (simp add: remove_queue_def)
  then show ?thesis
    by (auto simp: DeleteQueue_body_def Let_def split: option.splits prod.splits sum.splits)
qed

interpretation delete_loop: retry_body "DeleteQueue_body env name" registry_ok
  for env name
proof
  fix a and srv :: "'a server"
  show "registry_ok srv \<Longrightarrow> registry_ok (fst (DeleteQueue_body env name a srv))"
    by (auto simp: registry_ok_def DeleteQueue_body_queues set_dict_remove)
  show "\<forall>k. \<not> at_lock a k \<Longrightarrow> fst (DeleteQueue_body env name a srv) = srv"
    by (auto simp: DeleteQueue_body_def Let_def split: option.splits)
  show "\<forall>k. at_lock a k \<Longrightarrow> snd (DeleteQueue_body env name a srv) \<noteq> Inr None"
    by (auto simp: DeleteQueue_body_def Let_def split: option.splits prod.splits sum.splits)
qed

lemma DeleteQueue_registry: "registry_ok srv \<Longrightarrow> registry_ok (fst (DeleteQueue env now timeout as name srv))"
  by (simp add: DeleteQueue_def delete_loop.with_retry_keeps)

lemma disconnect_keys: "map fst (fst (disconnect_queues a g qs)) = map fst qs"
  by (induction a g qs rule: disconnect_queues.induct) (auto split: prod.splits)

lemma disconnect_entries:
  "kq' \<in> set (fst (disconnect_queues a g qs)) \<Longrightarrow>
     kq' \<in> set qs \<or> (\<exists>kq \<in> set qs. kq' = (fst kq, queue_unsubscribe g (snd kq)))"
  by (induction a g qs rule: disconnect_queues.induct) (auto split: prod.splits if_splits)

lemma disconnect_blocked: "\<forall>k. \<not> at_lock a k \<Longrightarrow> fst (disconnect_queues a g qs) = qs"
  by (cases qs) auto

lemma disconnect_granted:
  "\<forall>k. at_lock a k \<Longrightarrow> disconnect_queues a g qs = (map (\<lambda>(k, q). (k, queue_unsubscribe g q)) qs, True)"
  by (induction qs) auto

interpretation disconnect_loop: retry_body "OnDisconnected_body g" registry_ok
  for g
proof
  fix a and srv :: "'a server"
  show "registry_ok (fst (OnDisconnected_body g a srv))" if ok: "registry_ok srv"
  proof -
    let ?qs = "fst (disconnect_queues a g (messageQueues srv))"
    have "dict_ok ?qs" using ok by (simp add: registry_ok_def dict_ok_def disconnect_keys)
    moreover have "entry_key_ok kq'" if "kq' \<in> set ?qs" for kq'
      using disconnect_entries [OF that] ok
      by (auto simp: registry_ok_def entry_key_ok_def queue_unsubscribe_def)
    ultimately show ?thesis by (auto simp: registry_ok_def OnDisconnected_body_def split: prod.splits)
  qed
  show "\<forall>k. \<not> at_lock a k \<Longrightarrow> fst (OnDisconnected_body g a srv) = srv"
    using disconnect_blocked [of a g "messageQueues srv"] by (auto simp: OnDisconnected_body_def split: prod.splits)
  show "\<forall>k. at_lock a k \<Longrightarrow> snd (OnDisconnected_body g a srv) \<noteq> Inr None"
    by (simp add: OnDisconnected_body_def disconnect_granted)
qed

lemma OnDisconnected_registry: "registry_ok srv \<Longrightarrow> registry_ok (fst (RmServer_OnDisconnected now as g srv))"
  by (simp add: RmServer_OnDisconnected_def disconnect_loop.with_retry_keeps)

end
