(* ===== verification/Mq_Lifecycle.thy ===== *)
theory Mq_Lifecycle
  imports Mq_Registry
begin

text \<open>
  Creating queues, starting, stopping, and the disposition pass keep the registry well formed;
  what \<open>CreateQueue\<close> leaves behind when it succeeds and when it fails; and the steps of a server
  with its reachable states.
\<close>

declare CreateQueueInternal.simps [simp del]

section \<open>Creating a queue\<close>

lemma new_queue_configuration [simp]: "Configuration (new_queue env cfg srv) = cfg"
  by (auto simp: new_queue_def InitializePersistentDatabase_def SingleMessageQueueServer_new_def Let_def
      queue_update_defs split: sum.splits option.splits)

lemma Start_queue_fields [simp]:
  "Configuration (Start_queue q) = Configuration q" "q_isRunning (Start_queue q)"
  "IsInitialized (Start_queue q) = IsInitialized q" "database (Start_queue q) = database q"
  "buffer (Start_queue q) = buffer q" "Subscribers (Start_queue q) = Subscribers q"
  "Statistics (Start_queue q) = Statistics q"
  by (simp_all add: Start_queue_def)

text \<open>A configuration as its setter leaves it: unnamed, or with a valid name.\<close>

definition named_ok :: "CMqQueueConfiguration \<Rightarrow> bool" where
  "named_ok cfg = (cfg_queueName cfg = None \<or> config_ok cfg)"

lemma named_dlq:
  assumes "named_ok cfg" "ToConfiguration d (cfg_queueName cfg) = Inr c"
  shows "config_ok c"
proof (cases "cfg_queueName cfg")
  case None
  then show ?thesis using assms(2) by (simp add: ToConfiguration_def IsNullOrWhiteSpace_def)
next
  case (Some n)
  then have "IsValidQueueName (Some n)" using assms(1) by (auto simp: named_ok_def config_ok_def)
  then show ?thesis using ToConfiguration_ok [of n d] assms(2) Some by auto
qed

lemma registry_ok_append:
  "registry_ok srv \<Longrightarrow> key \<notin> fst ` set (messageQueues srv) \<Longrightarrow> entry_key_ok (key, q) \<Longrightarrow>
     registry_ok (srv\<lparr>messageQueues := messageQueues srv @ [(key, q)]\<rparr>)"
  by (auto simp: registry_ok_def dict_ok_def)

lemma registry_ok_put_entry:
  "registry_ok srv \<Longrightarrow> entry_key_ok (key, q) \<Longrightarrow> registry_ok (put_queue key q srv)"
  using set_dict_put [of key q "messageQueues srv"] by (auto simp: registry_ok_def put_queue_def)

lemma registry_ok_checkpoint: "registry_ok (fst (CheckpointPersistentMessageQueues env srv)) = registry_ok srv"
  by (rule registry_ok_queues) simp

lemma registry_ok_unpublish: "registry_ok srv \<Longrightarrow> registry_ok (unpublish_queue key q srv)"
  using registry_ok_remove [of srv key] by (simp add: unpublish_queue_def registry_ok_def)

text \<open>
  \<open>CreateQueueInternal\<close> unfolded once, with the recursive call on the dead-letter queue and the
  checkpoint named.
\<close>

definition create_companion ::
  "'db server_env \<Rightarrow> CMqQueueConfiguration \<Rightarrow> 'db server \<Rightarrow> 'db server \<times> (cmq_error + unit)" where
  "create_companion env cfg srv = (case DeadLetterConfiguration cfg of
      None \<Rightarrow> (srv, Inr ())
    | Some d \<Rightarrow> (case ToConfiguration d (cfg_queueName cfg) of
          Inl e \<Rightarrow> (srv, Inl e)
        | Inr dlqConfig \<Rightarrow> CreateQueueInternal env dlqConfig srv))"

definition publish ::
  "'db server_env \<Rightarrow> CMqQueueConfiguration \<Rightarrow> string \<Rightarrow> 'db queue \<Rightarrow> 'db server \<Rightarrow> 'db server \<times> (cmq_error + unit)" where
  "publish env cfg key q srv =
     (let (srv2, r) = create_companion env cfg (srv\<lparr>messageQueues := messageQueues srv @ [(key, q)]\<rparr>);
          (srv3, r3) = (case r of Inl e \<Rightarrow> (srv2, Inl e) | Inr _ \<Rightarrow> CheckpointPersistentMessageQueues env srv2)
      in case r3 of
           Inl e \<Rightarrow> (unpublish_queue key q srv3, Inl e)
         | Inr _ \<Rightarrow> (put_queue key (Start_queue q) srv3, Inr ()))"

definition creatable :: "'db server_env \<Rightarrow> CMqQueueConfiguration \<Rightarrow> string \<Rightarrow> 'db server \<Rightarrow> bool" where
  "creatable env cfg n srv = (QueueName_get cfg = Inr n \<and> n \<noteq> []
     \<and> ToLowerInvariant n \<notin> fst ` set (messageQueues srv)
     \<and> \<not> (PersistenceScheme cfg = Persistent \<and> IsNullOrEmpty (PersistencePath srv))
     \<and> IsInitialized (new_queue env cfg srv))"

lemma create_unfold:
  "creatable env cfg n srv \<Longrightarrow>
     CreateQueueInternal env cfg srv = publish env cfg (ToLowerInvariant n) (new_queue env cfg srv) srv"
  by (subst CreateQueueInternal.simps)
    (auto simp: creatable_def publish_def create_companion_def Let_def split: option.splits sum.splits prod.splits)

lemma create_not:
  assumes "\<nexists>n. creatable env cfg n srv"
  shows "(\<exists>e. CreateQueueInternal env cfg srv = (srv, Inl e))
     \<or> (\<exists>n. QueueName_get cfg = Inr n \<and> ToLowerInvariant n \<in> fst ` set (messageQueues srv)
          \<and> CreateQueueInternal env cfg srv = (srv, Inr ()))"
  using assms
  by (cases "QueueName_get cfg") (auto simp: CreateQueueInternal.simps [of env cfg srv] creatable_def Let_def)

lemma create_nothing: "\<nexists>n. creatable env cfg n srv \<Longrightarrow> fst (CreateQueueInternal env cfg srv) = srv"
  using create_not by fastforce

lemma creatable_name: "creatable env cfg n srv \<Longrightarrow> cfg_queueName cfg = Some n"
  by (auto simp: creatable_def QueueName_get_def split: option.splits)

text \<open>An induction rule for what \<open>CreateQueueInternal\<close> preserves.\<close>

lemma create_preserves:
  assumes append: "\<And>cfg n s. named_ok cfg \<Longrightarrow> P s \<Longrightarrow> creatable env cfg n s \<Longrightarrow>
      P (s\<lparr>messageQueues := messageQueues s @ [(ToLowerInvariant n, new_queue env cfg s)]\<rparr>)"
    and cp: "\<And>s. P s \<Longrightarrow> P (fst (CheckpointPersistentMessageQueues env s))"
    and undo: "\<And>cfg n s0 s. named_ok cfg \<Longrightarrow> P s0 \<Longrightarrow> creatable env cfg n s0 \<Longrightarrow> P s \<Longrightarrow>
      P (unpublish_queue (ToLowerInvariant n) (new_queue env cfg s0) s)"
    and started: "\<And>cfg n s0 s. named_ok cfg \<Longrightarrow> P s0 \<Longrightarrow> creatable env cfg n s0 \<Longrightarrow> P s \<Longrightarrow>
      P (put_queue (ToLowerInvariant n) (Start_queue (new_queue env cfg s0)) s)"
    and "named_ok cfg" "P srv"
  shows "P (fst (CreateQueueInternal env cfg srv))"
proof -
  have step: "P (fst (CreateQueueInternal env cfg srv))"
    if named: "named_ok cfg" and p: "P srv" and comp: "\<And>s. P s \<Longrightarrow> P (fst (create_companion env cfg s))" for cfg srv
  proof (cases "\<exists>n. creatable env cfg n srv")
    case False
    then show ?thesis using p by (simp add: create_nothing)
  next
    case True
    then obtain n where n: "creatable env cfg n srv" by blast
    let ?key = "ToLowerInvariant n" and ?q = "new_queue env cfg srv"
    obtain s2 r where c: "create_companion env cfg (srv\<lparr>messageQueues := messageQueues srv @ [(?key, ?q)]\<rparr>) = (s2, r)"
      by (cases "create_companion env cfg (srv\<lparr>messageQueues := messageQueues srv @ [(?key, ?q)]\<rparr>)")
    have p2: "P s2" using comp [OF append [OF named p n]] by (simp add: c)
    obtain s3 r3 where k: "CheckpointPersistentMessageQueues env s2 = (s3, r3)"
      by (cases "CheckpointPersistentMessageQueues env s2")
    have p3: "P s3" using cp [OF p2] by (simp add: k)
    show ?thesis
      unfolding create_unfold [OF n] publish_def c
      using undo [OF named p n p2] undo [OF named p n p3] started [OF named p n p3]
      by (auto simp: k split: sum.splits)
  qed
  have leaf: "P (fst (CreateQueueInternal env cfg srv))"
    if "named_ok cfg" "P srv" "DeadLetterConfiguration cfg = None" for cfg srv
    using that(1,2) by (rule step) (simp add: create_companion_def that(3))
  have dlq: "P (fst (CreateQueueInternal env c s))"
    if "P s" "ToConfiguration d (cfg_queueName cfg) = Inr c" for s d c
    using leaf [OF _ that(1) ToConfiguration_leaf [OF that(2)]] named_dlq [OF assms(5) that(2)]
    by (simp add: named_ok_def)
  have "P (fst (create_companion env cfg s))" if "P s" for s
    using that dlq
    by (auto simp: create_companion_def split: option.splits sum.splits)
  then show ?thesis by (rule step [OF assms(5,6)])
qed

lemma entry_key_new: "named_ok cfg \<Longrightarrow> creatable env cfg n s \<Longrightarrow> Configuration q = cfg \<Longrightarrow> entry_key_ok (ToLowerInvariant n, q)"
  using creatable_name [of env cfg n s] by (auto simp: entry_key_ok_def named_ok_def queue_name_def)

lemma CreateQueueInternal_registry:
  assumes "named_ok cfg" "registry_ok srv"
  shows "registry_ok (fst (CreateQueueInternal env cfg srv))"
proof (rule create_preserves [where P = registry_ok, OF _ _ _ _ assms])
  fix cfg n and s :: "'a server"
  assume "named_ok cfg" "registry_ok s" and n: "creatable env cfg n s"
  then show "registry_ok (s\<lparr>messageQueues := messageQueues s @ [(ToLowerInvariant n, new_queue env cfg s)]\<rparr>)"
    by (intro registry_ok_append entry_key_new) (auto simp: creatable_def)
next
  fix cfg n and s0 s :: "'a server"
  assume "named_ok cfg" "creatable env cfg n s0" "registry_ok s"
  then show "registry_ok (put_queue (ToLowerInvariant n) (Start_queue (new_queue env cfg s0)) s)"
    by (intro registry_ok_put_entry entry_key_new) auto
qed (auto simp: registry_ok_checkpoint registry_ok_unpublish)

lemma CreateQueue_registry: "named_ok cfg \<Longrightarrow> registry_ok srv \<Longrightarrow> registry_ok (fst (CreateQueue env cfg srv))"
  by (auto simp: CreateQueue_def CreateQueueInternal_registry split: sum.splits)

section \<open>What creating a queue leaves behind\<close>

lemma find_checkpoint: "CheckpointPersistentMessageQueues env s = (s', r) \<Longrightarrow> find_queue k s' = find_queue k s"
  using checkpoint_fields(1) [of env s] by (simp add: find_queue_def)

lemma find_unpublish [simp]: "find_queue k (unpublish_queue key q s) = (if k = key then None else find_queue k s)"
  using find_remove [of k key s] by (simp add: unpublish_queue_def find_queue_def)

lemma find_append:
  "key \<notin> fst ` set (messageQueues s) \<Longrightarrow>
     find_queue k (s\<lparr>messageQueues := messageQueues s @ [(key, q)]\<rparr>) = (if k = key then Some q else find_queue k s)"
proof -
  assume "key \<notin> fst ` set (messageQueues s)"
  then have "map_of (messageQueues s) key = None" by (simp only: map_of_eq_None_iff not_False_eq_True)
  then show ?thesis by (simp add: find_queue_def map_add_def split: option.split)
qed

lemma find_None_iff: "find_queue key s = None \<longleftrightarrow> key \<notin> fst ` set (messageQueues s)"
  by (simp add: find_queue_def map_of_eq_None_iff)

text \<open>Publishing, in terms of what the companion's creation did.\<close>

lemma publish_find:
  assumes new: "key \<notin> fst ` set (messageQueues s)" and p: "publish env cfg key q s = (s', r)"
    and comp: "\<And>k. k \<notin> K \<Longrightarrow> find_queue k (fst (create_companion env cfg
        (s\<lparr>messageQueues := messageQueues s @ [(key, q)]\<rparr>)))
      = find_queue k (s\<lparr>messageQueues := messageQueues s @ [(key, q)]\<rparr>)"
  shows "find_queue key s' = (case r of Inl e \<Rightarrow> None | Inr _ \<Rightarrow> Some (Start_queue q))"
    and "k \<notin> K \<Longrightarrow> k \<noteq> key \<Longrightarrow> find_queue k s' = find_queue k s"
    and "r = Inr () \<Longrightarrow> snd (create_companion env cfg (s\<lparr>messageQueues := messageQueues s @ [(key, q)]\<rparr>)) = Inr ()"
    and "k \<noteq> key \<Longrightarrow> find_queue k s' = find_queue k (fst (create_companion env cfg (s\<lparr>messageQueues := messageQueues s @ [(key, q)]\<rparr>)))"
proof -
  let ?s1 = "s\<lparr>messageQueues := messageQueues s @ [(key, q)]\<rparr>"
  obtain s2 r2 where c: "create_companion env cfg ?s1 = (s2, r2)" by (cases "create_companion env cfg ?s1")
  obtain s3 r3 where k3: "CheckpointPersistentMessageQueues env s2 = (s3, r3)"
    by (cases "CheckpointPersistentMessageQueues env s2")
  have cases: "s' = unpublish_queue key q s2 \<and> r = r2 \<and> r2 \<noteq> Inr ()
      \<or> s' = unpublish_queue key q s3 \<and> r = r3 \<and> r2 = Inr () \<and> r3 \<noteq> Inr ()
      \<or> s' = put_queue key (Start_queue q) s3 \<and> r = Inr () \<and> r2 = Inr ()"
    using p by (auto simp: publish_def c k3 split: sum.splits)
  show "find_queue key s' = (case r of Inl e \<Rightarrow> None | Inr _ \<Rightarrow> Some (Start_queue q))"
    using cases by (auto split: sum.splits)
  show "r = Inr () \<Longrightarrow> snd (create_companion env cfg ?s1) = Inr ()"
    using cases by (auto simp: c)
  show other: "k \<noteq> key \<Longrightarrow> find_queue k s' = find_queue k (fst (create_companion env cfg ?s1))" for k
    using cases by (auto simp: c find_checkpoint [OF k3])
  show "k \<notin> K \<Longrightarrow> k \<noteq> key \<Longrightarrow> find_queue k s' = find_queue k s"
    using other [of k] comp [of k] find_append [OF new, of k q] by simp
qed

lemma create_leaf:
  assumes leaf: "DeadLetterConfiguration cfg = None" and r: "CreateQueueInternal env cfg s = (s', r)"
  shows "\<forall>k. cfg_queueName cfg \<noteq> None \<and> k = ToLowerInvariant (the (cfg_queueName cfg)) \<or> find_queue k s' = find_queue k s"
    and "r = Inr () \<Longrightarrow> \<exists>n. cfg_queueName cfg = Some n \<and> find_queue (ToLowerInvariant n) s' \<noteq> None"
proof -
  have comp: "create_companion env cfg t = (t, Inr ())" for t by (simp add: create_companion_def leaf)
  consider (new) n where "creatable env cfg n s" | (old) "\<nexists>n. creatable env cfg n s" by blast
  then have "(\<forall>k. cfg_queueName cfg \<noteq> None \<and> k = ToLowerInvariant (the (cfg_queueName cfg)) \<or> find_queue k s' = find_queue k s)
    \<and> (r = Inr () \<longrightarrow> (\<exists>n. cfg_queueName cfg = Some n \<and> find_queue (ToLowerInvariant n) s' \<noteq> None))"
  proof cases
    case new
    then have key: "ToLowerInvariant n \<notin> fst ` set (messageQueues s)" by (simp add: creatable_def)
    have p: "publish env cfg (ToLowerInvariant n) (new_queue env cfg s) s = (s', r)"
      using r create_unfold [OF new] by simp
    note f = publish_find [OF key p, where K = "{}"]
    have "find_queue k s' = find_queue k s" if "k \<noteq> ToLowerInvariant n" for k
      using f(2) [of k] that by (simp add: comp)
    then show ?thesis using f(1) creatable_name [OF new] by (auto simp: comp)
  next
    case old
    from create_not [OF this] r show ?thesis
      by (auto simp: QueueName_get_def find_None_iff split: option.splits)
  qed
  then show "\<forall>k. cfg_queueName cfg \<noteq> None \<and> k = ToLowerInvariant (the (cfg_queueName cfg)) \<or> find_queue k s' = find_queue k s"
    and "r = Inr () \<Longrightarrow> \<exists>n. cfg_queueName cfg = Some n \<and> find_queue (ToLowerInvariant n) s' \<noteq> None"
    by blast+
qed

lemma ToConfiguration_name: "ToConfiguration d (Some n) = Inr c \<Longrightarrow> cfg_queueName c = Some (n @ ''.dlq'')"
  by (auto simp: ToConfiguration_def CMqQueueConfiguration_new_def dest!: QueueName_set_ok split: if_splits sum.splits)

lemma companion_find:
  assumes n: "cfg_queueName cfg = Some n" and c: "create_companion env cfg s = (s', r)"
  shows "k \<noteq> ToLowerInvariant (n @ ''.dlq'') \<Longrightarrow> find_queue k s' = find_queue k s"
    and "r = Inr () \<Longrightarrow> DeadLetterConfiguration cfg \<noteq> None \<Longrightarrow> find_queue (ToLowerInvariant (n @ ''.dlq'')) s' \<noteq> None"
proof -
  have step: "(k \<noteq> ToLowerInvariant (n @ ''.dlq'') \<longrightarrow> find_queue k s' = find_queue k s)
      \<and> (r = Inr () \<longrightarrow> find_queue (ToLowerInvariant (n @ ''.dlq'')) s' \<noteq> None)"
    if "ToConfiguration d (Some n) = Inr c" "CreateQueueInternal env c s = (s', r)" for d c
    using create_leaf [OF ToConfiguration_leaf [OF that(1)] that(2)] ToConfiguration_name [OF that(1)] by auto
  show "k \<noteq> ToLowerInvariant (n @ ''.dlq'') \<Longrightarrow> find_queue k s' = find_queue k s"
    and "r = Inr () \<Longrightarrow> DeadLetterConfiguration cfg \<noteq> None \<Longrightarrow> find_queue (ToLowerInvariant (n @ ''.dlq'')) s' \<noteq> None"
    using c step by (auto simp: create_companion_def n split: option.splits sum.splits)
qed

lemma dlq_key_differs: "ToLowerInvariant (n @ ''.dlq'') \<noteq> ToLowerInvariant n"
proof
  assume "ToLowerInvariant (n @ ''.dlq'') = ToLowerInvariant n"
  then have "length (ToLowerInvariant (n @ ''.dlq'')) = length (ToLowerInvariant n)" by (rule arg_cong)
  then show False by simp
qed

text \<open>The whole of \<open>CreateQueueInternal\<close>, for a name that is not taken.\<close>

lemma create_effect:
  assumes free: "find_queue (ToLowerInvariant n) s = None" and name: "cfg_queueName cfg = Some n"
    and r: "CreateQueueInternal env cfg s = (s', r)"
  shows "case r of Inl e \<Rightarrow> find_queue (ToLowerInvariant n) s' = None
       | Inr _ \<Rightarrow> (\<exists>q. find_queue (ToLowerInvariant n) s' = Some q \<and> q_isRunning q \<and> IsInitialized q \<and> Configuration q = cfg)
           \<and> (DeadLetterConfiguration cfg \<noteq> None \<longrightarrow> find_queue (ToLowerInvariant (n @ ''.dlq'')) s' \<noteq> None)"
    and "k \<noteq> ToLowerInvariant n \<Longrightarrow> k \<noteq> ToLowerInvariant (n @ ''.dlq'') \<Longrightarrow> find_queue k s' = find_queue k s"
proof -
  have neq: "ToLowerInvariant (n @ ''.dlq'') \<noteq> ToLowerInvariant n" by (rule dlq_key_differs)
  consider (new) "creatable env cfg n s" | (old) "\<nexists>m. creatable env cfg m s"
    using name creatable_name by (metis option.inject)
  then have "(case r of Inl e \<Rightarrow> find_queue (ToLowerInvariant n) s' = None
       | Inr _ \<Rightarrow> (\<exists>q. find_queue (ToLowerInvariant n) s' = Some q \<and> q_isRunning q \<and> IsInitialized q \<and> Configuration q = cfg)
           \<and> (DeadLetterConfiguration cfg \<noteq> None \<longrightarrow> find_queue (ToLowerInvariant (n @ ''.dlq'')) s' \<noteq> None))
    \<and> (k \<noteq> ToLowerInvariant n \<longrightarrow> k \<noteq> ToLowerInvariant (n @ ''.dlq'') \<longrightarrow> find_queue k s' = find_queue k s)"
  proof cases
    case new
    let ?key = "ToLowerInvariant n" and ?q = "new_queue env cfg s"
    let ?s1 = "s\<lparr>messageQueues := messageQueues s @ [(?key, ?q)]\<rparr>"
    have key: "?key \<notin> fst ` set (messageQueues s)" and init: "IsInitialized ?q"
      using new by (simp_all add: creatable_def)
    have p: "publish env cfg ?key ?q s = (s', r)" using r create_unfold [OF new] by simp
    obtain s2 r2 where c: "create_companion env cfg ?s1 = (s2, r2)" by (cases "create_companion env cfg ?s1")
    note comp = companion_find [OF name c]
    note f = publish_find [OF key p, where K = "{ToLowerInvariant (n @ ''.dlq'')}", unfolded c fst_conv snd_conv]
    have other: "find_queue k s' = find_queue k s"
      if "k \<noteq> ?key" "k \<noteq> ToLowerInvariant (n @ ''.dlq'')"
      using f(2) [of k] comp(1) that by simp
    show ?thesis
    proof (cases r)
      case (Inl e)
      then show ?thesis using f(1) comp(1) other by simp
    next
      case (Inr u)
      then have "r = Inr ()" by simp
      moreover have "find_queue ?key s' = Some (Start_queue ?q)" using f(1) comp(1) Inr by simp
      moreover have "find_queue (ToLowerInvariant (n @ ''.dlq'')) s' = find_queue (ToLowerInvariant (n @ ''.dlq'')) s2"
        using f(4) [OF _ neq] comp(1) by simp
      moreover have "r2 = Inr ()" using f(3) comp(1) \<open>r = Inr ()\<close> by simp
      ultimately show ?thesis using comp(2) init other by simp
    qed
  next
    case old
    from create_not [OF this] r free name show ?thesis
      by (auto simp: QueueName_get_def find_None_iff split: option.splits)
  qed
  then show "case r of Inl e \<Rightarrow> find_queue (ToLowerInvariant n) s' = None
       | Inr _ \<Rightarrow> (\<exists>q. find_queue (ToLowerInvariant n) s' = Some q \<and> q_isRunning q \<and> IsInitialized q \<and> Configuration q = cfg)
           \<and> (DeadLetterConfiguration cfg \<noteq> None \<longrightarrow> find_queue (ToLowerInvariant (n @ ''.dlq'')) s' \<noteq> None)"
    and "k \<noteq> ToLowerInvariant n \<Longrightarrow> k \<noteq> ToLowerInvariant (n @ ''.dlq'') \<Longrightarrow> find_queue k s' = find_queue k s"
    by blast+
qed

end
