(* ===== verification/Queue_Hydration.thy ===== *)
theory Queue_Hydration
  imports Queue_Invariant
begin

text \<open>
  Refilling the buffer from the database, and opening the database: neither raises on a database
  the broker wrote, both establish or keep the queue invariant, and refilling appends exactly
  the next stored messages, in serial order.
\<close>

lemma forget_delivery_fields [simp]:
  "em_SerialNumber (forget_delivery m) = em_SerialNumber m"
  "em_MessageId (forget_delivery m) = em_MessageId m"
  by (simp_all add: forget_delivery_def)

definition entry_serial :: "bool \<Rightarrow> db_entry \<Rightarrow> u64" where
  "entry_serial le e = (case FromKey le (fst e) of Some s \<Rightarrow> s | None \<Rightarrow> 0)"

lemma dropWhile_sorted:
  "key_sorted es \<Longrightarrow> dropWhile (\<lambda>e. bytes_less (fst e) k) es = filter (\<lambda>e. \<not> bytes_less (fst e) k) es"
proof (induction es)
  case Nil
  then show ?case by simp
next
  case (Cons e es)
  show ?case
  proof (cases "bytes_less (fst e) k")
    case True
    with Cons show ?thesis by simp
  next
    case False
    have "\<not> bytes_less (fst x) k" if "x \<in> set es" for x
      using Cons.prems False that by (auto dest: bytes_less_trans)
    then show ?thesis using False by (simp add: filter_id_conv)
  qed
qed

lemma entry_ok_ex:
  "entry_ok le mx e \<Longrightarrow> \<exists>m. e = (ToKey le (em_SerialNumber m), Serialize m)
     \<and> em_SerialNumber m \<le> mx \<and> entry_serial le e = em_SerialNumber m"
  by (auto simp: entry_ok_def entry_serial_def)

text \<open>One message appended to the buffer from the database.\<close>

lemma queue_ok_append:
  assumes ok: "queue_ok ops le q" and p: "is_persistent q" and d: "database q = Some d"
    and s: "em_SerialNumber m \<in> stored ops le d" and top: "em_SerialNumber m \<le> lastSerialNumber (Statistics q)"
    and above: "\<forall>i \<in> set (buffer q). serial q i < em_SerialNumber m"
    and closed: "\<forall>t \<in> stored ops le d. t < em_SerialNumber m \<longrightarrow> (\<exists>i \<in> set (buffer q). t \<le> serial q i)"
  shows "queue_ok ops le (add_to_buffer m q)"
proof -
  let ?q = "add_to_buffer m q"
  have old: "i < q_next q" if "i \<in> set (buffer q)" for i
    using ok that by (auto simp: queue_ok_def buffer_ok_def)
  have ser: "serial ?q i = (if i = q_next q then em_SerialNumber m else serial q i)" for i
    by simp
  have same: "map (serial ?q) (buffer q) = map (serial q) (buffer q)"
    using old by (auto simp: ser)
  have im: "serial ?q ` set (buffer ?q) = insert (em_SerialNumber m) (serial q ` set (buffer q))"
  proof -
    have "serial ?q ` set (buffer q) = serial q ` set (buffer q)"
      using old by (intro image_cong) (auto simp: ser)
    moreover have "serial ?q (q_next q) = em_SerialNumber m" by simp
    ultimately show ?thesis by (simp only: buffer_updates set_append image_Un list.set image_insert image_empty) blast
  qed
  have "sorted_wrt (<) (map (serial ?q) (buffer q @ [q_next q]))"
    unfolding map_append same using ok above
    by (auto simp: sorted_wrt_append queue_ok_def buffer_ok_def)
  then have "buffer_ok ?q"
    using ok top unfolding buffer_ok_def queue_ok_def by (auto simp: less_SucI)
  moreover have "subs_ok ?q"
    using ok unfolding queue_ok_def subs_ok_def by (auto intro: less_SucI)
  moreover have "ephemeral_ok ?q"
    using p by (simp add: ephemeral_ok_def)
  moreover have "persistent_ok ops le ?q"
    unfolding persistent_ok_def
  proof (intro impI allI conjI)
    fix d2 assume "database ?q = Some d2"
    then have d2: "d2 = d" using d by simp
    have P: "db_ok ops le (lastSerialNumber (Statistics q)) d"
      "QueueDepth (Statistics q) = wrap_i32 (int (length (rk_NewIterator ops d)))"
      "serial q ` set (buffer q) \<subseteq> stored ops le d"
      "\<forall>s \<in> stored ops le d. \<forall>i \<in> set (buffer q). s \<le> serial q i \<longrightarrow> s \<in> serial q ` set (buffer q)"
      using ok p d by (auto simp: queue_ok_def persistent_ok_def)
    show "db_ok ops le (lastSerialNumber (Statistics ?q)) d2"
      "QueueDepth (Statistics ?q) = wrap_i32 (int (length (rk_NewIterator ops d2)))"
      using P by (simp_all add: d2)
    show "serial ?q ` set (buffer ?q) \<subseteq> stored ops le d2"
      unfolding im d2 using s P(3) by blast
    show "\<forall>t \<in> stored ops le d2. \<forall>i \<in> set (buffer ?q). t \<le> serial ?q i \<longrightarrow> t \<in> serial ?q ` set (buffer ?q)"
    proof (intro ballI impI)
      fix t i
      assume t: "t \<in> stored ops le d2" and i: "i \<in> set (buffer ?q)" and le: "t \<le> serial ?q i"
      show "t \<in> serial ?q ` set (buffer ?q)"
      proof (cases "i = q_next q")
        case True
        with le have "t = em_SerialNumber m \<or> t < em_SerialNumber m" by auto
        then show ?thesis
          unfolding im using closed P(4) t d2 by blast
      next
        case False
        then have "t \<le> serial q i" "i \<in> set (buffer q)" using le i by auto
        then show ?thesis unfolding im using P(4) t d2 by blast
      qed
    qed
  qed
  ultimately show ?thesis by (simp add: queue_ok_def)
qed

text \<open>The entries a refill looks at: those stored above everything buffered.\<close>

definition pending_entries :: "'db rocks_ops \<Rightarrow> bool \<Rightarrow> 'db queue \<Rightarrow> 'db \<Rightarrow> db_entry list" where
  "pending_entries ops le q d =
     filter (\<lambda>e. \<forall>i \<in> set (buffer q). serial q i < entry_serial le e) (rk_NewIterator ops d)"

context rocksdb
begin

text \<open>
  The loop, over entries that are the stored messages above everything buffered.
\<close>

lemma hydrate_loop_ok:
  assumes "queue_ok ops le q" "is_persistent q" "database q = Some d"
    and "key_sorted es" "\<forall>e \<in> set es. entry_ok le (lastSerialNumber (Statistics q)) e"
    and "entry_serial le ` set es = {s \<in> stored ops le d. \<forall>i \<in> set (buffer q). serial q i < s}"
    and "\<forall>mx. maxSn = Some mx \<longrightarrow> (\<exists>i \<in> set (buffer q). serial q i = mx)"
  shows "snd (hydrate_loop ops le gen n maxSn es loaded q) = Inr ()
    \<and> queue_ok ops le (fst (hydrate_loop ops le gen n maxSn es loaded q))
    \<and> map (serial (fst (hydrate_loop ops le gen n maxSn es loaded q)))
          (buffer (fst (hydrate_loop ops le gen n maxSn es loaded q)))
        = map (serial q) (buffer q) @ take (n - loaded) (map (entry_serial le) es)"
  using assms
proof (induction es arbitrary: q d loaded)
  case Nil
  then show ?case by simp
next
  case (Cons e es)
  note ok = Cons.prems(1) and p = Cons.prems(2) and d = Cons.prems(3) and srt = Cons.prems(4)
    and eok = Cons.prems(5) and set_es = Cons.prems(6) and mx = Cons.prems(7)
  show ?case
  proof (cases "loaded < n")
    case False
    then show ?thesis using ok by (cases e) simp
  next
    case True
    obtain m0 where e: "e = (ToKey le (em_SerialNumber m0), Serialize m0)"
      and top: "em_SerialNumber m0 \<le> lastSerialNumber (Statistics q)"
      and es0: "entry_serial le e = em_SerialNumber m0"
      using eok entry_ok_ex [of le _ e] by auto
    let ?s = "em_SerialNumber m0"
    have s: "?s \<in> stored ops le d" and above: "\<forall>i \<in> set (buffer q). serial q i < ?s"
      using set_es es0 by auto
    have cond: "case maxSn of None \<Rightarrow> True | Some m \<Rightarrow> ?s > m"
      using mx above by (auto split: option.splits)
    let ?fresh = "em_MessageId m0 = 0"
    let ?m1 = "forget_delivery m0"
    let ?m = "if ?fresh then ?m1\<lparr>em_MessageId := gen ?s\<rparr> else ?m1"
    let ?q1 = "if ?fresh then set_database (Store ops le (database q) ?m) q else q"
    let ?d1 = "if ?fresh then rk_Put ops (ToKey le ?s) (Serialize ?m) d else d"
    have m_sn: "em_SerialNumber ?m = ?s" and fid: "em_MessageId ?m1 = em_MessageId m0"
      by (simp_all add: forget_delivery_def)
    have d1: "database ?q1 = Some ?d1" using d by (simp add: Store_def forget_delivery_def)
    have st1: "stored ops le ?d1 = stored ops le d" using s by (simp add: stored_put insert_absorb)
    have ok1: "queue_ok ops le ?q1"
      using ok d queue_ok_overwrite [OF ok d, of ?m] s m_sn by (cases ?fresh) simp_all
    have closed: "\<forall>t \<in> stored ops le ?d1. t < ?s \<longrightarrow> (\<exists>i \<in> set (buffer ?q1). t \<le> serial ?q1 i)"
    proof (intro ballI impI)
      fix t assume t: "t \<in> stored ops le ?d1" and lt: "t < ?s"
      show "\<exists>i \<in> set (buffer ?q1). t \<le> serial ?q1 i"
      proof (rule ccontr)
        assume "\<not> ?thesis"
        then have "\<forall>i \<in> set (buffer q). serial q i < t" by (auto simp: not_le split: if_splits)
        with t st1 set_es have "t \<in> entry_serial le ` set (e # es)" by auto
        then obtain x where x: "x \<in> set (e # es)" "t = entry_serial le x" by (elim imageE) blast
        with lt es0 have "x \<in> set es" by auto
        then have "bytes_less (fst e) (fst x)" using srt by auto
        moreover obtain mx where "x = (ToKey le (em_SerialNumber mx), Serialize mx)" "entry_serial le x = em_SerialNumber mx"
          using eok \<open>x \<in> set es\<close> entry_ok_ex [of le _ x] by (meson list.set_intros(2))
        ultimately show False using lt x(2) e by simp
      qed
    qed
    let ?q2 = "add_to_buffer ?m ?q1"
    have ok2: "queue_ok ops le ?q2"
      by (rule queue_ok_append [OF ok1 _ d1]) (use p s st1 m_sn top above closed in auto)
    have low: "\<forall>x \<in> set es. ?s < entry_serial le x"
    proof
      fix x assume x: "x \<in> set es"
      then have "bytes_less (fst e) (fst x)" using srt by auto
      moreover obtain mx where "x = (ToKey le (em_SerialNumber mx), Serialize mx)" "entry_serial le x = em_SerialNumber mx"
        using eok x entry_ok_ex [of le _ x] by (meson list.set_intros(2))
      ultimately show "?s < entry_serial le x" using e by simp
    qed
    have old: "i < q_next q" if "i \<in> set (buffer q)" for i
      using ok that by (auto simp: queue_ok_def buffer_ok_def)
    have ser2: "serial ?q2 i = (if i = q_next q then ?s else serial q i)" for i
      using m_sn by auto
    have same: "map (serial ?q2) (buffer q) = map (serial q) (buffer q)"
      using old by (auto simp: ser2)
    have buf2: "buffer ?q2 = buffer q @ [q_next q]" by simp
    have step: "hydrate_loop ops le gen n maxSn (e # es) loaded q
        = hydrate_loop ops le gen n maxSn es (Suc loaded) ?q2"
      using True cond fid by (simp add: e Deserialize_Serialize Let_def)
    have set2: "entry_serial le ` set es = {t \<in> stored ops le ?d1. \<forall>i \<in> set (buffer ?q2). serial ?q2 i < t}"
    proof -
      have iff: "(\<forall>i \<in> set (buffer ?q2). serial ?q2 i < t) \<longleftrightarrow> ?s < t \<and> (\<forall>i \<in> set (buffer q). serial q i < t)" for t
      proof -
        have "(\<forall>i \<in> set (buffer q). serial ?q2 i < t) \<longleftrightarrow> (\<forall>i \<in> set (buffer q). serial q i < t)"
          using old by (intro ball_cong) (auto simp: ser2)
        moreover have "serial ?q2 (q_next q) = ?s" using ser2 by simp
        ultimately show ?thesis unfolding buf2 by (simp only: set_append list.set ball_Un ball_simps) blast
      qed
      have "entry_serial le ` set es = {t \<in> entry_serial le ` set (e # es). ?s < t}"
        unfolding list.set image_insert es0 using low by blast
      then show ?thesis unfolding set_es iff st1 by blast
    qed
    have ih: "snd (hydrate_loop ops le gen n maxSn es (Suc loaded) ?q2) = Inr ()
      \<and> queue_ok ops le (fst (hydrate_loop ops le gen n maxSn es (Suc loaded) ?q2))
      \<and> map (serial (fst (hydrate_loop ops le gen n maxSn es (Suc loaded) ?q2)))
          (buffer (fst (hydrate_loop ops le gen n maxSn es (Suc loaded) ?q2)))
        = map (serial ?q2) (buffer ?q2) @ take (n - Suc loaded) (map (entry_serial le) es)"
    proof (rule Cons.IH [OF ok2])
      show "is_persistent ?q2" using p by simp
      show "database ?q2 = Some ?d1" using d1 by simp
      show "key_sorted es" using srt by simp
      show "\<forall>e \<in> set es. entry_ok le (lastSerialNumber (Statistics ?q2)) e" using eok by simp
      show "entry_serial le ` set es = {t \<in> stored ops le ?d1. \<forall>i \<in> set (buffer ?q2). serial ?q2 i < t}"
        by (rule set2)
      show "\<forall>mx. maxSn = Some mx \<longrightarrow> (\<exists>i \<in> set (buffer ?q2). serial ?q2 i = mx)"
        using mx old unfolding buf2 by (fastforce simp: ser2)
    qed
    have "map (serial ?q2) (buffer ?q2) = map (serial q) (buffer q) @ [?s]"
      unfolding buf2 map_append same by (simp add: ser2)
    moreover have "n - loaded = Suc (n - Suc loaded)" using True by simp
    ultimately show ?thesis
      using ih unfolding step by (simp add: es0)
  qed
qed

lemma db_ok_entry:
  "db_ok ops le mx d \<Longrightarrow> e \<in> set (rk_NewIterator ops d) \<Longrightarrow>
     \<exists>m. e = (ToKey le (em_SerialNumber m), Serialize m) \<and> em_SerialNumber m \<le> mx
       \<and> entry_serial le e = em_SerialNumber m"
  unfolding db_ok_def by (blast dest: entry_ok_ex)

lemma stored_entry_serial:
  "db_ok ops le mx d \<Longrightarrow> entry_serial le ` set (rk_NewIterator ops d) = stored ops le d"
proof (intro set_eqI iffI)
  fix s assume ok: "db_ok ops le mx d" and "s \<in> entry_serial le ` set (rk_NewIterator ops d)"
  then obtain e where "e \<in> set (rk_NewIterator ops d)" "s = entry_serial le e" by blast
  with ok entry_ok_ex [of le mx e] show "s \<in> stored ops le d"
    by (force simp: db_ok_def stored_def)
next
  fix s assume "s \<in> stored ops le d"
  then obtain e where "e \<in> set (rk_NewIterator ops d)" "fst e = ToKey le s" by (auto simp: stored_def)
  then show "s \<in> entry_serial le ` set (rk_NewIterator ops d)"
    by (intro image_eqI [of _ _ e]) (auto simp: entry_serial_def)
qed

lemma seek_entries:
  assumes ok: "queue_ok ops le q" and p: "is_persistent q" and d: "database q = Some d"
    and room: "lastSerialNumber (Statistics q) \<noteq> - 1"
  shows "(case max_buffered_serial q of Some m \<Rightarrow> rk_Seek ops d (ToKey le (m + 1)) | None \<Rightarrow> rk_NewIterator ops d)
     = pending_entries ops le q d"
proof (cases "buffer q = []")
  case True
  then show ?thesis by (simp add: max_buffered_serial_def pending_entries_def)
next
  case False
  let ?M = "Max (set (map (serial q) (buffer q)))"
  have M: "?M \<in> set (map (serial q) (buffer q))" using False by (intro Max_in) auto
  then have "?M \<le> lastSerialNumber (Statistics q)"
    using ok by (auto simp: queue_ok_def buffer_ok_def)
  then have M1: "?M \<noteq> - 1" using room by (metis word_order.extremum_uniqueI)
  have all: "(\<forall>i \<in> set (buffer q). serial q i < t) \<longleftrightarrow> ?M < t" for t
    using False by (subst Max_less_iff) auto
  have dok: "db_ok ops le (lastSerialNumber (Statistics q)) d"
    using ok p d by (auto simp: queue_ok_def persistent_ok_def)
  have key: "\<not> bytes_less (fst e) (ToKey le (?M + 1)) \<longleftrightarrow> ?M < entry_serial le e"
    if mem: "e \<in> set (rk_NewIterator ops d)" for e
  proof -
    obtain m where "e = (ToKey le (em_SerialNumber m), Serialize m)" "entry_serial le e = em_SerialNumber m"
      using db_ok_entry [OF dok mem] by blast
    then show ?thesis using M1 by (simp add: not_less inc_less_eq_iff)
  qed
  have "rk_Seek ops d (ToKey le (?M + 1)) = filter (\<lambda>e. ?M < entry_serial le e) (rk_NewIterator ops d)"
    unfolding seek_iter dropWhile_sorted [OF iter_sorted] by (rule filter_cong [OF refl key])
  then show ?thesis
    using False by (simp only: max_buffered_serial_def pending_entries_def all if_False option.case)
qed

lemma Hydrate_ok:
  assumes ok: "queue_ok ops le q" and p: "is_persistent q" and d: "database q = Some d"
    and room: "lastSerialNumber (Statistics q) \<noteq> - 1"
  shows "\<exists>q'. HydrateMessageBuffer ops le gen n True q = (q', Inr True) \<and> queue_ok ops le q'
     \<and> map (serial q') (buffer q') = map (serial q) (buffer q) @ take n (map (entry_serial le) (pending_entries ops le q d))"
proof -
  let ?r = "hydrate_loop ops le gen n (max_buffered_serial q) (pending_entries ops le q d) 0 q"
  have dok: "db_ok ops le (lastSerialNumber (Statistics q)) d"
    using ok p d by (auto simp: queue_ok_def persistent_ok_def)
  have "snd ?r = Inr () \<and> queue_ok ops le (fst ?r) \<and> map (serial (fst ?r)) (buffer (fst ?r))
      = map (serial q) (buffer q) @ take (n - 0) (map (entry_serial le) (pending_entries ops le q d))"
  proof (rule hydrate_loop_ok [OF ok p d])
    show "key_sorted (pending_entries ops le q d)"
      unfolding pending_entries_def sorted_wrt_map
      by (rule sorted_wrt_filter) (use iter_sorted [of d] in \<open>simp add: sorted_wrt_map\<close>)
    show "\<forall>e \<in> set (pending_entries ops le q d). entry_ok le (lastSerialNumber (Statistics q)) e"
      using dok by (auto simp: pending_entries_def db_ok_def)
    show "entry_serial le ` set (pending_entries ops le q d)
       = {s \<in> stored ops le d. \<forall>i \<in> set (buffer q). serial q i < s}"
      unfolding stored_entry_serial [OF dok, symmetric] by (auto simp: pending_entries_def)
    show "\<forall>mx. max_buffered_serial q = Some mx \<longrightarrow> (\<exists>i \<in> set (buffer q). serial q i = mx)"
    proof (intro allI impI)
      fix mx assume "max_buffered_serial q = Some mx"
      then have "set (map (serial q) (buffer q)) \<noteq> {}" "mx = Max (set (map (serial q) (buffer q)))"
        by (auto simp: max_buffered_serial_def split: if_splits)
      then have "mx \<in> set (map (serial q) (buffer q))" using Max_in [OF finite_set] by blast
      then show "\<exists>i \<in> set (buffer q). serial q i = mx" by auto
    qed
  qed
  then show ?thesis
    using p d seek_entries [OF ok p d room]
    by (cases ?r) (auto simp: HydrateMessageBuffer_def Let_def)
qed

lemma sorted_last_max:
  "key_sorted es \<Longrightarrow> e \<in> set es \<Longrightarrow> fst e = fst (last es) \<or> bytes_less (fst e) (fst (last es))"
  by (induction es) auto

lemma Initialize_ok:
  assumes subs: "subs_ok q" and b: "buffer q = []" and p: "is_persistent q"
    and dok: "db_ok ops le mx d"
  shows "let q' = InitializePersistentDatabase ops le (Inr d) q in
     queue_ok ops le q' \<and> IsInitialized q' \<and> database q' = Some d \<and> ErrorMessage q' = ErrorMessage q
     \<and> (\<forall>s \<in> stored ops le d. s \<le> lastSerialNumber (Statistics q'))"
proof -
  let ?es = "rk_NewIterator ops d"
  let ?bytes = "if map fst ?es = [] then GetBytes le 0 else last (map fst ?es)"
  have "\<exists>s. FromKey le ?bytes = Some s \<and> db_ok ops le s d"
  proof (cases "?es = []")
    case True
    then show ?thesis by (simp add: FromKey_def ToUInt64_def GetBytes_def Let_def db_ok_def)
  next
    case False
    then obtain m where l: "last ?es = (ToKey le (em_SerialNumber m), Serialize m)"
      using dok entry_ok_ex [of le mx "last ?es"] by (auto simp: db_ok_def)
    have "entry_ok le (em_SerialNumber m) e" if mem: "e \<in> set ?es" for e
    proof -
      obtain m' where "e = (ToKey le (em_SerialNumber m'), Serialize m')"
        using db_ok_entry [OF dok mem] by blast
      then show ?thesis
        using sorted_last_max [OF iter_sorted mem] l by (auto simp: entry_ok_def order_le_less)
    qed
    then show ?thesis using False l by (simp add: db_ok_def last_map)
  qed
  then obtain s where s: "FromKey le ?bytes = Some s" and dok': "db_ok ops le s d" by blast
  have "\<forall>t \<in> stored ops le d. t \<le> s" using stored_le [OF dok'] by blast
  then show ?thesis
    using subs b p s dok'
    by (simp add: InitializePersistentDatabase_def Let_def queue_ok_def subs_ok_def buffer_ok_def
        ephemeral_ok_def persistent_ok_def stat_defs queue_update_defs)
qed

end

end
