(* ===== verification/Mq_Server_Inv.thy ===== *)
theory Mq_Server_Inv
  imports Mq_Lifecycle Queue_Hydration
begin

text \<open>
  Every step of a server, from creating a queue to stopping, keeps every queue's invariant, the
  registry, and the databases closed queues left on disk; hence they hold in every reachable state.
\<close>

section \<open>The invariant\<close>

definition good_db :: "'db server_env \<Rightarrow> 'db \<Rightarrow> bool" where
  "good_db env d = (\<exists>mx. db_ok (env_ops env) (env_le env) mx d)"

text \<open>
  What is documented of the surroundings: the database is a sorted map, opening a directory gives
  what is in it, and an empty database for a new directory.
\<close>

definition env_ok :: "'db server_env \<Rightarrow> bool" where
  "env_ok env = (rocksdb (env_ops env)
     \<and> (\<forall>p d d'. env_open env p (Some d) = Inr d' \<longrightarrow> d' = d)
     \<and> (\<forall>p d'. env_open env p None = Inr d' \<longrightarrow> rk_NewIterator (env_ops env) d' = []))"

definition disk_ok :: "'db server_env \<Rightarrow> 'db server \<Rightarrow> bool" where
  "disk_ok env srv = ((\<forall>p d. messages_dir srv p = Some d \<longrightarrow> good_db env d)
     \<and> (\<forall>qms. queues_json srv = Some qms \<longrightarrow> (\<forall>qm \<in> set qms. config_ok (fst qm))))"

definition server_ok :: "'db server_env \<Rightarrow> 'db server \<Rightarrow> bool" where
  "server_ok env srv = (registry_ok srv \<and> disk_ok env srv
     \<and> (\<forall>kq \<in> set (messageQueues srv). queue_ok (env_ops env) (env_le env) (snd kq)))"

lemma server_ok_new [simp]: "server_ok env (CMqServer_new path)"
  by (simp add: server_ok_def disk_ok_def) (simp add: CMqServer_new_def)

lemma server_ok_find: "server_ok env srv \<Longrightarrow> find_queue key srv = Some q \<Longrightarrow> queue_ok (env_ops env) (env_le env) q"
  using find_queue_in by (fastforce simp: server_ok_def)

lemma server_ok_put:
  assumes "server_ok env srv" "find_queue key srv = Some q" "Configuration q' = Configuration q"
    "queue_ok (env_ops env) (env_le env) q'"
  shows "server_ok env (put_queue key q' srv)"
proof -
  have "queue_ok (env_ops env) (env_le env) (snd kq)" if "kq \<in> set (messageQueues (put_queue key q' srv))" for kq
    using that assms(1,4) set_dict_put [of key q' "messageQueues srv"] by (auto simp: put_queue_def server_ok_def)
  then show ?thesis
    using assms(1) registry_ok_put [OF _ assms(2,3)] by (auto simp: server_ok_def disk_ok_def)
qed

lemma queue_ok_good_db: "queue_ok (env_ops env) (env_le env) q \<Longrightarrow> database q = Some d \<Longrightarrow> good_db env d"
  by (cases "is_persistent q") (auto simp: queue_ok_def ephemeral_ok_def persistent_ok_def good_db_def)

lemma disk_ok_close:
  "disk_ok env srv \<Longrightarrow> queue_ok (env_ops env) (env_le env) q \<Longrightarrow> disk_ok env (close_database q srv)"
  using queue_ok_good_db [of env q] by (auto simp: disk_ok_def close_database_def split: option.splits)

lemma disk_ok_checkpoint:
  assumes "registry_ok srv" "disk_ok env srv"
  shows "disk_ok env (fst (CheckpointPersistentMessageQueues env srv))"
  using assms
  by (fastforce simp: disk_ok_def CheckpointPersistentMessageQueues_def persistent_metadata_def registry_ok_def
      entry_key_ok_def split: option.splits)

lemma server_ok_checkpoint: "server_ok env srv \<Longrightarrow> server_ok env (fst (CheckpointPersistentMessageQueues env srv))"
  by (simp add: server_ok_def disk_ok_checkpoint registry_ok_checkpoint)

lemma server_ok_remove: "server_ok env srv \<Longrightarrow> server_ok env (remove_queue key srv)"
  using registry_ok_remove [of srv key]
  by (auto simp: server_ok_def disk_ok_def) (auto simp: remove_queue_def set_dict_remove)

lemma server_ok_close:
  "server_ok env srv \<Longrightarrow> queue_ok (env_ops env) (env_le env) q \<Longrightarrow> server_ok env (close_database q srv)"
  by (simp add: server_ok_def disk_ok_close registry_ok_def)

section \<open>Operations on one queue\<close>

context queue_operation
begin

lemma on_queue_server:
  assumes "server_ok env srv"
    and "\<And>q. find_queue key srv = Some q \<Longrightarrow> queue_ok (env_ops env) (env_le env) q \<Longrightarrow>
      queue_ok (env_ops env) (env_le env) (fst (f q))"
  shows "server_ok env (fst (on_queue a key absent f srv))"
  using on_queue_effect [of a srv] server_ok_put [OF assms(1) _ keeps_configuration] assms(2)
    server_ok_find [OF assms(1)] assms(1) by metis

lemma with_retry_server:
  assumes "server_ok env srv"
    and "\<And>q. find_queue key srv = Some q \<Longrightarrow> queue_ok (env_ops env) (env_le env) q \<Longrightarrow>
      queue_ok (env_ops env) (env_le env) (fst (f q))"
  shows "server_ok env (fst (with_retry now timeout (\<lambda>a srv. on_queue a key absent f srv) as srv))"
  using with_retry_once [of now timeout as srv] on_queue_server [OF assms] assms(1) by metis

end

definition roomy :: "'db server \<Rightarrow> bool" where
  "roomy srv = (\<forall>kq \<in> set (messageQueues srv). lastSerialNumber (Statistics (snd kq)) \<noteq> - 1)"

lemma roomy_find: "roomy srv \<Longrightarrow> find_queue key srv = Some q \<Longrightarrow> lastSerialNumber (Statistics q) \<noteq> - 1"
  using find_queue_in by (fastforce simp: roomy_def)

lemma env_rocks: "env_ok env \<Longrightarrow> rocksdb (env_ops env)"
  by (simp add: env_ok_def)

lemma Subscribe_server: "server_ok env srv \<Longrightarrow> server_ok env (fst (Subscribe now timeout as g l r name srv))"
  by (simp add: Subscribe_def body_eqs subscribe_op.with_retry_server queue_ok_subscribe)

lemma Unsubscribe_server: "server_ok env srv \<Longrightarrow> server_ok env (fst (Unsubscribe now timeout as g name srv))"
  by (simp add: Unsubscribe_def body_eqs unsubscribe_op.with_retry_server queue_ok_unsubscribe)

lemma Enqueue_server:
  "env_ok env \<Longrightarrow> roomy srv \<Longrightarrow> server_ok env srv \<Longrightarrow> server_ok env (fst (Enqueue env now timeout as e srv))"
  by (auto simp: Enqueue_def body_eqs roomy_find intro!: enqueue_op.with_retry_server
      rocksdb.queue_ok_enqueue env_rocks)

lemma PurgeQueue_server:
  "env_ok env \<Longrightarrow> server_ok env srv \<Longrightarrow> server_ok env (fst (PurgeQueue env now timeout as name srv))"
  by (auto simp: PurgeQueue_def body_eqs intro!: purge_op.with_retry_server rocksdb.queue_ok_purge env_rocks)

lemma MoveMessage_server:
  "env_ok env \<Longrightarrow> roomy srv \<Longrightarrow> server_ok env srv \<Longrightarrow>
     server_ok env (fst (MoveMessageToDeadLetter env utcNow now timeout as source m srv))"
  by (auto simp: MoveMessageToDeadLetter_def body_eqs roomy_find CloneForDeadLetter_def EnqueuedMessage_new_def
      intro!: dead_letter_op.with_retry_server rocksdb.queue_ok_place env_rocks)

lemma server_ok_finish_delete:
  assumes "server_ok env srv" "queue_ok (env_ops env) (env_le env) q"
  shows "server_ok env (finish_delete env q srv)"
  using server_ok_close [OF assms]
  by (auto simp: finish_delete_def Let_def server_ok_def disk_ok_def registry_ok_def)

interpretation delete_server_loop: retry_body "DeleteQueue_body env name" "server_ok env"
  for env name
proof
  fix a and srv :: "'a server"
  show "server_ok env (fst (DeleteQueue_body env name a srv))" if ok: "server_ok env srv"
  proof (cases "find_queue (ToLowerInvariant name) srv")
    case None
    then show ?thesis using ok by (simp add: DeleteQueue_body_def)
  next
    case (Some q)
    obtain s' r where c: "CheckpointPersistentMessageQueues env (remove_queue (ToLowerInvariant name) srv) = (s', r)"
      by (cases "CheckpointPersistentMessageQueues env (remove_queue (ToLowerInvariant name) srv)")
    have "server_ok env s'"
      using server_ok_checkpoint [OF server_ok_remove [OF ok, of "ToLowerInvariant name"]] by (simp add: c)
    then show ?thesis
      using ok server_ok_finish_delete [OF _ server_ok_find [OF ok Some]]
      by (auto simp: DeleteQueue_body_def Let_def Some c split: sum.splits)
  qed
qed (auto intro: delete_loop.body_blocked dest: delete_loop.body_granted)

lemma DeleteQueue_server: "server_ok env srv \<Longrightarrow> server_ok env (fst (DeleteQueue env now timeout as name srv))"
  by (simp add: DeleteQueue_def delete_server_loop.with_retry_keeps)

interpretation disconnect_server_loop: retry_body "OnDisconnected_body g" "server_ok env"
  for g env
proof
  fix a and srv :: "'a server"
  show "server_ok env (fst (OnDisconnected_body g a srv))" if ok: "server_ok env srv"
  proof -
    have "registry_ok (fst (OnDisconnected_body g a srv))"
      using ok disconnect_loop.body_keeps by (auto simp: server_ok_def)
    moreover have "queue_ok (env_ops env) (env_le env) (snd kq')"
      if "kq' \<in> set (fst (disconnect_queues a g (messageQueues srv)))" for kq'
      using disconnect_entries [OF that] ok by (auto simp: server_ok_def queue_ok_unsubscribe)
    ultimately show ?thesis
      using ok by (auto simp: server_ok_def disk_ok_def OnDisconnected_body_def split: prod.splits)
  qed
qed (auto intro: disconnect_loop.body_blocked dest: disconnect_loop.body_granted)

lemma OnDisconnected_server: "server_ok env srv \<Longrightarrow> server_ok env (fst (RmServer_OnDisconnected now as g srv))"
  by (simp add: RmServer_OnDisconnected_def disconnect_server_loop.with_retry_keeps)

section \<open>Creating queues\<close>

context rocksdb
begin

lemma Initialize_any:
  assumes "subs_ok q" "buffer q = []" "database q = None" "QueueDepth (Statistics q) = 0"
    and "\<And>d. opened = Inr d \<Longrightarrow> \<exists>mx. db_ok ops le mx d"
  shows "queue_ok ops le (InitializePersistentDatabase ops le opened q)"
proof -
  have ok: "queue_ok ops le q"
    using assms by (simp add: queue_ok_def buffer_ok_def ephemeral_ok_def persistent_ok_def)
  show ?thesis
  proof (cases "is_persistent q")
    case False
    then show ?thesis
      using ok by (simp add: InitializePersistentDatabase_def queue_ok_def subs_ok_def buffer_ok_def
          ephemeral_ok_def persistent_ok_def)
  next
    case True
    show ?thesis
    proof (cases opened)
      case (Inl e)
      then show ?thesis
        using ok True by (simp add: InitializePersistentDatabase_def queue_ok_def subs_ok_def buffer_ok_def
            ephemeral_ok_def persistent_ok_def)
    next
      case (Inr d)
      then obtain mx where "db_ok ops le mx d" using assms(5) by blast
      from Initialize_ok [OF assms(1,2) True this] Inr show ?thesis by (simp add: Let_def)
    qed
  qed
qed

end

lemma opened_good:
  assumes "env_ok env" "disk_ok env srv" "env_open env p (messages_dir srv p) = Inr d"
  shows "\<exists>mx. db_ok (env_ops env) (env_le env) mx d"
proof (cases "messages_dir srv p")
  case None
  then show ?thesis using assms by (auto simp: env_ok_def db_ok_def)
next
  case (Some d0)
  then have "d = d0" using assms(1,3) by (auto simp: env_ok_def)
  then show ?thesis using assms(2) Some by (simp add: disk_ok_def good_db_def)
qed

lemma new_queue_ok:
  "env_ok env \<Longrightarrow> disk_ok env srv \<Longrightarrow> queue_ok (env_ops env) (env_le env) (new_queue env cfg srv)"
  unfolding new_queue_def
  by (rule rocksdb.Initialize_any [OF env_rocks])
    (auto intro: opened_good simp: SingleMessageQueueServer_new_def subs_ok_def MessageQueueStatistics_new_def)

lemma queue_ok_start: "queue_ok ops le (Start_queue q) = queue_ok ops le q"
  by (simp add: Start_queue_def queue_ok_def subs_ok_def buffer_ok_def ephemeral_ok_def persistent_ok_def)

lemma server_ok_append:
  "server_ok env srv \<Longrightarrow> key \<notin> fst ` set (messageQueues srv) \<Longrightarrow> entry_key_ok (key, q) \<Longrightarrow>
     queue_ok (env_ops env) (env_le env) q \<Longrightarrow>
     server_ok env (srv\<lparr>messageQueues := messageQueues srv @ [(key, q)]\<rparr>)"
  using registry_ok_append [of srv key q] by (auto simp: server_ok_def disk_ok_def)

lemma server_ok_put_entry:
  "server_ok env srv \<Longrightarrow> entry_key_ok (key, q) \<Longrightarrow> queue_ok (env_ops env) (env_le env) q \<Longrightarrow>
     server_ok env (put_queue key q srv)"
proof -
  assume a: "server_ok env srv" "entry_key_ok (key, q)" "queue_ok (env_ops env) (env_le env) q"
  have "queue_ok (env_ops env) (env_le env) (snd kq)" if "kq \<in> set (messageQueues (put_queue key q srv))" for kq
    using that a set_dict_put [of key q "messageQueues srv"] by (auto simp: put_queue_def server_ok_def)
  then show ?thesis
    using a registry_ok_put_entry [of srv key q] by (auto simp: server_ok_def disk_ok_def)
qed

lemma server_ok_unpublish:
  "server_ok env srv \<Longrightarrow> queue_ok (env_ops env) (env_le env) q \<Longrightarrow> server_ok env (unpublish_queue key q srv)"
  by (simp add: unpublish_queue_def server_ok_close server_ok_remove)

lemma CreateQueueInternal_server:
  assumes env: "env_ok env" and "named_ok cfg" "server_ok env srv"
  shows "server_ok env (fst (CreateQueueInternal env cfg srv))"
proof (rule create_preserves [where P = "server_ok env", OF _ _ _ _ assms(2,3)])
  have new: "queue_ok (env_ops env) (env_le env) (new_queue env cfg s)" if "server_ok env s" for cfg s
    using that by (intro new_queue_ok [OF env]) (simp add: server_ok_def)
  fix cfg n and s0 s :: "'a server"
  show "server_ok env (s\<lparr>messageQueues := messageQueues s @ [(ToLowerInvariant n, new_queue env cfg s)]\<rparr>)"
    if "named_ok cfg" "server_ok env s" "creatable env cfg n s"
    using that new by (intro server_ok_append entry_key_new) (auto simp: creatable_def)
  show "server_ok env (unpublish_queue (ToLowerInvariant n) (new_queue env cfg s0) s)"
    if "server_ok env s0" "server_ok env s"
    using that new by (intro server_ok_unpublish) auto
  show "server_ok env (put_queue (ToLowerInvariant n) (Start_queue (new_queue env cfg s0)) s)"
    if "named_ok cfg" "server_ok env s0" "creatable env cfg n s0" "server_ok env s"
    using that new by (intro server_ok_put_entry entry_key_new) (auto simp: queue_ok_start)
qed (rule server_ok_checkpoint)

lemma CreateQueue_server:
  "env_ok env \<Longrightarrow> named_ok cfg \<Longrightarrow> server_ok env srv \<Longrightarrow> server_ok env (fst (CreateQueue env cfg srv))"
  by (auto simp: CreateQueue_def CreateQueueInternal_server split: sum.splits)

section \<open>Starting and stopping\<close>

definition loaded_ok :: "'db server_env \<Rightarrow> 'db loaded_queue \<Rightarrow> bool" where
  "loaded_ok env l = (entry_key_ok (lq_key l, lq_queue l) \<and> queue_ok (env_ops env) (env_le env) (lq_queue l)
     \<and> subs_ok (lq_queue l) \<and> buffer (lq_queue l) = [] \<and> database (lq_queue l) = None
     \<and> QueueDepth (Statistics (lq_queue l)) = 0)"

lemma loaded_new:
  "entry_key_ok (k, SingleMessageQueueServer_new cfg :: 'db queue) \<Longrightarrow> QueueDepth st = 0 \<Longrightarrow>
     loaded_ok env (\<lparr>lq_key = k, lq_queue = (SingleMessageQueueServer_new cfg :: 'db queue)\<lparr>Statistics := st\<rparr>,
       lq_kind = kd, lq_registered = b\<rparr>)"
  by (simp add: loaded_ok_def entry_key_ok_def SingleMessageQueueServer_new_def queue_ok_def subs_ok_def
      buffer_ok_def ephemeral_ok_def persistent_ok_def)

lemma new_Statistics: "SingleMessageQueueServer_new cfg
    = (SingleMessageQueueServer_new cfg)\<lparr>Statistics := MessageQueueStatistics_new\<rparr>"
  by (simp add: SingleMessageQueueServer_new_def)

lemma load_meta_ok:
  assumes "config_ok (fst qm)"
  shows "\<forall>l \<in> set (load_meta present qm). loaded_ok env l"
proof -
  obtain cfg st where qm: "qm = (cfg, st)" by (cases qm)
  have "entry_key_ok (ToLowerInvariant (queue_name cfg), SingleMessageQueueServer_new cfg)"
    using assms by (simp add: qm entry_key_ok_def SingleMessageQueueServer_new_def)
  then have 1: "loaded_ok env (\<lparr>lq_key = ToLowerInvariant (queue_name cfg),
       lq_queue = (SingleMessageQueueServer_new cfg)\<lparr>Statistics := stats_from_json st\<rparr>, lq_kind = kd, lq_registered = b\<rparr>)" for kd b
    by (rule loaded_new) (simp add: stats_from_json_def)
  have 2: "loaded_ok env (\<lparr>lq_key = ToLowerInvariant (queue_name c),
       lq_queue = SingleMessageQueueServer_new c, lq_kind = kd, lq_registered = b\<rparr>)"
    if "ToConfiguration d (cfg_queueName cfg) = Inr c" for d c kd b
  proof -
    have "config_ok c" using assms that by (auto intro: named_dlq simp: named_ok_def qm)
    then show ?thesis
      by (subst new_Statistics, intro loaded_new)
        (simp_all add: entry_key_ok_def SingleMessageQueueServer_new_def MessageQueueStatistics_new_def)
  qed
  show ?thesis using 1 2 by (auto simp: qm load_meta_def Let_def split: option.splits sum.splits)
qed

lemma load_metas_ok:
  "\<forall>qm \<in> set qms. config_ok (fst qm) \<Longrightarrow> \<forall>l \<in> set (load_metas present qms). loaded_ok env l"
proof (induction qms arbitrary: present)
  case Nil
  then show ?case by simp
next
  case (Cons qm qms)
  then have "config_ok (fst qm)" by simp
  from load_meta_ok [OF this] Cons show ?case by (simp add: Let_def ball_Un)
qed

lemma load_meta_distinct:
  "distinct (map lq_key (filter lq_registered (load_meta present qm)))
     \<and> registered_keys (load_meta present qm) \<inter> present = {}"
  by (cases qm) (auto simp: load_meta_def registered_keys_def Let_def split: option.splits sum.splits)

lemma load_metas_distinct:
  "distinct (map lq_key (filter lq_registered (load_metas present qms :: 'a loaded_queue list)))
     \<and> registered_keys (load_metas present qms :: 'a loaded_queue list) \<inter> present = {}"
proof (induction qms arbitrary: present)
  case Nil
  then show ?case by (simp add: registered_keys_def)
next
  case (Cons qm qms)
  let ?ls = "load_meta present qm :: 'a loaded_queue list"
  have ih: "distinct (map lq_key (filter lq_registered (load_metas (present \<union> registered_keys ?ls) qms :: 'a loaded_queue list)))"
    "registered_keys (load_metas (present \<union> registered_keys ?ls) qms :: 'a loaded_queue list) \<inter> (present \<union> registered_keys ?ls) = {}"
    using Cons.IH [of "present \<union> registered_keys ?ls"] by simp_all
  have reg: "registered_keys (xs @ ys) = registered_keys xs \<union> registered_keys ys" for xs ys :: "'a loaded_queue list"
    by (auto simp: registered_keys_def)
  have keys: "set (map lq_key (filter lq_registered ls)) = registered_keys ls" for ls :: "'a loaded_queue list"
    by (auto simp: registered_keys_def)
  have here: "distinct (map lq_key (filter lq_registered ?ls))" "registered_keys ?ls \<inter> present = {}"
    using load_meta_distinct [of present qm] by blast+
  let ?rest = "load_metas (present \<union> registered_keys ?ls) qms :: 'a loaded_queue list"
  have "registered_keys ?ls \<inter> registered_keys ?rest = {}" using ih(2) by blast
  then have "distinct (map lq_key (filter lq_registered (?ls @ ?rest)))"
    using here(1) ih(1) unfolding filter_append map_append distinct_append keys by (intro conjI)
  moreover have "registered_keys (?ls @ ?rest) \<inter> present = {}"
    using here(2) ih(2) unfolding reg by blast
  moreover have "load_metas present (qm # qms) = ?ls @ ?rest" by (simp add: Let_def)
  ultimately show ?case by metis
qed

end
