(* ===== verification/Delivery_Effect.thy ===== *)
theory Delivery_Effect
  imports Queue_Invariant "HOL-Library.Multiset"
begin

text \<open>
  What one round of deliveries amounts to: an abstract account of the loop over the subscribers
  (who is tried, whom the answers satisfy, which verdict stops it) and the proof that
  \<open>distribute_loop\<close> and \<open>DistributeToSubscribersWithDisposition\<close> implement it.
\<close>

section \<open>The abstract account\<close>

definition decisive :: "CMqConsumptionScheme \<Rightarrow> delivery_outcome \<Rightarrow> CMqMessageState option" where
  "decisive scheme out = (case out of DeliveryFailed \<Rightarrow> None
     | Delivered r \<Rightarrow> (case Disposition r of
           Consumed \<Rightarrow> if scheme = FirstConsumedSubscriber then Some Drop else None
         | Defer \<Rightarrow> Some Ready
         | CMqConsumptionDisposition.DeadLetter \<Rightarrow> Some DeadLetter
         | CMqConsumptionDisposition.Drop \<Rightarrow> Some Drop
         | _ \<Rightarrow> None))"

definition is_consumed :: "delivery_outcome \<Rightarrow> bool" where
  "is_consumed out = (case out of DeliveryFailed \<Rightarrow> False | Delivered r \<Rightarrow> Disposition r = Consumed)"

definition is_satisfied :: "delivery_outcome \<Rightarrow> bool" where
  "is_satisfied out = (case out of DeliveryFailed \<Rightarrow> False
     | Delivered r \<Rightarrow> Disposition r = Consumed \<or> Disposition r = NotInterested)"

definition is_failed :: "delivery_outcome \<Rightarrow> bool" where
  "is_failed out = (case out of DeliveryFailed \<Rightarrow> True | Delivered r \<Rightarrow> Disposition r = Exception)"

fun tried :: "CMqConsumptionScheme \<Rightarrow> (guid \<Rightarrow> delivery_outcome) \<Rightarrow> guid list \<Rightarrow> guid list" where
  "tried scheme answer [] = []"
| "tried scheme answer (g # gs) =
     g # (if decisive scheme (answer g) = None then tried scheme answer gs else [])"

fun loop_verdict :: "CMqConsumptionScheme \<Rightarrow> (guid \<Rightarrow> delivery_outcome) \<Rightarrow> guid list \<Rightarrow> CMqMessageState option" where
  "loop_verdict scheme answer [] = None"
| "loop_verdict scheme answer (g # gs) =
     (case decisive scheme (answer g) of Some st \<Rightarrow> Some st | None \<Rightarrow> loop_verdict scheme answer gs)"

lemma loop_verdict_None: "loop_verdict scheme answer gs = None \<longleftrightarrow> (\<forall>g \<in> set gs. decisive scheme (answer g) = None)"
  by (induction gs) (auto split: option.splits)

lemma tried_all: "loop_verdict scheme answer gs = None \<Longrightarrow> tried scheme answer gs = gs"
  by (induction gs) (auto split: option.splits)

lemma tried_prefix: "\<exists>rest. gs = tried scheme answer gs @ rest"
  by (induction gs) auto

lemma tried_subset: "set (tried scheme answer gs) \<subseteq> set gs"
  by (induction gs) auto

section \<open>One turn of the loop\<close>

definition attempts_of :: "'db queue \<Rightarrow> oid \<Rightarrow> guid \<Rightarrow> int" where
  "attempts_of q msg g = (case map_of (em_SubscriberMessageDeliveries (q_objects q msg)) g of Some n \<Rightarrow> n | None \<Rightarrow> 0)"

lemma attempt_fields [simp]:
  "q_isRunning (attempt_delivery msg sub q) = q_isRunning q"
  "Configuration (attempt_delivery msg sub q) = Configuration q"
  "Subscribers (attempt_delivery msg sub q) = Subscribers q"
  "SubscriberId (q_descriptors (attempt_delivery msg sub q) i) = SubscriberId (q_descriptors q i)"
  "em_SatisfiedDeliverySubscriberIDs (q_objects (attempt_delivery msg sub q) i) = em_SatisfiedDeliverySubscriberIDs (q_objects q i)"
  "em_ConsumedDeliverySubscriberIDs (q_objects (attempt_delivery msg sub q) i) = em_ConsumedDeliverySubscriberIDs (q_objects q i)"
  "em_DeliveryLimitReachedSubscriberIDs (q_objects (attempt_delivery msg sub q) i) = em_DeliveryLimitReachedSubscriberIDs (q_objects q i)"
  by (auto simp: attempt_delivery_def count_attempt_def split: option.splits)

lemma attempts_attempt:
  "attempts_of (attempt_delivery msg sub q) msg g =
     (if g = SubscriberId (q_descriptors q sub) then wrap_i32 (attempts_of q msg g + 1)
      else attempts_of q msg g)"
proof -
  have one: "wrap_i32 1 = 1" by (simp add: wrap_i32_def)
  show ?thesis
    by (cases "map_of (em_SubscriberMessageDeliveries (q_objects q msg)) (SubscriberId (q_descriptors q sub))")
      (simp_all add: attempts_of_def attempt_delivery_def count_attempt_def map_of_dict_put one map_add_def
        split: option.splits)
qed

definition at_limit :: "'db queue \<Rightarrow> oid \<Rightarrow> guid \<Rightarrow> bool" where
  "at_limit q msg g = (MaxDeliveryAttempts (Configuration q) > 0
     \<and> attempts_of q msg g \<ge> MaxDeliveryAttempts (Configuration q))"

lemma limit_fields [simp]:
  "q_isRunning (check_delivery_limit msg g q) = q_isRunning q"
  "Configuration (check_delivery_limit msg g q) = Configuration q"
  "Subscribers (check_delivery_limit msg g q) = Subscribers q"
  "q_descriptors (check_delivery_limit msg g q) = q_descriptors q"
  "em_SatisfiedDeliverySubscriberIDs (q_objects (check_delivery_limit msg g q) i) = em_SatisfiedDeliverySubscriberIDs (q_objects q i)"
  "em_ConsumedDeliverySubscriberIDs (q_objects (check_delivery_limit msg g q) i) = em_ConsumedDeliverySubscriberIDs (q_objects q i)"
  "em_SubscriberMessageDeliveries (q_objects (check_delivery_limit msg g q) i) = em_SubscriberMessageDeliveries (q_objects q i)"
  by (auto simp: check_delivery_limit_def Let_def)

lemma limit_reached:
  "em_DeliveryLimitReachedSubscriberIDs (q_objects (check_delivery_limit msg g q) msg) =
     em_DeliveryLimitReachedSubscriberIDs (q_objects q msg)
       \<union> (if at_limit q msg g \<and> g \<notin> em_SatisfiedDeliverySubscriberIDs (q_objects q msg) then {g} else {})"
  by (auto simp: check_delivery_limit_def Let_def at_limit_def attempts_of_def)

lemma note_fields [simp]:
  "q_isRunning (note_failure sub q) = q_isRunning q" "q_isRunning (note_success sub q) = q_isRunning q"
  "Configuration (note_failure sub q) = Configuration q" "Configuration (note_success sub q) = Configuration q"
  "Subscribers (note_failure sub q) = Subscribers q" "Subscribers (note_success sub q) = Subscribers q"
  "q_objects (note_failure sub q) = q_objects q" "q_objects (note_success sub q) = q_objects q"
  "SubscriberId (q_descriptors (note_failure sub q) i) = SubscriberId (q_descriptors q i)"
  "SubscriberId (q_descriptors (note_success sub q) i) = SubscriberId (q_descriptors q i)"
  by (auto simp: note_failure_def note_success_def)

lemma store_if_fields [simp]:
  "q_isRunning (store_if_buffered ops le msg q) = q_isRunning q"
  "Configuration (store_if_buffered ops le msg q) = Configuration q"
  "Subscribers (store_if_buffered ops le msg q) = Subscribers q"
  "q_objects (store_if_buffered ops le msg q) = q_objects q"
  "q_descriptors (store_if_buffered ops le msg q) = q_descriptors q"
  by (auto simp: store_if_buffered_def)

lemmas reply_splits = delivery_outcome.splits CMqConsumptionDisposition.splits CMqConsumptionScheme.splits

lemma reply_verdict:
  "snd (snd (handle_reply ops le now msg sub out failed q)) = decisive (ConsumptionScheme (Configuration q)) out"
  by (auto simp: handle_reply_def decisive_def Let_def split: reply_splits)

lemma reply_failed:
  "fst (snd (handle_reply ops le now msg sub out failed q)) =
     (if is_failed out then insert (SubscriberId (q_descriptors q sub)) failed else failed)"
  by (auto simp: handle_reply_def is_failed_def Let_def split: reply_splits)

lemma reply_fields:
  "q_isRunning (fst (handle_reply ops le now msg sub out failed q)) = q_isRunning q"
  "Configuration (fst (handle_reply ops le now msg sub out failed q)) = Configuration q"
  "Subscribers (fst (handle_reply ops le now msg sub out failed q)) = Subscribers q"
  "SubscriberId (q_descriptors (fst (handle_reply ops le now msg sub out failed q)) i) = SubscriberId (q_descriptors q i)"
  by (auto simp: handle_reply_def Let_def split: reply_splits)

lemma reply_sets:
  "em_SatisfiedDeliverySubscriberIDs (q_objects (fst (handle_reply ops le now msg sub out failed q)) msg) =
     em_SatisfiedDeliverySubscriberIDs (q_objects q msg)
       \<union> (if is_satisfied out then {SubscriberId (q_descriptors q sub)} else {})"
  "em_ConsumedDeliverySubscriberIDs (q_objects (fst (handle_reply ops le now msg sub out failed q)) msg) =
     em_ConsumedDeliverySubscriberIDs (q_objects q msg)
       \<union> (if is_consumed out then {SubscriberId (q_descriptors q sub)} else {})"
  by (auto simp: handle_reply_def is_satisfied_def is_consumed_def Let_def note_consumed_def satisfy_def
      defer_message_def split: reply_splits)

section \<open>The loop\<close>

text \<open>The satisfied, consumed and failed subscribers after the loop, from those it tried.\<close>

lemma distribute_loop_effect:
  assumes "q_isRunning q"
  shows "let ids = map (\<lambda>i. SubscriberId (q_descriptors q i)) subs;
             scheme = ConsumptionScheme (Configuration q);
             ts = set (tried scheme answer ids);
             r = distribute_loop ops le now (\<lambda>g _. answer g) msg subs failed q
         in snd (snd r) = loop_verdict scheme answer ids
          \<and> fst (snd r) = failed \<union> {g \<in> ts. is_failed (answer g)}
          \<and> em_SatisfiedDeliverySubscriberIDs (q_objects (fst r) msg) =
              em_SatisfiedDeliverySubscriberIDs (q_objects q msg) \<union> {g \<in> ts. is_satisfied (answer g)}
          \<and> em_ConsumedDeliverySubscriberIDs (q_objects (fst r) msg) =
              em_ConsumedDeliverySubscriberIDs (q_objects q msg) \<union> {g \<in> ts. is_consumed (answer g)}
          \<and> q_isRunning (fst r) \<and> Configuration (fst r) = Configuration q \<and> Subscribers (fst r) = Subscribers q
          \<and> (\<forall>i. SubscriberId (q_descriptors (fst r) i) = SubscriberId (q_descriptors q i))"
  using assms
proof (induction subs arbitrary: failed q)
  case Nil
  then show ?case by (simp add: Let_def)
next
  case (Cons sub subs)
  let ?scheme = "ConsumptionScheme (Configuration q)"
  let ?g = "SubscriberId (q_descriptors q sub)"
  let ?q1 = "attempt_delivery msg sub q"
  obtain q2 failed2 v where h: "handle_reply ops le now msg sub (answer ?g) failed ?q1 = (q2, failed2, v)"
    by (cases "handle_reply ops le now msg sub (answer ?g) failed ?q1")
  have v: "v = decisive ?scheme (answer ?g)"
    using reply_verdict [of ops le now msg sub "answer ?g" failed ?q1] by (simp add: h)
  have f: "failed2 = (if is_failed (answer ?g) then insert ?g failed else failed)"
    using reply_failed [of ops le now msg sub "answer ?g" failed ?q1] by (simp add: h)
  have fields: "q_isRunning q2" "Configuration q2 = Configuration q" "Subscribers q2 = Subscribers q"
    "\<And>i. SubscriberId (q_descriptors q2 i) = SubscriberId (q_descriptors q i)"
    using reply_fields [of ops le now msg sub "answer ?g" failed ?q1] Cons.prems by (simp_all add: h)
  have sets: "em_SatisfiedDeliverySubscriberIDs (q_objects q2 msg) =
      em_SatisfiedDeliverySubscriberIDs (q_objects q msg) \<union> (if is_satisfied (answer ?g) then {?g} else {})"
    "em_ConsumedDeliverySubscriberIDs (q_objects q2 msg) =
      em_ConsumedDeliverySubscriberIDs (q_objects q msg) \<union> (if is_consumed (answer ?g) then {?g} else {})"
    using reply_sets [of ops le now msg sub "answer ?g" failed ?q1] by (simp_all add: h)
  show ?case
  proof (cases v)
    case None
    then have r: "distribute_loop ops le now (\<lambda>g _. answer g) msg (sub # subs) failed q
        = distribute_loop ops le now (\<lambda>g _. answer g) msg subs failed2 q2"
      using Cons.prems h by (simp add: Let_def)
    show ?thesis
      using Cons.IH [OF fields(1), of failed2] None v
      unfolding r by (auto simp: Let_def fields sets f)
  next
    case (Some st)
    then have r: "distribute_loop ops le now (\<lambda>g _. answer g) msg (sub # subs) failed q = (q2, failed2, Some st)"
      using Cons.prems h by (simp add: Let_def)
    show ?thesis
      using Some v unfolding r by (auto simp: Let_def fields sets f)
  qed
qed

section \<open>Delivery limits\<close>

lemma attempts_updates [simp]:
  "attempts_of (check_delivery_limit msg g q) m h = attempts_of q m h"
  "attempts_of (note_failure sub q) m h = attempts_of q m h"
  "attempts_of (note_success sub q) m h = attempts_of q m h"
  "attempts_of (store_if_buffered ops le m' q) m h = attempts_of q m h"
  "attempts_of (update_stats f q) m h = attempts_of q m h"
  "attempts_of (update_descriptor i d q) m h = attempts_of q m h"
  by (simp_all add: attempts_of_def)

lemma attempts_update_message [simp]:
  "attempts_of (update_message msg (note_consumed g) q) m h = attempts_of q m h"
  "attempts_of (update_message msg (satisfy g) q) m h = attempts_of q m h"
  "attempts_of (update_message msg (defer_message now d) q) m h = attempts_of q m h"
  by (simp_all add: attempts_of_def note_consumed_def satisfy_def defer_message_def)

lemma reply_attempts [simp]:
  "attempts_of (fst (handle_reply ops le now msg sub out failed q)) msg h = attempts_of q msg h"
  by (auto simp: handle_reply_def Let_def split: reply_splits)

lemma reply_limits:
  assumes "decisive (ConsumptionScheme (Configuration q)) out = None"
  shows "em_DeliveryLimitReachedSubscriberIDs (q_objects (fst (handle_reply ops le now msg sub out failed q)) msg) =
     em_DeliveryLimitReachedSubscriberIDs (q_objects q msg)
       \<union> (if at_limit q msg (SubscriberId (q_descriptors q sub)) \<and> \<not> is_satisfied out
            \<and> SubscriberId (q_descriptors q sub) \<notin> em_SatisfiedDeliverySubscriberIDs (q_objects q msg)
          then {SubscriberId (q_descriptors q sub)} else {})"
  using assms
  by (auto simp: handle_reply_def Let_def limit_reached at_limit_def decisive_def is_satisfied_def
      note_consumed_def satisfy_def split: reply_splits if_splits)

text \<open>Whether the attempt about to be made is the last one the configuration allows.\<close>

definition last_attempt :: "'db queue \<Rightarrow> oid \<Rightarrow> guid \<Rightarrow> bool" where
  "last_attempt q msg g = (MaxDeliveryAttempts (Configuration q) > 0
     \<and> wrap_i32 (attempts_of q msg g + 1) \<ge> MaxDeliveryAttempts (Configuration q))"

lemma distribute_loop_limits:
  assumes "q_isRunning q" "distinct (map (\<lambda>i. SubscriberId (q_descriptors q i)) subs)"
    "\<forall>i \<in> set subs. SubscriberId (q_descriptors q i) \<notin> em_SatisfiedDeliverySubscriberIDs (q_objects q msg)"
    "loop_verdict (ConsumptionScheme (Configuration q)) answer (map (\<lambda>i. SubscriberId (q_descriptors q i)) subs) = None"
  shows "em_DeliveryLimitReachedSubscriberIDs
       (q_objects (fst (distribute_loop ops le now (\<lambda>g _. answer g) msg subs failed q)) msg) =
     em_DeliveryLimitReachedSubscriberIDs (q_objects q msg)
       \<union> {g \<in> (\<lambda>i. SubscriberId (q_descriptors q i)) ` set subs. last_attempt q msg g \<and> \<not> is_satisfied (answer g)}"
  using assms
proof (induction subs arbitrary: failed q)
  case Nil
  then show ?case by simp
next
  case (Cons sub subs)
  let ?g = "SubscriberId (q_descriptors q sub)"
  let ?q1 = "attempt_delivery msg sub q"
  obtain q2 failed2 v where h: "handle_reply ops le now msg sub (answer ?g) failed ?q1 = (q2, failed2, v)"
    by (cases "handle_reply ops le now msg sub (answer ?g) failed ?q1")
  have dec: "decisive (ConsumptionScheme (Configuration q)) (answer ?g) = None"
    using Cons.prems(4) by (auto split: option.splits)
  have v: "v = None"
    using reply_verdict [of ops le now msg sub "answer ?g" failed ?q1] dec by (simp add: h)
  have fields: "q_isRunning q2" "Configuration q2 = Configuration q"
    "\<And>i. SubscriberId (q_descriptors q2 i) = SubscriberId (q_descriptors q i)"
    using reply_fields [of ops le now msg sub "answer ?g" failed ?q1] Cons.prems by (simp_all add: h)
  have sat: "em_SatisfiedDeliverySubscriberIDs (q_objects q2 msg) =
      em_SatisfiedDeliverySubscriberIDs (q_objects q msg) \<union> (if is_satisfied (answer ?g) then {?g} else {})"
    using reply_sets(1) [of ops le now msg sub "answer ?g" failed ?q1] by (simp add: h)
  have att: "attempts_of q2 msg g = (if g = ?g then wrap_i32 (attempts_of q msg g + 1) else attempts_of q msg g)" for g
    using reply_attempts [of ops le now msg sub "answer ?g" failed ?q1 g] by (simp add: h attempts_attempt)
  have lim: "em_DeliveryLimitReachedSubscriberIDs (q_objects q2 msg) =
      em_DeliveryLimitReachedSubscriberIDs (q_objects q msg)
       \<union> (if last_attempt q msg ?g \<and> \<not> is_satisfied (answer ?g) then {?g} else {})"
    using reply_limits [of ?q1 "answer ?g" ops le now msg sub failed] dec Cons.prems(3)
    by (simp add: h at_limit_def last_attempt_def attempts_attempt)
  have r: "distribute_loop ops le now (\<lambda>g _. answer g) msg (sub # subs) failed q
      = distribute_loop ops le now (\<lambda>g _. answer g) msg subs failed2 q2"
    using Cons.prems h v by (simp add: Let_def)
  have "loop_verdict (ConsumptionScheme (Configuration q)) answer (map (\<lambda>i. SubscriberId (q_descriptors q i)) subs) = None"
    using Cons.prems(4) dec by simp
  moreover have unsat: "\<forall>i \<in> set subs. SubscriberId (q_descriptors q2 i) \<notin> em_SatisfiedDeliverySubscriberIDs (q_objects q2 msg)"
  proof
    fix i
    assume "i \<in> set subs"
    then have "SubscriberId (q_descriptors q i) \<in> set (map (\<lambda>i. SubscriberId (q_descriptors q i)) subs)" by simp
    moreover have "?g \<notin> set (map (\<lambda>i. SubscriberId (q_descriptors q i)) subs)" using Cons.prems(2) by simp
    ultimately have "SubscriberId (q_descriptors q i) \<noteq> ?g" by metis
    with \<open>i \<in> set subs\<close> show "SubscriberId (q_descriptors q2 i) \<notin> em_SatisfiedDeliverySubscriberIDs (q_objects q2 msg)"
      using Cons.prems(3) by (simp add: fields sat)
  qed
  ultimately have ih: "em_DeliveryLimitReachedSubscriberIDs
       (q_objects (fst (distribute_loop ops le now (\<lambda>g _. answer g) msg subs failed2 q2)) msg) =
     em_DeliveryLimitReachedSubscriberIDs (q_objects q2 msg)
       \<union> {g \<in> (\<lambda>i. SubscriberId (q_descriptors q i)) ` set subs. last_attempt q2 msg g \<and> \<not> is_satisfied (answer g)}"
    using Cons.IH [of q2 failed2] Cons.prems(2) unsat by (simp add: fields)
  have "last_attempt q2 msg g = last_attempt q msg g"
    if "g \<in> (\<lambda>i. SubscriberId (q_descriptors q i)) ` set subs" for g
  proof -
    have "?g \<notin> (\<lambda>i. SubscriberId (q_descriptors q i)) ` set subs" using Cons.prems(2) by simp
    with that have "g \<noteq> ?g" by blast
    then show ?thesis by (simp add: last_attempt_def fields att)
  qed
  then show ?case unfolding r ih lim by auto
qed

text \<open>Exactly the subscribers that are tried are charged an attempt.\<close>

lemma distribute_loop_attempts:
  assumes "q_isRunning q" "distinct (map (\<lambda>i. SubscriberId (q_descriptors q i)) subs)"
  shows "attempts_of (fst (distribute_loop ops le now (\<lambda>g _. answer g) msg subs failed q)) msg h =
     (if h \<in> set (tried (ConsumptionScheme (Configuration q)) answer (map (\<lambda>i. SubscriberId (q_descriptors q i)) subs))
      then wrap_i32 (attempts_of q msg h + 1) else attempts_of q msg h)"
  using assms
proof (induction subs arbitrary: failed q)
  case Nil
  then show ?case by simp
next
  case (Cons sub subs)
  let ?g = "SubscriberId (q_descriptors q sub)"
  let ?ids = "map (\<lambda>i. SubscriberId (q_descriptors q i)) subs"
  let ?q1 = "attempt_delivery msg sub q"
  obtain q2 failed2 v where h: "handle_reply ops le now msg sub (answer ?g) failed ?q1 = (q2, failed2, v)"
    by (cases "handle_reply ops le now msg sub (answer ?g) failed ?q1")
  have v: "v = decisive (ConsumptionScheme (Configuration q)) (answer ?g)"
    using reply_verdict [of ops le now msg sub "answer ?g" failed ?q1] by (simp add: h)
  have fields: "q_isRunning q2" "Configuration q2 = Configuration q"
    "\<And>i. SubscriberId (q_descriptors q2 i) = SubscriberId (q_descriptors q i)"
    using reply_fields [of ops le now msg sub "answer ?g" failed ?q1] Cons.prems by (simp_all add: h)
  have att: "attempts_of q2 msg k = (if k = ?g then wrap_i32 (attempts_of q msg k + 1) else attempts_of q msg k)" for k
    using reply_attempts [of ops le now msg sub "answer ?g" failed ?q1 k] by (simp add: h attempts_attempt)
  have notin: "?g \<notin> set ?ids" using Cons.prems(2) by simp
  show ?case
  proof (cases v)
    case None
    have r: "distribute_loop ops le now (\<lambda>g _. answer g) msg (sub # subs) failed q
        = distribute_loop ops le now (\<lambda>g _. answer g) msg subs failed2 q2"
      using Cons.prems h None by (simp add: Let_def)
    have "distinct ?ids" using Cons.prems(2) by simp
    then have ih: "attempts_of (fst (distribute_loop ops le now (\<lambda>g _. answer g) msg subs failed2 q2)) msg h =
        (if h \<in> set (tried (ConsumptionScheme (Configuration q)) answer ?ids)
         then wrap_i32 (attempts_of q2 msg h + 1) else attempts_of q2 msg h)"
      using Cons.IH [of q2 failed2] by (simp add: fields)
    have "?g \<notin> set (tried (ConsumptionScheme (Configuration q)) answer ?ids)"
      using notin tried_subset by blast
    then show ?thesis unfolding r ih att using None v by auto
  next
    case (Some st)
    then have r: "distribute_loop ops le now (\<lambda>g _. answer g) msg (sub # subs) failed q = (q2, failed2, Some st)"
      using Cons.prems h by (simp add: Let_def)
    show ?thesis unfolding r using Some v by (simp add: att)
  qed
qed

lemma tried_first:
  "\<forall>h \<in> set pre. decisive scheme (answer h) = None \<Longrightarrow> decisive scheme (answer g) = Some st \<Longrightarrow>
     tried scheme answer (pre @ g # post) = pre @ [g] \<and> loop_verdict scheme answer (pre @ g # post) = Some st"
  by (induction pre) auto

section \<open>One round\<close>

text \<open>
  The specification of a round: \<open>rs\<close> are the subscribers still to be served, in the order they
  are tried, \<open>reached\<close> those at their limit before the round.
\<close>

definition round_verdict ::
  "CMqQueueConfiguration \<Rightarrow> (guid \<Rightarrow> delivery_outcome) \<Rightarrow> (guid \<Rightarrow> bool) \<Rightarrow> guid set \<Rightarrow> guid list \<Rightarrow> CMqMessageState" where
  "round_verdict cfg answer final reached rs =
     (case loop_verdict (ConsumptionScheme cfg) answer rs of
        Some st \<Rightarrow> st
      | None \<Rightarrow>
          if \<forall>g \<in> set rs. is_failed (answer g) then Ready
          else if \<forall>g \<in> set rs. is_satisfied (answer g) \<or> final g then
            (if (reached \<noteq> {} \<or> (\<exists>g \<in> set rs. \<not> is_satisfied (answer g))) \<and> DeadLetterConfiguration cfg \<noteq> None
             then DeadLetter else Drop)
          else Ready)"

lemma sort_key_empty: "sort_key f xs = [] \<longleftrightarrow> xs = []"
  by (metis length_0_conv length_sort)

lemma Remaining_empty:
  "sd_Remaining (SubscriberDispositions_new rnd q m) = [] \<longleftrightarrow> fst ` set (Subscribers q) \<subseteq> completedIDs m"
  by (auto simp: SubscriberDispositions_new_def Let_def filter_empty_conv sort_key_empty
      split: CMqDeliveryScheme.splits)

definition remaining_ids :: "(oid \<Rightarrow> nat) \<Rightarrow> 'db queue \<Rightarrow> EnqueuedMessage \<Rightarrow> guid list" where
  "remaining_ids rnd q m = map (\<lambda>i. SubscriberId (q_descriptors q i)) (sd_Remaining (SubscriberDispositions_new rnd q m))"

lemma remaining_ids_facts:
  assumes subs: "subs_ok q"
  shows "set (remaining_ids rnd q m) = fst ` set (Subscribers q) - completedIDs m"
    and "distinct (remaining_ids rnd q m)"
    and "set (sd_Remaining (SubscriberDispositions_new rnd q m)) = snd ` {p \<in> set (Subscribers q). fst p \<notin> completedIDs m}"
proof -
  let ?f = "filter (\<lambda>p. fst p \<in> fst ` set (Subscribers q) - completedIDs m) (Subscribers q)"
  let ?sd = "SubscriberDispositions_new rnd q m"
  have ms: "mset (sd_Remaining ?sd) = mset (map snd ?f)"
    by (auto simp: SubscriberDispositions_new_def Let_def split: CMqDeliveryScheme.splits)
  have ids: "map (\<lambda>i. SubscriberId (q_descriptors q i)) (map snd ?f) = map fst ?f"
    using subs by (auto simp: subs_ok_def)
  have m2: "mset (remaining_ids rnd q m) = mset (map fst ?f)"
    unfolding remaining_ids_def ids [symmetric] using ms by (metis mset_map)
  have "distinct (map fst ?f)"
    using subs by (simp add: subs_ok_def dict_ok_def distinct_map_filter)
  then show "distinct (remaining_ids rnd q m)"
    using m2 by (metis mset_eq_imp_distinct_iff)
  have "set (remaining_ids rnd q m) = set (map fst ?f)"
    using m2 by (metis set_mset_mset)
  then show "set (remaining_ids rnd q m) = fst ` set (Subscribers q) - completedIDs m" by auto
  have "set (sd_Remaining ?sd) = set (map snd ?f)" using ms by (metis set_mset_mset)
  then show "set (sd_Remaining ?sd) = snd ` {p \<in> set (Subscribers q). fst p \<notin> completedIDs m}" by auto
qed

text \<open>A round decides as its specification says.\<close>

lemma round_refines:
  assumes run: "q_isRunning q" and subs: "subs_ok q"
    and some: "sd_Remaining (SubscriberDispositions_new rnd q (q_objects q msg)) \<noteq> []"
  shows "snd (DistributeToSubscribersWithDisposition ops le rnd now (\<lambda>g _. answer g) msg q) =
     round_verdict (Configuration q) answer (last_attempt q msg)
       (em_DeliveryLimitReachedSubscriberIDs (q_objects q msg)) (remaining_ids rnd q (q_objects q msg))"
proof -
  let ?m = "q_objects q msg"
  let ?sd = "SubscriberDispositions_new rnd q ?m"
  let ?rs = "remaining_ids rnd q ?m"
  let ?scheme = "ConsumptionScheme (Configuration q)"
  obtain q' failed v where r: "distribute_loop ops le now (\<lambda>g _. answer g) msg (sd_Remaining ?sd) {} q = (q', failed, v)"
    by (cases "distribute_loop ops le now (\<lambda>g _. answer g) msg (sd_Remaining ?sd) {} q")
  note eff = distribute_loop_effect [OF run, where subs = "sd_Remaining ?sd" and failed = "{}" and ops = ops
      and le = le and now = now and answer = answer and msg = msg, folded remaining_ids_def, unfolded Let_def r fst_conv snd_conv]
  have rs: "set ?rs = fst ` set (Subscribers q) - completedIDs ?m" and dist: "distinct ?rs"
    using remaining_ids_facts [OF subs] by auto
  have ids: "SubscriberId ` q_descriptors q' ` set (sd_Remaining ?sd) = set ?rs"
    using eff by (simp add: remaining_ids_def image_image)
  show ?thesis
  proof (cases v)
    case (Some st)
    then show ?thesis
      using some r eff by (simp add: DistributeToSubscribersWithDisposition_def Let_def round_verdict_def)
  next
    case None
    then have lv: "loop_verdict ?scheme answer ?rs = None" using eff by simp
    then have t: "tried ?scheme answer ?rs = ?rs" by (rule tried_all)
    have failed: "failed = {g \<in> set ?rs. is_failed (answer g)}" using eff by (simp add: t)
    have sat: "em_SatisfiedDeliverySubscriberIDs (q_objects q' msg) =
        em_SatisfiedDeliverySubscriberIDs ?m \<union> {g \<in> set ?rs. is_satisfied (answer g)}"
      using eff by (simp add: t)
    have lim: "em_DeliveryLimitReachedSubscriberIDs (q_objects q' msg) = em_DeliveryLimitReachedSubscriberIDs ?m
       \<union> {g \<in> set ?rs. last_attempt q msg g \<and> \<not> is_satisfied (answer g)}"
      using distribute_loop_limits [OF run, of "sd_Remaining ?sd" msg answer ops le now "{}"] dist lv rs
      by (auto simp: remaining_ids_def r completedIDs_def)
    have same: "Subscribers q' = Subscribers q" using eff by simp
    have left: "fst ` set (Subscribers q') \<subseteq> completedIDs (q_objects q' msg)
        \<longleftrightarrow> (\<forall>g \<in> set ?rs. is_satisfied (answer g) \<or> last_attempt q msg g)"
      using same unfolding completedIDs_def sat lim by (auto simp: rs completedIDs_def)
    have all: "set ?rs - failed = {} \<longleftrightarrow> (\<forall>g \<in> set ?rs. is_failed (answer g))" by (auto simp: failed)
    have "q_isRunning q'" "Configuration q' = Configuration q" using eff by simp_all
    then have fv: "final_verdict rnd msg (set ?rs) failed q' =
        (if \<forall>g \<in> set ?rs. is_failed (answer g) then Ready
         else if \<forall>g \<in> set ?rs. is_satisfied (answer g) \<or> last_attempt q msg g then
           (if em_DeliveryLimitReachedSubscriberIDs (q_objects q' msg) \<noteq> {}
               \<and> DeadLetterConfiguration (Configuration q) \<noteq> None then DeadLetter else Drop)
         else Ready)"
      unfolding final_verdict_def Remaining_empty left all by simp
    have ne: "em_DeliveryLimitReachedSubscriberIDs (q_objects q' msg) \<noteq> {} \<longleftrightarrow>
        em_DeliveryLimitReachedSubscriberIDs ?m \<noteq> {} \<or> (\<exists>g \<in> set ?rs. \<not> is_satisfied (answer g))"
      if "\<forall>g \<in> set ?rs. is_satisfied (answer g) \<or> last_attempt q msg g"
      using that unfolding lim by blast
    have "snd (DistributeToSubscribersWithDisposition ops le rnd now (\<lambda>g _. answer g) msg q)
        = final_verdict rnd msg (set ?rs) failed q'"
      using some r None by (simp add: DistributeToSubscribersWithDisposition_def Let_def ids)
    then show ?thesis unfolding fv round_verdict_def lv using ne by simp
  qed
qed

end
