(* ===== verification/Queue_Machine.thy ===== *)
theory Queue_Machine
  imports Queue_Hydration
begin

text \<open>
  One queue with its delivery thread, its deliveries in flight and its clients, interleaved in
  any order. Each step is one critical section of the code: an operation under the queue's lock,
  the selection of a message, or the stretch of a delivery between two awaits.
\<close>

section \<open>The machine\<close>

text \<open>
  A delivery in flight: not yet past its constructor of \<open>SubscriberDispositions\<close>, between two
  subscribers, or awaiting the reply of one.
\<close>

datatype task_phase = Starting | Between "oid list" | Awaiting oid "oid list"

record delivery_task =
  dt_msg :: oid
  dt_phase :: task_phase
  dt_attempted :: "guid set"
  dt_failed :: "guid set"

record 'db machine =
  mc_queue :: "'db queue"
  mc_tasks :: "delivery_task list"

definition take_top :: "oid \<Rightarrow> 'db machine \<Rightarrow> 'db machine" where
  "take_top i s = s\<lparr>mc_queue := begin_delivery i (mc_queue s),
     mc_tasks := mc_tasks s @ [\<lparr>dt_msg = i, dt_phase = Starting, dt_attempted = {}, dt_failed = {}\<rparr>]\<rparr>"

definition end_task :: "nat \<Rightarrow> CMqMessageState \<Rightarrow> 'db machine \<Rightarrow> 'db machine" where
  "end_task n st s = s\<lparr>mc_queue := finish_delivery (dt_msg (mc_tasks s ! n)) st (mc_queue s),
     mc_tasks := take n (mc_tasks s) @ drop (Suc n) (mc_tasks s)\<rparr>"

definition set_task :: "nat \<Rightarrow> delivery_task \<Rightarrow> 'db machine \<Rightarrow> 'db machine" where
  "set_task n t s = s\<lparr>mc_tasks := (mc_tasks s)[n := t]\<rparr>"

definition start_task :: "(oid \<Rightarrow> nat) \<Rightarrow> nat \<Rightarrow> 'db machine \<Rightarrow> 'db machine" where
  "start_task rnd n s =
     (let t = mc_tasks s ! n;
          sd = SubscriberDispositions_new rnd (mc_queue s) (q_objects (mc_queue s) (dt_msg t))
      in if sd_Remaining sd = [] then end_task n (no_remaining_verdict sd) s
         else set_task n (t\<lparr>dt_phase := Between (sd_Remaining sd),
                dt_attempted := SubscriberId ` q_descriptors (mc_queue s) ` set (sd_Remaining sd)\<rparr>) s)"

definition send_task :: "nat \<Rightarrow> oid \<Rightarrow> oid list \<Rightarrow> 'db machine \<Rightarrow> 'db machine" where
  "send_task n sub subs s =
     (let t = mc_tasks s ! n in
      if \<not> q_isRunning (mc_queue s) then end_task n Shutdown s
      else set_task n (t\<lparr>dt_phase := Awaiting sub subs\<rparr>)
             (s\<lparr>mc_queue := attempt_delivery (dt_msg t) sub (mc_queue s)\<rparr>))"

definition reply_task ::
  "'db rocks_ops \<Rightarrow> bool \<Rightarrow> ticks \<Rightarrow> nat \<Rightarrow> oid \<Rightarrow> oid list \<Rightarrow> delivery_outcome \<Rightarrow> 'db machine \<Rightarrow> 'db machine" where
  "reply_task ops le utcNow n sub subs outcome s =
     (let t = mc_tasks s ! n in
      case handle_reply ops le utcNow (dt_msg t) sub outcome (dt_failed t) (mc_queue s) of
        (q, failed, Some st) \<Rightarrow> end_task n st (s\<lparr>mc_queue := q\<rparr>)
      | (q, failed, None) \<Rightarrow>
          set_task n (t\<lparr>dt_phase := Between subs, dt_failed := failed\<rparr>) (s\<lparr>mc_queue := q\<rparr>))"

inductive mstep :: "'db rocks_ops \<Rightarrow> bool \<Rightarrow> 'db machine \<Rightarrow> 'db machine \<Rightarrow> bool" for ops le where
  ms_enqueue: "lastSerialNumber (Statistics (mc_queue s)) \<noteq> - 1 \<Longrightarrow>
     mstep ops le s (s\<lparr>mc_queue := fst (queue_enqueue ops le e (mc_queue s))\<rparr>)"
| ms_purge: "mstep ops le s (s\<lparr>mc_queue := fst (queue_purge ops name (mc_queue s))\<rparr>)"
| ms_subscribe: "mstep ops le s (s\<lparr>mc_queue := queue_subscribe g l r (mc_queue s)\<rparr>)"
| ms_unsubscribe: "mstep ops le s (s\<lparr>mc_queue := queue_unsubscribe g (mc_queue s)\<rparr>)"
| ms_expire: "mstep ops le s (s\<lparr>mc_queue := ExpireMessages now (mc_queue s)\<rparr>)"
| ms_hydrate: "lastSerialNumber (Statistics (mc_queue s)) \<noteq> - 1 \<Longrightarrow>
     mstep ops le s (s\<lparr>mc_queue := fst (HydrateMessageBuffer ops le gen n locked (mc_queue s))\<rparr>)"
| ms_take: "SelectTopMessage now (mc_queue s) = Some i \<Longrightarrow> mstep ops le s (take_top i s)"
| ms_start: "n < length (mc_tasks s) \<Longrightarrow> dt_phase (mc_tasks s ! n) = Starting \<Longrightarrow>
     mstep ops le s (start_task rnd n s)"
| ms_send: "n < length (mc_tasks s) \<Longrightarrow> dt_phase (mc_tasks s ! n) = Between (sub # subs) \<Longrightarrow>
     mstep ops le s (send_task n sub subs s)"
| ms_reply: "n < length (mc_tasks s) \<Longrightarrow> dt_phase (mc_tasks s ! n) = Awaiting sub subs \<Longrightarrow>
     mstep ops le s (reply_task ops le utcNow n sub subs outcome s)"
| ms_finish: "n < length (mc_tasks s) \<Longrightarrow> dt_phase (mc_tasks s ! n) = Between [] \<Longrightarrow>
     mstep ops le s (end_task n (final_verdict rnd (dt_msg (mc_tasks s ! n)) (dt_attempted (mc_tasks s ! n))
       (dt_failed (mc_tasks s ! n)) (mc_queue s)) s)"
| ms_dispose: "i \<in> set (buffer (mc_queue s)) \<Longrightarrow> em_State (q_objects (mc_queue s) i) \<in> {DeadLetter, Drop} \<Longrightarrow>
     mstep ops le s (s\<lparr>mc_queue := remove_message ops le i (mc_queue s)\<rparr>)"
| ms_shutdown: "mstep ops le s (s\<lparr>mc_queue := SignalShutdown (mc_queue s)\<rparr>)"

inductive reachable :: "'db rocks_ops \<Rightarrow> bool \<Rightarrow> 'db machine \<Rightarrow> 'db machine \<Rightarrow> bool" for ops le s0 where
  r_start: "reachable ops le s0 s0"
| r_step: "reachable ops le s0 s \<Longrightarrow> mstep ops le s t \<Longrightarrow> reachable ops le s0 t"

section \<open>The machine's invariant\<close>

text \<open>Identity numbers of the subscribers a task has not tried yet, the awaited one first.\<close>

fun phase_subs :: "task_phase \<Rightarrow> oid list" where
  "phase_subs Starting = []"
| "phase_subs (Between subs) = subs"
| "phase_subs (Awaiting sub subs) = sub # subs"

definition desc_id :: "'db queue \<Rightarrow> oid \<Rightarrow> guid" where
  "desc_id q i = SubscriberId (q_descriptors q i)"

definition task_ok :: "'db queue \<Rightarrow> delivery_task \<Rightarrow> bool" where
  "task_ok q t = (dt_msg t < q_next q \<and> em_State (q_objects q (dt_msg t)) = OutForDelivery
     \<and> (\<forall>i \<in> set (phase_subs (dt_phase t)). i < q_next q)
     \<and> distinct (map (desc_id q) (phase_subs (dt_phase t)))
     \<and> desc_id q ` set (phase_subs (dt_phase t)) \<inter> completedIDs (q_objects q (dt_msg t)) = {})"

definition machine_ok :: "'db rocks_ops \<Rightarrow> bool \<Rightarrow> 'db machine \<Rightarrow> bool" where
  "machine_ok ops le s = (queue_ok ops le (mc_queue s)
     \<and> (\<forall>t \<in> set (mc_tasks s). task_ok (mc_queue s) t)
     \<and> distinct (map dt_msg (mc_tasks s))
     \<and> (\<forall>i \<in> set (buffer (mc_queue s)). em_State (q_objects (mc_queue s) i) = OutForDelivery
          \<longrightarrow> i \<in> dt_msg ` set (mc_tasks s))
     \<and> OutstandingDeliveries (Statistics (mc_queue s)) = wrap_i32 (int (length (mc_tasks s))))"

definition initial_machine :: "'db queue \<Rightarrow> 'db machine" where
  "initial_machine q = \<lparr>mc_queue = q, mc_tasks = []\<rparr>"

lemma initial_ok:
  "queue_ok ops le q \<Longrightarrow> buffer q = [] \<Longrightarrow> OutstandingDeliveries (Statistics q) = 0 \<Longrightarrow>
     machine_ok ops le (initial_machine q)"
  by (simp add: machine_ok_def initial_machine_def)

section \<open>Steps of the queue that leave the deliveries alone\<close>

definition quiet :: "'db queue \<Rightarrow> 'db queue \<Rightarrow> bool" where
  "quiet q q' = (q_next q \<le> q_next q'
     \<and> (\<forall>i < q_next q. (em_State (q_objects q' i) = OutForDelivery \<longleftrightarrow> em_State (q_objects q i) = OutForDelivery)
          \<and> completedIDs (q_objects q' i) = completedIDs (q_objects q i) \<and> desc_id q' i = desc_id q i)
     \<and> (\<forall>i \<in> set (buffer q'). i \<in> set (buffer q)
          \<or> q_next q \<le> i \<and> i < q_next q' \<and> em_State (q_objects q' i) \<noteq> OutForDelivery)
     \<and> OutstandingDeliveries (Statistics q') = OutstandingDeliveries (Statistics q))"

lemma quiet_refl [simp]: "quiet q q"
  by (simp add: quiet_def)

lemma quiet_trans: "quiet q q' \<Longrightarrow> quiet q' q'' \<Longrightarrow> quiet q q''"
  unfolding quiet_def by (smt (verit, best) dual_order.strict_trans1 dual_order.trans)

lemma quiet_task: "quiet q q' \<Longrightarrow> task_ok q t \<Longrightarrow> task_ok q' t"
proof -
  assume quiet: "quiet q q'" and ok: "task_ok q t"
  let ?xs = "phase_subs (dt_phase t)"
  have ids: "map (desc_id q') ?xs = map (desc_id q) ?xs"
    using quiet ok by (auto simp: quiet_def task_ok_def)
  then have im: "desc_id q' ` set ?xs = desc_id q ` set ?xs"
    by (metis image_set)
  show ?thesis
    using quiet ok unfolding task_ok_def ids im by (auto simp: quiet_def)
qed

lemma quiet_machine:
  assumes ok: "machine_ok ops le s" and qok: "queue_ok ops le q'" and quiet: "quiet (mc_queue s) q'"
  shows "machine_ok ops le (s\<lparr>mc_queue := q'\<rparr>)"
proof -
  have lt: "i < q_next (mc_queue s)" if "i \<in> set (buffer (mc_queue s))" for i
    using ok that by (auto simp: machine_ok_def queue_ok_def buffer_ok_def)
  have "i \<in> dt_msg ` set (mc_tasks s)"
    if i: "i \<in> set (buffer q')" and out: "em_State (q_objects q' i) = OutForDelivery" for i
  proof -
    have "i \<in> set (buffer (mc_queue s))" using quiet i out unfolding quiet_def by blast
    moreover have "em_State (q_objects (mc_queue s) i) = OutForDelivery"
      using quiet out lt [OF calculation] unfolding quiet_def by blast
    ultimately show ?thesis using ok unfolding machine_ok_def by blast
  qed
  then show ?thesis
    using ok qok quiet quiet_task [OF quiet]
    by (simp add: machine_ok_def quiet_def)
qed

lemma quiet_enqueue: "quiet q (fst (queue_enqueue ops le e q))"
  by (auto simp: quiet_def queue_enqueue_def place_message_def Let_def GetNextSerialNumber_def
      enqueued_message_def EnqueuedMessage_new_def desc_id_def stat_defs split: option.splits)

lemma quiet_purge: "quiet q (fst (queue_purge ops name q))"
  by (auto simp: quiet_def queue_purge_def Let_def desc_id_def stat_defs)

lemma quiet_subscribe: "quiet q (queue_subscribe g l r q)"
  by (auto simp: quiet_def queue_subscribe_def desc_id_def)

lemma quiet_unsubscribe: "quiet q (queue_unsubscribe g q)"
  by (auto simp: quiet_def queue_unsubscribe_def desc_id_def)

lemma quiet_shutdown: "quiet q (SignalShutdown q)"
  by (auto simp: quiet_def SignalShutdown_def desc_id_def)

lemma quiet_remove: "quiet q (remove_message ops le i q)"
  by (auto simp: quiet_def desc_id_def DecrementQueueDepth_def dest: notin_set_remove1 set_remove1_subset [THEN subsetD])

lemma quiet_expire_one: "quiet q (expire_one now i q)"
  by (auto simp: quiet_def expire_one_def is_expired_def expired_state_def desc_id_def stat_defs
      completedIDs_def split: option.splits)

lemma quiet_fold_expire: "quiet q (fold (expire_one now) is q)"
  by (induction "is" arbitrary: q) (auto intro: quiet_trans quiet_expire_one)

lemma quiet_expire: "quiet q (ExpireMessages now q)"
  by (simp add: ExpireMessages_def quiet_fold_expire)

lemma quiet_append: "em_State m \<noteq> OutForDelivery \<Longrightarrow> quiet q (add_to_buffer m q)"
  by (auto simp: quiet_def desc_id_def)

lemma quiet_set_database: "quiet q (set_database d q)"
  by (auto simp: quiet_def desc_id_def)

lemma Deserialize_Ready: "Deserialize json = Inr (Some m) \<Longrightarrow> em_State m = Ready"
  by (cases json) auto

lemma quiet_hydrate_loop: "quiet q (fst (hydrate_loop ops le gen n maxSn es loaded q))"
proof (induction es arbitrary: loaded q)
  case Nil
  then show ?case by simp
next
  case (Cons e es)
  obtain key json where e: "e = (key, json)" by (cases e)
  have step1: "quiet q (add_to_buffer m1 q)" if "em_State m1 = Ready" for m1
    using that by (simp add: quiet_append)
  have step2: "quiet q (add_to_buffer (m1\<lparr>em_MessageId := g\<rparr>) (set_database d q))" if "em_State m1 = Ready" for m1 g d
    using that by (intro quiet_trans [OF quiet_set_database quiet_append]) simp
  show ?case
    unfolding e using Cons.IH
    by (auto simp: Let_def split: option.splits sum.splits
        dest!: Deserialize_Ready intro: quiet_trans [OF step1] quiet_trans [OF step2])
qed

lemma quiet_Hydrate: "quiet q (fst (HydrateMessageBuffer ops le gen n locked q))"
proof -
  have "quiet q q'" if "hydrate_loop ops le gen n mx es 0 q = (q', r)" for q' r mx es
    using quiet_hydrate_loop [of q ops le gen n mx es 0] that by simp
  then show ?thesis
    by (auto simp: HydrateMessageBuffer_def Let_def split: option.splits prod.splits sum.splits)
qed

section \<open>Steps of a delivery\<close>

text \<open>What a delivery may change: its own message's progress, counters, and the database.\<close>

definition only_message :: "oid \<Rightarrow> guid set \<Rightarrow> 'db queue \<Rightarrow> 'db queue \<Rightarrow> bool" where
  "only_message msg G q q' = (q_next q' = q_next q \<and> buffer q' = buffer q
     \<and> (\<forall>i. em_State (q_objects q' i) = em_State (q_objects q i))
     \<and> (\<forall>i. desc_id q' i = desc_id q i)
     \<and> (\<forall>i. i \<noteq> msg \<longrightarrow> completedIDs (q_objects q' i) = completedIDs (q_objects q i))
     \<and> completedIDs (q_objects q' msg) \<subseteq> completedIDs (q_objects q msg) \<union> G
     \<and> OutstandingDeliveries (Statistics q') = OutstandingDeliveries (Statistics q))"

lemma only_attempt: "only_message msg {} q (attempt_delivery msg sub q)"
  by (auto simp: only_message_def attempt_delivery_def desc_id_def count_attempt_def completedIDs_def
      split: option.splits)

lemma only_limit: "only_message msg {g} q (check_delivery_limit msg g q)"
  by (auto simp: only_message_def check_delivery_limit_def desc_id_def completedIDs_def Let_def)

lemma only_trans: "only_message msg G q q' \<Longrightarrow> only_message msg G q' q'' \<Longrightarrow> only_message msg G q q''"
  unfolding only_message_def by auto

lemma only_counters:
  "only_message msg G q (note_failure sub q)" "only_message msg G q (note_success sub q)"
  "only_message msg G q (update_stats IncrementExplicitDeadLetterCount q)"
  "only_message msg G q (update_stats IncrementExplicitDropCount q)"
  "only_message msg G q (store_if_buffered ops le msg q)"
  by (auto simp: only_message_def note_failure_def note_success_def store_if_buffered_def desc_id_def
      stat_defs)

lemma only_consumed:
  "only_message msg {g} q (update_message msg (note_consumed g) (update_descriptor sub IncrementConsumedDeliveryCount q))"
  "only_message msg {g} q (update_message msg (satisfy g) q)"
  by (auto simp: only_message_def desc_id_def completedIDs_def note_consumed_def satisfy_def)

lemma only_deferred:
  "only_message msg G q (update_stats IncrementDeferredDeliveryCount
     (update_descriptor sub sub_IncrementDeferredDeliveryCount (update_message msg (defer_message now d) q)))"
  by (auto simp: only_message_def desc_id_def completedIDs_def defer_message_def stat_defs)

lemmas only_intros = only_counters only_consumed only_deferred only_limit

lemma only_handle_reply:
  "only_message msg {desc_id q sub} q (fst (handle_reply ops le utcNow msg sub out failed q))"
  unfolding handle_reply_def Let_def desc_id_def [symmetric]
  by (auto split: delivery_outcome.splits CMqConsumptionDisposition.splits CMqConsumptionScheme.splits
      intro: only_intros only_trans [OF only_counters(1) only_limit] only_trans [OF only_counters(2) only_limit]
        only_trans [OF only_counters(2) only_counters(3)] only_trans [OF only_counters(2) only_counters(4)]
        only_trans [OF only_trans [OF only_counters(2) only_counters(1)] only_limit]
        only_trans [OF only_trans [OF only_counters(2) only_consumed(1)] only_limit]
        only_trans [OF only_counters(2) only_consumed(1)]
        only_trans [OF only_trans [OF only_counters(2) only_consumed(2)] only_limit]
        only_trans [OF only_trans [OF only_counters(2) only_deferred] only_counters(5)])

lemma handle_reply_verdict:
  "snd (snd (handle_reply ops le utcNow msg sub out failed q)) = Some st \<Longrightarrow> st \<noteq> OutForDelivery"
  by (auto simp: handle_reply_def Let_def
      split: delivery_outcome.splits CMqConsumptionDisposition.splits CMqConsumptionScheme.splits)

lemma verdict_not_out: "final_verdict rnd msg att failed q \<noteq> OutForDelivery" "no_remaining_verdict sd \<noteq> OutForDelivery"
  by (auto simp: final_verdict_def no_remaining_verdict_def)

lemma only_other_task:
  assumes "only_message msg G q q'" "task_ok q t" "dt_msg t \<noteq> msg"
  shows "task_ok q' t"
proof -
  let ?xs = "phase_subs (dt_phase t)"
  have ids: "desc_id q' = desc_id q" using assms(1) by (auto simp: only_message_def)
  show ?thesis using assms unfolding task_ok_def ids by (simp add: only_message_def)
qed

end
