(* ===== verification/Queue_Machine_Inv.thy ===== *)
theory Queue_Machine_Inv
  imports Queue_Machine "HOL-Library.Multiset" Delivery_Effect
begin

text \<open>Every step keeps the machine's invariant, and what follows from it in every reachable state.\<close>

definition machine_but :: "'db rocks_ops \<Rightarrow> bool \<Rightarrow> nat \<Rightarrow> 'db machine \<Rightarrow> bool" where
  "machine_but ops le n s = (queue_ok ops le (mc_queue s)
     \<and> (\<forall>k < length (mc_tasks s). k \<noteq> n \<longrightarrow> task_ok (mc_queue s) (mc_tasks s ! k))
     \<and> distinct (map dt_msg (mc_tasks s))
     \<and> (\<forall>i \<in> set (buffer (mc_queue s)). em_State (q_objects (mc_queue s) i) = OutForDelivery
          \<longrightarrow> i \<in> dt_msg ` set (mc_tasks s))
     \<and> OutstandingDeliveries (Statistics (mc_queue s)) = wrap_i32 (int (length (mc_tasks s))))"

lemma machine_butI: "machine_ok ops le s \<Longrightarrow> machine_but ops le n s"
  by (simp add: machine_ok_def machine_but_def)

lemma task_msgs_differ:
  "distinct (map dt_msg ts) \<Longrightarrow> k < length ts \<Longrightarrow> n < length ts \<Longrightarrow> k \<noteq> n \<Longrightarrow> dt_msg (ts ! k) \<noteq> dt_msg (ts ! n)"
  by (metis distinct_conv_nth length_map nth_map)

lemma machine_but_only:
  assumes "machine_but ops le n s" "n < length (mc_tasks s)" "queue_ok ops le q'"
    "only_message (dt_msg (mc_tasks s ! n)) G (mc_queue s) q'"
  shows "machine_but ops le n (s\<lparr>mc_queue := q'\<rparr>)"
  using assms only_other_task [OF assms(4)] task_msgs_differ [of "mc_tasks s" _ n]
  by (simp add: machine_but_def only_message_def)

lemma nth_removed:
  assumes "n < length xs" "j < length (take n xs @ drop (Suc n) xs)"
  shows "\<exists>k < length xs. k \<noteq> n \<and> (take n xs @ drop (Suc n) xs) ! j = xs ! k"
proof (cases "j < n")
  case True
  then show ?thesis using assms by (intro exI [of _ j]) (simp add: nth_append)
next
  case False
  then show ?thesis using assms by (intro exI [of _ "Suc j"]) (auto simp: nth_append min_def)
qed

lemma set_removed:
  assumes "distinct (map f xs)" "n < length xs"
  shows "f ` set (take n xs @ drop (Suc n) xs) = f ` set xs - {f (xs ! n)}"
proof -
  have "xs = take n xs @ xs ! n # drop (Suc n) xs" using assms(2) by (rule id_take_nth_drop)
  then have "distinct (map f (take n xs @ xs ! n # drop (Suc n) xs))"
    and s: "set xs = set (take n xs) \<union> insert (xs ! n) (set (drop (Suc n) xs))"
    using assms(1) by (metis, metis list.set(2) set_append)
  then have "f (xs ! n) \<notin> f ` set (take n xs @ drop (Suc n) xs)" by auto
  moreover have "f ` set xs = insert (f (xs ! n)) (f ` set (take n xs @ drop (Suc n) xs))"
    unfolding s by auto
  ultimately show ?thesis by blast
qed

lemma distinct_removed:
  assumes "distinct (map f xs)" "n < length xs"
  shows "distinct (map f (take n xs @ drop (Suc n) xs))"
proof -
  have "xs = take n xs @ xs ! n # drop (Suc n) xs" using assms(2) by (rule id_take_nth_drop)
  then have "distinct (map f (take n xs @ xs ! n # drop (Suc n) xs))" using assms(1) by metis
  then show ?thesis by auto
qed

lemma end_task_ok:
  assumes ok: "machine_but ops le n s" and n: "n < length (mc_tasks s)" and st: "st \<noteq> OutForDelivery"
  shows "machine_ok ops le (end_task n st s)"
proof -
  let ?q = "mc_queue s" and ?ts = "mc_tasks s"
  let ?msg = "dt_msg (?ts ! n)" and ?ts' = "take n ?ts @ drop (Suc n) ?ts"
  let ?q' = "finish_delivery ?msg st ?q"
  have dist: "distinct (map dt_msg ?ts)" using ok by (simp add: machine_but_def)
  have f: "q_next ?q' = q_next ?q" "buffer ?q' = buffer ?q"
    "q_objects ?q' = (q_objects ?q)(?msg := (q_objects ?q ?msg)\<lparr>em_State := st\<rparr>)"
    "desc_id ?q' = desc_id ?q"
    by (auto simp: finish_delivery_def desc_id_def)
  have other: "task_ok ?q' t" if t: "t \<in> set ?ts'" for t
  proof -
    obtain j where "j < length ?ts'" "?ts' ! j = t" using t by (metis in_set_conv_nth)
    then obtain k where k: "k < length ?ts" "k \<noteq> n" "t = ?ts ! k" using nth_removed [OF n] by metis
    then have "task_ok ?q t" "dt_msg t \<noteq> ?msg"
      using ok task_msgs_differ [OF dist k(1) n k(2)] by (auto simp: machine_but_def)
    then show ?thesis by (simp add: task_ok_def f completedIDs_def)
  qed
  have "queue_ok ops le ?q'"
    using ok by (simp add: machine_but_def same_shape_queue_ok [OF shape_finish_delivery])
  moreover have "i \<in> dt_msg ` set ?ts'"
    if "i \<in> set (buffer ?q')" "em_State (q_objects ?q' i) = OutForDelivery" for i
  proof -
    have "i \<noteq> ?msg" using that(2) st unfolding f by auto
    then show ?thesis
      using ok that unfolding set_removed [OF dist n] f machine_but_def by auto
  qed
  moreover have "OutstandingDeliveries (Statistics ?q') = wrap_i32 (int (length ?ts'))"
    using ok n by (simp add: machine_but_def finish_delivery_def stat_defs wrap_i32_diff of_nat_diff min_def)
  ultimately show ?thesis
    using other distinct_removed [OF dist n] by (simp add: machine_ok_def end_task_def)
qed

lemma set_task_ok:
  assumes ok: "machine_but ops le n s" and n: "n < length (mc_tasks s)"
    and t: "task_ok (mc_queue s) t" "dt_msg t = dt_msg (mc_tasks s ! n)"
  shows "machine_ok ops le (set_task n t s)"
proof -
  have m: "map dt_msg ((mc_tasks s)[n := t]) = map dt_msg (mc_tasks s)"
    using t(2) n by (metis list_update_id map_update nth_map)
  then have im: "dt_msg ` set ((mc_tasks s)[n := t]) = dt_msg ` set (mc_tasks s)"
    by (metis image_set)
  have "task_ok (mc_queue s) u" if "u \<in> set ((mc_tasks s)[n := t])" for u
    using that ok t(1) n by (auto simp: in_set_conv_nth machine_but_def nth_list_update)
  then show ?thesis
    using ok unfolding machine_ok_def machine_but_def set_task_def by (simp add: m im)
qed

section \<open>Each step\<close>

lemma take_top_ok:
  assumes ok: "machine_ok ops le s" and sel: "SelectTopMessage now (mc_queue s) = Some i"
  shows "machine_ok ops le (take_top i s)"
proof -
  let ?q = "mc_queue s" and ?q' = "begin_delivery i (mc_queue s)"
  have i: "i \<in> set (buffer ?q)" "em_State (q_objects ?q i) = Ready"
    using sel by (auto simp: SelectTopMessage_def deliverable_def dest: find_Some_mem split: if_splits)
  then have lt: "i < q_next ?q" using ok by (auto simp: machine_ok_def queue_ok_def buffer_ok_def)
  have f: "q_next ?q' = q_next ?q" "buffer ?q' = buffer ?q" "desc_id ?q' = desc_id ?q"
    "q_objects ?q' = (q_objects ?q)(i := (q_objects ?q i)\<lparr>em_State := OutForDelivery\<rparr>)"
    by (auto simp: begin_delivery_def desc_id_def)
  have new: "i \<notin> dt_msg ` set (mc_tasks s)"
    using ok i by (auto simp: machine_ok_def task_ok_def)
  have "task_ok ?q' t" if "t \<in> set (mc_tasks s)" for t
    using ok that new by (auto simp: machine_ok_def task_ok_def f completedIDs_def)
  moreover have "task_ok ?q' \<lparr>dt_msg = i, dt_phase = Starting, dt_attempted = {}, dt_failed = {}\<rparr>"
    using lt by (simp add: task_ok_def f)
  moreover have "queue_ok ops le ?q'"
    using ok by (simp add: machine_ok_def same_shape_queue_ok [OF shape_begin_delivery])
  moreover have "OutstandingDeliveries (Statistics ?q') = wrap_i32 (int (length (mc_tasks s)) + 1)"
    using ok by (simp add: begin_delivery_def stat_defs machine_ok_def wrap_i32_add)
  ultimately show ?thesis
    using ok new by (auto simp: machine_ok_def take_top_def f add.commute)
qed

lemma dispositions_remaining:
  assumes subs: "subs_ok q"
  shows "set (sd_Remaining (SubscriberDispositions_new rnd q m))
       = snd ` {p \<in> set (Subscribers q). fst p \<notin> completedIDs m}"
    and "distinct (map (desc_id q) (sd_Remaining (SubscriberDispositions_new rnd q m)))"
    and "desc_id q ` set (sd_Remaining (SubscriberDispositions_new rnd q m)) = fst ` set (Subscribers q) - completedIDs m"
    and "\<forall>i \<in> set (sd_Remaining (SubscriberDispositions_new rnd q m)). i < q_next q"
proof -
  let ?f = "filter (\<lambda>p. fst p \<in> fst ` set (Subscribers q) - completedIDs m) (Subscribers q)"
  let ?sd = "SubscriberDispositions_new rnd q m"
  have ms: "mset (sd_Remaining ?sd) = mset (map snd ?f)"
    by (auto simp: SubscriberDispositions_new_def Let_def split: CMqDeliveryScheme.splits)
  then have st: "set (sd_Remaining ?sd) = set (map snd ?f)" by (metis set_mset_mset)
  then show 1: "set (sd_Remaining ?sd) = snd ` {p \<in> set (Subscribers q). fst p \<notin> completedIDs m}"
    by auto
  have ids: "map (desc_id q) (map snd ?f) = map fst ?f"
    using subs by (auto simp: subs_ok_def desc_id_def)
  have "distinct (map fst ?f)"
    using subs by (simp add: subs_ok_def dict_ok_def distinct_map_filter)
  moreover have "mset (map (desc_id q) (sd_Remaining ?sd)) = mset (map fst ?f)"
    unfolding ids [symmetric] using ms by (metis mset_map)
  ultimately show "distinct (map (desc_id q) (sd_Remaining ?sd))"
    by (metis mset_eq_imp_distinct_iff)
  have "desc_id q ` set (sd_Remaining ?sd) = set (map fst ?f)"
    using arg_cong [OF ids, of set] unfolding st by (simp add: image_image)
  then show "desc_id q ` set (sd_Remaining ?sd) = fst ` set (Subscribers q) - completedIDs m"
    by auto
  show "\<forall>i \<in> set (sd_Remaining ?sd). i < q_next q"
    unfolding 1 using subs by (auto simp: subs_ok_def)
qed

lemma start_task_ok:
  assumes ok: "machine_ok ops le s" and n: "n < length (mc_tasks s)"
    and ph: "dt_phase (mc_tasks s ! n) = Starting"
  shows "machine_ok ops le (start_task rnd n s)"
proof -
  let ?t = "mc_tasks s ! n" and ?q = "mc_queue s"
  let ?sd = "SubscriberDispositions_new rnd ?q (q_objects ?q (dt_msg ?t))"
  have t: "task_ok ?q ?t" using ok n by (simp add: machine_ok_def)
  have subs: "subs_ok ?q" using ok by (simp add: machine_ok_def queue_ok_def)
  show ?thesis
  proof (cases "sd_Remaining ?sd = []")
    case True
    then show ?thesis
      using end_task_ok [OF machine_butI [OF ok] n verdict_not_out(2)] by (simp add: start_task_def)
  next
    case False
    have "task_ok ?q (?t\<lparr>dt_phase := Between (sd_Remaining ?sd),
         dt_attempted := SubscriberId ` q_descriptors ?q ` set (sd_Remaining ?sd)\<rparr>)"
      using t dispositions_remaining [OF subs, of rnd "q_objects ?q (dt_msg ?t)"]
      by (auto simp: task_ok_def)
    then show ?thesis
      using False set_task_ok [OF machine_butI [OF ok] n] by (simp add: start_task_def Let_def)
  qed
qed

lemma send_task_ok:
  assumes ok: "machine_ok ops le s" and n: "n < length (mc_tasks s)"
    and ph: "dt_phase (mc_tasks s ! n) = Between (sub # subs)"
  shows "machine_ok ops le (send_task n sub subs s)"
proof (cases "q_isRunning (mc_queue s)")
  case False
  then show ?thesis
    using end_task_ok [OF machine_butI [OF ok] n, of Shutdown] by (simp add: send_task_def)
next
  case True
  let ?t = "mc_tasks s ! n" and ?q = "mc_queue s"
  let ?q' = "attempt_delivery (dt_msg ?t) sub ?q"
  have only: "only_message (dt_msg ?t) {} ?q ?q'" by (rule only_attempt)
  have t: "task_ok ?q ?t" using ok n by (simp add: machine_ok_def)
  have d: "desc_id ?q' = desc_id ?q" using only by (auto simp: only_message_def)
  have "queue_ok ops le ?q'"
    using ok by (simp add: machine_ok_def same_shape_queue_ok [OF shape_attempt_delivery])
  then have "machine_but ops le n (s\<lparr>mc_queue := ?q'\<rparr>)"
    by (rule machine_but_only [OF machine_butI [OF ok] n _ only])
  moreover have "task_ok ?q' (?t\<lparr>dt_phase := Awaiting sub subs\<rparr>)"
    using t only ph unfolding task_ok_def d by (auto simp: only_message_def)
  ultimately show ?thesis
    using True n set_task_ok [of ops le n "s\<lparr>mc_queue := ?q'\<rparr>"] by (simp add: send_task_def Let_def)
qed

context rocksdb
begin

lemma reply_task_ok:
  assumes ok: "machine_ok ops le s" and n: "n < length (mc_tasks s)"
    and ph: "dt_phase (mc_tasks s ! n) = Awaiting sub subs"
  shows "machine_ok ops le (reply_task ops le utcNow n sub subs out s)"
proof -
  let ?t = "mc_tasks s ! n" and ?q = "mc_queue s"
  obtain q' failed r where h: "handle_reply ops le utcNow (dt_msg ?t) sub out (dt_failed ?t) ?q = (q', failed, r)"
    by (cases "handle_reply ops le utcNow (dt_msg ?t) sub out (dt_failed ?t) ?q")
  have only: "only_message (dt_msg ?t) {desc_id ?q sub} ?q q'"
    using only_handle_reply [of "dt_msg ?t" ?q sub ops le utcNow out "dt_failed ?t"] by (simp add: h)
  have "queue_ok ops le q'"
    using queue_ok_handle_reply [of le ?q utcNow "dt_msg ?t" sub out "dt_failed ?t"] ok
    by (simp add: h machine_ok_def)
  then have but: "machine_but ops le n (s\<lparr>mc_queue := q'\<rparr>)"
    by (rule machine_but_only [OF machine_butI [OF ok] n _ only])
  show ?thesis
  proof (cases r)
    case None
    have t: "task_ok ?q ?t" using ok n by (simp add: machine_ok_def)
    have d: "desc_id q' = desc_id ?q" using only by (auto simp: only_message_def)
    have "desc_id ?q ` set subs \<inter> insert (desc_id ?q sub) (completedIDs (q_objects ?q (dt_msg ?t))) = {}"
      using t ph by (auto simp: task_ok_def)
    moreover have "completedIDs (q_objects q' (dt_msg ?t))
        \<subseteq> insert (desc_id ?q sub) (completedIDs (q_objects ?q (dt_msg ?t)))"
      using only by (simp add: only_message_def)
    ultimately have "desc_id ?q ` set subs \<inter> completedIDs (q_objects q' (dt_msg ?t)) = {}" by blast
    then have "task_ok q' (?t\<lparr>dt_phase := Between subs, dt_failed := failed\<rparr>)"
      using t only ph unfolding task_ok_def d by (simp add: only_message_def)
    then show ?thesis
      using None but n set_task_ok [of ops le n "s\<lparr>mc_queue := q'\<rparr>"] by (simp add: reply_task_def h Let_def)
  next
    case (Some st)
    have "st \<noteq> OutForDelivery"
      using handle_reply_verdict [of ops le utcNow "dt_msg ?t" sub out "dt_failed ?t" ?q st] by (simp add: h Some)
    then show ?thesis
      using Some but n end_task_ok [of ops le n "s\<lparr>mc_queue := q'\<rparr>" st] by (simp add: reply_task_def h Let_def)
  qed
qed

lemma Hydrate_keeps:
  assumes "queue_ok ops le q" "lastSerialNumber (Statistics q) \<noteq> - 1"
  shows "queue_ok ops le (fst (HydrateMessageBuffer ops le gen n locked q))"
proof (cases "is_persistent q \<and> locked \<and> database q \<noteq> None")
  case True
  then obtain d where "database q = Some d" by blast
  with True Hydrate_ok [OF assms(1) _ this assms(2), of gen n] show ?thesis by auto
next
  case False
  then show ?thesis using assms(1) by (auto simp: HydrateMessageBuffer_def)
qed

lemma mstep_ok: "mstep ops le s t \<Longrightarrow> machine_ok ops le s \<Longrightarrow> machine_ok ops le t"
proof (induction rule: mstep.induct)
  case (ms_finish n s rnd)
  then show ?case using end_task_ok [OF machine_butI _ verdict_not_out(1)] by blast
next
  case (ms_expire s now)
  then have "queue_ok ops le (ExpireMessages now (mc_queue s))"
    by (simp add: machine_ok_def same_shape_queue_ok [OF shape_ExpireMessages])
  with ms_expire show ?case by (blast intro: quiet_machine quiet_expire)
next
  case (ms_shutdown s)
  then have "queue_ok ops le (SignalShutdown (mc_queue s))"
    by (simp add: machine_ok_def queue_ok_def SignalShutdown_def subs_ok_def buffer_ok_def
        ephemeral_ok_def persistent_ok_def)
  with ms_shutdown show ?case by (blast intro: quiet_machine quiet_shutdown)
qed (blast intro: quiet_machine quiet_enqueue quiet_purge quiet_subscribe quiet_unsubscribe
    quiet_Hydrate quiet_remove queue_ok_enqueue queue_ok_purge queue_ok_subscribe
    queue_ok_unsubscribe queue_ok_remove Hydrate_keeps take_top_ok start_task_ok send_task_ok
    reply_task_ok dest: machine_ok_def [THEN iffD1, THEN conjunct1])+

lemma reachable_ok: "reachable ops le s0 s \<Longrightarrow> machine_ok ops le s0 \<Longrightarrow> machine_ok ops le s"
  by (induction rule: reachable.induct) (blast intro: mstep_ok)+

end

text \<open>
  The configuration of a queue never changes under the machine's steps, the deliveries in flight
  stay within \<open>MaxOutstandingDeliveries\<close>, and a sequential delivery is a run of the machine.
\<close>

inductive_cases mstep_cases: "mstep ops le s t"

section \<open>The configuration stays\<close>

lemma configuration_end_task [simp]: "Configuration (mc_queue (end_task n st s)) = Configuration (mc_queue s)"
  by (simp add: end_task_def finish_delivery_def)

lemma configuration_set_task [simp]: "mc_queue (set_task n t s) = mc_queue s"
  by (simp add: set_task_def)

lemma configuration_hydrate [simp]: "Configuration (fst (HydrateMessageBuffer ops le gen n locked q)) = Configuration q"
proof -
  have loop: "Configuration (fst (hydrate_loop ops le gen n mx es k q)) = Configuration q" for mx es k
    by (induction ops le gen n mx es k q rule: hydrate_loop.induct)
      (auto simp: Let_def split: option.splits sum.splits)
  have "Configuration q' = Configuration q" if "hydrate_loop ops le gen n mx es 0 q = (q', r)" for q' r mx es
    using loop [of mx es 0] that by simp
  then show ?thesis
    by (auto simp: HydrateMessageBuffer_def Let_def split: option.splits prod.splits sum.splits)
qed

lemma configuration_expire [simp]: "Configuration (ExpireMessages now q) = Configuration q"
  using shape_ExpireMessages [of q now] by (simp add: same_shape_def)

lemma configuration_place [simp]: "Configuration (fst (place_message ops le name mk q)) = Configuration q"
  by (auto simp: place_message_def Let_def split: option.splits prod.splits)

lemma configuration_reply [simp]:
  "Configuration (mc_queue (reply_task ops le utcNow n sub subs outcome s)) = Configuration (mc_queue s)"
  using reply_fields(2) [of ops le utcNow "dt_msg (mc_tasks s ! n)" sub outcome "dt_failed (mc_tasks s ! n)" "mc_queue s"]
  by (auto simp: reply_task_def Let_def split: prod.splits option.splits)

lemma mstep_configuration: "mstep ops le s t \<Longrightarrow> Configuration (mc_queue t) = Configuration (mc_queue s)"
  by (erule mstep_cases)
    (auto simp: queue_enqueue_def queue_purge_def Let_def queue_subscribe_def queue_unsubscribe_def take_top_def
      begin_delivery_def start_task_def send_task_def SignalShutdown_def)

section \<open>Deliveries in flight\<close>

lemma length_end_task: "length (mc_tasks (end_task n st s)) \<le> length (mc_tasks s)"
  by (simp add: end_task_def)

lemma length_set_task [simp]: "length (mc_tasks (set_task n t s)) = length (mc_tasks s)"
  by (simp add: set_task_def)

lemma length_reply:
  "length (mc_tasks (reply_task ops le utcNow n sub subs outcome s)) \<le> length (mc_tasks s)"
  by (auto simp: reply_task_def Let_def end_task_def split: prod.splits option.splits)

lemma mstep_tasks:
  "mstep ops le s t \<Longrightarrow> length (mc_tasks t) \<le> length (mc_tasks s)
     \<or> (\<exists>now i. SelectTopMessage now (mc_queue s) = Some i \<and> length (mc_tasks t) = Suc (length (mc_tasks s)))"
proof (induction rule: mstep.induct)
  case (ms_start n s rnd)
  then show ?case using length_end_task by (auto simp: start_task_def Let_def)
next
  case (ms_send n s sub subs)
  then show ?case using length_end_task by (auto simp: send_task_def Let_def)
next
  case (ms_finish n s rnd)
  then show ?case using length_end_task by blast
next
  case (ms_reply n s sub subs utcNow outcome)
  then show ?case using length_reply by blast
qed (auto simp: take_top_def)

context rocksdb
begin

lemma outstanding_bound:
  assumes "reachable ops le s0 s" "machine_ok ops le s0" "mc_tasks s0 = []"
    "MaxOutstandingDeliveries (Configuration (mc_queue s0)) < 2147483648"
  shows "int (length (mc_tasks s)) \<le> max 0 (MaxOutstandingDeliveries (Configuration (mc_queue s)))
     \<and> Configuration (mc_queue s) = Configuration (mc_queue s0)"
  using assms
proof (induction rule: reachable.induct)
  case r_start
  then show ?case by simp
next
  case (r_step s t)
  let ?max = "MaxOutstandingDeliveries (Configuration (mc_queue s))"
  have ih: "int (length (mc_tasks s)) \<le> max 0 ?max" "Configuration (mc_queue s) = Configuration (mc_queue s0)"
    using r_step by blast+
  have cfg: "Configuration (mc_queue t) = Configuration (mc_queue s)" by (rule mstep_configuration [OF r_step.hyps(2)])
  have ok: "machine_ok ops le s" using reachable_ok [OF r_step.hyps(1) r_step.prems(1)] .
  consider (less) "length (mc_tasks t) \<le> length (mc_tasks s)"
    | (more) now i where "SelectTopMessage now (mc_queue s) = Some i" "length (mc_tasks t) = Suc (length (mc_tasks s))"
    using mstep_tasks [OF r_step.hyps(2)] by blast
  then show ?case
  proof cases
    case less
    then show ?thesis using ih cfg by simp
  next
    case more
    have "OutstandingDeliveries (Statistics (mc_queue s)) < ?max"
      using more(1) by (auto simp: SelectTopMessage_def split: if_splits)
    moreover have "OutstandingDeliveries (Statistics (mc_queue s)) = wrap_i32 (int (length (mc_tasks s)))"
      using ok by (simp add: machine_ok_def)
    moreover have "wrap_i32 (int (length (mc_tasks s))) = int (length (mc_tasks s))"
      using ih r_step.prems(3) by (intro wrap_i32_id) auto
    ultimately show ?thesis using more(2) cfg ih(2) by simp
  qed
qed

end

section \<open>A sequential delivery is a run of the machine\<close>

lemma reachable_trans: "reachable ops le t u \<Longrightarrow> reachable ops le s t \<Longrightarrow> reachable ops le s u"
  by (induction rule: reachable.induct) (auto intro: reachable.intros)

lemma reachable_step: "mstep ops le s t \<Longrightarrow> reachable ops le t u \<Longrightarrow> reachable ops le s u"
  by (rule reachable_trans) (auto intro: reachable.intros)

lemma mstep_reachable: "mstep ops le s t \<Longrightarrow> reachable ops le s t"
  by (auto intro: reachable.intros)

definition drop_task :: "nat \<Rightarrow> delivery_task list \<Rightarrow> delivery_task list" where
  "drop_task n ts = take n ts @ drop (Suc n) ts"

lemma end_task_queue:
  "end_task n st (s\<lparr>mc_queue := q\<rparr>) =
     s\<lparr>mc_queue := finish_delivery (dt_msg (mc_tasks s ! n)) st q, mc_tasks := drop_task n (mc_tasks s)\<rparr>"
  by (simp add: end_task_def drop_task_def)

lemma drop_task_update [simp]: "drop_task n (ts[n := t]) = drop_task n ts"
  by (simp add: drop_task_def)

text \<open>Where the loop leaves the machine: with the delivery finished, or past its last subscriber.\<close>

definition after_loop :: "nat \<Rightarrow> 'db machine \<Rightarrow> 'db queue \<times> guid set \<times> CMqMessageState option \<Rightarrow> 'db machine" where
  "after_loop n s r = (let t = mc_tasks s ! n in case r of
     (q, failed, Some st) \<Rightarrow> s\<lparr>mc_queue := finish_delivery (dt_msg t) st q, mc_tasks := drop_task n (mc_tasks s)\<rparr>
   | (q, failed, None) \<Rightarrow> s\<lparr>mc_queue := q, mc_tasks := (mc_tasks s)[n := t\<lparr>dt_phase := Between [], dt_failed := failed\<rparr>]\<rparr>)"

lemma run_loop:
  assumes "n < length (mc_tasks s)" "dt_phase (mc_tasks s ! n) = Between subs"
  shows "reachable ops le s (after_loop n s
     (distribute_loop ops le utcNow client (dt_msg (mc_tasks s ! n)) subs (dt_failed (mc_tasks s ! n)) (mc_queue s)))"
  using assms
proof (induction subs arbitrary: s)
  case Nil
  have "(mc_tasks s)[n := (mc_tasks s ! n)\<lparr>dt_phase := Between [], dt_failed := dt_failed (mc_tasks s ! n)\<rparr>] = mc_tasks s"
    using Nil by (intro list_eq_iff_nth_eq [THEN iffD2]) (auto simp: nth_list_update)
  then show ?case by (simp add: after_loop_def Let_def reachable.intros)
next
  case (Cons sub subs)
  let ?t = "mc_tasks s ! n"
  let ?msg = "dt_msg ?t"
  have send: "mstep ops le s (send_task n sub subs s)" by (rule ms_send [OF Cons.prems])
  show ?case
  proof (cases "q_isRunning (mc_queue s)")
    case False
    then show ?thesis
      using mstep_reachable [OF send]
      by (simp add: send_task_def after_loop_def Let_def end_task_def drop_task_def)
  next
    case True
    let ?q = "attempt_delivery ?msg sub (mc_queue s)"
    let ?out = "client (SubscriberId (q_descriptors ?q sub)) (delivery_query (queue_name (Configuration ?q)) (q_objects ?q ?msg))"
    let ?s1 = "send_task n sub subs s"
    let ?s2 = "reply_task ops le utcNow n sub subs ?out ?s1"
    have s1: "?s1 = s\<lparr>mc_queue := ?q, mc_tasks := (mc_tasks s)[n := ?t\<lparr>dt_phase := Awaiting sub subs\<rparr>]\<rparr>"
      using True by (simp add: send_task_def set_task_def Let_def)
    have reply: "mstep ops le ?s1 ?s2"
      by (rule ms_reply) (use Cons.prems in \<open>simp_all add: s1\<close>)
    obtain q2 failed2 v where h: "handle_reply ops le utcNow ?msg sub ?out (dt_failed ?t) ?q = (q2, failed2, v)"
      by (cases "handle_reply ops le utcNow ?msg sub ?out (dt_failed ?t) ?q")
    have loop: "distribute_loop ops le utcNow client ?msg (sub # subs) (dt_failed ?t) (mc_queue s) =
        (case v of Some st \<Rightarrow> (q2, failed2, Some st) | None \<Rightarrow> distribute_loop ops le utcNow client ?msg subs failed2 q2)"
      unfolding distribute_loop.simps Let_def h using True by (simp split: option.split)
    show ?thesis
    proof (cases v)
      case (Some st)
      have "?s2 = after_loop n s (q2, failed2, Some st)"
        unfolding reply_task_def s1 using Cons.prems h Some
        by (simp add: after_loop_def Let_def end_task_def drop_task_def del: attempt_fields)
      then show ?thesis
        using reachable_step [OF send mstep_reachable [OF reply]] unfolding loop Some by simp
    next
      case None
      have s2: "?s2 = s\<lparr>mc_queue := q2, mc_tasks := (mc_tasks s)[n := ?t\<lparr>dt_phase := Between subs, dt_failed := failed2\<rparr>]\<rparr>"
        unfolding reply_task_def s1 using Cons.prems h None
        by (simp add: Let_def set_task_def del: attempt_fields)
      have ih: "reachable ops le u (after_loop n s (distribute_loop ops le utcNow client ?msg subs failed2 q2))"
        if u: "u = s\<lparr>mc_queue := q2, mc_tasks := (mc_tasks s)[n := ?t\<lparr>dt_phase := Between subs, dt_failed := failed2\<rparr>]\<rparr>" for u
      proof -
        have "after_loop n u r = after_loop n s r" for r
          using Cons.prems by (auto simp: u after_loop_def Let_def split: prod.splits option.splits)
        then show ?thesis using Cons.IH [of u] Cons.prems by (simp add: u)
      qed
      show ?thesis
        unfolding loop None option.case by (rule reachable_step [OF send reachable_step [OF reply ih [OF s2]]])
    qed
  qed
qed

lemma distribute_ids:
  "SubscriberId (q_descriptors (fst (distribute_loop ops le utcNow client msg subs failed q)) i) = SubscriberId (q_descriptors q i)"
proof (induction subs arbitrary: failed q)
  case Nil
  then show ?case by simp
next
  case (Cons sub subs)
  let ?q = "attempt_delivery msg sub q"
  let ?out = "client (SubscriberId (q_descriptors q sub))
    (delivery_query (queue_name (Configuration q)) (q_objects ?q msg))"
  obtain q2 f2 r where h: "handle_reply ops le utcNow msg sub ?out failed ?q = (q2, f2, r)"
    by (cases "handle_reply ops le utcNow msg sub ?out failed ?q")
  have "SubscriberId (q_descriptors q2 i) = SubscriberId (q_descriptors ?q i)"
    using reply_fields(4) [of ops le utcNow msg sub ?out failed ?q i] unfolding h fst_conv .
  then have "SubscriberId (q_descriptors q2 i) = SubscriberId (q_descriptors q i)" by simp
  then show ?case using Cons.IH by (cases r) (simp_all add: Let_def h)
qed

lemma run_delivery:
  assumes sel: "SelectTopMessage now (mc_queue s) = Some i"
  shows "reachable ops le s
     (s\<lparr>mc_queue := DistributeToSubscribersAsync ops le rnd utcNow client i (begin_delivery i (mc_queue s))\<rparr>)"
proof -
  let ?n = "length (mc_tasks s)" and ?q0 = "begin_delivery i (mc_queue s)" and ?s0 = "take_top i s"
  let ?sd = "SubscriberDispositions_new rnd ?q0 (q_objects ?q0 i)"
  let ?t0 = "\<lparr>dt_msg = i, dt_phase = Starting, dt_attempted = {}, dt_failed = {}\<rparr>"
  have s0: "?s0 = s\<lparr>mc_queue := ?q0, mc_tasks := mc_tasks s @ [?t0]\<rparr>" by (simp add: take_top_def)
  have last: "mc_tasks ?s0 ! ?n = ?t0" "?n < length (mc_tasks ?s0)" by (simp_all add: s0)
  have take: "mstep ops le s ?s0" by (rule ms_take [OF sel])
  have start: "mstep ops le ?s0 (start_task rnd ?n ?s0)" by (rule ms_start) (simp_all add: s0)
  have drop: "drop_task ?n (mc_tasks s @ [x]) = mc_tasks s" for x by (simp add: drop_task_def)
  show ?thesis
  proof (cases "sd_Remaining ?sd = []")
    case True
    have "start_task rnd ?n ?s0 = s\<lparr>mc_queue := finish_delivery i (no_remaining_verdict ?sd) ?q0\<rparr>"
      unfolding start_task_def Let_def last(1) using True by (simp add: s0 end_task_def)
    then show ?thesis
      using reachable_step [OF take mstep_reachable [OF start]] True
      by (simp add: DistributeToSubscribersAsync_def DistributeToSubscribersWithDisposition_def)
  next
    case False
    let ?att = "SubscriberId ` q_descriptors ?q0 ` set (sd_Remaining ?sd)"
    let ?t1 = "?t0\<lparr>dt_phase := Between (sd_Remaining ?sd), dt_attempted := ?att\<rparr>"
    have s1: "start_task rnd ?n ?s0 = s\<lparr>mc_queue := ?q0, mc_tasks := mc_tasks s @ [?t1]\<rparr>"
      unfolding start_task_def Let_def last(1) using False by (simp add: s0 set_task_def)
    obtain q' failed v where l: "distribute_loop ops le utcNow client i (sd_Remaining ?sd) {} ?q0 = (q', failed, v)"
      by (cases "distribute_loop ops le utcNow client i (sd_Remaining ?sd) {} ?q0")
    let ?s1 = "s\<lparr>mc_queue := ?q0, mc_tasks := mc_tasks s @ [?t1]\<rparr>"
    have run: "reachable ops le ?s1 (after_loop ?n ?s1 (q', failed, v))"
      using run_loop [of ?n ?s1 "sd_Remaining ?sd" ops le utcNow client] l by simp
    have ids: "SubscriberId ` q_descriptors q' ` set (sd_Remaining ?sd) = ?att"
      using distribute_ids [of ops le utcNow client i "sd_Remaining ?sd" "{}" ?q0] by (simp add: l image_image)
    show ?thesis
    proof (cases v)
      case (Some st)
      then have "after_loop ?n ?s1 (q', failed, v) = s\<lparr>mc_queue := finish_delivery i st q'\<rparr>"
        by (simp add: after_loop_def Let_def drop)
      then show ?thesis
        using reachable_step [OF take reachable_step [OF start]] run False Some l
        by (simp add: s1 DistributeToSubscribersAsync_def DistributeToSubscribersWithDisposition_def)
    next
      case None
      let ?t2 = "?t1\<lparr>dt_phase := Between [], dt_failed := failed\<rparr>"
      let ?s2 = "s\<lparr>mc_queue := q', mc_tasks := mc_tasks s @ [?t2]\<rparr>"
      have s2: "after_loop ?n ?s1 (q', failed, v) = ?s2" using None by (simp add: after_loop_def Let_def)
      have "mstep ops le ?s2 (end_task ?n (final_verdict rnd (dt_msg (mc_tasks ?s2 ! ?n)) (dt_attempted (mc_tasks ?s2 ! ?n))
          (dt_failed (mc_tasks ?s2 ! ?n)) (mc_queue ?s2)) ?s2)"
        by (rule ms_finish) simp_all
      moreover have "end_task ?n st ?s2 = s\<lparr>mc_queue := finish_delivery i st q'\<rparr>" for st
        by (simp add: end_task_def)
      ultimately have fin: "mstep ops le ?s2 (s\<lparr>mc_queue := finish_delivery i (final_verdict rnd i ?att failed q') q'\<rparr>)"
        by simp
      have "reachable ops le s (s\<lparr>mc_queue := finish_delivery i (final_verdict rnd i ?att failed q') q'\<rparr>)"
        using reachable_step [OF take reachable_step [OF start [unfolded s1]]] reachable_trans [OF mstep_reachable [OF fin]] run
        unfolding s2 by blast
      then show ?thesis
        using False None l
        by (simp add: DistributeToSubscribersAsync_def DistributeToSubscribersWithDisposition_def Let_def ids)
    qed
  qed
qed

end
