(* ===== verification/Mq_Steps.thy ===== *)
theory Mq_Steps
  imports Mq_Server_Inv Delivery_Effect Queue_Machine_Inv
begin

text \<open>
  Starting, stopping and disposing keep the server's invariant; the step relation of a running
  broker, its reachable states, and the invariant in each of them.
\<close>

section \<open>Starting\<close>

lemma initialize_loaded_ok:
  assumes env: "env_ok env" and disk: "disk_ok env srv" and l: "loaded_ok env l"
  shows "entry_key_ok (lq_key l, lq_queue (initialize_loaded env srv l))
     \<and> queue_ok (env_ops env) (env_le env) (lq_queue (initialize_loaded env srv l))
     \<and> lq_key (initialize_loaded env srv l) = lq_key l
     \<and> lq_registered (initialize_loaded env srv l) = lq_registered l"
proof -
  let ?q = "lq_queue l"
  let ?opened = "env_open env (PathPart (Configuration ?q)) (messages_dir srv (PathPart (Configuration ?q)))"
  have "queue_ok (env_ops env) (env_le env) (InitializePersistentDatabase (env_ops env) (env_le env) ?opened ?q)"
    using l opened_good [OF env disk]
    by (intro rocksdb.Initialize_any [OF env_rocks [OF env]]) (auto simp: loaded_ok_def)
  moreover have "Configuration (InitializePersistentDatabase (env_ops env) (env_le env) ?opened ?q) = Configuration ?q"
    by (auto simp: InitializePersistentDatabase_def Let_def queue_update_defs split: sum.splits option.splits)
  ultimately show ?thesis using l by (simp add: initialize_loaded_def loaded_ok_def entry_key_ok_def)
qed

lemma start_loaded_fields [simp]:
  "lq_key (start_loaded l) = lq_key l" "lq_registered (start_loaded l) = lq_registered l"
  "Configuration (lq_queue (start_loaded l)) = Configuration (lq_queue l)"
  "queue_ok ops le (lq_queue (start_loaded l)) = queue_ok ops le (lq_queue l)"
  by (simp_all add: start_loaded_def queue_ok_start)

lemma initialize_loaded_fields [simp]:
  "lq_key (initialize_loaded env srv l) = lq_key l" "lq_registered (initialize_loaded env srv l) = lq_registered l"
  by (simp_all add: initialize_loaded_def)

lemma filter_loaded:
  "map lq_key (filter lq_registered (map (start_loaded \<circ> initialize_loaded env srv) ls)) = map lq_key (filter lq_registered ls)"
  by (induction ls) auto

lemma Start_server:
  fixes srv :: "'a server"
  assumes env: "env_ok env" and ok: "server_ok env srv"
  shows "server_ok env (Start env srv)"
proof (cases "s_isRunning srv \<or> PersistencePath srv = None \<or> queues_json srv = None")
  case True
  then show ?thesis
    using ok by (auto simp: Start_def loaded_queues_def server_ok_def disk_ok_def registry_ok_def)
next
  case False
  then obtain qms where qms: "queues_json srv = Some qms" by blast
  let ?present = "fst ` set (messageQueues srv)"
  let ?ls = "load_metas ?present qms :: 'a loaded_queue list"
  let ?new = "map (\<lambda>l. (lq_key l, lq_queue l)) (filter lq_registered (loaded_queues env srv))"
  have disk: "disk_ok env srv" using ok by (simp add: server_ok_def)
  have lq: "loaded_queues env srv = map (start_loaded \<circ> initialize_loaded env srv) ?ls"
    using False qms by (auto simp: loaded_queues_def)
  have lok: "\<forall>l \<in> set ?ls. loaded_ok env l"
    using disk qms by (intro load_metas_ok) (simp add: disk_ok_def)
  have keys: "map fst ?new = map lq_key (filter lq_registered ?ls)"
    using filter_loaded [of env srv ?ls] by (simp add: lq comp_def)
  have new: "entry_key_ok kq \<and> queue_ok (env_ops env) (env_le env) (snd kq)" if kq: "kq \<in> set ?new" for kq
  proof -
    obtain l where l: "l \<in> set ?ls" "kq = (lq_key l, lq_queue (start_loaded (initialize_loaded env srv l)))"
      using kq unfolding lq by auto
    have "loaded_ok env l" using lok l(1) by blast
    from initialize_loaded_ok [OF env disk this] show ?thesis by (simp add: l(2) entry_key_ok_def)
  qed
  have "distinct (map fst ?new)" "set (map fst ?new) \<inter> ?present = {}"
    unfolding keys using load_metas_distinct [of ?present qms, where 'a = 'a] by (auto simp: registered_keys_def)
  then have "dict_ok (messageQueues srv @ ?new)"
    using ok by (auto simp: server_ok_def registry_ok_def dict_ok_def)
  then show ?thesis
    using ok new False by (auto simp: Start_def server_ok_def registry_ok_def disk_ok_def)
qed

section \<open>Stopping\<close>

lemma server_ok_map:
  assumes ok: "server_ok env srv" and cfg: "\<And>q. Configuration (f q) = Configuration q"
    and q: "\<And>q. queue_ok (env_ops env) (env_le env) q \<Longrightarrow> queue_ok (env_ops env) (env_le env) (f q)"
  shows "server_ok env (srv\<lparr>messageQueues := map (\<lambda>(k, q). (k, f q)) (messageQueues srv)\<rparr>)"
proof -
  have "map fst (map (\<lambda>(k, q). (k, f q)) (messageQueues srv)) = map fst (messageQueues srv)" by auto
  then have "dict_ok (map (\<lambda>(k, q). (k, f q)) (messageQueues srv))"
    using ok by (simp only: server_ok_def registry_ok_def dict_ok_def)
  then show ?thesis
    using ok q by (auto simp: server_ok_def registry_ok_def disk_ok_def entry_key_ok_def cfg)
qed

lemma shutdown_configuration [simp]:
  "Configuration (SignalShutdown q) = Configuration q" "Configuration (WaitForShutdown q) = Configuration q"
  by (simp_all add: SignalShutdown_def WaitForShutdown_def)

lemma queue_ok_signal: "queue_ok ops le (SignalShutdown q) = queue_ok ops le q"
  by (simp add: SignalShutdown_def queue_ok_def subs_ok_def buffer_ok_def ephemeral_ok_def persistent_ok_def)

lemma queue_ok_closed: "queue_ok ops le q \<Longrightarrow> queue_ok ops le (WaitForShutdown q)"
  by (simp add: WaitForShutdown_def queue_ok_def subs_ok_def buffer_ok_def ephemeral_ok_def persistent_ok_def)

lemma server_ok_fold_close:
  "server_ok env srv \<Longrightarrow> \<forall>kq \<in> set qs. queue_ok (env_ops env) (env_le env) (snd kq) \<Longrightarrow>
     server_ok env (fold (\<lambda>(k, q). close_database q) qs srv)
     \<and> messageQueues (fold (\<lambda>(k, q). close_database q) qs srv) = messageQueues srv"
  by (induction qs arbitrary: srv) (auto simp: server_ok_close)

lemma server_ok_running [simp]: "server_ok env (srv\<lparr>s_isRunning := b\<rparr>) = server_ok env srv"
  by (simp add: server_ok_def disk_ok_def registry_ok_def)

lemma Stop_server:
  assumes ok: "server_ok env srv"
  shows "server_ok env (fst (Stop env srv))"
proof -
  let ?s1 = "srv\<lparr>s_isRunning := False, messageQueues := map (\<lambda>(k, q). (k, SignalShutdown q)) (messageQueues srv)\<rparr>"
  have "server_ok env (srv\<lparr>s_isRunning := False\<rparr>)" using ok by simp
  from server_ok_map [OF this, of SignalShutdown] have ok1: "server_ok env ?s1"
    by (simp add: queue_ok_signal)
  obtain s2 r where c: "CheckpointPersistentMessageQueues env ?s1 = (s2, r)"
    by (cases "CheckpointPersistentMessageQueues env ?s1")
  have ok2: "server_ok env s2" using server_ok_checkpoint [OF ok1] by (simp add: c)
  let ?s3 = "fold (\<lambda>(k, q). close_database q) (messageQueues s2) s2"
  have ok3: "server_ok env ?s3" "messageQueues ?s3 = messageQueues s2"
    using server_ok_fold_close [OF ok2, of "messageQueues s2"] ok2 by (auto simp: server_ok_def)
  have "server_ok env (?s3\<lparr>messageQueues := map (\<lambda>(k, q). (k, WaitForShutdown q)) (messageQueues s2)\<rparr>)"
    using server_ok_map [OF ok3(1), of WaitForShutdown] ok3(2)
    by (simp add: queue_ok_closed)
  then show ?thesis using ok2 by (auto simp: Stop_def Let_def c split: sum.splits)
qed

section \<open>Disposing\<close>

lemma MoveMessage_other:
  "k \<noteq> ToLowerInvariant (source @ ''.dlq'') \<Longrightarrow>
     find_queue k (fst (MoveMessageToDeadLetter env utcNow now timeout as source m srv)) = find_queue k srv"
  unfolding MoveMessageToDeadLetter_def body_eqs fst_return_not_running
  by (rule dead_letter_op.with_retry_other)

lemma dispose_message_server:
  assumes env: "env_ok env" and ok: "server_ok env srv" and room: "roomy srv"
  shows "server_ok env (fst (dispose_message env utcNow now as key i srv))"
proof (cases "find_queue key srv")
  case None
  then show ?thesis using ok by (simp add: dispose_message_def)
next
  case (Some q)
  let ?moved = "if em_State (q_objects q i) = DeadLetter \<and> DeadLetterConfiguration (Configuration q) \<noteq> None
      then MoveMessageToDeadLetter env utcNow now None as (queue_name (Configuration q)) (q_objects q i) srv
      else (srv, Some (Returned ()))"
  obtain s' r where m: "?moved = (s', r)" by (cases ?moved)
  have ok': "server_ok env s'"
    using MoveMessage_server [OF env room ok, of utcNow now None as "queue_name (Configuration q)" "q_objects q i"] ok m
    by (auto split: if_splits)
  have key: "key \<noteq> ToLowerInvariant (queue_name (Configuration q) @ ''.dlq'')"
    using ok find_queue_in [OF Some] dlq_key_differs [of "queue_name (Configuration q)"]
    by (auto simp: server_ok_def registry_ok_def entry_key_ok_def)
  have "find_queue key s' = Some q"
    using MoveMessage_other [OF key, of env utcNow now None as "q_objects q i" srv] m Some
    by (auto split: if_splits)
  moreover have "queue_ok (env_ops env) (env_le env) (remove_message (env_ops env) (env_le env) i q)"
    if "i \<in> set (buffer q)"
    using server_ok_find [OF ok Some] that by (intro rocksdb.queue_ok_remove env_rocks env)
  ultimately have removed: "server_ok env (put_queue key (remove_message (env_ops env) (env_le env) i q) s')"
    if "i \<in> set (buffer q)"
    using that ok' by (intro server_ok_put) auto
  have d: "dispose_message env utcNow now as key i srv =
      (if i \<notin> set (buffer q) then (srv, Some (Returned ()))
       else case (s', r) of
          (srv', Some (Returned _)) \<Rightarrow>
            (if em_State (q_objects q i) = DeadLetter \<or> em_State (q_objects q i) = Drop
             then (put_queue key (remove_message (env_ops env) (env_le env) i q) srv', Some (Returned ()))
             else (srv', Some (Returned ())))
        | r \<Rightarrow> r)"
    unfolding m [symmetric] by (simp add: dispose_message_def Some remove_message_def [symmetric] Let_def)
  show ?thesis unfolding d using ok ok' removed by (auto split: option.splits loop_exit.splits)
qed

section \<open>Steps of a running broker\<close>

text \<open>
  The deliveries of one queue among its other operations are interleaved in \<open>Queue_Machine\<close>;
  here a delivery is one step, so that several queues and their dead-letter queues can be
  followed together.
\<close>

inductive sstep :: "'db server_env \<Rightarrow> 'db server \<Rightarrow> 'db server \<Rightarrow> bool" for env where
  sv_create: "named_ok cfg \<Longrightarrow> sstep env s (fst (CreateQueue env cfg s))"
| sv_delete: "sstep env s (fst (DeleteQueue env now timeout as name s))"
| sv_subscribe: "sstep env s (fst (Subscribe now timeout as g l r name s))"
| sv_unsubscribe: "sstep env s (fst (Unsubscribe now timeout as g name s))"
| sv_disconnect: "sstep env s (fst (RmServer_OnDisconnected now as g s))"
| sv_enqueue: "roomy s \<Longrightarrow> sstep env s (fst (Enqueue env now timeout as e s))"
| sv_purge: "sstep env s (fst (PurgeQueue env now timeout as name s))"
| sv_dispose: "roomy s \<Longrightarrow> sstep env s (fst (dispose_message env utcNow now as key i s))"
| sv_expire: "find_queue key s = Some q \<Longrightarrow> sstep env s (put_queue key (ExpireMessages now q) s)"
| sv_hydrate: "roomy s \<Longrightarrow> find_queue key s = Some q \<Longrightarrow>
     sstep env s (put_queue key (fst (HydrateMessageBuffer (env_ops env) (env_le env) gen n locked q)) s)"
| sv_deliver: "find_queue key s = Some q \<Longrightarrow> SelectTopMessage now q = Some i \<Longrightarrow>
     sstep env s (put_queue key (DistributeToSubscribersAsync (env_ops env) (env_le env) rnd utcNow client i
       (begin_delivery i q)) s)"
| sv_checkpoint: "sstep env s (fst (CheckpointPersistentMessageQueues env s))"
| sv_start: "sstep env s (Start env s)"
| sv_stop: "sstep env s (fst (Stop env s))"

inductive sreachable :: "'db server_env \<Rightarrow> 'db server \<Rightarrow> 'db server \<Rightarrow> bool" for env s0 where
  sr_start: "sreachable env s0 s0"
| sr_step: "sreachable env s0 s \<Longrightarrow> sstep env s t \<Longrightarrow> sreachable env s0 t"

lemma queue_step_server:
  "server_ok env s \<Longrightarrow> find_queue key s = Some q \<Longrightarrow> Configuration q' = Configuration q \<Longrightarrow>
     (queue_ok (env_ops env) (env_le env) q \<Longrightarrow> queue_ok (env_ops env) (env_le env) q') \<Longrightarrow>
     server_ok env (put_queue key q' s)"
  using server_ok_put server_ok_find by metis

lemma hydrate_configuration: "Configuration (fst (HydrateMessageBuffer ops le gen n locked q)) = Configuration q"
proof -
  have loop: "Configuration (fst (hydrate_loop ops le gen n mx es k q)) = Configuration q" for mx es k
    by (induction ops le gen n mx es k q rule: hydrate_loop.induct)
      (auto simp: Let_def split: option.splits sum.splits)
  have "Configuration q' = Configuration q" if "hydrate_loop ops le gen n mx es 0 q = (q', r)" for q' r mx es
    using loop [of mx es 0] that by simp
  then show ?thesis
    by (auto simp: HydrateMessageBuffer_def Let_def split: option.splits prod.splits sum.splits)
qed

lemma reply_configuration: "Configuration (fst (handle_reply ops le now msg sub out failed q)) = Configuration q"
  by (rule reply_fields(2))

lemma deliver_configuration:
  "Configuration (DistributeToSubscribersAsync ops le rnd utcNow client i q) = Configuration q"
proof -
  have loop: "Configuration (fst (distribute_loop ops le utcNow client i subs failed q)) = Configuration q" for subs failed q
  proof (induction subs arbitrary: failed q)
    case Nil
    then show ?case by simp
  next
    case (Cons sub subs)
    let ?q = "attempt_delivery i sub q"
    let ?out = "client (SubscriberId (q_descriptors q sub))
      (delivery_query (queue_name (Configuration q)) (q_objects ?q i))"
    obtain q2 f2 r where h: "handle_reply ops le utcNow i sub ?out failed ?q = (q2, f2, r)"
      by (cases "handle_reply ops le utcNow i sub ?out failed ?q")
    have "Configuration q2 = Configuration ?q"
      using reply_configuration [of ops le utcNow i sub ?out failed ?q] unfolding h fst_conv .
    then have "Configuration q2 = Configuration q" by simp
    then show ?case using Cons.IH by (cases r) (simp_all add: Let_def h)
  qed
  show ?thesis
    using loop [of "sd_Remaining (SubscriberDispositions_new rnd q (q_objects q i))" "{}" q]
    by (auto simp: DistributeToSubscribersAsync_def DistributeToSubscribersWithDisposition_def finish_delivery_def
        Let_def split: prod.splits option.splits)
qed

lemma expire_configuration: "Configuration (ExpireMessages now q) = Configuration q"
  using shape_ExpireMessages [of q now] by (simp add: same_shape_def)

lemma sstep_ok: "sstep env s t \<Longrightarrow> env_ok env \<Longrightarrow> server_ok env s \<Longrightarrow> server_ok env t"
proof (induction rule: sstep.induct)
  case (sv_expire key s q now)
  then show ?case
    by (intro queue_step_server) (auto simp: expire_configuration same_shape_queue_ok [OF shape_ExpireMessages])
next
  case (sv_hydrate s key q gen n locked)
  have "queue_ok (env_ops env) (env_le env) (fst (HydrateMessageBuffer (env_ops env) (env_le env) gen n locked q))"
    by (rule rocksdb.Hydrate_keeps [OF env_rocks [OF sv_hydrate.prems(1)]
          server_ok_find [OF sv_hydrate.prems(2) sv_hydrate.hyps(2)] roomy_find [OF sv_hydrate.hyps(1,2)]])
  then show ?case
    using sv_hydrate by (intro queue_step_server [OF _ _ hydrate_configuration]) auto
next
  case (sv_deliver key s q now i rnd utcNow client)
  let ?q = "begin_delivery i q"
  have "queue_ok (env_ops env) (env_le env) ?q"
    using server_ok_find [OF sv_deliver.prems(2) sv_deliver.hyps(1)]
    by (simp add: same_shape_queue_ok [OF shape_begin_delivery])
  then have "queue_ok (env_ops env) (env_le env)
      (DistributeToSubscribersAsync (env_ops env) (env_le env) rnd utcNow client i ?q)"
    by (rule rocksdb.queue_ok_distribute [OF env_rocks [OF sv_deliver.prems(1)]])
  moreover have "Configuration ?q = Configuration q" by (simp add: begin_delivery_def)
  ultimately show ?case
    using sv_deliver by (intro queue_step_server) (auto simp: deliver_configuration)
qed (simp_all add: CreateQueue_server DeleteQueue_server Subscribe_server Unsubscribe_server OnDisconnected_server
    Enqueue_server PurgeQueue_server dispose_message_server server_ok_checkpoint Start_server Stop_server)

lemma sreachable_ok: "sreachable env s0 s \<Longrightarrow> env_ok env \<Longrightarrow> server_ok env s0 \<Longrightarrow> server_ok env s"
  by (induction rule: sreachable.induct) (blast intro: sstep_ok)+

end
