(* ===== verification/Queue_Abstract.thy ===== *)
theory Queue_Abstract
  imports Queue_Machine_Inv
begin

text \<open>
  The abstract view of a queue: the list of its messages in the order they came, wherever they
  are kept. Enqueuing appends, removing takes one out, purging empties, and the depth gauge is
  the list's length.
\<close>

section \<open>The abstraction\<close>

definition pending :: "'db rocks_ops \<Rightarrow> 'db queue \<Rightarrow> json_doc list" where
  "pending ops q =
     (if is_persistent q then
        (case database q of None \<Rightarrow> [] | Some d \<Rightarrow> map snd (rk_NewIterator ops d))
      else map (\<lambda>i. Serialize (q_objects q i)) (buffer q))"

fun doc_serial :: "json_doc \<Rightarrow> u64 option" where
  "doc_serial (JMessage d) = Some (md_SerialNumber d)"
| "doc_serial _ = None"

lemma doc_serial_Serialize [simp]: "doc_serial (Serialize m) = Some (em_SerialNumber m)"
  by (simp add: Serialize_def)

section \<open>Iterators after a put at the end and after a removal\<close>

lemma key_sorted_unique:
  "key_sorted xs \<Longrightarrow> key_sorted ys \<Longrightarrow> map_of xs = map_of ys \<Longrightarrow> xs = ys"
proof (induction xs arbitrary: ys)
  case Nil
  then show ?case by (metis map_of_eq_empty_iff)
next
  case (Cons x xs)
  have "ys \<noteq> []"
  proof
    assume "ys = []"
    then show False using fun_cong [OF Cons.prems(3), of "fst x"] by (cases x) simp
  qed
  then obtain y ys' where ys: "ys = y # ys'" by (cases ys) auto
  have dist: "distinct (map fst (x # xs))" "distinct (map fst ys)"
    using Cons.prems(1,2) by (auto intro: sorted_keys_distinct)
  have set_eq: "set (x # xs) = set ys"
    using map_of_eqI [of "x # xs" ys] Cons.prems(3) dist by (metis map_of_inject_set)
  have "x = y"
  proof (rule ccontr)
    assume "x \<noteq> y"
    then have "x \<in> set ys'" "y \<in> set xs" using set_eq ys by auto
    then have "bytes_less (fst y) (fst x)" "bytes_less (fst x) (fst y)"
      using Cons.prems(1,2) ys by auto
    then show False using bytes_less_trans bytes_less_irrefl by blast
  qed
  moreover have "xs = ys'"
  proof (rule Cons.IH)
    show "key_sorted xs" "key_sorted ys'" using Cons.prems(1,2) ys by auto
    have "set xs = set ys'" using set_eq dist \<open>x = y\<close> ys by (auto simp: image_iff)
    then show "map_of xs = map_of ys'" using dist ys by (intro map_of_eqI) auto
  qed
  ultimately show ?case by (simp add: ys)
qed

lemma filter_dict_remove: "filter (\<lambda>e. fst e \<noteq> k) es = dict_remove k es"
  by (induction es) auto

context rocksdb
begin

lemma iter_put_last:
  assumes "\<forall>e \<in> set (rk_NewIterator ops d). bytes_less (fst e) k"
  shows "rk_NewIterator ops (rk_Put ops k v d) = rk_NewIterator ops d @ [(k, v)]"
proof (rule key_sorted_unique)
  show "key_sorted (rk_NewIterator ops d @ [(k, v)])"
    using assms iter_sorted [of d] by (auto simp: sorted_wrt_append)
  have "k \<notin> fst ` set (rk_NewIterator ops d)" using assms by (metis bytes_less_irrefl imageE)
  then have "map_of (rk_NewIterator ops d) k = None" by (simp only: map_of_eq_None_iff not_False_eq_True)
  then show "map_of (rk_NewIterator ops (rk_Put ops k v d)) = map_of (rk_NewIterator ops d @ [(k, v)])"
    by (auto simp: put_iter fun_eq_iff map_add_def split: option.split)
qed (rule iter_sorted)

lemma iter_remove: "rk_NewIterator ops (rk_Remove ops k d) = filter (\<lambda>e. fst e \<noteq> k) (rk_NewIterator ops d)"
proof (rule key_sorted_unique)
  show "key_sorted (filter (\<lambda>e. fst e \<noteq> k) (rk_NewIterator ops d))"
    unfolding sorted_wrt_map by (rule sorted_wrt_filter) (use iter_sorted [of d] in \<open>simp add: sorted_wrt_map\<close>)
  show "map_of (rk_NewIterator ops (rk_Remove ops k d)) = map_of (filter (\<lambda>e. fst e \<noteq> k) (rk_NewIterator ops d))"
    by (simp add: remove_iter filter_dict_remove map_of_dict_remove)
qed (rule iter_sorted)

end

section \<open>The operations on the abstract queue\<close>

text \<open>Where every stored entry is a message under its own serial number, keys and serials agree.\<close>

lemma doc_serial_entry: "entry_ok le mx e \<Longrightarrow> \<exists>s. fst e = ToKey le s \<and> doc_serial (snd e) = Some s \<and> s \<le> mx"
  by (auto simp: entry_ok_def)

context rocksdb
begin

lemma pending_place:
  assumes ok: "queue_ok ops le q" and room: "lastSerialNumber (Statistics q) \<noteq> - 1"
    and sn: "\<And>s. em_SerialNumber (mk s) = s"
    and accepted: "place_message ops le name mk q = (q', Inr ())"
  shows "pending ops q' = pending ops q @ [Serialize (mk (lastSerialNumber (Statistics q) + 1))]"
proof (cases "is_persistent q")
  case True
  let ?top = "lastSerialNumber (Statistics q)"
  obtain d where d: "database q = Some d"
    using accepted True by (auto simp: place_message_def split: option.splits)
  have dok: "db_ok ops le ?top d" using ok True d by (simp add: queue_ok_def persistent_ok_def)
  have "bytes_less (fst x) (ToKey le (?top + 1))" if x: "x \<in> set (rk_NewIterator ops d)" for x
  proof -
    have "entry_ok le ?top x" using dok x by (simp add: db_ok_def)
    from doc_serial_entry [OF this] obtain s where "fst x = ToKey le s" "s \<le> ?top" by blast
    then show ?thesis using next_serial_less [OF room] by (simp add: order_le_less_trans)
  qed
  then have "rk_NewIterator ops (rk_Put ops (ToKey le (?top + 1)) v d) = rk_NewIterator ops d @ [(ToKey le (?top + 1), v)]" for v
    by (intro iter_put_last) blast
  then show ?thesis
    using True d accepted
    by (auto simp: pending_def place_message_def Let_def GetNextSerialNumber_def Store_def sn)
next
  case False
  have "i \<noteq> q_next q" if "i \<in> set (buffer q)" for i
    using ok that by (auto simp: queue_ok_def buffer_ok_def)
  then show ?thesis
    using False accepted
    by (auto simp: pending_def place_message_def Let_def GetNextSerialNumber_def)
qed

lemma pending_enqueue:
  assumes ok: "queue_ok ops le q" and room: "lastSerialNumber (Statistics q) \<noteq> - 1"
    and accepted: "snd (queue_enqueue ops le e q) = Inr ()"
  shows "pending ops (fst (queue_enqueue ops le e q)) =
     pending ops q @ [Serialize (enqueued_message q e (lastSerialNumber (Statistics q) + 1))]"
proof -
  obtain q' where "place_message ops le (ea_queueName e) (enqueued_message q e) q = (q', Inr ())"
    using accepted by (cases "queue_enqueue ops le e q") (auto simp: queue_enqueue_def)
  then show ?thesis
    using pending_place [OF ok room, of "enqueued_message q e"]
    by (simp add: queue_enqueue_def enqueued_message_def EnqueuedMessage_new_def)
qed

lemma pending_remove:
  assumes ok: "queue_ok ops le q" and i: "i \<in> set (buffer q)"
  shows "pending ops (remove_message ops le i q) = filter (\<lambda>m. doc_serial m \<noteq> Some (serial q i)) (pending ops q)"
proof (cases "is_persistent q")
  case True
  show ?thesis
  proof (cases "database q")
    case None
    then show ?thesis using True by (simp add: pending_def)
  next
    case (Some d)
    have dok: "db_ok ops le (lastSerialNumber (Statistics q)) d"
      using ok True Some by (simp add: queue_ok_def persistent_ok_def)
    have "fst e \<noteq> ToKey le (serial q i) \<longleftrightarrow> doc_serial (snd e) \<noteq> Some (serial q i)"
      if "e \<in> set (rk_NewIterator ops d)" for e
      using doc_serial_entry [of le _ e] dok that by (fastforce simp: db_ok_def)
    then have "filter (\<lambda>e. fst e \<noteq> ToKey le (serial q i)) (rk_NewIterator ops d)
        = filter (\<lambda>e. doc_serial (snd e) \<noteq> Some (serial q i)) (rk_NewIterator ops d)"
      by (rule filter_cong [OF refl])
    then show ?thesis
      using True Some by (simp add: pending_def iter_remove filter_map comp_def)
  qed
next
  case False
  have inj: "serial q j = serial q i \<longleftrightarrow> j = i" if "j \<in> set (buffer q)" for j
    using serials_distinct [of q] ok i that by (auto simp: queue_ok_def distinct_map dest: inj_onD)
  have "distinct (buffer q)" using ok buffer_distinct by (auto simp: queue_ok_def)
  then have "remove1 i (buffer q) = filter (\<lambda>j. j \<noteq> i) (buffer q)"
    by (simp add: distinct_remove1_removeAll removeAll_filter_not_eq eq_commute)
  also have "\<dots> = filter (\<lambda>j. serial q j \<noteq> serial q i) (buffer q)"
    using inj by (intro filter_cong) auto
  finally show ?thesis
    using False by (simp add: pending_def filter_map comp_def)
qed

lemma pending_purge:
  assumes "queue_ok ops le q" "snd (queue_purge ops name q) = Inr ()"
  shows "pending ops (fst (queue_purge ops name q)) = []"
proof (cases "is_persistent q")
  case True
  then obtain d where d: "database q = Some d"
    using assms by (auto simp: queue_purge_def split: if_splits)
  obtain d' where "Purge ops (Some d) = Some d'" "rk_NewIterator ops d' = []" using Purge_Some by blast
  then show ?thesis using True d by (simp add: pending_def queue_purge_def Let_def)
next
  case False
  then show ?thesis by (simp add: pending_def queue_purge_def Let_def)
qed

lemma pending_depth:
  assumes "queue_ok ops le q" "is_persistent q \<Longrightarrow> database q \<noteq> None"
  shows "QueueDepth (Statistics q) = wrap_i32 (int (length (pending ops q)))"
  using assms by (auto simp: queue_ok_def ephemeral_ok_def persistent_ok_def pending_def split: option.splits)

lemma pending_sorted:
  assumes "queue_ok ops le q"
  shows "sorted_wrt (\<lambda>m m'. the (doc_serial m) < the (doc_serial m')) (pending ops q)"
proof (cases "is_persistent q")
  case True
  show ?thesis
  proof (cases "database q")
    case None
    then show ?thesis using True by (simp add: pending_def)
  next
    case (Some d)
    have dok: "\<forall>e \<in> set (rk_NewIterator ops d). entry_ok le (lastSerialNumber (Statistics q)) e"
      using assms True Some by (simp add: queue_ok_def persistent_ok_def db_ok_def)
    have "sorted_wrt (\<lambda>e e'. bytes_less (fst e) (fst e')) (rk_NewIterator ops d)"
      using iter_sorted [of d] by (simp add: sorted_wrt_map)
    then have "sorted_wrt (\<lambda>e e'. the (doc_serial (snd e)) < the (doc_serial (snd e'))) (rk_NewIterator ops d)"
    proof (rule sorted_wrt_mono_rel [rotated])
      fix x y
      assume "x \<in> set (rk_NewIterator ops d)" "y \<in> set (rk_NewIterator ops d)" "bytes_less (fst x) (fst y)"
      then show "the (doc_serial (snd x)) < the (doc_serial (snd y))"
        using dok doc_serial_entry by (metis bytes_less_ToKey option.sel)
    qed
    then show ?thesis using True Some by (simp add: pending_def sorted_wrt_map)
  qed
next
  case False
  then show ?thesis using assms by (simp add: pending_def queue_ok_def buffer_ok_def sorted_wrt_map)
qed

end

end
