(* ===== verification/Mq_Restart.thy ===== *)
theory Mq_Restart
  imports Mq_Steps Queue_Abstract
begin

text \<open>
  Dead letters: a message that a queue gives up arrives in its dead-letter queue before it leaves
  the queue, unless the server stopped meanwhile; and disconnected clients.
\<close>

section \<open>Moving a message\<close>

lemma retry_loop_not_running:
  "retry_loop deadline ms body as s = (s', Some NotRunning) \<Longrightarrow> \<exists>a \<in> set as. \<not> at_running a"
proof (induction as arbitrary: s)
  case Nil
  then show ?case by simp
next
  case (Cons a as)
  then show ?case by (auto split: if_splits prod.splits sum.splits option.splits)
qed

lemma return_not_running_cases:
  "return_not_running x r = (s', Some (Returned y)) \<Longrightarrow> r = (s', Some (Returned y)) \<or> r = (s', Some NotRunning)"
  by (auto simp: return_not_running_def split: prod.splits option.splits loop_exit.splits)

lemma returned_while_running:
  assumes r: "return_not_running x (with_retry now timeout body as s) = (s', Some (Returned y))"
    and run: "\<forall>a \<in> set as. at_running a"
  shows "with_retry now timeout body as s = (s', Some (Returned y))"
proof -
  have "with_retry now timeout body as s \<noteq> (s', Some NotRunning)"
  proof
    assume "with_retry now timeout body as s = (s', Some NotRunning)"
    from retry_loop_not_running [OF this [unfolded with_retry_def Let_def]] show False using run by simp
  qed
  then show ?thesis using return_not_running_cases [OF r] by blast
qed

text \<open>What a completed move did, while the server ran.\<close>

lemma MoveMessage_returned:
  assumes r: "MoveMessageToDeadLetter env utcNow now timeout as source m srv = (srv', Some (Returned ()))"
    and run: "\<forall>a \<in> set as. at_running a"
  shows "case find_queue (ToLowerInvariant (source @ ''.dlq'')) srv of None \<Rightarrow> srv' = srv
     | Some dq \<Rightarrow> \<exists>dq'. place_message (env_ops env) (env_le env) (queue_name (Configuration dq))
           (CloneForDeadLetter utcNow m (source @ ''.dlq'')) dq = (dq', Inr ())
         \<and> srv' = put_queue (ToLowerInvariant (source @ ''.dlq'')) dq' srv"
proof -
  let ?key = "ToLowerInvariant (source @ ''.dlq'')"
  let ?f = "\<lambda>q. place_message (env_ops env) (env_le env) (queue_name (Configuration q))
      (CloneForDeadLetter utcNow m (source @ ''.dlq'')) q"
  have "with_retry now timeout (\<lambda>a. on_queue a ?key (Inr ()) ?f) as srv = (srv', Some (Returned ()))"
    using returned_while_running [OF r [unfolded MoveMessageToDeadLetter_def body_eqs] run] .
  then obtain a where "on_queue a ?key (Inr ()) ?f srv = (srv', Inr (Some ()))"
    using dead_letter_op.with_retry_returned by fastforce
  then show ?thesis
    by (auto simp: on_queue_def split: option.splits if_splits prod.splits sum.splits)
qed

section \<open>Disposing of a dead letter\<close>

lemma CloneForDeadLetter_serial: "em_SerialNumber (CloneForDeadLetter utcNow m n s) = s"
  by (simp add: CloneForDeadLetter_def EnqueuedMessage_new_def)

lemma dispose_returned:
  assumes q: "find_queue key srv = Some q" and i: "i \<in> set (buffer q)"
    and dl: "em_State (q_objects q i) = DeadLetter" "DeadLetterConfiguration (Configuration q) \<noteq> None"
    and r: "dispose_message env utcNow now as key i srv = (srv', Some (Returned ()))"
  shows "\<exists>s1. MoveMessageToDeadLetter env utcNow now None as (queue_name (Configuration q)) (q_objects q i) srv
       = (s1, Some (Returned ()))
     \<and> srv' = put_queue key (remove_message (env_ops env) (env_le env) i q) s1"
proof -
  obtain s1 r1 where m: "MoveMessageToDeadLetter env utcNow now None as (queue_name (Configuration q)) (q_objects q i) srv = (s1, r1)"
    by (cases "MoveMessageToDeadLetter env utcNow now None as (queue_name (Configuration q)) (q_objects q i) srv")
  show ?thesis
    using r i dl by (auto simp: dispose_message_def q m Let_def remove_message_def split: option.splits loop_exit.splits)
qed

text \<open>
  The message is in the dead-letter queue, with its identity, type, body and time, and no longer
  in the queue it came from; no other message of either queue changes.
\<close>

lemma dead_letter_moves:
  assumes env: "env_ok env" and ok: "server_ok env srv" and room: "roomy srv"
    and q: "find_queue key srv = Some q" and i: "i \<in> set (buffer q)"
    and dl: "em_State (q_objects q i) = DeadLetter" "DeadLetterConfiguration (Configuration q) \<noteq> None"
    and dq: "find_queue (ToLowerInvariant (queue_name (Configuration q) @ ''.dlq'')) srv = Some dq"
    and run: "\<forall>a \<in> set as. at_running a"
    and r: "dispose_message env utcNow now as key i srv = (srv', Some (Returned ()))"
  shows "\<exists>q' dq'. find_queue key srv' = Some q'
     \<and> find_queue (ToLowerInvariant (queue_name (Configuration q) @ ''.dlq'')) srv' = Some dq'
     \<and> pending (env_ops env) q' = filter (\<lambda>m. doc_serial m \<noteq> Some (serial q i)) (pending (env_ops env) q)
     \<and> pending (env_ops env) dq' = pending (env_ops env) dq
          @ [Serialize (CloneForDeadLetter utcNow (q_objects q i) (queue_name (Configuration q) @ ''.dlq'')
               (lastSerialNumber (Statistics dq) + 1))]"
proof -
  let ?dkey = "ToLowerInvariant (queue_name (Configuration q) @ ''.dlq'')"
  have key: "key \<noteq> ?dkey"
    using ok find_queue_in [OF q] dlq_key_differs [of "queue_name (Configuration q)"]
    by (auto simp: server_ok_def registry_ok_def entry_key_ok_def)
  obtain s1 where m: "MoveMessageToDeadLetter env utcNow now None as (queue_name (Configuration q)) (q_objects q i) srv
       = (s1, Some (Returned ()))"
    and srv': "srv' = put_queue key (remove_message (env_ops env) (env_le env) i q) s1"
    using dispose_returned [OF q i dl r] by blast
  obtain dq' where placed: "place_message (env_ops env) (env_le env) (queue_name (Configuration dq))
           (CloneForDeadLetter utcNow (q_objects q i) (queue_name (Configuration q) @ ''.dlq'')) dq = (dq', Inr ())"
      and s1: "s1 = put_queue ?dkey dq' srv"
    using MoveMessage_returned [OF m run] dq by auto
  have "pending (env_ops env) dq' = pending (env_ops env) dq
          @ [Serialize (CloneForDeadLetter utcNow (q_objects q i) (queue_name (Configuration q) @ ''.dlq'')
               (lastSerialNumber (Statistics dq) + 1))]"
    by (rule rocksdb.pending_place [OF env_rocks [OF env] server_ok_find [OF ok dq] roomy_find [OF room dq]
          CloneForDeadLetter_serial placed])
  moreover have "pending (env_ops env) (remove_message (env_ops env) (env_le env) i q)
      = filter (\<lambda>m. doc_serial m \<noteq> Some (serial q i)) (pending (env_ops env) q)"
    by (rule rocksdb.pending_remove [OF env_rocks [OF env] server_ok_find [OF ok q] i])
  ultimately show ?thesis using key by (auto simp: srv' s1)
qed

text \<open>When the server is stopping, the move returns at once and the message is removed all the same.\<close>

lemma dead_letter_lost:
  assumes q: "find_queue key srv = Some q" and i: "i \<in> set (buffer q)"
    and dl: "em_State (q_objects q i) = DeadLetter" "DeadLetterConfiguration (Configuration q) \<noteq> None"
    and stopped: "as = a # as'" "\<not> at_running a"
  shows "dispose_message env utcNow now as key i srv =
     (put_queue key (remove_message (env_ops env) (env_le env) i q) srv, Some (Returned ()))"
  using q i dl stopped
  by (simp add: dispose_message_def Let_def MoveMessageToDeadLetter_def with_retry_def return_not_running_def
      remove_message_def)

section \<open>Disconnected clients\<close>

lemma disconnect_done:
  "disconnect_queues a g qs = (qs', True) \<Longrightarrow> qs' = map (\<lambda>(k, q). (k, queue_unsubscribe g q)) qs"
  by (induction qs arbitrary: qs') (auto split: prod.splits if_splits)

lemma disconnect_removes:
  assumes r: "RmServer_OnDisconnected now as g srv = (srv', Some (Returned ()))"
    and run: "\<forall>a \<in> set as. at_running a" and q: "(k, q) \<in> set (messageQueues srv')"
  shows "g \<notin> fst ` set (Subscribers q)"
proof -
  have "\<exists>a s. OnDisconnected_body g a s = (srv', Inr (Some ()))"
    if "retry_loop deadline ms (OnDisconnected_body g) as srv = (srv', Some (Returned ()))" for deadline ms
    using that
  proof (induction as arbitrary: srv)
    case Nil
    then show ?case by simp
  next
    case (Cons a as)
    then show ?case
      by (cases "OnDisconnected_body g a srv") (auto split: if_splits sum.splits option.splits)
  qed
  moreover have "\<exists>deadline ms. retry_loop deadline ms (OnDisconnected_body g) as srv = (srv', Some (Returned ()))"
    using returned_while_running [OF r [unfolded RmServer_OnDisconnected_def] run]
    unfolding with_retry_def Let_def by blast
  ultimately obtain a s where "OnDisconnected_body g a s = (srv', Inr (Some ()))" by blast
  then have "messageQueues srv' = map (\<lambda>(k, q). (k, queue_unsubscribe g q)) (messageQueues s)"
    by (auto simp: OnDisconnected_body_def dest: disconnect_done split: prod.splits if_splits)
  with q show ?thesis by (auto simp: queue_unsubscribe_def set_dict_remove)
qed

text \<open>
  Stopping a server and starting a new one over its files brings back every persistent queue with
  its messages; what it does not bring back is the ephemeral dead-letter queue of a persistent one.
\<close>

section \<open>What stopping leaves on disk\<close>

lemma fold_close_dir:
  assumes "distinct (map (\<lambda>kq. PathPart (Configuration (snd kq))) qs)" "(k, q) \<in> set qs" "database q = Some d"
  shows "messages_dir (fold (\<lambda>(k, q). close_database q) qs s) (PathPart (Configuration q)) = Some d"
  using assms
proof (induction qs rule: rev_induct)
  case Nil
  then show ?case by simp
next
  case (snoc x xs)
  then show ?case by (cases x) (auto simp: close_database_def image_iff split: option.splits)
qed

lemma paths_distinct:
  assumes "registry_ok srv"
  shows "distinct (map (\<lambda>kq. PathPart (Configuration (snd kq))) (messageQueues srv))"
proof -
  have "fst kq = ToLowerInvariant (case PathPart (Configuration (snd kq)) of None \<Rightarrow> [] | Some n \<Rightarrow> n)"
    if "kq \<in> set (messageQueues srv)" for kq
    using assms that by (auto simp: registry_ok_def entry_key_ok_def config_ok_def queue_name_def)
  then have "map fst (messageQueues srv) = map (\<lambda>p. ToLowerInvariant (case p of None \<Rightarrow> [] | Some n \<Rightarrow> n))
      (map (\<lambda>kq. PathPart (Configuration (snd kq))) (messageQueues srv))"
    by simp
  then have "distinct (map (\<lambda>p. ToLowerInvariant (case p of None \<Rightarrow> [] | Some n \<Rightarrow> n))
      (map (\<lambda>kq. PathPart (Configuration (snd kq))) (messageQueues srv)))"
    using assms by (metis registry_ok_def dict_ok_def)
  then show ?thesis using distinct_map by blast
qed

definition signalled :: "'db server \<Rightarrow> 'db server" where
  "signalled srv = srv\<lparr>s_isRunning := False,
     messageQueues := map (\<lambda>(k, q). (k, SignalShutdown q)) (messageQueues srv)\<rparr>"

lemma shutdown_fields [simp]:
  "database (SignalShutdown q) = database q" "Statistics (SignalShutdown q) = Statistics q"
  "is_persistent (SignalShutdown q) = is_persistent q"
  by (simp_all add: SignalShutdown_def)

lemma Stop_files:
  assumes ok: "registry_ok srv" and path: "\<not> IsNullOrEmpty (PersistencePath srv)"
    and stop: "Stop env srv = (s1, Inr ())"
  shows "queues_json s1 = Some (persistent_metadata srv)" "PersistencePath s1 = PersistencePath srv"
    and "(k, q) \<in> set (messageQueues srv) \<Longrightarrow> database q = Some d \<Longrightarrow> messages_dir s1 (PathPart (Configuration q)) = Some d"
proof -
  have meta: "persistent_metadata (signalled srv) = persistent_metadata srv"
    by (simp add: persistent_metadata_def signalled_def filter_map comp_def split_def)
  have spath: "PersistencePath (signalled srv) = PersistencePath srv" by (simp add: signalled_def)
  obtain s2 where c: "CheckpointPersistentMessageQueues env (signalled srv) = (s2, Inr ())"
    using stop by (auto simp: Stop_def Let_def signalled_def split: prod.splits sum.splits)
  then have s2: "s2 = (signalled srv)\<lparr>queues_json := Some (persistent_metadata srv)\<rparr>"
    using path spath by (auto simp: CheckpointPersistentMessageQueues_def meta split: option.splits if_splits)
  let ?qs = "map (\<lambda>(k, q). (k, SignalShutdown q)) (messageQueues srv)"
  have s1: "s1 = (fold (\<lambda>(k, q). close_database q) ?qs s2)\<lparr>messageQueues := map (\<lambda>(k, q). (k, WaitForShutdown q)) ?qs\<rparr>"
    using stop c s2 by (auto simp: Stop_def Let_def signalled_def)
  have keep: "queues_json (fold (\<lambda>(k, q). close_database q) qs s) = queues_json s
      \<and> PersistencePath (fold (\<lambda>(k, q). close_database q) qs s) = PersistencePath s" for qs :: "(string \<times> 'a queue) list" and s :: "'a server"
    by (induction qs arbitrary: s) auto
  show "queues_json s1 = Some (persistent_metadata srv)" "PersistencePath s1 = PersistencePath srv"
    using keep by (simp_all add: s1 s2 signalled_def)
  have "distinct (map (\<lambda>kq. PathPart (Configuration (snd kq))) ?qs)"
    using paths_distinct [OF ok] by (simp add: comp_def case_prod_beta)
  then show "messages_dir s1 (PathPart (Configuration q)) = Some d"
    if "(k, q) \<in> set (messageQueues srv)" "database q = Some d"
    using fold_close_dir [of ?qs k "SignalShutdown q" d s2] that by (force simp: s1)
qed

section \<open>What loading brings back\<close>

definition meta_key :: "queue_metadata \<Rightarrow> string" where
  "meta_key qm = ToLowerInvariant (queue_name (fst qm))"

text \<open>The key of the ephemeral dead-letter queue loading creates next to a queue.\<close>

definition companion_key :: "queue_metadata \<Rightarrow> string option" where
  "companion_key qm = (case DeadLetterConfiguration (fst qm) of None \<Rightarrow> None
     | Some d \<Rightarrow> if dlq_PersistenceScheme d = Ephemeral then Some (ToLowerInvariant (queue_name (fst qm) @ ''.dlq'')) else None)"

definition loaded_main :: "queue_metadata \<Rightarrow> 'db loaded_queue" where
  "loaded_main qm = \<lparr>lq_key = meta_key qm,
     lq_queue = (SingleMessageQueueServer_new (fst qm))\<lparr>Statistics := stats_from_json (snd qm)\<rparr>,
     lq_kind = load_kind_of (queue_name (fst qm)), lq_registered = True\<rparr>"

lemma load_meta_keys:
  "registered_keys (load_meta present qm :: 'db loaded_queue list) \<subseteq> insert (meta_key qm) (set_option (companion_key qm))"
proof -
  obtain cfg st where qm: "qm = (cfg, st)" by (cases qm)
  have "queue_name c = queue_name cfg @ ''.dlq''" if "ToConfiguration d (cfg_queueName cfg) = Inr c" for d c
  proof (cases "cfg_queueName cfg")
    case None
    then show ?thesis using that by (simp add: ToConfiguration_def IsNullOrWhiteSpace_def)
  next
    case (Some n)
    then show ?thesis using ToConfiguration_name [of d n c] that by (simp add: queue_name_def)
  qed
  then show ?thesis
    by (auto simp: qm registered_keys_def load_meta_def meta_key_def companion_key_def Let_def
        split: option.splits sum.splits if_splits)
qed

lemma load_meta_main:
  "meta_key qm \<notin> present \<Longrightarrow> (loaded_main qm :: 'db loaded_queue) \<in> set (load_meta present qm)"
  by (cases qm) (auto simp: load_meta_def loaded_main_def meta_key_def Let_def split: option.splits sum.splits)

lemma load_metas_main:
  assumes "qm \<in> set qms" "meta_key qm \<notin> present" "distinct (map meta_key qms)"
    "\<forall>qm' \<in> set qms. companion_key qm' \<noteq> Some (meta_key qm)"
  shows "(loaded_main qm :: 'db loaded_queue) \<in> set (load_metas present qms)"
  using assms
proof (induction qms arbitrary: present)
  case Nil
  then show ?case by simp
next
  case (Cons x qms)
  show ?case
  proof (cases "x = qm")
    case True
    then show ?thesis using load_meta_main [OF Cons.prems(2), where 'db = 'db] by (simp add: Let_def)
  next
    case False
    then have mem: "qm \<in> set qms" using Cons.prems(1) by simp
    have "meta_key qm \<noteq> meta_key x" using Cons.prems(3) mem by (auto simp: image_iff)
    then have "meta_key qm \<notin> present \<union> registered_keys (load_meta present x :: 'db loaded_queue list)"
      using load_meta_keys [of present x, where 'db = 'db] Cons.prems(2,4) by auto
    then show ?thesis using Cons.IH [OF mem] Cons.prems(3,4) by (simp add: Let_def)
  qed
qed

section \<open>Restarting\<close>

definition companions_apart :: "'db server \<Rightarrow> bool" where
  "companions_apart srv = (\<forall>qm \<in> set (persistent_metadata srv). \<forall>qm' \<in> set (persistent_metadata srv).
     companion_key qm' \<noteq> Some (meta_key qm))"

lemma metadata_keys:
  assumes "registry_ok srv"
  shows "distinct (map meta_key (persistent_metadata srv))"
proof -
  let ?f = "filter (\<lambda>(k, q). is_persistent q) (messageQueues srv)"
  have "map meta_key (persistent_metadata srv) = map fst ?f"
    using assms by (auto simp: persistent_metadata_def meta_key_def registry_ok_def entry_key_ok_def)
  moreover have "distinct (map fst ?f)"
    using assms by (simp add: registry_ok_def dict_ok_def distinct_map_filter)
  ultimately show ?thesis by simp
qed

lemma restart_restores:
  fixes srv :: "'db server"
  assumes env: "env_ok env" and opens: "\<forall>p d. env_open env p (Some d) = Inr d"
    and ok: "server_ok env srv" and path: "\<not> IsNullOrEmpty (PersistencePath srv)"
    and apart: "companions_apart srv" and stop: "Stop env srv = (s1, Inr ())"
    and q: "find_queue key srv = Some q" and p: "is_persistent q" and d: "database q = Some d"
  shows "\<exists>q'. find_queue key (Start env (reopened s1)) = Some q' \<and> q_isRunning q' \<and> Configuration q' = Configuration q
     \<and> database q' = Some d \<and> pending (env_ops env) q' = pending (env_ops env) q \<and> queue_ok (env_ops env) (env_le env) q'
     \<and> buffer q' = [] \<and> Subscribers q' = []"
proof -
  have reg: "registry_ok srv" using ok by (simp add: server_ok_def)
  have mem: "(key, q) \<in> set (messageQueues srv)" using find_queue_in [OF q] .
  have key: "key = ToLowerInvariant (queue_name (Configuration q))"
    using reg mem by (auto simp: registry_ok_def entry_key_ok_def)
  let ?qms = "persistent_metadata srv"
  let ?qm = "(Configuration q, Statistics q)"
  note files = Stop_files [OF reg path stop]
  have qm: "?qm \<in> set ?qms" using mem p by (force simp: persistent_metadata_def)
  have main: "(loaded_main ?qm :: 'db loaded_queue) \<in> set (load_metas {} ?qms)"
    using load_metas_main [OF qm _ metadata_keys [OF reg], of "{}"] apart qm by (auto simp: companions_apart_def)
  let ?srv = "reopened s1"
  let ?ls = "load_metas {} ?qms :: 'db loaded_queue list"
  have srv: "messageQueues ?srv = []" "queues_json ?srv = Some ?qms" "messages_dir ?srv = messages_dir s1"
    "s_isRunning ?srv = False" "PersistencePath ?srv \<noteq> None"
    using files path by (auto simp: reopened_def CMqServer_new_def IsNullOrEmpty_def split: option.splits)
  have lq: "loaded_queues env ?srv = map (start_loaded \<circ> initialize_loaded env ?srv) ?ls"
    using srv by (auto simp: loaded_queues_def)
  let ?q0 = "(SingleMessageQueueServer_new (Configuration q))\<lparr>Statistics := stats_from_json (Statistics q)\<rparr> :: 'db queue"
  let ?q1 = "InitializePersistentDatabase (env_ops env) (env_le env) (Inr d) ?q0"
  have "db_ok (env_ops env) (env_le env) (lastSerialNumber (Statistics q)) d"
    using server_ok_find [OF ok q] p d by (simp add: queue_ok_def persistent_ok_def)
  then have init: "queue_ok (env_ops env) (env_le env) ?q1" "IsInitialized ?q1" "database ?q1 = Some d"
    using rocksdb.Initialize_ok [OF env_rocks [OF env], of ?q0 "env_le env" _ d] p
    by (auto simp: Let_def subs_ok_def SingleMessageQueueServer_new_def)
  have fields: "Configuration ?q1 = Configuration q" "buffer ?q1 = []" "Subscribers ?q1 = []"
    by (auto simp: InitializePersistentDatabase_def Let_def queue_update_defs SingleMessageQueueServer_new_def
        split: option.splits)
  have opened: "env_open env (PathPart (Configuration q)) (messages_dir s1 (PathPart (Configuration q))) = Inr d"
    using files(3) [OF mem d] opens by simp
  have "lq_queue (initialize_loaded env ?srv (loaded_main ?qm)) = ?q1"
    using opened srv(3) by (simp add: initialize_loaded_def loaded_main_def load_kind_of_def SingleMessageQueueServer_new_def)
  then have "lq_queue (start_loaded (initialize_loaded env ?srv (loaded_main ?qm))) = Start_queue ?q1"
    using init(2) by (simp add: start_loaded_def)
  then have "(key, Start_queue ?q1) \<in> set (messageQueues (Start env ?srv))"
    using main srv by (force simp: Start_def lq loaded_main_def meta_key_def key)
  moreover have "registry_ok (Start env ?srv)"
  proof -
    have "server_ok env s1" using Stop_server [OF ok] stop by simp
    then have "server_ok env ?srv"
      by (simp add: server_ok_def disk_ok_def reopened_def registry_ok_def CMqServer_new_def)
    from Start_server [OF env this] show ?thesis by (simp add: server_ok_def)
  qed
  ultimately have "find_queue key (Start env ?srv) = Some (Start_queue ?q1)"
    by (simp add: find_queue_iff)
  then show ?thesis
    using init fields p d by (simp add: queue_ok_start pending_def)
qed

section \<open>The ephemeral companion of a persistent queue\<close>

definition loaded_companion :: "CMqQueueConfiguration \<Rightarrow> 'db loaded_queue" where
  "loaded_companion c = \<lparr>lq_key = ToLowerInvariant (queue_name c), lq_queue = SingleMessageQueueServer_new c,
     lq_kind = OnlyToStart, lq_registered = True\<rparr>"

lemma load_meta_companion:
  assumes "config_ok (fst qm)" "companion_key qm = Some k" "meta_key qm \<notin> present" "k \<notin> present"
  shows "\<exists>c. queue_name c = queue_name (fst qm) @ ''.dlq'' \<and> ToLowerInvariant (queue_name c) = k
     \<and> (loaded_companion c :: 'db loaded_queue) \<in> set (load_meta present qm)"
proof -
  obtain cfg st where qm: "qm = (cfg, st)" by (cases qm)
  obtain d where d: "DeadLetterConfiguration cfg = Some d" "dlq_PersistenceScheme d = Ephemeral"
      "k = ToLowerInvariant (queue_name cfg @ ''.dlq'')"
    using assms(2) by (auto simp: companion_key_def qm split: option.splits if_splits)
  obtain n where n: "cfg_queueName cfg = Some n" "IsValidQueueName (Some n)"
    using assms(1) by (cases "cfg_queueName cfg") (auto simp: config_ok_def qm)
  obtain c where c: "ToConfiguration d (Some n) = Inr c" "cfg_queueName c = Some (n @ ''.dlq'')"
    using ToConfiguration_ok [OF n(2)] by blast
  have names: "queue_name cfg = n" "queue_name c = n @ ''.dlq''" using n c by (simp_all add: queue_name_def)
  have "(loaded_companion c :: 'db loaded_queue) \<in> set (load_meta present qm)"
  proof -
    have fresh: "ToLowerInvariant n \<notin> present" "ToLowerInvariant (n @ ''.dlq'') \<notin> insert (ToLowerInvariant n) present"
      using assms(3,4) d(3) names dlq_key_differs [of n] by (simp_all add: qm meta_key_def)
    then show ?thesis
      by (simp only: qm load_meta_def prod.case Let_def names d(1,2) n(1) c(1) option.case sum.case if_True if_False
          loaded_companion_def list.set insert_iff simp_thms)
  qed
  then show ?thesis using names d(3) by (intro exI [of _ c]) (simp add: qm)
qed

lemma load_metas_companion:
  assumes "qm \<in> set qms" "config_ok (fst qm)" "companion_key qm = Some k" "meta_key qm \<notin> present" "k \<notin> present"
    "distinct (map meta_key qms)" "\<forall>qm' \<in> set qms. meta_key qm' \<noteq> k \<and> companion_key qm' \<noteq> Some (meta_key qm)"
    "\<forall>qm' \<in> set qms. companion_key qm' = Some k \<longrightarrow> meta_key qm' = meta_key qm"
  shows "\<exists>c. queue_name c = queue_name (fst qm) @ ''.dlq'' \<and> ToLowerInvariant (queue_name c) = k
     \<and> (loaded_companion c :: 'db loaded_queue) \<in> set (load_metas present qms)"
  using assms
proof (induction qms arbitrary: present)
  case Nil
  show ?case using Nil.prems(1) by (simp only: list.set empty_iff)
next
  case (Cons x qms)
  show ?case
  proof (cases "x = qm")
    case True
    then show ?thesis using load_meta_companion [OF Cons.prems(2-5), where 'db = 'db] by (auto simp: Let_def)
  next
    case False
    then have mem: "qm \<in> set qms" using Cons.prems(1) by simp
    have neq: "meta_key qm \<noteq> meta_key x" using Cons.prems(6) mem by (auto simp: image_iff)
    have comp: "companion_key x \<noteq> Some k" using Cons.prems(8) neq by auto
    let ?present = "present \<union> registered_keys (load_meta present x :: 'db loaded_queue list)"
    have "meta_key qm \<notin> ?present" "k \<notin> ?present"
      using load_meta_keys [of present x, where 'db = 'db] Cons.prems(4,5,7) neq comp by auto
    moreover have "distinct (map meta_key qms)" using Cons.prems(6) by simp
    moreover have "\<forall>qm' \<in> set qms. meta_key qm' \<noteq> k \<and> companion_key qm' \<noteq> Some (meta_key qm)"
      "\<forall>qm' \<in> set qms. companion_key qm' = Some k \<longrightarrow> meta_key qm' = meta_key qm"
      using Cons.prems(7,8) by (meson list.set_intros(2))+
    ultimately obtain c where "queue_name c = queue_name (fst qm) @ ''.dlq''" "ToLowerInvariant (queue_name c) = k"
        "(loaded_companion c :: 'db loaded_queue) \<in> set (load_metas ?present qms)"
      using Cons.IH [OF mem Cons.prems(2,3)] by blast
    then show ?thesis by (intro exI [of _ c]) (simp add: Let_def)
  qed
qed

lemma companion_meta_key:
  "companion_key qm = Some k \<Longrightarrow> companion_key qm' = Some k \<Longrightarrow> meta_key qm' = meta_key qm"
  by (auto simp: companion_key_def meta_key_def ToLowerInvariant_append split: option.splits if_splits)

lemma restart_companion:
  fixes srv :: "'db server"
  assumes env: "env_ok env" and ok: "server_ok env srv" and path: "\<not> IsNullOrEmpty (PersistencePath srv)"
    and apart: "companions_apart srv" and stop: "Stop env srv = (s1, Inr ())"
    and qm: "qm \<in> set (persistent_metadata srv)" and k: "companion_key qm = Some k"
  shows "\<exists>dq. find_queue k (Start env (reopened s1)) = Some dq \<and> queue_name (Configuration dq) = queue_name (fst qm) @ ''.dlq''
     \<and> \<not> IsInitialized dq \<and> \<not> q_isRunning dq"
proof -
  have reg: "registry_ok srv" using ok by (simp add: server_ok_def)
  let ?qms = "persistent_metadata srv"
  let ?ls = "load_metas {} ?qms :: 'db loaded_queue list"
  note files = Stop_files [OF reg path stop]
  let ?srv = "reopened s1"
  have srv: "messageQueues ?srv = []" "queues_json ?srv = Some ?qms" "s_isRunning ?srv = False" "PersistencePath ?srv \<noteq> None"
    using files path by (auto simp: reopened_def CMqServer_new_def IsNullOrEmpty_def split: option.splits)
  have cfg: "config_ok (fst qm)"
    using qm reg by (auto simp: persistent_metadata_def registry_ok_def entry_key_ok_def)
  obtain c where c: "queue_name c = queue_name (fst qm) @ ''.dlq''" "ToLowerInvariant (queue_name c) = k"
      "(loaded_companion c :: 'db loaded_queue) \<in> set ?ls"
  proof -
    have "\<forall>qm' \<in> set ?qms. meta_key qm' \<noteq> k \<and> companion_key qm' \<noteq> Some (meta_key qm)"
      using apart qm k by (metis companions_apart_def)
    moreover have "\<forall>qm' \<in> set ?qms. companion_key qm' = Some k \<longrightarrow> meta_key qm' = meta_key qm"
      using companion_meta_key [OF k] by blast
    ultimately show thesis
      using load_metas_companion [OF qm cfg k _ _ metadata_keys [OF reg], of "{}", where 'db = 'db] that by blast
  qed
  have lq: "loaded_queues env ?srv = map (start_loaded \<circ> initialize_loaded env ?srv) ?ls"
    using srv by (auto simp: loaded_queues_def)
  have "start_loaded (initialize_loaded env ?srv (loaded_companion c)) = loaded_companion c"
    by (simp add: initialize_loaded_def loaded_companion_def start_loaded_def SingleMessageQueueServer_new_def)
  then have "(k, SingleMessageQueueServer_new c) \<in> set (messageQueues (Start env ?srv))"
    using c srv by (force simp: Start_def lq loaded_companion_def)
  moreover have "registry_ok (Start env ?srv)"
  proof -
    have "server_ok env s1" using Stop_server [OF ok] stop by simp
    then have "server_ok env ?srv"
      by (simp add: server_ok_def disk_ok_def reopened_def registry_ok_def CMqServer_new_def)
    from Start_server [OF env this] show ?thesis by (simp add: server_ok_def)
  qed
  ultimately have "find_queue k (Start env ?srv) = Some (SingleMessageQueueServer_new c)"
    by (simp add: find_queue_iff)
  then show ?thesis using c(1) by (simp add: SingleMessageQueueServer_new_def)
qed

end
