(* ===== verification/Sample_Broker.thy ===== *)
theory Sample_Broker
  imports Mq_Restart Queue_Machine_Inv Reference_Store
begin

text \<open>
  Concrete queues and servers on the reference store. The witnesses of the properties run on them.
\<close>

definition sample_config :: CMqQueueConfiguration where
  "sample_config = CMqQueueConfiguration_empty\<lparr>cfg_queueName := Some ''Orders'', PathPart := Some ''Orders'',
     PersistenceScheme := Persistent, MaxDeliveryAttempts := 2,
     DeadLetterConfiguration := Some CMqDeadLetterQueueConfiguration_new\<rparr>"

definition sample_env :: "rbt_db server_env" where
  "sample_env = \<lparr>env_ops = rbt_ops, env_le = True,
     env_open = (\<lambda>p d. case d of None \<Rightarrow> Inr RBT.empty | Some d \<Rightarrow> Inr d),
     env_checkpoint = (\<lambda>_. None), env_delete = (\<lambda>_. True)\<rparr>"

definition sample_args :: enqueue_args where
  "sample_args = \<lparr>ea_queueName = ''ORDERS'', ea_deferDeliveryDuration = None,
     ea_assemblyQualifiedTypeName = ''Order'', ea_messageJson = ''{}'', ea_NewGuid = 7, ea_Timestamp = 100,
     ea_UtcNow = 100\<rparr>"

text \<open>A persistent queue just opened on an empty database.\<close>

definition sample_queue :: "rbt_db queue" where
  "sample_queue = InitializePersistentDatabase rbt_ops True (Inr RBT.empty) (SingleMessageQueueServer_new sample_config)"

text \<open>An ephemeral queue with two messages and two subscribers; its delivery thread runs.\<close>

definition sample_message :: "u64 \<Rightarrow> EnqueuedMessage" where
  "sample_message sn = (EnqueuedMessage_new 100 ''Jobs'' ''Job'' ''{}'' sn)\<lparr>em_MessageId := 9\<rparr>"

definition sample_ephemeral :: "rbt_db queue" where
  "sample_ephemeral = \<lparr>q_isRunning = True, IsInitialized = True, ErrorMessage = None, q_event = False,
     Subscribers = [(1, 2), (5, 3)],
     EnqueuedMessages = \<lparr>MessageBuffer = [0, 1], Database = None\<rparr>,
     Configuration = CMqQueueConfiguration_empty\<lparr>cfg_queueName := Some ''Jobs'', PathPart := Some ''Jobs'',
       MaxDeliveryAttempts := 1, DeliveryScheme := Balanced,
       DeadLetterConfiguration := Some CMqDeadLetterQueueConfiguration_new\<rparr>,
     Statistics = MessageQueueStatistics_new\<lparr>lastSerialNumber := 2, QueueDepth := 2, ReceivedMessageCount := 2\<rparr>,
     q_objects = (\<lambda>i. sample_message (if i = 0 then 1 else 2)),
     q_descriptors = (\<lambda>i. CMqSubscriberDescriptor_new (if i = 2 then 1 else 5)), q_next = 4\<rparr>"

lemma sample_env_ok: "env_ok sample_env"
  unfolding env_ok_def
proof (intro conjI allI impI)
  show "rocksdb (env_ops sample_env)" using ref_store.rocksdb_axioms by (simp add: sample_env_def)
  show "d' = d" if "env_open sample_env p (Some d) = Inr d'" for p d d' using that by (simp add: sample_env_def)
  show "rk_NewIterator (env_ops sample_env) d' = []" if "env_open sample_env p None = Inr d'" for p d'
    using that by (auto simp: sample_env_def)
qed

lemma sample_queue_facts:
  "database sample_queue = Some RBT.empty" "buffer sample_queue = []"
  "Configuration sample_queue = sample_config" "Subscribers sample_queue = []"
  "lastSerialNumber (Statistics sample_queue) = 0" "OutstandingDeliveries (Statistics sample_queue) = 0"
  "is_persistent sample_queue" "IsInitialized sample_queue"
  by (simp_all add: sample_queue_def InitializePersistentDatabase_def sample_config_def SingleMessageQueueServer_new_def
      queue_update_defs stat_defs MessageQueueStatistics_new_def FromKey_def ToUInt64_def GetBytes_def Let_def upt_rec)

lemma sample_queue_ok: "queue_ok rbt_ops True sample_queue"
  unfolding sample_queue_def
  by (rule rocksdb.Initialize_any [OF ref_store.rocksdb_axioms])
    (auto simp: SingleMessageQueueServer_new_def subs_ok_def MessageQueueStatistics_new_def db_ok_def)

lemma sample_ephemeral_ok: "queue_ok rbt_ops True sample_ephemeral"
  by (auto simp: sample_ephemeral_def queue_ok_def subs_ok_def buffer_ok_def ephemeral_ok_def persistent_ok_def dict_ok_def
      CMqQueueConfiguration_empty_def MessageQueueStatistics_new_def wrap_i32_def sample_message_def
      EnqueuedMessage_new_def CMqSubscriberDescriptor_new_def)

lemma sample_config_ok: "config_ok sample_config"
  by (simp add: sample_config_def config_ok_def valid_name_iff is_white_def InvalidQueueNameChars_def)

end
