(* ===== verification/Queue_Properties.thy ===== *)
theory Queue_Properties
  imports Sample_Broker
begin

text \<open>The properties of one queue, each with a run of it on a concrete queue.\<close>

section \<open>The queue as an ordered list\<close>

text \<open>C4. Enqueuing appends: an accepted message comes after everything pending, wherever the queue keeps its messages.\<close>

theorem enqueue_appends:
  assumes "rocksdb ops" "queue_ok ops le q" "lastSerialNumber (Statistics q) \<noteq> - 1"
    "snd (queue_enqueue ops le e q) = Inr ()"
  shows "pending ops (fst (queue_enqueue ops le e q)) =
     pending ops q @ [Serialize (enqueued_message q e (lastSerialNumber (Statistics q) + 1))]"
  using rocksdb.pending_enqueue [OF assms] .

theorem enqueue_appends_witness:
  "pending rbt_ops (fst (queue_enqueue rbt_ops True sample_args sample_queue)) =
     pending rbt_ops sample_queue @ [Serialize (enqueued_message sample_queue sample_args (lastSerialNumber (Statistics sample_queue) + 1))]"
  by (rule enqueue_appends [OF ref_store.rocksdb_axioms sample_queue_ok])
    (simp_all add: sample_queue_facts queue_enqueue_def place_message_def Let_def GetNextSerialNumber_def)

text \<open>C12. Disposing of a message takes exactly that message out, in memory and on disk, and the depth gauge follows.\<close>

theorem removal_takes_one_out:
  assumes "rocksdb ops" "queue_ok ops le q" "i \<in> set (buffer q)" "is_persistent q \<Longrightarrow> database q \<noteq> None"
  shows "pending ops (remove_message ops le i q) = filter (\<lambda>m. doc_serial m \<noteq> Some (serial q i)) (pending ops q)
     \<and> QueueDepth (Statistics (remove_message ops le i q)) = wrap_i32 (int (length (pending ops q)) - 1)"
  using rocksdb.pending_remove [OF assms(1-3)] rocksdb.pending_depth [OF assms(1,2,4)]
  by (simp add: DecrementQueueDepth_def wrap_i32_diff)

theorem removal_takes_one_out_witness:
  "pending rbt_ops (remove_message rbt_ops True 0 sample_ephemeral) =
     filter (\<lambda>m. doc_serial m \<noteq> Some (serial sample_ephemeral 0)) (pending rbt_ops sample_ephemeral)
   \<and> QueueDepth (Statistics (remove_message rbt_ops True 0 sample_ephemeral)) =
     wrap_i32 (int (length (pending rbt_ops sample_ephemeral)) - 1)"
  by (rule removal_takes_one_out [OF ref_store.rocksdb_axioms sample_ephemeral_ok])
    (simp_all add: sample_ephemeral_def CMqQueueConfiguration_empty_def)

text \<open>C10. The delivery thread takes the oldest message it may deliver, and none beyond the limit on deliveries in flight.\<close>

theorem selection_is_first_in_first_out:
  assumes "buffer_ok q" "SelectTopMessage now q = Some i"
  shows "i \<in> set (buffer q) \<and> deliverable now (q_objects q i)
     \<and> (\<forall>j \<in> set (buffer q). deliverable now (q_objects q j) \<longrightarrow> serial q i \<le> serial q j)
     \<and> OutstandingDeliveries (Statistics q) < MaxOutstandingDeliveries (Configuration q) \<and> Subscribers q \<noteq> []"
proof -
  have first: "find P xs = Some x \<Longrightarrow> sorted_wrt (\<lambda>a b. f a < f b) xs \<Longrightarrow> y \<in> set xs \<Longrightarrow> P y \<Longrightarrow> f x \<le> f y"
    for P xs x y and f :: "oid \<Rightarrow> u64"
    by (induction xs) (auto split: if_splits)
  have "sorted_wrt (\<lambda>a b. serial q a < serial q b) (buffer q)"
    using assms(1) by (simp add: buffer_ok_def sorted_wrt_map)
  then show ?thesis
    using assms(2) first [of "\<lambda>i. deliverable now (q_objects q i)" "buffer q" i "serial q"]
    by (auto simp: SelectTopMessage_def dest: find_Some_mem split: if_splits)
qed

theorem selection_is_first_in_first_out_witness:
  "deliverable 100 (q_objects sample_ephemeral 0) \<and> serial sample_ephemeral 0 \<le> serial sample_ephemeral 1
     \<and> OutstandingDeliveries (Statistics sample_ephemeral) < MaxOutstandingDeliveries (Configuration sample_ephemeral)"
proof -
  have "SelectTopMessage 100 sample_ephemeral = Some 0" "deliverable 100 (q_objects sample_ephemeral 1)"
    "1 \<in> set (buffer sample_ephemeral)"
    by (simp_all add: SelectTopMessage_def deliverable_def sample_ephemeral_def CMqQueueConfiguration_empty_def
       MessageQueueStatistics_new_def sample_message_def EnqueuedMessage_new_def)
  then show ?thesis
    using selection_is_first_in_first_out [of sample_ephemeral 100 0] sample_ephemeral_ok by (simp add: queue_ok_def)
qed

text \<open>
  C11. Rehydration loads the next stored messages in order, without gaps or repetitions, up to the
  number asked for, and keeps the queue well formed.
\<close>

theorem hydration_loads_the_next:
  assumes "rocksdb ops" "queue_ok ops le q" "is_persistent q" "database q = Some d"
    "lastSerialNumber (Statistics q) \<noteq> - 1"
  shows "\<exists>q'. HydrateMessageBuffer ops le gen n True q = (q', Inr True) \<and> queue_ok ops le q'
     \<and> map (serial q') (buffer q') = map (serial q) (buffer q) @ take n (map (entry_serial le) (pending_entries ops le q d))"
  using rocksdb.Hydrate_ok [OF assms] .

theorem hydration_loads_the_next_witness:
  "\<exists>q'. HydrateMessageBuffer rbt_ops True (\<lambda>_. 1) 10 True sample_queue = (q', Inr True) \<and> queue_ok rbt_ops True q'
     \<and> map (serial q') (buffer q') = map (serial sample_queue) (buffer sample_queue)
          @ take 10 (map (entry_serial True) (pending_entries rbt_ops True sample_queue RBT.empty))"
  by (rule hydration_loads_the_next [OF ref_store.rocksdb_axioms sample_queue_ok])
    (simp_all add: sample_queue_facts sample_config_def)

section \<open>Deliveries in flight\<close>

text \<open>A run used by the witnesses: one message enqueued.\<close>

definition sample_machine :: "rbt_db machine" where
  "sample_machine = (initial_machine sample_queue)\<lparr>mc_queue :=
     fst (queue_enqueue rbt_ops True sample_args (mc_queue (initial_machine sample_queue)))\<rparr>"

lemma sample_machine_reachable: "reachable rbt_ops True (initial_machine sample_queue) sample_machine"
  unfolding sample_machine_def
  by (rule reachable.r_step [OF reachable.r_start ms_enqueue]) (simp add: initial_machine_def sample_queue_facts)

text \<open>
  C2. However operations, deliveries and replies interleave, no message is out for delivery twice,
  every message marked as out is with a delivery, and the gauge of outstanding deliveries counts them.
\<close>

theorem one_delivery_per_message:
  assumes "rocksdb ops" "queue_ok ops le q" "buffer q = []" "OutstandingDeliveries (Statistics q) = 0"
    "reachable ops le (initial_machine q) s"
  shows "distinct (map dt_msg (mc_tasks s))
     \<and> (\<forall>t \<in> set (mc_tasks s). em_State (q_objects (mc_queue s) (dt_msg t)) = OutForDelivery)
     \<and> (\<forall>i \<in> set (buffer (mc_queue s)). em_State (q_objects (mc_queue s) i) = OutForDelivery
          \<longrightarrow> i \<in> dt_msg ` set (mc_tasks s))
     \<and> OutstandingDeliveries (Statistics (mc_queue s)) = wrap_i32 (int (length (mc_tasks s)))"
  using rocksdb.reachable_ok [OF assms(1,5) initial_ok [OF assms(2-4)]]
  by (simp add: machine_ok_def task_ok_def)

text \<open>C9. Never more deliveries in flight than the configuration allows.\<close>

theorem deliveries_within_limit:
  assumes "rocksdb ops" "queue_ok ops le q" "buffer q = []" "OutstandingDeliveries (Statistics q) = 0"
    "reachable ops le (initial_machine q) s" "MaxOutstandingDeliveries (Configuration q) < 2147483648"
  shows "int (length (mc_tasks s)) \<le> max 0 (MaxOutstandingDeliveries (Configuration q))"
  using rocksdb.outstanding_bound [OF assms(1,5) initial_ok [OF assms(2-4)]] assms(6)
  by (auto simp: initial_machine_def)

theorem deliveries_within_limit_witness:
  "int (length (mc_tasks sample_machine)) \<le> max 0 (MaxOutstandingDeliveries (Configuration sample_queue))"
  by (rule deliveries_within_limit [OF ref_store.rocksdb_axioms sample_queue_ok _ _ sample_machine_reachable])
    (simp_all add: sample_queue_facts sample_config_def CMqQueueConfiguration_empty_def)

text \<open>
  A subscriber that is satisfied with a message, or has used up its attempts, is not sent it
  again, and no subscriber comes twice in one round.
\<close>

theorem served_subscribers_are_left_alone:
  assumes "rocksdb ops" "queue_ok ops le q" "buffer q = []" "OutstandingDeliveries (Statistics q) = 0"
    "reachable ops le (initial_machine q) s" "t \<in> set (mc_tasks s)" "dt_phase t = Between (sub # subs)"
  shows "desc_id (mc_queue s) sub \<notin> completedIDs (q_objects (mc_queue s) (dt_msg t))
     \<and> desc_id (mc_queue s) sub \<notin> desc_id (mc_queue s) ` set subs"
  using rocksdb.reachable_ok [OF assms(1,5) initial_ok [OF assms(2-4)]] assms(6,7)
  by (auto simp: machine_ok_def task_ok_def)

text \<open>A run to a delivery about to be made: subscribe, enqueue, take, start.\<close>

definition idle_queue :: "rbt_db queue" where
  "idle_queue = (SingleMessageQueueServer_new (CMqQueueConfiguration_empty\<lparr>cfg_queueName := Some ''Jobs'',
     PathPart := Some ''Jobs'', DeliveryScheme := Balanced\<rparr>))\<lparr>q_isRunning := True\<rparr>"

definition run1 :: "rbt_db machine" where
  "run1 = (initial_machine idle_queue)\<lparr>mc_queue := queue_subscribe 1 None None (mc_queue (initial_machine idle_queue))\<rparr>"

definition run2 :: "rbt_db machine" where
  "run2 = run1\<lparr>mc_queue := fst (queue_enqueue rbt_ops True sample_args (mc_queue run1))\<rparr>"

definition run3 :: "rbt_db machine" where
  "run3 = take_top 1 run2"

definition run4 :: "rbt_db machine" where
  "run4 = start_task (\<lambda>_. 0) 0 run3"

lemmas run_defs = run4_def run3_def run2_def run1_def idle_queue_def initial_machine_def sample_args_def
  SingleMessageQueueServer_new_def CMqQueueConfiguration_empty_def MessageQueueStatistics_new_def

lemma idle_ok: "queue_ok rbt_ops True idle_queue" "buffer idle_queue = []" "OutstandingDeliveries (Statistics idle_queue) = 0"
  by (simp_all add: idle_queue_def SingleMessageQueueServer_new_def queue_ok_def subs_ok_def buffer_ok_def ephemeral_ok_def
      persistent_ok_def MessageQueueStatistics_new_def CMqQueueConfiguration_empty_def)

lemma run2_queue:
  "mc_queue run2 = (queue_subscribe 1 None None idle_queue)\<lparr>
     EnqueuedMessages := \<lparr>MessageBuffer = [1], Database = None\<rparr>,
     Statistics := MessageQueueStatistics_new\<lparr>lastSerialNumber := 1, QueueDepth := 1, ReceivedMessageCount := 1\<rparr>,
     q_objects := (q_objects idle_queue)(1 := enqueued_message (queue_subscribe 1 None None idle_queue) sample_args 1),
     q_next := 2, q_event := True\<rparr>" "mc_tasks run2 = []"
  by (simp_all add: run_defs queue_subscribe_def queue_enqueue_def place_message_def Let_def GetNextSerialNumber_def
      count_received_def queue_update_defs stat_defs wrap_i32_def)

lemma run4_reachable: "reachable rbt_ops True (initial_machine idle_queue) run4"
proof -
  have 1: "reachable rbt_ops True (initial_machine idle_queue) run1"
    unfolding run1_def by (rule reachable.r_step [OF reachable.r_start ms_subscribe])
  have 2: "reachable rbt_ops True (initial_machine idle_queue) run2"
    unfolding run2_def
    by (rule reachable.r_step [OF 1 ms_enqueue])
      (simp add: run1_def initial_machine_def idle_queue_def queue_subscribe_def SingleMessageQueueServer_new_def
        MessageQueueStatistics_new_def)
  have 3: "reachable rbt_ops True (initial_machine idle_queue) run3"
    unfolding run3_def
    by (rule reachable.r_step [OF 2 ms_take [of 100]])
      (simp add: run2_queue SelectTopMessage_def queue_subscribe_def idle_queue_def SingleMessageQueueServer_new_def
        MessageQueueStatistics_new_def CMqQueueConfiguration_empty_def deliverable_def enqueued_message_def
        EnqueuedMessage_new_def sample_args_def)
  show ?thesis
    unfolding run4_def
    by (rule reachable.r_step [OF 3 ms_start]) (simp_all add: run3_def take_top_def run2_queue)
qed

lemma run4_phase: "\<lparr>dt_msg = 1, dt_phase = Between [0], dt_attempted = {1}, dt_failed = {}\<rparr> \<in> set (mc_tasks run4)"
  by (simp add: run4_def run3_def start_task_def set_task_def take_top_def run2_queue SubscriberDispositions_new_def Let_def
      begin_delivery_def queue_subscribe_def idle_queue_def SingleMessageQueueServer_new_def CMqQueueConfiguration_empty_def
      completedIDs_def enqueued_message_def EnqueuedMessage_new_def CMqSubscriberDescriptor_new_def)

theorem one_delivery_per_message_witness:
  "distinct (map dt_msg (mc_tasks run4)) \<and> em_State (q_objects (mc_queue run4) 1) = OutForDelivery
     \<and> OutstandingDeliveries (Statistics (mc_queue run4)) = wrap_i32 (int (length (mc_tasks run4)))"
  using one_delivery_per_message [OF ref_store.rocksdb_axioms idle_ok run4_reachable] run4_phase by force

theorem served_subscribers_are_left_alone_witness:
  "desc_id (mc_queue run4) 0 \<notin> completedIDs (q_objects (mc_queue run4) 1)
     \<and> desc_id (mc_queue run4) 0 \<notin> desc_id (mc_queue run4) ` set []"
  using served_subscribers_are_left_alone [OF ref_store.rocksdb_axioms idle_ok run4_reachable run4_phase] by simp

end
