(* ===== verification/Delivery_Properties.thy ===== *)
theory Delivery_Properties
  imports Sample_Broker
begin

text \<open>The properties of one round of deliveries, each with a run of it on a concrete queue.\<close>

lemma fst_round:
  "sd_Remaining (SubscriberDispositions_new rnd q (q_objects q msg)) \<noteq> [] \<Longrightarrow>
     fst (DistributeToSubscribersWithDisposition ops le rnd now client msg q) =
     fst (distribute_loop ops le now client msg (sd_Remaining (SubscriberDispositions_new rnd q (q_objects q msg))) {} q)"
  by (simp add: DistributeToSubscribersWithDisposition_def Let_def split: prod.splits option.splits)

text \<open>Who reaches the attempt limit, read off the remaining subscribers.\<close>

lemma round_limits:
  assumes "q_isRunning q" "subs_ok q"
    "loop_verdict (ConsumptionScheme (Configuration q)) answer (remaining_ids rnd q (q_objects q msg)) = None"
  shows "em_DeliveryLimitReachedSubscriberIDs (q_objects (fst (distribute_loop ops le now (\<lambda>g _. answer g) msg
       (sd_Remaining (SubscriberDispositions_new rnd q (q_objects q msg))) {} q)) msg) =
     em_DeliveryLimitReachedSubscriberIDs (q_objects q msg)
       \<union> {g \<in> set (remaining_ids rnd q (q_objects q msg)). last_attempt q msg g \<and> \<not> is_satisfied (answer g)}"
proof -
  let ?rs = "sd_Remaining (SubscriberDispositions_new rnd q (q_objects q msg))"
  have "distinct (map (\<lambda>i. SubscriberId (q_descriptors q i)) ?rs)"
    using remaining_ids_facts(2) [OF assms(2)] by (simp add: remaining_ids_def)
  moreover have "\<forall>i \<in> set ?rs. SubscriberId (q_descriptors q i) \<notin> em_SatisfiedDeliverySubscriberIDs (q_objects q msg)"
    using remaining_ids_facts(1) [OF assms(2), of rnd "q_objects q msg"]
    by (fastforce simp: remaining_ids_def completedIDs_def)
  ultimately show ?thesis
    using distribute_loop_limits [OF assms(1)] assms(3) by (simp add: remaining_ids_def)
qed

section \<open>The verdict\<close>

text \<open>
  C3. One round decides as specified: the first decisive answer wins; with none, the message is
  given up when every subscriber is satisfied or out of attempts, dead-lettered if one is
  unsatisfied and a dead-letter queue is configured, and kept otherwise.
\<close>

theorem round_decides:
  assumes "q_isRunning q" "subs_ok q" "sd_Remaining (SubscriberDispositions_new rnd q (q_objects q msg)) \<noteq> []"
  shows "snd (DistributeToSubscribersWithDisposition ops le rnd now (\<lambda>g _. answer g) msg q) =
     round_verdict (Configuration q) answer (last_attempt q msg)
       (em_DeliveryLimitReachedSubscriberIDs (q_objects q msg)) (remaining_ids rnd q (q_objects q msg))"
  using round_refines [OF assms] .

definition sample_answer :: "guid \<Rightarrow> delivery_outcome" where
  "sample_answer g = (if g = 1 then Delivered Consumed_result else DeliveryFailed)"

lemma sample_running: "q_isRunning sample_ephemeral" "subs_ok sample_ephemeral"
  using sample_ephemeral_ok by (simp_all add: sample_ephemeral_def queue_ok_def)

lemma sample_remaining:
  "sd_Remaining (SubscriberDispositions_new rnd sample_ephemeral (q_objects sample_ephemeral 0)) = [2, 3]"
  "remaining_ids rnd sample_ephemeral (q_objects sample_ephemeral 0) = [1, 5]"
  by (simp_all add: remaining_ids_def SubscriberDispositions_new_def sample_ephemeral_def completedIDs_def Let_def
      sample_message_def EnqueuedMessage_new_def CMqSubscriberDescriptor_new_def)

theorem round_decides_witness:
  "snd (DistributeToSubscribersWithDisposition rbt_ops True (\<lambda>_. 0) 100 (\<lambda>g _. sample_answer g) 0 sample_ephemeral) = DeadLetter"
  using round_decides [OF sample_running, of "\<lambda>_. 0" 0 rbt_ops True 100 sample_answer]
  by (simp add: sample_remaining round_verdict_def sample_answer_def decisive_def is_failed_def is_satisfied_def
      last_attempt_def attempts_of_def consume_result_defs wrap_i32_def)
    (simp add: sample_ephemeral_def CMqQueueConfiguration_empty_def sample_message_def EnqueuedMessage_new_def)

text \<open>
  Where the first consumer wins, the message is dropped from the queue with its answer, and
  the subscribers behind it are neither tried nor charged an attempt.
\<close>

theorem first_consumer_wins:
  assumes "q_isRunning q" "subs_ok q" "ConsumptionScheme (Configuration q) = FirstConsumedSubscriber"
    "remaining_ids rnd q (q_objects q msg) = pre @ g # post"
    "\<forall>h \<in> set pre. decisive FirstConsumedSubscriber (answer h) = None" "is_consumed (answer g)"
  shows "snd (DistributeToSubscribersWithDisposition ops le rnd now (\<lambda>g _. answer g) msg q) = Drop
     \<and> g \<in> em_ConsumedDeliverySubscriberIDs
          (q_objects (fst (DistributeToSubscribersWithDisposition ops le rnd now (\<lambda>g _. answer g) msg q)) msg)
     \<and> (\<forall>h \<in> set post. attempts_of (fst (DistributeToSubscribersWithDisposition ops le rnd now (\<lambda>g _. answer g) msg q)) msg h
          = attempts_of q msg h)"
proof -
  let ?rs = "sd_Remaining (SubscriberDispositions_new rnd q (q_objects q msg))"
  have some: "?rs \<noteq> []" using assms(4) by (auto simp: remaining_ids_def)
  have dec: "decisive FirstConsumedSubscriber (answer g) = Some Drop"
    using assms(6) by (auto simp: decisive_def is_consumed_def split: delivery_outcome.splits)
  note first = tried_first [OF assms(5) dec, of post]
  have ids: "map (\<lambda>i. SubscriberId (q_descriptors q i)) ?rs = pre @ g # post"
    using assms(4) by (simp add: remaining_ids_def)
  have dist: "distinct (pre @ g # post)" using remaining_ids_facts(2) [OF assms(2)] assms(4) by metis
  have "snd (DistributeToSubscribersWithDisposition ops le rnd now (\<lambda>g _. answer g) msg q) = Drop"
    using round_refines [OF assms(1,2) some, of ops le now answer] first assms(3,4) by (simp add: round_verdict_def)
  moreover have "g \<in> em_ConsumedDeliverySubscriberIDs (q_objects (fst (distribute_loop ops le now (\<lambda>g _. answer g) msg ?rs {} q)) msg)"
    using distribute_loop_effect [OF assms(1), of ?rs answer ops le now msg "{}"] first assms(3,6)
    unfolding Let_def ids by simp
  moreover have "attempts_of (fst (distribute_loop ops le now (\<lambda>g _. answer g) msg ?rs {} q)) msg h = attempts_of q msg h"
    if "h \<in> set post" for h
    using distribute_loop_attempts [OF assms(1), of ?rs ops le now answer msg "{}" h] first dist that assms(3)
    unfolding ids by auto
  ultimately show ?thesis by (simp add: fst_round [OF some])
qed

definition first_consumer_queue :: "rbt_db queue" where
  "first_consumer_queue = sample_ephemeral\<lparr>Configuration :=
     (Configuration sample_ephemeral)\<lparr>ConsumptionScheme := FirstConsumedSubscriber\<rparr>\<rparr>"

theorem first_consumer_wins_witness:
  "snd (DistributeToSubscribersWithDisposition rbt_ops True (\<lambda>_. 0) 100 (\<lambda>g _. sample_answer g) 0 first_consumer_queue) = Drop"
proof -
  have "remaining_ids (\<lambda>_. 0) first_consumer_queue (q_objects first_consumer_queue 0) = [] @ 1 # [5]"
    by (simp add: first_consumer_queue_def remaining_ids_def SubscriberDispositions_new_def sample_ephemeral_def completedIDs_def
        Let_def sample_message_def EnqueuedMessage_new_def CMqSubscriberDescriptor_new_def)
  moreover have "q_isRunning first_consumer_queue" "subs_ok first_consumer_queue"
    using sample_running by (simp_all add: first_consumer_queue_def subs_ok_def)
  ultimately show ?thesis
    using first_consumer_wins [of first_consumer_queue "\<lambda>_. 0" 0 "[]" 1 "[5]" sample_answer rbt_ops True 100]
    by (simp add: first_consumer_queue_def sample_answer_def is_consumed_def consume_result_defs)
qed

section \<open>The attempt limit\<close>

text \<open>
  A subscriber whose last allowed attempt did not satisfy it is retired: it is among the
  completed subscribers of the message after the round, so no later round tries it.
\<close>

theorem exhausted_subscribers_are_retired:
  assumes "q_isRunning q" "subs_ok q"
    "loop_verdict (ConsumptionScheme (Configuration q)) answer (remaining_ids rnd q (q_objects q msg)) = None"
    "g \<in> set (remaining_ids rnd q (q_objects q msg))" "last_attempt q msg g" "\<not> is_satisfied (answer g)"
  shows "g \<in> completedIDs (q_objects (fst (DistributeToSubscribersWithDisposition ops le rnd now (\<lambda>g _. answer g) msg q)) msg)"
proof -
  have some: "sd_Remaining (SubscriberDispositions_new rnd q (q_objects q msg)) \<noteq> []"
    using assms(4) by (auto simp: remaining_ids_def)
  show ?thesis
    using round_limits [OF assms(1-3), of ops le now] assms(4-6) by (simp add: fst_round [OF some] completedIDs_def)
qed

theorem exhausted_subscribers_are_retired_witness:
  "5 \<in> completedIDs (q_objects (fst (DistributeToSubscribersWithDisposition rbt_ops True (\<lambda>_. 0) 100
     (\<lambda>g _. sample_answer g) 0 sample_ephemeral)) 0)"
  by (rule exhausted_subscribers_are_retired [OF sample_running])
    (simp_all add: sample_remaining sample_answer_def decisive_def is_satisfied_def last_attempt_def attempts_of_def
      consume_result_defs wrap_i32_def, simp_all add: sample_ephemeral_def CMqQueueConfiguration_empty_def
      sample_message_def EnqueuedMessage_new_def)

text \<open>
  C19. When every remaining subscriber fails its last attempt, the round keeps the message ready
  although nobody is left to try; the next round meets the branch its comment calls unreachable,
  and drops the message if anyone ever consumed it, even where a dead-letter queue is configured.
\<close>

theorem failed_last_attempts_meet_the_unreachable_branch:
  assumes "q_isRunning q" "subs_ok q" "remaining_ids rnd q (q_objects q msg) \<noteq> []"
    "\<forall>g \<in> set (remaining_ids rnd q (q_objects q msg)). is_failed (answer g) \<and> last_attempt q msg g"
  shows "let r = DistributeToSubscribersWithDisposition ops le rnd now (\<lambda>g _. answer g) msg q
     in snd r = Ready \<and> sd_Remaining (SubscriberDispositions_new rnd' (fst r) (q_objects (fst r) msg)) = []
      \<and> snd (DistributeToSubscribersWithDisposition ops le rnd' now' client' msg (fst r))
          = (if em_ConsumedDeliverySubscriberIDs (q_objects q msg) \<noteq> {} then Drop else DeadLetter)"
proof -
  let ?rs = "remaining_ids rnd q (q_objects q msg)"
  let ?subs = "sd_Remaining (SubscriberDispositions_new rnd q (q_objects q msg))"
  let ?q' = "fst (DistributeToSubscribersWithDisposition ops le rnd now (\<lambda>g _. answer g) msg q)"
  have some: "?subs \<noteq> []" using assms(3) by (auto simp: remaining_ids_def)
  have fail: "decisive scheme (answer g) = None" "\<not> is_satisfied (answer g)" "\<not> is_consumed (answer g)"
    if "g \<in> set ?rs" for g scheme
    using assms(4) that
    by (auto simp: is_failed_def decisive_def is_satisfied_def is_consumed_def split: delivery_outcome.splits)
  have lv: "loop_verdict (ConsumptionScheme (Configuration q)) answer ?rs = None"
    using fail(1) by (simp add: loop_verdict_None)
  have ready: "snd (DistributeToSubscribersWithDisposition ops le rnd now (\<lambda>g _. answer g) msg q) = Ready"
    using round_refines [OF assms(1,2) some, of ops le now answer] lv assms(4) by (simp add: round_verdict_def)
  have q': "?q' = fst (distribute_loop ops le now (\<lambda>g _. answer g) msg ?subs {} q)" by (rule fst_round [OF some])
  have eff: "Subscribers ?q' = Subscribers q"
      "em_ConsumedDeliverySubscriberIDs (q_objects ?q' msg) = em_ConsumedDeliverySubscriberIDs (q_objects q msg)"
      "em_SatisfiedDeliverySubscriberIDs (q_objects ?q' msg) = em_SatisfiedDeliverySubscriberIDs (q_objects q msg)"
    using distribute_loop_effect [OF assms(1), of ?subs answer ops le now msg "{}"] fail tried_all [OF lv]
    unfolding q' Let_def by (auto simp: remaining_ids_def)
  have "em_DeliveryLimitReachedSubscriberIDs (q_objects ?q' msg) = em_DeliveryLimitReachedSubscriberIDs (q_objects q msg) \<union> set ?rs"
    using round_limits [OF assms(1,2) lv, of ops le now] assms(4) fail(2) unfolding q' by auto
  then have "fst ` set (Subscribers ?q') \<subseteq> completedIDs (q_objects ?q' msg)"
    using eff remaining_ids_facts(1) [OF assms(2), of rnd "q_objects q msg"] by (auto simp: completedIDs_def)
  then have empty: "sd_Remaining (SubscriberDispositions_new rnd' ?q' (q_objects ?q' msg)) = []"
    by (simp add: Remaining_empty)
  then show ?thesis
    using ready eff(2)
    by (simp add: Let_def DistributeToSubscribersWithDisposition_def [of ops le rnd' now' client']
        no_remaining_verdict_def SubscriberDispositions_new_def)
qed

definition consumed_once_queue :: "rbt_db queue" where
  "consumed_once_queue = sample_ephemeral\<lparr>q_objects := (\<lambda>_. (sample_message 1)
     \<lparr>em_SatisfiedDeliverySubscriberIDs := {1}, em_ConsumedDeliverySubscriberIDs := {1}\<rparr>)\<rparr>"

theorem failed_last_attempts_meet_the_unreachable_branch_witness:
  "let r = DistributeToSubscribersWithDisposition rbt_ops True (\<lambda>_. 0) 100 (\<lambda>g _. DeliveryFailed) 0 consumed_once_queue
   in snd r = Ready \<and> DeadLetterConfiguration (Configuration consumed_once_queue) \<noteq> None
    \<and> snd (DistributeToSubscribersWithDisposition rbt_ops True (\<lambda>_. 0) 200 (\<lambda>g _. DeliveryFailed) 0 (fst r)) = Drop"
proof -
  have rem: "remaining_ids (\<lambda>_. 0) consumed_once_queue (q_objects consumed_once_queue 0) = [5]"
    by (simp add: consumed_once_queue_def remaining_ids_def SubscriberDispositions_new_def sample_ephemeral_def completedIDs_def
        Let_def sample_message_def EnqueuedMessage_new_def CMqSubscriberDescriptor_new_def)
  have run: "q_isRunning consumed_once_queue" "subs_ok consumed_once_queue"
    using sample_running by (simp_all add: consumed_once_queue_def subs_ok_def)
  have last: "last_attempt consumed_once_queue 0 5"
    by (simp add: last_attempt_def attempts_of_def consumed_once_queue_def sample_ephemeral_def sample_message_def
        EnqueuedMessage_new_def CMqQueueConfiguration_empty_def wrap_i32_def)
  show ?thesis
    using failed_last_attempts_meet_the_unreachable_branch [OF run, of "\<lambda>_. 0" 0 "\<lambda>_. DeliveryFailed" rbt_ops True 100 "\<lambda>_. 0" 200
        "\<lambda>_ _. DeliveryFailed"] rem last
    by (simp add: Let_def is_failed_def) (simp add: consumed_once_queue_def sample_ephemeral_def CMqQueueConfiguration_empty_def)
qed

end
