(* ===== verification/Server_Properties.thy ===== *)
theory Server_Properties
  imports Sample_Broker
begin

text \<open>The properties of the whole broker, each with a run of it on a concrete server.\<close>

section \<open>Sample servers\<close>

text \<open>A running server with an ephemeral queue, one message of which is to be dead-lettered, and its dead-letter queue.\<close>

definition dead_queue :: "rbt_db queue" where
  "dead_queue = sample_ephemeral\<lparr>q_objects := (\<lambda>i. (sample_message (if i = 0 then 1 else 2))
     \<lparr>em_State := if i = 0 then DeadLetter else Ready\<rparr>)\<rparr>"

definition dlq_config :: CMqQueueConfiguration where
  "dlq_config = CMqQueueConfiguration_empty\<lparr>cfg_queueName := Some ''Jobs.dlq'', PathPart := Some ''Jobs.dlq'', IsDeadLetter := True\<rparr>"

definition dead_server :: "rbt_db server" where
  "dead_server = (CMqServer_new None)\<lparr>s_isRunning := True,
     messageQueues := [(''jobs'', dead_queue), (''jobs.dlq'', SingleMessageQueueServer_new dlq_config)]\<rparr>"

text \<open>A running server with a persistent queue whose dead-letter queue is ephemeral.\<close>

definition order_server :: "rbt_db server" where
  "order_server = (CMqServer_new (Some ''data''))\<lparr>s_isRunning := True, messageQueues := [(''orders'', sample_queue)]\<rparr>"

definition go :: attempt where
  "go = \<lparr>at_running = True, at_tick = 0, at_lock = (\<lambda>_. True)\<rparr>"

definition halted :: attempt where
  "halted = \<lparr>at_running = False, at_tick = 0, at_lock = (\<lambda>_. True)\<rparr>"

lemma lower_names: "ToLowerInvariant ''Jobs'' = ''jobs''" "ToLowerInvariant ''Jobs.dlq'' = ''jobs.dlq''"
  "ToLowerInvariant ''Orders'' = ''orders''" "ToLowerInvariant ''ORDERS'' = ''orders''"
  "ToLowerInvariant ''Orders.dlq'' = ''orders.dlq''"
  by code_simp+

lemma dead_queue_ok: "queue_ok rbt_ops True dead_queue"
  by (auto simp: dead_queue_def sample_ephemeral_def queue_ok_def subs_ok_def buffer_ok_def ephemeral_ok_def persistent_ok_def
      dict_ok_def CMqQueueConfiguration_empty_def MessageQueueStatistics_new_def wrap_i32_def sample_message_def
      EnqueuedMessage_new_def CMqSubscriberDescriptor_new_def)

lemma dead_server_ok: "server_ok sample_env dead_server"
  using dead_queue_ok queue_ok_new [of rbt_ops True dlq_config]
  by (auto simp: server_ok_def registry_ok_def disk_ok_def dead_server_def CMqServer_new_def dict_ok_def entry_key_ok_def
      sample_env_def config_ok_def valid_name_iff is_white_def InvalidQueueNameChars_def queue_name_def lower_names)
    (auto simp: dead_queue_def sample_ephemeral_def dlq_config_def SingleMessageQueueServer_new_def CMqQueueConfiguration_empty_def
      valid_name_iff is_white_def InvalidQueueNameChars_def lower_names)

lemma order_server_ok: "server_ok sample_env order_server"
  using sample_queue_ok sample_config_ok
  by (auto simp: server_ok_def registry_ok_def disk_ok_def order_server_def CMqServer_new_def dict_ok_def entry_key_ok_def
      sample_env_def sample_queue_facts queue_name_def)
    (simp add: sample_config_def lower_names)

section \<open>The invariant of the broker\<close>

text \<open>
  C1. In every reachable state of a broker each queue is registered once, under its lower-case
  name; its messages are in strict order of their serial numbers; its depth gauge is their number.
\<close>

theorem broker_invariant:
  assumes "env_ok env" "sreachable env (CMqServer_new path) s" "find_queue key s = Some q"
  shows "key = ToLowerInvariant (queue_name (Configuration q)) \<and> config_ok (Configuration q)
     \<and> distinct (map fst (messageQueues s))
     \<and> sorted_wrt (\<lambda>m m'. the (doc_serial m) < the (doc_serial m')) (pending (env_ops env) q)
     \<and> (is_persistent q \<and> database q = None \<or> QueueDepth (Statistics q) = wrap_i32 (int (length (pending (env_ops env) q))))"
proof -
  have ok: "server_ok env s" by (rule sreachable_ok [OF assms(2,1)]) simp
  have q: "queue_ok (env_ops env) (env_le env) q" by (rule server_ok_find [OF ok assms(3)])
  have "entry_key_ok (key, q)" "dict_ok (messageQueues s)"
    using ok find_queue_in [OF assms(3)] by (auto simp: server_ok_def registry_ok_def)
  then show ?thesis
    using rocksdb.pending_sorted [OF env_rocks [OF assms(1)] q] rocksdb.pending_depth [OF env_rocks [OF assms(1)] q]
    by (cases "is_persistent q \<and> database q = None") (simp_all add: entry_key_ok_def dict_ok_def)
qed

definition jobs_config :: CMqQueueConfiguration where
  "jobs_config = CMqQueueConfiguration_empty\<lparr>cfg_queueName := Some ''Jobs'', PathPart := Some ''Jobs''\<rparr>"

definition created_server :: "rbt_db server" where
  "created_server = fst (CreateQueue sample_env jobs_config (CMqServer_new None))"

lemma jobs_config_ok: "config_ok jobs_config" "named_ok jobs_config"
  by (simp_all add: jobs_config_def named_ok_def config_ok_def valid_name_iff is_white_def InvalidQueueNameChars_def)

lemma jobs_creatable: "creatable sample_env jobs_config ''Jobs'' (CMqServer_new None)"
  by (simp add: creatable_def jobs_config_def QueueName_get_def CMqServer_new_def new_queue_def
      InitializePersistentDatabase_def SingleMessageQueueServer_new_def CMqQueueConfiguration_empty_def)

lemma not_dlq_names: "\<not> EndsWith (ToLowerInvariant ''Jobs'') ''.dlq''" "\<not> EndsWith (ToLowerInvariant ''Orders'') ''.dlq''"
  by code_simp+

lemma created_queue:
  "CreateQueue sample_env jobs_config (CMqServer_new None) = (created_server, Inr ())"
  "find_queue ''jobs'' created_server = Some (Start_queue (new_queue sample_env jobs_config (CMqServer_new None)))"
proof -
  have "CreateQueueInternal sample_env jobs_config (CMqServer_new None) =
      (put_queue ''jobs'' (Start_queue (new_queue sample_env jobs_config (CMqServer_new None)))
        ((CMqServer_new None)\<lparr>messageQueues := [(''jobs'', new_queue sample_env jobs_config (CMqServer_new None))]\<rparr>), Inr ())"
    unfolding create_unfold [OF jobs_creatable]
    by (simp add: publish_def create_companion_def CheckpointPersistentMessageQueues_def IsNullOrEmpty_def lower_names
        CMqServer_new_def jobs_config_def CMqQueueConfiguration_empty_def)
  moreover have "CreateQueue sample_env jobs_config (CMqServer_new None) = CreateQueueInternal sample_env jobs_config (CMqServer_new None)"
    using not_dlq_names(1) by (simp add: CreateQueue_def jobs_config_def QueueName_get_def CMqQueueConfiguration_empty_def)
  ultimately show "CreateQueue sample_env jobs_config (CMqServer_new None) = (created_server, Inr ())"
    "find_queue ''jobs'' created_server = Some (Start_queue (new_queue sample_env jobs_config (CMqServer_new None)))"
    by (simp_all add: created_server_def)
qed

lemma created_reachable: "sreachable sample_env (CMqServer_new None) created_server"
  unfolding created_server_def by (rule sr_step [OF sr_start sv_create [OF jobs_config_ok(2)]])

theorem broker_invariant_witness:
  "\<exists>q. find_queue ''jobs'' created_server = Some q \<and> ''jobs'' = ToLowerInvariant (queue_name (Configuration q))
     \<and> distinct (map fst (messageQueues created_server))
     \<and> sorted_wrt (\<lambda>m m'. the (doc_serial m) < the (doc_serial m')) (pending rbt_ops q)"
  using broker_invariant [OF sample_env_ok created_reachable created_queue(2)] created_queue(2)
  by (simp add: sample_env_def)

section \<open>Dead letters\<close>

text \<open>
  C6. While the server runs, a message that a queue gives up and disposes of is appended to the
  dead-letter queue with its identity, type, body, time and deferral count, and only then leaves
  its queue; no other message of either queue is touched.
\<close>

theorem dead_letters_are_kept:
  assumes "env_ok env" "server_ok env srv" "roomy srv" "find_queue key srv = Some q" "i \<in> set (buffer q)"
    "em_State (q_objects q i) = DeadLetter" "DeadLetterConfiguration (Configuration q) \<noteq> None"
    "find_queue (ToLowerInvariant (queue_name (Configuration q) @ ''.dlq'')) srv = Some dq"
    "\<forall>a \<in> set as. at_running a"
    "dispose_message env utcNow now as key i srv = (srv', Some (Returned ()))"
  shows "\<exists>q' dq' m. find_queue key srv' = Some q'
     \<and> find_queue (ToLowerInvariant (queue_name (Configuration q) @ ''.dlq'')) srv' = Some dq'
     \<and> pending (env_ops env) q' = filter (\<lambda>m. doc_serial m \<noteq> Some (serial q i)) (pending (env_ops env) q)
     \<and> pending (env_ops env) dq' = pending (env_ops env) dq @ [Serialize m]
     \<and> em_MessageId m = em_MessageId (q_objects q i) \<and> em_MessageJson m = em_MessageJson (q_objects q i)
     \<and> em_AssemblyQualifiedTypeName m = em_AssemblyQualifiedTypeName (q_objects q i)
     \<and> em_Timestamp m = em_Timestamp (q_objects q i) \<and> em_DeferredCount m = em_DeferredCount (q_objects q i)
     \<and> em_SerialNumber m = lastSerialNumber (Statistics dq) + 1"
  using dead_letter_moves [OF assms] by (fastforce simp: CloneForDeadLetter_def EnqueuedMessage_new_def)

lemma dead_server_facts:
  "find_queue ''jobs'' dead_server = Some dead_queue" "0 \<in> set (buffer dead_queue)"
  "em_State (q_objects dead_queue 0) = DeadLetter" "DeadLetterConfiguration (Configuration dead_queue) \<noteq> None"
  "ToLowerInvariant (queue_name (Configuration dead_queue) @ ''.dlq'') = ''jobs.dlq''"
  "find_queue ''jobs.dlq'' dead_server = Some (SingleMessageQueueServer_new dlq_config)"
  by (simp_all add: find_queue_def dead_server_def dead_queue_def sample_ephemeral_def queue_name_def lower_names)

lemma dead_roomy: "roomy dead_server"
  by (auto simp: roomy_def dead_server_def dead_queue_def sample_ephemeral_def MessageQueueStatistics_new_def
      SingleMessageQueueServer_new_def)

lemma dead_disposed: "\<exists>srv'. dispose_message sample_env 200 0 [go] ''jobs'' 0 dead_server = (srv', Some (Returned ()))"
  using dead_server_facts
  by (simp add: dispose_message_def MoveMessageToDeadLetter_def with_retry_def return_not_running_def Let_def go_def
      MoveMessageToDeadLetter_body_def on_queue_def timeout_or_default_def DEFAULT_LOCK_TIMEOUT_MS_def place_message_def
      GetNextSerialNumber_def SingleMessageQueueServer_new_def dlq_config_def CMqQueueConfiguration_empty_def)

theorem dead_letters_are_kept_witness:
  "\<exists>srv' q' dq'. dispose_message sample_env 200 0 [go] ''jobs'' 0 dead_server = (srv', Some (Returned ()))
     \<and> find_queue ''jobs'' srv' = Some q' \<and> find_queue ''jobs.dlq'' srv' = Some dq'
     \<and> length (pending rbt_ops dq') = Suc (length (pending rbt_ops (SingleMessageQueueServer_new dlq_config :: rbt_db queue)))"
proof -
  obtain srv' where r: "dispose_message sample_env 200 0 [go] ''jobs'' 0 dead_server = (srv', Some (Returned ()))"
    using dead_disposed by blast
  have run: "\<forall>a \<in> set [go]. at_running a" by (simp add: go_def)
  show ?thesis
    using dead_letters_are_kept [OF sample_env_ok dead_server_ok dead_roomy dead_server_facts(1-4) _ run r] r
    by (auto simp: dead_server_facts sample_env_def)
qed

text \<open>
  C17. Once the server is stopping, moving a dead letter returns without doing anything, and the
  message is removed from its queue all the same: it is in neither queue afterwards.
\<close>

theorem dead_letters_are_lost_on_shutdown:
  assumes "find_queue key srv = Some q" "i \<in> set (buffer q)" "em_State (q_objects q i) = DeadLetter"
    "DeadLetterConfiguration (Configuration q) \<noteq> None" "\<not> at_running a"
  shows "dispose_message env utcNow now (a # as) key i srv =
     (put_queue key (remove_message (env_ops env) (env_le env) i q) srv, Some (Returned ()))"
  by (rule dead_letter_lost [OF assms(1-4) refl assms(5)])

theorem dead_letters_are_lost_on_shutdown_witness:
  "dispose_message sample_env 200 0 [halted] ''jobs'' 0 dead_server =
     (put_queue ''jobs'' (remove_message rbt_ops True 0 dead_queue) dead_server, Some (Returned ()))"
  using dead_letters_are_lost_on_shutdown [OF dead_server_facts(1-4), of halted sample_env 200 0 "[]"]
  by (simp add: halted_def sample_env_def)

end
