(* ===== verification/Lifecycle_Properties.thy ===== *)
theory Lifecycle_Properties
  imports Server_Properties
begin

text \<open>The properties of creating, deleting, restarting, and of every operation's retry loop.\<close>

section \<open>Creating and deleting\<close>



text \<open>Creating a queue whose name is taken, in whatever case, succeeds and changes nothing.\<close>

theorem creation_is_idempotent:
  assumes "\<not> IsDeadLetter cfg" "cfg_queueName cfg = Some n" "n \<noteq> []" "\<not> EndsWith (ToLowerInvariant n) ''.dlq''"
    "find_queue (ToLowerInvariant n) s = Some q"
  shows "CreateQueue env cfg s = (s, Inr ())"
proof -
  have "ToLowerInvariant n \<in> fst ` set (messageQueues s)" using assms(5) find_None_iff [of "ToLowerInvariant n" s] by auto
  then show ?thesis
    using assms(1-4) by (simp add: CreateQueue_def CreateQueueInternal.simps [of env cfg s] QueueName_get_def)
qed

theorem creation_is_idempotent_witness:
  "CreateQueue sample_env (jobs_config\<lparr>cfg_queueName := Some ''JOBS''\<rparr>) created_server = (created_server, Inr ())"
proof -
  have l: "ToLowerInvariant ''JOBS'' = ''jobs''" "\<not> EndsWith ''jobs'' ''.dlq''" by code_simp+
  show ?thesis
    by (rule creation_is_idempotent [where n = "''JOBS''"])
      (simp_all add: jobs_config_def CMqQueueConfiguration_empty_def l created_queue(2) [unfolded jobs_config_def CMqQueueConfiguration_empty_def, simplified])
qed

text \<open>
  A deletion that returns while the server runs leaves no queue of that name and every other
  queue as it was; enqueuing to it afterwards is refused.
\<close>

theorem deletion_removes_one_queue:
  assumes "\<forall>a \<in> set as. at_running a" "DeleteQueue env now timeout as name s = (s', Some (Returned ()))"
    "\<not> IsNullOrWhiteSpace (Some (ea_assemblyQualifiedTypeName e))" "ea_messageJson e \<noteq> []"
    "ToLowerInvariant (ea_queueName e) = ToLowerInvariant name" "at_running a" "at_tick a < now' + timeout_or_default timeout'"
  shows "find_queue (ToLowerInvariant name) s' = None
     \<and> (\<forall>k. k \<noteq> ToLowerInvariant name \<longrightarrow> find_queue k s' = find_queue k s)
     \<and> Enqueue env now' timeout' (a # as') e s' = (s', Some (Raised (PlainException ''Queue not found'' (ea_queueName e))))"
proof -
  let ?key = "ToLowerInvariant name"
  have other: "find_queue k (fst (DeleteQueue_body env name b t)) = find_queue k t" if "k \<noteq> ?key" for k b t
    using DeleteQueue_body_queues [of env name b t] find_remove [of k ?key t] that
    by (auto simp: find_queue_def remove_queue_def split: if_splits)
  have loop: "retry_loop deadline ms (DeleteQueue_body env name) as t = (s', Some (Returned ())) \<Longrightarrow>
      find_queue ?key s' = None \<and> (\<forall>k. k \<noteq> ?key \<longrightarrow> find_queue k s' = find_queue k t)" for deadline ms t
  proof (induction as arbitrary: t)
    case Nil
    then show ?case by simp
  next
    case (Cons b bs)
    obtain t' r where body: "DeleteQueue_body env name b t = (t', r)" by (cases "DeleteQueue_body env name b t")
    have keep: "\<forall>k. k \<noteq> ?key \<longrightarrow> find_queue k t' = find_queue k t" using other [of _ b t] by (simp add: body)
    have gone: "find_queue ?key t' = None" if "r = Inr (Some ())"
    proof -
      have "find_queue ?key t = None \<or> at_lock b ?key"
        using body that by (auto simp: DeleteQueue_body_def Let_def split: option.splits if_splits)
      then have "messageQueues t' = messageQueues t \<and> find_queue ?key t = None
          \<or> messageQueues t' = dict_remove ?key (messageQueues t)"
        using DeleteQueue_body_queues [of env name b t] by (auto simp: body split: if_splits)
      then show ?thesis by (auto simp: find_queue_def map_of_dict_remove)
    qed
    show ?case
      using Cons keep gone by (auto simp: body split: if_splits sum.splits option.splits)
  qed
  have "with_retry now timeout (DeleteQueue_body env name) as s = (s', Some (Returned ()))"
    by (rule returned_while_running [OF assms(2) [unfolded DeleteQueue_def] assms(1)])
  then have gone: "find_queue ?key s' = None" "\<forall>k. k \<noteq> ?key \<longrightarrow> find_queue k s' = find_queue k s"
    using loop [of _ _ s] unfolding with_retry_def Let_def by blast+
  moreover have "Enqueue env now' timeout' (a # as') e s' = (s', Some (Raised (PlainException ''Queue not found'' (ea_queueName e))))"
    using assms(3-7) gone(1)
    by (simp add: Enqueue_def IsNullOrEmpty_def with_retry_def Enqueue_body_def on_queue_def throw_not_running_def)
  ultimately show ?thesis by blast
qed

theorem deletion_removes_one_queue_witness:
  "\<exists>s'. DeleteQueue sample_env 0 None [go] ''JOBS'' dead_server = (s', Some (Returned ()))
     \<and> find_queue ''jobs'' s' = None \<and> find_queue ''jobs.dlq'' s' = find_queue ''jobs.dlq'' dead_server"
proof -
  have l: "ToLowerInvariant ''JOBS'' = ''jobs''" by code_simp
  have "PersistencePath (remove_queue ''jobs'' dead_server) = None"
    by (simp add: remove_queue_def dead_server_def CMqServer_new_def)
  then have "\<exists>s'. DeleteQueue sample_env 0 None [go] ''JOBS'' dead_server = (s', Some (Returned ()))"
    by (simp add: DeleteQueue_def with_retry_def go_def return_not_running_def DeleteQueue_body_def l dead_server_facts(1)
        timeout_or_default_def DEFAULT_LOCK_TIMEOUT_MS_def CheckpointPersistentMessageQueues_def Let_def IsNullOrEmpty_def)
  then obtain s' where r: "DeleteQueue sample_env 0 None [go] ''JOBS'' dead_server = (s', Some (Returned ()))" by blast
  have run: "\<forall>a \<in> set [go]. at_running a" by (simp add: go_def)
  show ?thesis
    using deletion_removes_one_queue [OF run r, of "sample_args\<lparr>ea_queueName := ''Jobs''\<rparr>" go 0 None "[]"] r
    by (simp add: sample_args_def IsNullOrWhiteSpace_def is_white_def l lower_names go_def timeout_or_default_def
        DEFAULT_LOCK_TIMEOUT_MS_def)
qed

text \<open>The properties of the server's retry loops, of disconnecting clients, and of a restart.\<close>

section \<open>The retry loops\<close>





text \<open>A client that disconnected is subscribed to no queue once its disconnection has been handled.\<close>

theorem disconnected_clients_are_unsubscribed:
  assumes "RmServer_OnDisconnected now as g s = (s', Some (Returned ()))" "\<forall>a \<in> set as. at_running a"
    "find_queue k s' = Some q"
  shows "g \<notin> fst ` set (Subscribers q)"
  by (rule disconnect_removes [OF assms(1,2) find_queue_in [OF assms(3)]])

theorem disconnected_clients_are_unsubscribed_witness:
  "\<exists>s' q. RmServer_OnDisconnected 0 [go] 1 dead_server = (s', Some (Returned ()))
     \<and> find_queue ''jobs'' s' = Some q \<and> 1 \<notin> fst ` set (Subscribers q) \<and> 5 \<in> fst ` set (Subscribers q)"
proof -
  let ?s' = "dead_server\<lparr>messageQueues := map (\<lambda>(k, q). (k, queue_unsubscribe 1 q)) (messageQueues dead_server)\<rparr>"
  have r: "RmServer_OnDisconnected 0 [go] 1 dead_server = (?s', Some (Returned ()))"
    by (simp add: RmServer_OnDisconnected_def with_retry_def timeout_or_default_def DEFAULT_LOCK_TIMEOUT_MS_def go_def
        OnDisconnected_body_def disconnect_granted return_not_running_def)
  have q: "find_queue ''jobs'' ?s' = Some (queue_unsubscribe 1 dead_queue)"
    by (simp add: find_queue_def dead_server_def)
  have "5 \<in> fst ` set (Subscribers (queue_unsubscribe 1 dead_queue))"
    by (simp add: queue_unsubscribe_def dead_queue_def sample_ephemeral_def)
  then show ?thesis
    using r q disconnected_clients_are_unsubscribed [OF r _ q] by (auto simp: go_def)
qed

section \<open>A restart\<close>


lemma order_server_facts:
  "\<not> IsNullOrEmpty (PersistencePath order_server)" "companions_apart order_server"
  "find_queue ''orders'' order_server = Some sample_queue"
  "persistent_metadata order_server = [(sample_config, Statistics sample_queue)]"
proof -
  show meta: "persistent_metadata order_server = [(sample_config, Statistics sample_queue)]"
    by (simp add: persistent_metadata_def order_server_def sample_queue_facts sample_queue_facts(7) [unfolded sample_queue_facts])
  show "\<not> IsNullOrEmpty (PersistencePath order_server)" "find_queue ''orders'' order_server = Some sample_queue"
    by (simp_all add: order_server_def CMqServer_new_def IsNullOrEmpty_def find_queue_def)
  show "companions_apart order_server"
    using dlq_key_differs [of "queue_name sample_config"]
    by (auto simp: companions_apart_def meta companion_key_def meta_key_def split: option.splits)
qed

lemma order_server_stops: "\<exists>s1. Stop sample_env order_server = (s1, Inr ())"
  using order_server_facts(1)
  by (simp add: Stop_def Let_def CheckpointPersistentMessageQueues_def order_server_def sample_env_def CMqServer_new_def)


text \<open>
  C18. The same restart re-creates the ephemeral dead-letter queue of a persistent queue, but
  never initializes it, so it is registered and not started: it takes dead letters and delivers none.
\<close>

theorem restart_leaves_ephemeral_dead_letter_queues_stopped:
  assumes "env_ok env" "server_ok env srv" "\<not> IsNullOrEmpty (PersistencePath srv)" "companions_apart srv"
    "Stop env srv = (s1, Inr ())" "qm \<in> set (persistent_metadata srv)" "companion_key qm = Some k"
  shows "\<exists>dq. find_queue k (Start env (reopened s1)) = Some dq \<and> queue_name (Configuration dq) = queue_name (fst qm) @ ''.dlq''
     \<and> \<not> IsInitialized dq \<and> \<not> q_isRunning dq"
  by (rule restart_companion [OF assms])

theorem restart_leaves_ephemeral_dead_letter_queues_stopped_witness:
  "\<exists>s1 dq. Stop sample_env order_server = (s1, Inr ())
     \<and> find_queue ''orders.dlq'' (Start sample_env (reopened s1)) = Some dq \<and> \<not> IsInitialized dq \<and> \<not> q_isRunning dq"
proof -
  obtain s1 where stop: "Stop sample_env order_server = (s1, Inr ())" using order_server_stops by blast
  have k: "companion_key (sample_config, Statistics sample_queue) = Some ''orders.dlq''"
    by (simp add: companion_key_def sample_config_def CMqDeadLetterQueueConfiguration_new_def queue_name_def lower_names)
  show ?thesis
    using restart_leaves_ephemeral_dead_letter_queues_stopped [OF sample_env_ok order_server_ok order_server_facts(1,2) stop _ k] stop
    by (auto simp: order_server_facts(4))
qed

end
