(* ===== verification/Client.thy ===== *)
theory Client
  imports Delivery
begin

text \<open>
  The client library, \<open>NTDLS.CatMQ.Client\<close>: the subscriptions of a client, the messages it buffers for
  batches, the flush that hands the batches over, and the requests it makes. The transport is a package:
  a request is the argument \<open>query\<close>, which gives the answer of the other end after \<open>ThrowIfFailed\<close>.
\<close>

section \<open>Messages and subscriptions\<close>

record 'p CMqReceivedMessage =
  cm_SerializationProvider :: "'p option"
  cm_QueueName :: string
  cm_SerialNumber :: u64
  cm_AssemblyQualifiedTypeName :: string
  cm_MessageJson :: string
  cm_MessageId :: guid
  cm_Timestamp :: ticks
  cm_DeferredCount :: int
  cm_DeferDuration :: "ticks option"
  cm_SubscriberDeliveryCount :: nat
  cm_SatisfiedSubscriberCount :: nat
  cm_FailedSubscriberCount :: nat

text \<open>The handlers of the user are values of \<open>'h\<close> and \<open>'b\<close>; what they do is an argument where they are called.\<close>

record ('h, 'b) CMqSubscription =
  cs_Id :: guid
  cs_QueueName :: string
  cs_DeliveryEvent :: "'h option"
  cs_BatchSize :: "int option"
  cs_AutoFlushInterval :: ticks
  cs_LastBufferFlushed :: ticks
  cs_BatchDeliveryEvent :: "'b option"

definition CMqSubscription_new :: "guid \<Rightarrow> ticks \<Rightarrow> string \<Rightarrow> 'h \<Rightarrow> ('h, 'b) CMqSubscription" where
  "CMqSubscription_new newGuid utcNow queueName deliveryEvent =
     \<lparr>cs_Id = newGuid, cs_QueueName = queueName, cs_DeliveryEvent = Some deliveryEvent, cs_BatchSize = None,
      cs_AutoFlushInterval = 0, cs_LastBufferFlushed = utcNow, cs_BatchDeliveryEvent = None\<rparr>"

definition CMqSubscription_buffered :: "guid \<Rightarrow> ticks \<Rightarrow> string \<Rightarrow> int \<Rightarrow> ticks \<Rightarrow> 'b \<Rightarrow> ('h, 'b) CMqSubscription" where
  "CMqSubscription_buffered newGuid utcNow queueName bufferSize autoFlushInterval batchDeliveryEvent =
     \<lparr>cs_Id = newGuid, cs_QueueName = queueName, cs_DeliveryEvent = None, cs_BatchSize = Some bufferSize,
      cs_AutoFlushInterval = autoFlushInterval, cs_LastBufferFlushed = utcNow, cs_BatchDeliveryEvent = Some batchDeliveryEvent\<rparr>"

section \<open>The state of a client\<close>

datatype delivery_task = NotStarted | Active | Completed

text \<open>
  The dictionary of subscriptions compares names without regard to case; its keys are the folded names.
  The last two fields record what the client did to its surroundings: the batches it called batch
  handlers with, under the identity of the subscription, and the exceptions it raised events for.
\<close>

record ('h, 'b, 'p) CMqClient =
  cl_subscriptions :: "(string, ('h, 'b) CMqSubscription) dict"
  cl_messageBuffer :: "(guid, 'p CMqReceivedMessage list) dict"
  cl_SerializationProvider :: "'p option"
  cl_bufferedDeliveryTask :: delivery_task
  cl_batches :: "(guid \<times> 'p CMqReceivedMessage list) list"
  cl_exceptions :: "(string option \<times> cmq_error) list"

definition CMqClient_new :: "('h, 'b, 'p) CMqClient" where
  "CMqClient_new = \<lparr>cl_subscriptions = [], cl_messageBuffer = [], cl_SerializationProvider = None,
     cl_bufferedDeliveryTask = NotStarted, cl_batches = [], cl_exceptions = []\<rparr>"

definition SetSerializationProvider :: "'p option \<Rightarrow> ('h, 'b, 'p) CMqClient \<Rightarrow> ('h, 'b, 'p) CMqClient" where
  "SetSerializationProvider provider c = c\<lparr>cl_SerializationProvider := provider\<rparr>"

definition ClearSerializationProvider :: "('h, 'b, 'p) CMqClient \<Rightarrow> ('h, 'b, 'p) CMqClient" where
  "ClearSerializationProvider c = c\<lparr>cl_SerializationProvider := None\<rparr>"

definition RegisterSubscription ::
  "('h, 'b) CMqSubscription \<Rightarrow> ('h, 'b, 'p) CMqClient \<Rightarrow> cmq_error + ('h, 'b, 'p) CMqClient" where
  "RegisterSubscription subscription c =
     (let key = ToLowerInvariant (cs_QueueName subscription)
      in if key \<in> fst ` set (cl_subscriptions c)
         then Inl (PlainException ''Client is already subscribed to queue'' (cs_QueueName subscription))
         else Inr (c\<lparr>cl_subscriptions := dict_put key subscription (cl_subscriptions c)\<rparr>))"

definition DiscardSubscription :: "('h, 'b) CMqSubscription \<Rightarrow> ('h, 'b, 'p) CMqClient \<Rightarrow> ('h, 'b, 'p) CMqClient" where
  "DiscardSubscription subscription c =
     (let key = ToLowerInvariant (cs_QueueName subscription)
      in case map_of (cl_subscriptions c) key of
           None \<Rightarrow> c
         | Some existing \<Rightarrow>
             if cs_Id existing = cs_Id subscription
             then c\<lparr>cl_subscriptions := dict_remove key (cl_subscriptions c)\<rparr> else c)"

definition StartBufferedDeliveryTask :: "('h, 'b, 'p) CMqClient \<Rightarrow> ('h, 'b, 'p) CMqClient" where
  "StartBufferedDeliveryTask c =
     (if cl_bufferedDeliveryTask c = NotStarted \<or> cl_bufferedDeliveryTask c = Completed
      then c\<lparr>cl_bufferedDeliveryTask := Active\<rparr> else c)"

definition report_exception :: "string option \<Rightarrow> cmq_error \<Rightarrow> ('h, 'b, 'p) CMqClient \<Rightarrow> ('h, 'b, 'p) CMqClient" where
  "report_exception queueName e c = c\<lparr>cl_exceptions := cl_exceptions c @ [(queueName, e)]\<rparr>"

section \<open>Receiving\<close>

definition buffer_message :: "guid \<Rightarrow> 'p CMqReceivedMessage \<Rightarrow> (guid, 'p CMqReceivedMessage list) dict
    \<Rightarrow> (guid, 'p CMqReceivedMessage list) dict" where
  "buffer_message i message mb =
     (case map_of mb i of Some buffered \<Rightarrow> dict_put i (buffered @ [message]) mb | None \<Rightarrow> dict_put i [message] mb)"

definition InvokeOnReceived ::
  "('h \<Rightarrow> 'p CMqReceivedMessage \<Rightarrow> cmq_error + CMqConsumeResult) \<Rightarrow> 'p CMqReceivedMessage \<Rightarrow> ('h, 'b, 'p) CMqClient
     \<Rightarrow> ('h, 'b, 'p) CMqClient \<times> (cmq_error + CMqConsumeResult)" where
  "InvokeOnReceived handle message c =
     (case map_of (cl_subscriptions c) (ToLowerInvariant (cm_QueueName message)) of
        None \<Rightarrow> (c, Inr NotInterested_result)
      | Some subscription \<Rightarrow>
          let message = message\<lparr>cm_SerializationProvider := cl_SerializationProvider c\<rparr>
          in if cs_BatchSize subscription \<noteq> None \<and> cs_BatchDeliveryEvent subscription \<noteq> None
             then (c\<lparr>cl_messageBuffer := buffer_message (cs_Id subscription) message (cl_messageBuffer c)\<rparr>,
                   Inr Consumed_result)
             else (case cs_DeliveryEvent subscription of
                 Some h \<Rightarrow> (c, handle h message)
               | None \<Rightarrow> (c, Inr NotInterested_result)))"

text \<open>The handler of the server's query, and the reply it sends back.\<close>

definition received_message :: "CMqMessageDeliveryQuery \<Rightarrow> 'p CMqReceivedMessage" where
  "received_message param =
     \<lparr>cm_SerializationProvider = None, cm_QueueName = dq_QueueName param, cm_SerialNumber = dq_SerialNumber param,
      cm_AssemblyQualifiedTypeName = dq_AssemblyQualifiedTypeName param, cm_MessageJson = dq_MessageJson param,
      cm_MessageId = dq_MessageId param, cm_Timestamp = dq_Timestamp param, cm_DeferredCount = dq_DeferredCount param,
      cm_DeferDuration = dq_DeferDuration param, cm_SubscriberDeliveryCount = dq_SubscriberDeliveryCount param,
      cm_SatisfiedSubscriberCount = dq_SatisfiedSubscriberCount param,
      cm_FailedSubscriberCount = dq_FailedSubscriberCount param\<rparr>"

record CMqMessageDeliveryQueryReply =
  dr_ConsumeResult :: CMqConsumeResult
  dr_IsSuccess :: bool
  dr_ErrorMessage :: "cmq_error option"

definition reply_consumed :: "CMqConsumeResult \<Rightarrow> CMqMessageDeliveryQueryReply" where
  "reply_consumed r = \<lparr>dr_ConsumeResult = r, dr_IsSuccess = True, dr_ErrorMessage = None\<rparr>"

definition reply_exception :: "cmq_error \<Rightarrow> CMqMessageDeliveryQueryReply" where
  "reply_exception e =
     \<lparr>dr_ConsumeResult = CMqConsumeResult_new CMqConsumptionDisposition.Exception, dr_IsSuccess = False, dr_ErrorMessage = Some e\<rparr>"

definition MessageDeliveryQuery ::
  "('h \<Rightarrow> 'p CMqReceivedMessage \<Rightarrow> cmq_error + CMqConsumeResult) \<Rightarrow> CMqMessageDeliveryQuery \<Rightarrow> ('h, 'b, 'p) CMqClient
     \<Rightarrow> ('h, 'b, 'p) CMqClient \<times> CMqMessageDeliveryQueryReply" where
  "MessageDeliveryQuery handle param c =
     (case InvokeOnReceived handle (received_message param) c of
        (c', Inr r) \<Rightarrow> (c', reply_consumed r)
      | (c', Inl e) \<Rightarrow> (report_exception None e c', reply_exception e))"

text \<open>What the server makes of the reply: \<open>ThrowIfFailed\<close>, then the result.\<close>

definition reply_outcome :: "CMqMessageDeliveryQueryReply \<Rightarrow> delivery_outcome" where
  "reply_outcome r = (if dr_IsSuccess r then Delivered (dr_ConsumeResult r) else DeliveryFailed)"

section \<open>Flushing\<close>

text \<open>The batches cut from a buffer, and what stays in it. \<open>everything\<close>: partial batches are delivered too.\<close>

function take_batches :: "bool \<Rightarrow> int \<Rightarrow> 'm list \<Rightarrow> 'm list list \<times> 'm list" where
  "take_batches everything limit buffered =
     (let batchSize = nat (max 1 limit)
      in if batchSize \<le> length buffered \<or> buffered \<noteq> [] \<and> everything
         then (case take_batches everything limit (drop batchSize buffered) of
             (batches, rest) \<Rightarrow> (take batchSize buffered # batches, rest))
         else ([], buffered))"
  by pat_completeness auto

termination take_batches
  by (relation "measure (\<lambda>(_, _, buffered). length buffered)") (auto simp: max_def)

declare take_batches.simps [simp del]

definition deliver_batch ::
  "('b \<Rightarrow> 'p CMqReceivedMessage list \<Rightarrow> cmq_error option) \<Rightarrow> ('h, 'b) CMqSubscription \<Rightarrow> ('h, 'b, 'p) CMqClient
     \<Rightarrow> 'p CMqReceivedMessage list \<Rightarrow> ('h, 'b, 'p) CMqClient" where
  "deliver_batch handle subscription c batch =
     (case cs_BatchDeliveryEvent subscription of
        None \<Rightarrow> c
      | Some b \<Rightarrow>
          let c = c\<lparr>cl_batches := cl_batches c @ [(cs_Id subscription, batch)]\<rparr>
          in case handle b batch of
               None \<Rightarrow> c
             | Some e \<Rightarrow> report_exception (Some (cs_QueueName subscription)) e c)"

text \<open>One turn of the loop over the subscriptions; \<open>now\<close> is what the clock says in that turn.\<close>

definition flush_subscription ::
  "('b \<Rightarrow> 'p CMqReceivedMessage list \<Rightarrow> cmq_error option) \<Rightarrow> bool \<Rightarrow> ticks \<Rightarrow> string \<Rightarrow> ('h, 'b) CMqSubscription
     \<Rightarrow> ('h, 'b, 'p) CMqClient \<Rightarrow> ('h, 'b, 'p) CMqClient" where
  "flush_subscription handle force now key subscription c =
     (case (cs_BatchSize subscription, map_of (cl_messageBuffer c) (cs_Id subscription)) of
        (Some limit, Some buffered) \<Rightarrow>
          let flushed = c\<lparr>cl_subscriptions := dict_put key (subscription\<lparr>cs_LastBufferFlushed := now\<rparr>) (cl_subscriptions c)\<rparr>
          in if buffered = [] then flushed
             else
               let intervalElapsed = (cs_AutoFlushInterval subscription \<noteq> 0 \<and>
                     now - cs_LastBufferFlushed subscription \<ge> cs_AutoFlushInterval subscription)
               in (case take_batches (force \<or> intervalElapsed) limit buffered of
                     (batches, rest) \<Rightarrow>
                       if batches = [] then c
                       else foldl (deliver_batch handle subscription)
                              (flushed\<lparr>cl_messageBuffer := dict_put (cs_Id subscription) rest (cl_messageBuffer c)\<rparr>) batches)
      | _ \<Rightarrow> c)"

fun flush_subscriptions ::
  "('b \<Rightarrow> 'p CMqReceivedMessage list \<Rightarrow> cmq_error option) \<Rightarrow> bool \<Rightarrow> (guid \<Rightarrow> ticks) \<Rightarrow> (string, ('h, 'b) CMqSubscription) dict
     \<Rightarrow> ('h, 'b, 'p) CMqClient \<Rightarrow> ('h, 'b, 'p) CMqClient" where
  "flush_subscriptions handle force clock [] c = c"
| "flush_subscriptions handle force clock ((key, s) # subscriptions) c =
     flush_subscriptions handle force clock subscriptions (flush_subscription handle force (clock (cs_Id s)) key s c)"

text \<open>
  One attempt of a flush: whether the lock of the buffers and that of the subscriptions are granted, and the
  clock. The flag of the result says that the call has returned.
\<close>

record flush_attempt =
  fa_buffers :: bool
  fa_subscriptions :: bool
  fa_clock :: "guid \<Rightarrow> ticks"

fun FlushBufferedMessages ::
  "('b \<Rightarrow> 'p CMqReceivedMessage list \<Rightarrow> cmq_error option) \<Rightarrow> bool \<Rightarrow> flush_attempt list \<Rightarrow> ('h, 'b, 'p) CMqClient
     \<Rightarrow> ('h, 'b, 'p) CMqClient \<times> bool" where
  "FlushBufferedMessages handle force [] c = (c, False)"
| "FlushBufferedMessages handle force (a # as) c =
     (if fa_buffers a \<and> cl_messageBuffer c = [] then (c, True)
      else if fa_buffers a \<and> fa_subscriptions a
      then (flush_subscriptions handle force (fa_clock a) (cl_subscriptions c) c, True)
      else if force then FlushBufferedMessages handle force as c
      else (c, True))"

fun ResetBufferedMessagesAndSubscriptions :: "flush_attempt list \<Rightarrow> ('h, 'b, 'p) CMqClient \<Rightarrow> ('h, 'b, 'p) CMqClient \<times> bool" where
  "ResetBufferedMessagesAndSubscriptions [] c = (c, False)"
| "ResetBufferedMessagesAndSubscriptions (a # as) c =
     (if fa_buffers a \<and> fa_subscriptions a then (c\<lparr>cl_subscriptions := [], cl_messageBuffer := []\<rparr>, True)
      else ResetBufferedMessagesAndSubscriptions as c)"

text \<open>A turn of the delivery task: it flushes until the client is explicitly disconnected, then everything, and ends.\<close>

definition BufferedDeliveryTaskProc_turn ::
  "('b \<Rightarrow> 'p CMqReceivedMessage list \<Rightarrow> cmq_error option) \<Rightarrow> bool \<Rightarrow> flush_attempt list \<Rightarrow> ('h, 'b, 'p) CMqClient
     \<Rightarrow> ('h, 'b, 'p) CMqClient" where
  "BufferedDeliveryTaskProc_turn handle explicitlyDisconnected as c =
     (if cl_bufferedDeliveryTask c \<noteq> Active then c
      else if explicitlyDisconnected then
        (case FlushBufferedMessages handle True as c of
           (c', True) \<Rightarrow> c'\<lparr>cl_bufferedDeliveryTask := Completed\<rparr>
         | (c', False) \<Rightarrow> c')
      else fst (FlushBufferedMessages handle False as c))"

section \<open>Requests\<close>

datatype client_query =
    CMqCreateQueueQuery CMqQueueConfiguration
  | CMqDeleteQueueQuery string
  | CMqPurgeQueueQuery string
  | CMqSubscribeToQueueQuery string
  | CMqUnsubscribeFromQueueQuery string
  | CMqEnqueueMessageToQueueWithConfirmation string "ticks option" string string

type_synonym 'w rm_query = "client_query \<Rightarrow> 'w \<Rightarrow> 'w \<times> (cmq_error + unit)"

definition client_CreateQueue :: "'w rm_query \<Rightarrow> CMqQueueConfiguration \<Rightarrow> 'w \<Rightarrow> 'w \<times> (cmq_error + unit)" where
  "client_CreateQueue query queueConfiguration w = query (CMqCreateQueueQuery queueConfiguration) w"

definition client_DeleteQueue :: "'w rm_query \<Rightarrow> string \<Rightarrow> 'w \<Rightarrow> 'w \<times> (cmq_error + unit)" where
  "client_DeleteQueue query queueName w = query (CMqDeleteQueueQuery queueName) w"

definition client_PurgeQueue :: "'w rm_query \<Rightarrow> string \<Rightarrow> 'w \<Rightarrow> 'w \<times> (cmq_error + unit)" where
  "client_PurgeQueue query queueName w = query (CMqPurgeQueueQuery queueName) w"

text \<open>The request of a subscription that is registered first, and discarded when the server refuses it.\<close>

definition subscribe_with ::
  "'w rm_query \<Rightarrow> ('h, 'b) CMqSubscription \<Rightarrow> ('h, 'b, 'p) CMqClient \<times> 'w
     \<Rightarrow> (('h, 'b, 'p) CMqClient \<times> 'w) \<times> (cmq_error + ('h, 'b) CMqSubscription)" where
  "subscribe_with query subscription = (\<lambda>(c, w).
     case RegisterSubscription subscription c of
       Inl e \<Rightarrow> ((c, w), Inl e)
     | Inr c' \<Rightarrow>
         (case query (CMqSubscribeToQueueQuery (cs_QueueName subscription)) w of
            (w', Inl e) \<Rightarrow> ((DiscardSubscription subscription c', w'), Inl e)
          | (w', Inr _) \<Rightarrow> ((c', w'), Inr subscription)))"

definition client_Subscribe ::
  "'w rm_query \<Rightarrow> guid \<Rightarrow> ticks \<Rightarrow> string \<Rightarrow> 'h \<Rightarrow> ('h, 'b, 'p) CMqClient \<times> 'w
     \<Rightarrow> (('h, 'b, 'p) CMqClient \<times> 'w) \<times> (cmq_error + ('h, 'b) CMqSubscription)" where
  "client_Subscribe query newGuid utcNow queueName deliveryEvent cw =
     subscribe_with query (CMqSubscription_new newGuid utcNow queueName deliveryEvent) cw"

definition client_SubscribeBuffered ::
  "'w rm_query \<Rightarrow> guid \<Rightarrow> ticks \<Rightarrow> string \<Rightarrow> int \<Rightarrow> ticks \<Rightarrow> 'b \<Rightarrow> ('h, 'b, 'p) CMqClient \<times> 'w
     \<Rightarrow> (('h, 'b, 'p) CMqClient \<times> 'w) \<times> (cmq_error + ('h, 'b) CMqSubscription)" where
  "client_SubscribeBuffered query newGuid utcNow queueName batchSize autoFlushInterval batchDeliveryEvent cw =
     (case subscribe_with query (CMqSubscription_buffered newGuid utcNow queueName batchSize autoFlushInterval batchDeliveryEvent) cw of
        ((c, w), Inr s) \<Rightarrow> ((StartBufferedDeliveryTask c, w), Inr s)
      | r \<Rightarrow> r)"

definition remove_subscription :: "string \<Rightarrow> ('h, 'b, 'p) CMqClient \<Rightarrow> ('h, 'b, 'p) CMqClient" where
  "remove_subscription queueName c =
     c\<lparr>cl_subscriptions := dict_remove (ToLowerInvariant queueName) (cl_subscriptions c)\<rparr>"

definition client_Unsubscribe ::
  "'w rm_query \<Rightarrow> string \<Rightarrow> ('h, 'b, 'p) CMqClient \<times> 'w \<Rightarrow> (('h, 'b, 'p) CMqClient \<times> 'w) \<times> (cmq_error + unit)" where
  "client_Unsubscribe query queueName = (\<lambda>(c, w).
     if ToLowerInvariant queueName \<notin> fst ` set (cl_subscriptions c)
     then ((c, w), Inl (PlainException ''Client is not subscribed to queue'' queueName))
     else (case query (CMqUnsubscribeFromQueueQuery queueName) w of
         (w', Inl e) \<Rightarrow> ((c, w'), Inl e)
       | (w', Inr _) \<Rightarrow> ((remove_subscription queueName c, w'), Inr ())))"

text \<open>\<open>options\<close> and the serializers of the platform and of the provider are arguments.\<close>

definition client_Enqueue ::
  "'w rm_query \<Rightarrow> ('m \<Rightarrow> string) \<Rightarrow> ('p \<Rightarrow> 'm \<Rightarrow> string) \<Rightarrow> ('m \<Rightarrow> string) \<Rightarrow> string \<Rightarrow> 'm \<Rightarrow> ticks option
     \<Rightarrow> ('h, 'b, 'p) CMqClient \<times> 'w \<Rightarrow> (('h, 'b, 'p) CMqClient \<times> 'w) \<times> (cmq_error + unit)" where
  "client_Enqueue query json provider_json type_name queueName message deferDeliveryDuration = (\<lambda>(c, w).
     let messageJson = (case cl_SerializationProvider c of Some p \<Rightarrow> provider_json p message | None \<Rightarrow> json message)
     in case query (CMqEnqueueMessageToQueueWithConfirmation queueName deferDeliveryDuration (type_name message) messageJson) w of
          (w', r) \<Rightarrow> ((c, w'), r))"

definition client_EnqueueText ::
  "'w rm_query \<Rightarrow> string \<Rightarrow> string \<Rightarrow> string \<Rightarrow> ticks option \<Rightarrow> 'w \<Rightarrow> 'w \<times> (cmq_error + unit)" where
  "client_EnqueueText query queueName assemblyQualifiedName messageJson deferDeliveryDuration w =
     query (CMqEnqueueMessageToQueueWithConfirmation queueName deferDeliveryDuration assemblyQualifiedName messageJson) w"

text \<open>A notification has no answer: \<open>notify\<close> only says what becomes of the other end.\<close>

type_synonym 'w rm_notify = "string \<Rightarrow> ticks option \<Rightarrow> string \<Rightarrow> string \<Rightarrow> 'w \<Rightarrow> 'w"

definition client_EnqueueExpedient ::
  "'w rm_notify \<Rightarrow> ('m \<Rightarrow> string) \<Rightarrow> ('p \<Rightarrow> 'm \<Rightarrow> string) \<Rightarrow> ('m \<Rightarrow> string) \<Rightarrow> string \<Rightarrow> 'm \<Rightarrow> ticks option
     \<Rightarrow> ('h, 'b, 'p) CMqClient \<times> 'w \<Rightarrow> ('h, 'b, 'p) CMqClient \<times> 'w" where
  "client_EnqueueExpedient notify json provider_json type_name queueName message deferDeliveryDuration = (\<lambda>(c, w).
     let messageJson = (case cl_SerializationProvider c of Some p \<Rightarrow> provider_json p message | None \<Rightarrow> json message)
     in (c, notify queueName deferDeliveryDuration (type_name message) messageJson w))"

definition client_EnqueueExpedientText :: "'w rm_notify \<Rightarrow> string \<Rightarrow> string \<Rightarrow> string \<Rightarrow> ticks option \<Rightarrow> 'w \<Rightarrow> 'w" where
  "client_EnqueueExpedientText notify queueName assemblyQualifiedName messageJson deferDeliveryDuration w =
     notify queueName deferDeliveryDuration assemblyQualifiedName messageJson w"

text \<open>After an automatic reconnect every subscription is requested again; a refusal is reported, and the rest goes on.\<close>

fun restore_queues :: "'w rm_query \<Rightarrow> string list \<Rightarrow> ('h, 'b, 'p) CMqClient \<times> 'w \<Rightarrow> ('h, 'b, 'p) CMqClient \<times> 'w" where
  "restore_queues query [] cw = cw"
| "restore_queues query (queueName # queueNames) (c, w) =
     (case query (CMqSubscribeToQueueQuery queueName) w of
        (w', Inl e) \<Rightarrow> restore_queues query queueNames (report_exception (Some queueName) e c, w')
      | (w', Inr _) \<Rightarrow> restore_queues query queueNames (c, w'))"

definition RestoreSubscriptions :: "'w rm_query \<Rightarrow> ('h, 'b, 'p) CMqClient \<times> 'w \<Rightarrow> ('h, 'b, 'p) CMqClient \<times> 'w" where
  "RestoreSubscriptions query cw = restore_queues query (map (cs_QueueName \<circ> snd) (cl_subscriptions (fst cw))) cw"

definition RmClient_OnConnected :: "'w rm_query \<Rightarrow> bool \<Rightarrow> ('h, 'b, 'p) CMqClient \<times> 'w \<Rightarrow> ('h, 'b, 'p) CMqClient \<times> 'w" where
  "RmClient_OnConnected query isReconnect cw = (if isReconnect then RestoreSubscriptions query cw else cw)"

section \<open>Connecting and disconnecting\<close>

text \<open>\<open>connect\<close> is the transport. Connecting forgets every subscription and buffer first.\<close>

definition client_Connect ::
  "('w \<Rightarrow> 'w \<times> (cmq_error + unit)) \<Rightarrow> flush_attempt list \<Rightarrow> ('h, 'b, 'p) CMqClient \<times> 'w
     \<Rightarrow> (('h, 'b, 'p) CMqClient \<times> 'w) \<times> (cmq_error + unit) option" where
  "client_Connect connect as = (\<lambda>(c, w).
     case ResetBufferedMessagesAndSubscriptions as c of
       (c', False) \<Rightarrow> ((c', w), None)
     | (c', True) \<Rightarrow> (case connect w of (w', r) \<Rightarrow> ((c', w'), Some r)))"

text \<open>After the transport is disconnected the task is waited for; the flag says whether it has ended.\<close>

definition client_Disconnect ::
  "('b \<Rightarrow> 'p CMqReceivedMessage list \<Rightarrow> cmq_error option) \<Rightarrow> flush_attempt list \<Rightarrow> ('h, 'b, 'p) CMqClient
     \<Rightarrow> ('h, 'b, 'p) CMqClient \<times> bool" where
  "client_Disconnect handle as c =
     (let c' = BufferedDeliveryTaskProc_turn handle True as c in (c', cl_bufferedDeliveryTask c' \<noteq> Active))"

section \<open>Runs\<close>

text \<open>
  The sections a client runs under its locks, each at once. A subscription and its removal take several; between
  them messages come in and the task flushes, so any order of sections is possible. A reception takes two locks
  in turn and counts as one section: all that could come between is a removal, which then finds one message less.
\<close>

datatype ('h, 'b, 'p) client_section =
    Register "('h, 'b) CMqSubscription"
  | Discard "('h, 'b) CMqSubscription"
  | Remove string
  | StartTask
  | Receive "'p CMqReceivedMessage"
  | Turn bool "flush_attempt list"
  | Reset "flush_attempt list"
  | Provider "'p option"
  | Interval string ticks \<comment> \<open>the user sets \<open>AutoFlushInterval\<close>\<close>

fun run_section ::
  "('h \<Rightarrow> 'p CMqReceivedMessage \<Rightarrow> cmq_error + CMqConsumeResult) \<Rightarrow> ('b \<Rightarrow> 'p CMqReceivedMessage list \<Rightarrow> cmq_error option)
     \<Rightarrow> ('h, 'b, 'p) client_section \<Rightarrow> ('h, 'b, 'p) CMqClient \<Rightarrow> ('h, 'b, 'p) CMqClient" where
  "run_section handle handle_batch (Register s) c = (case RegisterSubscription s c of Inl _ \<Rightarrow> c | Inr c' \<Rightarrow> c')"
| "run_section handle handle_batch (Discard s) c = DiscardSubscription s c"
| "run_section handle handle_batch (Remove queueName) c = remove_subscription queueName c"
| "run_section handle handle_batch StartTask c = StartBufferedDeliveryTask c"
| "run_section handle handle_batch (Receive m) c = fst (InvokeOnReceived handle m c)"
| "run_section handle handle_batch (Turn explicitlyDisconnected as) c =
     BufferedDeliveryTaskProc_turn handle_batch explicitlyDisconnected as c"
| "run_section handle handle_batch (Reset as) c = fst (ResetBufferedMessagesAndSubscriptions as c)"
| "run_section handle handle_batch (Provider p) c = SetSerializationProvider p c"
| "run_section handle handle_batch (Interval queueName t) c =
     (case map_of (cl_subscriptions c) (ToLowerInvariant queueName) of
        None \<Rightarrow> c
      | Some s \<Rightarrow> c\<lparr>cl_subscriptions := dict_put (ToLowerInvariant queueName) (s\<lparr>cs_AutoFlushInterval := t\<rparr>) (cl_subscriptions c)\<rparr>)"

definition run_sections ::
  "('h \<Rightarrow> 'p CMqReceivedMessage \<Rightarrow> cmq_error + CMqConsumeResult) \<Rightarrow> ('b \<Rightarrow> 'p CMqReceivedMessage list \<Rightarrow> cmq_error option)
     \<Rightarrow> ('h, 'b, 'p) client_section list \<Rightarrow> ('h, 'b, 'p) CMqClient \<Rightarrow> ('h, 'b, 'p) CMqClient" where
  "run_sections handle handle_batch sections c = foldl (\<lambda>c section. run_section handle handle_batch section c) c sections"

end
