(* ===== verification/Client_Facts.thy ===== *)
theory Client_Facts
  imports Client
begin

text \<open>
  What a run of a client does to one buffered subscription: the batches it is given and the messages that
  wait for it are, one after the other, the messages that came for its queue.
\<close>

section \<open>Batches\<close>

lemma take_batches_concat: "take_batches everything limit ms = (batches, rest) \<Longrightarrow> concat batches @ rest = ms"
proof (induction everything limit ms arbitrary: batches rest rule: take_batches.induct)
  case (1 everything limit ms)
  show ?case
    using "1.prems" "1.IH" by (subst (asm) take_batches.simps) (auto simp: Let_def split: if_splits prod.splits)
qed

lemma take_batches_sizes:
  "take_batches everything limit ms = (batches, rest) \<Longrightarrow>
     (\<forall>b \<in> set batches. b \<noteq> [] \<and> length b \<le> nat (max 1 limit) \<and> (everything \<or> length b = nat (max 1 limit)))
     \<and> length rest < nat (max 1 limit) \<and> (everything \<longrightarrow> rest = [])"
proof (induction everything limit ms arbitrary: batches rest rule: take_batches.induct)
  case (1 everything limit ms)
  let ?n = "nat (max 1 limit)"
  have n: "0 < ?n" by simp
  show ?case
  proof (cases "?n \<le> length ms \<or> ms \<noteq> [] \<and> everything")
    case True
    obtain bs r where cut: "take_batches everything limit (drop ?n ms) = (bs, r)" by fastforce
    then have "batches = take ?n ms # bs" "rest = r"
      using "1.prems" True by (simp_all add: take_batches.simps [of everything limit ms] Let_def)
    moreover have "take ?n ms \<noteq> []" using True n by auto
    moreover have "everything \<or> length (take ?n ms) = ?n" using True by auto
    ultimately show ?thesis using "1.IH" [OF refl True cut] by simp
  next
    case False
    then have "batches = [] \<and> rest = ms" using "1.prems" by (auto simp: take_batches.simps [of everything limit ms] Let_def)
    then show ?thesis using False by auto
  qed
qed

section \<open>One subscription in a client\<close>

definition batches_of :: "guid \<Rightarrow> ('h, 'b, 'p) CMqClient \<Rightarrow> 'p CMqReceivedMessage list list" where
  "batches_of i c = map snd (filter (\<lambda>b. fst b = i) (cl_batches c))"

definition buffer_of :: "guid \<Rightarrow> ('h, 'b, 'p) CMqClient \<Rightarrow> 'p CMqReceivedMessage list" where
  "buffer_of i c = (case map_of (cl_messageBuffer c) i of None \<Rightarrow> [] | Some ms \<Rightarrow> ms)"

text \<open>The subscription with the identity \<open>i\<close> is registered under the key \<open>k\<close>, for batches of \<open>limit\<close> messages.\<close>

definition batching :: "guid \<Rightarrow> string \<Rightarrow> int \<Rightarrow> ('h, 'b, 'p) CMqClient \<Rightarrow> bool" where
  "batching i k limit c \<longleftrightarrow> dict_ok (cl_subscriptions c) \<and>
     (\<forall>(key, s) \<in> set (cl_subscriptions c). cs_Id s = i \<longleftrightarrow> key = k) \<and>
     (\<exists>s. (k, s) \<in> set (cl_subscriptions c) \<and> cs_BatchSize s = Some limit \<and> cs_BatchDeliveryEvent s \<noteq> None)"

lemma set_put_exact: "dict_ok d \<Longrightarrow> set (dict_put k v d) = insert (k, v) {p \<in> set d. fst p \<noteq> k}"
proof (induction d)
  case (Cons p d)
  have "{q \<in> set d. fst q \<noteq> k} = set d" if "fst p = k"
    using Cons.prems that by (auto simp: dict_ok_def image_iff)
  then show ?case using Cons by (auto simp: dict_ok_def)
qed simp

lemma map_of_dict_ok: "dict_ok d \<Longrightarrow> map_of d k = Some v \<longleftrightarrow> (k, v) \<in> set d"
  by (simp add: dict_ok_def)

lemma batching_other_put:
  assumes "batching i k limit c" "(key, s) \<in> set (cl_subscriptions c)" "cs_Id s' = cs_Id s" "cs_BatchSize s' = cs_BatchSize s"
    "cs_BatchDeliveryEvent s' = cs_BatchDeliveryEvent s"
  shows "batching i k limit (c\<lparr>cl_subscriptions := dict_put key s' (cl_subscriptions c)\<rparr>)"
proof -
  obtain t where t: "(k, t) \<in> set (cl_subscriptions c)" "cs_BatchSize t = Some limit" "cs_BatchDeliveryEvent t \<noteq> None"
    using assms(1) by (auto simp: batching_def)
  have "key = k \<Longrightarrow> s = t" using t(1) assms(1,2) by (auto simp: batching_def dict_ok_def dest: eq_key_imp_eq_value)
  then show ?thesis
    using assms t by (auto simp: batching_def set_put_exact) metis
qed

lemma batching_cong [simp]:
  "batching i k limit (c\<lparr>cl_messageBuffer := x\<rparr>) = batching i k limit c"
  "batching i k limit (c\<lparr>cl_batches := y\<rparr>) = batching i k limit c"
  "batching i k limit (c\<lparr>cl_exceptions := z\<rparr>) = batching i k limit c"
  "batching i k limit (c\<lparr>cl_SerializationProvider := w\<rparr>) = batching i k limit c"
  "batching i k limit (c\<lparr>cl_bufferedDeliveryTask := t\<rparr>) = batching i k limit c"
  by (simp_all add: batching_def)

lemma views_cong [simp]:
  "batches_of i (c\<lparr>cl_messageBuffer := x\<rparr>) = batches_of i c"
  "batches_of i (c\<lparr>cl_subscriptions := d\<rparr>) = batches_of i c"
  "batches_of i (c\<lparr>cl_exceptions := z\<rparr>) = batches_of i c"
  "batches_of i (c\<lparr>cl_SerializationProvider := w\<rparr>) = batches_of i c"
  "batches_of i (c\<lparr>cl_bufferedDeliveryTask := t\<rparr>) = batches_of i c"
  "buffer_of i (c\<lparr>cl_batches := y\<rparr>) = buffer_of i c"
  "buffer_of i (c\<lparr>cl_subscriptions := d\<rparr>) = buffer_of i c"
  "buffer_of i (c\<lparr>cl_exceptions := z\<rparr>) = buffer_of i c"
  "buffer_of i (c\<lparr>cl_SerializationProvider := w\<rparr>) = buffer_of i c"
  "buffer_of i (c\<lparr>cl_bufferedDeliveryTask := t\<rparr>) = buffer_of i c"
  by (simp_all add: batches_of_def buffer_of_def)

lemma deliver_batch_simps [simp]:
  "cl_subscriptions (deliver_batch handle s c b) = cl_subscriptions c"
  "cl_messageBuffer (deliver_batch handle s c b) = cl_messageBuffer c"
  "cl_bufferedDeliveryTask (deliver_batch handle s c b) = cl_bufferedDeliveryTask c"
  "cl_SerializationProvider (deliver_batch handle s c b) = cl_SerializationProvider c"
  "cl_batches (deliver_batch handle s c b) = cl_batches c @ (if cs_BatchDeliveryEvent s = None then [] else [(cs_Id s, b)])"
  by (auto simp: deliver_batch_def Let_def report_exception_def split: option.split)

lemma deliver_batches_simps [simp]:
  "cl_subscriptions (foldl (deliver_batch handle s) c bs) = cl_subscriptions c"
  "cl_messageBuffer (foldl (deliver_batch handle s) c bs) = cl_messageBuffer c"
  "cl_bufferedDeliveryTask (foldl (deliver_batch handle s) c bs) = cl_bufferedDeliveryTask c"
  "cl_SerializationProvider (foldl (deliver_batch handle s) c bs) = cl_SerializationProvider c"
  "cl_batches (foldl (deliver_batch handle s) c bs) = cl_batches c @ (if cs_BatchDeliveryEvent s = None then [] else map (Pair (cs_Id s)) bs)"
  by (induction bs arbitrary: c) simp_all

section \<open>A flush\<close>

text \<open>What is settled about the subscription before a step still holds after it, and so many messages more came for it.\<close>

definition stripped :: "'p CMqReceivedMessage \<Rightarrow> 'p CMqReceivedMessage" where
  "stripped m = m\<lparr>cm_SerializationProvider := None\<rparr>"

definition account :: "guid \<Rightarrow> ('h, 'b, 'p) CMqClient \<Rightarrow> 'p CMqReceivedMessage list" where
  "account i c = concat (batches_of i c) @ buffer_of i c"

definition sized :: "guid \<Rightarrow> int \<Rightarrow> ('h, 'b, 'p) CMqClient \<Rightarrow> bool" where
  "sized i limit c \<longleftrightarrow> (\<forall>b \<in> set (batches_of i c). b \<noteq> [] \<and> length b \<le> nat (max 1 limit))"

lemma flush_subscription_settled:
  assumes "batching i k limit c" "(key, s) \<in> set (cl_subscriptions c)"
  shows "batching i k limit (flush_subscription handle force now key s c)
    \<and> account i (flush_subscription handle force now key s c) = account i c
    \<and> (sized i limit c \<longrightarrow> sized i limit (flush_subscription handle force now key s c))
    \<and> (force \<longrightarrow> cs_Id s = i \<longrightarrow> buffer_of i (flush_subscription handle force now key s c) = [])
    \<and> (buffer_of i c = [] \<longrightarrow> buffer_of i (flush_subscription handle force now key s c) = [])
    \<and> (\<forall>key' s'. key' \<noteq> key \<longrightarrow> (key', s') \<in> set (cl_subscriptions c) \<longrightarrow>
          (key', s') \<in> set (cl_subscriptions (flush_subscription handle force now key s c)))"
proof -
  have ok: "dict_ok (cl_subscriptions c)" using assms(1) by (simp add: batching_def)
  have here: "cs_BatchSize s = Some limit \<and> cs_BatchDeliveryEvent s \<noteq> None" if "cs_Id s = i"
    using assms that ok by (auto simp: batching_def dict_ok_def dest: eq_key_imp_eq_value)
  have put: "batching i k limit (c\<lparr>cl_subscriptions := dict_put key (s\<lparr>cs_LastBufferFlushed := now\<rparr>) (cl_subscriptions c)\<rparr>)"
    using assms by (rule batching_other_put) simp_all
  show ?thesis
  proof (cases "\<exists>size ms. cs_BatchSize s = Some size \<and> map_of (cl_messageBuffer c) (cs_Id s) = Some ms \<and> ms \<noteq> []")
    case False
    let ?flushed = "c\<lparr>cl_subscriptions := dict_put key (s\<lparr>cs_LastBufferFlushed := now\<rparr>) (cl_subscriptions c)\<rparr>"
    have "flush_subscription handle force now key s c = c \<or> flush_subscription handle force now key s c = ?flushed"
      using False by (auto simp: flush_subscription_def Let_def split: option.splits)
    moreover have "buffer_of i c = []" if "cs_Id s = i"
      using False here that by (auto simp: buffer_of_def split: option.splits)
    moreover have "account i ?flushed = account i c" "sized i limit ?flushed = sized i limit c" "buffer_of i ?flushed = buffer_of i c"
      by (simp_all add: account_def sized_def batches_of_def buffer_of_def)
    moreover have "(key', s') \<in> set (cl_subscriptions ?flushed)" if "key' \<noteq> key" "(key', s') \<in> set (cl_subscriptions c)" for key' s'
      using that ok by (simp add: set_put_exact)
    ultimately show ?thesis using put assms(1) by metis
  next
    case True
    then obtain size ms where ms: "cs_BatchSize s = Some size" "map_of (cl_messageBuffer c) (cs_Id s) = Some ms" "ms \<noteq> []" by blast
    let ?all = "force \<or> cs_AutoFlushInterval s \<noteq> 0 \<and> now - cs_LastBufferFlushed s \<ge> cs_AutoFlushInterval s"
    obtain bs rest where cut: "take_batches ?all size ms = (bs, rest)" by (cases "take_batches ?all size ms")
    note facts = take_batches_concat [OF cut] take_batches_sizes [OF cut]
    define c' where "c' = foldl (deliver_batch handle s)
      (c\<lparr>cl_subscriptions := dict_put key (s\<lparr>cs_LastBufferFlushed := now\<rparr>) (cl_subscriptions c),
         cl_messageBuffer := dict_put (cs_Id s) rest (cl_messageBuffer c)\<rparr>) bs"
    have eq: "flush_subscription handle force now key s c = (if bs = [] then c else c')"
      using ms cut by (simp add: flush_subscription_def Let_def c'_def)
    have views: "batches_of i c' = batches_of i c @ (if cs_Id s = i then bs else [])"
        "buffer_of i c' = (if cs_Id s = i then rest else buffer_of i c)"
      using here by (auto simp: c'_def batches_of_def buffer_of_def map_of_dict_put comp_def filter_map)
    have settled: "batching i k limit c'" using put by (simp add: c'_def batching_def)
    have "account i c' = account i c"
      using facts(1) ms(2) by (auto simp: account_def views) (simp_all add: buffer_of_def)
    moreover have "sized i limit c'" if "sized i limit c"
      using that facts(2) here ms(1) by (auto simp: sized_def views)
    moreover have "rest = [] \<and> bs \<noteq> []" if force using facts that ms(3) by auto
    moreover have "buffer_of i c' = []" if "buffer_of i c = []"
    proof -
      have "cs_Id s \<noteq> i" using that ms by (auto simp: buffer_of_def)
      then show ?thesis using that by (simp add: views)
    qed
    moreover have "cl_subscriptions c' = dict_put key (s\<lparr>cs_LastBufferFlushed := now\<rparr>) (cl_subscriptions c)" by (simp add: c'_def)
    ultimately show ?thesis
      unfolding eq using settled assms(1) ok ms(3) views by (auto simp: set_put_exact)
  qed
qed

lemma flush_subscriptions_settled:
  assumes "batching i k limit c" "set subs \<subseteq> set (cl_subscriptions c)" "dict_ok subs"
  shows "batching i k limit (flush_subscriptions handle force clock subs c)
    \<and> account i (flush_subscriptions handle force clock subs c) = account i c
    \<and> (sized i limit c \<longrightarrow> sized i limit (flush_subscriptions handle force clock subs c))
    \<and> ((force \<and> (\<exists>(key, s) \<in> set subs. cs_Id s = i)) \<or> buffer_of i c = [] \<longrightarrow>
         buffer_of i (flush_subscriptions handle force clock subs c) = [])"
  using assms
proof (induction subs arbitrary: c)
  case (Cons e subs)
  obtain key s where e: "e = (key, s)" by (cases e)
  have "(key, s) \<in> set (cl_subscriptions c)" using Cons.prems(2) by (simp add: e)
  note step = flush_subscription_settled [OF Cons.prems(1) this, of handle force "clock (cs_Id s)"]
  let ?d = "flush_subscription handle force (clock (cs_Id s)) key s c"
  from step have others: "key' \<noteq> key \<Longrightarrow> (key', s') \<in> set (cl_subscriptions c) \<Longrightarrow> (key', s') \<in> set (cl_subscriptions ?d)" for key' s'
    by (metis (no_types))
  have "p \<in> set (cl_subscriptions ?d)" if "p \<in> set subs" for p
  proof -
    obtain key' s' where p: "p = (key', s')" by (cases p)
    have "key' \<noteq> key" using Cons.prems(3) that by (auto simp: p e dict_ok_def rev_image_eqI)
    moreover have "(key', s') \<in> set (cl_subscriptions c)" using Cons.prems(2) that by (simp add: p subset_iff)
    ultimately show ?thesis unfolding p by (rule others)
  qed
  then have subs: "set subs \<subseteq> set (cl_subscriptions ?d)" by blast
  have ok: "dict_ok subs" using Cons.prems(3) by (simp add: e dict_ok_def)
  have "batching i k limit ?d" using step by blast
  note rest = Cons.IH [OF this subs ok]
  have "flush_subscriptions handle force clock (e # subs) c = flush_subscriptions handle force clock subs ?d" by (simp add: e)
  moreover have "buffer_of i ?d = [] \<or> force \<and> (\<exists>(key, s) \<in> set subs. cs_Id s = i)"
    if "force \<and> (\<exists>(key, s) \<in> set (e # subs). cs_Id s = i) \<or> buffer_of i c = []"
    using that step unfolding e by fastforce
  ultimately show ?case using step rest by metis
qed simp

lemma FlushBufferedMessages_settled:
  assumes "batching i k limit c"
  shows "batching i k limit (fst (FlushBufferedMessages handle force as c))
    \<and> account i (fst (FlushBufferedMessages handle force as c)) = account i c
    \<and> (sized i limit c \<longrightarrow> sized i limit (fst (FlushBufferedMessages handle force as c)))
    \<and> (force \<longrightarrow> snd (FlushBufferedMessages handle force as c) \<longrightarrow> buffer_of i (fst (FlushBufferedMessages handle force as c)) = [])"
  using assms
proof (induction as)
  case (Cons a as)
  have ok: "dict_ok (cl_subscriptions c)" using Cons.prems by (simp add: batching_def)
  obtain s where "(k, s) \<in> set (cl_subscriptions c)" "cs_Id s = i" using Cons.prems by (force simp: batching_def)
  then have there: "\<exists>(key, s) \<in> set (cl_subscriptions c). cs_Id s = i" by blast
  note flushed = flush_subscriptions_settled [OF Cons.prems order_refl ok, of handle force "fa_clock a"]
  consider "fa_buffers a \<and> cl_messageBuffer c = []" | "fa_buffers a \<and> fa_subscriptions a" "\<not> (fa_buffers a \<and> cl_messageBuffer c = [])"
    | "\<not> (fa_buffers a \<and> cl_messageBuffer c = [])" "\<not> (fa_buffers a \<and> fa_subscriptions a)" by blast
  then show ?case
  proof cases
    case 1
    then show ?thesis using Cons.prems by (simp add: buffer_of_def)
  next
    case 2
    then show ?thesis using flushed there by simp
  next
    case 3
    then show ?thesis using Cons.IH Cons.prems by (simp only: FlushBufferedMessages.simps if_False) (auto split: if_splits)
  qed
qed (simp add: assms)

lemma FlushBufferedMessages_returns:
  "\<exists>a \<in> set as. fa_buffers a \<and> fa_subscriptions a \<Longrightarrow> snd (FlushBufferedMessages handle force as c)"
proof (induction as)
  case (Cons a as)
  then show ?case by (cases "fa_buffers a \<and> fa_subscriptions a") auto
qed simp

section \<open>The sections of a run\<close>

text \<open>
  The sections that leave the subscription registered: nobody removes it or connects anew, and other
  subscriptions have other identities.
\<close>

fun spares :: "guid \<Rightarrow> string \<Rightarrow> ('h, 'b, 'p) client_section \<Rightarrow> bool" where
  "spares i k (Register s) = (cs_Id s \<noteq> i)"
| "spares i k (Discard s) = (cs_Id s \<noteq> i)"
| "spares i k (Remove queueName) = (ToLowerInvariant queueName \<noteq> k)"
| "spares i k (Reset as) = False"
| "spares i k _ = True"

fun came_for :: "string \<Rightarrow> ('h, 'b, 'p) client_section \<Rightarrow> 'p CMqReceivedMessage list" where
  "came_for k (Receive m) = (if ToLowerInvariant (cm_QueueName m) = k then [stripped m] else [])"
| "came_for k _ = []"

lemma buffer_message_of:
  "buffer_of i (c\<lparr>cl_messageBuffer := buffer_message j m (cl_messageBuffer c)\<rparr>) = buffer_of i c @ (if j = i then [m] else [])"
  by (auto simp: buffer_of_def buffer_message_def map_of_dict_put split: option.split)

lemma receive_settled:
  assumes "batching i k limit c"
  shows "batching i k limit (fst (InvokeOnReceived handle m c))
    \<and> map stripped (account i (fst (InvokeOnReceived handle m c))) = map stripped (account i c) @ came_for k (Receive m)
    \<and> batches_of i (fst (InvokeOnReceived handle m c)) = batches_of i c"
proof -
  have ok: "dict_ok (cl_subscriptions c)" using assms by (simp add: batching_def)
  have there: "map_of (cl_subscriptions c) k \<noteq> None" using assms ok by (auto simp: batching_def map_of_eq_None_iff rev_image_eqI)
  have at_k: "cs_Id s = i \<and> cs_BatchSize s \<noteq> None \<and> cs_BatchDeliveryEvent s \<noteq> None"
    if "map_of (cl_subscriptions c) k = Some s" for s
    using that assms ok by (auto simp: batching_def dict_ok_def dest: eq_key_imp_eq_value)
  have off_k: "cs_Id s \<noteq> i" if "map_of (cl_subscriptions c) q = Some s" "q \<noteq> k" for q s
    using that assms by (auto simp: batching_def dest!: map_of_SomeD)
  show ?thesis
    using assms there at_k off_k
    by (auto simp: InvokeOnReceived_def Let_def account_def buffer_message_of stripped_def split: option.splits)
qed

lemma turn_settled:
  assumes "batching i k limit c"
  shows "batching i k limit (BufferedDeliveryTaskProc_turn handle disc as c)
    \<and> account i (BufferedDeliveryTaskProc_turn handle disc as c) = account i c
    \<and> (sized i limit c \<longrightarrow> sized i limit (BufferedDeliveryTaskProc_turn handle disc as c))"
proof -
  obtain c' returned where c': "FlushBufferedMessages handle disc as c = (c', returned)" by fastforce
  have "BufferedDeliveryTaskProc_turn handle disc as c \<in> {c, c', c'\<lparr>cl_bufferedDeliveryTask := Completed\<rparr>}"
    using c' by (cases disc; cases returned) (simp_all add: BufferedDeliveryTaskProc_turn_def)
  moreover have "batching i k limit c' \<and> account i c' = account i c \<and> (sized i limit c \<longrightarrow> sized i limit c')"
    using FlushBufferedMessages_settled [OF assms, of handle disc as] by (simp add: c')
  moreover have "batching i k limit (c'\<lparr>cl_bufferedDeliveryTask := Completed\<rparr>) = batching i k limit c'"
      "account i (c'\<lparr>cl_bufferedDeliveryTask := Completed\<rparr>) = account i c'"
      "sized i limit (c'\<lparr>cl_bufferedDeliveryTask := Completed\<rparr>) = sized i limit c'"
    by (simp_all add: account_def sized_def)
  ultimately show ?thesis using assms by (metis insertE singletonD)
qed

lemma register_settled:
  assumes "batching i k limit c" "cs_Id s \<noteq> i" "RegisterSubscription s c = Inr c'"
  shows "batching i k limit c' \<and> account i c' = account i c \<and> batches_of i c' = batches_of i c"
proof -
  have new: "ToLowerInvariant (cs_QueueName s) \<notin> fst ` set (cl_subscriptions c)"
    and c': "c' = c\<lparr>cl_subscriptions := dict_put (ToLowerInvariant (cs_QueueName s)) s (cl_subscriptions c)\<rparr>"
    using assms(3) by (auto simp: RegisterSubscription_def Let_def split: if_splits)
  have "ToLowerInvariant (cs_QueueName s) \<noteq> k" using new assms(1) by (force simp: batching_def)
  then show ?thesis
    using assms(1,2) new by (auto simp: c' batching_def account_def set_put_exact)
qed

lemma removal_settled:
  assumes "batching i k limit c" "key \<noteq> k"
  shows "batching i k limit (c\<lparr>cl_subscriptions := dict_remove key (cl_subscriptions c)\<rparr>)"
  using assms by (auto simp: batching_def set_dict_remove)

lemma discard_settled:
  assumes "batching i k limit c" "cs_Id s \<noteq> i"
  shows "batching i k limit (DiscardSubscription s c) \<and> account i (DiscardSubscription s c) = account i c
    \<and> batches_of i (DiscardSubscription s c) = batches_of i c"
proof -
  let ?key = "ToLowerInvariant (cs_QueueName s)"
  have "DiscardSubscription s c = c \<or> ?key \<noteq> k \<and> DiscardSubscription s c = c\<lparr>cl_subscriptions := dict_remove ?key (cl_subscriptions c)\<rparr>"
  proof (cases "map_of (cl_subscriptions c) ?key")
    case (Some t)
    have "cs_Id t = i \<longleftrightarrow> ?key = k" using assms(1) map_of_SomeD [OF Some] by (force simp: batching_def)
    then show ?thesis using Some assms(2) by (auto simp: DiscardSubscription_def Let_def)
  qed (simp add: DiscardSubscription_def)
  then show ?thesis using assms(1) removal_settled [OF assms(1), of ?key] by (auto simp: account_def)
qed

lemma section_settled:
  assumes "batching i k limit c" "spares i k sec"
  shows "batching i k limit (run_section handle handle_batch sec c)
    \<and> map stripped (account i (run_section handle handle_batch sec c)) = map stripped (account i c) @ came_for k sec
    \<and> (sized i limit c \<longrightarrow> sized i limit (run_section handle handle_batch sec c))"
proof (cases sec)
  case (Receive m)
  then show ?thesis using receive_settled [OF assms(1), of handle m] unfolding sized_def by (metis run_section.simps(5))
next
  case (Turn disc as)
  then show ?thesis using turn_settled [OF assms(1)] by simp
next
  case (Register s)
  then show ?thesis using register_settled [OF assms(1)] assms by (auto simp: sized_def split: sum.split)
next
  case (Discard s)
  then show ?thesis using discard_settled [OF assms(1)] assms by (auto simp: sized_def)
next
  case (Interval q t)
  have "(ToLowerInvariant q, s) \<in> set (cl_subscriptions c)" if "map_of (cl_subscriptions c) (ToLowerInvariant q) = Some s" for s
    using that by (rule map_of_SomeD)
  then show ?thesis
    using assms(1) Interval by (auto simp: account_def sized_def intro!: batching_other_put split: option.split)
qed (use assms removal_settled [OF assms(1)] in \<open>auto simp: account_def sized_def remove_subscription_def
  StartBufferedDeliveryTask_def SetSerializationProvider_def\<close>)

lemma run_sections_simps [simp]:
  "run_sections handle handle_batch [] c = c"
  "run_sections handle handle_batch (sec # sections) c =
     run_sections handle handle_batch sections (run_section handle handle_batch sec c)"
  "run_sections handle handle_batch (sections @ sections') c =
     run_sections handle handle_batch sections' (run_sections handle handle_batch sections c)"
  by (simp_all add: run_sections_def)

lemma run_settled:
  assumes "batching i k limit c" "list_all (spares i k) sections"
  shows "batching i k limit (run_sections handle handle_batch sections c)
    \<and> map stripped (account i (run_sections handle handle_batch sections c))
        = map stripped (account i c) @ concat (map (came_for k) sections)
    \<and> (sized i limit c \<longrightarrow> sized i limit (run_sections handle handle_batch sections c))"
  using assms
proof (induction sections arbitrary: c)
  case (Cons sec sections)
  then show ?case using section_settled [OF Cons.prems(1), of sec handle handle_batch] by fastforce
qed simp

section \<open>The delivery task\<close>

fun connected :: "('h, 'b, 'p) client_section \<Rightarrow> bool" where
  "connected (Turn explicitlyDisconnected as) = (\<not> explicitlyDisconnected)"
| "connected _ = True"

lemma flush_subscription_task [simp]:
  "cl_bufferedDeliveryTask (flush_subscription handle force now key s c) = cl_bufferedDeliveryTask c"
  by (auto simp: flush_subscription_def Let_def split: option.split prod.split)

lemma flush_subscriptions_task [simp]:
  "cl_bufferedDeliveryTask (flush_subscriptions handle force clock subs c) = cl_bufferedDeliveryTask c"
proof (induction subs arbitrary: c)
  case (Cons e subs)
  then show ?case by (cases e) simp
qed simp

lemma FlushBufferedMessages_task [simp]:
  "cl_bufferedDeliveryTask (fst (FlushBufferedMessages handle force as c)) = cl_bufferedDeliveryTask c"
  by (induction as; cases force) simp_all

lemma section_task:
  assumes "connected sec" "cl_bufferedDeliveryTask c = Active"
  shows "cl_bufferedDeliveryTask (run_section handle handle_batch sec c) = Active"
proof (cases sec)
  case (Reset as)
  have "cl_bufferedDeliveryTask (fst (ResetBufferedMessagesAndSubscriptions as c)) = Active"
    using assms(2) by (induction as) simp_all
  then show ?thesis by (simp add: Reset)
qed (use assms in \<open>auto simp: RegisterSubscription_def DiscardSubscription_def remove_subscription_def Let_def
  StartBufferedDeliveryTask_def InvokeOnReceived_def BufferedDeliveryTaskProc_turn_def SetSerializationProvider_def split: option.split\<close>)

lemma run_task:
  "list_all connected sections \<Longrightarrow> cl_bufferedDeliveryTask c = Active \<Longrightarrow>
     cl_bufferedDeliveryTask (run_sections handle handle_batch sections c) = Active"
  by (induction sections arbitrary: c) (simp_all add: section_task)

section \<open>Abandoned buffers\<close>

text \<open>
  No subscription has the identity \<open>i\<close>. Then nothing is done for it, whatever its buffer holds.
\<close>

definition gone :: "guid \<Rightarrow> ('h, 'b, 'p) CMqClient \<Rightarrow> bool" where
  "gone i c \<longleftrightarrow> (\<forall>(key, s) \<in> set (cl_subscriptions c). cs_Id s \<noteq> i)"

fun no_return :: "guid \<Rightarrow> ('h, 'b, 'p) client_section \<Rightarrow> bool" where
  "no_return i (Register s) = (cs_Id s \<noteq> i)"
| "no_return i (Reset as) = False"
| "no_return i _ = True"

lemma gone_put: "gone i c \<Longrightarrow> cs_Id s \<noteq> i \<Longrightarrow> gone i (c\<lparr>cl_subscriptions := dict_put key s (cl_subscriptions c)\<rparr>)"
proof -
  have "set (dict_put key s d) \<subseteq> insert (key, s) (set d)" for d :: "(string, ('a, 'b) CMqSubscription) dict"
    by (induction d) auto
  then show "gone i c \<Longrightarrow> cs_Id s \<noteq> i \<Longrightarrow> gone i (c\<lparr>cl_subscriptions := dict_put key s (cl_subscriptions c)\<rparr>)"
    by (fastforce simp: gone_def)
qed

lemma gone_cong [simp]:
  "gone i (c\<lparr>cl_messageBuffer := x\<rparr>) = gone i c"
  "gone i (c\<lparr>cl_bufferedDeliveryTask := t\<rparr>) = gone i c"
  "gone i (c\<lparr>cl_SerializationProvider := w\<rparr>) = gone i c"
  by (simp_all add: gone_def)

lemma flush_gone:
  assumes "gone i c" "cs_Id s \<noteq> i"
  shows "gone i (flush_subscription handle force now key s c)
    \<and> batches_of i (flush_subscription handle force now key s c) = batches_of i c
    \<and> buffer_of i (flush_subscription handle force now key s c) = buffer_of i c"
proof -
  have put: "gone i (c\<lparr>cl_subscriptions := dict_put key (s\<lparr>cs_LastBufferFlushed := now\<rparr>) (cl_subscriptions c)\<rparr>)"
    using gone_put [OF assms(1)] assms(2) by simp
  have deliver: "gone i (foldl (deliver_batch handle s) d bs) = gone i d" for d :: "('a, 'b, 'c) CMqClient" and bs
    by (simp add: gone_def)
  show ?thesis
    using put assms
    by (auto simp: flush_subscription_def Let_def deliver batches_of_def buffer_of_def map_of_dict_put comp_def filter_map
        split: option.split prod.split)
qed

lemma flush_subscriptions_gone:
  assumes "gone i c" "\<forall>(key, s) \<in> set subs. cs_Id s \<noteq> i"
  shows "gone i (flush_subscriptions handle force clock subs c)
    \<and> batches_of i (flush_subscriptions handle force clock subs c) = batches_of i c
    \<and> buffer_of i (flush_subscriptions handle force clock subs c) = buffer_of i c"
  using assms
proof (induction subs arbitrary: c)
  case (Cons e subs)
  obtain key s where e: "e = (key, s)" by (cases e)
  show ?case
    using Cons.IH [of "flush_subscription handle force (clock (cs_Id s)) key s c"] Cons.prems
      flush_gone [OF Cons.prems(1), of s handle force "clock (cs_Id s)" key]
    by (simp add: e)
qed simp

lemma FlushBufferedMessages_gone:
  assumes "gone i c"
  shows "gone i (fst (FlushBufferedMessages handle force as c))
    \<and> batches_of i (fst (FlushBufferedMessages handle force as c)) = batches_of i c
    \<and> buffer_of i (fst (FlushBufferedMessages handle force as c)) = buffer_of i c"
  using assms
proof (induction as)
  case (Cons a as)
  show ?case
    using Cons flush_subscriptions_gone [OF Cons.prems, of "cl_subscriptions c" handle force "fa_clock a"]
    by (cases force) (simp_all add: gone_def)
qed simp

lemma section_gone:
  assumes "gone i c" "no_return i sec"
  shows "gone i (run_section handle handle_batch sec c)
    \<and> batches_of i (run_section handle handle_batch sec c) = batches_of i c
    \<and> buffer_of i (run_section handle handle_batch sec c) = buffer_of i c"
proof (cases sec)
  case (Turn disc as)
  then show ?thesis
    using FlushBufferedMessages_gone [OF assms(1), of handle_batch disc as] assms(1)
    by (auto simp: BufferedDeliveryTaskProc_turn_def split: prod.split bool.split)
next
  case (Receive m)
  have "cs_Id s \<noteq> i" if "map_of (cl_subscriptions c) q = Some s" for q s
    using that assms(1) by (auto simp: gone_def dest!: map_of_SomeD)
  then show ?thesis
    using assms(1) Receive
    by (auto simp: InvokeOnReceived_def Let_def buffer_message_of split: option.split)
next
  case (Register s)
  then show ?thesis
    using assms gone_put [OF assms(1)] by (auto simp: RegisterSubscription_def Let_def)
next
  case (Interval q t)
  have "cs_Id s \<noteq> i" if "map_of (cl_subscriptions c) (ToLowerInvariant q) = Some s" for s
    using that assms(1) by (auto simp: gone_def dest!: map_of_SomeD)
  then show ?thesis using assms(1) Interval gone_put [OF assms(1)] by (auto split: option.split)
qed (use assms in \<open>auto simp: remove_subscription_def gone_def set_dict_remove DiscardSubscription_def Let_def
  StartBufferedDeliveryTask_def SetSerializationProvider_def split: option.split\<close>)

lemma run_gone:
  assumes "gone i c" "list_all (no_return i) sections"
  shows "gone i (run_sections handle handle_batch sections c)
    \<and> batches_of i (run_sections handle handle_batch sections c) = batches_of i c
    \<and> buffer_of i (run_sections handle handle_batch sections c) = buffer_of i c"
  using assms
proof (induction sections arbitrary: c)
  case (Cons sec sections)
  then show ?case using section_gone [OF Cons.prems(1), of sec handle handle_batch] by fastforce
qed simp

end
