(* ===== verification/Remote_Queries.thy ===== *)
theory Remote_Queries
  imports Client Mq_Server_Inv
begin

text \<open>
  The other end of a client's requests: \<open>InternalServerQueryHandlers\<close>, which unpack a query into a call of
  the server and send the outcome back, and the replies with their \<open>ThrowIfFailed\<close>. Client and server
  together are the definitions of \<open>Client\<close> with \<open>broker_query\<close> as the transport.
\<close>

section \<open>Replies\<close>

record query_reply =
  qr_IsSuccess :: bool
  qr_ErrorMessage :: "cmq_error option"

definition reply_success :: "bool \<Rightarrow> query_reply" where
  "reply_success isSuccess = \<lparr>qr_IsSuccess = isSuccess, qr_ErrorMessage = None\<rparr>"

definition reply_failure :: "cmq_error \<Rightarrow> query_reply" where
  "reply_failure e = \<lparr>qr_IsSuccess = False, qr_ErrorMessage = Some e\<rparr>"

text \<open>The exception carries the message of the one that was caught at the server.\<close>

definition ThrowIfFailed :: "query_reply \<Rightarrow> cmq_error + unit" where
  "ThrowIfFailed r =
     (if qr_IsSuccess r then Inr ()
      else Inl (case qr_ErrorMessage r of Some e \<Rightarrow> e | None \<Rightarrow> PlainException [] []))"

text \<open>
  A call that returned or raised is answered; one that is still retrying is not. The exit \<open>NotRunning\<close> of
  the loop never leaves an operation.
\<close>

definition query_answer :: "'s \<times> 'a loop_exit option \<Rightarrow> 's \<times> query_reply option" where
  "query_answer r = (fst r, case snd r of
       None \<Rightarrow> None
     | Some (Returned _) \<Rightarrow> Some (reply_success True)
     | Some (Raised e) \<Rightarrow> Some (reply_failure e)
     | Some NotRunning \<Rightarrow> None)"

section \<open>The handlers\<close>

record rm_context =
  ctx_ConnectionId :: guid
  ctx_LocalEndPoint :: "endpoint option"
  ctx_RemoteEndPoint :: "endpoint option"

text \<open>What the run time supplies while a handler runs: the clock, the attempts at the locks, a new identity.\<close>

record query_env =
  qe_now :: ticks
  qe_attempts :: "attempt list"
  qe_NewGuid :: guid
  qe_UtcNow :: ticks

definition CreateQueueQuery ::
  "'db server_env \<Rightarrow> CMqQueueConfiguration \<Rightarrow> 'db server \<Rightarrow> 'db server \<times> query_reply option" where
  "CreateQueueQuery env cfg srv = (case CreateQueue env cfg srv of
     (srv', Inl e) \<Rightarrow> (srv', Some (reply_failure e))
   | (srv', Inr _) \<Rightarrow> (srv', Some (reply_success True)))"

definition DeleteQueueQuery ::
  "'db server_env \<Rightarrow> query_env \<Rightarrow> string \<Rightarrow> 'db server \<Rightarrow> 'db server \<times> query_reply option" where
  "DeleteQueueQuery env qe queueName srv = query_answer (DeleteQueue env (qe_now qe) None (qe_attempts qe) queueName srv)"

definition PurgeQueueQuery ::
  "'db server_env \<Rightarrow> query_env \<Rightarrow> string \<Rightarrow> 'db server \<Rightarrow> 'db server \<times> query_reply option" where
  "PurgeQueueQuery env qe queueName srv = query_answer (PurgeQueue env (qe_now qe) None (qe_attempts qe) queueName srv)"

definition SubscribeToQueueQuery ::
  "query_env \<Rightarrow> rm_context \<Rightarrow> string \<Rightarrow> 'db server \<Rightarrow> 'db server \<times> query_reply option" where
  "SubscribeToQueueQuery qe ctx queueName srv =
     query_answer (Subscribe (qe_now qe) None (qe_attempts qe) (ctx_ConnectionId ctx) (ctx_LocalEndPoint ctx)
       (ctx_RemoteEndPoint ctx) queueName srv)"

definition UnsubscribeFromQueueQuery ::
  "query_env \<Rightarrow> rm_context \<Rightarrow> string \<Rightarrow> 'db server \<Rightarrow> 'db server \<times> query_reply option" where
  "UnsubscribeFromQueueQuery qe ctx queueName srv =
     query_answer (Unsubscribe (qe_now qe) None (qe_attempts qe) (ctx_ConnectionId ctx) queueName srv)"

definition enqueue_args_of :: "query_env \<Rightarrow> string \<Rightarrow> ticks option \<Rightarrow> string \<Rightarrow> string \<Rightarrow> enqueue_args" where
  "enqueue_args_of qe queueName defer objectType messageJson =
     \<lparr>ea_queueName = queueName, ea_deferDeliveryDuration = defer, ea_assemblyQualifiedTypeName = objectType,
      ea_messageJson = messageJson, ea_NewGuid = qe_NewGuid qe, ea_Timestamp = qe_UtcNow qe, ea_UtcNow = qe_UtcNow qe\<rparr>"

definition EnqueueMessageToQueueWithConfirmation ::
  "'db server_env \<Rightarrow> query_env \<Rightarrow> string \<Rightarrow> ticks option \<Rightarrow> string \<Rightarrow> string \<Rightarrow> 'db server
     \<Rightarrow> 'db server \<times> query_reply option" where
  "EnqueueMessageToQueueWithConfirmation env qe queueName defer objectType messageJson srv =
     query_answer (Enqueue env (qe_now qe) None (qe_attempts qe) (enqueue_args_of qe queueName defer objectType messageJson) srv)"

text \<open>The notification has no reply; whatever it raises is lost.\<close>

definition EnqueueMessageToQueueExpedient ::
  "'db server_env \<Rightarrow> query_env \<Rightarrow> string \<Rightarrow> ticks option \<Rightarrow> string \<Rightarrow> string \<Rightarrow> 'db server \<Rightarrow> 'db server" where
  "EnqueueMessageToQueueExpedient env qe queueName defer objectType messageJson srv =
     fst (Enqueue env (qe_now qe) None (qe_attempts qe) (enqueue_args_of qe queueName defer objectType messageJson) srv)"

fun handle_query ::
  "'db server_env \<Rightarrow> query_env \<Rightarrow> rm_context \<Rightarrow> client_query \<Rightarrow> 'db server \<Rightarrow> 'db server \<times> query_reply option" where
  "handle_query env qe ctx (CMqCreateQueueQuery cfg) srv = CreateQueueQuery env cfg srv"
| "handle_query env qe ctx (CMqDeleteQueueQuery n) srv = DeleteQueueQuery env qe n srv"
| "handle_query env qe ctx (CMqPurgeQueueQuery n) srv = PurgeQueueQuery env qe n srv"
| "handle_query env qe ctx (CMqSubscribeToQueueQuery n) srv = SubscribeToQueueQuery qe ctx n srv"
| "handle_query env qe ctx (CMqUnsubscribeFromQueueQuery n) srv = UnsubscribeFromQueueQuery qe ctx n srv"
| "handle_query env qe ctx (CMqEnqueueMessageToQueueWithConfirmation n d t j) srv =
     EnqueueMessageToQueueWithConfirmation env qe n d t j srv"

section \<open>A client on a connection\<close>

text \<open>
  The world of a client: the server, and for each of its queries to come what the run time supplies and
  whether the reply gets back. A reply that does not is an exception of the transport.
\<close>

record query_fate =
  qf_env :: query_env
  qf_arrives :: bool
  qf_lost :: cmq_error

type_synonym 'db broker_world = "'db server \<times> query_fate list"

definition broker_query :: "'db server_env \<Rightarrow> cmq_error \<Rightarrow> rm_context \<Rightarrow> 'db broker_world rm_query" where
  "broker_query env closed ctx q w =
     (case w of
        (srv, []) \<Rightarrow> (w, Inl closed)
      | (srv, fate # fates) \<Rightarrow>
          (case handle_query env (qf_env fate) ctx q srv of
             (srv', Some r) \<Rightarrow> ((srv', fates), if qf_arrives fate then ThrowIfFailed r else Inl (qf_lost fate))
           | (srv', None) \<Rightarrow> ((srv', fates), Inl (qf_lost fate))))"

section \<open>Subscriptions across the connection\<close>

definition subscribed_at :: "guid \<Rightarrow> string \<Rightarrow> 'db server \<Rightarrow> bool" where
  "subscribed_at g queueName srv \<longleftrightarrow>
     (\<exists>q. find_queue (ToLowerInvariant queueName) srv = Some q \<and> g \<in> fst ` set (Subscribers q))"

lemma find_put_queue: "find_queue k (put_queue key q srv) = (if k = key then Some q else find_queue k srv)"
  by (simp add: find_queue_def put_queue_def map_of_dict_put)

lemma subscribers_queue_subscribe: "fst ` set (Subscribers (queue_subscribe g l r q)) = insert g (fst ` set (Subscribers q))"
  by (auto simp: queue_subscribe_def)

lemma Subscribe_body_keeps:
  "subscribed_at g' n srv \<Longrightarrow> subscribed_at g' n (fst (Subscribe_body g l r name a srv))"
  by (auto simp: Subscribe_body_def on_queue_def subscribed_at_def find_put_queue subscribers_queue_subscribe split: option.split
      simp del: image_iff)

lemma Subscribe_body_subscribes:
  "Subscribe_body g l r name a srv = (srv', Inr (Some ())) \<Longrightarrow> subscribed_at g name srv'"
  by (auto simp: Subscribe_body_def on_queue_def subscribed_at_def find_put_queue subscribers_queue_subscribe
      split: option.splits if_splits)

lemma retry_keeps:
  assumes "\<And>a s. P s \<Longrightarrow> P (fst (body a s))" "P s"
  shows "P (fst (retry_loop deadline ms body as s))"
  using assms(2)
proof (induction as arbitrary: s)
  case (Cons a as)
  have "P (fst (body a s))" using assms(1) Cons.prems .
  then show ?case using Cons by (auto split: prod.split sum.split option.split)
qed simp

lemma retry_returns:
  assumes "\<And>a s s'. body a s = (s', Inr (Some r)) \<Longrightarrow> P s'"
  shows "retry_loop deadline ms body as s = (s', Some (Returned r)) \<Longrightarrow> P s'"
proof (induction as arbitrary: s)
  case (Cons a as)
  then show ?case using assms by (auto split: if_splits prod.splits sum.splits option.splits)
qed simp

lemma Subscribe_keeps: "subscribed_at g' n srv \<Longrightarrow> subscribed_at g' n (fst (Subscribe now timeout as g l r name srv))"
  unfolding Subscribe_def with_retry_def Let_def fst_throw_not_running
  by (rule retry_keeps [where P = "subscribed_at g' n"]) (rule Subscribe_body_keeps)

lemma Subscribe_subscribes:
  assumes "Subscribe now timeout as g l r name srv = (srv', Some (Returned ()))"
  shows "subscribed_at g name srv'"
proof -
  have "retry_loop (now + timeout_or_default timeout) (timeout_or_default timeout) (Subscribe_body g l r name) as srv
      = (srv', Some (Returned ()))"
    using assms
    by (auto simp: Subscribe_def with_retry_def Let_def throw_not_running_def split: prod.splits option.splits loop_exit.splits)
  then show ?thesis by (rule retry_returns [rotated, where P = "subscribed_at g name"]) (rule Subscribe_body_subscribes)
qed

lemma subscribe_query_keeps:
  "subscribed_at g n (fst w) \<Longrightarrow> subscribed_at g n (fst (fst (broker_query env closed ctx (CMqSubscribeToQueueQuery name) w)))"
  using Subscribe_keeps [of g n]
  by (auto simp: broker_query_def SubscribeToQueueQuery_def query_answer_def split: prod.split list.split option.split loop_exit.split)

lemma subscribe_query_subscribes:
  assumes "broker_query env closed ctx (CMqSubscribeToQueueQuery name) w = (w', Inr ())"
  shows "subscribed_at (ctx_ConnectionId ctx) name (fst w')"
proof -
  obtain srv fate fates where w: "w = (srv, fate # fates)"
    using assms by (cases w; cases "snd w") (auto simp: broker_query_def)
  obtain srv' e where s: "Subscribe (qe_now (qf_env fate)) None (qe_attempts (qf_env fate)) (ctx_ConnectionId ctx)
      (ctx_LocalEndPoint ctx) (ctx_RemoteEndPoint ctx) name srv = (srv', e)" by fastforce
  have "e = Some (Returned ())" "fst w' = srv'"
    using assms s
    by (auto simp: broker_query_def w SubscribeToQueueQuery_def query_answer_def ThrowIfFailed_def reply_failure_def
        split: option.splits loop_exit.splits if_splits)
  then show ?thesis using Subscribe_subscribes s by blast
qed

text \<open>After a restoration every queue is subscribed on the new connection, or its failure was reported.\<close>

lemma restore_queues_keeps:
  "subscribed_at g n (fst w) \<Longrightarrow>
     subscribed_at g n (fst (snd (restore_queues (broker_query env closed ctx) names (c, w))))"
proof (induction names arbitrary: c w)
  case (Cons name names)
  then show ?case
    using subscribe_query_keeps [OF Cons.prems, of env closed ctx name]
    by (auto split: prod.split sum.split)
qed simp

lemma restore_queues_reports:
  "\<exists>new. cl_exceptions (fst (restore_queues query names (c, w))) = cl_exceptions c @ new
     \<and> cl_subscriptions (fst (restore_queues query names (c, w))) = cl_subscriptions c"
proof (induction names arbitrary: c w)
  case (Cons name names)
  obtain w' r where q: "query (CMqSubscribeToQueueQuery name) w = (w', r)" by fastforce
  then show ?case
    using Cons.IH [of c w'] Cons.IH [of "report_exception (Some name) e c" w' for e] by (cases r) (auto simp: report_exception_def)
qed simp

lemma restore_queues_done:
  "\<exists>new. cl_exceptions (fst (restore_queues (broker_query env closed ctx) names (c, w))) = cl_exceptions c @ new \<and>
     (\<forall>name \<in> set names.
        subscribed_at (ctx_ConnectionId ctx) name (fst (snd (restore_queues (broker_query env closed ctx) names (c, w))))
        \<or> (\<exists>e. (Some name, e) \<in> set new))"
proof (induction names arbitrary: c w)
  case (Cons n names)
  obtain w' r where q: "broker_query env closed ctx (CMqSubscribeToQueueQuery n) w = (w', r)" by fastforce
  show ?case
  proof (cases r)
    case (Inr u)
    then have "subscribed_at (ctx_ConnectionId ctx) n (fst w')" using subscribe_query_subscribes q by simp
    from restore_queues_keeps [OF this, of env closed ctx names c] Cons.IH [of c w'] show ?thesis
      by (auto simp: q Inr)
  next
    case (Inl e)
    let ?c = "report_exception (Some n) e c"
    obtain new where "cl_exceptions (fst (restore_queues (broker_query env closed ctx) names (?c, w'))) = cl_exceptions ?c @ new"
      "\<forall>name \<in> set names.
        subscribed_at (ctx_ConnectionId ctx) name (fst (snd (restore_queues (broker_query env closed ctx) names (?c, w'))))
        \<or> (\<exists>e. (Some name, e) \<in> set new)"
      using Cons.IH by blast
    then show ?thesis
      by (intro exI [of _ "(Some n, e) # new"]) (auto simp: q Inl report_exception_def)
  qed
qed simp

text \<open>A subscription is registered and known to the server, or, refused, leaves the registration as it was.\<close>

lemma subscribe_with_outcome:
  assumes "subscribe_with (broker_query env closed ctx) s (c, w) = ((c', w'), r)"
  shows "case r of
      Inr t \<Rightarrow> t = s \<and> map_of (cl_subscriptions c') (ToLowerInvariant (cs_QueueName s)) = Some s
        \<and> subscribed_at (ctx_ConnectionId ctx) (cs_QueueName s) (fst w')
    | Inl e \<Rightarrow> cl_subscriptions c' = cl_subscriptions c"
proof (cases "RegisterSubscription s c")
  case (Inl e)
  then show ?thesis using assms by (auto simp: subscribe_with_def)
next
  case (Inr d)
  let ?key = "ToLowerInvariant (cs_QueueName s)"
  have key: "?key \<notin> fst ` set (cl_subscriptions c)" and d: "d = c\<lparr>cl_subscriptions := dict_put ?key s (cl_subscriptions c)\<rparr>"
    using Inr by (auto simp: RegisterSubscription_def Let_def split: if_splits)
  obtain v q where q: "broker_query env closed ctx (CMqSubscribeToQueueQuery (cs_QueueName s)) w = (v, q)" by fastforce
  show ?thesis
  proof (cases q)
    case (Inl e)
    have "dict_remove ?key (dict_put ?key s (cl_subscriptions c)) = cl_subscriptions c"
      using key by (simp add: dict_put_absent dict_remove_def AList.delete_eq filter_id_conv) force
    then show ?thesis
      using assms Inr q Inl
      by (auto simp: subscribe_with_def DiscardSubscription_def d map_of_dict_put)
  next
    case [simp]: (Inr u)
    have "subscribed_at (ctx_ConnectionId ctx) (cs_QueueName s) (fst v)" using subscribe_query_subscribes q by simp
    then show ?thesis using assms \<open>RegisterSubscription s c = Inr d\<close> q by (auto simp: subscribe_with_def d map_of_dict_put)
  qed
qed

end
