(* ===== verification/Client_Properties.thy ===== *)
theory Client_Properties
  imports Client_Facts Remote_Queries Sample_Broker
begin

text \<open>The properties of the client library, alone and on a connection to the server.\<close>

section \<open>Batches\<close>


definition sample_received :: "string \<Rightarrow> u64 \<Rightarrow> nat CMqReceivedMessage" where
  "sample_received queueName sn = received_message (delivery_query queueName (sample_message sn))"

definition sample_client :: "(nat, nat, nat) CMqClient" where
  "sample_client = CMqClient_new\<lparr>cl_subscriptions := [(''jobs'', CMqSubscription_buffered 3 0 ''Jobs'' 2 0 1)],
     cl_bufferedDeliveryTask := Active\<rparr>"

definition granted :: flush_attempt where
  "granted = \<lparr>fa_buffers = True, fa_subscriptions = True, fa_clock = (\<lambda>_. 5)\<rparr>"


lemma sample_batching: "batching 3 ''jobs'' 2 sample_client"
  by (simp add: batching_def sample_client_def CMqClient_new_def CMqSubscription_buffered_def dict_ok_def)



lemma sample_names: "ToLowerInvariant ''JOBS'' = ''jobs''" "ToLowerInvariant ''Jobs'' = ''jobs''" "ToLowerInvariant ''Other'' = ''other''"
  by code_simp+





text \<open>
  C22. Messages are answered as consumed when they are buffered, so the server forgets them; but once their
  subscription is removed nothing in the client ever gives them to a handler, not the flush at the end
  either: they stay in the buffer until a new connection clears it.
\<close>

theorem unsubscribing_abandons_the_buffer:
  assumes "batching i k limit c" "ToLowerInvariant name = k" "list_all (no_return i) sections"
  shows "(\<forall>m. ToLowerInvariant (cm_QueueName m) = k \<longrightarrow> snd (InvokeOnReceived handle m c) = Inr Consumed_result)
    \<and> batches_of i (run_sections handle handle_batch (Remove name # sections) c) = batches_of i c
    \<and> buffer_of i (run_sections handle handle_batch (Remove name # sections) c) = buffer_of i c"
proof -
  have "gone i (run_section handle handle_batch (Remove name) c)"
    using assms(1,2) by (auto simp: batching_def gone_def remove_subscription_def set_dict_remove)
  moreover have "snd (InvokeOnReceived handle m c) = Inr Consumed_result" if m: "ToLowerInvariant (cm_QueueName m) = k" for m
  proof -
    obtain s where "(k, s) \<in> set (cl_subscriptions c)" "cs_BatchSize s = Some limit" "cs_BatchDeliveryEvent s \<noteq> None"
        "dict_ok (cl_subscriptions c)"
      using assms(1) by (auto simp: batching_def)
    then have "map_of (cl_subscriptions c) k = Some s \<and> cs_BatchSize s = Some limit \<and> cs_BatchDeliveryEvent s \<noteq> None"
      by (simp add: map_of_dict_ok)
    then show ?thesis by (simp add: InvokeOnReceived_def m)
  qed
  ultimately show ?thesis
    using run_gone [OF _ assms(3), of "run_section handle handle_batch (Remove name) c" handle handle_batch]
    by (simp add: remove_subscription_def)
qed

definition sample_waiting :: "(nat, nat, nat) CMqClient" where
  "sample_waiting = sample_client\<lparr>cl_messageBuffer := [(3, [sample_received ''Jobs'' 1])]\<rparr>"

theorem unsubscribing_abandons_the_buffer_witness:
  "buffer_of 3 (run_sections (\<lambda>_ _. Inr Consumed_result) (\<lambda>_ _. None) [Remove ''JOBS'', Turn True [granted]] sample_waiting)
     = [sample_received ''Jobs'' 1]"
proof -
  have "batching 3 ''jobs'' 2 sample_waiting" using sample_batching by (simp add: sample_waiting_def)
  then show ?thesis
    using unsubscribing_abandons_the_buffer [of 3 "''jobs''" 2 sample_waiting "''JOBS''" "[Turn True [granted]]"]
    by (simp add: sample_waiting_def buffer_of_def sample_names)
qed

section \<open>Client and server\<close>

definition sample_ctx :: rm_context where
  "sample_ctx = \<lparr>ctx_ConnectionId = 8, ctx_LocalEndPoint = None, ctx_RemoteEndPoint = None\<rparr>"

definition sample_world :: "rbt_db broker_world" where
  "sample_world = (\<lparr>s_isRunning = True, PersistencePath = None, messageQueues = [(''jobs'', sample_ephemeral)], queues_json = None,
       messages_dir = (\<lambda>_. None)\<rparr>,
     [\<lparr>qf_env = \<lparr>qe_now = 0, qe_attempts = [\<lparr>at_running = True, at_tick = 0, at_lock = (\<lambda>_. True)\<rparr>], qe_NewGuid = 0, qe_UtcNow = 0\<rparr>,
       qf_arrives = True, qf_lost = PlainException [] []\<rparr>])"

text \<open>
  C23. After an automatic reconnect each queue the client is subscribed to is subscribed on the new connection
  at the server when the restoration ends, or its failure was reported under its name; the client's own
  subscriptions are as they were.
\<close>

theorem reconnecting_restores_subscriptions:
  "\<exists>new. cl_subscriptions (fst (RmClient_OnConnected (broker_query env closed ctx) True (c, w))) = cl_subscriptions c
    \<and> cl_exceptions (fst (RmClient_OnConnected (broker_query env closed ctx) True (c, w))) = cl_exceptions c @ new
    \<and> (\<forall>(key, s) \<in> set (cl_subscriptions c).
         subscribed_at (ctx_ConnectionId ctx) (cs_QueueName s) (fst (snd (RmClient_OnConnected (broker_query env closed ctx) True (c, w))))
         \<or> (\<exists>e. (Some (cs_QueueName s), e) \<in> set new))"
proof -
  let ?names = "map (cs_QueueName \<circ> snd) (cl_subscriptions c)"
  let ?r = "restore_queues (broker_query env closed ctx) ?names (c, w)"
  obtain new where "cl_exceptions (fst ?r) = cl_exceptions c @ new"
    "\<forall>name \<in> set ?names. subscribed_at (ctx_ConnectionId ctx) name (fst (snd ?r)) \<or> (\<exists>e. (Some name, e) \<in> set new)"
    using restore_queues_done by blast
  moreover have "cl_subscriptions (fst ?r) = cl_subscriptions c"
    using restore_queues_reports [of "broker_query env closed ctx" ?names c w] by blast
  ultimately show ?thesis by (intro exI [of _ new]) (auto simp: RmClient_OnConnected_def RestoreSubscriptions_def)
qed

lemma sample_reconnect:
  "cl_exceptions (fst (RmClient_OnConnected (broker_query sample_env (PlainException [] []) sample_ctx) True
     (sample_client, sample_world))) = []"
  by (simp add: RmClient_OnConnected_def RestoreSubscriptions_def sample_client_def CMqClient_new_def
      CMqSubscription_buffered_def broker_query_def sample_world_def SubscribeToQueueQuery_def query_answer_def Subscribe_def
      with_retry_def throw_not_running_def timeout_or_default_def DEFAULT_LOCK_TIMEOUT_MS_def Subscribe_body_def on_queue_def
      find_queue_def sample_names ThrowIfFailed_def reply_success_def Let_def)

theorem reconnecting_restores_subscriptions_witness:
  "subscribed_at 8 ''Jobs'' (fst (snd (RmClient_OnConnected (broker_query sample_env (PlainException [] []) sample_ctx) True
     (sample_client, sample_world))))"
  using reconnecting_restores_subscriptions [of sample_env "PlainException [] []" sample_ctx sample_client sample_world] sample_reconnect
  by (auto simp: sample_ctx_def sample_client_def CMqSubscription_buffered_def)

text \<open>
  C24. A subscription that comes back is registered at the client and the connection is subscribed at the
  server. One that raises, whether it was registered before, refused, or its reply was lost, leaves the
  client's subscriptions as they were.
\<close>

theorem subscribing_registers_both_ends:
  assumes "client_Subscribe (broker_query env closed ctx) g t name h (c, w) = ((c', w'), r)"
  shows "case r of
      Inr s \<Rightarrow> map_of (cl_subscriptions c') (ToLowerInvariant name) = Some s \<and> cs_DeliveryEvent s = Some h
        \<and> subscribed_at (ctx_ConnectionId ctx) name (fst w')
    | Inl e \<Rightarrow> cl_subscriptions c' = cl_subscriptions c"
  using subscribe_with_outcome [OF assms [unfolded client_Subscribe_def]]
  by (auto simp: CMqSubscription_new_def split: sum.splits)

lemma sample_subscription:
  "snd (client_Subscribe (broker_query sample_env (PlainException [] []) sample_ctx) 6 0 ''Jobs'' (1 :: nat)
     (CMqClient_new :: (nat, nat, nat) CMqClient, sample_world)) = Inr (CMqSubscription_new 6 0 ''Jobs'' 1)"
  by (simp add: client_Subscribe_def subscribe_with_def RegisterSubscription_def CMqClient_new_def CMqSubscription_new_def
      broker_query_def sample_world_def SubscribeToQueueQuery_def query_answer_def Subscribe_def with_retry_def throw_not_running_def
      timeout_or_default_def DEFAULT_LOCK_TIMEOUT_MS_def Subscribe_body_def on_queue_def find_queue_def sample_names
      ThrowIfFailed_def reply_success_def Let_def)

theorem subscribing_registers_both_ends_witness:
  "\<exists>c' w'. map_of (cl_subscriptions (c' :: (nat, nat, nat) CMqClient)) (ToLowerInvariant ''Jobs'') = Some (CMqSubscription_new 6 0 ''Jobs'' 1)
     \<and> subscribed_at 8 ''Jobs'' (fst (w' :: rbt_db broker_world))"
proof -
  obtain c' w' where r: "client_Subscribe (broker_query sample_env (PlainException [] []) sample_ctx) 6 0 ''Jobs'' (1 :: nat)
     (CMqClient_new :: (nat, nat, nat) CMqClient, sample_world) = ((c', w'), Inr (CMqSubscription_new 6 0 ''Jobs'' 1))"
    using sample_subscription by (metis prod.collapse)
  from subscribing_registers_both_ends [OF r] show ?thesis by (auto simp: sample_ctx_def)
qed

end
