(* ===== verification/Mq_Views.thy ===== *)
theory Mq_Views
  imports Mq_Server_Inv Queue_Abstract
begin

text \<open>
  The read-only views of \<open>CMqServer\<close> that the web pages show: descriptors of queues, of subscribers and of
  messages, page by page. Each takes the locks it needs in a loop of its own and changes nothing. \<open>None\<close> in
  place of a result is the null of a server that stopped.
\<close>

section \<open>Descriptors\<close>

record CMqQueueDescriptor =
  qd_IsInitialized :: bool
  qd_IsStarted :: bool
  qd_ErrorMessage :: "string option"
  qd_ConsumptionScheme :: CMqConsumptionScheme
  qd_DeliveryScheme :: CMqDeliveryScheme
  qd_DeliveryThrottle :: ticks
  qd_MaxOutstandingDeliveries :: int
  qd_MaxDeliveryAttempts :: int
  qd_MaxMessageAge :: "ticks option"
  qd_PersistenceScheme :: CMqPersistenceScheme
  qd_QueueName :: string
  qd_CurrentSubscriberCount :: nat
  qd_QueueDepth :: int
  qd_CurrentOutstandingDeliveries :: int
  qd_ReceivedMessageCount :: u64
  qd_DeliveredMessageCount :: u64
  qd_FailedDeliveryCount :: u64
  qd_ExpiredMessageCount :: u64
  qd_DeferredDeliveryCount :: u64
  qd_ExplicitDeadLetterCount :: u64
  qd_ExplicitDropCount :: u64

definition queue_descriptor :: "'db queue \<Rightarrow> CMqQueueDescriptor" where
  "queue_descriptor q =
     \<lparr>qd_IsInitialized = IsInitialized q, qd_IsStarted = IsStarted q, qd_ErrorMessage = ErrorMessage q,
      qd_ConsumptionScheme = ConsumptionScheme (Configuration q), qd_DeliveryScheme = DeliveryScheme (Configuration q),
      qd_DeliveryThrottle = DeliveryThrottle (Configuration q),
      qd_MaxOutstandingDeliveries = MaxOutstandingDeliveries (Configuration q),
      qd_MaxDeliveryAttempts = MaxDeliveryAttempts (Configuration q), qd_MaxMessageAge = MaxMessageAge (Configuration q),
      qd_PersistenceScheme = PersistenceScheme (Configuration q), qd_QueueName = queue_name (Configuration q),
      qd_CurrentSubscriberCount = length (Subscribers q), qd_QueueDepth = QueueDepth (Statistics q),
      qd_CurrentOutstandingDeliveries = OutstandingDeliveries (Statistics q),
      qd_ReceivedMessageCount = ReceivedMessageCount (Statistics q),
      qd_DeliveredMessageCount = DeliveredMessageCount (Statistics q),
      qd_FailedDeliveryCount = FailedDeliveryCount (Statistics q),
      qd_ExpiredMessageCount = ExpiredMessageCount (Statistics q),
      qd_DeferredDeliveryCount = DeferredDeliveryCount (Statistics q),
      qd_ExplicitDeadLetterCount = ExplicitDeadLetterCount (Statistics q),
      qd_ExplicitDropCount = ExplicitDropCount (Statistics q)\<rparr>"

record CMqEnqueuedMessageDescriptor =
  ed_SerialNumber :: u64
  ed_MessageId :: guid
  ed_Timestamp :: ticks
  ed_AssemblyQualifiedTypeName :: string
  ed_MessageJson :: string
  ed_SubscriberCount :: nat
  ed_DeferredUntil :: "ticks option"
  ed_DeferredDeliveryCount :: int
  ed_SubscriberMessageDeliveries :: "guid set"
  ed_SatisfiedSubscribersSubscriberIDs :: "guid set"

text \<open>The descriptor of one message has no count of subscribers; a page of them has.\<close>

definition message_descriptor :: "nat \<Rightarrow> EnqueuedMessage \<Rightarrow> CMqEnqueuedMessageDescriptor" where
  "message_descriptor subscriberCount m =
     \<lparr>ed_SerialNumber = em_SerialNumber m, ed_MessageId = em_MessageId m, ed_Timestamp = em_Timestamp m,
      ed_AssemblyQualifiedTypeName = em_AssemblyQualifiedTypeName m, ed_MessageJson = em_MessageJson m,
      ed_SubscriberCount = subscriberCount, ed_DeferredUntil = em_DeferredUntil m,
      ed_DeferredDeliveryCount = em_DeferredCount m,
      ed_SubscriberMessageDeliveries = fst ` set (em_SubscriberMessageDeliveries m),
      ed_SatisfiedSubscribersSubscriberIDs = em_SatisfiedDeliverySubscriberIDs m\<rparr>"

record CMqEnqueuedMessageDescriptorCollection =
  dc_Messages :: "CMqEnqueuedMessageDescriptor list"
  dc_Offset :: int
  dc_Take :: int
  dc_Count :: nat
  dc_QueueDepth :: int

section \<open>Queues and subscribers\<close>

definition GetQueueNames :: "'db server \<Rightarrow> string list" where
  "GetQueueNames srv = map (\<lambda>(key, q). queue_name (Configuration q)) (messageQueues srv)"

text \<open>The loop over the queues stops at the first lock it does not get.\<close>

fun describe_queues :: "attempt \<Rightarrow> (string, 'db queue) dict \<Rightarrow> CMqQueueDescriptor list option" where
  "describe_queues a [] = Some []"
| "describe_queues a ((key, q) # qs) =
     (if at_lock a key then map_option (Cons (queue_descriptor q)) (describe_queues a qs) else None)"

definition GetQueues_body :: "('db server, CMqQueueDescriptor list option) loop_body" where
  "GetQueues_body a srv = (srv, Inr (map_option Some (describe_queues a (messageQueues srv))))"

definition GetQueues ::
  "ticks \<Rightarrow> ticks option \<Rightarrow> attempt list \<Rightarrow> 'db server \<Rightarrow> 'db server \<times> CMqQueueDescriptor list option loop_exit option" where
  "GetQueues now timeout as srv = return_not_running None (with_retry now timeout GetQueues_body as srv)"

definition GetQueue_body :: "string \<Rightarrow> ('db server, CMqQueueDescriptor option) loop_body" where
  "GetQueue_body queueName a srv =
     (srv, case find (\<lambda>(key, q). ToLowerInvariant key = ToLowerInvariant queueName) (messageQueues srv) of
        None \<Rightarrow> Inr (Some None)
      | Some (key, q) \<Rightarrow> if at_lock a key then Inr (Some (Some (queue_descriptor q))) else Inr None)"

definition GetQueue ::
  "ticks \<Rightarrow> ticks option \<Rightarrow> attempt list \<Rightarrow> string \<Rightarrow> 'db server \<Rightarrow> 'db server \<times> CMqQueueDescriptor option loop_exit option" where
  "GetQueue now timeout as queueName srv =
     return_not_running None (with_retry now timeout (GetQueue_body queueName) as srv)"

definition GetSubscribers_body :: "string \<Rightarrow> ('db server, CMqSubscriberDescriptor list option) loop_body" where
  "GetSubscribers_body queueName a srv =
     (srv, case find_queue (ToLowerInvariant queueName) srv of
        None \<Rightarrow> Inl (PlainException ''Queue not found'' queueName)
      | Some q \<Rightarrow>
          if at_lock a (ToLowerInvariant queueName) then Inr (Some (Some (map (\<lambda>(g, i). q_descriptors q i) (Subscribers q))))
          else Inr None)"

definition GetSubscribers ::
  "ticks \<Rightarrow> ticks option \<Rightarrow> attempt list \<Rightarrow> string \<Rightarrow> 'db server \<Rightarrow> 'db server \<times> CMqSubscriberDescriptor list option loop_exit option" where
  "GetSubscribers now timeout as queueName srv =
     return_not_running None (with_retry now timeout (GetSubscribers_body queueName) as srv)"

section \<open>Messages\<close>

text \<open>The entries an iterator gives, one descriptor each; a stored null gives none.\<close>

fun describe_entries :: "nat \<Rightarrow> db_entry list \<Rightarrow> cmq_error + CMqEnqueuedMessageDescriptor list" where
  "describe_entries subscriberCount [] = Inr []"
| "describe_entries subscriberCount ((key, json) # es) =
     (case Deserialize json of
        Inl e \<Rightarrow> Inl e
      | Inr persistedMessage \<Rightarrow>
          (case describe_entries subscriberCount es of
             Inl e \<Rightarrow> Inl e
           | Inr ds \<Rightarrow> Inr ((case persistedMessage of None \<Rightarrow> [] | Some m \<Rightarrow> [message_descriptor subscriberCount m]) @ ds)))"

definition describe_page :: "'db rocks_ops \<Rightarrow> int \<Rightarrow> int \<Rightarrow> 'db queue \<Rightarrow> cmq_error + CMqEnqueuedMessageDescriptor list" where
  "describe_page ops offset takes q =
     (if \<not> is_persistent q then
        Inr (map (\<lambda>i. message_descriptor (length (Subscribers q)) (q_objects q i)) (take (nat takes) (drop (nat offset) (buffer q))))
      else case database q of
          None \<Rightarrow> Inr []
        | Some d \<Rightarrow> describe_entries (length (Subscribers q)) (take (nat takes) (drop (nat offset) (rk_NewIterator ops d))))"

text \<open>The loop over the queues of that name; the state is the messages and the depth found so far.\<close>

fun read_pages ::
  "'db rocks_ops \<Rightarrow> attempt \<Rightarrow> int \<Rightarrow> int \<Rightarrow> (string, 'db queue) dict \<Rightarrow> CMqEnqueuedMessageDescriptor list \<times> int
     \<Rightarrow> cmq_error + (CMqEnqueuedMessageDescriptor list \<times> int) option" where
  "read_pages ops a offset takes [] r = Inr (Some r)"
| "read_pages ops a offset takes ((key, q) # qs) (result, depth) =
     (if \<not> at_lock a key then Inr None
      else case describe_page ops offset takes q of
          Inl e \<Rightarrow> Inl e
        | Inr ds \<Rightarrow> read_pages ops a offset takes qs (result @ ds, QueueDepth (Statistics q)))"

definition GetQueueMessages_body ::
  "'db server_env \<Rightarrow> string \<Rightarrow> int \<Rightarrow> int \<Rightarrow> ('db server, CMqEnqueuedMessageDescriptorCollection option) loop_body" where
  "GetQueueMessages_body env queueName offset takes a srv =
     (srv, case read_pages (env_ops env) a offset takes
         (filter (\<lambda>(key, q). ToLowerInvariant (queue_name (Configuration q)) = ToLowerInvariant queueName) (messageQueues srv)) ([], 0) of
        Inl e \<Rightarrow> Inl e
      | Inr None \<Rightarrow> Inr None
      | Inr (Some (result, depth)) \<Rightarrow>
          Inr (Some (Some \<lparr>dc_Messages = result, dc_Offset = offset, dc_Take = takes, dc_Count = length result, dc_QueueDepth = depth\<rparr>)))"

definition GetQueueMessages ::
  "'db server_env \<Rightarrow> ticks \<Rightarrow> ticks option \<Rightarrow> attempt list \<Rightarrow> string \<Rightarrow> int \<Rightarrow> int \<Rightarrow> 'db server
     \<Rightarrow> 'db server \<times> CMqEnqueuedMessageDescriptorCollection option loop_exit option" where
  "GetQueueMessages env now timeout as queueName offset takes srv =
     return_not_running None (with_retry now timeout (GetQueueMessages_body env queueName offset takes) as srv)"

definition find_message :: "'db server_env \<Rightarrow> string \<Rightarrow> u64 \<Rightarrow> 'db queue \<Rightarrow> cmq_error + EnqueuedMessage" where
  "find_message env queueName serialNumber q =
     (if \<not> is_persistent q then
        (case find (\<lambda>i. serial q i = serialNumber) (buffer q) of
           None \<Rightarrow> Inl (PlainException ''Message not found'' [])
         | Some i \<Rightarrow> Inr (q_objects q i))
      else if database q = None then Inl (PlainException ''Persistence database has not been initialized for'' queueName)
      else case RetrieveMessage (env_ops env) (env_le env) (database q) serialNumber of
          Inl e \<Rightarrow> Inl e
        | Inr None \<Rightarrow> Inl (PlainException ''Failed to deserialize message'' [])
        | Inr (Some m) \<Rightarrow> Inr m)"

text \<open>\<open>Substring(0, n)\<close> of a text longer than \<open>n\<close>; a negative length raises.\<close>

definition truncate_json :: "int option \<Rightarrow> CMqEnqueuedMessageDescriptor \<Rightarrow> cmq_error + CMqEnqueuedMessageDescriptor" where
  "truncate_json truncateToBytes d =
     (case truncateToBytes of
        None \<Rightarrow> Inr d
      | Some n \<Rightarrow>
          if int (length (ed_MessageJson d)) > n then
            (if n < 0 then Inl (ArgumentException ''length'')
             else Inr (d\<lparr>ed_MessageJson := take (nat n) (ed_MessageJson d)\<rparr>))
          else Inr d)"

definition GetQueueMessage_body ::
  "'db server_env \<Rightarrow> string \<Rightarrow> u64 \<Rightarrow> int option \<Rightarrow> ('db server, CMqEnqueuedMessageDescriptor option) loop_body" where
  "GetQueueMessage_body env queueName serialNumber truncateToBytes a srv =
     (srv, case find_queue (ToLowerInvariant queueName) srv of
        None \<Rightarrow> Inl (PlainException ''Queue not found'' queueName)
      | Some q \<Rightarrow>
          if \<not> at_lock a (ToLowerInvariant queueName) then Inr None
          else case find_message env queueName serialNumber q of
              Inl e \<Rightarrow> Inl e
            | Inr m \<Rightarrow> (case truncate_json truncateToBytes (message_descriptor 0 m) of
                 Inl e \<Rightarrow> Inl e
               | Inr d \<Rightarrow> Inr (Some (Some d))))"

definition GetQueueMessage ::
  "'db server_env \<Rightarrow> ticks \<Rightarrow> ticks option \<Rightarrow> attempt list \<Rightarrow> string \<Rightarrow> u64 \<Rightarrow> int option \<Rightarrow> 'db server
     \<Rightarrow> 'db server \<times> CMqEnqueuedMessageDescriptor option loop_exit option" where
  "GetQueueMessage env now timeout as queueName serialNumber truncateToBytes srv =
     return_not_running None (with_retry now timeout (GetQueueMessage_body env queueName serialNumber truncateToBytes) as srv)"

section \<open>The pages of the pending messages\<close>

text \<open>What a page shows of a stored message, apart from how far its delivery has come.\<close>

fun doc_descriptor :: "nat \<Rightarrow> json_doc \<Rightarrow> CMqEnqueuedMessageDescriptor" where
  "doc_descriptor n (JMessage d) =
     \<lparr>ed_SerialNumber = md_SerialNumber d, ed_MessageId = md_MessageId d, ed_Timestamp = md_Timestamp d,
      ed_AssemblyQualifiedTypeName = md_AssemblyQualifiedTypeName d, ed_MessageJson = md_MessageJson d,
      ed_SubscriberCount = n, ed_DeferredUntil = md_DeferredUntil d, ed_DeferredDeliveryCount = md_DeferredCount d,
      ed_SubscriberMessageDeliveries = {}, ed_SatisfiedSubscribersSubscriberIDs = {}\<rparr>"
| "doc_descriptor n _ = message_descriptor n (EnqueuedMessage_new 0 [] [] [] 0)"

definition without_progress :: "CMqEnqueuedMessageDescriptor \<Rightarrow> CMqEnqueuedMessageDescriptor" where
  "without_progress d = d\<lparr>ed_SubscriberMessageDeliveries := {}, ed_SatisfiedSubscribersSubscriberIDs := {}\<rparr>"

lemma without_progress_Serialize [simp]: "without_progress (message_descriptor n m) = doc_descriptor n (Serialize m)"
  by (simp add: without_progress_def message_descriptor_def Serialize_def)

lemma descriptor_forget [simp]: "message_descriptor n (forget_delivery m) = doc_descriptor n (Serialize m)"
  by (simp add: message_descriptor_def Serialize_def forget_delivery_def)

lemma describe_entries_ok:
  "\<forall>e \<in> set es. entry_ok le mx e \<Longrightarrow> describe_entries n es = Inr (map (doc_descriptor n \<circ> snd) es)"
proof (induction es)
  case (Cons e es)
  then obtain m where e: "e = (ToKey le (em_SerialNumber m), Serialize m)" by (auto simp: entry_ok_def)
  show ?case using Cons by (simp add: e Deserialize_Serialize)
qed simp

lemma without_progress_doc: "without_progress (doc_descriptor n j) = doc_descriptor n j"
  by (cases j) (simp_all add: without_progress_def message_descriptor_def EnqueuedMessage_new_def)

lemma describe_page_pending:
  assumes "queue_ok ops le q"
  shows "\<exists>ds. describe_page ops offset takes q = Inr ds \<and>
    map without_progress ds = map (doc_descriptor (length (Subscribers q))) (take (nat takes) (drop (nat offset) (pending ops q)))"
proof (cases "is_persistent q")
  case False
  then show ?thesis by (simp add: describe_page_def pending_def take_map drop_map comp_def)
next
  case True
  show ?thesis
  proof (cases "database q")
    case None
    then show ?thesis using True by (simp add: describe_page_def pending_def)
  next
    case (Some d)
    have "\<forall>e \<in> set (rk_NewIterator ops d). entry_ok le (lastSerialNumber (Statistics q)) e"
      using assms True Some by (simp add: queue_ok_def persistent_ok_def db_ok_def)
    then have "\<forall>e \<in> set (take (nat takes) (drop (nat offset) (rk_NewIterator ops d))). entry_ok le (lastSerialNumber (Statistics q)) e"
      by (meson in_set_dropD in_set_takeD)
    from describe_entries_ok [OF this, of "length (Subscribers q)"] show ?thesis
      using True Some by (simp add: describe_page_def pending_def take_map drop_map comp_def without_progress_doc)
  qed
qed

lemma filter_registered:
  assumes "registry_ok srv" "find_queue (ToLowerInvariant queueName) srv = Some q"
  shows "filter (\<lambda>(key, q). ToLowerInvariant (queue_name (Configuration q)) = ToLowerInvariant queueName) (messageQueues srv)
    = [(ToLowerInvariant queueName, q)]"
proof -
  let ?key = "ToLowerInvariant queueName"
  have "filter (\<lambda>(key, q). ToLowerInvariant (queue_name (Configuration q)) = ?key) (messageQueues srv) = filter (\<lambda>e. fst e = ?key) (messageQueues srv)"
    using assms(1) by (intro filter_cong) (auto simp: registry_ok_def entry_key_ok_def)
  also have "filter (\<lambda>e. fst e = ?key) d = [(?key, q)]" if "dict_ok d" "map_of d ?key = Some q" for d :: "(string, 'a queue) dict"
    using that
  proof (induction d)
    case (Cons e d)
    have "filter (\<lambda>e. fst e = ?key) d = []" if "fst e = ?key"
      using Cons.prems(1) that by (force simp: dict_ok_def filter_empty_conv)
    then show ?case using Cons by (cases e) (auto simp: dict_ok_def)
  qed simp
  then have "filter (\<lambda>e. fst e = ?key) (messageQueues srv) = [(?key, q)]"
    using assms by (simp add: registry_ok_def find_queue_def)
  finally show ?thesis .
qed

lemma GetQueueMessages_page:
  assumes "server_ok env srv" "find_queue (ToLowerInvariant queueName) srv = Some q" "at_running a"
    "at_tick a < now + timeout_or_default timeout" "at_lock a (ToLowerInvariant queueName)"
  shows "\<exists>page. GetQueueMessages env now timeout (a # as) queueName offset takes srv = (srv, Some (Returned (Some page)))
    \<and> map without_progress (dc_Messages page)
        = map (doc_descriptor (length (Subscribers q))) (take (nat takes) (drop (nat offset) (pending (env_ops env) q)))
    \<and> dc_Count page = length (dc_Messages page) \<and> dc_QueueDepth page = QueueDepth (Statistics q)"
proof -
  have "queue_ok (env_ops env) (env_le env) q" using server_ok_find [OF assms(1,2)] .
  then obtain ds where ds: "describe_page (env_ops env) offset takes q = Inr ds"
    "map without_progress ds = map (doc_descriptor (length (Subscribers q))) (take (nat takes) (drop (nat offset) (pending (env_ops env) q)))"
    using describe_page_pending by blast
  have reg: "registry_ok srv" using assms(1) by (simp add: server_ok_def)
  show ?thesis
    using assms(3-5) ds
    by (simp add: GetQueueMessages_def with_retry_def Let_def return_not_running_def GetQueueMessages_body_def
        filter_registered [OF reg assms(2)])
qed

text \<open>The message of a page, asked for by its number, is the message shown.\<close>

lemma find_message_pending:
  assumes "queue_ok (env_ops env) (env_le env) q" "rocksdb (env_ops env)" "is_persistent q \<longrightarrow> database q \<noteq> None"
  shows "case find_message env name s q of
      Inr m \<Rightarrow> Serialize m \<in> set (pending (env_ops env) q) \<and> em_SerialNumber m = s
    | Inl e \<Rightarrow> \<forall>j \<in> set (pending (env_ops env) q). doc_serial j \<noteq> Some s"
proof (cases "is_persistent q")
  case False
  then show ?thesis
    by (cases "find (\<lambda>i. serial q i = s) (buffer q)")
       (auto simp: find_message_def pending_def dest: find_Some_mem find_None_all)
next
  case True
  then obtain d where d: "database q = Some d" using assms(3) by blast
  have ok: "\<forall>e \<in> set (rk_NewIterator (env_ops env) d). entry_ok (env_le env) (lastSerialNumber (Statistics q)) e"
    using assms(1) True d by (simp add: queue_ok_def persistent_ok_def db_ok_def)
  let ?it = "rk_NewIterator (env_ops env) d"
  have get: "rk_Get (env_ops env) d (ToKey (env_le env) s) = map_of ?it (ToKey (env_le env) s)"
    using rocksdb.get_iter [OF assms(2)] .
  show ?thesis
  proof (cases "map_of ?it (ToKey (env_le env) s)")
    case None
    have "doc_serial (snd e) \<noteq> Some s" if "e \<in> set ?it" for e
      using None ok that by (auto simp: map_of_eq_None_iff entry_ok_def rev_image_eqI)
    then show ?thesis using None True d get by (auto simp: find_message_def RetrieveMessage_def pending_def)
  next
    case (Some j)
    then have "(ToKey (env_le env) s, j) \<in> set ?it" by (rule map_of_SomeD)
    moreover then obtain m where m: "ToKey (env_le env) s = ToKey (env_le env) (em_SerialNumber m)" "j = Serialize m"
      using ok by (fastforce simp: entry_ok_def)
    ultimately have "Serialize m \<in> set (pending (env_ops env) q)" using True d by (force simp: pending_def)
    moreover have "Serialize (forget_delivery m) = Serialize m" "em_SerialNumber (forget_delivery m) = em_SerialNumber m"
      by (simp_all add: Serialize_def forget_delivery_def)
    ultimately show ?thesis
      using Some True d get m by (simp add: find_message_def RetrieveMessage_def Deserialize_Serialize)
  qed
qed

end
