(* ===== verification/Historical_Statistics.thy ===== *)
theory Historical_Statistics
  imports CMq_Types "HOL-Library.Multiset"
begin

text \<open>
  \<open>HistoricalStatistics\<close>: the record of a queue's rates that the chart of the web pages is drawn from, in
  slots of ten seconds. Rates are numbers of a linearly ordered field; the container that turns counters
  into rates is a package, given by what it answers.
\<close>

section \<open>Slots\<close>

record 'r queue_rates =
  ReceiveRate :: 'r
  DeliveryRate :: 'r
  ExpiracyRate :: 'r
  FailedDeliveryRate :: 'r
  DeferredDeliveryRate :: 'r
  ExplicitDeadLetterRate :: 'r
  ExplicitDropRate :: 'r

record 'r CMqPerQueueHistoricalStatisticsDescriptor =
  hs_Samples :: int
  hs_rates :: "'r queue_rates"
  hs_OutstandingDeliveries :: int
  hs_QueueDepth :: int

definition zip_rates :: "('r \<Rightarrow> 'r \<Rightarrow> 'r) \<Rightarrow> 'r queue_rates \<Rightarrow> 'r queue_rates \<Rightarrow> 'r queue_rates" where
  "zip_rates f a b =
     \<lparr>ReceiveRate = f (ReceiveRate a) (ReceiveRate b), DeliveryRate = f (DeliveryRate a) (DeliveryRate b),
      ExpiracyRate = f (ExpiracyRate a) (ExpiracyRate b), FailedDeliveryRate = f (FailedDeliveryRate a) (FailedDeliveryRate b),
      DeferredDeliveryRate = f (DeferredDeliveryRate a) (DeferredDeliveryRate b),
      ExplicitDeadLetterRate = f (ExplicitDeadLetterRate a) (ExplicitDeadLetterRate b),
      ExplicitDropRate = f (ExplicitDropRate a) (ExplicitDropRate b)\<rparr>"

definition Merge :: "'r::linordered_field CMqPerQueueHistoricalStatisticsDescriptor \<Rightarrow> 'r CMqPerQueueHistoricalStatisticsDescriptor
    \<Rightarrow> 'r CMqPerQueueHistoricalStatisticsDescriptor" where
  "Merge this other = this\<lparr>hs_rates := zip_rates (+) (hs_rates this) (hs_rates other),
     hs_QueueDepth := hs_QueueDepth this + hs_QueueDepth other,
     hs_OutstandingDeliveries := hs_OutstandingDeliveries this + hs_OutstandingDeliveries other\<rparr>"

text \<open>A clone does not take the number of samples along.\<close>

definition Clone :: "'r CMqPerQueueHistoricalStatisticsDescriptor \<Rightarrow> 'r CMqPerQueueHistoricalStatisticsDescriptor" where
  "Clone this = this\<lparr>hs_Samples := 0\<rparr>"

section \<open>Updates\<close>

text \<open>Times are in ticks of which \<open>ticks_per_second\<close> make a second; a slot is the start of its ten seconds.\<close>

definition ticks_per_second :: int where
  "ticks_per_second = 10000000"

definition slot_of :: "ticks \<Rightarrow> ticks" where
  "slot_of utcNow = utcNow div (10 * ticks_per_second) * (10 * ticks_per_second)"

record ('d, 'r) HistoricalStatistics =
  hs_deltaContainer :: 'd
  hs_maxHistoryIntervals :: int
  hs_slots :: "(ticks, 'r CMqPerQueueHistoricalStatisticsDescriptor) dict"

type_synonym ('d, 'r) per_second = "string \<Rightarrow> ticks \<Rightarrow> u64 \<Rightarrow> 'd \<Rightarrow> 'd \<times> 'r option"

definition HistoricalStatistics_new :: "'d \<Rightarrow> int \<Rightarrow> ('d, 'r) HistoricalStatistics" where
  "HistoricalStatistics_new d maxDatapoints = \<lparr>hs_deltaContainer = d, hs_maxHistoryIntervals = maxDatapoints, hs_slots = []\<rparr>"

text \<open>The oldest keys, as many as there are too many.\<close>

definition keysToRemove :: "int \<Rightarrow> (ticks, 'v) dict \<Rightarrow> ticks list" where
  "keysToRemove limit d = take (nat (int (length d) - limit)) (sort (map fst d))"

definition trim_slots :: "int \<Rightarrow> (ticks, 'v) dict \<Rightarrow> (ticks, 'v) dict" where
  "trim_slots limit d = (if int (length d) > limit then foldl (\<lambda>d k. dict_remove k d) d (keysToRemove limit d) else d)"

definition or_zero :: "'r::zero option \<Rightarrow> 'r" where
  "or_zero r = (case r of None \<Rightarrow> 0 | Some x \<Rightarrow> x)"

definition calculate_rates ::
  "('d, 'r::linordered_field) per_second \<Rightarrow> ticks \<Rightarrow> MessageQueueStatistics \<Rightarrow> 'd \<Rightarrow> 'd \<times> 'r queue_rates" where
  "calculate_rates perSecond now st d =
     (let (d, receiveRate) = perSecond ''ReceivedMessageCount'' now (ReceivedMessageCount st) d;
          (d, deliveryRate) = perSecond ''DeliveredMessageCount'' now (DeliveredMessageCount st) d;
          (d, expiracyRate) = perSecond ''ExpiredMessageCount'' now (ExpiredMessageCount st) d;
          (d, failedDeliveryRate) = perSecond ''FailedDeliveryCount'' now (FailedDeliveryCount st) d;
          (d, deferredDeliveryRate) = perSecond ''DeferredDeliveryCount'' now (DeferredDeliveryCount st) d;
          (d, explicitDeadLetterRate) = perSecond ''ExplicitDeadLetterCount'' now (ExplicitDeadLetterCount st) d;
          (d, explicitDropRate) = perSecond ''ExplicitDropCount'' now (ExplicitDropCount st) d
      in (d, \<lparr>ReceiveRate = or_zero receiveRate, DeliveryRate = or_zero deliveryRate, ExpiracyRate = or_zero expiracyRate,
              FailedDeliveryRate = or_zero failedDeliveryRate, DeferredDeliveryRate = or_zero deferredDeliveryRate,
              ExplicitDeadLetterRate = or_zero explicitDeadLetterRate, ExplicitDropRate = or_zero explicitDropRate\<rparr>))"

definition sample_slot ::
  "MessageQueueStatistics \<Rightarrow> 'r::linordered_field queue_rates \<Rightarrow> 'r CMqPerQueueHistoricalStatisticsDescriptor option
     \<Rightarrow> 'r CMqPerQueueHistoricalStatisticsDescriptor" where
  "sample_slot st rates existingSlot =
     (case existingSlot of
        Some s \<Rightarrow> \<lparr>hs_Samples = wrap_i32 (hs_Samples s + 1), hs_rates = zip_rates (+) (hs_rates s) rates,
                   hs_OutstandingDeliveries = OutstandingDeliveries st, hs_QueueDepth = QueueDepth st\<rparr>
      | None \<Rightarrow> \<lparr>hs_Samples = 1, hs_rates = rates,
                 hs_OutstandingDeliveries = OutstandingDeliveries st, hs_QueueDepth = QueueDepth st\<rparr>)"

definition UpdateCurrentStatistics ::
  "('d, 'r::linordered_field) per_second \<Rightarrow> ticks \<Rightarrow> ticks \<Rightarrow> MessageQueueStatistics \<Rightarrow> ('d, 'r) HistoricalStatistics
     \<Rightarrow> ('d, 'r) HistoricalStatistics" where
  "UpdateCurrentStatistics perSecond utcNow now st h =
     (let slot = slot_of utcNow;
          slots = trim_slots (hs_maxHistoryIntervals h) (hs_slots h);
          (d, rates) = calculate_rates perSecond now st (hs_deltaContainer h)
      in h\<lparr>hs_deltaContainer := d, hs_slots := dict_put slot (sample_slot st rates (map_of slots slot)) slots\<rparr>)"

section \<open>What the chart is given\<close>

definition average :: "'r::linordered_field CMqPerQueueHistoricalStatisticsDescriptor \<Rightarrow> 'r CMqPerQueueHistoricalStatisticsDescriptor" where
  "average s = \<lparr>hs_Samples = 0, hs_rates = zip_rates (\<lambda>x _. x / of_int (hs_Samples s)) (hs_rates s) (hs_rates s),
     hs_OutstandingDeliveries = hs_OutstandingDeliveries s, hs_QueueDepth = hs_QueueDepth s\<rparr>"

definition GetQueueStatistics ::
  "('d, 'r::linordered_field) HistoricalStatistics \<Rightarrow> (ticks, 'r CMqPerQueueHistoricalStatisticsDescriptor) dict" where
  "GetQueueStatistics h = map (\<lambda>(t, s). (t, average s)) (hs_slots h)"

definition merge_slot ::
  "(ticks, 'r::linordered_field CMqPerQueueHistoricalStatisticsDescriptor) dict \<Rightarrow> ticks \<times> 'r CMqPerQueueHistoricalStatisticsDescriptor
     \<Rightarrow> (ticks, 'r CMqPerQueueHistoricalStatisticsDescriptor) dict" where
  "merge_slot results = (\<lambda>(t, s). case map_of results t of
      Some existingResult \<Rightarrow> dict_put t (Merge existingResult s) results
    | None \<Rightarrow> dict_put t (Clone s) results)"

text \<open>The histories of the queues, under the queues' keys.\<close>

definition GetQueueHistoricalStatistics ::
  "string \<Rightarrow> (string, ('d, 'r::linordered_field) HistoricalStatistics) dict \<Rightarrow> (ticks, 'r CMqPerQueueHistoricalStatisticsDescriptor) dict" where
  "GetQueueHistoricalStatistics queueName hs =
     (case find (\<lambda>(key, h). ToLowerInvariant key = ToLowerInvariant queueName) hs of
        None \<Rightarrow> []
      | Some (key, h) \<Rightarrow> GetQueueStatistics h)"

definition GetAllQueuesHistoricalStatistics ::
  "(string, ('d, 'r::linordered_field) HistoricalStatistics) dict \<Rightarrow> (ticks, 'r CMqPerQueueHistoricalStatisticsDescriptor) dict" where
  "GetAllQueuesHistoricalStatistics hs = foldl (\<lambda>results (key, h). foldl merge_slot results (GetQueueStatistics h)) [] hs"

section \<open>The number of slots\<close>

lemma fold_dict_remove: "foldl (\<lambda>d k. dict_remove k d) d ks = filter (\<lambda>e. fst e \<notin> set ks) d"
proof (induction ks arbitrary: d)
  case (Cons k ks)
  have "dict_remove k d = filter (\<lambda>e. fst e \<noteq> k) d" by (induction d) auto
  then show ?case using Cons.IH by (simp add: conj_commute)
qed simp

lemma trim_slots_filter: "\<exists>P. trim_slots limit d = filter P d"
  unfolding trim_slots_def fold_dict_remove by (metis filter_True)

lemma dict_ok_filter: "dict_ok d \<Longrightarrow> dict_ok (filter P d)"
  by (simp add: dict_ok_def distinct_map_filter)

lemma length_trim_slots:
  assumes "dict_ok d"
  shows "int (length (trim_slots limit d)) \<le> max 0 limit"
proof (cases "int (length d) > limit")
  case False
  then show ?thesis by (simp add: trim_slots_def)
next
  case True
  let ?ks = "keysToRemove limit d"
  have "distinct (sort (map fst d))" using assms by (simp add: dict_ok_def)
  then have card: "card (set ?ks) = min (length d) (nat (int (length d) - limit))"
    by (simp add: keysToRemove_def distinct_card)
  have sub: "set ?ks \<subseteq> fst ` set d" using set_take_subset by (fastforce simp: keysToRemove_def)
  have "length (filter (\<lambda>e. fst e \<notin> set ?ks) d) = card (fst ` set d - set ?ks)"
  proof -
    have "length (filter (\<lambda>e. fst e \<notin> set ?ks) d) = length (filter (\<lambda>k. k \<notin> set ?ks) (map fst d))"
      by (simp add: filter_map comp_def)
    also have "\<dots> = card (set (filter (\<lambda>k. k \<notin> set ?ks) (map fst d)))"
      using assms by (intro distinct_card [symmetric]) (simp add: dict_ok_def)
    also have "set (filter (\<lambda>k. k \<notin> set ?ks) (map fst d)) = fst ` set d - set ?ks" by auto
    finally show ?thesis .
  qed
  also have "\<dots> = card (fst ` set d) - card (set ?ks)" using sub by (intro card_Diff_subset) simp_all
  also have "card (fst ` set d) = length d" using distinct_card [of "map fst d"] assms by (simp add: dict_ok_def)
  finally show ?thesis using True card by (simp add: trim_slots_def fold_dict_remove)
qed

text \<open>What is trimmed is older than all that stays.\<close>

lemma trimmed_older:
  assumes "dict_ok d" "k \<in> fst ` set d" "k \<notin> fst ` set (trim_slots limit d)" "k' \<in> fst ` set (trim_slots limit d)"
  shows "k < k'"
proof -
  let ?s = "sort (map fst d)" and ?n = "nat (int (length d) - limit)"
  have trimmed: "trim_slots limit d = filter (\<lambda>e. fst e \<notin> set (keysToRemove limit d)) d"
    using assms(2,3) by (auto simp: trim_slots_def fold_dict_remove split: if_splits)
  have k: "k \<in> set (take ?n ?s)" using assms(2,3) trimmed by (auto simp: keysToRemove_def)
  have "k' \<notin> set (take ?n ?s)" "k' \<in> set ?s" using assms(4) trimmed by (auto simp: keysToRemove_def)
  then have k': "k' \<in> set (drop ?n ?s)" by (metis Un_iff append_take_drop_id set_append)
  have "sorted_wrt (<) ?s" using assms(1) by (simp add: dict_ok_def strict_sorted_iff)
  then have "sorted_wrt (<) (take ?n ?s @ drop ?n ?s)" by simp
  then show ?thesis using k k' by (simp only: sorted_wrt_append)
qed

inductive history_reachable ::
  "('d, 'r::linordered_field) per_second \<Rightarrow> 'd \<Rightarrow> int \<Rightarrow> ('d, 'r) HistoricalStatistics \<Rightarrow> bool" for perSecond d limit where
  fresh: "history_reachable perSecond d limit (HistoricalStatistics_new d limit)"
| update: "history_reachable perSecond d limit h \<Longrightarrow>
    history_reachable perSecond d limit (UpdateCurrentStatistics perSecond utcNow now st h)"

lemma history_ok:
  assumes "history_reachable perSecond d limit h"
  shows "hs_maxHistoryIntervals h = limit \<and> dict_ok (hs_slots h) \<and> int (length (hs_slots h)) \<le> max 0 limit + 1
    \<and> (\<forall>t \<in> fst ` set (hs_slots h). slot_of t = t)"
  using assms
proof induction
  case (update h utcNow now st)
  let ?slots = "trim_slots limit (hs_slots h)"
  have h: "hs_maxHistoryIntervals h = limit" "dict_ok (hs_slots h)" "\<forall>t \<in> fst ` set (hs_slots h). slot_of t = t" using update.IH by auto
  obtain P where P: "?slots = filter P (hs_slots h)" using trim_slots_filter by blast
  have ok: "dict_ok ?slots" "\<forall>t \<in> fst ` set ?slots. slot_of t = t" using h dict_ok_filter [of "hs_slots h" P] by (auto simp: P)
  have "slot_of (slot_of utcNow) = slot_of utcNow" by (simp add: slot_of_def ticks_per_second_def)
  moreover have "\<forall>t \<in> set (dict_put k v e). slot_of (fst t) = fst t" if "slot_of k = k" "\<forall>t \<in> set e. slot_of (fst t) = fst t"
    for k and v :: "'b CMqPerQueueHistoricalStatisticsDescriptor" and e
    using that by (induction e) auto
  moreover have "int (length (dict_put k v ?slots)) \<le> max 0 limit + 1" for k v
    using length_trim_slots [OF h(2), of limit] by (simp add: length_dict_put)
  ultimately show ?case
    using h ok by (simp add: UpdateCurrentStatistics_def Let_def split: prod.split)
qed (simp add: HistoricalStatistics_new_def)

section \<open>Totals\<close>

lemma map_of_merge_slot:
  "map_of (merge_slot results (t, s)) t' =
     (if t' = t then Some (case map_of results t of Some r \<Rightarrow> Merge r s | None \<Rightarrow> Clone s) else map_of results t')"
  by (auto simp: merge_slot_def map_of_dict_put split: option.split)

text \<open>What the queues say of a slot, queue by queue.\<close>

definition slots_at :: "ticks \<Rightarrow> (ticks, 'r::linordered_field CMqPerQueueHistoricalStatisticsDescriptor) dict
    \<Rightarrow> 'r CMqPerQueueHistoricalStatisticsDescriptor list" where
  "slots_at t d = map snd (filter (\<lambda>e. fst e = t) d)"

definition total :: "('r CMqPerQueueHistoricalStatisticsDescriptor \<Rightarrow> 's::comm_monoid_add) \<Rightarrow> 'r CMqPerQueueHistoricalStatisticsDescriptor list \<Rightarrow> 's" where
  "total f ss = sum_list (map f ss)"

lemma fold_merge_total:
  assumes merge: "\<And>r s. f (Merge r s) = f r + f s" and clone: "\<And>s. f (Clone s) = f s"
  shows "map_option f (map_of (foldl merge_slot results d) t)
    = (if map_of results t = None \<and> slots_at t d = [] then None
       else Some ((case map_of results t of None \<Rightarrow> 0 | Some r \<Rightarrow> f r) + total f (slots_at t d)))"
proof (induction d arbitrary: results)
  case Nil
  then show ?case by (simp add: slots_at_def total_def split: option.split)
next
  case (Cons e d)
  obtain t' s where e: "e = (t', s)" by (cases e)
  show ?case
    unfolding foldl_Cons Cons.IH
    by (simp add: e map_of_merge_slot slots_at_def total_def merge clone add.assoc split: option.split)
qed

lemma fold_concat:
  "foldl (\<lambda>results (key, h). foldl merge_slot results (g h)) r hs = foldl merge_slot r (concat (map (g \<circ> snd) hs))"
  by (induction hs arbitrary: r) auto

lemma all_queues_total:
  assumes "\<And>r s. f (Merge r s) = f r + f s" "\<And>s. f (Clone s) = f s"
  shows "map_option f (map_of (GetAllQueuesHistoricalStatistics hs) t)
    = (let ss = slots_at t (concat (map (GetQueueStatistics \<circ> snd) hs)) in if ss = [] then None else Some (total f ss))"
  unfolding GetAllQueuesHistoricalStatistics_def fold_concat
  using fold_merge_total [of f, OF assms, of "[]" "concat (map (GetQueueStatistics \<circ> snd) hs)" t] by (simp add: Let_def)

end
