(* ===== verification/View_Properties.thy ===== *)
theory View_Properties
  imports Complex_Main Mq_Views Historical_Statistics Sample_Broker
begin

text \<open>The properties of what the server shows: the pages of messages and the history of rates.\<close>

section \<open>Pages\<close>

text \<open>
  C25. A page of messages is a slice of the queue's pending messages, in their order, whether they are kept in
  memory or in the database, with the depth gauge beside it; and a message asked for by its number is found
  exactly if it is pending. Nothing of the server changes.
\<close>

theorem pages_show_pending_messages:
  assumes "server_ok env srv" "env_ok env" "find_queue (ToLowerInvariant name) srv = Some q" "is_persistent q \<longrightarrow> database q \<noteq> None"
    "at_running a" "at_tick a < now + timeout_or_default timeout" "at_lock a (ToLowerInvariant name)"
  shows "(\<exists>page. GetQueueMessages env now timeout (a # as) name offset takes srv = (srv, Some (Returned (Some page)))
      \<and> map without_progress (dc_Messages page)
          = map (doc_descriptor (length (Subscribers q))) (take (nat takes) (drop (nat offset) (pending (env_ops env) q)))
      \<and> dc_QueueDepth page = wrap_i32 (int (length (pending (env_ops env) q))))
    \<and> fst (GetQueueMessage env now timeout (a # as) name s None srv) = srv
    \<and> ((\<exists>d. snd (GetQueueMessage env now timeout (a # as) name s None srv) = Some (Returned (Some d)) \<and> ed_SerialNumber d = s)
       \<longleftrightarrow> (\<exists>j \<in> set (pending (env_ops env) q). doc_serial j = Some s))"
proof (intro conjI)
  have ok: "queue_ok (env_ops env) (env_le env) q" using server_ok_find [OF assms(1,3)] .
  have rocks: "rocksdb (env_ops env)" using assms(2) by (simp add: env_ok_def)
  show "\<exists>page. GetQueueMessages env now timeout (a # as) name offset takes srv = (srv, Some (Returned (Some page)))
      \<and> map without_progress (dc_Messages page)
          = map (doc_descriptor (length (Subscribers q))) (take (nat takes) (drop (nat offset) (pending (env_ops env) q)))
      \<and> dc_QueueDepth page = wrap_i32 (int (length (pending (env_ops env) q)))"
    using GetQueueMessages_page [OF assms(1,3,5-7)] rocksdb.pending_depth [OF rocks ok] assms(4) by metis
  have "GetQueueMessage env now timeout (a # as) name s None srv = (srv, Some (case find_message env name s q of
      Inl e \<Rightarrow> Raised e | Inr m \<Rightarrow> Returned (Some (message_descriptor 0 m))))"
    using assms(3,5-7)
    by (simp add: GetQueueMessage_def with_retry_def Let_def return_not_running_def GetQueueMessage_body_def truncate_json_def
        split: sum.split)
  then show "fst (GetQueueMessage env now timeout (a # as) name s None srv) = srv"
    and "(\<exists>d. snd (GetQueueMessage env now timeout (a # as) name s None srv) = Some (Returned (Some d)) \<and> ed_SerialNumber d = s)
       \<longleftrightarrow> (\<exists>j \<in> set (pending (env_ops env) q). doc_serial j = Some s)"
    using find_message_pending [OF ok rocks assms(4), of s name]
    by (auto simp: message_descriptor_def intro!: bexI [of _ "Serialize m" for m] split: sum.splits)
qed

definition sample_view_server :: "rbt_db server" where
  "sample_view_server = (CMqServer_new None)\<lparr>s_isRunning := True, messageQueues := [(''jobs'', sample_ephemeral)]\<rparr>"

lemma sample_view_server_ok: "server_ok sample_env sample_view_server"
proof -
  have "ToLowerInvariant ''Jobs'' = ''jobs''" by code_simp
  then show ?thesis
    using sample_ephemeral_ok
    by (simp add: server_ok_def registry_ok_def disk_ok_def sample_view_server_def CMqServer_new_def dict_ok_def entry_key_ok_def
        config_ok_def sample_env_def)
       (simp add: sample_ephemeral_def queue_name_def CMqQueueConfiguration_empty_def valid_name_iff is_white_def InvalidQueueNameChars_def)
qed

definition granting :: attempt where
  "granting = \<lparr>at_running = True, at_tick = 0, at_lock = (\<lambda>_. True)\<rparr>"

lemma sample_view_facts:
  "find_queue (ToLowerInvariant ''JOBS'') sample_view_server = Some sample_ephemeral" "\<not> is_persistent sample_ephemeral"
  "length (Subscribers sample_ephemeral) = 2" "at_running granting" "at_tick granting < 0 + timeout_or_default None"
  "at_lock granting (ToLowerInvariant ''JOBS'')" "env_ops sample_env = rbt_ops"
proof -
  have "ToLowerInvariant ''JOBS'' = ''jobs''" by code_simp
  then show "find_queue (ToLowerInvariant ''JOBS'') sample_view_server = Some sample_ephemeral"
    by (simp add: sample_view_server_def find_queue_def)
qed (simp_all add: sample_ephemeral_def CMqQueueConfiguration_empty_def granting_def timeout_or_default_def DEFAULT_LOCK_TIMEOUT_MS_def
    sample_env_def)

theorem pages_show_pending_messages_witness:
  "\<exists>page. GetQueueMessages sample_env 0 None [granting] ''JOBS'' 1 5 sample_view_server = (sample_view_server, Some (Returned (Some page)))
    \<and> map ed_SerialNumber (dc_Messages page) = [2]"
proof -
  have "is_persistent sample_ephemeral \<longrightarrow> database sample_ephemeral \<noteq> None" using sample_view_facts(2) by blast
  note conjunct1 [OF pages_show_pending_messages [OF sample_view_server_ok sample_env_ok sample_view_facts(1) this sample_view_facts(4-6),
      of "[]" 1 5]]
  then obtain page where "GetQueueMessages sample_env 0 None [granting] ''JOBS'' 1 5 sample_view_server
      = (sample_view_server, Some (Returned (Some page)))
    \<and> map without_progress (dc_Messages page) = map (doc_descriptor (length (Subscribers sample_ephemeral)))
        (take (nat 5) (drop (nat 1) (pending (env_ops sample_env) sample_ephemeral)))
    \<and> dc_QueueDepth page = wrap_i32 (int (length (pending (env_ops sample_env) sample_ephemeral)))"
    by (elim exE)
  then have page: "GetQueueMessages sample_env 0 None [granting] ''JOBS'' 1 5 sample_view_server
      = (sample_view_server, Some (Returned (Some page)))"
    "map without_progress (dc_Messages page) = map (doc_descriptor 2) (take (nat 5) (drop (nat 1) (pending rbt_ops sample_ephemeral)))"
    unfolding sample_view_facts(3,7) by (rule conjunct1, rule conjunct1 [OF conjunct2])
  have "map ed_SerialNumber (dc_Messages page) = map ed_SerialNumber (map without_progress (dc_Messages page))"
    by (simp add: without_progress_def)
  also have "\<dots> = [2]"
    unfolding page(2)
    by (simp add: pending_def sample_ephemeral_def CMqQueueConfiguration_empty_def Serialize_def sample_message_def EnqueuedMessage_new_def)
  finally show ?thesis using page(1) by (intro exI [of _ page] conjI)
qed

section \<open>History\<close>

text \<open>
  C26. The history of a queue holds at most one slot more than its limit, whatever samples were taken and
  however the clock went, and a sample drops only slots that are older than every old slot it keeps. The
  slot more is there because the dictionary is trimmed before the new slot is put in.
\<close>

theorem history_is_bounded:
  assumes "history_reachable perSecond d limit h"
  shows "int (length (hs_slots h)) \<le> max 0 limit + 1 \<and> distinct (map fst (hs_slots h))
    \<and> (\<forall>k \<in> fst ` set (hs_slots h). \<forall>k' \<in> fst ` set (hs_slots (UpdateCurrentStatistics perSecond utcNow now st h)).
         k \<notin> fst ` set (hs_slots (UpdateCurrentStatistics perSecond utcNow now st h)) \<longrightarrow> k' \<noteq> slot_of utcNow \<longrightarrow> k < k')"
proof (intro conjI ballI impI)
  have h: "hs_maxHistoryIntervals h = limit" "dict_ok (hs_slots h)" "int (length (hs_slots h)) \<le> max 0 limit + 1"
    using history_ok [OF assms] by auto
  show "int (length (hs_slots h)) \<le> max 0 limit + 1" by (rule h(3))
  show "distinct (map fst (hs_slots h))" using h(2) by (simp add: dict_ok_def)
  fix k k'
  let ?h = "UpdateCurrentStatistics perSecond utcNow now st h"
  assume k: "k \<in> fst ` set (hs_slots h)" and k': "k' \<in> fst ` set (hs_slots ?h)" and "k \<notin> fst ` set (hs_slots ?h)" "k' \<noteq> slot_of utcNow"
  obtain x where h': "hs_slots ?h = dict_put (slot_of utcNow) x (trim_slots limit (hs_slots h))"
    by (cases "calculate_rates perSecond now st (hs_deltaContainer h)") (simp add: UpdateCurrentStatistics_def Let_def h(1))
  have "fst ` set (dict_put y x e) = insert y (fst ` set e)" for y e by (induction e) auto
  then have "fst ` set (hs_slots ?h) = insert (slot_of utcNow) (fst ` set (trim_slots limit (hs_slots h)))" by (simp only: h')
  then show "k < k'" using trimmed_older [OF h(2) k] k' \<open>k \<notin> _\<close> \<open>k' \<noteq> _\<close> by blast
qed

definition sample_history :: "(unit, rat) HistoricalStatistics" where
  "sample_history = UpdateCurrentStatistics (\<lambda>_ _ _ d. (d, Some 1)) 200000000 0 MessageQueueStatistics_new
     (UpdateCurrentStatistics (\<lambda>_ _ _ d. (d, Some 1)) 100000000 0 MessageQueueStatistics_new (HistoricalStatistics_new () 1))"

theorem history_is_bounded_witness:
  "int (length (hs_slots sample_history)) \<le> 2 \<and> map fst (hs_slots sample_history) = [100000000, 200000000]"
proof -
  have "history_reachable (\<lambda>_ _ _ d. (d, Some 1)) () 1 sample_history"
    unfolding sample_history_def by (intro history_reachable.intros)
  from history_is_bounded [OF this] show ?thesis
    by (simp add: sample_history_def UpdateCurrentStatistics_def HistoricalStatistics_new_def Let_def calculate_rates_def trim_slots_def
        slot_of_def ticks_per_second_def)
qed

end
