(* ===== verification/JS_Base.thy ===== *)
theory JS_Base
  imports Main "HOL-Library.Char_ord" "HOL-Library.Code_Target_Nat"
begin

text \<open>
  What the scripts of the web pages use of JavaScript itself: strings as lists of UTF-16 code
  units, the string methods they call, numbers with \<open>NaN\<close>, ordered objects, and the library lemmas
  the theories about the scripts share.
\<close>

section \<open>Strings\<close>

text \<open>
  A string is the list of its code units, which are numbers below 65536; \<open>js\<close> writes one down by an
  ASCII literal.
\<close>

type_synonym code_unit = nat
type_synonym jstring = "code_unit list"

definition unit_of :: "char \<Rightarrow> code_unit" where
  "unit_of c = of_char c"

definition js :: "string \<Rightarrow> jstring" where
  "js s = map unit_of s"

lemma js_simps [simp]: "js [] = []" "js (c # s) = unit_of c # js s" "js (s @ t) = js s @ js t" "length (js s) = length s"
  by (simp_all add: js_def)

lemma unit_of_inject [simp]: "unit_of c = unit_of d \<longleftrightarrow> c = d"
  by (simp add: unit_of_def)

lemma js_inject [simp]: "js s = js t \<longleftrightarrow> s = t"
  unfolding js_def by (rule inj_map_eq_map) (simp add: inj_def)

text \<open>The string methods, with the argument conventions of the language.\<close>

definition charAt :: "jstring \<Rightarrow> nat \<Rightarrow> jstring" where
  "charAt s i = (if i < length s then [s ! i] else [])"

definition substring :: "jstring \<Rightarrow> nat \<Rightarrow> nat \<Rightarrow> jstring" where
  "substring s a b = (let lo = min a b; hi = max a b in take (min hi (length s) - lo) (drop lo s))"

definition substr :: "jstring \<Rightarrow> nat \<Rightarrow> nat \<Rightarrow> jstring" where
  "substr s start len = take len (drop start s)"

definition substr_from :: "jstring \<Rightarrow> nat \<Rightarrow> jstring" where
  "substr_from s start = drop start s"

definition last_chars :: "nat \<Rightarrow> jstring \<Rightarrow> jstring" where
  "last_chars n s = drop (length s - n) s"

fun index_of_char :: "jstring \<Rightarrow> code_unit \<Rightarrow> int" where
  "index_of_char [] c = - 1"
| "index_of_char (d # s) c =
     (if d = c then 0 else let i = index_of_char s c in if i < 0 then - 1 else i + 1)"

fun split_char :: "code_unit \<Rightarrow> jstring \<Rightarrow> jstring list" where
  "split_char c [] = [[]]"
| "split_char c (d # s) =
     (if d = c then [] # split_char c s
      else case split_char c s of [] \<Rightarrow> [[d]] | p # ps \<Rightarrow> (d # p) # ps)"

fun join_with :: "jstring \<Rightarrow> jstring list \<Rightarrow> jstring" where
  "join_with sep [] = []"
| "join_with sep [s] = s"
| "join_with sep (s # t # ss) = s @ sep @ join_with sep (t # ss)"

definition starts_with :: "jstring \<Rightarrow> jstring \<Rightarrow> bool" where
  "starts_with p s \<longleftrightarrow> take (length p) s = p"

text \<open>\<open>s.replace(/[\<dots>]/g, \<dots>)\<close> for a class of single characters.\<close>

definition remove_units :: "(code_unit \<Rightarrow> bool) \<Rightarrow> jstring \<Rightarrow> jstring" where
  "remove_units P s = filter (\<lambda>c. \<not> P c) s"

section \<open>Character classes\<close>

definition is_digit :: "code_unit \<Rightarrow> bool" where
  "is_digit c \<longleftrightarrow> 48 \<le> c \<and> c \<le> 57"

definition is_upper :: "code_unit \<Rightarrow> bool" where
  "is_upper c \<longleftrightarrow> 65 \<le> c \<and> c \<le> 90"

definition is_lower :: "code_unit \<Rightarrow> bool" where
  "is_lower c \<longleftrightarrow> 97 \<le> c \<and> c \<le> 122"

definition is_word :: "code_unit \<Rightarrow> bool" where
  "is_word c \<longleftrightarrow> is_digit c \<or> is_upper c \<or> is_lower c \<or> c = 95"

text \<open>\<open>\s\<close>: the white space and line terminators of the language.\<close>

definition space_units :: "(code_unit \<times> code_unit) list" where
  "space_units = [(9, 13), (32, 32), (0xA0, 0xA0), (0x1680, 0x1680), (0x2000, 0x200A), (0x2028, 0x2029),
     (0x202F, 0x202F), (0x205F, 0x205F), (0x3000, 0x3000), (0xFEFF, 0xFEFF)]"

definition in_ranges :: "(code_unit \<times> code_unit) list \<Rightarrow> code_unit \<Rightarrow> bool" where
  "in_ranges rs c \<longleftrightarrow> list_ex (\<lambda>(lo, hi). lo \<le> c \<and> c \<le> hi) rs"

definition is_space :: "code_unit \<Rightarrow> bool" where
  "is_space c \<longleftrightarrow> in_ranges space_units c"

definition upper_unit :: "code_unit \<Rightarrow> code_unit" where
  "upper_unit c = (if is_lower c then c - 32 else c)"

definition lower_unit :: "code_unit \<Rightarrow> code_unit" where
  "lower_unit c = (if is_upper c then c + 32 else c)"

text \<open>
  The case mappings of the language follow Unicode tables. A model that maps case takes the mapping
  as a parameter; what the scripts rely on is its value on ASCII.
\<close>

definition ascii :: "jstring \<Rightarrow> bool" where
  "ascii s \<longleftrightarrow> list_all (\<lambda>c. c < 128) s"

definition ascii_upper :: "jstring \<Rightarrow> jstring" where
  "ascii_upper s = map upper_unit s"

definition ascii_lower :: "jstring \<Rightarrow> jstring" where
  "ascii_lower s = map lower_unit s"

locale case_mapping =
  fixes upper :: "jstring \<Rightarrow> jstring"
  assumes upper_ascii: "ascii s \<Longrightarrow> upper s = ascii_upper s"
begin

lemma upper_length: "ascii s \<Longrightarrow> length (upper s) = length s"
  by (simp add: upper_ascii ascii_upper_def)

lemma upper_no_lower:
  assumes "ascii s" "list_all (\<lambda>c. \<not> is_lower c) s"
  shows "upper s = s"
proof -
  have "ascii_upper s = s"
    using assms(2) unfolding ascii_upper_def by (intro map_idI) (auto simp: upper_unit_def list_all_iff)
  then show ?thesis using assms(1) by (simp add: upper_ascii)
qed

end

interpretation ascii_case: case_mapping ascii_upper
  by unfold_locales simp

section \<open>Numbers\<close>

text \<open>
  The numbers the scripts compute are small integers or \<open>NaN\<close>, which is \<open>None\<close>; every operation on
  \<open>NaN\<close> gives \<open>NaN\<close>, and every comparison with it is false.
\<close>

type_synonym jnum = "int option"

fun lift2 :: "(int \<Rightarrow> int \<Rightarrow> int) \<Rightarrow> jnum \<Rightarrow> jnum \<Rightarrow> jnum" where
  "lift2 f (Some a) (Some b) = Some (f a b)"
| "lift2 f _ _ = None"

definition num_add :: "jnum \<Rightarrow> jnum \<Rightarrow> jnum" where
  "num_add = lift2 (+)"

definition num_sub :: "jnum \<Rightarrow> jnum \<Rightarrow> jnum" where
  "num_sub = lift2 (-)"

definition num_mul :: "jnum \<Rightarrow> jnum \<Rightarrow> jnum" where
  "num_mul = lift2 (*)"

text \<open>\<open>a % m\<close> for non-negative \<open>a\<close> and positive \<open>m\<close>, where it is the mathematical remainder.\<close>

definition num_mod :: "jnum \<Rightarrow> int \<Rightarrow> jnum" where
  "num_mod a m = map_option (\<lambda>x. x mod m) a"

definition num_eq :: "jnum \<Rightarrow> jnum \<Rightarrow> bool" where
  "num_eq a b \<longleftrightarrow> a \<noteq> None \<and> a = b"

definition num_rel :: "(int \<Rightarrow> int \<Rightarrow> bool) \<Rightarrow> jnum \<Rightarrow> int \<Rightarrow> bool" where
  "num_rel R a b \<longleftrightarrow> (case a of None \<Rightarrow> False | Some x \<Rightarrow> R x b)"

lemma num_simps [simp]:
  "num_add (Some a) (Some b) = Some (a + b)" "num_sub (Some a) (Some b) = Some (a - b)"
  "num_mul (Some a) (Some b) = Some (a * b)" "num_mod (Some a) m = Some (a mod m)" "num_mod None m = None"
  "num_eq (Some a) (Some b) \<longleftrightarrow> a = b" "\<not> num_eq None x" "\<not> num_eq x None"
  "num_rel R (Some a) b \<longleftrightarrow> R a b" "\<not> num_rel R None b"
  by (auto simp: num_add_def num_sub_def num_mul_def num_mod_def num_eq_def num_rel_def)

lemma num_NaN [simp]:
  "num_add None x = None" "num_add x None = None" "num_sub None x = None" "num_sub x None = None"
  "num_mul None x = None" "num_mul x None = None"
  by (cases x; simp add: num_add_def num_sub_def num_mul_def)+

definition digit_value :: "code_unit \<Rightarrow> int" where
  "digit_value c = int c - 48"

lemma digit_value_range: "is_digit c \<Longrightarrow> 0 \<le> digit_value c \<and> digit_value c \<le> 9"
  by (simp add: is_digit_def digit_value_def)

lemma digit_value_inject: "digit_value c = digit_value d \<longleftrightarrow> c = d"
  by (simp add: digit_value_def)

text \<open>\<open>parseInt(s, 10)\<close>: skip white space, take a sign and the longest run of digits.\<close>

fun digits_value :: "int \<Rightarrow> jstring \<Rightarrow> int" where
  "digits_value acc [] = acc"
| "digits_value acc (c # s) = digits_value (10 * acc + digit_value c) s"

definition parse_digits :: "jstring \<Rightarrow> jnum" where
  "parse_digits s = (let ds = takeWhile is_digit s in if ds = [] then None else Some (digits_value 0 ds))"

definition parseInt :: "jstring \<Rightarrow> jnum" where
  "parseInt s = (case dropWhile is_space s of
      [] \<Rightarrow> None
    | c # t \<Rightarrow> if c = 45 then map_option uminus (parse_digits t)
        else if c = 43 then parse_digits t else parse_digits (c # t))"

text \<open>
  \<open>Number(s)\<close> for a string of at most one character, as in \<open>value.charAt(i) * factor\<close>: the empty
  string and white space are zero, a digit is its value, anything else is \<open>NaN\<close>.
\<close>

definition char_number :: "jstring \<Rightarrow> jnum" where
  "char_number s = (case s of [] \<Rightarrow> Some 0
     | c # _ \<Rightarrow> if is_digit c then Some (digit_value c) else if is_space c then Some 0 else None)"

lemma parseInt_digit:
  assumes "is_digit c"
  shows "parseInt [c] = Some (digit_value c)"
proof -
  have "\<not> is_space c" "c \<noteq> 45" "c \<noteq> 43" using assms by (auto simp: is_digit_def is_space_def in_ranges_def space_units_def)
  then show ?thesis using assms by (simp add: parseInt_def parse_digits_def)
qed

lemma parseInt_nondigit:
  assumes "\<not> is_digit c"
  shows "parseInt [c] = None"
  using assms by (simp add: parseInt_def parse_digits_def)

lemma char_number_digit: "is_digit c \<Longrightarrow> char_number [c] = Some (digit_value c)"
  by (simp add: char_number_def)

lemma digits_value_app: "digits_value a (s @ t) = digits_value (digits_value a s) t"
  by (induction s arbitrary: a) auto

section \<open>Objects\<close>

text \<open>An object with string keys: its properties in insertion order.\<close>

type_synonym 'v obj = "(jstring \<times> 'v) list"

definition obj_get :: "'v obj \<Rightarrow> jstring \<Rightarrow> 'v option" where
  "obj_get ob k = map_of ob k"

fun obj_set :: "jstring \<Rightarrow> 'v \<Rightarrow> 'v obj \<Rightarrow> 'v obj" where
  "obj_set k v [] = [(k, v)]"
| "obj_set k v ((k', v') # ob) = (if k' = k then (k, v) # ob else (k', v') # obj_set k v ob)"

definition obj_delete :: "jstring \<Rightarrow> 'v obj \<Rightarrow> 'v obj" where
  "obj_delete k ob = filter (\<lambda>(k', _). k' \<noteq> k) ob"

definition obj_keys :: "'v obj \<Rightarrow> jstring list" where
  "obj_keys ob = map fst ob"

definition obj_ok :: "'v obj \<Rightarrow> bool" where
  "obj_ok ob \<longleftrightarrow> distinct (map fst ob)"

text \<open>\<open>$.extend(target, source)\<close> for one level.\<close>

fun obj_extend :: "'v obj \<Rightarrow> 'v obj \<Rightarrow> 'v obj" where
  "obj_extend target [] = target"
| "obj_extend target ((k, v) # src) = obj_extend (obj_set k v target) src"

lemma obj_get_set [simp]: "obj_get (obj_set k v ob) k' = (if k' = k then Some v else obj_get ob k')"
  by (induction ob) (auto simp: obj_get_def)

lemma obj_get_delete [simp]: "obj_get (obj_delete k ob) k' = (if k' = k then None else obj_get ob k')"
  by (induction ob) (auto simp: obj_get_def obj_delete_def)

lemma obj_get_Nil [simp]: "obj_get [] k = None"
  by (simp add: obj_get_def)

lemma keys_obj_set: "fst ` set (obj_set k v ob) = insert k (fst ` set ob)"
proof (induction ob)
  case (Cons p ob)
  then show ?case by (cases p) (simp add: insert_commute)
qed simp

lemma obj_ok_set [simp]: "obj_ok ob \<Longrightarrow> obj_ok (obj_set k v ob)"
  by (induction ob) (auto simp: obj_ok_def keys_obj_set)

lemma obj_ok_delete [simp]: "obj_ok ob \<Longrightarrow> obj_ok (obj_delete k ob)"
  by (auto simp: obj_ok_def obj_delete_def intro: distinct_map_filter)

lemma obj_ok_Nil [simp]: "obj_ok []"
  by (simp add: obj_ok_def)

lemma obj_ok_extend [simp]: "obj_ok a \<Longrightarrow> obj_ok (obj_extend a b)"
  by (induction a b rule: obj_extend.induct) auto

lemma obj_get_None: "obj_get ob k = None \<longleftrightarrow> k \<notin> fst ` set ob"
  by (simp add: obj_get_def map_of_eq_None_iff)

lemma obj_get_extend: "obj_ok b \<Longrightarrow> obj_get (obj_extend a b) k = (case obj_get b k of Some v \<Rightarrow> Some v | None \<Rightarrow> obj_get a k)"
proof (induction a b rule: obj_extend.induct)
  case (2 t k' v src)
  then have "obj_ok src" "obj_get src k' = None" by (auto simp: obj_ok_def obj_get_None)
  with 2 show ?case by (auto simp: obj_get_def [of "(k', v) # src"] obj_get_def [of src] split: option.splits)
qed simp

end
