(* ===== verification/Dom_Tree.thy ===== *)
theory Dom_Tree
  imports JS_Base "HOL-Library.List_Lexorder"
begin

text \<open>
  Documents as \<open>jquery.js\<close> reads them: a tree of nodes, the links between nodes, the order of a document,
  and the sorting of results by it. A node is named by the way to it, the index among its
  siblings first, so that \<open>parentNode\<close> drops the first number and the siblings change it.
\<close>

section \<open>The tree\<close>

text \<open>
  What the scripts read of a node; the document is one of HTML, which looks attributes up in lower case. \<open>nd_className\<close> is a string for elements of HTML only, \<open>nd_form\<close> and
  \<open>nd_label\<close> say whether the node has a property of that name, and the properties that may be missing
  are options.
\<close>

record node_info =
  nd_type :: nat
  nd_name :: jstring
  nd_attrs :: "(jstring \<times> jstring) list"
  nd_className :: "jstring option"
  nd_kind :: jstring
  nd_form :: bool
  nd_label :: bool
  nd_disabled :: "bool option"
  nd_isDisabled :: "bool option"
  nd_checked :: bool
  nd_selected :: bool
  nd_href :: "jstring option"
  nd_tabIndex :: int
  nd_lang :: jstring
  nd_text :: jstring

datatype dtree = DNode (dn_info: node_info) (dn_children: "dtree list")

type_synonym node = "nat list"

fun node_at :: "dtree \<Rightarrow> node \<Rightarrow> dtree option" where
  "node_at t [] = Some t"
| "node_at t (i # p) =
     (case node_at t p of
        None \<Rightarrow> None
      | Some n \<Rightarrow> if i < length (dn_children n) then Some (dn_children n ! i) else None)"

definition in_tree :: "dtree \<Rightarrow> node \<Rightarrow> bool" where
  "in_tree t p \<longleftrightarrow> node_at t p \<noteq> None"

definition info :: "dtree \<Rightarrow> node \<Rightarrow> node_info" where
  "info t p = dn_info (case node_at t p of None \<Rightarrow> t | Some n \<Rightarrow> n)"

definition nodeType :: "dtree \<Rightarrow> node \<Rightarrow> nat" where
  "nodeType t p = nd_type (info t p)"

definition is_element :: "dtree \<Rightarrow> node \<Rightarrow> bool" where
  "is_element t p \<longleftrightarrow> in_tree t p \<and> nodeType t p = 1"

definition child_count :: "dtree \<Rightarrow> node \<Rightarrow> nat" where
  "child_count t p = (case node_at t p of None \<Rightarrow> 0 | Some n \<Rightarrow> length (dn_children n))"

definition childNodes :: "dtree \<Rightarrow> node \<Rightarrow> node list" where
  "childNodes t p = map (\<lambda>i. i # p) [0..<child_count t p]"

definition getAttribute :: "dtree \<Rightarrow> node \<Rightarrow> jstring \<Rightarrow> jstring option" where
  "getAttribute t p name = map_of (nd_attrs (info t p)) (ascii_lower name)"

text \<open>\<open>nodeName(elem, name)\<close>\<close>

definition nodeName :: "dtree \<Rightarrow> node \<Rightarrow> jstring \<Rightarrow> bool" where
  "nodeName t p name \<longleftrightarrow> nd_name (info t p) \<noteq> [] \<and> ascii_lower (nd_name (info t p)) = ascii_lower name"

section \<open>Links\<close>

datatype dir = ParentNode | PreviousSibling | NextSibling

fun link :: "dtree \<Rightarrow> dir \<Rightarrow> node \<Rightarrow> node option" where
  "link t ParentNode (i # p) = Some p"
| "link t PreviousSibling (Suc i # p) = Some (i # p)"
| "link t NextSibling (i # p) = (if Suc i < child_count t p then Some (Suc i # p) else None)"
| "link t _ _ = None"

text \<open>
  The nodes the loop \<open>while ( ( elem = elem[ dir ] ) )\<close> visits, in its order; \<open>chain_link\<close> is that
  loop.
\<close>

fun ancestors :: "node \<Rightarrow> node list" where
  "ancestors [] = []"
| "ancestors (i # p) = p # ancestors p"

fun chain :: "dtree \<Rightarrow> dir \<Rightarrow> node \<Rightarrow> node list" where
  "chain t ParentNode p = ancestors p"
| "chain t PreviousSibling (i # p) = map (\<lambda>j. j # p) (rev [0..<i])"
| "chain t NextSibling (i # p) = map (\<lambda>j. j # p) [Suc i..<child_count t p]"
| "chain t _ [] = []"

lemma chain_link: "chain t d p = (case link t d p of None \<Rightarrow> [] | Some q \<Rightarrow> q # chain t d q)"
proof (cases p)
  case (Cons i q)
  show ?thesis
  proof (cases d)
    case PreviousSibling
    then show ?thesis using Cons by (cases i) auto
  next
    case NextSibling
    then show ?thesis using Cons by (simp add: upt_conv_Cons)
  qed (simp add: Cons)
qed (cases d; simp)

lemma in_tree_simps [simp]:
  "in_tree t []" "in_tree t (i # p) \<longleftrightarrow> in_tree t p \<and> i < child_count t p"
  by (auto simp: in_tree_def child_count_def split: option.splits)

lemma link_in_tree: "in_tree t p \<Longrightarrow> link t d p = Some q \<Longrightarrow> in_tree t q"
  by (cases "(t, d, p)" rule: link.cases) (auto split: if_splits)

lemma in_ancestors: "q \<in> set (ancestors p) \<longleftrightarrow> (\<exists>u. u \<noteq> [] \<and> p = u @ q)"
proof (induction p)
  case (Cons i p)
  have "(\<exists>u. u \<noteq> [] \<and> i # p = u @ q) \<longleftrightarrow> (\<exists>u. p = u @ q)"
    by (auto simp: Cons_eq_append_conv)
  also have "\<dots> \<longleftrightarrow> q = p \<or> (\<exists>u. u \<noteq> [] \<and> p = u @ q)" by (metis append_Nil)
  finally show ?case using Cons by auto
qed simp

lemma in_tree_ancestors: "in_tree t p \<Longrightarrow> q \<in> set (ancestors p) \<Longrightarrow> in_tree t q"
  by (induction p) auto

lemma chain_in_tree: "in_tree t p \<Longrightarrow> q \<in> set (chain t d p) \<Longrightarrow> in_tree t q"
  by (cases "(t, d, p)" rule: chain.cases) (auto dest: in_tree_ancestors)

text \<open>A chain never comes back to where it started, and what it visits later it visits from there too.\<close>

lemma chain_suffix: "q \<in> set (chain t d p) \<Longrightarrow> \<exists>pre. chain t d p = pre @ q # chain t d q"
proof (induction "length (chain t d p)" arbitrary: p)
  case (Suc n)
  obtain r where r: "chain t d p = r # chain t d r"
    using Suc.hyps(2) chain_link [of t d p] by (cases "link t d p") auto
  show ?case
  proof (cases "q = r")
    case False
    then have "\<exists>pre. chain t d r = pre @ q # chain t d q" using Suc r by auto
    then show ?thesis using r by (metis append_Cons)
  next
    case True
    then show ?thesis using r by (metis append_Nil)
  qed
qed simp

lemma chain_not_self: "p \<notin> set (chain t d p)"
proof
  assume "p \<in> set (chain t d p)"
  then obtain pre where "chain t d p = pre @ p # chain t d p" using chain_suffix by blast
  then have "length (chain t d p) = length (pre @ p # chain t d p)" by presburger
  then show False by simp
qed

section \<open>Document order\<close>

definition before :: "node \<Rightarrow> node \<Rightarrow> bool" where
  "before p q \<longleftrightarrow> rev p < rev q"

text \<open>All nodes below a node, in document order.\<close>

fun below :: "dtree \<Rightarrow> node \<Rightarrow> node list" and below_all :: "dtree list \<Rightarrow> nat \<Rightarrow> node \<Rightarrow> node list" where
  "below (DNode i cs) p = below_all cs 0 p"
| "below_all [] k p = []"
| "below_all (c # cs) k p = (k # p) # below c (k # p) @ below_all cs (Suc k) p"

definition descendants :: "dtree \<Rightarrow> node \<Rightarrow> node list" where
  "descendants t p = (case node_at t p of None \<Rightarrow> [] | Some n \<Rightarrow> below n p)"

lemma node_at_app: "node_at t (u @ p) = (case node_at t p of None \<Rightarrow> None | Some n \<Rightarrow> node_at n u)"
  by (induction u) (auto split: option.split)

lemma in_tree_snoc: "in_tree t (u @ [i]) \<longleftrightarrow> i < length (dn_children t) \<and> in_tree (dn_children t ! i) u"
  by (simp add: in_tree_def node_at_app)

lemma set_below:
  "set (below n p) = {u @ p | u. u \<noteq> [] \<and> in_tree n u}"
  "set (below_all cs k p) = {u @ (k + i) # p | u i. i < length cs \<and> in_tree (cs ! i) u}"
proof (induction n p and cs k p rule: below_below_all.induct)
  case (1 x cs p)
  have "{u @ (0 + i) # p | u i. i < length cs \<and> in_tree (cs ! i) u} = {u @ p | u. u \<noteq> [] \<and> in_tree (DNode x cs) u}"
  proof (intro set_eqI iffI)
    fix q assume "q \<in> {u @ (0 + i) # p | u i. i < length cs \<and> in_tree (cs ! i) u}"
    then obtain u i where "q = (u @ [i]) @ p" "in_tree (DNode x cs) (u @ [i])" by (auto simp: in_tree_snoc)
    then show "q \<in> {u @ p | u. u \<noteq> [] \<and> in_tree (DNode x cs) u}" by blast
  next
    fix q assume "q \<in> {u @ p | u. u \<noteq> [] \<and> in_tree (DNode x cs) u}"
    then obtain u where u: "q = u @ p" "u \<noteq> []" "in_tree (DNode x cs) u" by blast
    then obtain v i where "u = v @ [i]" by (metis append_butlast_last_id)
    then show "q \<in> {u @ (0 + i) # p | u i. i < length cs \<and> in_tree (cs ! i) u}" using u by (auto simp: in_tree_snoc)
  qed
  then show ?case using 1 by simp
next
  case (3 c cs k p)
  have "{u @ (k + i) # p | u i. i < length (c # cs) \<and> in_tree ((c # cs) ! i) u}
      = {u @ k # p | u. in_tree c u} \<union> {u @ (Suc k + i) # p | u i. i < length cs \<and> in_tree (cs ! i) u}" (is "?l = ?r")
  proof (intro set_eqI iffI)
    fix q assume "q \<in> ?l"
    then obtain u i where "q = u @ (k + i) # p" "i < length (c # cs)" "in_tree ((c # cs) ! i) u" by blast
    then show "q \<in> ?r" by (cases i) auto
  next
    fix q assume "q \<in> ?r"
    then consider u where "q = u @ (k + 0) # p" "in_tree c u" | u i where "q = u @ (k + Suc i) # p" "i < length cs" "in_tree (cs ! i) u"
      by auto
    then show "q \<in> ?l" by cases (force intro!: exI)+
  qed
  moreover have "{u @ k # p | u. in_tree c u} = insert (k # p) {u @ k # p | u. u \<noteq> [] \<and> in_tree c u}" by force
  ultimately show ?case using 3 by auto
qed auto

lemma less_append_left: "xs @ ys < xs @ zs \<longleftrightarrow> ys < (zs :: nat list)"
  by (induction xs) auto

lemma before_simps: "before (u @ p) (v @ p) \<longleftrightarrow> before u v" "u \<noteq> [] \<Longrightarrow> before p (u @ p)"
proof -
  have "[] < ys" if "ys \<noteq> []" for ys :: "nat list" using that by (cases ys) auto
  then show "u \<noteq> [] \<Longrightarrow> before p (u @ p)" using less_append_left [of "rev p" "[]" "rev u"] by (simp add: before_def)
qed (simp add: before_def less_append_left)

lemma before_sibling: "i < j \<Longrightarrow> before (u @ i # p) (v @ j # p)"
  by (simp add: before_def less_append_left)

lemma sorted_below: "sorted_wrt before (below n p)" "sorted_wrt before (below_all cs k p)"
proof (induction n p and cs k p rule: below_below_all.induct)
  case (3 c cs k p)
  have "before q r" if q: "q \<in> set ((k # p) # below c (k # p))" and r: "r \<in> set (below_all cs (Suc k) p)" for q r
  proof -
    have "\<exists>u. q = u @ k # p"
    proof (cases "q = k # p")
      case True
      then show ?thesis by (intro exI [of _ "[]"]) simp
    qed (use q in \<open>auto simp: set_below\<close>)
    then obtain u where u: "q = u @ k # p" ..
    obtain v j where rr: "r = v @ (Suc k + j) # p" using r by (auto simp: set_below)
    show ?thesis unfolding u rr by (rule before_sibling) simp
  qed
  moreover have "before (k # p) q" if "q \<in> set (below c (k # p))" for q
    using that by (auto simp: set_below before_simps(2))
  ultimately show ?case using 3 by (auto simp: sorted_wrt_append)
qed simp_all

lemma set_descendants: "in_tree t p \<Longrightarrow> set (descendants t p) = {q. in_tree t q \<and> p \<in> set (ancestors q)}"
proof -
  assume "in_tree t p"
  then obtain n where n: "node_at t p = Some n" by (auto simp: in_tree_def)
  then have "in_tree t (u @ p) \<longleftrightarrow> in_tree n u" for u by (simp add: in_tree_def node_at_app)
  then show ?thesis using n by (auto simp: descendants_def set_below in_ancestors)
qed

lemma sorted_descendants: "sorted_wrt before (descendants t p)"
  by (auto simp: descendants_def sorted_below split: option.split)

lemma before_irrefl [simp]: "\<not> before p p" by (simp add: before_def)

lemma sorted_before_distinct: "sorted_wrt before ps \<Longrightarrow> distinct ps"
  by (induction ps) auto

section \<open>Sorting results\<close>

text \<open>
  \<open>uniqueSort( results )\<close>. The nodes of one document are compared by their positions, and of two adjacent
  equal ones the second is spliced out, from the end of the list. The flag \<open>hasDuplicate\<close> is set when the sort
  compares a node with itself, which it does if the list holds one twice.
\<close>

definition splice_out :: "nat \<Rightarrow> 'a list \<Rightarrow> 'a list" where
  "splice_out i xs = take i xs @ drop (Suc i) xs"

definition duplicate_indexes :: "'a list \<Rightarrow> nat list" where
  "duplicate_indexes xs = filter (\<lambda>i. xs ! (i - 1) = xs ! i) [1..<length xs]"

definition uniqueSort :: "node list \<Rightarrow> node list" where
  "uniqueSort results =
     (let sorted = sort_key rev results
      in if distinct results then sorted else fold splice_out (rev (duplicate_indexes sorted)) sorted)"

lemma duplicate_indexes_Cons:
  "duplicate_indexes (x # y # zs) = (if x = y then [1] else []) @ map Suc (duplicate_indexes (y # zs))"
proof -
  have "[1..<length (x # y # zs)] = 1 # map Suc [1..<length (y # zs)]"
    by (simp add: map_Suc_upt upt_conv_Cons del: upt_Suc)
  moreover have "filter (\<lambda>i. (x # y # zs) ! (i - 1) = (x # y # zs) ! i) (map Suc [1..<length (y # zs)])
      = map Suc (filter (\<lambda>i. (y # zs) ! (i - 1) = (y # zs) ! i) [1..<length (y # zs)])"
    unfolding filter_map comp_def by (intro arg_cong [of _ _ "map Suc"] filter_cong) (auto simp: nth_Cons')
  ultimately show ?thesis unfolding duplicate_indexes_def by (simp only: filter.simps) simp
qed

lemma splice_out_Suc: "splice_out (Suc i) (x # xs) = x # splice_out i xs"
  by (simp add: splice_out_def)

lemma fold_splice_out_Suc: "fold splice_out (map Suc is) (x # xs) = x # fold splice_out is xs"
  by (induction "is" arbitrary: xs) (simp_all add: splice_out_Suc)

lemma remdups_adj_cons: "remdups_adj (y # zs) = y # tl (remdups_adj (y # zs))"
  by (metis list.collapse list.discI remdups_adj_Nil_iff hd_remdups_adj list.sel(1))

lemma splice_duplicates: "fold splice_out (rev (duplicate_indexes xs)) xs = remdups_adj xs"
proof (induction xs rule: remdups_adj.induct)
  case (3 x y zs)
  have "fold splice_out (rev (duplicate_indexes (y # zs))) (y # zs) = remdups_adj (y # zs)" using 3 by (cases "x = y") auto
  then have "fold splice_out (rev (duplicate_indexes (x # y # zs))) (x # y # zs)
      = fold splice_out (if x = y then [1] else []) (x # remdups_adj (y # zs))"
    by (simp add: duplicate_indexes_Cons rev_map fold_splice_out_Suc)
  also have "\<dots> = remdups_adj (x # y # zs)"
    using remdups_adj_cons [of y zs] by (auto simp: splice_out_def drop_Suc)
  finally show ?case .
qed (simp_all add: duplicate_indexes_def)

text \<open>The result has the same nodes, each once, in the order of the document.\<close>

lemma sorted_rev_remdups_adj: "sorted (map rev ps) \<Longrightarrow> sorted_wrt before (remdups_adj ps)"
proof (induction ps rule: remdups_adj.induct)
  case (3 x y zs)
  then show ?case by (auto simp: before_def less_le)
qed simp_all

lemma uniqueSort_sorted: "sorted_wrt before (uniqueSort ps) \<and> set (uniqueSort ps) = set ps"
proof -
  have dis: "remdups_adj (sort_key rev ps) = sort_key rev ps" if "distinct ps"
    using that by (intro remdups_adj_distinct) simp
  then have "uniqueSort ps = remdups_adj (sort_key rev ps)" by (simp add: uniqueSort_def splice_duplicates Let_def)
  then show ?thesis using sorted_rev_remdups_adj [of "sort_key rev ps"] by simp
qed

lemma sorted_before_unique: "sorted_wrt before ps \<Longrightarrow> sorted_wrt before qs \<Longrightarrow> set ps = set qs \<Longrightarrow> ps = qs"
proof -
  assume "sorted_wrt before ps" "sorted_wrt before qs" "set ps = set qs"
  then have "map rev ps = map rev qs"
    by (intro strict_sorted_equal) (simp_all add: before_def [abs_def] sorted_wrt_map)
  then show ?thesis by (simp add: inj_on_map_eq_map [OF inj_on_rev])
qed

end
