(* ===== verification/JS_Regex.thy ===== *)
theory JS_Regex
  imports JS_Base
begin

text \<open>
  The regular expressions of the language, as far as the scripts use them: their syntax is read from
  the same text the code has, their matcher computes where a match may end, and the declarative
  reading of an expression is a relation between the two ends of a match. Captures are not modelled:
  the scripts only test, or count and replace single characters.
\<close>

section \<open>Expressions and the matcher\<close>

type_synonym ranges = "(code_unit \<times> code_unit) list"

datatype rx =
    Eps
  | Cls bool ranges
  | Seq rx rx
  | Or rx rx
  | Rep nat "nat option" rx
  | Bol
  | Eol
  | WordB
  | Ahead bool rx

text \<open>
  The flag \<open>i\<close> compares upper cases. A class of the scripts names ASCII letters or everything from
  \<open>\u00a1\<close> on, and no other unit has the upper case of an ASCII letter, so the two cases of the
  ASCII letters are what the flag adds.
\<close>

definition cls_match :: "bool \<Rightarrow> bool \<Rightarrow> ranges \<Rightarrow> code_unit \<Rightarrow> bool" where
  "cls_match ci neg rs c \<longleftrightarrow>
     (in_ranges rs c \<or> ci \<and> (in_ranges rs (upper_unit c) \<or> in_ranges rs (lower_unit c))) \<noteq> neg"

definition word_at :: "jstring \<Rightarrow> nat \<Rightarrow> bool" where
  "word_at s i \<longleftrightarrow> i < length s \<and> is_word (s ! i)"

definition at_boundary :: "jstring \<Rightarrow> nat \<Rightarrow> bool" where
  "at_boundary s i \<longleftrightarrow> (0 < i \<and> word_at s (i - 1)) \<noteq> word_at s i"

text \<open>Exactly \<open>n\<close> rounds, and at most \<open>n\<close> rounds, of a step from positions to positions.\<close>

fun exactly :: "nat \<Rightarrow> (nat \<Rightarrow> nat list) \<Rightarrow> nat list \<Rightarrow> nat list" where
  "exactly 0 f is = is"
| "exactly (Suc n) f is = exactly n f (remdups (concat (map f is)))"

fun at_most :: "nat \<Rightarrow> (nat \<Rightarrow> nat list) \<Rightarrow> nat list \<Rightarrow> nat list" where
  "at_most 0 f is = is"
| "at_most (Suc n) f is =
     (let js = filter (\<lambda>j. j \<notin> set is) (remdups (concat (map f is)))
      in if js = [] then is else at_most n f (is @ js))"

primrec rx_ends :: "rx \<Rightarrow> bool \<Rightarrow> jstring \<Rightarrow> nat \<Rightarrow> nat list" where
  "rx_ends Eps ci s i = [i]"
| "rx_ends (Cls neg rs) ci s i = (if i < length s \<and> cls_match ci neg rs (s ! i) then [Suc i] else [])"
| "rx_ends (Seq a b) ci s i = remdups (concat (map (rx_ends b ci s) (rx_ends a ci s i)))"
| "rx_ends (Or a b) ci s i = remdups (rx_ends a ci s i @ rx_ends b ci s i)"
| "rx_ends (Rep lo hi a) ci s i =
     at_most (case hi of None \<Rightarrow> length s | Some h \<Rightarrow> h - lo) (rx_ends a ci s) (exactly lo (rx_ends a ci s) [i])"
| "rx_ends Bol ci s i = (if i = 0 then [i] else [])"
| "rx_ends Eol ci s i = (if i = length s then [i] else [])"
| "rx_ends WordB ci s i = (if at_boundary s i then [i] else [])"
| "rx_ends (Ahead pos a) ci s i = (if (rx_ends a ci s i \<noteq> []) = pos then [i] else [])"

definition rx_test :: "bool \<Rightarrow> rx \<Rightarrow> jstring \<Rightarrow> bool" where
  "rx_test ci r s \<longleftrightarrow> list_ex (\<lambda>i. rx_ends r ci s i \<noteq> []) [0..<Suc (length s)]"

section \<open>What an expression means\<close>

text \<open>The pairs of positions between which an expression matches.\<close>

definition rel_of :: "nat \<Rightarrow> (nat \<Rightarrow> nat list) \<Rightarrow> (nat \<times> nat) set" where
  "rel_of n f = {(i, j). i \<le> n \<and> j \<in> set (f i)}"

primrec rx_rel :: "rx \<Rightarrow> bool \<Rightarrow> jstring \<Rightarrow> (nat \<times> nat) set" where
  "rx_rel Eps ci s = {(i, j). i \<le> length s \<and> j = i}"
| "rx_rel (Cls neg rs) ci s = {(i, j). i < length s \<and> cls_match ci neg rs (s ! i) \<and> j = Suc i}"
| "rx_rel (Seq a b) ci s = rx_rel a ci s O rx_rel b ci s"
| "rx_rel (Or a b) ci s = rx_rel a ci s \<union> rx_rel b ci s"
| "rx_rel (Rep lo hi a) ci s =
     {(i, j). i \<le> length s \<and> (\<exists>n. lo \<le> n \<and> (case hi of None \<Rightarrow> True | Some h \<Rightarrow> n \<le> max lo h) \<and> (i, j) \<in> rx_rel a ci s ^^ n)}"
| "rx_rel Bol ci s = {(i, j). i = 0 \<and> j = i}"
| "rx_rel Eol ci s = {(i, j). i = length s \<and> j = i}"
| "rx_rel WordB ci s = {(i, j). i \<le> length s \<and> at_boundary s i \<and> j = i}"
| "rx_rel (Ahead pos a) ci s = {(i, j). i \<le> length s \<and> (\<exists>k. (i, k) \<in> rx_rel a ci s) = pos \<and> j = i}"

lemma relpow_first: "(i, j) \<in> R ^^ Suc n \<longleftrightarrow> (\<exists>k. (i, k) \<in> R \<and> (k, j) \<in> R ^^ n)"
  by (meson relpow_Suc_D2 relpow_Suc_I2)

lemma set_exactly: "set (exactly n f is) = {j. \<exists>i \<in> set is. (i, j) \<in> {(a, b). b \<in> set (f a)} ^^ n}"
proof (induction n arbitrary: "is")
  case (Suc n)
  show ?case by (auto simp: Suc relpow_first simp del: relpow.simps)
qed auto

lemma set_at_most: "set (at_most n f is) = {j. \<exists>i \<in> set is. \<exists>m \<le> n. (i, j) \<in> {(a, b). b \<in> set (f a)} ^^ m}"
  (is "_ = ?R n is")
proof (induction n arbitrary: "is")
  case (Suc n)
  let ?F = "{(a, b). b \<in> set (f a)}"
  define new where "new = filter (\<lambda>j. j \<notin> set is) (remdups (concat (map f is)))"
  have split: "?R (Suc n) is = set is \<union> ?R n (concat (map f is))"
  proof (intro set_eqI iffI)
    fix j assume "j \<in> ?R (Suc n) is"
    then obtain i m where i: "i \<in> set is" "m \<le> Suc n" "(i, j) \<in> ?F ^^ m" by auto
    then show "j \<in> set is \<union> ?R n (concat (map f is))"
      by (cases m) (auto simp: relpow_first simp del: relpow.simps(2))
  next
    fix j assume "j \<in> set is \<union> ?R n (concat (map f is))"
    then show "j \<in> ?R (Suc n) is"
    proof
      assume "j \<in> set is"
      moreover have "(j, j) \<in> ?F ^^ 0" by simp
      ultimately show ?thesis by blast
    next
      assume "j \<in> ?R n (concat (map f is))"
      then obtain i k m where "i \<in> set is" "k \<in> set (f i)" "m \<le> n" "(k, j) \<in> ?F ^^ m" by auto
      moreover from this have "(i, j) \<in> ?F ^^ Suc m" by (intro relpow_Suc_I2 [of i k]) auto
      ultimately show ?thesis by (metis (mono_tags, lifting) Suc_le_mono mem_Collect_eq)
    qed
  qed
  show ?case
  proof (cases "new = []")
    case True
    then have closed: "b \<in> set is" if "a \<in> set is" "b \<in> set (f a)" for a b
      using that by (auto simp: new_def filter_empty_conv)
    have stays: "j \<in> set is" if "i \<in> set is" "(i, j) \<in> ?F ^^ m" for i j m
      using that by (induction m arbitrary: j) (auto intro: closed)
    have "?R n (concat (map f is)) \<subseteq> set is" by clarsimp (rule stays [OF closed], assumption+)
    then have "?R (Suc n) is = set is" using split by blast
    then show ?thesis using True by (simp add: Let_def new_def [symmetric])
  next
    case False
    then have "at_most (Suc n) f is = at_most n f (is @ new)" by (simp add: Let_def new_def [symmetric])
    moreover have "?R n (is @ new) = ?R (Suc n) is"
    proof -
      have sets: "set (concat (map f is)) \<subseteq> set (is @ new)" "set new \<subseteq> set (concat (map f is))"
        by (auto simp: new_def)
      have union: "?R n xs = (\<Union>i \<in> set xs. {j. \<exists>m \<le> n. (i, j) \<in> ?F ^^ m})" for xs by auto
      have refl: "j \<in> {j'. \<exists>m \<le> n. (j, j') \<in> ?F ^^ m}" for j
        by (rule CollectI, rule exI [of _ 0]) simp
      have inc: "(\<Union>i \<in> set is. {j. \<exists>m \<le> n. (i, j) \<in> ?F ^^ m}) \<subseteq> set is \<union> (\<Union>i \<in> set (concat (map f is)). {j. \<exists>m \<le> n. (i, j) \<in> ?F ^^ m})"
        unfolding union [symmetric] split [symmetric] by (clarsimp, meson le_SucI)
      have "(\<Union>i \<in> set (is @ new). P i) = set is \<union> (\<Union>i \<in> set (concat (map f is)). P i)"
        if "\<And>j. j \<in> P j" "(\<Union>i \<in> set is. P i) \<subseteq> set is \<union> (\<Union>i \<in> set (concat (map f is)). P i)" for P :: "nat \<Rightarrow> nat set"
        using that sets by (simp only: set_append) blast
      from this [of "\<lambda>i. {j. \<exists>m \<le> n. (i, j) \<in> ?F ^^ m}", OF refl inc] show ?thesis
        unfolding union [symmetric] split [symmetric] .
    qed
    ultimately show ?thesis using Suc.IH by simp
  qed
qed auto

lemma relpow_within:
  assumes "\<And>i j. (i, j) \<in> R \<Longrightarrow> i \<le> n \<Longrightarrow> i \<le> j \<and> j \<le> n" "(i, j) \<in> R ^^ m" "i \<le> (n::nat)"
  shows "i \<le> j \<and> j \<le> n"
  using assms(2,3)
proof (induction m arbitrary: j)
  case (Suc m)
  then obtain k where "(i, k) \<in> R ^^ m" "(k, j) \<in> R" by auto
  then show ?case using Suc.IH [of k] Suc.prems(2) assms(1) [of k j] by auto
qed simp

text \<open>A path that only moves forward needs no more steps than it has positions to cross.\<close>

lemma relpow_shortened:
  assumes "\<And>i j. (i, j) \<in> R \<Longrightarrow> i \<le> n \<Longrightarrow> i \<le> j \<and> j \<le> n" "(i, j) \<in> R ^^ m" "i \<le> (n::nat)"
  shows "\<exists>k \<le> j - i. (i, j) \<in> R ^^ k"
  using assms(2,3)
proof (induction m arbitrary: j)
  case (Suc m)
  then obtain k where k: "(i, k) \<in> R ^^ m" "(k, j) \<in> R" by auto
  then obtain l where l: "l \<le> k - i" "(i, k) \<in> R ^^ l" using Suc by blast
  have ik: "i \<le> k" "k \<le> n" using relpow_within [OF assms(1) k(1) Suc.prems(2)] by auto
  then have kj: "k \<le> j" using assms(1) [OF k(2)] by auto
  show ?case
  proof (cases "k = j")
    case False
    then have "Suc l \<le> j - i" using l ik kj by linarith
    moreover have "(i, j) \<in> R ^^ Suc l" using l(2) k(2) by auto
    ultimately show ?thesis by blast
  qed (use l in blast)
qed simp

lemma rx_rel_within: "(i, j) \<in> rx_rel r ci s \<Longrightarrow> i \<le> j \<and> j \<le> length s"
proof (induction r arbitrary: i j)
  case (Rep lo hi a)
  then obtain n where "(i, j) \<in> rx_rel a ci s ^^ n" "i \<le> length s" by auto
  then show ?case using relpow_within [of "rx_rel a ci s" "length s"] Rep.IH by blast
next
  case (Seq a b)
  then show ?case by (clarsimp, meson le_trans)
qed auto

lemma relpow_eq_within:
  assumes "\<And>i j. i \<le> n \<Longrightarrow> ((i, j) \<in> R \<longleftrightarrow> (i, j) \<in> R')" "\<And>i j. (i, j) \<in> R \<Longrightarrow> i \<le> j \<and> j \<le> n" "i \<le> (n::nat)"
  shows "(i, j) \<in> R ^^ m \<longleftrightarrow> (i, j) \<in> R' ^^ m"
  using assms(3)
proof (induction m arbitrary: i)
  case (Suc m)
  then show ?case unfolding relpow_first using assms(1,2) by blast
qed simp

text \<open>The matcher finds exactly the ends of the matches.\<close>

lemma rx_ends_correct: "i \<le> length s \<Longrightarrow> j \<in> set (rx_ends r ci s i) \<longleftrightarrow> (i, j) \<in> rx_rel r ci s"
proof (induction r arbitrary: i j)
  case (Seq a b)
  then show ?case using rx_rel_within [of _ _ a ci s] by (auto simp: relcomp_unfold)
next
  case (Rep lo hi a)
  let ?R = "rx_rel a ci s" and ?F = "{(i, j). j \<in> set (rx_ends a ci s i)}" and ?n = "length s"
  have F: "(i, j) \<in> ?F ^^ m \<longleftrightarrow> (i, j) \<in> ?R ^^ m" if "i \<le> ?n" for i j m
    using relpow_eq_within [of ?n ?R ?F i j m] Rep.IH rx_rel_within that by blast
  have within: "i' \<le> j' \<and> j' \<le> ?n" if "(i', j') \<in> ?R" for i' j' using rx_rel_within [OF that] .
  have "j \<in> set (rx_ends (Rep lo hi a) ci s i) \<longleftrightarrow>
     (\<exists>k. (i, k) \<in> ?F ^^ lo \<and> (\<exists>m \<le> (case hi of None \<Rightarrow> ?n | Some h \<Rightarrow> h - lo). (k, j) \<in> ?F ^^ m))"
    by (simp add: set_at_most set_exactly)
  also have "\<dots> \<longleftrightarrow> (\<exists>k. (i, k) \<in> ?R ^^ lo \<and> (\<exists>m \<le> (case hi of None \<Rightarrow> ?n | Some h \<Rightarrow> h - lo). (k, j) \<in> ?R ^^ m))"
    using F Rep.prems relpow_within [of ?R ?n i _ lo] within by blast
  also have "\<dots> \<longleftrightarrow> (i, j) \<in> rx_rel (Rep lo hi a) ci s" (is "?L \<longleftrightarrow> ?Rhs")
  proof
    assume ?L
    then obtain k m where km: "(i, k) \<in> ?R ^^ lo" "(k, j) \<in> ?R ^^ m" "m \<le> (case hi of None \<Rightarrow> ?n | Some h \<Rightarrow> h - lo)" by blast
    then have "(i, j) \<in> ?R ^^ (lo + m)" by (auto simp: relpow_add)
    moreover have "case hi of None \<Rightarrow> True | Some h \<Rightarrow> lo + m \<le> max lo h" using km(3) by (auto split: option.splits)
    ultimately show ?Rhs using Rep.prems by (simp del: relpow.simps) (metis le_add1)
  next
    assume ?Rhs
    then obtain n where n: "lo \<le> n" "case hi of None \<Rightarrow> True | Some h \<Rightarrow> n \<le> max lo h" "(i, j) \<in> ?R ^^ n" by auto
    then have "(i, j) \<in> ?R ^^ (lo + (n - lo))" by simp
    then obtain k where k: "(i, k) \<in> ?R ^^ lo" "(k, j) \<in> ?R ^^ (n - lo)" unfolding relpow_add by blast
    have ik: "k \<le> ?n" using relpow_within [of ?R ?n i k lo] within k(1) Rep.prems by blast
    show ?L
    proof (cases hi)
      case None
      obtain m where m: "m \<le> j - k" "(k, j) \<in> ?R ^^ m" using relpow_shortened [of ?R ?n k j "n - lo"] within k(2) ik by blast
      have "j \<le> ?n" using relpow_within [of ?R ?n k j "n - lo"] within k(2) ik by blast
      then have "m \<le> ?n" using m(1) by linarith
      then show ?thesis using k(1) m(2) None by auto
    next
      case (Some h)
      then have "n - lo \<le> h - lo" using n(2) by auto
      then show ?thesis using k Some by auto
    qed
  qed
  finally show ?case .
next
  case (Ahead pos a)
  have "rx_ends a ci s i \<noteq> [] \<longleftrightarrow> (\<exists>k. (i, k) \<in> rx_rel a ci s)"
    using Ahead ex_in_conv [of "set (rx_ends a ci s i)"] by simp
  then show ?case using Ahead.prems by auto
qed auto

lemma rx_test_iff: "rx_test ci r s \<longleftrightarrow> (\<exists>i j. (i, j) \<in> rx_rel r ci s)"
proof -
  have "rx_ends r ci s i \<noteq> [] \<longleftrightarrow> (\<exists>j. (i, j) \<in> rx_rel r ci s)" if "i \<le> length s" for i
    using rx_ends_correct [OF that, of _ r ci] ex_in_conv [of "set (rx_ends r ci s i)"] by simp
  then have "rx_test ci r s \<longleftrightarrow> (\<exists>i \<le> length s. \<exists>j. (i, j) \<in> rx_rel r ci s)"
    unfolding rx_test_def list_ex_iff by (auto simp: less_Suc_eq_le simp del: upt_Suc)
  then show ?thesis by (meson le_trans rx_rel_within)
qed

end
