(* ===== verification/JS_Regex_Syntax.thy ===== *)
theory JS_Regex_Syntax
  imports JS_Regex
begin

text \<open>
  Reading a regular expression from its text, so that a validator of the model is written with the
  text the code has, and the expressions the code builds at run time can be built too. A pass makes
  tokens, a second one reduces them on a stack of open groups. The fuel of the first pass is the text
  itself, one unit per turn: every turn consumes at least one.
\<close>

section \<open>Escapes and classes\<close>

definition digit_ranges :: ranges where
  "digit_ranges = [(48, 57)]"

definition word_ranges :: ranges where
  "word_ranges = [(48, 57), (65, 90), (95, 95), (97, 122)]"

fun complement_from :: "code_unit \<Rightarrow> ranges \<Rightarrow> ranges" where
  "complement_from n [] = [(n, 65535)]"
| "complement_from n ((lo, hi) # rs) = (if n < lo then [(n, lo - 1)] else []) @ complement_from (hi + 1) rs"

definition hex_value :: "code_unit \<Rightarrow> nat" where
  "hex_value c = (if is_digit c then c - 48 else if 97 \<le> c then c - 87 else c - 55)"

datatype class_item = One code_unit | Many ranges

text \<open>What a backslash followed by the first unit of \<open>s\<close> stands for in a class.\<close>

definition class_escape :: "jstring \<Rightarrow> (class_item \<times> jstring) option" where
  "class_escape s = (case s of [] \<Rightarrow> None
     | c # t \<Rightarrow>
         if c = unit_of CHR ''d'' then Some (Many digit_ranges, t)
         else if c = unit_of CHR ''D'' then Some (Many (complement_from 0 digit_ranges), t)
         else if c = unit_of CHR ''w'' then Some (Many word_ranges, t)
         else if c = unit_of CHR ''W'' then Some (Many (complement_from 0 word_ranges), t)
         else if c = unit_of CHR ''s'' then Some (Many space_units, t)
         else if c = unit_of CHR ''S'' then Some (Many (complement_from 0 space_units), t)
         else if c = unit_of CHR ''n'' then Some (One 10, t)
         else if c = unit_of CHR ''r'' then Some (One 13, t)
         else if c = unit_of CHR ''t'' then Some (One 9, t)
         else if c = unit_of CHR ''u'' then
           (case t of h1 # h2 # h3 # h4 # t' \<Rightarrow>
              Some (One (((hex_value h1 * 16 + hex_value h2) * 16 + hex_value h3) * 16 + hex_value h4), t')
            | _ \<Rightarrow> None)
         else Some (One c, t))"

definition class_atom :: "jstring \<Rightarrow> (class_item \<times> jstring) option" where
  "class_atom s = (case s of [] \<Rightarrow> None
     | c # t \<Rightarrow> if c = unit_of CHR 0x5C then class_escape t else Some (One c, t))"

text \<open>One item of a class: an escaped class, a single unit, or a range of units (\<open>None\<close> if it runs backwards).\<close>

definition class_next :: "jstring \<Rightarrow> (ranges \<times> jstring) option" where
  "class_next s =
     (case class_atom s of
        None \<Rightarrow> None
      | Some (Many rs, t) \<Rightarrow> Some (rs, t)
      | Some (One a, t) \<Rightarrow>
          (case t of
             d # e # t' \<Rightarrow>
               if d = unit_of CHR ''-'' \<and> e \<noteq> unit_of CHR '']'' then
                 (case class_atom (e # t') of
                    Some (One b, t'') \<Rightarrow> if a \<le> b then Some ([(a, b)], t'') else None
                  | _ \<Rightarrow> Some ([(a, a)], t))
               else Some ([(a, a)], t)
           | _ \<Rightarrow> Some ([(a, a)], t)))"

text \<open>The rest of a class up to its closing bracket.\<close>

fun class_items :: "jstring \<Rightarrow> ranges \<Rightarrow> jstring \<Rightarrow> (ranges \<times> jstring) option" where
  "class_items [] acc s = None"
| "class_items (f # n) acc s =
     (if s \<noteq> [] \<and> hd s = unit_of CHR '']'' then Some (acc, tl s)
      else case class_next s of None \<Rightarrow> None | Some (rs, t) \<Rightarrow> class_items n (acc @ rs) t)"

section \<open>Tokens\<close>

datatype group_kind = Plain | Look bool

datatype token =
    TAtom rx
  | TAssert rx
  | TOpen group_kind
  | TClose
  | TBar
  | TQuant nat "nat option"

definition nat_of_digits :: "jstring \<Rightarrow> nat" where
  "nat_of_digits s = nat (digits_value 0 s)"

text \<open>A counted repetition \<open>{n}\<close>, \<open>{n,}\<close> or \<open>{n,m}\<close> behind its opening brace, if it is one.\<close>

definition counted :: "jstring \<Rightarrow> (nat \<times> nat option \<times> jstring) option" where
  "counted s =
     (let lo = takeWhile is_digit s; t = dropWhile is_digit s in
      if lo = [] then None
      else case t of
        [] \<Rightarrow> None
      | c # t' \<Rightarrow>
          if c = unit_of CHR ''}'' then Some (nat_of_digits lo, Some (nat_of_digits lo), t')
          else if c = unit_of CHR '','' then
            (let hi = takeWhile is_digit t'; t'' = dropWhile is_digit t' in
             case t'' of
               [] \<Rightarrow> None
             | e # rest \<Rightarrow>
                 if e = unit_of CHR ''}'' then
                   Some (nat_of_digits lo, if hi = [] then None else Some (nat_of_digits hi), rest)
                 else None)
          else None)"

text \<open>A question mark behind a quantifier makes it lazy, which a test does not notice.\<close>

definition drop_lazy :: "jstring \<Rightarrow> jstring" where
  "drop_lazy s = (case s of [] \<Rightarrow> [] | c # t \<Rightarrow> if c = unit_of CHR ''?'' then t else s)"

definition any_unit :: rx where
  "any_unit = Cls True [(10, 10), (13, 13), (0x2028, 0x2029)]"

definition group_start :: "jstring \<Rightarrow> group_kind \<times> jstring" where
  "group_start s = (case s of
      q # c # t \<Rightarrow>
        if q = unit_of CHR ''?'' \<and> c = unit_of CHR '':'' then (Plain, t)
        else if q = unit_of CHR ''?'' \<and> c = unit_of CHR ''='' then (Look True, t)
        else if q = unit_of CHR ''?'' \<and> c = unit_of CHR ''!'' then (Look False, t)
        else (Plain, s)
    | _ \<Rightarrow> (Plain, s))"

definition one_token :: "jstring \<Rightarrow> code_unit \<Rightarrow> jstring \<Rightarrow> (token \<times> jstring) option" where
  "one_token n c t =
     (if c = unit_of CHR 0x5C then
        (case t of
           [] \<Rightarrow> None
         | d # t' \<Rightarrow>
             if d = unit_of CHR ''b'' then Some (TAssert WordB, t')
             else case class_escape t of
               None \<Rightarrow> None
             | Some (One a, r) \<Rightarrow> Some (TAtom (Cls False [(a, a)]), r)
             | Some (Many rs, r) \<Rightarrow> Some (TAtom (Cls False rs), r))
      else if c = unit_of CHR ''['' then
        (let neg = (t \<noteq> [] \<and> hd t = unit_of CHR ''^'') in
         case class_items (c # n) [] (if neg then tl t else t) of
           None \<Rightarrow> None
         | Some (rs, r) \<Rightarrow> Some (TAtom (Cls neg rs), r))
      else if c = unit_of CHR ''('' then (case group_start t of (g, r) \<Rightarrow> Some (TOpen g, r))
      else if c = unit_of CHR '')'' then Some (TClose, t)
      else if c = unit_of CHR ''|'' then Some (TBar, t)
      else if c = unit_of CHR ''^'' then Some (TAssert Bol, t)
      else if c = unit_of CHR ''$'' then Some (TAssert Eol, t)
      else if c = unit_of CHR ''.'' then Some (TAtom any_unit, t)
      else if c = unit_of CHR ''*'' then Some (TQuant 0 None, drop_lazy t)
      else if c = unit_of CHR ''+'' then Some (TQuant 1 None, drop_lazy t)
      else if c = unit_of CHR ''?'' then Some (TQuant 0 (Some 1), drop_lazy t)
      else if c = unit_of CHR ''{'' then
        (case counted t of
           Some (lo, hi, r) \<Rightarrow> Some (TQuant lo hi, drop_lazy r)
         | None \<Rightarrow> Some (TAtom (Cls False [(c, c)]), t))
      else Some (TAtom (Cls False [(c, c)]), t))"

fun tokens :: "jstring \<Rightarrow> jstring \<Rightarrow> token list option" where
  "tokens n [] = Some []"
| "tokens [] (c # t) = None"
| "tokens (f # n) (c # t) =
     (case one_token n c t of
        None \<Rightarrow> None
      | Some (tok, r) \<Rightarrow> (case tokens n r of None \<Rightarrow> None | Some toks \<Rightarrow> Some (tok # toks)))"

section \<open>Groups\<close>

text \<open>An open group: its kind, the alternatives already closed, and the current one backwards.\<close>

type_synonym frame = "group_kind \<times> rx option \<times> rx list"

definition sequence :: "rx list \<Rightarrow> rx" where
  "sequence backwards = foldl (\<lambda>acc r. Seq r acc) Eps backwards"

definition close_frame :: "frame \<Rightarrow> rx" where
  "close_frame fr = (case fr of (g, alts, cur) \<Rightarrow>
     let body = (case alts of None \<Rightarrow> sequence cur | Some a \<Rightarrow> Or a (sequence cur))
     in case g of Plain \<Rightarrow> body | Look pos \<Rightarrow> Ahead pos body)"

fun reduce :: "token list \<Rightarrow> frame list \<Rightarrow> rx option" where
  "reduce [] [fr] = Some (close_frame fr)"
| "reduce (TAtom r # ts) ((g, alts, cur) # st) = reduce ts ((g, alts, r # cur) # st)"
| "reduce (TAssert r # ts) ((g, alts, cur) # st) = reduce ts ((g, alts, r # cur) # st)"
| "reduce (TQuant lo hi # ts) ((g, alts, r # cur) # st) =
     (if (case hi of None \<Rightarrow> False | Some h \<Rightarrow> h < lo) then None
      else reduce ts ((g, alts, Rep lo hi r # cur) # st))"
| "reduce (TBar # ts) ((g, alts, cur) # st) =
     reduce ts ((g, Some (case alts of None \<Rightarrow> sequence cur | Some a \<Rightarrow> Or a (sequence cur)), []) # st)"
| "reduce (TOpen g # ts) st = reduce ts ((g, None, []) # st)"
| "reduce (TClose # ts) (fr # (g, alts, cur) # st) = reduce ts ((g, alts, close_frame fr # cur) # st)"
| "reduce _ _ = None"

definition RegExp :: "jstring \<Rightarrow> rx option" where
  "RegExp source = (case tokens source source of
      None \<Rightarrow> None
    | Some ts \<Rightarrow> reduce ts [(Plain, None, [])])"

text \<open>
  A literal of the logic holds no backslash. In the texts of the model a tilde stands for one, and
  two tildes for a tilde. \<open>regex_test ci p s\<close> is \<open>/p/.test(s)\<close>, with the flag \<open>i\<close> if \<open>ci\<close>.
\<close>

fun source_text :: "string \<Rightarrow> jstring" where
  "source_text [] = []"
| "source_text (c # s) =
     (if c = CHR ''~'' then
        (case s of
           [] \<Rightarrow> [92]
         | d # t \<Rightarrow> if d = CHR ''~'' then 126 # source_text t else 92 # source_text s)
      else unit_of c # source_text s)"

definition regex_test :: "bool \<Rightarrow> string \<Rightarrow> jstring \<Rightarrow> bool" where
  "regex_test ci source s = (case RegExp (source_text source) of None \<Rightarrow> False | Some r \<Rightarrow> rx_test ci r s)"

lemma regex_test_parsed: "RegExp (source_text source) = Some r \<Longrightarrow> regex_test ci source s \<longleftrightarrow> rx_test ci r s"
  by (simp add: regex_test_def)

end
