(* ===== verification/Validate_Result.thy ===== *)
theory Validate_Result
  imports JS_Regex_Syntax
begin

text \<open>
  What a validation method of the form validator gets and returns. \<open>opt\<close> is whether
  \<open>this.optional(element)\<close> is truthy, which the validator's own model computes (Form_Methods); the
  value of the element is a string.
\<close>

datatype method_result =
    RBool bool
  | RMismatch \<comment> \<open>the string \<open>dependency-mismatch\<close>\<close>
  | RPending \<comment> \<open>the string \<open>pending\<close>\<close>
  | RArray \<comment> \<open>what \<open>match\<close> returns when it finds something\<close>
  | RNull

fun truthy :: "method_result \<Rightarrow> bool" where
  "truthy (RBool b) = b"
| "truthy RNull = False"
| "truthy _ = True"

datatype js_error = SyntaxError | TypeError | PlainError jstring

text \<open>\<open>this.optional(element) || r\<close>\<close>

definition optional_or :: "bool \<Rightarrow> method_result \<Rightarrow> method_result" where
  "optional_or opt r = (if opt then RMismatch else r)"

definition match_result :: "bool \<Rightarrow> method_result" where
  "match_result b = (if b then RArray else RNull)"

lemma optional_or_simps [simp]: "optional_or True r = RMismatch" "optional_or False r = r"
  by (simp_all add: optional_or_def)

lemma match_result_simps [simp]: "match_result b = RArray \<longleftrightarrow> b" "match_result b = RNull \<longleftrightarrow> \<not> b" "truthy (match_result b) = b"
  by (simp_all add: match_result_def)

section \<open>Numbers as strings\<close>

fun decimal :: "nat \<Rightarrow> jstring" where
  "decimal n = (if n < 10 then [48 + n] else decimal (n div 10) @ [48 + n mod 10])"

declare decimal.simps [simp del]

definition js_of_num :: "jnum \<Rightarrow> jstring" where
  "js_of_num x = (case x of None \<Rightarrow> js ''NaN''
     | Some n \<Rightarrow> if n < 0 then unit_of CHR ''-'' # decimal (nat (- n)) else decimal (nat n))"

lemma decimal_digits: "list_all is_digit (decimal n)"
proof (induction n rule: decimal.induct)
  case (1 n)
  have "is_digit (48 + n)" if "n < 10" using that by (simp add: is_digit_def)
  moreover have "is_digit (48 + n mod 10)" by (simp add: is_digit_def)
  ultimately show ?case using 1 by (subst decimal.simps) auto
qed

lemma digits_value_decimal: "digits_value 0 (decimal n) = int n"
proof (induction n rule: decimal.induct)
  case (1 n)
  then show ?case
    by (subst decimal.simps) (auto simp: digits_value_app digit_value_def zdiv_int [of n 10, simplified] zmod_int [of n 10, simplified])
qed

lemma decimal_inject: "decimal m = decimal n \<longleftrightarrow> m = n"
  by (metis digits_value_decimal of_nat_eq_iff)

lemma decimal_less_10: "n < 10 \<Longrightarrow> decimal n = [48 + n]"
  by (simp add: decimal.simps)

section \<open>Sums over positions\<close>

text \<open>\<open>for (i = lo; i < hi; i++) sum += f(i)\<close>, starting from zero.\<close>

definition for_sum :: "nat \<Rightarrow> nat \<Rightarrow> (nat \<Rightarrow> jnum) \<Rightarrow> jnum" where
  "for_sum lo hi f = foldl (\<lambda>s i. num_add s (f i)) (Some 0) [lo..<hi]"

lemma foldl_num_add:
  "(\<And>i. i \<in> set xs \<Longrightarrow> f i = Some (g i)) \<Longrightarrow>
     foldl (\<lambda>s i. num_add s (f i)) (Some a) xs = Some (a + sum_list (map g xs))"
  by (induction xs arbitrary: a) (auto simp: algebra_simps)

lemma for_sum_Some:
  assumes "\<And>i. lo \<le> i \<Longrightarrow> i < hi \<Longrightarrow> f i = Some (g i)"
  shows "for_sum lo hi f = Some (\<Sum>i \<in> {lo..<hi}. g i)"
proof -
  have "for_sum lo hi f = Some (0 + sum_list (map g [lo..<hi]))"
    unfolding for_sum_def by (rule foldl_num_add) (use assms in auto)
  then show ?thesis by (simp add: sum.atLeastLessThan_concat interv_sum_list_conv_sum_set_nat)
qed

lemma foldl_num_add_NaN: "foldl (\<lambda>s i. num_add s (f i)) None xs = None"
  by (induction xs) auto

lemma foldl_num_add_NaN': "i \<in> set xs \<Longrightarrow> f i = None \<Longrightarrow> foldl (\<lambda>s i. num_add s (f i)) a xs = None"
  by (induction xs arbitrary: a) (auto simp: foldl_num_add_NaN)

lemma for_sum_NaN: "lo \<le> i \<Longrightarrow> i < hi \<Longrightarrow> f i = None \<Longrightarrow> for_sum lo hi f = None"
  unfolding for_sum_def by (rule foldl_num_add_NaN') auto

end
