(* ===== verification/Css_Escape.thy ===== *)
theory Css_Escape
  imports Validate_Result
begin

text \<open>
  How the scripts put a name into a selector and how the selector engine reads it back:
  \<open>escapeCssMeta\<close> of \<open>jquery.validate.js\<close>, \<open>escapeSelector\<close> of \<open>jquery.js\<close>, and the engine's
  \<open>runescape\<close> and \<open>funescape\<close>.
\<close>

unbundle bit_operations_syntax

section \<open>Reading escapes\<close>

definition is_hex :: "code_unit \<Rightarrow> bool" where
  "is_hex c \<longleftrightarrow> is_digit c \<or> (97 \<le> c \<and> c \<le> 102) \<or> (65 \<le> c \<and> c \<le> 70)"

definition css_space :: "code_unit \<Rightarrow> bool" where
  "css_space c \<longleftrightarrow> c \<in> {32, 9, 13, 10, 12}"

fun hex_number :: "nat \<Rightarrow> jstring \<Rightarrow> nat" where
  "hex_number acc [] = acc"
| "hex_number acc (c # s) = hex_number (16 * acc + hex_value c) s"

text \<open>The code units of an escaped code point: one of them, or a surrogate pair.\<close>

definition funescape :: "jstring \<Rightarrow> jstring" where
  "funescape hex =
     (let n = hex_number 0 hex
      in if n < 65536 then [n]
         else let high = n - 65536 in [(high div 1024 OR 55296) mod 65536, (high mod 1024 OR 56320) mod 65536])"

definition skip_css_space :: "jstring \<Rightarrow> jstring" where
  "skip_css_space s = (case s of c # t \<Rightarrow> if css_space c then t else s | [] \<Rightarrow> [])"

text \<open>\<open>s.replace(runescape, funescape)\<close>\<close>

function runescape :: "jstring \<Rightarrow> jstring" where
  "runescape [] = []"
| "runescape (c # s) =
     (if c \<noteq> unit_of (CHR 0x5C) then c # runescape s
      else let hex = takeWhile is_hex (take 6 s)
        in if hex \<noteq> [] then funescape hex @ runescape (skip_css_space (drop (length hex) s))
           else case s of
               [] \<Rightarrow> [c]
             | d # t \<Rightarrow> if d \<in> {13, 10, 12} then c # runescape s else d # runescape t)"
  by pat_completeness auto

lemma length_skip_css_space: "length (skip_css_space s) \<le> length s"
  by (auto simp: skip_css_space_def split: list.split)

termination runescape
  using length_skip_css_space
  by (relation "measure length") (auto intro: le_less_trans [OF length_skip_css_space])

section \<open>Writing escapes\<close>

text \<open>The characters of the class in \<open>escapeCssMeta\<close>.\<close>

definition css_meta :: "code_unit \<Rightarrow> bool" where
  "css_meta c \<longleftrightarrow> c = 92 \<or> c \<in> set (js ''!'') \<or> c = 34 \<or> c \<in> set (js ''#$%&'') \<or> c = 39 \<or>
     c \<in> set (js ''()*+,./:;<=>?@[]^'') \<or> c = 96 \<or> c \<in> set (js ''{|}~'')"

fun escape_meta :: "jstring \<Rightarrow> jstring" where
  "escape_meta [] = []"
| "escape_meta (c # s) = (if css_meta c then 92 # c # escape_meta s else c # escape_meta s)"

definition escapeCssMeta :: "jstring option \<Rightarrow> jstring" where
  "escapeCssMeta string = (case string of None \<Rightarrow> [] | Some s \<Rightarrow> escape_meta s)"

text \<open>
  \<open>escapeSelector\<close>: control characters, and a digit at the start or after a leading minus, are
  written as code points; a lone minus and other characters of ASCII that are not of a word, with a
  backslash.
\<close>

fun hex_digits :: "nat \<Rightarrow> jstring" where
  "hex_digits n =
     (let d = (\<lambda>k. if k < 10 then 48 + k else 87 + k)
      in if n < 16 then [d n] else hex_digits (n div 16) @ [d (n mod 16)])"

declare hex_digits.simps [simp del]

definition fcssescape :: "jstring \<Rightarrow> bool \<Rightarrow> jstring" where
  "fcssescape ch asCodePoint =
     (if asCodePoint then
        (if ch = [0] then [65533]
         else butlast ch @ [92] @ hex_digits (ch ! (length ch - 1)) @ [32])
      else 92 # ch)"

definition css_control :: "code_unit \<Rightarrow> bool" where
  "css_control c \<longleftrightarrow> c \<le> 31 \<or> c = 127"

definition css_special :: "code_unit \<Rightarrow> bool" where
  "css_special c \<longleftrightarrow> \<not> (c \<ge> 128 \<or> is_word c \<or> c = 45)"

fun escape_rest :: "jstring \<Rightarrow> jstring" where
  "escape_rest [] = []"
| "escape_rest (c # s) =
     (if css_control c then fcssescape [c] True
      else if css_special c then fcssescape [c] False else [c]) @ escape_rest s"

definition escapeSelector :: "jstring \<Rightarrow> jstring" where
  "escapeSelector sel =
     (case sel of
        [] \<Rightarrow> []
      | c # s \<Rightarrow>
          if is_digit c then fcssescape [c] True @ escape_rest s
          else if c = 45 then
            (case s of
               [] \<Rightarrow> fcssescape [45] False
             | d # t \<Rightarrow> if is_digit d then fcssescape [45, d] True @ escape_rest t else 45 # escape_rest s)
          else escape_rest sel)"

section \<open>What is written is read back\<close>

lemma css_meta_not_hex: "css_meta c \<Longrightarrow> \<not> is_hex c \<and> c \<notin> {13, 10, 12}"
  by (auto simp: css_meta_def is_hex_def is_digit_def unit_of_def)

lemma runescape_plain: "c \<noteq> 92 \<Longrightarrow> runescape (c # s) = c # runescape s"
  by (simp add: unit_of_def)

lemma runescape_escaped: "\<not> is_hex c \<Longrightarrow> c \<notin> {13, 10, 12} \<Longrightarrow> runescape (92 # c # s) = c # runescape s"
  by (simp add: unit_of_def Let_def)

lemma runescape_meta: "runescape (escape_meta s) = s"
proof (induction s)
  case (Cons c s)
  show ?case
  proof (cases "css_meta c")
    case True
    then show ?thesis using css_meta_not_hex [OF True] Cons by (simp add: runescape_escaped del: runescape.simps)
  next
    case False
    then have "c \<noteq> 92" by (auto simp: css_meta_def)
    then show ?thesis using False Cons by (simp add: runescape_plain del: runescape.simps)
  qed
qed simp

lemma hex_value_digit: "k < 16 \<Longrightarrow> hex_value (if k < 10 then 48 + k else 87 + k) = k"
  by (auto simp: hex_value_def is_digit_def is_lower_def is_upper_def)

lemma hex_number_app: "hex_number a (s @ t) = hex_number (hex_number a s) t"
  by (induction s arbitrary: a) auto

lemma hex_number_digits: "hex_number 0 (hex_digits n) = n"
proof (induction n rule: hex_digits.induct)
  case (1 n)
  then show ?case
    using hex_value_digit [of n] hex_value_digit [of "n mod 16"]
    by (subst hex_digits.simps) (auto simp: Let_def hex_number_app)
qed

lemma hex_digits_hex: "list_all is_hex (hex_digits n)"
proof (induction n rule: hex_digits.induct)
  case (1 n)
  have d: "is_hex (if k < 10 then 48 + k else 87 + k)" if "k < 16" for k using that by (auto simp: is_hex_def is_digit_def)
  show ?case using 1 d [of n] d [of "n mod 16"] by (subst hex_digits.simps) (simp add: Let_def)
qed

lemma hex_digits_short: "n < 256 \<Longrightarrow> hex_digits n \<noteq> [] \<and> length (hex_digits n) \<le> 2"
  using less_mult_imp_div_less [of n 16 16]
  by (cases "n < 16") (simp_all add: hex_digits.simps [of n] hex_digits.simps [of "n div 16"] Let_def)

lemma runescape_code_point:
  assumes "0 < n" "n < 256"
  shows "runescape (92 # hex_digits n @ 32 # s) = n # runescape s"
proof -
  let ?h = "hex_digits n"
  have h: "?h \<noteq> []" "length ?h \<le> 2" "list_all is_hex ?h" using assms hex_digits_short hex_digits_hex by auto
  have "\<not> is_hex 32" by (simp add: is_hex_def is_digit_def)
  moreover have "take 6 (?h @ 32 # s) = ?h @ 32 # take (5 - length ?h) s"
    using h(2) by (simp add: take_Cons' del: One_nat_def)
  ultimately have "takeWhile is_hex (take 6 (?h @ 32 # s)) = ?h"
    using h by (simp add: takeWhile_append2 list_all_iff)
  then show ?thesis
    using h(1) assms by (simp add: unit_of_def Let_def funescape_def hex_number_digits skip_css_space_def css_space_def)
qed

lemma css_special_plain: "css_special c \<Longrightarrow> \<not> css_control c \<Longrightarrow> \<not> is_hex c \<and> c \<notin> {13, 10, 12}"
  by (auto simp: css_special_def css_control_def is_hex_def is_word_def is_lower_def is_upper_def)

lemma runescape_rest: "0 \<notin> set s \<Longrightarrow> runescape (escape_rest s @ t) = s @ runescape t"
proof (induction s)
  case (Cons c s)
  consider "css_control c" | "\<not> css_control c" "css_special c" | "\<not> css_control c" "\<not> css_special c" by blast
  then show ?case
  proof cases
    case 1
    then show ?thesis using Cons runescape_code_point [of c] by (auto simp: fcssescape_def css_control_def simp del: runescape.simps)
  next
    case 2
    then show ?thesis using Cons css_special_plain [of c] by (simp add: fcssescape_def runescape_escaped del: runescape.simps)
  next
    case 3
    then have "c \<noteq> 92" by (auto simp: css_special_def is_word_def is_digit_def is_upper_def is_lower_def)
    then show ?thesis using 3 Cons by (simp add: runescape_plain del: runescape.simps)
  qed
qed simp

lemma runescape_escapeSelector:
  assumes "0 \<notin> set s"
  shows "runescape (escapeSelector s) = s"
proof (cases s)
  case (Cons c t)
  have rest: "runescape (escape_rest u) = u" if "0 \<notin> set u" for u
    using runescape_rest [of u "[]"] that by simp
  have dig: "runescape (92 # hex_digits d @ 32 # escape_rest u) = d # u" if "is_digit d" "0 \<notin> set u" for d u
    using runescape_code_point [of d] rest that by (simp add: is_digit_def del: runescape.simps)
  show ?thesis
    using Cons assms dig rest [of t] rest [of s] rest [of "tl t"]
    by (auto simp: escapeSelector_def fcssescape_def runescape_plain runescape_escaped is_hex_def is_digit_def simp del: runescape.simps
        split: list.split) 
qed (simp add: escapeSelector_def)

end
