(* ===== verification/JQuery_Callbacks.thy ===== *)
theory JQuery_Callbacks
  imports JS_Base "HOL-Library.While_Combinator"
begin

text \<open>
  The callback lists of \<open>jquery.js\<close>: \<open>jQuery.Callbacks\<close> with its options, the operations on a list, and
  firing as a machine with a stack, since a callback may use any list while it runs, the one that
  calls it included.
\<close>

section \<open>Options\<close>

definition html_white :: "code_unit \<Rightarrow> bool" where
  "html_white c \<longleftrightarrow> c \<in> {32, 9, 13, 10, 12}"

text \<open>\<open>match(rnothtmlwhite)\<close>: the words between HTML white space.\<close>

function html_words :: "jstring \<Rightarrow> jstring list" where
  "html_words s =
     (let t = dropWhile html_white s
      in if t = [] then [] else takeWhile (\<lambda>c. \<not> html_white c) t # html_words (dropWhile (\<lambda>c. \<not> html_white c) t))"
  by pat_completeness auto

lemma html_word_shorter:
  assumes "dropWhile html_white s \<noteq> []"
  shows "length (dropWhile (\<lambda>c. \<not> html_white c) (dropWhile html_white s)) < length s"
proof -
  obtain c t where t: "dropWhile html_white s = c # t" using assms by (cases "dropWhile html_white s") auto
  then have "\<not> html_white c" by (metis dropWhile_eq_Cons_conv)
  then have "length (dropWhile (\<lambda>c. \<not> html_white c) (c # t)) \<le> length t" by (simp add: length_dropWhile_le)
  moreover have "length (c # t) \<le> length s" unfolding t [symmetric] by (rule length_dropWhile_le)
  ultimately show ?thesis by (simp add: t)
qed

termination html_words
  by (relation "measure length") (auto intro: html_word_shorter)

declare html_words.simps [simp del]

definition createOptions :: "jstring \<Rightarrow> bool obj" where
  "createOptions options = foldl (\<lambda>ob flag. obj_set flag True ob) [] (html_words options)"

definition flag :: "jstring \<Rightarrow> bool obj \<Rightarrow> bool" where
  "flag k options \<longleftrightarrow> obj_get options k = Some True"

section \<open>Lists\<close>

text \<open>
  The variables of a list. \<open>None\<close> stands for the falsy values: for \<open>list\<close> the empty text of a spent
  list, for \<open>memory\<close> that there is nothing to remember.
\<close>

record ('f, 'a) callbacks =
  cb_options :: "bool obj"
  cb_firing :: bool
  cb_memory :: "'a option"
  cb_fired :: bool
  cb_locked :: bool
  cb_list :: "'f list option"
  cb_queue :: "'a list"
  cb_firingIndex :: int

definition Callbacks :: "bool obj \<Rightarrow> ('f, 'a) callbacks" where
  "Callbacks options =
     \<lparr>cb_options = options, cb_firing = False, cb_memory = None, cb_fired = False, cb_locked = False, cb_list = Some [],
      cb_queue = [], cb_firingIndex = - 1\<rparr>"

definition items :: "('f, 'a) callbacks \<Rightarrow> 'f list" where
  "items cb = (case cb_list cb of None \<Rightarrow> [] | Some fs \<Rightarrow> fs)"

text \<open>What \<open>add\<close> is given: functions, nested collections, and what it passes over.\<close>

datatype 'f arg = Fn 'f | Nested "'f arg list" | NoFunction

primrec arg_functions :: "'f arg \<Rightarrow> 'f list" where
  "arg_functions (Fn f) = [f]"
| "arg_functions (Nested args) = concat (map arg_functions args)"
| "arg_functions NoFunction = []"

definition has :: "'f \<Rightarrow> ('f, 'a) callbacks \<Rightarrow> bool" where
  "has f cb \<longleftrightarrow> f \<in> set (items cb)"

definition push_callback :: "('f, 'a) callbacks \<Rightarrow> 'f \<Rightarrow> ('f, 'a) callbacks" where
  "push_callback cb f = (if \<not> flag (js ''unique'') (cb_options cb) \<or> \<not> has f cb then cb\<lparr>cb_list := Some (items cb @ [f])\<rparr> else cb)"

text \<open>The operations give the list they leave, and whether they go on to fire it.\<close>

definition add_callbacks :: "'f arg list \<Rightarrow> ('f, 'a) callbacks \<Rightarrow> ('f, 'a) callbacks \<times> bool" where
  "add_callbacks args cb =
     (if cb_list cb = None then (cb, False)
      else
        let cb = (case cb_memory cb of
              Some m \<Rightarrow> if cb_firing cb then cb
                else cb\<lparr>cb_firingIndex := int (length (items cb)) - 1, cb_queue := cb_queue cb @ [m]\<rparr>
            | None \<Rightarrow> cb);
            cb = foldl push_callback cb (concat (map arg_functions args))
        in (cb, cb_memory cb \<noteq> None \<and> \<not> cb_firing cb))"

text \<open>One function is removed wherever it is; the index of the firing moves with what it points to.\<close>

fun remove_from :: "'f \<Rightarrow> int \<Rightarrow> 'f list \<Rightarrow> int \<Rightarrow> 'f list \<times> int" where
  "remove_from f k [] i = ([], i)"
| "remove_from f k (x # xs) i =
     (if x = f then remove_from f k xs (if k \<le> i then i - 1 else i)
      else case remove_from f (k + 1) xs i of (ys, i) \<Rightarrow> (x # ys, i))"

definition remove_callback :: "'f \<Rightarrow> ('f, 'a) callbacks \<Rightarrow> ('f, 'a) callbacks" where
  "remove_callback f cb =
     (case cb_list cb of
        None \<Rightarrow> cb
      | Some fs \<Rightarrow> (case remove_from f 0 fs (cb_firingIndex cb) of (gs, i) \<Rightarrow> cb\<lparr>cb_list := Some gs, cb_firingIndex := i\<rparr>))"

definition empty_callbacks :: "('f, 'a) callbacks \<Rightarrow> ('f, 'a) callbacks" where
  "empty_callbacks cb = (if cb_list cb = None then cb else cb\<lparr>cb_list := Some []\<rparr>)"

definition disable :: "('f, 'a) callbacks \<Rightarrow> ('f, 'a) callbacks" where
  "disable cb = cb\<lparr>cb_locked := True, cb_queue := [], cb_list := None, cb_memory := None\<rparr>"

definition lock :: "('f, 'a) callbacks \<Rightarrow> ('f, 'a) callbacks" where
  "lock cb =
     (let cb = cb\<lparr>cb_locked := True, cb_queue := []\<rparr>
      in if cb_memory cb = None \<and> \<not> cb_firing cb then cb\<lparr>cb_list := None, cb_memory := None\<rparr> else cb)"

definition fireWith :: "'a \<Rightarrow> ('f, 'a) callbacks \<Rightarrow> ('f, 'a) callbacks \<times> bool" where
  "fireWith args cb =
     (if cb_locked cb then (cb, False) else (cb\<lparr>cb_queue := cb_queue cb @ [args]\<rparr>, \<not> cb_firing cb))"

datatype ('f, 'a) cb_op = Add "'f arg list" | Remove "'f list" | Empty | Disable | Lock | FireWith 'a

fun list_op :: "('f, 'a) cb_op \<Rightarrow> ('f, 'a) callbacks \<Rightarrow> ('f, 'a) callbacks \<times> bool" where
  "list_op (Add args) cb = add_callbacks args cb"
| "list_op (Remove fs) cb = (fold remove_callback fs cb, False)"
| "list_op Empty cb = (empty_callbacks cb, False)"
| "list_op Disable cb = (disable cb, False)"
| "list_op Lock cb = (lock cb, False)"
| "list_op (FireWith args) cb = fireWith args cb"

section \<open>Firing\<close>

text \<open>The beginning and the end of \<open>fire\<close>.\<close>

definition begin_fire :: "('f, 'a) callbacks \<Rightarrow> ('f, 'a) callbacks" where
  "begin_fire cb =
     cb\<lparr>cb_locked := (cb_locked cb \<or> flag (js ''once'') (cb_options cb)), cb_fired := True, cb_firing := True\<rparr>"

definition end_fire :: "('f, 'a) callbacks \<Rightarrow> ('f, 'a) callbacks" where
  "end_fire cb =
     (let cb = (if flag (js ''memory'') (cb_options cb) then cb else cb\<lparr>cb_memory := None\<rparr>);
          cb = cb\<lparr>cb_firing := False\<rparr>
      in if cb_locked cb then cb\<lparr>cb_list := (if cb_memory cb = None then None else Some [])\<rparr> else cb)"

text \<open>After a callback: one that gave false may stop the firing and have the data forgotten.\<close>

definition after_call :: "bool \<Rightarrow> ('f, 'a) callbacks \<Rightarrow> ('f, 'a) callbacks" where
  "after_call is_false cb =
     (if is_false \<and> flag (js ''stopOnFalse'') (cb_options cb)
      then cb\<lparr>cb_firingIndex := int (length (items cb)), cb_memory := None\<rparr> else cb)"

text \<open>
  A machine runs scripts and callbacks over numbered lists. What a callback does depends on the calls
  so far, its own the last of them: the operations it calls in turn, and how it ends.
\<close>

datatype outcome = Returns bool \<comment> \<open>whether it is false\<close> | Throws

datatype ('f, 'a) frame =
    Script "(nat \<times> ('f, 'a) cb_op) list"
  | NextFire nat \<comment> \<open>the head of the loop over the queue\<close>
  | NextCall nat \<comment> \<open>the head of the loop over the list\<close>
  | Body nat "(nat \<times> ('f, 'a) cb_op) list" outcome

record ('f, 'a) call =
  call_list :: nat
  call_fun :: 'f
  call_args :: "'a option"

record ('f, 'a) machine =
  mc_heap :: "('f, 'a) callbacks list"
  mc_stack :: "('f, 'a) frame list"
  mc_calls :: "('f, 'a) call list"
  mc_threw :: bool

type_synonym ('f, 'a) behaviour = "('f, 'a) call list \<Rightarrow> (nat \<times> ('f, 'a) cb_op) list \<times> outcome"

definition set_list :: "nat \<Rightarrow> (('f, 'a) callbacks \<Rightarrow> ('f, 'a) callbacks) \<Rightarrow> ('f, 'a) machine \<Rightarrow> ('f, 'a) machine" where
  "set_list k g m = m\<lparr>mc_heap := (mc_heap m)[k := g (mc_heap m ! k)]\<rparr>"

text \<open>An operation on a list, which may begin to fire it.\<close>

definition operate :: "nat \<Rightarrow> ('f, 'a) cb_op \<Rightarrow> ('f, 'a) machine \<Rightarrow> ('f, 'a) machine" where
  "operate k op m =
     (case list_op op (mc_heap m ! k) of
        (cb, True) \<Rightarrow> (set_list k (\<lambda>_. begin_fire cb) m)\<lparr>mc_stack := NextFire k # mc_stack m\<rparr>
      | (cb, False) \<Rightarrow> set_list k (\<lambda>_. cb) m)"

definition next_fire :: "nat \<Rightarrow> ('f, 'a) frame list \<Rightarrow> ('f, 'a) machine \<Rightarrow> ('f, 'a) machine" where
  "next_fire k rest m =
     (case cb_queue (mc_heap m ! k) of
        [] \<Rightarrow> (set_list k end_fire m)\<lparr>mc_stack := rest\<rparr>
      | a # q \<Rightarrow> (set_list k (\<lambda>cb. cb\<lparr>cb_memory := Some a, cb_queue := q\<rparr>) m)\<lparr>mc_stack := NextCall k # rest\<rparr>)"

definition next_call :: "('f, 'a) behaviour \<Rightarrow> nat \<Rightarrow> ('f, 'a) frame list \<Rightarrow> ('f, 'a) machine \<Rightarrow> ('f, 'a) machine" where
  "next_call beh k rest m =
     (let cb = mc_heap m ! k; i = cb_firingIndex cb + 1
      in if nat i < length (items cb) then
           (let calls = mc_calls m @ [\<lparr>call_list = k, call_fun = items cb ! nat i, call_args = cb_memory cb\<rparr>]
            in case beh calls of (ops, end) \<Rightarrow>
              (set_list k (\<lambda>cb. cb\<lparr>cb_firingIndex := i\<rparr>) m)\<lparr>mc_calls := calls, mc_stack := Body k ops end # rest\<rparr>)
         else (set_list k (\<lambda>cb. cb\<lparr>cb_firingIndex := - 1\<rparr>) m)\<lparr>mc_stack := NextFire k # rest\<rparr>)"

definition cb_step :: "('f, 'a) behaviour \<Rightarrow> ('f, 'a) machine \<Rightarrow> ('f, 'a) machine" where
  "cb_step beh m =
     (case mc_stack m of
        [] \<Rightarrow> m
      | Script [] # rest \<Rightarrow> m\<lparr>mc_stack := rest\<rparr>
      | Script ((k, op) # ops) # rest \<Rightarrow> operate k op (m\<lparr>mc_stack := Script ops # rest\<rparr>)
      | NextFire k # rest \<Rightarrow> next_fire k rest m
      | NextCall k # rest \<Rightarrow> next_call beh k rest m
      | Body k ((j, op) # ops) end # rest \<Rightarrow> operate j op (m\<lparr>mc_stack := Body k ops end # rest\<rparr>)
      | Body k [] (Returns b) # rest \<Rightarrow> (set_list k (after_call b) m)\<lparr>mc_stack := NextCall k # rest\<rparr>
      | Body k [] Throws # rest \<Rightarrow> m\<lparr>mc_stack := [], mc_threw := True\<rparr>)"

definition cb_run :: "('f, 'a) behaviour \<Rightarrow> ('f, 'a) machine \<Rightarrow> ('f, 'a) machine option" where
  "cb_run beh = while_option (\<lambda>m. mc_stack m \<noteq> []) (cb_step beh)"

definition start_machine :: "('f, 'a) callbacks list \<Rightarrow> (nat \<times> ('f, 'a) cb_op) list \<Rightarrow> ('f, 'a) machine" where
  "start_machine heap ops = \<lparr>mc_heap = heap, mc_stack = [Script ops], mc_calls = [], mc_threw = False\<rparr>"

inductive cb_reachable :: "('f, 'a) behaviour \<Rightarrow> ('f, 'a) machine \<Rightarrow> ('f, 'a) machine \<Rightarrow> bool" for beh m where
  here: "cb_reachable beh m m"
| onward: "cb_reachable beh m m' \<Longrightarrow> cb_reachable beh m (cb_step beh m')"

end
