(* ===== verification/JQuery_Classes.thy ===== *)
theory JQuery_Classes
  imports JQuery_Callbacks
begin

text \<open>
  The class methods of \<open>jquery.js\<close>: \<open>addClass\<close>, \<open>removeClass\<close>, \<open>toggleClass\<close> and \<open>hasClass\<close> work on the text of
  the class attribute, padded with blanks. On the words of that text they are the operations on a list
  of classes that one expects.
\<close>

section \<open>Texts\<close>

definition blank :: jstring where
  "blank = [32]"

text \<open>\<open>indexOf(p) > -1\<close>, and \<open>replace(p, r)\<close> of the first occurrence.\<close>

fun contains_text :: "jstring \<Rightarrow> jstring \<Rightarrow> bool" where
  "contains_text p [] = (p = [])"
| "contains_text p (c # s) = (starts_with p (c # s) \<or> contains_text p s)"

fun replace_once :: "jstring \<Rightarrow> jstring \<Rightarrow> jstring \<Rightarrow> jstring" where
  "replace_once p r [] = (if p = [] then r else [])"
| "replace_once p r (c # s) = (if starts_with p (c # s) then r @ drop (length p) (c # s) else c # replace_once p r s)"

lemma length_replace_once:
  assumes "contains_text p s" "length r < length p"
  shows "length (replace_once p r s) < length s"
  using assms
proof (induction s)
  case (Cons c s)
  show ?case
  proof (cases "starts_with p (c # s)")
    case True
    then have "length p \<le> length (c # s)" by (metis starts_with_def length_take min.absorb_iff2 min.commute)
    then show ?thesis using True Cons.prems(2) by (auto simp: Suc_diff_le)
  qed (use Cons in auto)
qed auto

text \<open>\<open>stripAndCollapse\<close>: the words, with single blanks between them.\<close>

definition stripAndCollapse :: "jstring \<Rightarrow> jstring" where
  "stripAndCollapse val = join_with blank (html_words val)"

definition padded :: "jstring \<Rightarrow> jstring" where
  "padded s = blank @ s @ blank"

section \<open>Values and elements\<close>

text \<open>What the methods are given. A function is called with the index and the classes of the element.\<close>

datatype class_value =
    ClassText jstring
  | ClassArray "jstring list"
  | ClassFun "nat \<Rightarrow> jstring \<Rightarrow> class_value"
  | ClassBool bool
  | ClassUndef
  | ClassOther

record class_node =
  cn_element :: bool \<comment> \<open>its node type is that of an element\<close>
  cn_class :: "jstring option" \<comment> \<open>the attribute\<close>
  cn_saved :: "jstring option" \<comment> \<open>the private data \<open>__className__\<close>\<close>

definition getClass :: "class_node \<Rightarrow> jstring" where
  "getClass elem = (case cn_class elem of None \<Rightarrow> [] | Some c \<Rightarrow> c)"

definition classesToArray :: "class_value \<Rightarrow> jstring list" where
  "classesToArray val = (case val of ClassArray cs \<Rightarrow> cs | ClassText t \<Rightarrow> html_words t | _ \<Rightarrow> [])"

definition assign_class :: "jstring \<Rightarrow> class_node \<Rightarrow> class_node" where
  "assign_class cur elem =
     (let finalValue = stripAndCollapse cur
      in if getClass elem \<noteq> finalValue then elem\<lparr>cn_class := Some finalValue\<rparr> else elem)"

section \<open>The methods\<close>

definition append_class :: "jstring \<Rightarrow> jstring \<Rightarrow> jstring" where
  "append_class cur className = (if \<not> contains_text (padded className) cur then cur @ className @ blank else cur)"

definition add_names :: "jstring list \<Rightarrow> class_node \<Rightarrow> class_node" where
  "add_names classNames elem =
     (if classNames = [] \<or> \<not> cn_element elem then elem
      else assign_class (foldl append_class (padded (stripAndCollapse (getClass elem))) classNames) elem)"

primrec add_class_value :: "class_value \<Rightarrow> nat \<Rightarrow> class_node \<Rightarrow> class_node" where
  "add_class_value (ClassText t) j elem = add_names (html_words t) elem"
| "add_class_value (ClassArray cs) j elem = add_names cs elem"
| "add_class_value (ClassFun f) j elem = add_class_value (f j (getClass elem)) 0 elem"
| "add_class_value (ClassBool b) j elem = elem"
| "add_class_value ClassUndef j elem = elem"
| "add_class_value ClassOther j elem = elem"

definition addClass :: "class_value \<Rightarrow> class_node list \<Rightarrow> class_node list" where
  "addClass val elems = map2 (add_class_value val) [0..<length elems] elems"

text \<open>Every occurrence of a name is cut out; what is cut is longer than the blank that replaces it.\<close>

function cut_class :: "jstring \<Rightarrow> jstring \<Rightarrow> jstring" where
  "cut_class className cur =
     (if contains_text (padded className) cur then cut_class className (replace_once (padded className) blank cur) else cur)"
  by pat_completeness auto

termination cut_class
  by (relation "measure (length \<circ> snd)") (auto intro!: length_replace_once simp: padded_def blank_def)

declare cut_class.simps [simp del]

definition remove_names :: "jstring list \<Rightarrow> class_node \<Rightarrow> class_node" where
  "remove_names classNames elem =
     (if classNames = [] \<or> \<not> cn_element elem then elem
      else assign_class (foldl (\<lambda>cur className. cut_class className cur) (padded (stripAndCollapse (getClass elem))) classNames) elem)"

primrec remove_class_value :: "class_value \<Rightarrow> nat \<Rightarrow> class_node \<Rightarrow> class_node" where
  "remove_class_value (ClassText t) j elem = remove_names (html_words t) elem"
| "remove_class_value (ClassArray cs) j elem = remove_names cs elem"
| "remove_class_value (ClassFun f) j elem = remove_class_value (f j (getClass elem)) 0 elem"
| "remove_class_value (ClassBool b) j elem = elem"
| "remove_class_value ClassUndef j elem = elem"
| "remove_class_value ClassOther j elem = elem"

text \<open>Called without an argument at all, \<open>removeClass\<close> sets the attribute to the empty text.\<close>

definition removeClass :: "class_value option \<Rightarrow> class_node list \<Rightarrow> class_node list" where
  "removeClass val elems =
     (case val of
        None \<Rightarrow> map (\<lambda>elem. if cn_element elem then elem\<lparr>cn_class := Some []\<rparr> else elem) elems
      | Some v \<Rightarrow> map2 (remove_class_value v) [0..<length elems] elems)"

definition node_has_class :: "jstring \<Rightarrow> class_node \<Rightarrow> bool" where
  "node_has_class selector elem \<longleftrightarrow>
     cn_element elem \<and> contains_text (padded selector) (padded (stripAndCollapse (getClass elem)))"

definition hasClass :: "jstring \<Rightarrow> class_node list \<Rightarrow> bool" where
  "hasClass selector elems \<longleftrightarrow> list_ex (node_has_class selector) elems"

definition toggle_name :: "class_node \<Rightarrow> jstring \<Rightarrow> class_node" where
  "toggle_name elem className =
     (if node_has_class className elem then remove_names (html_words className) elem else add_names (html_words className) elem)"

text \<open>Without names the whole attribute is switched: kept away in the data, or brought back.\<close>

definition toggle_whole :: "bool \<Rightarrow> class_node \<Rightarrow> class_node" where
  "toggle_whole is_false elem =
     (let className = getClass elem;
          elem = (if className \<noteq> [] then elem\<lparr>cn_saved := Some className\<rparr> else elem)
      in if cn_element elem then
           elem\<lparr>cn_class := Some (if className \<noteq> [] \<or> is_false then []
               else case cn_saved elem of None \<Rightarrow> [] | Some s \<Rightarrow> s)\<rparr>
         else elem)"

primrec toggle_class_value :: "class_value \<Rightarrow> bool option \<Rightarrow> nat \<Rightarrow> class_node \<Rightarrow> class_node" where
  "toggle_class_value (ClassText t) stateVal j elem =
     (case stateVal of
        Some b \<Rightarrow> if b then add_names (html_words t) elem else remove_names (html_words t) elem
      | None \<Rightarrow> foldl toggle_name elem (html_words t))"
| "toggle_class_value (ClassArray cs) stateVal j elem =
     (case stateVal of
        Some b \<Rightarrow> if b then add_names cs elem else remove_names cs elem
      | None \<Rightarrow> foldl toggle_name elem cs)"
| "toggle_class_value (ClassFun f) stateVal j elem = toggle_class_value (f j (getClass elem)) stateVal 0 elem"
| "toggle_class_value (ClassBool b) stateVal j elem = toggle_whole (\<not> b) elem"
| "toggle_class_value ClassUndef stateVal j elem = toggle_whole False elem"
| "toggle_class_value ClassOther stateVal j elem = elem"

definition toggleClass :: "class_value \<Rightarrow> bool option \<Rightarrow> class_node list \<Rightarrow> class_node list" where
  "toggleClass val stateVal elems = map2 (toggle_class_value val stateVal) [0..<length elems] elems"

section \<open>Words\<close>

definition is_name :: "jstring \<Rightarrow> bool" where
  "is_name w \<longleftrightarrow> w \<noteq> [] \<and> list_all (\<lambda>c. \<not> html_white c) w"

definition pad :: "jstring list \<Rightarrow> jstring" where
  "pad ws = 32 # concat (map (\<lambda>w. w @ [32]) ws)"

lemma pad_simps: "pad [] = [32]" "pad (w # ws) = 32 # w @ pad ws"
  by (simp_all add: pad_def)

lemma pad_append: "pad (ws @ [w]) = pad ws @ w @ [32]"
  by (simp add: pad_def)

lemma html_white_blank [simp]: "html_white 32"
  by (simp add: html_white_def)

lemma name_no_blank: "is_name w \<Longrightarrow> 32 \<notin> set w"
  by (auto simp: is_name_def list_all_iff)

lemma html_words_Nil [simp]: "html_words [] = []"
  by (subst html_words.simps) simp

lemma html_words_white: "html_white c \<Longrightarrow> html_words (c # s) = html_words s"
  by (subst html_words.simps, subst (2) html_words.simps) simp

lemma html_words_name:
  assumes "is_name w" "t = [] \<or> html_white (hd t)"
  shows "html_words (w @ t) = w # html_words t"
proof -
  have w: "w \<noteq> []" "\<forall>c \<in> set w. \<not> html_white c" using assms(1) by (auto simp: is_name_def list_all_iff)
  have one: "dropWhile html_white (w @ t) = w @ t" using w by (cases w) auto
  have two: "takeWhile (\<lambda>c. \<not> html_white c) (w @ t) = w" "dropWhile (\<lambda>c. \<not> html_white c) (w @ t) = t"
    using w(2) assms(2) by (cases t; simp add: takeWhile_append dropWhile_append)+
  show ?thesis using w(1) by (subst html_words.simps) (simp add: one two)
qed

lemma html_words_names: "list_all is_name (html_words s)"
proof (induction s rule: html_words.induct)
  case (1 s)
  define t where "t = dropWhile html_white s"
  show ?case
  proof (cases "t = []")
    case False
    then have "\<not> html_white (hd t)" unfolding t_def by (rule hd_dropWhile)
    then have "is_name (takeWhile (\<lambda>c. \<not> html_white c) t)"
      using False set_takeWhileD by (cases t) (fastforce simp: is_name_def list_all_iff)+
    then show ?thesis using 1 False by (subst html_words.simps) (simp add: t_def Let_def)
  qed (subst html_words.simps, simp add: t_def)
qed

lemma html_words_pad: "list_all is_name ws \<Longrightarrow> html_words (pad ws) = ws"
proof (induction ws)
  case (Cons w ws)
  then have "html_words (w @ pad ws) = w # html_words (pad ws)" by (intro html_words_name) (simp_all add: pad_def)
  then show ?case using Cons by (simp add: pad_simps html_words_white)
qed (simp add: pad_simps html_words_white)

lemma join_pad: "ws \<noteq> [] \<Longrightarrow> padded (join_with blank ws) = pad ws"
proof (induction ws rule: induct_list012)
  case (3 x y zs)
  then show ?case by (simp add: padded_def blank_def pad_simps)
qed (simp_all add: padded_def blank_def pad_def)

lemma html_words_join: "list_all is_name ws \<Longrightarrow> html_words (join_with blank ws) = ws"
proof (induction ws rule: induct_list012)
  case (2 x)
  then show ?case using html_words_name [of x "[]"] by simp
next
  case (3 x y zs)
  then have "html_words (x @ blank @ join_with blank (y # zs)) = x # html_words (blank @ join_with blank (y # zs))"
    by (intro html_words_name) (simp_all add: blank_def)
  then show ?case using 3 by (simp add: blank_def html_words_white)
qed simp

text \<open>Looking for a padded name, and cutting it out, in a padded list of names.\<close>

lemma starts_with_append: "starts_with p s \<longleftrightarrow> (\<exists>t. s = p @ t)"
  unfolding starts_with_def by (metis append_eq_conv_conj)

lemma starts_name:
  assumes "32 \<notin> set w" "32 \<notin> set x"
  shows "starts_with (32 # w @ [32]) (32 # x @ 32 # t) \<longleftrightarrow> w = x"
proof
  assume "starts_with (32 # w @ [32]) (32 # x @ 32 # t)"
  then obtain u where "x @ 32 # t = w @ 32 # u" by (auto simp: starts_with_append)
  then have "takeWhile (\<lambda>c. c \<noteq> 32) (x @ 32 # t) = takeWhile (\<lambda>c. c \<noteq> 32) (w @ 32 # u)" by simp
  moreover have "takeWhile (\<lambda>c. c \<noteq> 32) (y @ 32 # v) = y" if "32 \<notin> set y" for y v :: jstring
    using that by (induction y) auto
  ultimately show "w = x" using assms by simp
qed (simp add: starts_with_append)

lemma skip_text:
  assumes "c \<notin> set x"
  shows "contains_text (c # p) (x @ t) \<longleftrightarrow> contains_text (c # p) t" "replace_once (c # p) r (x @ t) = x @ replace_once (c # p) r t"
  using assms by (induction x) (auto simp: starts_with_def)

lemma pad_start: "pad ws = 32 # tl (pad ws)"
  by (simp add: pad_def)

lemma contains_name:
  assumes "32 \<notin> set w" "list_all is_name ws" "w \<noteq> []"
  shows "contains_text (padded w) (pad ws) \<longleftrightarrow> w \<in> set ws"
  using assms(2)
proof (induction ws)
  case Nil
  then show ?case using assms(3) by (cases w) (simp_all add: pad_simps padded_def blank_def starts_with_def)
next
  case (Cons x ws)
  then have x: "32 \<notin> set x" by (simp add: name_no_blank)
  have "contains_text (32 # w @ [32]) (32 # x @ pad ws) \<longleftrightarrow>
      starts_with (32 # w @ [32]) (32 # x @ pad ws) \<or> contains_text (32 # w @ [32]) (x @ pad ws)" by simp
  also have "starts_with (32 # w @ [32]) (32 # x @ pad ws) \<longleftrightarrow> w = x"
    by (subst pad_start) (rule starts_name [OF assms(1) x])
  also have "contains_text (32 # w @ [32]) (x @ pad ws) \<longleftrightarrow> w \<in> set ws"
    using Cons by (simp add: skip_text(1) [OF x] padded_def blank_def)
  finally show ?case by (auto simp: pad_simps padded_def blank_def)
qed

lemma replace_name:
  assumes "32 \<notin> set w" "list_all is_name ws" "w \<in> set ws"
  shows "replace_once (padded w) blank (pad ws) = pad (remove1 w ws)"
  using assms(2,3)
proof (induction ws)
  case (Cons x ws)
  then have x: "32 \<notin> set x" by (simp add: name_no_blank)
  have start: "starts_with (32 # w @ [32]) (32 # x @ pad ws) \<longleftrightarrow> w = x"
    by (subst pad_start) (rule starts_name [OF assms(1) x])
  show ?case
  proof (cases "w = x")
    case True
    have "32 # drop (Suc 0) (pad ws) = pad ws" by (simp add: pad_def)
    then show ?thesis using True start by (simp add: pad_simps padded_def blank_def)
  next
    case False
    then have "replace_once (32 # w @ [32]) [32] (pad (x # ws)) = 32 # x @ replace_once (32 # w @ [32]) [32] (pad ws)"
      using start by (simp add: pad_simps skip_text(2) [OF x])
    then show ?thesis using Cons False by (simp add: padded_def blank_def pad_simps)
  qed
qed simp

lemma cut_name:
  assumes "is_name w" "list_all is_name ws"
  shows "cut_class w (pad ws) = pad (filter (\<lambda>x. x \<noteq> w) ws)"
  using assms(2)
proof (induction "length ws" arbitrary: ws rule: less_induct)
  case less
  have w: "32 \<notin> set w" "w \<noteq> []" using assms(1) name_no_blank by (auto simp: is_name_def)
  note found = contains_name [OF w(1) less.prems w(2)]
  show ?case
  proof (cases "w \<in> set ws")
    case True
    have "list_all is_name (remove1 w ws)" using less.prems by (auto simp: list_all_iff dest: notin_set_remove1)
    moreover have "length (remove1 w ws) < length ws" using True length_pos_if_in_set [OF True] by (simp add: length_remove1)
    moreover have "filter (\<lambda>x. x \<noteq> w) (remove1 w ws) = filter (\<lambda>x. x \<noteq> w) ws" by (simp add: filter_remove1)
    ultimately show ?thesis using less.hyps True by (subst cut_class.simps) (simp add: found replace_name [OF w(1) less.prems])
  next
    case False
    then have "filter (\<lambda>x. x \<noteq> w) ws = ws" by (auto intro: filter_True)
    then show ?thesis using False by (subst cut_class.simps) (simp add: found)
  qed
qed

section \<open>The methods on words\<close>

definition class_words :: "class_node \<Rightarrow> jstring list" where
  "class_words elem = html_words (getClass elem)"

lemma words_start: "html_words (padded (stripAndCollapse c)) = html_words c" and
  padded_start: "html_words c \<noteq> [] \<Longrightarrow> padded (stripAndCollapse c) = pad (html_words c)"
  using html_words_join [OF html_words_names, of c] join_pad [of "html_words c"] html_words_pad [OF html_words_names, of c]
  by (cases "html_words c = []"; simp add: stripAndCollapse_def padded_def blank_def html_words_white)+

lemma assign_class_words: "cn_element elem \<Longrightarrow> class_words (assign_class cur elem) = html_words cur"
proof -
  have same: "html_words (stripAndCollapse cur) = html_words cur"
    unfolding stripAndCollapse_def by (rule html_words_join [OF html_words_names])
  show ?thesis
  proof (cases "getClass elem = stripAndCollapse cur")
    case True
    then show ?thesis using same by (simp add: assign_class_def class_words_def)
  next
    case False
    then show ?thesis using same by (simp add: assign_class_def class_words_def getClass_def)
  qed
qed

lemma append_class_names:
  assumes "list_all is_name ws" "is_name w"
  shows "append_class (pad ws) w = pad (if w \<in> set ws then ws else ws @ [w])"
  using contains_name [OF name_no_blank [OF assms(2)] assms(1)] assms(2)
  by (simp add: append_class_def is_name_def pad_append blank_def)

definition add_words :: "jstring list \<Rightarrow> jstring list \<Rightarrow> jstring list" where
  "add_words names ws = foldl (\<lambda>cs w. if w \<in> set cs then cs else cs @ [w]) ws names"

lemma fold_append_class:
  assumes "list_all is_name names" "list_all is_name ws"
  shows "foldl append_class (pad ws) names = pad (add_words names ws) \<and> list_all is_name (add_words names ws)"
  using assms
proof (induction names arbitrary: ws)
  case (Cons n names)
  show ?case
  proof (cases "n \<in> set ws")
    case True
    then show ?thesis using Cons.IH [of ws] Cons.prems by (simp add: add_words_def append_class_names)
  next
    case False
    then show ?thesis using Cons.IH [of "ws @ [n]"] Cons.prems by (simp add: add_words_def append_class_names)
  qed
qed (simp add: add_words_def)

text \<open>An attribute without a class is padded by two blanks, which only the words see.\<close>

lemma contains_two_blanks:
  assumes "is_name w"
  shows "\<not> contains_text (padded w) [32, 32]"
proof -
  obtain c t where w: "w = c # t" using assms by (cases w) (auto simp: is_name_def)
  then have "c \<noteq> 32" using name_no_blank [OF assms] by auto
  then show ?thesis by (simp add: w padded_def blank_def starts_with_def)
qed

lemma append_class_blanks:
  assumes "list_all is_name ws" "is_name w"
  shows "append_class (32 # pad ws) w = 32 # pad (if w \<in> set ws then ws else ws @ [w])"
proof -
  have "\<not> starts_with (32 # w @ [32]) (32 # pad ws)"
    using assms(2) by (cases w) (auto simp: is_name_def starts_with_append pad_def)
  then have "contains_text (padded w) (32 # pad ws) \<longleftrightarrow> contains_text (padded w) (pad ws)" by (simp add: padded_def blank_def)
  then show ?thesis
    using contains_name [OF name_no_blank [OF assms(2)] assms(1)] assms(2) by (simp add: append_class_def is_name_def pad_append blank_def)
qed

lemma fold_append_blanks:
  assumes "list_all is_name names" "list_all is_name ws"
  shows "foldl append_class (32 # pad ws) names = 32 # pad (add_words names ws)"
  using assms
proof (induction names arbitrary: ws)
  case (Cons n names)
  show ?case
  proof (cases "n \<in> set ws")
    case True
    then show ?thesis using Cons.IH [of ws] Cons.prems by (simp add: add_words_def append_class_blanks)
  next
    case False
    then show ?thesis using Cons.IH [of "ws @ [n]"] Cons.prems by (simp add: add_words_def append_class_blanks)
  qed
qed (simp add: add_words_def)

lemma add_names_words:
  assumes "cn_element elem" "list_all is_name names"
  shows "class_words (add_names names elem) = add_words names (class_words elem)"
proof (cases "names = []")
  case True
  then show ?thesis by (simp add: add_names_def add_words_def)
next
  case False
  have names: "list_all is_name (class_words elem)" by (simp add: class_words_def html_words_names)
  have kept: "list_all is_name (add_words names (class_words elem))" using fold_append_class [OF assms(2) names] by simp
  have "html_words (foldl append_class (padded (stripAndCollapse (getClass elem))) names) = add_words names (class_words elem)"
  proof (cases "class_words elem = []")
    case True
    then have "padded (stripAndCollapse (getClass elem)) = 32 # pad []"
      by (simp add: class_words_def stripAndCollapse_def padded_def blank_def pad_simps)
    then show ?thesis using fold_append_blanks [OF assms(2), of "[]"] kept True by (simp add: html_words_white html_words_pad)
  next
    case False
    then show ?thesis
      using padded_start [of "getClass elem"] fold_append_class [OF assms(2) names] by (simp add: class_words_def html_words_pad)
  qed
  then show ?thesis using False assms(1) by (simp add: add_names_def assign_class_words)
qed

lemma fold_cut_names:
  assumes "list_all is_name names" "list_all is_name ws"
  shows "foldl (\<lambda>cur n. cut_class n cur) (pad ws) names = pad (filter (\<lambda>x. x \<notin> set names) ws)"
  using assms
proof (induction names arbitrary: ws)
  case (Cons n names)
  have "list_all is_name (filter (\<lambda>x. x \<noteq> n) ws)" using Cons.prems(2) by (simp add: list_all_iff)
  moreover have "filter (\<lambda>x. x \<notin> set names) (filter (\<lambda>x. x \<noteq> n) ws) = filter (\<lambda>x. x \<notin> set (n # names)) ws"
    by (simp add: conj_commute)
  ultimately show ?case using Cons.IH [of "filter (\<lambda>x. x \<noteq> n) ws"] Cons.prems by (simp add: cut_name)
qed simp

lemma fold_cut_blanks:
  "list_all is_name names \<Longrightarrow> foldl (\<lambda>cur n. cut_class n cur) [32, 32] names = [32, 32]"
proof (induction names)
  case (Cons n names)
  have "cut_class n [32, 32] = [32, 32]" using contains_two_blanks [of n] Cons.prems
    by (subst cut_class.simps) (simp del: contains_text.simps)
  then show ?case using Cons by simp
qed simp

lemma remove_names_words:
  assumes "cn_element elem" "list_all is_name names"
  shows "class_words (remove_names names elem) = filter (\<lambda>w. w \<notin> set names) (class_words elem)"
proof (cases "names = []")
  case True
  then show ?thesis by (simp add: remove_names_def)
next
  case False
  have names: "list_all is_name (class_words elem)" by (simp add: class_words_def html_words_names)
  have "html_words (foldl (\<lambda>cur n. cut_class n cur) (padded (stripAndCollapse (getClass elem))) names)
      = filter (\<lambda>w. w \<notin> set names) (class_words elem)"
  proof (cases "class_words elem = []")
    case True
    then have "padded (stripAndCollapse (getClass elem)) = [32, 32]"
      by (simp add: class_words_def stripAndCollapse_def padded_def blank_def)
    then show ?thesis using fold_cut_blanks [OF assms(2)] True by (simp add: html_words_white)
  next
    case False
    have "list_all is_name (filter (\<lambda>w. w \<notin> set names) (class_words elem))" using names by (simp add: list_all_iff)
    then show ?thesis
      using False padded_start [of "getClass elem"] fold_cut_names [OF assms(2) names] by (simp add: class_words_def html_words_pad)
  qed
  then show ?thesis using False assms(1) by (simp add: remove_names_def assign_class_words)
qed

lemma has_class_words:
  assumes "cn_element elem" "is_name w"
  shows "node_has_class w elem \<longleftrightarrow> w \<in> set (class_words elem)"
proof (cases "class_words elem = []")
  case True
  then show ?thesis
    using assms contains_two_blanks [OF assms(2)]
    by (simp add: node_has_class_def class_words_def stripAndCollapse_def padded_def [of "[]"] blank_def)
next
  case False
  then show ?thesis
    using assms contains_name [OF name_no_blank [OF assms(2)] html_words_names] padded_start [of "getClass elem"]
    by (simp add: node_has_class_def class_words_def is_name_def)
qed

lemma toggle_name_words:
  assumes "cn_element elem" "is_name w"
  shows "class_words (toggle_name elem w) =
    (if w \<in> set (class_words elem) then filter (\<lambda>x. x \<noteq> w) (class_words elem) else class_words elem @ [w])"
proof -
  have "html_words w = [w]" using html_words_name [OF assms(2), of "[]"] by simp
  moreover have "list_all is_name [w]" using assms(2) by simp
  ultimately show ?thesis
    using assms add_names_words [of elem "[w]"] remove_names_words [of elem "[w]"]
    by (simp add: toggle_name_def has_class_words add_words_def)
qed

end
