(* ===== verification/Selector_Filters.thy ===== *)
theory Selector_Filters
  imports Dom_Tree Css_Escape JQuery_Classes
begin

text \<open>
  What one simple selector asks of an element: the filters by number, name, class and attribute of the selector
  engine of \<open>jquery.js\<close>, and the pseudo-classes that look at the element and its surroundings only.
\<close>

section \<open>Attributes\<close>

definition booleans :: "jstring list" where
  "booleans = map js [''checked'', ''selected'', ''async'', ''autofocus'', ''autoplay'', ''controls'', ''defer'', ''disabled'',
     ''hidden'', ''ismap'', ''loop'', ''multiple'', ''open'', ''readonly'', ''required'', ''scoped'']"

text \<open>
  The handle of a boolean attribute takes itself out while it asks for the attribute, and answers with the
  name of an attribute that is there.
\<close>

definition attrHandle :: "dtree \<Rightarrow> node \<Rightarrow> jstring \<Rightarrow> jstring option" where
  "attrHandle t elem name = (if getAttribute t elem name \<noteq> None then Some (ascii_lower name) else None)"

definition find_attr :: "dtree \<Rightarrow> node \<Rightarrow> jstring \<Rightarrow> jstring option" where
  "find_attr t elem name =
     (if ascii_lower name \<in> set booleans then attrHandle t elem name else getAttribute t elem name)"

text \<open>\<open>result.replace( rwhitespace, " " )\<close>\<close>

fun squeeze :: "bool \<Rightarrow> jstring \<Rightarrow> jstring" where
  "squeeze inside [] = []"
| "squeeze inside (c # s) =
     (if css_space c then (if inside then squeeze True s else 32 # squeeze True s) else c # squeeze False s)"

definition filter_ATTR :: "dtree \<Rightarrow> jstring \<Rightarrow> jstring option \<Rightarrow> jstring \<Rightarrow> node \<Rightarrow> bool" where
  "filter_ATTR t name operator check elem =
     (case find_attr t elem name of
        None \<Rightarrow> operator = Some (js ''!='')
      | Some result \<Rightarrow>
         (case operator of
            None \<Rightarrow> True
          | Some op \<Rightarrow>
              if op = js ''='' then result = check
              else if op = js ''!='' then result \<noteq> check
              else if op = js ''^='' then check \<noteq> [] \<and> starts_with check result
              else if op = js ''*='' then check \<noteq> [] \<and> contains_text check result
              else if op = js ''$='' then check \<noteq> [] \<and> last_chars (length check) result = check
              else if op = js ''~='' then contains_text check ([32] @ squeeze False result @ [32])
              else if op = js ''|='' then result = check \<or> substring result 0 (length check + 1) = check @ js ''-''
              else False))"

section \<open>Numbers, names, classes\<close>

definition filter_ID :: "dtree \<Rightarrow> jstring \<Rightarrow> node \<Rightarrow> bool" where
  "filter_ID t i elem \<longleftrightarrow> getAttribute t elem (js ''id'') = Some (runescape i)"

definition filter_TAG :: "dtree \<Rightarrow> jstring \<Rightarrow> node \<Rightarrow> bool" where
  "filter_TAG t nodeNameSelector elem \<longleftrightarrow>
     nodeNameSelector = js ''*'' \<or> nodeName t elem (ascii_lower (runescape nodeNameSelector))"

text \<open>The pattern of a class is made when the selector is compiled, which raises an error if it is none.\<close>

definition class_pattern :: "jstring \<Rightarrow> rx option" where
  "class_pattern className =
     RegExp (source_text ''(^|[~u0020~t~r~n~u000c])'' @ className @ source_text ''([~u0020~t~r~n~u000c]|$)'')"

text \<open>Escapes of a class name that have a meaning of their own in a regular expression.\<close>

fun odd_escape :: "jstring \<Rightarrow> bool" where
  "odd_escape (c # d # s) = (if c = unit_of CHR 0x5C then is_word d \<or> odd_escape s else odd_escape (d # s))"
| "odd_escape s = False"

definition class_text :: "dtree \<Rightarrow> node \<Rightarrow> jstring" where
  "class_text t elem =
     (case nd_className (info t elem) of
        Some c \<Rightarrow> if c \<noteq> [] then c else (case getAttribute t elem (js ''class'') of Some a \<Rightarrow> a | None \<Rightarrow> [])
      | None \<Rightarrow> (case getAttribute t elem (js ''class'') of Some a \<Rightarrow> a | None \<Rightarrow> []))"

definition filter_CLASS :: "dtree \<Rightarrow> rx \<Rightarrow> node \<Rightarrow> bool" where
  "filter_CLASS t pattern elem \<longleftrightarrow> rx_test False pattern (class_text t elem)"

section \<open>Pseudo-classes\<close>

text \<open>What the page says besides its document.\<close>

record page_env =
  pe_hash :: "jstring option"
  pe_active :: "node option"
  pe_hasFocus :: bool
  pe_documentElement :: "node option"

definition createInputPseudo :: "jstring \<Rightarrow> dtree \<Rightarrow> node \<Rightarrow> bool" where
  "createInputPseudo kind t elem \<longleftrightarrow> nodeName t elem (js ''input'') \<and> nd_kind (info t elem) = kind"

definition createButtonPseudo :: "jstring \<Rightarrow> dtree \<Rightarrow> node \<Rightarrow> bool" where
  "createButtonPseudo kind t elem \<longleftrightarrow>
     (nodeName t elem (js ''input'') \<or> nodeName t elem (js ''button'')) \<and> nd_kind (info t elem) = kind"

definition textContent :: "dtree \<Rightarrow> node \<Rightarrow> jstring" where
  "textContent t elem = concat (map (\<lambda>p. nd_text (info t p)) (filter (\<lambda>p. nodeType t p \<in> {3, 4}) (descendants t elem)))"

definition pseudo_contains :: "jstring \<Rightarrow> dtree \<Rightarrow> node \<Rightarrow> bool" where
  "pseudo_contains text t elem \<longleftrightarrow> contains_text (runescape text) (textContent t elem)"

text \<open>The first element from here upwards that names a language decides.\<close>

definition names_language :: "jstring \<Rightarrow> jstring \<Rightarrow> bool" where
  "names_language lang elemLang \<longleftrightarrow> ascii_lower elemLang = lang \<or> starts_with (lang @ js ''-'') (ascii_lower elemLang)"

fun lang_loop :: "jstring \<Rightarrow> dtree \<Rightarrow> node list \<Rightarrow> bool" where
  "lang_loop lang t [] = False"
| "lang_loop lang t (elem # elems) =
     (if nd_lang (info t elem) \<noteq> [] then names_language lang (nd_lang (info t elem))
      else case elems of
          [] \<Rightarrow> False
        | parent # _ \<Rightarrow> if nodeType t parent = 1 then lang_loop lang t elems else False)"

definition pseudo_lang :: "jstring \<Rightarrow> dtree \<Rightarrow> node \<Rightarrow> bool" where
  "pseudo_lang lang t elem = lang_loop (ascii_lower (runescape lang)) t (elem # chain t ParentNode elem)"

definition pseudo_target :: "page_env \<Rightarrow> dtree \<Rightarrow> node \<Rightarrow> bool" where
  "pseudo_target env t elem \<longleftrightarrow>
     (case pe_hash env of None \<Rightarrow> False
      | Some hash \<Rightarrow> hash \<noteq> [] \<and> tl hash = (case getAttribute t elem (js ''id'') of Some i \<Rightarrow> i | None \<Rightarrow> []))"

definition pseudo_root :: "page_env \<Rightarrow> node \<Rightarrow> bool" where
  "pseudo_root env elem \<longleftrightarrow> pe_documentElement env = Some elem"

definition pseudo_focus :: "page_env \<Rightarrow> dtree \<Rightarrow> node \<Rightarrow> bool" where
  "pseudo_focus env t elem \<longleftrightarrow>
     pe_active env = Some elem \<and> pe_hasFocus env
       \<and> (nd_kind (info t elem) \<noteq> [] \<or> (case nd_href (info t elem) of None \<Rightarrow> False | Some h \<Rightarrow> h \<noteq> []) \<or> nd_tabIndex (info t elem) \<noteq> - 1)"

definition pseudo_checked :: "dtree \<Rightarrow> node \<Rightarrow> bool" where
  "pseudo_checked t elem \<longleftrightarrow>
     nodeName t elem (js ''input'') \<and> nd_checked (info t elem) \<or> nodeName t elem (js ''option'') \<and> nd_selected (info t elem)"

definition pseudo_selected :: "dtree \<Rightarrow> node \<Rightarrow> bool" where
  "pseudo_selected t elem \<longleftrightarrow> nd_selected (info t elem)"

fun empty_loop :: "dtree \<Rightarrow> node list \<Rightarrow> bool" where
  "empty_loop t [] = True"
| "empty_loop t (elem # elems) = (if nodeType t elem < 6 then False else empty_loop t elems)"

definition pseudo_empty :: "dtree \<Rightarrow> node \<Rightarrow> bool" where
  "pseudo_empty t elem = empty_loop t (childNodes t elem)"

definition pseudo_parent :: "dtree \<Rightarrow> node \<Rightarrow> bool" where
  "pseudo_parent t elem \<longleftrightarrow> \<not> pseudo_empty t elem"

definition pseudo_header :: "dtree \<Rightarrow> node \<Rightarrow> bool" where
  "pseudo_header t elem = regex_test True ''^h~d$'' (nd_name (info t elem))"

definition pseudo_input :: "dtree \<Rightarrow> node \<Rightarrow> bool" where
  "pseudo_input t elem = regex_test True ''^(?:input|select|textarea|button)$'' (nd_name (info t elem))"

definition pseudo_button :: "dtree \<Rightarrow> node \<Rightarrow> bool" where
  "pseudo_button t elem \<longleftrightarrow>
     nodeName t elem (js ''input'') \<and> nd_kind (info t elem) = js ''button'' \<or> nodeName t elem (js ''button'')"

definition pseudo_text :: "dtree \<Rightarrow> node \<Rightarrow> bool" where
  "pseudo_text t elem \<longleftrightarrow>
     nodeName t elem (js ''input'') \<and> nd_kind (info t elem) = js ''text''
       \<and> (case getAttribute t elem (js ''type'') of None \<Rightarrow> True | Some attr \<Rightarrow> ascii_lower attr = js ''text'')"

text \<open>
  The predicates of \<open>Expr.pseudos\<close> by their names. The two that ask whether an element is disabled search its
  ancestors with the cache of the engine and are in \<open>Selector_Match\<close>.
\<close>

definition plain_pseudos :: "page_env \<Rightarrow> dtree \<Rightarrow> (jstring \<times> (node \<Rightarrow> bool)) list" where
  "plain_pseudos env t =
     [(js ''target'', pseudo_target env t), (js ''root'', pseudo_root env), (js ''focus'', pseudo_focus env t),
      (js ''checked'', pseudo_checked t), (js ''selected'', pseudo_selected t), (js ''empty'', pseudo_empty t),
      (js ''parent'', pseudo_parent t), (js ''header'', pseudo_header t), (js ''input'', pseudo_input t),
      (js ''button'', pseudo_button t), (js ''text'', pseudo_text t)]
     @ map (\<lambda>i. (js i, createInputPseudo (js i) t)) [''radio'', ''checkbox'', ''file'', ''password'', ''image'']
     @ map (\<lambda>i. (js i, createButtonPseudo (js i) t)) [''submit'', ''reset'']"

section \<open>Positions in a list\<close>

text \<open>
  The functions of the positional pseudo-classes give the indexes that match; an argument that is no number
  is \<open>NaN\<close>. \<open>createPositionalPseudo\<close> moves the elements there from the seed, where \<open>None\<close> stands for the
  \<open>false\<close> that is left behind, to the array of matches.
\<close>

definition pos_first :: "nat \<Rightarrow> jnum \<Rightarrow> int list" where
  "pos_first len argument = [0]"

definition pos_last :: "nat \<Rightarrow> jnum \<Rightarrow> int list" where
  "pos_last len argument = [int len - 1]"

text \<open>An index that is \<open>NaN\<close> is in no list.\<close>

definition pos_eq :: "nat \<Rightarrow> jnum \<Rightarrow> int list" where
  "pos_eq len argument = (case argument of None \<Rightarrow> [] | Some a \<Rightarrow> [if a < 0 then a + int len else a])"

definition pos_even :: "nat \<Rightarrow> jnum \<Rightarrow> int list" where
  "pos_even len argument = map int (filter even [0..<len])"

definition pos_odd :: "nat \<Rightarrow> jnum \<Rightarrow> int list" where
  "pos_odd len argument = map int (filter odd [0..<len])"

definition pos_lt :: "nat \<Rightarrow> jnum \<Rightarrow> int list" where
  "pos_lt len argument =
     (case argument of
        None \<Rightarrow> []
      | Some a \<Rightarrow> let i = if a < 0 then a + int len else if a > int len then int len else a in rev (map int [0..<nat i]))"

definition pos_gt :: "nat \<Rightarrow> jnum \<Rightarrow> int list" where
  "pos_gt len argument =
     (case argument of
        None \<Rightarrow> []
      | Some a \<Rightarrow> let i = if a < 0 then a + int len else a in [i + 1..int len - 1])"

definition positional_pseudos :: "(jstring \<times> (nat \<Rightarrow> jnum \<Rightarrow> int list)) list" where
  "positional_pseudos =
     [(js ''first'', pos_first), (js ''last'', pos_last), (js ''eq'', pos_eq), (js ''nth'', pos_eq), (js ''even'', pos_even),
      (js ''odd'', pos_odd), (js ''lt'', pos_lt), (js ''gt'', pos_gt)]"

definition move_match :: "int \<Rightarrow> node option list \<times> (nat \<rightharpoonup> node) \<Rightarrow> node option list \<times> (nat \<rightharpoonup> node)" where
  "move_match j = (\<lambda>(seed, matches).
     if 0 \<le> j \<and> j < int (length seed) \<and> seed ! nat j \<noteq> None
     then (seed[nat j := None], matches(nat j := seed ! nat j)) else (seed, matches))"

definition createPositionalPseudo ::
  "(nat \<Rightarrow> jnum \<Rightarrow> int list) \<Rightarrow> jnum \<Rightarrow> node option list \<times> (nat \<rightharpoonup> node) \<Rightarrow> node option list \<times> (nat \<rightharpoonup> node)" where
  "createPositionalPseudo fn argument sm = fold move_match (rev (fn (length (fst sm)) argument)) sm"

end
