(* ===== verification/Selector_Match.thy ===== *)
theory Selector_Match
  imports Selector_Filters
begin

text \<open>
  How the selector engine of \<open>jquery.js\<close> matches: a selector is compiled, token by token from the left, to a
  function that is run on elements and walks from each to the left. The walks share results through
  cells they leave on the nodes, and the \<open>nth\<close> filters leave what they counted there; both hold for one run, which is told from
  the others by the number \<open>dirruns\<close>.
\<close>

section \<open>State\<close>

text \<open>
  A cell is the array \<open>[ dirruns, doneName, result ]\<close>, shared by the nodes of one walk; the cache of a node is
  what it keeps under the \<open>expando\<close>, by its keys.
\<close>

record cell =
  ce_run :: nat
  ce_done :: nat
  ce_result :: "bool option"

datatype outermost = NoContext | TrueContext | ContextNode node

datatype sel_ctx = OneContext node | ManyContexts "node list"

record sel_state =
  ss_dirruns :: nat
  ss_outermost :: outermost
  ss_cells :: "cell list"
  ss_cache :: "node \<times> jstring \<rightharpoonup> nat"
  ss_nth :: "node \<times> jstring \<rightharpoonup> nat \<times> nat \<times> nat"
  ss_nthLast :: "node \<times> jstring \<rightharpoonup> nat \<times> nat"

definition sel_state_new :: sel_state where
  "sel_state_new = \<lparr>ss_dirruns = 0, ss_outermost = NoContext, ss_cells = [], ss_cache = Map.empty, ss_nth = Map.empty,
     ss_nthLast = Map.empty\<rparr>"

type_synonym sel_fn = "node \<Rightarrow> sel_ctx \<Rightarrow> bool \<Rightarrow> sel_state \<Rightarrow> bool \<times> sel_state"

text \<open>A filter that looks at the element only.\<close>

definition plain :: "(node \<Rightarrow> bool) \<Rightarrow> sel_fn" where
  "plain P elem context xml st = (P elem, st)"

section \<open>Combinators\<close>

record combinator =
  cb_dir :: dir
  cb_first :: bool
  cb_next :: "jstring option"

definition relative :: "jstring \<Rightarrow> combinator option" where
  "relative kind =
     (if kind = js ''>'' then Some \<lparr>cb_dir = ParentNode, cb_first = True, cb_next = None\<rparr>
      else if kind = js '' '' then Some \<lparr>cb_dir = ParentNode, cb_first = False, cb_next = None\<rparr>
      else if kind = js ''+'' then Some \<lparr>cb_dir = PreviousSibling, cb_first = True, cb_next = None\<rparr>
      else if kind = js ''~'' then Some \<lparr>cb_dir = PreviousSibling, cb_first = False, cb_next = None\<rparr>
      else None)"

definition dir_name :: "dir \<Rightarrow> jstring" where
  "dir_name d = js (case d of ParentNode \<Rightarrow> ''parentNode'' | PreviousSibling \<Rightarrow> ''previousSibling'' | NextSibling \<Rightarrow> ''nextSibling'')"

definition cb_key :: "combinator \<Rightarrow> jstring" where
  "cb_key c = (case cb_next c of Some skip \<Rightarrow> skip | None \<Rightarrow> dir_name (cb_dir c))"

definition tried :: "dtree \<Rightarrow> combinator \<Rightarrow> bool \<Rightarrow> node \<Rightarrow> bool" where
  "tried t c base elem \<longleftrightarrow> nodeType t elem = 1 \<or> base \<and> cb_key c = js ''parentNode''"

definition skipped :: "dtree \<Rightarrow> combinator \<Rightarrow> node \<Rightarrow> bool" where
  "skipped t c elem \<longleftrightarrow> (case cb_next c of Some skip \<Rightarrow> nodeName t elem skip | None \<Rightarrow> False)"

text \<open>The three loops over the ancestors or preceding siblings.\<close>

fun first_loop :: "(node \<Rightarrow> bool) \<Rightarrow> (node \<Rightarrow> sel_state \<Rightarrow> bool \<times> sel_state) \<Rightarrow> node list \<Rightarrow> sel_state \<Rightarrow> bool \<times> sel_state" where
  "first_loop cand matcher [] st = (False, st)"
| "first_loop cand matcher (elem # elems) st = (if cand elem then matcher elem st else first_loop cand matcher elems st)"

fun all_loop :: "(node \<Rightarrow> bool) \<Rightarrow> (node \<Rightarrow> sel_state \<Rightarrow> bool \<times> sel_state) \<Rightarrow> node list \<Rightarrow> sel_state \<Rightarrow> bool \<times> sel_state" where
  "all_loop cand matcher [] st = (False, st)"
| "all_loop cand matcher (elem # elems) st =
     (if cand elem
      then (case matcher elem st of (ret, st') \<Rightarrow> if ret then (True, st') else all_loop cand matcher elems st')
      else all_loop cand matcher elems st)"

definition set_result :: "nat \<Rightarrow> bool option \<Rightarrow> sel_state \<Rightarrow> sel_state" where
  "set_result a r st = st\<lparr>ss_cells := (ss_cells st)[a := (ss_cells st ! a)\<lparr>ce_result := r\<rparr>]\<rparr>"

definition keep_cell :: "node \<Rightarrow> jstring \<Rightarrow> nat \<Rightarrow> sel_state \<Rightarrow> sel_state" where
  "keep_cell elem key a st = st\<lparr>ss_cache := (ss_cache st)((elem, key) \<mapsto> a)\<rparr>"

definition old_result :: "nat \<Rightarrow> node \<Rightarrow> jstring \<Rightarrow> sel_state \<Rightarrow> bool option option" where
  "old_result doneName elem key st =
     (case ss_cache st (elem, key) of
        None \<Rightarrow> None
      | Some a \<Rightarrow> let oldCache = ss_cells st ! a
          in if ce_run oldCache = ss_dirruns st \<and> ce_done oldCache = doneName then Some (ce_result oldCache) else None)"

fun cached_loop ::
  "(node \<Rightarrow> bool) \<Rightarrow> (node \<Rightarrow> bool) \<Rightarrow> jstring \<Rightarrow> nat \<Rightarrow> nat \<Rightarrow> (node \<Rightarrow> sel_state \<Rightarrow> bool \<times> sel_state)
     \<Rightarrow> node list \<Rightarrow> sel_state \<Rightarrow> bool \<times> sel_state" where
  "cached_loop cand skip key doneName newCache matcher [] st = (False, st)"
| "cached_loop cand skip key doneName newCache matcher (elem # elems) st =
     (if cand elem then
        if skip elem then
          (case elems of
             [] \<Rightarrow> (False, st)
           | elem' # elems' \<Rightarrow> cached_loop cand skip key doneName newCache matcher elems' st)
        else (case old_result doneName elem key st of
            Some r \<Rightarrow> (r = Some True, set_result newCache r st)
          | None \<Rightarrow>
              (case matcher elem (keep_cell elem key newCache st) of
                 (ret, st') \<Rightarrow>
                   let st' = set_result newCache (Some ret) st'
                   in if ret then (True, st') else cached_loop cand skip key doneName newCache matcher elems st'))
      else cached_loop cand skip key doneName newCache matcher elems st)"

definition new_cell :: "nat \<Rightarrow> sel_state \<Rightarrow> nat \<times> sel_state" where
  "new_cell doneName st =
     (length (ss_cells st), st\<lparr>ss_cells := ss_cells st @ [\<lparr>ce_run = ss_dirruns st, ce_done = doneName, ce_result = None\<rparr>]\<rparr>)"

definition addCombinator :: "dtree \<Rightarrow> sel_fn \<Rightarrow> combinator \<Rightarrow> bool \<Rightarrow> nat \<Rightarrow> sel_fn" where
  "addCombinator t matcher c base doneName elem context xml st =
     (let elems = chain t (cb_dir c) elem;
          m = (\<lambda>e. matcher e context xml)
      in if cb_first c then first_loop (tried t c base) m elems st
         else if xml then all_loop (tried t c base) m elems st
         else (case new_cell doneName st of
             (newCache, st) \<Rightarrow> cached_loop (tried t c base) (skipped t c) (cb_key c) doneName newCache m elems st))"

text \<open>\<open>elementMatcher\<close> asks the last matcher first.\<close>

fun matchers_loop :: "sel_fn list \<Rightarrow> sel_fn" where
  "matchers_loop [] elem context xml st = (True, st)"
| "matchers_loop (m # ms) elem context xml st =
     (case m elem context xml st of (ret, st') \<Rightarrow> if ret then matchers_loop ms elem context xml st' else (False, st'))"

definition elementMatcher :: "sel_fn list \<Rightarrow> sel_fn" where
  "elementMatcher matchers = (if length matchers > 1 then matchers_loop (rev matchers) else hd matchers)"

section \<open>Disabled elements\<close>

definition inDisabledFieldset :: "dtree \<Rightarrow> sel_fn" where
  "inDisabledFieldset t =
     addCombinator t (plain (\<lambda>elem. nd_disabled (info t elem) = Some True \<and> nodeName t elem (js ''fieldset'')))
       \<lparr>cb_dir = ParentNode, cb_first = False, cb_next = Some (js ''legend'')\<rparr> False 0"

definition createDisabledPseudo :: "dtree \<Rightarrow> bool \<Rightarrow> sel_fn" where
  "createDisabledPseudo t disabled elem context xml st =
     (let own = (nd_disabled (info t elem) = Some disabled)
      in if nd_form (info t elem) then
           (case link t ParentNode elem of
              Some parent \<Rightarrow>
                if nd_disabled (info t elem) = Some False then
                  if nd_label (info t elem) then
                    (if nd_label (info t parent) then (nd_disabled (info t parent) = Some disabled, st) else (own, st))
                  else if nd_isDisabled (info t elem) = Some disabled then (True, st)
                  else if nd_isDisabled (info t elem) \<noteq> Some (\<not> disabled) then
                    (case inDisabledFieldset t elem context False st of (ret, st') \<Rightarrow> (ret = disabled, st'))
                  else (False, st)
                else (own, st)
            | None \<Rightarrow> (own, st))
         else if nd_label (info t elem) then (own, st)
         else (False, st))"

section \<open>Children\<close>

definition alike :: "dtree \<Rightarrow> bool \<Rightarrow> jstring \<Rightarrow> node \<Rightarrow> bool" where
  "alike t ofType name node \<longleftrightarrow> (if ofType then nodeName t node name else nodeType t node = 1)"

fun none_alike :: "dtree \<Rightarrow> bool \<Rightarrow> jstring \<Rightarrow> node list \<Rightarrow> bool" where
  "none_alike t ofType name [] = True"
| "none_alike t ofType name (node # nodes) = (if alike t ofType name node then False else none_alike t ofType name nodes)"

text \<open>\<open>:first-\<close>, \<open>:last-\<close> and \<open>:only-\<close>, the last looking in both directions.\<close>

definition simple_child :: "dtree \<Rightarrow> jstring \<Rightarrow> bool \<Rightarrow> dir \<Rightarrow> node \<Rightarrow> bool" where
  "simple_child t kind ofType d elem =
     (let name = ascii_lower (nd_name (info t elem))
      in if none_alike t ofType name (chain t d elem)
         then (if kind = js ''only'' then none_alike t ofType name (chain t NextSibling elem) else True)
         else False)"

text \<open>
  Seeking the element among siblings, from an index and a count on: what is found are both at the element.
\<close>

fun seek_child :: "dtree \<Rightarrow> node \<Rightarrow> node list \<Rightarrow> nat \<Rightarrow> nat \<Rightarrow> (nat \<times> nat) option" where
  "seek_child t elem [] nodeIndex diff = None"
| "seek_child t elem (node # nodes) nodeIndex diff =
     (if nodeType t node = 1 then
        if node = elem then Some (nodeIndex, diff + 1) else seek_child t elem nodes (nodeIndex + 1) (diff + 1)
      else seek_child t elem nodes (nodeIndex + 1) diff)"

text \<open>An index of zero that was kept counts as none, as zero is falsy.\<close>

definition nth_child :: "dtree \<Rightarrow> jstring \<Rightarrow> node \<Rightarrow> node \<Rightarrow> sel_state \<Rightarrow> nat \<times> sel_state" where
  "nth_child t kind parent elem st =
     (let start = seek_child t elem (childNodes t parent) 0 0;
          found = (case ss_nth st (parent, kind) of
              Some (run, nodeIndex, diff) \<Rightarrow>
                if run = ss_dirruns st \<and> nodeIndex \<noteq> 0
                then (case seek_child t elem (chain t NextSibling (nodeIndex # parent)) (nodeIndex + 1) diff of
                    Some f \<Rightarrow> Some f | None \<Rightarrow> start)
                else start
            | None \<Rightarrow> start)
      in case found of
           Some (nodeIndex, diff) \<Rightarrow> (diff, st\<lparr>ss_nth := (ss_nth st)((parent, kind) \<mapsto> (ss_dirruns st, nodeIndex, diff))\<rparr>)
         | None \<Rightarrow> (0, st))"

text \<open>The other loop counts from one end and, if it may, keeps the count of every element it passes.\<close>

fun count_loop :: "dtree \<Rightarrow> bool \<Rightarrow> jstring \<Rightarrow> (jstring option) \<Rightarrow> node \<Rightarrow> node list \<Rightarrow> nat \<Rightarrow> sel_state \<Rightarrow> nat \<times> sel_state" where
  "count_loop t ofType name kept elem [] diff st = (0, st)"
| "count_loop t ofType name kept elem (node # nodes) diff st =
     (if alike t ofType name node then
        let st = (case kept of
              Some kind \<Rightarrow> st\<lparr>ss_nthLast := (ss_nthLast st)((node, kind) \<mapsto> (ss_dirruns st, diff + 1))\<rparr>
            | None \<Rightarrow> st)
        in if node = elem then (diff + 1, st) else count_loop t ofType name kept elem nodes (diff + 1) st
      else count_loop t ofType name kept elem nodes diff st)"

definition count_child :: "dtree \<Rightarrow> jstring \<Rightarrow> bool \<Rightarrow> bool \<Rightarrow> bool \<Rightarrow> node \<Rightarrow> node \<Rightarrow> sel_state \<Rightarrow> nat \<times> sel_state" where
  "count_child t kind ofType forward useCache parent elem st =
     (let loop = count_loop t ofType (ascii_lower (nd_name (info t elem))) (if useCache then Some kind else None) elem
            (if forward then childNodes t parent else rev (childNodes t parent)) 0
      in if useCache then
           (case ss_nthLast st (elem, kind) of
              Some (run, diff) \<Rightarrow> if run = ss_dirruns st then (diff, st) else loop st
            | None \<Rightarrow> loop st)
         else loop st)"

definition in_cycle :: "int \<Rightarrow> int \<Rightarrow> nat \<Rightarrow> bool" where
  "in_cycle first offset diff \<longleftrightarrow>
     (let d = int diff - offset in d = first \<or> first \<noteq> 0 \<and> d mod first = 0 \<and> 0 \<le> d * first)"

definition filter_CHILD :: "dtree \<Rightarrow> jstring \<Rightarrow> jstring \<Rightarrow> (int \<times> int) option \<Rightarrow> sel_fn" where
  "filter_CHILD t kind what cycle elem context xml st =
     (let simple = (take 3 kind \<noteq> js ''nth''); forward = (last_chars 4 kind \<noteq> js ''last''); ofType = (what = js ''of-type'');
          d = (if simple \<noteq> forward then NextSibling else PreviousSibling)
      in if cycle = Some (1, 0) then (link t ParentNode elem \<noteq> None, st)
         else case link t ParentNode elem of
             None \<Rightarrow> (False, st)
           | Some parent \<Rightarrow>
               if simple then (simple_child t kind ofType d elem, st)
               else
                 (case (if forward \<and> \<not> xml \<and> \<not> ofType then nth_child t kind parent elem st
                        else count_child t kind ofType forward (\<not> xml \<and> \<not> ofType) parent elem st) of
                    (diff, st') \<Rightarrow> (case cycle of None \<Rightarrow> (False, st') | Some (first, offset) \<Rightarrow> (in_cycle first offset diff, st'))))"

section \<open>Compiling\<close>

text \<open>
  The arguments of the filters, as the tokenizer leaves them; the cycle of a child filter is there for the
  \<open>nth\<close> kinds. A filter may raise an error when it is made; positional filters are those
  marked with the \<open>expando\<close>. \<open>:not\<close> and \<open>:has\<close>, which compile and run a selector of their own, and escapes in class
  names that regular expressions read in their own way are \<open>Outside\<close> of the model.
\<close>

datatype filter_call =
    FID jstring
  | FTAG jstring
  | FCLASS jstring
  | FATTR jstring "jstring option" jstring
  | FCHILD jstring jstring "(int \<times> int) option"
  | FPSEUDO jstring "jstring option"

datatype token_kind = Relative jstring | Filter filter_call

record sel_token =
  tk_value :: jstring
  tk_kind :: token_kind

datatype 'a built = Made 'a | Positional | Outside | Raises js_error

definition token_relative :: "sel_token \<Rightarrow> combinator option" where
  "token_relative tok = (case tk_kind tok of Relative kind \<Rightarrow> relative kind | Filter _ \<Rightarrow> None)"

definition ridentifier :: "jstring \<Rightarrow> bool" where
  "ridentifier s = regex_test False ''^(?:~u005c[~da-fA-F]{1,6}[~u0020~t~r~n~u000c]?|~u005c[^~r~n~u000c]|[~w-]|[^~u0000-~u007f])+$'' s"

text \<open>\<open>Expr.pseudos\<close>, which \<open>Expr.setFilters\<close> inherits, with the argument given to those that ask for it.\<close>

definition find_pseudo :: "page_env \<Rightarrow> dtree \<Rightarrow> jstring option \<Rightarrow> jstring \<Rightarrow> sel_fn built option" where
  "find_pseudo env t argument name =
     (if name = js ''contains'' then
        Some (case argument of None \<Rightarrow> Raises TypeError | Some text \<Rightarrow> Made (plain (pseudo_contains text t)))
      else if name = js ''lang'' then
        Some (case argument of
            Some lang \<Rightarrow> if ridentifier lang then Made (plain (pseudo_lang lang t))
              else Raises (PlainError (js ''Syntax error, unrecognized expression: unsupported lang: '' @ lang))
          | None \<Rightarrow> Raises (PlainError (js ''Syntax error, unrecognized expression: unsupported lang: undefined'')))
      else if name = js ''enabled'' then Some (Made (createDisabledPseudo t False))
      else if name = js ''disabled'' then Some (Made (createDisabledPseudo t True))
      else if name \<in> {js ''not'', js ''has''} then Some Outside
      else if map_of positional_pseudos name \<noteq> None then Some Positional
      else map_option (\<lambda>P. Made (plain P)) (map_of (plain_pseudos env t) name))"

definition filter_PSEUDO :: "page_env \<Rightarrow> dtree \<Rightarrow> jstring \<Rightarrow> jstring option \<Rightarrow> sel_fn built" where
  "filter_PSEUDO env t pseudo argument =
     (case find_pseudo env t argument pseudo of
        Some fn \<Rightarrow> fn
      | None \<Rightarrow> (case find_pseudo env t argument (ascii_lower pseudo) of
            Some fn \<Rightarrow> fn
          | None \<Rightarrow> Raises (PlainError (js ''Syntax error, unrecognized expression: unsupported pseudo: '' @ pseudo))))"

definition make_filter :: "page_env \<Rightarrow> dtree \<Rightarrow> filter_call \<Rightarrow> sel_fn built" where
  "make_filter env t call =
     (case call of
        FID i \<Rightarrow> Made (plain (filter_ID t i))
      | FTAG name \<Rightarrow> Made (plain (filter_TAG t name))
      | FCLASS name \<Rightarrow>
          if odd_escape name then Outside
          else (case class_pattern name of Some pattern \<Rightarrow> Made (plain (filter_CLASS t pattern)) | None \<Rightarrow> Raises SyntaxError)
      | FATTR name operator check \<Rightarrow> Made (plain (filter_ATTR t name operator check))
      | FCHILD kind what cycle \<Rightarrow> Made (filter_CHILD t kind what cycle)
      | FPSEUDO pseudo argument \<Rightarrow> filter_PSEUDO env t pseudo argument)"

text \<open>
  The foundational matcher. The context is compared through the two combinators made for it; they hold it in the
  variable \<open>checkContext\<close>, which is set before and cleared after.
\<close>

definition differs :: "sel_ctx \<Rightarrow> outermost \<Rightarrow> bool" where
  "differs context outer \<longleftrightarrow> (case outer of ContextNode c \<Rightarrow> context \<noteq> OneContext c | _ \<Rightarrow> True)"

definition base_matcher :: "dtree \<Rightarrow> bool \<Rightarrow> combinator \<Rightarrow> nat \<Rightarrow> sel_fn" where
  "base_matcher t leadingRelative implicitRelative doneName elem context xml st =
     (if \<not> leadingRelative \<and> (xml \<or> differs context (ss_outermost st)) then (True, st)
      else case context of
          OneContext checkContext \<Rightarrow>
            addCombinator t (plain (\<lambda>e. e = checkContext)) implicitRelative True doneName elem context xml st
        | ManyContexts checkContext \<Rightarrow>
            addCombinator t (plain (\<lambda>e. e \<in> set checkContext)) implicitRelative True (Suc doneName) elem context xml st)"

fun tokens_loop :: "page_env \<Rightarrow> dtree \<Rightarrow> sel_token list \<Rightarrow> sel_fn list \<Rightarrow> nat \<Rightarrow> sel_fn list built \<times> nat" where
  "tokens_loop env t [] matchers doneName = (Made matchers, doneName)"
| "tokens_loop env t (tok # toks) matchers doneName =
     (case token_relative tok of
        Some c \<Rightarrow> tokens_loop env t toks [addCombinator t (elementMatcher matchers) c False doneName] (Suc doneName)
      | None \<Rightarrow>
         (case tk_kind tok of
            Relative _ \<Rightarrow> (Raises TypeError, doneName)
          | Filter call \<Rightarrow>
             (case make_filter env t call of
                Made m \<Rightarrow> tokens_loop env t toks (matchers @ [m]) doneName
              | Positional \<Rightarrow> (Positional, doneName)
              | Outside \<Rightarrow> (Outside, doneName)
              | Raises e \<Rightarrow> (Raises e, doneName))))"

definition descendant :: combinator where
  "descendant = \<lparr>cb_dir = ParentNode, cb_first = False, cb_next = None\<rparr>"

definition matcherFromTokens :: "page_env \<Rightarrow> dtree \<Rightarrow> sel_token list \<Rightarrow> nat \<Rightarrow> sel_fn built \<times> nat" where
  "matcherFromTokens env t toks doneName =
     (case toks of
        [] \<Rightarrow> (Raises TypeError, doneName)
      | tok # rest \<Rightarrow>
          let leadingRelative = token_relative tok;
              implicitRelative = (case leadingRelative of Some c \<Rightarrow> c | None \<Rightarrow> descendant);
              base = base_matcher t (leadingRelative \<noteq> None) implicitRelative doneName
          in (case tokens_loop env t (if leadingRelative \<noteq> None then rest else toks) [base] (doneName + 2) of
              (Made matchers, doneName') \<Rightarrow> (Made (elementMatcher matchers), doneName')
            | (Positional, doneName') \<Rightarrow> (Positional, doneName')
            | (Outside, doneName') \<Rightarrow> (Outside, doneName')
            | (Raises e, doneName') \<Rightarrow> (Raises e, doneName')))"

text \<open>\<open>compile\<close> takes the groups from the last to the first.\<close>

fun compile_groups :: "page_env \<Rightarrow> dtree \<Rightarrow> sel_token list list \<Rightarrow> nat \<Rightarrow> sel_fn list built \<times> nat" where
  "compile_groups env t [] doneName = (Made [], doneName)"
| "compile_groups env t (grp # groups) doneName =
     (case matcherFromTokens env t grp doneName of
        (Made m, doneName') \<Rightarrow>
          (case compile_groups env t groups doneName' of
             (Made ms, doneName'') \<Rightarrow> (Made (m # ms), doneName'')
           | r \<Rightarrow> r)
      | (Positional, doneName') \<Rightarrow> (Positional, doneName')
      | (Outside, doneName') \<Rightarrow> (Outside, doneName')
      | (Raises e, doneName') \<Rightarrow> (Raises e, doneName'))"

definition compile :: "page_env \<Rightarrow> dtree \<Rightarrow> sel_token list list \<Rightarrow> nat \<Rightarrow> sel_fn list built \<times> nat" where
  "compile env t groups doneName = compile_groups env t (rev groups) doneName"

section \<open>Running\<close>

text \<open>
  \<open>superMatcher\<close> for element matchers: the elements of the seed, or of the outermost context, that pass one of them.
  It is called with a context node or none, and outermost as a node or \<open>true\<close>.
\<close>

fun any_matcher :: "sel_fn list \<Rightarrow> sel_fn" where
  "any_matcher [] elem context xml st = (False, st)"
| "any_matcher (m # ms) elem context xml st =
     (case m elem context xml st of (ret, st') \<Rightarrow> if ret then (True, st') else any_matcher ms elem context xml st')"

fun elems_loop :: "sel_fn list \<Rightarrow> sel_ctx \<Rightarrow> bool \<Rightarrow> nat \<Rightarrow> node list \<Rightarrow> node list \<Rightarrow> sel_state \<Rightarrow> node list \<times> sel_state" where
  "elems_loop ms context xml dirrunsUnique [] results st = (results, st)"
| "elems_loop ms context xml dirrunsUnique (elem # elems) results st =
     (case any_matcher ms elem context xml st of
        (ret, st') \<Rightarrow> elems_loop ms context xml dirrunsUnique elems (if ret then results @ [elem] else results)
            (st'\<lparr>ss_dirruns := dirrunsUnique\<rparr>))"

definition getElementsByTagName :: "dtree \<Rightarrow> jstring \<Rightarrow> node \<Rightarrow> node list" where
  "getElementsByTagName t tag context =
     filter (\<lambda>p. nodeType t p = 1 \<and> (tag = js ''*'' \<or> ascii_lower (nd_name (info t p)) = ascii_lower tag)) (descendants t context)"

definition outermost_of :: "node \<Rightarrow> node option \<Rightarrow> node option \<Rightarrow> outermost" where
  "outermost_of document context outermost =
     (if context = Some document then TrueContext
      else case context of
          Some c \<Rightarrow> ContextNode c
        | None \<Rightarrow> (case outermost of Some c \<Rightarrow> ContextNode c | None \<Rightarrow> TrueContext))"

definition superMatcher ::
  "dtree \<Rightarrow> node \<Rightarrow> sel_fn list \<Rightarrow> node list option \<Rightarrow> node option \<Rightarrow> bool \<Rightarrow> node list \<Rightarrow> node option \<Rightarrow> sel_state
     \<Rightarrow> node list \<times> sel_state" where
  "superMatcher t document ms seed context xml results outermost st =
     (let elems = (case seed of Some s \<Rightarrow> s
            | None \<Rightarrow> (case outermost of Some c \<Rightarrow> getElementsByTagName t (js ''*'') c | None \<Rightarrow> []));
          contextBackup = ss_outermost st;
          dirrunsUnique = ss_dirruns st + 1;
          st = st\<lparr>ss_dirruns := dirrunsUnique, ss_outermost := outermost_of document context outermost\<rparr>
      in case elems_loop ms (OneContext (case context of Some c \<Rightarrow> c | None \<Rightarrow> document)) xml dirrunsUnique elems results st of
           (results', st') \<Rightarrow> (results', st'\<lparr>ss_dirruns := dirrunsUnique, ss_outermost := contextBackup\<rparr>))"

end
