(* ===== verification/Selector_Facts.thy ===== *)
theory Selector_Facts
  imports Selector_Match
begin

text \<open>
  What a run of compiled matchers computes: the caches never change an answer. A matcher computes a predicate if, from
  a state whose cells of this run hold right results, it answers by the predicate and leaves such a state.
\<close>

section \<open>Counting children\<close>

definition child_position :: "dtree \<Rightarrow> bool \<Rightarrow> bool \<Rightarrow> node \<Rightarrow> nat" where
  "child_position t forward ofType elem =
     Suc (length (filter (alike t ofType (ascii_lower (nd_name (info t elem))))
       (chain t (if forward then PreviousSibling else NextSibling) elem)))"

text \<open>The elements among the first children.\<close>

definition elements_upto :: "dtree \<Rightarrow> node \<Rightarrow> nat \<Rightarrow> nat" where
  "elements_upto t parent k = length (filter (\<lambda>i. nodeType t (i # parent) = 1) [0..<k])"

definition nth_ok :: "dtree \<Rightarrow> nat \<Rightarrow> sel_state \<Rightarrow> bool" where
  "nth_ok t run st \<longleftrightarrow>
     (\<forall>parent kind i diff. ss_nth st (parent, kind) = Some (run, i, diff) \<longrightarrow> i < child_count t parent \<and> diff = elements_upto t parent (Suc i))
     \<and> (\<forall>elem kind diff. ss_nthLast st (elem, kind) = Some (run, diff) \<longrightarrow> diff = child_position t False False elem)
     \<and> (\<forall>k v. ss_nth st k = Some v \<longrightarrow> fst v \<le> run) \<and> (\<forall>k v. ss_nthLast st k = Some v \<longrightarrow> fst v \<le> run)"

section \<open>States between calls\<close>

definition settled :: "dtree \<Rightarrow> nat \<Rightarrow> outermost \<Rightarrow> nat set \<Rightarrow> (nat \<Rightarrow> node \<Rightarrow> bool) \<Rightarrow> sel_state \<Rightarrow> bool" where
  "settled t run outer D S st \<longleftrightarrow>
     ss_dirruns st = run \<and> ss_outermost st = outer \<and> nth_ok t run st
     \<and> (\<forall>elem key a. ss_cache st (elem, key) = Some a \<longrightarrow> a < length (ss_cells st) \<and> ce_run (ss_cells st ! a) \<le> run
          \<and> (ce_run (ss_cells st ! a) = run \<longrightarrow> ce_done (ss_cells st ! a) \<in> D
              \<longrightarrow> ce_result (ss_cells st ! a) = Some (S (ce_done (ss_cells st ! a)) elem)))"

definition frame :: "nat set \<Rightarrow> sel_state \<Rightarrow> sel_state \<Rightarrow> bool" where
  "frame D st st' \<longleftrightarrow>
     length (ss_cells st) \<le> length (ss_cells st')
     \<and> (\<forall>a < length (ss_cells st). ce_done (ss_cells st' ! a) = ce_done (ss_cells st ! a)
          \<and> (ce_done (ss_cells st ! a) \<notin> D \<longrightarrow> ss_cells st' ! a = ss_cells st ! a))
     \<and> (\<forall>k a. ss_cache st' k = Some a \<longrightarrow> ss_cache st k = Some a \<or> a < length (ss_cells st') \<and> ce_done (ss_cells st' ! a) \<in> D)"

definition computes ::
  "dtree \<Rightarrow> nat \<Rightarrow> outermost \<Rightarrow> (node \<Rightarrow> bool) \<Rightarrow> nat set \<Rightarrow> (nat \<Rightarrow> node \<Rightarrow> bool)
     \<Rightarrow> (node \<Rightarrow> sel_state \<Rightarrow> bool \<times> sel_state) \<Rightarrow> (node \<Rightarrow> bool) \<Rightarrow> bool" where
  "computes t run outer Q D S m P \<longleftrightarrow>
     (\<forall>elem st. Q elem \<longrightarrow> settled t run outer D S st
        \<longrightarrow> (\<exists>st'. m elem st = (P elem, st') \<and> settled t run outer D S st' \<and> frame D st st'))"

lemma computesE:
  assumes "computes t run outer Q D S m P" "Q elem" "settled t run outer D S st"
  obtains st' where "m elem st = (P elem, st')" "settled t run outer D S st'" "frame D st st'"
  using assms unfolding computes_def by blast

lemma frame_refl [simp]: "frame D st st"
  by (simp add: frame_def)

lemma frame_trans: "frame D st st' \<Longrightarrow> frame D st' st'' \<Longrightarrow> frame D st st''"
  unfolding frame_def by (smt (verit, ccfv_threshold) less_le_trans le_trans)

lemma frame_mono: "frame D st st' \<Longrightarrow> D \<subseteq> D' \<Longrightarrow> frame D' st st'"
  unfolding frame_def by blast

lemma settled_mono: "settled t run outer D' S st \<Longrightarrow> D \<subseteq> D' \<Longrightarrow> settled t run outer D S st"
  unfolding settled_def by blast

lemma settled_cong: "(\<forall>d \<in> D. S' d = S d) \<Longrightarrow> settled t run outer D S' st = settled t run outer D S st"
  unfolding settled_def by (auto; metis)

text \<open>What is right of the cells of other names stays right.\<close>

lemma settled_frame:
  assumes "settled t run outer D' S st" "settled t run outer D S st'" "frame D st st'"
  shows "settled t run outer D' S st'"
proof -
  have "ce_result (ss_cells st' ! a) = Some (S (ce_done (ss_cells st' ! a)) elem)"
    if a: "ss_cache st' (elem, key) = Some a" "ce_run (ss_cells st' ! a) = run" "ce_done (ss_cells st' ! a) \<in> D'" for elem key a
  proof (cases "ce_done (ss_cells st' ! a) \<in> D")
    case True
    then show ?thesis using assms(2) a by (simp add: settled_def)
  next
    case False
    then have old: "ss_cache st (elem, key) = Some a" using assms(3) a(1) by (auto simp: frame_def)
    then have "a < length (ss_cells st)" using assms(1) by (simp add: settled_def)
    then have "ss_cells st' ! a = ss_cells st ! a" using assms(3) False by (auto simp: frame_def)
    then show ?thesis using assms(1) old a by (simp add: settled_def)
  qed
  then show ?thesis using assms(2) by (simp add: settled_def)
qed

lemma computes_mono:
  assumes "computes t run outer Q D S m P" "D \<subseteq> D'"
  shows "computes t run outer Q D' S m P"
  unfolding computes_def
proof (intro allI impI)
  fix elem st assume e: "Q elem" and st: "settled t run outer D' S st"
  obtain st' where st': "m elem st = (P elem, st')" "settled t run outer D S st'" "frame D st st'"
    using assms(1) e settled_mono [OF st assms(2)] by (rule computesE)
  then show "\<exists>st'. m elem st = (P elem, st') \<and> settled t run outer D' S st' \<and> frame D' st st'"
    using settled_frame [OF st st'(2,3)] frame_mono [OF st'(3) assms(2)] by blast
qed

lemma computes_cong: "(\<forall>d \<in> D. S' d = S d) \<Longrightarrow> computes t run outer Q D S' m P = computes t run outer Q D S m P"
  unfolding computes_def by (simp only: settled_cong)

lemma computes_plain: "computes t run outer Q D S (\<lambda>e. plain P e context xml) P"
  by (auto simp: computes_def plain_def)

section \<open>Walks\<close>

fun search :: "(node \<Rightarrow> bool) \<Rightarrow> (node \<Rightarrow> bool) \<Rightarrow> (node \<Rightarrow> bool) \<Rightarrow> node list \<Rightarrow> bool" where
  "search cand skip P [] = False"
| "search cand skip P (a # as) =
     (if cand a then if skip a then (case as of [] \<Rightarrow> False | _ # as' \<Rightarrow> search cand skip P as') else P a \<or> search cand skip P as
      else search cand skip P as)"

definition linked :: "dtree \<Rightarrow> dir \<Rightarrow> node list \<Rightarrow> bool" where
  "linked t d as \<longleftrightarrow> distinct as \<and> (\<forall>pre a rest. as = pre @ a # rest \<longrightarrow> rest = chain t d a)"

lemma chain_from: "chain t d p = pre @ q # rest \<Longrightarrow> rest = chain t d q"
proof (induction pre arbitrary: p)
  case Nil
  then show ?case using chain_link [of t d p] by (cases "link t d p") auto
next
  case (Cons r pre)
  then have "chain t d r = pre @ q # rest" using chain_link [of t d p] by (cases "link t d p") auto
  then show ?case by (rule Cons.IH)
qed

lemma distinct_chain: "distinct (chain t d p)"
proof (induction "length (chain t d p)" arbitrary: p)
  case (Suc n)
  obtain r where r: "chain t d p = r # chain t d r"
    using Suc.hyps(2) chain_link [of t d p] by (cases "link t d p") auto
  then show ?case using Suc chain_not_self [of r t d] by simp
qed simp

lemma linked_chain: "linked t d (chain t d p)"
  unfolding linked_def using chain_from distinct_chain by blast

lemma linked_Cons: "linked t d (a # as) \<Longrightarrow> linked t d as \<and> as = chain t d a \<and> a \<notin> set as"
  unfolding linked_def by (metis append_Cons append_Nil distinct.simps(2))

lemma search_all: "(\<And>a. \<not> skip a) \<Longrightarrow> search cand skip P as \<longleftrightarrow> (\<exists>a \<in> set as. cand a \<and> P a)"
  by (induction as) auto

lemma first_loop_computes:
  assumes m: "computes t run outer Q D S m P" and Q: "\<forall>a \<in> set as. cand a \<longrightarrow> Q a" and st: "settled t run outer D S st"
  shows "\<exists>st'. first_loop cand m as st = (case filter cand as of [] \<Rightarrow> False | a # _ \<Rightarrow> P a, st')
    \<and> settled t run outer D S st' \<and> frame D st st'"
  using Q
proof (induction as)
  case (Cons a as)
  then show ?case using m st by (cases "cand a") (auto simp: computes_def)
qed (use st in simp)

lemma all_loop_computes:
  assumes m: "computes t run outer Q D S m P"
  shows "\<forall>a \<in> set as. cand a \<longrightarrow> Q a \<Longrightarrow> settled t run outer D S st \<Longrightarrow> \<exists>st'. all_loop cand m as st = (\<exists>a \<in> set as. cand a \<and> P a, st')
    \<and> settled t run outer D S st' \<and> frame D st st'"
proof (induction as arbitrary: st)
  case (Cons a as)
  show ?case
  proof (cases "cand a")
    case True
    then obtain st' where st': "m a st = (P a, st')" "settled t run outer D S st'" "frame D st st'"
      using m Cons.prems(1) by (elim computesE [where elem = a and st = st]) (use True Cons.prems in auto)
    then obtain st'' where "all_loop cand m as st' = (\<exists>a \<in> set as. cand a \<and> P a, st'')" "settled t run outer D S st''" "frame D st' st''"
      using Cons.IH [of st'] Cons.prems(1) by auto
    then show ?thesis using True st' frame_trans by (cases "P a") auto
  qed (use Cons in auto)
qed simp

text \<open>What a walk may do to its own cell.\<close>

lemma set_result_simps [simp]:
  "ss_dirruns (set_result a r st) = ss_dirruns st" "ss_outermost (set_result a r st) = ss_outermost st"
  "ss_cache (set_result a r st) = ss_cache st" "length (ss_cells (set_result a r st)) = length (ss_cells st)"
  "ss_nth (set_result a r st) = ss_nth st" "ss_nthLast (set_result a r st) = ss_nthLast st"
  "b \<noteq> a \<Longrightarrow> ss_cells (set_result a r st) ! b = ss_cells st ! b"
  "a < length (ss_cells st) \<Longrightarrow> ce_result (ss_cells (set_result a r st) ! a) = r"
  by (simp_all add: set_result_def)

lemma set_result_names [simp]:
  "ce_run (ss_cells (set_result a r st) ! b) = ce_run (ss_cells st ! b)"
  "ce_done (ss_cells (set_result a r st) ! b) = ce_done (ss_cells st ! b)"
proof -
  have "ce_run (xs[a := (xs ! a)\<lparr>ce_result := r\<rparr>] ! b) = ce_run (xs ! b) \<and> ce_done (xs[a := (xs ! a)\<lparr>ce_result := r\<rparr>] ! b) = ce_done (xs ! b)"
    for xs :: "cell list"
  proof (cases "a < length xs")
    case True
    then show ?thesis by (cases "a = b") simp_all
  qed (simp add: list_update_beyond)
  then show "ce_run (ss_cells (set_result a r st) ! b) = ce_run (ss_cells st ! b)"
    "ce_done (ss_cells (set_result a r st) ! b) = ce_done (ss_cells st ! b)"
    by (simp_all add: set_result_def)
qed

lemma keep_cell_simps [simp]:
  "ss_dirruns (keep_cell e k a st) = ss_dirruns st" "ss_outermost (keep_cell e k a st) = ss_outermost st"
  "ss_cells (keep_cell e k a st) = ss_cells st" "ss_cache (keep_cell e k a st) = (ss_cache st)((e, k) \<mapsto> a)"
  "ss_nth (keep_cell e k a st) = ss_nth st" "ss_nthLast (keep_cell e k a st) = ss_nthLast st"
  by (auto simp: keep_cell_def)

lemma settled_set_result:
  assumes "settled t run outer D S st" "ce_done (ss_cells st ! n) \<notin> D"
  shows "settled t run outer D S (set_result n r st)"
proof -
  have "ss_cells (set_result n r st) ! a = ss_cells st ! a" if "ce_done (ss_cells (set_result n r st) ! a) \<in> D" for a
    using that assms(2) by (cases "a = n") auto
  then show ?thesis using assms(1) by (auto simp: settled_def nth_ok_def)
qed

lemma settled_keep_cell:
  assumes "settled t run outer D S st" "n < length (ss_cells st)" "ce_done (ss_cells st ! n) \<notin> D" "ce_run (ss_cells st ! n) = run"
  shows "settled t run outer D S (keep_cell e k n st)"
  using assms by (auto simp: settled_def nth_ok_def split: if_splits)

lemma frame_set_result: "ce_done (ss_cells st ! n) \<in> D \<Longrightarrow> frame D st (set_result n r st)"
  unfolding frame_def by (simp del: set_result_simps(7)) (metis set_result_simps(7))

lemma frame_keep_cell: "n < length (ss_cells st) \<Longrightarrow> ce_done (ss_cells st ! n) \<in> D \<Longrightarrow> frame D st (keep_cell e k n st)"
  unfolding frame_def by auto

text \<open>
  The cells of the walk's name: those of earlier walks hold what a walk from their node finds, and the walk's own
  one, which no node still to come has, says that nothing was found so far.
\<close>

definition walking :: "nat \<Rightarrow> (node \<Rightarrow> bool) \<Rightarrow> nat \<Rightarrow> nat \<Rightarrow> node list \<Rightarrow> bool \<Rightarrow> sel_state \<Rightarrow> bool" where
  "walking run Sd d n as answer st \<longleftrightarrow>
     n < length (ss_cells st) \<and> ce_run (ss_cells st ! n) = run \<and> ce_done (ss_cells st ! n) = d
     \<and> (\<forall>e k a. ss_cache st (e, k) = Some a \<longrightarrow> ce_run (ss_cells st ! a) = run \<longrightarrow> ce_done (ss_cells st ! a) = d
         \<longrightarrow> (if a = n then e \<notin> set as \<and> Sd e = answer \<and> ce_result (ss_cells st ! a) = Some False
              else ce_result (ss_cells st ! a) = Some (Sd e)))"

definition walked :: "nat \<Rightarrow> (node \<Rightarrow> bool) \<Rightarrow> nat \<Rightarrow> sel_state \<Rightarrow> bool" where
  "walked run Sd d st \<longleftrightarrow>
     (\<forall>e k a. ss_cache st (e, k) = Some a \<longrightarrow> ce_run (ss_cells st ! a) = run \<longrightarrow> ce_done (ss_cells st ! a) = d
         \<longrightarrow> ce_result (ss_cells st ! a) = Some (Sd e))"

lemma walking_stays: "walking run Sd d n as answer st \<Longrightarrow> set bs \<subseteq> set as \<Longrightarrow> walking run Sd d n bs answer st"
  unfolding walking_def by (metis subsetD)

lemma walking_ends:
  assumes "walking run Sd d n as False st"
  shows "walked run Sd d st"
  unfolding walked_def
proof (intro allI impI)
  fix e k a assume "ss_cache st (e, k) = Some a" "ce_run (ss_cells st ! a) = run" "ce_done (ss_cells st ! a) = d"
  then show "ce_result (ss_cells st ! a) = Some (Sd e)" using assms unfolding walking_def by (metis (full_types))
qed

lemma walking_answered:
  assumes "walking run Sd d n as answer st"
  shows "walked run Sd d (set_result n (Some answer) st)"
  unfolding walked_def
proof (intro allI impI)
  fix e k a
  assume a: "ss_cache (set_result n (Some answer) st) (e, k) = Some a" "ce_run (ss_cells (set_result n (Some answer) st) ! a) = run"
    "ce_done (ss_cells (set_result n (Some answer) st) ! a) = d"
  then show "ce_result (ss_cells (set_result n (Some answer) st) ! a) = Some (Sd e)"
    using assms by (cases "a = n") (auto simp: walking_def split: if_splits)
qed

lemma frame_cache: "frame D st st' \<Longrightarrow> ss_cache st' k = Some a \<Longrightarrow> ce_done (ss_cells st' ! a) \<notin> D \<Longrightarrow> ss_cache st k = Some a"
  unfolding frame_def by blast

lemma frame_cell: "frame D st st' \<Longrightarrow> a < length (ss_cells st) \<Longrightarrow> ce_done (ss_cells st' ! a) \<notin> D \<Longrightarrow> ss_cells st' ! a = ss_cells st ! a"
  unfolding frame_def by metis

text \<open>One failed or successful test of a node that is given the walk's cell.\<close>

lemma walking_tested:
  assumes w: "walking run Sd d n (a # as) answer st" and a: "Sd a = answer" "a \<notin> set as"
    and fr: "frame D (keep_cell a key n st) st'" and d: "d \<notin> D"
    and valid: "\<And>k b. ss_cache st k = Some b \<Longrightarrow> b < length (ss_cells st)"
  shows "walking run Sd d n as answer (set_result n (Some False) st')"
    and "walked run Sd d (set_result n (Some answer) st')"
proof -
  have n: "n < length (ss_cells st)" "ce_run (ss_cells st ! n) = run" "ce_done (ss_cells st ! n) = d"
    using w by (auto simp: walking_def)
  have "ce_done (ss_cells st' ! n) = d" "n < length (ss_cells st')" using fr n by (auto simp: frame_def)
  then have n': "n < length (ss_cells st')" "ce_run (ss_cells st' ! n) = run" "ce_done (ss_cells st' ! n) = d"
    using frame_cell [OF fr] n d by simp_all
  have old: "if b = n then e \<notin> set as \<and> Sd e = answer else ce_result (ss_cells st' ! b) = Some (Sd e)"
    if b: "ss_cache st' (e, k) = Some b" "ce_run (ss_cells st' ! b) = run" "ce_done (ss_cells st' ! b) = d" for e k b
  proof -
    have c: "((ss_cache st)((a, key) \<mapsto> n)) (e, k) = Some b" using frame_cache [OF fr b(1)] b(3) d by simp
    show ?thesis
    proof (cases "(e, k) = (a, key)")
      case False
      then have c: "ss_cache st (e, k) = Some b" using c by (simp split: if_splits)
      then have "ss_cells st' ! b = ss_cells st ! b" using frame_cell [OF fr] valid b(3) d by simp
      then show ?thesis using w b(2,3) c unfolding walking_def by (metis list.set_intros(2))
    qed (use c a in simp)
  qed
  show "walking run Sd d n as answer (set_result n (Some False) st')"
    unfolding walking_def
  proof (intro conjI allI impI)
    fix e k b
    assume b: "ss_cache (set_result n (Some False) st') (e, k) = Some b" "ce_run (ss_cells (set_result n (Some False) st') ! b) = run"
      "ce_done (ss_cells (set_result n (Some False) st') ! b) = d"
    then have "if b = n then e \<notin> set as \<and> Sd e = answer else ce_result (ss_cells st' ! b) = Some (Sd e)"
      by (intro old [of e k]) simp_all
    then show "if b = n then e \<notin> set as \<and> Sd e = answer \<and> ce_result (ss_cells (set_result n (Some False) st') ! b) = Some False
        else ce_result (ss_cells (set_result n (Some False) st') ! b) = Some (Sd e)"
      using n'(1) by (cases "b = n") simp_all
  qed (use n' in simp_all)
  show "walked run Sd d (set_result n (Some answer) st')"
    unfolding walked_def
  proof (intro allI impI)
    fix e k b
    assume b: "ss_cache (set_result n (Some answer) st') (e, k) = Some b" "ce_run (ss_cells (set_result n (Some answer) st') ! b) = run"
      "ce_done (ss_cells (set_result n (Some answer) st') ! b) = d"
    then have "if b = n then e \<notin> set as \<and> Sd e = answer else ce_result (ss_cells st' ! b) = Some (Sd e)"
      by (intro old [of e k]) simp_all
    then show "ce_result (ss_cells (set_result n (Some answer) st') ! b) = Some (Sd e)"
      using n'(1) by (cases "b = n") simp_all
  qed
qed

lemma cached_loop_computes:
  assumes m: "computes t run outer Q D S m P" and d: "d \<notin> D"
  shows "linked t dr as \<Longrightarrow> \<forall>a \<in> set as. cand a \<and> \<not> skip a \<longrightarrow> Q a \<and> S d a = search cand skip P (a # chain t dr a)
    \<Longrightarrow> settled t run outer D S st \<Longrightarrow> walking run (S d) d n as (search cand skip P as) st
    \<Longrightarrow> \<exists>st'. cached_loop cand skip key d n m as st = (search cand skip P as, st') \<and> settled t run outer D S st'
      \<and> walked run (S d) d st' \<and> frame (insert d D) st st'"
proof (induction as arbitrary: st rule: length_induct)
  case (1 as)
  have IH: "\<And>bs st. length bs < length as \<Longrightarrow> linked t dr bs
    \<Longrightarrow> \<forall>a \<in> set bs. cand a \<and> \<not> skip a \<longrightarrow> Q a \<and> S d a = search cand skip P (a # chain t dr a)
    \<Longrightarrow> settled t run outer D S st \<Longrightarrow> walking run (S d) d n bs (search cand skip P bs) st
    \<Longrightarrow> \<exists>st'. cached_loop cand skip key d n m bs st = (search cand skip P bs, st') \<and> settled t run outer D S st'
      \<and> walked run (S d) d st' \<and> frame (insert d D) st st'"
    using 1(1) by blast
  note linked = 1(2) and right = 1(3) and st = 1(4) and w = 1(5)
  show ?case
  proof (cases as)
    case Nil
    then show ?thesis using st w walking_ends by auto
  next
    case (Cons a bs)
    have bs: "linked t dr bs" "bs = chain t dr a" "a \<notin> set bs" using linked_Cons linked Cons by blast+
    have right': "\<forall>a \<in> set bs. cand a \<and> \<not> skip a \<longrightarrow> Q a \<and> S d a = search cand skip P (a # chain t dr a)"
      using right Cons by auto
    have w': "walking run (S d) d n bs (search cand skip P as) st" by (rule walking_stays [OF w]) (use Cons in auto)
    consider "\<not> cand a" | "cand a" "skip a" | "cand a" "\<not> skip a" by blast
    then show ?thesis
    proof cases
      case 1
      then show ?thesis using IH [OF _ bs(1) right' st] w' Cons by auto
    next
      case 2
      show ?thesis
      proof (cases bs)
        case Nil
        then show ?thesis using 2 Cons st walking_ends [of run "S d" d n bs st] w' by simp
      next
        case (Cons b cs)
        have "linked t dr cs" using bs(1) Cons linked_Cons by blast
        moreover have "walking run (S d) d n cs (search cand skip P cs) st"
          using walking_stays [OF w', of cs] 2 \<open>as = a # bs\<close> Cons by auto
        ultimately show ?thesis using IH [of cs st] right' st 2 \<open>as = a # bs\<close> Cons by auto
      qed
    next
      case 3
      then have a: "Q a" "S d a = search cand skip P as" using right Cons bs(2) by auto
      have valid: "b < length (ss_cells st)" if "ss_cache st k = Some b" for k b
        using st that by (cases k) (simp add: settled_def)
      have n: "n < length (ss_cells st)" "ce_run (ss_cells st ! n) = run" "ce_done (ss_cells st ! n) = d"
        using w by (auto simp: walking_def)
      show ?thesis
      proof (cases "old_result d a key st")
        case (Some r)
        then obtain b where b: "ss_cache st (a, key) = Some b" "ce_run (ss_cells st ! b) = run" "ce_done (ss_cells st ! b) = d"
          "r = ce_result (ss_cells st ! b)"
          using st by (auto simp: old_result_def settled_def Let_def split: option.splits if_splits)
        then have "b \<noteq> n" using w Cons unfolding walking_def by (metis list.set_intros(1))
        then have r: "r = Some (search cand skip P as)" using w b a(2) unfolding walking_def by metis
        have "walked run (S d) d (set_result n r st)" unfolding r by (rule walking_answered [OF w])
        moreover have "settled t run outer D S (set_result n r st)" by (rule settled_set_result [OF st]) (use n d in simp)
        moreover have "frame (insert d D) st (set_result n r st)" by (rule frame_set_result) (use n in simp)
        ultimately show ?thesis using 3 Cons Some r by simp
      next
        case None
        have kept: "settled t run outer D S (keep_cell a key n st)" by (rule settled_keep_cell [OF st n(1)]) (use n d in simp_all)
        obtain st1 where st1: "m a (keep_cell a key n st) = (P a, st1)" "settled t run outer D S st1" "frame D (keep_cell a key n st) st1"
          using computesE [OF m a(1) kept] by blast
        let ?st2 = "set_result n (Some (P a)) st1"
        have w1: "walking run (S d) d n (a # bs) (search cand skip P as) st" using w Cons by simp
        note tested = walking_tested [OF w1 a(2) bs(3) st1(3) d valid]
        have n1: "ce_done (ss_cells st1 ! n) = d" using st1(3) n by (auto simp: frame_def)
        then have set2: "settled t run outer D S ?st2" by (intro settled_set_result [OF st1(2)]) (use d in simp)
        have "frame (insert d D) st (keep_cell a key n st)" by (rule frame_keep_cell) (use n in simp_all)
        moreover have "frame (insert d D) (keep_cell a key n st) st1" using st1(3) by (rule frame_mono) blast
        moreover have "frame (insert d D) st1 ?st2" by (rule frame_set_result) (use n1 in simp)
        ultimately have frame2: "frame (insert d D) st ?st2" using frame_trans by blast
        show ?thesis
        proof (cases "P a")
          case True
          then show ?thesis using 3 Cons None st1(1) set2 frame2 tested(2) by (auto simp: Let_def)
        next
          case False
          then have "walking run (S d) d n bs (search cand skip P bs) ?st2" using tested(1) 3 Cons by simp
          then obtain st' where "cached_loop cand skip key d n m bs ?st2 = (search cand skip P bs, st')" "settled t run outer D S st'"
              "walked run (S d) d st'" "frame (insert d D) ?st2 st'"
            using IH [OF _ bs(1) right' set2] Cons by auto
          then show ?thesis using False 3 Cons None st1(1) frame_trans [OF frame2] by (auto simp: Let_def)
        qed
      qed
    qed
  qed
qed

definition combined :: "dtree \<Rightarrow> combinator \<Rightarrow> bool \<Rightarrow> (node \<Rightarrow> bool) \<Rightarrow> node \<Rightarrow> bool" where
  "combined t c base P elem =
     (if cb_first c then (case filter (tried t c base) (chain t (cb_dir c) elem) of [] \<Rightarrow> False | a # _ \<Rightarrow> P a)
      else search (tried t c base) (skipped t c) P (chain t (cb_dir c) elem))"

definition kept_result :: "dtree \<Rightarrow> combinator \<Rightarrow> bool \<Rightarrow> (node \<Rightarrow> bool) \<Rightarrow> node \<Rightarrow> bool" where
  "kept_result t c base P elem = search (tried t c base) (skipped t c) P (elem # chain t (cb_dir c) elem)"

lemma new_cell_walking:
  assumes st: "settled t run outer (insert d D) S st"
  shows "\<exists>st'. new_cell d st = (length (ss_cells st), st') \<and> settled t run outer (insert d D) S st' \<and> frame (insert d D) st st'
    \<and> walking run (S d) d (length (ss_cells st)) as answer st'"
proof -
  let ?c = "\<lparr>ce_run = ss_dirruns st, ce_done = d, ce_result = None\<rparr>"
  let ?st = "st\<lparr>ss_cells := ss_cells st @ [?c]\<rparr>"
  have old: "(ss_cells st @ [?c]) ! a = ss_cells st ! a \<and> a < length (ss_cells st)" if "ss_cache st (e, k) = Some a" for e k a
    using st that by (auto simp: settled_def nth_append)
  have "settled t run outer (insert d D) S ?st"
    using st by (auto simp: settled_def nth_ok_def nth_append intro: less_SucI)
  moreover have "walking run (S d) d (length (ss_cells st)) as answer ?st"
    unfolding walking_def
  proof (intro conjI allI impI)
    fix e k a
    assume a: "ss_cache ?st (e, k) = Some a" "ce_run (ss_cells ?st ! a) = run" "ce_done (ss_cells ?st ! a) = d"
    then have "a < length (ss_cells st)" "ss_cells ?st ! a = ss_cells st ! a" using old by auto
    then show "if a = length (ss_cells st) then e \<notin> set as \<and> S d e = answer \<and> ce_result (ss_cells ?st ! a) = Some False
        else ce_result (ss_cells ?st ! a) = Some (S d e)"
      using st a by (auto simp: settled_def)
  qed (use st in \<open>simp_all add: settled_def\<close>)
  moreover have "frame (insert d D) st ?st" by (auto simp: frame_def nth_append)
  ultimately show ?thesis by (simp add: new_cell_def)
qed

lemma addCombinator_computes:
  assumes m: "computes t run outer Q D S (\<lambda>e. m e context xml) P" and d: "d \<notin> D"
    and Q: "\<And>a. in_tree t a \<Longrightarrow> tried t c base a \<Longrightarrow> Q a"
    and kept: "S d = kept_result t c base P" and plainly: "xml \<longrightarrow> cb_next c = None"
  shows "computes t run outer (in_tree t) (insert d D) S (\<lambda>e. addCombinator t m c base d e context xml) (combined t c base P)"
  unfolding computes_def
proof (intro allI impI)
  fix elem st assume e: "in_tree t elem" and st: "settled t run outer (insert d D) S st"
  let ?as = "chain t (cb_dir c) elem"
  have Qas: "\<forall>a \<in> set ?as. tried t c base a \<longrightarrow> Q a" using Q chain_in_tree [OF e] by blast
  note m' = computes_mono [OF m, of "insert d D"]
  show "\<exists>st'. addCombinator t m c base d elem context xml st = (combined t c base P elem, st')
      \<and> settled t run outer (insert d D) S st' \<and> frame (insert d D) st st'"
  proof (cases "cb_first c \<or> xml")
    case True
    then consider "cb_first c" | "\<not> cb_first c" "xml" by blast
    then show ?thesis
    proof cases
      case 1
      then show ?thesis
        using first_loop_computes [OF m' Qas st] by (auto simp: addCombinator_def combined_def Let_def)
    next
      case 2
      then have "\<not> skipped t c a" for a using plainly by (simp add: skipped_def)
      then show ?thesis
        using 2 all_loop_computes [OF m' Qas st] by (auto simp: addCombinator_def combined_def Let_def search_all)
    qed
  next
    case False
    let ?search = "search (tried t c base) (skipped t c) P"
    obtain st1 where st1: "new_cell d st = (length (ss_cells st), st1)" "settled t run outer (insert d D) S st1"
        "frame (insert d D) st st1" "walking run (S d) d (length (ss_cells st)) ?as (?search ?as) st1"
      using new_cell_walking [OF st] by blast
    have right: "\<forall>a \<in> set ?as. tried t c base a \<and> \<not> skipped t c a \<longrightarrow> Q a \<and> S d a = ?search (a # chain t (cb_dir c) a)"
      using Qas by (simp add: kept kept_result_def)
    obtain st2 where st2: "cached_loop (tried t c base) (skipped t c) (cb_key c) d (length (ss_cells st)) (\<lambda>e. m e context xml) ?as st1
        = (?search ?as, st2)" "settled t run outer D S st2" "walked run (S d) d st2" "frame (insert d D) st1 st2"
      using cached_loop_computes [OF m d linked_chain right settled_mono [OF st1(2)] st1(4)] by blast
    have "settled t run outer (insert d D) S st2" using st2(2,3) by (auto simp: settled_def walked_def)
    then show ?thesis
      using False st1(1) st2(1) frame_trans [OF st1(3) st2(4)] by (auto simp: addCombinator_def combined_def Let_def)
  qed
qed

section \<open>Conjunctions\<close>

lemma matchers_loop_computes:
  assumes "list_all2 (\<lambda>m P. computes t run outer Q D S (\<lambda>e. m e context xml) P) ms Ps"
  shows "computes t run outer Q D S (\<lambda>e. matchers_loop ms e context xml) (\<lambda>e. \<forall>P \<in> set Ps. P e)"
  using assms
proof (induction rule: list_all2_induct)
  case (Cons m ms P Ps)
  show ?case
    unfolding computes_def
  proof (intro allI impI)
    fix elem st assume e: "Q elem" and st: "settled t run outer D S st"
    obtain st1 where st1: "m elem context xml st = (P elem, st1)" "settled t run outer D S st1" "frame D st st1"
      using computesE [OF Cons.hyps(1) e st] by blast
    obtain st2 where "matchers_loop ms elem context xml st1 = (\<forall>P \<in> set Ps. P elem, st2)" "settled t run outer D S st2" "frame D st1 st2"
      using computesE [OF Cons.IH e st1(2)] by blast
    then show "\<exists>st'. matchers_loop (m # ms) elem context xml st = (\<forall>P \<in> set (P # Ps). P elem, st') \<and> settled t run outer D S st' \<and> frame D st st'"
      using st1 frame_trans [OF st1(3)] by (cases "P elem") auto
  qed
qed (simp add: computes_def)

lemma elementMatcher_computes:
  assumes "list_all2 (\<lambda>m P. computes t run outer Q D S (\<lambda>e. m e context xml) P) ms Ps" "ms \<noteq> []"
  shows "computes t run outer Q D S (\<lambda>e. elementMatcher ms e context xml) (\<lambda>e. \<forall>P \<in> set Ps. P e)"
proof (cases "length ms > 1")
  case True
  then show ?thesis using matchers_loop_computes [of t run outer Q D S "context" xml "rev ms" "rev Ps"] assms by (simp add: elementMatcher_def)
next
  case False
  then obtain m where m: "ms = [m]" using assms(2) by (cases ms; cases "tl ms") auto
  then obtain P where "Ps = [P]" "computes t run outer Q D S (\<lambda>e. m e context xml) P"
    using assms(1) by (auto simp: list_all2_Cons1)
  then show ?thesis using m by (simp add: elementMatcher_def)
qed

section \<open>What filters ask\<close>

text \<open>A document: its root is one, and its elements have names.\<close>

definition tree_ok :: "dtree \<Rightarrow> bool" where
  "tree_ok t \<longleftrightarrow> nodeType t [] = 9 \<and> (\<forall>p. is_element t p \<longrightarrow> nd_name (info t p) \<noteq> [])"

definition on_cycle :: "int \<Rightarrow> int \<Rightarrow> nat \<Rightarrow> bool" where
  "on_cycle a b k \<longleftrightarrow> (\<exists>n. int k = a * int n + b)"

definition child_answer :: "dtree \<Rightarrow> jstring \<Rightarrow> jstring \<Rightarrow> (int \<times> int) option \<Rightarrow> node \<Rightarrow> bool" where
  "child_answer t kind what cycle elem \<longleftrightarrow>
     (let forward = (last_chars 4 kind \<noteq> js ''last''); ofType = (what = js ''of-type'');
          name = ascii_lower (nd_name (info t elem))
      in link t ParentNode elem \<noteq> None
         \<and> (if cycle = Some (1, 0) then True
            else if take 3 kind \<noteq> js ''nth'' then
              (\<forall>s \<in> set (chain t (if forward then PreviousSibling else NextSibling) elem). \<not> alike t ofType name s)
              \<and> (kind = js ''only'' \<longrightarrow> (\<forall>s \<in> set (chain t NextSibling elem). \<not> alike t ofType name s))
            else case cycle of
                None \<Rightarrow> False
              | Some (a, b) \<Rightarrow> on_cycle a b (child_position t forward ofType elem)))"

definition fieldset_combinator :: combinator where
  "fieldset_combinator = \<lparr>cb_dir = ParentNode, cb_first = False, cb_next = Some (js ''legend'')\<rparr>"

definition is_disabled_fieldset :: "dtree \<Rightarrow> node \<Rightarrow> bool" where
  "is_disabled_fieldset t elem \<longleftrightarrow> nd_disabled (info t elem) = Some True \<and> nodeName t elem (js ''fieldset'')"

definition disabled_answer :: "dtree \<Rightarrow> bool \<Rightarrow> node \<Rightarrow> bool" where
  "disabled_answer t disabled elem =
     (let own = (nd_disabled (info t elem) = Some disabled)
      in if nd_form (info t elem) then
           (case link t ParentNode elem of
              Some parent \<Rightarrow>
                if nd_disabled (info t elem) = Some False then
                  if nd_label (info t elem) then (if nd_label (info t parent) then nd_disabled (info t parent) = Some disabled else own)
                  else nd_isDisabled (info t elem) = Some disabled
                    \<or> nd_isDisabled (info t elem) \<noteq> Some (\<not> disabled)
                      \<and> combined t fieldset_combinator False (is_disabled_fieldset t) elem = disabled
                else own
            | None \<Rightarrow> own)
         else nd_label (info t elem) \<and> own)"

definition pseudo_answer :: "page_env \<Rightarrow> dtree \<Rightarrow> jstring option \<Rightarrow> jstring \<Rightarrow> node \<Rightarrow> bool" where
  "pseudo_answer env t argument name elem =
     (if name = js ''contains'' then pseudo_contains (the argument) t elem
      else if name = js ''lang'' then pseudo_lang (the argument) t elem
      else if name = js ''enabled'' then disabled_answer t False elem
      else if name = js ''disabled'' then disabled_answer t True elem
      else (case map_of (plain_pseudos env t) name of Some P \<Rightarrow> P elem | None \<Rightarrow> False))"

definition filter_answer :: "page_env \<Rightarrow> dtree \<Rightarrow> filter_call \<Rightarrow> node \<Rightarrow> bool" where
  "filter_answer env t call elem =
     (case call of
        FID i \<Rightarrow> filter_ID t i elem
      | FTAG name \<Rightarrow> filter_TAG t name elem
      | FCLASS name \<Rightarrow> (case class_pattern name of Some pattern \<Rightarrow> filter_CLASS t pattern elem | None \<Rightarrow> False)
      | FATTR name operator check \<Rightarrow> filter_ATTR t name operator check elem
      | FCHILD kind what cycle \<Rightarrow> child_answer t kind what cycle elem
      | FPSEUDO pseudo argument \<Rightarrow>
          pseudo_answer env t argument
            (if find_pseudo env t argument pseudo \<noteq> None then pseudo else ascii_lower pseudo) elem)"

section \<open>Child filters\<close>

lemma in_cycle_iff: "in_cycle a b diff \<longleftrightarrow> on_cycle a b diff"
  unfolding on_cycle_def
proof
  assume "in_cycle a b diff"
  then consider "int diff - b = a" | "a \<noteq> 0" "(int diff - b) mod a = 0" "0 \<le> (int diff - b) * a"
    by (auto simp: in_cycle_def Let_def)
  then show "\<exists>n. int diff = a * int n + b"
  proof cases
    case 1
    then show ?thesis by (intro exI [of _ 1]) simp
  next
    case 2
    then obtain k where k: "int diff - b = a * k" by (metis dvd_def mod_0_imp_dvd)
    then have "0 \<le> k * (a * a)" using 2(3) by (simp add: mult.commute mult.left_commute)
    moreover have "0 < a * a" using 2(1) by (cases "0 < a") (auto simp: mult_neg_neg)
    ultimately have "0 \<le> k" by (metis mult_less_0_iff not_le)
    then show ?thesis using k by (intro exI [of _ "nat k"]) simp
  qed
next
  assume "\<exists>n. int diff = a * int n + b"
  then obtain n where "int diff = a * int n + b" by blast
  then have "int diff - b = a * int n" by simp
  moreover have "0 \<le> a * int n * a" by (metis mult.assoc mult.commute of_nat_0_le_iff zero_le_mult_iff zero_le_square)
  ultimately show "in_cycle a b diff" by (cases "a = 0") (simp_all add: in_cycle_def Let_def)
qed

lemmas on_cycle_code [code] = in_cycle_iff [symmetric]

lemma none_alike_iff: "none_alike t ofType name nodes \<longleftrightarrow> (\<forall>s \<in> set nodes. \<not> alike t ofType name s)"
  by (induction nodes) auto

lemma seek_child_at:
  assumes "elem \<notin> set xs" "nodeType t elem = 1"
  shows "seek_child t elem (xs @ elem # ys) i diff = Some (i + length xs, diff + length (filter (\<lambda>p. nodeType t p = 1) xs) + 1)"
  using assms by (induction xs arbitrary: i diff) auto

lemma seek_child_none: "elem \<notin> set xs \<Longrightarrow> seek_child t elem xs i diff = None"
  by (induction xs arbitrary: i diff) auto

lemma childNodes_split: "i < child_count t p \<Longrightarrow> childNodes t p = map (\<lambda>j. j # p) [0..<i] @ (i # p) # chain t NextSibling (i # p)"
proof -
  assume i: "i < child_count t p"
  then have "[0..<child_count t p] = [0..<i] @ i # [Suc i..<child_count t p]"
    using upt_add_eq_append [of 0 i "child_count t p - i"] by (simp add: upt_conv_Cons)
  then show ?thesis by (simp add: childNodes_def)
qed

lemma position_forward:
  "nodeType t (i # p) = 1 \<Longrightarrow> child_position t True False (i # p) = elements_upto t p (Suc i)"
  by (simp add: child_position_def elements_upto_def alike_def [abs_def] filter_map comp_def rev_filter [symmetric])

text \<open>The count that was kept for another child is taken up, or the search starts again.\<close>

lemma nth_child_settled:
  assumes st: "settled t run outer D S st" and e: "i < child_count t p" "nodeType t (i # p) = 1"
  shows "\<exists>st'. nth_child t kind p (i # p) st = (child_position t True False (i # p), st') \<and> settled t run outer D S st' \<and> frame D st st'"
proof -
  let ?found = "Some (i, elements_upto t p (Suc i))"
  have count: "length (filter (\<lambda>q. nodeType t q = 1) (map (\<lambda>j. j # p) js)) = length (filter (\<lambda>j. nodeType t (j # p) = 1) js)" for js
    by (simp add: filter_map comp_def)
  have start: "seek_child t (i # p) (childNodes t p) 0 0 = ?found"
    unfolding childNodes_split [OF e(1)]
    by (subst seek_child_at) (auto simp: e count elements_upto_def comp_def)
  have later: "(case seek_child t (i # p) (chain t NextSibling (k # p)) (k + 1) diff of Some f \<Rightarrow> Some f
      | None \<Rightarrow> seek_child t (i # p) (childNodes t p) 0 0) = ?found"
    if kept: "k < child_count t p" "diff = elements_upto t p (Suc k)" for k diff
  proof (cases "k < i")
    case True
    have "[Suc k..<child_count t p] = [Suc k..<i] @ i # [Suc i..<child_count t p]"
      using upt_add_eq_append [of "Suc k" i "child_count t p - i"] e(1) True by (simp add: upt_conv_Cons)
    then have chain: "chain t NextSibling (k # p) = map (\<lambda>j. j # p) [Suc k..<i] @ (i # p) # map (\<lambda>j. j # p) [Suc i..<child_count t p]"
      by simp
    have "[0..<i] = [0..<Suc k] @ [Suc k..<i]"
      using upt_add_eq_append [of 0 "Suc k" "i - Suc k"] True by simp
    then have "elements_upto t p (Suc i) = diff + length (filter (\<lambda>j. nodeType t (j # p) = 1) [Suc k..<i]) + 1"
      using e(2) kept(2) by (simp add: elements_upto_def)
    then have "seek_child t (i # p) (chain t NextSibling (k # p)) (k + 1) diff = ?found"
      unfolding chain by (subst seek_child_at) (use True in \<open>auto simp: e count comp_def\<close>)
    then show ?thesis by simp
  next
    case False
    then have "seek_child t (i # p) (chain t NextSibling (k # p)) (k + 1) diff = None" by (intro seek_child_none) auto
    then show ?thesis using start by simp
  qed
  have "nth_child t kind p (i # p) st
      = (elements_upto t p (Suc i), st\<lparr>ss_nth := (ss_nth st)((p, kind) \<mapsto> (ss_dirruns st, i, elements_upto t p (Suc i)))\<rparr>)"
  proof (cases "\<exists>k diff. ss_nth st (p, kind) = Some (ss_dirruns st, k, diff) \<and> k \<noteq> 0")
    case True
    then obtain k diff where k: "ss_nth st (p, kind) = Some (ss_dirruns st, k, diff)" "k \<noteq> 0" by blast
    then have "k < child_count t p" "diff = elements_upto t p (Suc k)" using st by (auto simp: settled_def nth_ok_def)
    from later [OF this] show ?thesis using k by (simp add: nth_child_def Let_def)
  next
    case False
    then show ?thesis using start by (auto simp: nth_child_def Let_def split: option.splits prod.splits)
  qed
  moreover have "settled t run outer D S (st\<lparr>ss_nth := (ss_nth st)((p, kind) \<mapsto> (ss_dirruns st, i, elements_upto t p (Suc i)))\<rparr>)"
    using st e(1) by (auto simp: settled_def nth_ok_def)
  moreover have "frame D st (st\<lparr>ss_nth := f\<rparr>)" for f by (simp add: frame_def)
  ultimately show ?thesis using position_forward [OF e(2)] by simp
qed

lemma count_loop_at:
  assumes "elem \<notin> set xs" "alike t ofType name elem"
  shows "\<exists>f. count_loop t ofType name kept elem (xs @ elem # ys) diff st = (diff + length (filter (alike t ofType name) xs) + 1, st\<lparr>ss_nthLast := f\<rparr>)
    \<and> (kept = None \<longrightarrow> f = ss_nthLast st)
    \<and> (\<forall>k v. f k = Some v \<longrightarrow> ss_nthLast st k = Some v
        \<or> (\<exists>pre node post. xs @ [elem] = pre @ node # post \<and> fst k = node \<and> v = (ss_dirruns st, diff + length (filter (alike t ofType name) pre) + 1)))"
  using assms(1)
proof (induction xs arbitrary: diff st)
  case Nil
  let ?f = "case kept of Some kind \<Rightarrow> (ss_nthLast st)((elem, kind) \<mapsto> (ss_dirruns st, diff + 1)) | None \<Rightarrow> ss_nthLast st"
  have "count_loop t ofType name kept elem (elem # ys) diff st = (diff + 1, st\<lparr>ss_nthLast := ?f\<rparr>)"
    using assms(2) by (auto split: option.split)
  moreover have "ss_nthLast st k = Some v \<or> (\<exists>pre node post. [] @ [elem] = pre @ node # post \<and> fst k = node
      \<and> v = (ss_dirruns st, diff + length (filter (alike t ofType name) pre) + 1))" if "?f k = Some v" for k v
  proof (cases "ss_nthLast st k = Some v")
    case False
    then have "fst k = elem \<and> v = (ss_dirruns st, diff + 1)" using that by (auto split: option.splits if_splits)
    then show ?thesis by (intro disjI2 exI [where x = "[] :: node list"] exI [of _ elem]) simp
  qed simp
  ultimately show ?case by (intro exI [of _ ?f]) (simp split: option.split)
next
  case (Cons x xs)
  have notin: "elem \<notin> set xs" using Cons.prems by simp
  show ?case
  proof (cases "alike t ofType name x")
    case True
    let ?f = "case kept of Some kind \<Rightarrow> (ss_nthLast st)((x, kind) \<mapsto> (ss_dirruns st, diff + 1)) | None \<Rightarrow> ss_nthLast st"
    let ?st = "st\<lparr>ss_nthLast := ?f\<rparr>"
    obtain f where f: "count_loop t ofType name kept elem (xs @ elem # ys) (diff + 1) ?st
        = (diff + 1 + length (filter (alike t ofType name) xs) + 1, ?st\<lparr>ss_nthLast := f\<rparr>)" "kept = None \<longrightarrow> f = ss_nthLast ?st"
      and new: "\<And>k v. f k = Some v \<Longrightarrow> ss_nthLast ?st k = Some v \<or> (\<exists>pre node post. xs @ [elem] = pre @ node # post \<and> fst k = node
          \<and> v = (ss_dirruns ?st, diff + 1 + length (filter (alike t ofType name) pre) + 1))"
      using Cons.IH [OF notin, of "diff + 1" ?st] by (elim exE conjE) (rule that, assumption, assumption, blast)
    have "count_loop t ofType name kept elem ((x # xs) @ elem # ys) diff st
        = (diff + length (filter (alike t ofType name) (x # xs)) + 1, st\<lparr>ss_nthLast := f\<rparr>)"
      using True Cons.prems f(1) by (cases kept) (auto simp: Let_def)
    moreover have "ss_nthLast st k = Some v \<or> (\<exists>pre node post. (x # xs) @ [elem] = pre @ node # post \<and> fst k = node
          \<and> v = (ss_dirruns st, diff + length (filter (alike t ofType name) pre) + 1))" if "f k = Some v" for k v
      using new [OF that]
    proof
      assume "ss_nthLast ?st k = Some v"
      then have "ss_nthLast st k = Some v \<or> fst k = x \<and> v = (ss_dirruns st, diff + length (filter (alike t ofType name) []) + 1)"
        by (auto split: option.splits if_splits)
      then show ?thesis by (metis append_Nil append_Cons)
    next
      assume "\<exists>pre node post. xs @ [elem] = pre @ node # post \<and> fst k = node
          \<and> v = (ss_dirruns ?st, diff + 1 + length (filter (alike t ofType name) pre) + 1)"
      then obtain pre post where "xs @ [elem] = pre @ fst k # post" "v = (ss_dirruns st, diff + length (filter (alike t ofType name) (x # pre)) + 1)"
        using True by auto
      then show ?thesis by (intro disjI2 exI [of _ "x # pre"]) auto
    qed
    moreover have "kept = None \<longrightarrow> f = ss_nthLast st" using f(2) by simp
    ultimately show ?thesis by blast
  next
    case False
    obtain f where f: "count_loop t ofType name kept elem (xs @ elem # ys) diff st
        = (diff + length (filter (alike t ofType name) xs) + 1, st\<lparr>ss_nthLast := f\<rparr>)" "kept = None \<longrightarrow> f = ss_nthLast st"
      and new: "\<And>k v. f k = Some v \<Longrightarrow> ss_nthLast st k = Some v \<or> (\<exists>pre node post. xs @ [elem] = pre @ node # post \<and> fst k = node
          \<and> v = (ss_dirruns st, diff + length (filter (alike t ofType name) pre) + 1))"
      using Cons.IH [OF notin, of diff st] by (elim exE conjE) (rule that, assumption, assumption, blast)
    have "ss_nthLast st k = Some v \<or> (\<exists>pre node post. (x # xs) @ [elem] = pre @ node # post \<and> fst k = node
          \<and> v = (ss_dirruns st, diff + length (filter (alike t ofType name) pre) + 1))" if "f k = Some v" for k v
      using new [OF that]
    proof
      assume "\<exists>pre node post. xs @ [elem] = pre @ node # post \<and> fst k = node
          \<and> v = (ss_dirruns st, diff + length (filter (alike t ofType name) pre) + 1)"
      then obtain pre post where "xs @ [elem] = pre @ fst k # post" "v = (ss_dirruns st, diff + length (filter (alike t ofType name) (x # pre)) + 1)"
        using False by auto
      then show ?thesis by (intro disjI2 exI [of _ "x # pre"]) auto
    qed blast
    then show ?thesis using False f by (intro exI [of _ f]) simp
  qed
qed

lemma distinct_split:
  assumes "xs @ a # ys = pre @ a # post" "distinct (xs @ a # ys)"
  shows "xs = pre"
proof -
  have "a \<notin> set xs" "a \<notin> set ys" using assms(2) by auto
  from append_Cons_eq_iff [OF this] show ?thesis using assms(1) by blast
qed

lemma count_child_settled:
  assumes st: "settled t run outer D S st" and e: "i < child_count t p" "alike t ofType (ascii_lower (nd_name (info t (i # p)))) (i # p)"
    and useCache: "useCache \<Longrightarrow> \<not> forward \<and> \<not> ofType"
  shows "\<exists>st'. count_child t kind ofType forward useCache p (i # p) st = (child_position t forward ofType (i # p), st')
    \<and> settled t run outer D S st' \<and> frame D st st'"
proof -
  let ?e = "i # p" and ?name = "ascii_lower (nd_name (info t (i # p)))"
  let ?nodes = "if forward then childNodes t p else rev (childNodes t p)"
  let ?xs = "if forward then map (\<lambda>j. j # p) [0..<i] else rev (chain t NextSibling ?e)"
  let ?ys = "if forward then chain t NextSibling ?e else rev (map (\<lambda>j. j # p) [0..<i])"
  have nodes: "?nodes = ?xs @ ?e # ?ys" unfolding childNodes_split [OF e(1)] by simp
  have notin: "?e \<notin> set ?xs" by auto
  have "length (filter Q (map (\<lambda>j. j # p) (rev [0..<i]))) = length (filter Q (map (\<lambda>j. j # p) [0..<i]))" for Q
    unfolding rev_map [symmetric] rev_filter [symmetric] by simp
  then have position: "length (filter (alike t ofType ?name) ?xs) + 1 = child_position t forward ofType ?e"
    by (simp add: child_position_def rev_filter [symmetric])
  let ?kept = "if useCache then Some kind else None"
  obtain f where f: "count_loop t ofType ?name ?kept ?e (?xs @ ?e # ?ys) 0 st
        = (0 + length (filter (alike t ofType ?name) ?xs) + 1, st\<lparr>ss_nthLast := f\<rparr>)"
      "?kept = None \<longrightarrow> f = ss_nthLast st"
      "\<forall>k v. f k = Some v \<longrightarrow> ss_nthLast st k = Some v \<or> (\<exists>pre node post. ?xs @ [?e] = pre @ node # post \<and> fst k = node
          \<and> v = (ss_dirruns st, 0 + length (filter (alike t ofType ?name) pre) + 1))"
    using count_loop_at [OF notin e(2), of ?kept ?ys 0 st] by (elim exE conjE) (rule that, assumption+)
  have loop: "count_loop t ofType ?name ?kept ?e ?nodes 0 st = (child_position t forward ofType ?e, st\<lparr>ss_nthLast := f\<rparr>)"
    unfolding nodes by (simp only: f(1) add_0 position)
  have right: "diff = child_position t False False elem" if kept: "f (elem, kd) = Some (run, diff)" for elem kd diff
  proof (cases "ss_nthLast st (elem, kd) = Some (run, diff)")
    case True
    then show ?thesis using st by (simp add: settled_def nth_ok_def)
  next
    case False
    then have use: useCache using f(2) kept by (cases useCache) auto
    obtain pre post where pre: "?xs @ [?e] = pre @ elem # post" "diff = length (filter (alike t ofType ?name) pre) + 1"
      using f(3) [rule_format, OF kept] False by auto
    have all: "rev (childNodes t p) = pre @ elem # (post @ ?ys)"
      using nodes pre(1) useCache [OF use] by simp
    then have "elem \<in> set (childNodes t p)" by (metis in_set_conv_decomp set_rev)
    then obtain j where j: "elem = j # p" "j < child_count t p" by (auto simp: childNodes_def)
    have "rev (childNodes t p) = rev (chain t NextSibling elem) @ elem # rev (map (\<lambda>j. j # p) [0..<j])"
      unfolding childNodes_split [OF j(2)] j(1) by simp
    moreover have "distinct (rev (childNodes t p))" by (simp add: childNodes_def distinct_map inj_on_def)
    ultimately have "pre = rev (chain t NextSibling elem)" using all distinct_split by metis
    then show ?thesis
      using pre(2) useCache [OF use] by (simp add: child_position_def rev_filter [symmetric] alike_def [abs_def])
  qed
  have "fst v \<le> run" if "f k = Some v" for k v
    using f(3) [rule_format, OF that]
  proof
    assume "ss_nthLast st k = Some v"
    then show ?thesis using st unfolding settled_def nth_ok_def by blast
  qed (use st in \<open>auto simp: settled_def\<close>)
  then have "settled t run outer D S (st\<lparr>ss_nthLast := f\<rparr>)" using st right by (auto simp: settled_def nth_ok_def)
  moreover have "frame D st (st\<lparr>ss_nthLast := f\<rparr>)" by (simp add: frame_def)
  moreover have "diff = child_position t forward ofType ?e" if "useCache" "ss_nthLast st (?e, kind) = Some (run, diff)" for diff
    using st that useCache [OF that(1)] by (simp add: settled_def nth_ok_def)
  ultimately show ?thesis
    using loop st unfolding count_child_def Let_def by (auto simp: settled_def split: option.split prod.split)
qed

lemma lower_unit_idem: "lower_unit (lower_unit c) = lower_unit c"
  by (simp add: lower_unit_def is_upper_def)

lemma ascii_lower_idem [simp]: "ascii_lower (ascii_lower s) = ascii_lower s"
  by (simp add: ascii_lower_def lower_unit_idem comp_def)

lemma filter_CHILD_computes:
  assumes "tree_ok t"
  shows "computes t run outer (is_element t) D S (\<lambda>e. filter_CHILD t kind what cycle e context xml) (child_answer t kind what cycle)"
  unfolding computes_def
proof (intro allI impI)
  fix elem st assume elem: "is_element t elem" and st: "settled t run outer D S st"
  let ?f = "last_chars 4 kind \<noteq> js ''last''" and ?o = "what = js ''of-type''"
  let ?goal = "\<exists>st'. filter_CHILD t kind what cycle elem context xml st = (child_answer t kind what cycle elem, st')
      \<and> settled t run outer D S st' \<and> frame D st st'"
  show ?goal
  proof (cases elem)
    case Nil
    then show ?thesis using st by (auto simp: filter_CHILD_def child_answer_def Let_def)
  next
    case (Cons i p)
    have i: "i < child_count t p" "nodeType t (i # p) = 1" using elem Cons by (auto simp: is_element_def)
    have name: "alike t o' (ascii_lower (nd_name (info t (i # p)))) (i # p)" for o'
      using assms elem Cons i(2) by (simp add: alike_def nodeName_def tree_ok_def)
    have count: "\<exists>st'. (if ?f \<and> \<not> xml \<and> \<not> ?o then nth_child t kind p elem st else count_child t kind ?o ?f (\<not> xml \<and> \<not> ?o) p elem st)
        = (child_position t ?f ?o elem, st') \<and> settled t run outer D S st' \<and> frame D st st'"
    proof (cases "?f \<and> \<not> xml \<and> \<not> ?o")
      case True
      then show ?thesis using nth_child_settled [OF st i, of kind] Cons by auto
    next
      case False
      then show ?thesis using count_child_settled [OF st i(1) name, where useCache = "\<not> xml \<and> \<not> ?o" and forward = ?f and kind = kind and ofType = ?o] Cons by auto
    qed
    consider "cycle = Some (1, 0)" | "cycle \<noteq> Some (1, 0)" "take 3 kind \<noteq> js ''nth''" | "cycle \<noteq> Some (1, 0)" "take 3 kind = js ''nth''"
      by blast
    then show ?thesis
    proof cases
      case 1
      then show ?thesis using Cons st by (simp add: filter_CHILD_def child_answer_def Let_def)
    next
      case 2
      then show ?thesis
        using Cons st by (auto simp: filter_CHILD_def child_answer_def Let_def simple_child_def none_alike_iff)
    next
      case 3
      obtain st' where st': "(if ?f \<and> \<not> xml \<and> \<not> ?o then nth_child t kind p elem st else count_child t kind ?o ?f (\<not> xml \<and> \<not> ?o) p elem st)
        = (child_position t ?f ?o elem, st')" "settled t run outer D S st'" "frame D st st'"
        using count by blast
      have "filter_CHILD t kind what cycle elem context xml st = (child_answer t kind what cycle elem, st')"
        using 3 Cons st'(1) unfolding filter_CHILD_def child_answer_def Let_def
        by (simp add: in_cycle_iff split: option.split)
      then show ?thesis using st' by blast
    qed
  qed
qed

section \<open>Disabled elements\<close>

definition fieldset_kept :: "dtree \<Rightarrow> node \<Rightarrow> bool" where
  "fieldset_kept t = kept_result t fieldset_combinator False (is_disabled_fieldset t)"

lemma computes_weaken: "computes t run outer Q D S m P \<Longrightarrow> (\<And>e. Q' e \<Longrightarrow> Q e) \<Longrightarrow> computes t run outer Q' D S m P"
  unfolding computes_def by blast

lemma is_element_in_tree: "is_element t e \<Longrightarrow> in_tree t e"
  by (simp add: is_element_def)

lemma inDisabledFieldset_computes:
  assumes "S 0 = fieldset_kept t"
  shows "computes t run outer (in_tree t) {0} S (\<lambda>e. inDisabledFieldset t e context False) (combined t fieldset_combinator False (is_disabled_fieldset t))"
proof -
  have "computes t run outer (\<lambda>_. True) {} S (\<lambda>e. plain (is_disabled_fieldset t) e context False) (is_disabled_fieldset t)"
    by (rule computes_plain)
  then have "computes t run outer (in_tree t) (insert 0 {}) S
      (\<lambda>e. addCombinator t (plain (is_disabled_fieldset t)) fieldset_combinator False 0 e context False)
      (combined t fieldset_combinator False (is_disabled_fieldset t))"
    by (rule addCombinator_computes) (simp_all add: assms fieldset_kept_def)
  then show ?thesis
    unfolding inDisabledFieldset_def fieldset_combinator_def is_disabled_fieldset_def [abs_def] by simp
qed

lemma createDisabledPseudo_computes:
  assumes "S 0 = fieldset_kept t"
  shows "computes t run outer (in_tree t) {0} S (\<lambda>e. createDisabledPseudo t disabled e context xml) (disabled_answer t disabled)"
  unfolding computes_def
proof (intro allI impI)
  fix elem st assume e: "in_tree t elem" and st: "settled t run outer {0} S st"
  obtain st' where st': "inDisabledFieldset t elem context False st = (combined t fieldset_combinator False (is_disabled_fieldset t) elem, st')"
      "settled t run outer {0} S st'" "frame {0} st st'"
    using computesE [OF inDisabledFieldset_computes [of S t, OF assms] e st] by blast
  show "\<exists>st'. createDisabledPseudo t disabled elem context xml st = (disabled_answer t disabled elem, st')
      \<and> settled t run outer {0} S st' \<and> frame {0} st st'"
    using st st' by (auto simp: createDisabledPseudo_def disabled_answer_def Let_def split: option.split)
qed

lemma find_pseudo_computes:
  assumes "find_pseudo env t argument name = Some (Made m)" "S 0 = fieldset_kept t"
  shows "computes t run outer (is_element t) {0} S (\<lambda>e. m e context xml) (pseudo_answer env t argument name)"
proof -
  note disabled = createDisabledPseudo_computes [of S t, OF assms(2), THEN computes_weaken, OF is_element_in_tree]
  have plain: "computes t run outer (is_element t) {0} S (\<lambda>e. plain P e context xml) P" for P by (rule computes_plain)
  have names: "js ''enabled'' \<noteq> js ''contains''" by simp
  show ?thesis
    using assms(1) plain disabled
    unfolding find_pseudo_def pseudo_answer_def [abs_def]
    by (auto split: if_splits option.splits)
qed

lemma make_filter_computes:
  assumes "make_filter env t call = Made m" "S 0 = fieldset_kept t" "tree_ok t"
  shows "computes t run outer (is_element t) {0} S (\<lambda>e. m e context xml) (filter_answer env t call)"
proof -
  have plain: "computes t run outer (is_element t) {0} S (\<lambda>e. plain P e context xml) P" for P by (rule computes_plain)
  show ?thesis
  proof (cases call)
    case (FPSEUDO pseudo argument)
    then have "filter_PSEUDO env t pseudo argument = Made m" using assms(1) by (simp add: make_filter_def)
    then have "find_pseudo env t argument
        (if find_pseudo env t argument pseudo \<noteq> None then pseudo else ascii_lower pseudo) = Some (Made m)"
      by (auto simp: filter_PSEUDO_def split: option.splits)
    from find_pseudo_computes [OF this, of S, OF assms(2)] show ?thesis using FPSEUDO by (simp add: filter_answer_def [abs_def])
  next
    case (FCHILD kind what cycle)
    then show ?thesis
      using assms(1) filter_CHILD_computes [OF assms(3)] by (auto simp: make_filter_def filter_answer_def [abs_def])
  qed (use assms(1) plain in \<open>auto simp: make_filter_def filter_answer_def [abs_def] split: option.splits if_splits\<close>)
qed

section \<open>Selectors\<close>

text \<open>
  The meaning of a compound of tokens, read from the right: a combinator asks for a related element that what
  stands before it matches, and at the left end the context has to be reached.
\<close>

definition related :: "dtree \<Rightarrow> combinator \<Rightarrow> bool \<Rightarrow> node \<Rightarrow> node list" where
  "related t c base elem = (let as = filter (tried t c base) (chain t (cb_dir c) elem) in if cb_first c then take 1 as else as)"

definition in_context :: "sel_ctx \<Rightarrow> node \<Rightarrow> bool" where
  "in_context context elem \<longleftrightarrow> (case context of OneContext c \<Rightarrow> elem = c | ManyContexts cs \<Rightarrow> elem \<in> set cs)"

definition reaches :: "dtree \<Rightarrow> combinator option \<Rightarrow> sel_ctx \<Rightarrow> bool \<Rightarrow> outermost \<Rightarrow> node \<Rightarrow> bool" where
  "reaches t leading context xml outer elem \<longleftrightarrow>
     leading = None \<and> (xml \<or> differs context outer)
     \<or> (\<exists>a \<in> set (related t (case leading of Some c \<Rightarrow> c | None \<Rightarrow> descendant) True elem). in_context context a)"

fun css_match :: "page_env \<Rightarrow> dtree \<Rightarrow> (node \<Rightarrow> bool) \<Rightarrow> sel_token list \<Rightarrow> node \<Rightarrow> bool" where
  "css_match env t base [] elem = base elem"
| "css_match env t base (tok # toks) elem =
     (case token_relative tok of
        Some c \<Rightarrow> \<exists>a \<in> set (related t c False elem). css_match env t base toks a
      | None \<Rightarrow> (case tk_kind tok of
            Filter call \<Rightarrow> filter_answer env t call elem \<and> css_match env t base toks elem
          | Relative _ \<Rightarrow> False))"

definition selects :: "page_env \<Rightarrow> dtree \<Rightarrow> sel_ctx \<Rightarrow> bool \<Rightarrow> outermost \<Rightarrow> sel_token list \<Rightarrow> node \<Rightarrow> bool" where
  "selects env t context xml outer toks elem =
     (let leading = token_relative (hd toks)
      in css_match env t (reaches t leading context xml outer) (rev (if leading \<noteq> None then tl toks else toks)) elem)"

lemma combined_related: "cb_next c = None \<Longrightarrow> combined t c base P elem \<longleftrightarrow> (\<exists>a \<in> set (related t c base elem). P a)"
  by (auto simp: combined_def related_def Let_def search_all skipped_def split: list.splits)

lemma relative_next: "relative kind = Some c \<Longrightarrow> cb_next c = None"
  by (auto simp: relative_def split: if_splits)

lemma token_relative_next: "token_relative tok = Some c \<Longrightarrow> cb_next c = None"
  by (auto simp: token_relative_def relative_next split: token_kind.splits)

lemma related_in_tree:
  assumes "in_tree t elem" "a \<in> set (related t c base elem)"
  shows "in_tree t a \<and> tried t c base a"
proof -
  have "a \<in> set (filter (tried t c base) (chain t (cb_dir c) elem))"
    using assms(2) by (auto simp: related_def Let_def split: if_splits dest: in_set_takeD)
  then show ?thesis using chain_in_tree [OF assms(1)] by auto
qed

lemma computes_eq:
  assumes "computes t run outer Q D S m P" "\<And>e. Q e \<Longrightarrow> P e = P' e"
  shows "computes t run outer Q D S m P'"
  unfolding computes_def
proof (intro allI impI)
  fix elem st assume e: "Q elem" and st: "settled t run outer D S st"
  show "\<exists>st'. m elem st = (P' elem, st') \<and> settled t run outer D S st' \<and> frame D st st'"
    using computesE [OF assms(1) e st] unfolding assms(2) [OF e] by blast
qed

lemma base_matcher_computes:
  assumes c: "cb_next c = None" and d: "0 < d"
  shows "\<exists>S'. (\<forall>k < d. S' k = S k) \<and> computes t run outer (is_element t) {..<d + 2} S' (\<lambda>e. base_matcher t leading c d e cx xml)
    (\<lambda>e. \<not> leading \<and> (xml \<or> differs cx outer) \<or> (\<exists>a \<in> set (related t c True e). in_context cx a))"
proof -
  let ?P = "in_context cx"
  define S' where "S' = S(d := kept_result t c True ?P, Suc d := kept_result t c True ?P)"
  have walk: "computes t run outer (is_element t) {..<d + 2} S' (\<lambda>e. addCombinator t (plain ?P) c True d' e cx xml)
      (\<lambda>e. \<exists>a \<in> set (related t c True e). ?P a)" if d': "d' = d \<or> d' = Suc d" for d'
  proof -
    have "computes t run outer (\<lambda>_. True) {} S' (\<lambda>e. plain ?P e cx xml) ?P" by (rule computes_plain)
    then have "computes t run outer (in_tree t) (insert d' {}) S' (\<lambda>e. addCombinator t (plain ?P) c True d' e cx xml) (combined t c True ?P)"
      by (rule addCombinator_computes) (use d' c in \<open>auto simp: S'_def\<close>)
    then have "computes t run outer (in_tree t) {..<d + 2} S' (\<lambda>e. addCombinator t (plain ?P) c True d' e cx xml) (combined t c True ?P)"
      by (rule computes_mono) (use d' in auto)
    then show ?thesis
      using combined_related [OF c] is_element_in_tree by (elim computes_weaken [THEN computes_eq]) auto
  qed
  have "base_matcher t leading c d e cx xml st =
      (if \<not> leading \<and> (xml \<or> differs cx (ss_outermost st)) then (True, st)
       else addCombinator t (plain ?P) c True (case cx of OneContext _ \<Rightarrow> d | ManyContexts _ \<Rightarrow> Suc d) e cx xml st)" for e st
    by (simp add: base_matcher_def in_context_def [abs_def] split: sel_ctx.split)
  moreover have "(case cx of OneContext _ \<Rightarrow> d | ManyContexts _ \<Rightarrow> Suc d) = d \<or> (case cx of OneContext _ \<Rightarrow> d | ManyContexts _ \<Rightarrow> Suc d) = Suc d"
    by (simp split: sel_ctx.split)
  from walk [OF this] have "computes t run outer (is_element t) {..<d + 2} S'
      (\<lambda>e. addCombinator t (plain ?P) c True (case cx of OneContext _ \<Rightarrow> d | ManyContexts _ \<Rightarrow> Suc d) e cx xml)
      (\<lambda>e. \<exists>a \<in> set (related t c True e). ?P a)" .
  ultimately have "computes t run outer (is_element t) {..<d + 2} S' (\<lambda>e. base_matcher t leading c d e cx xml)
      (\<lambda>e. \<not> leading \<and> (xml \<or> differs cx outer) \<or> (\<exists>a \<in> set (related t c True e). ?P a))"
    unfolding computes_def by (auto simp: settled_def)
  moreover have "\<forall>k < d. S' k = S k" by (simp add: S'_def)
  ultimately show ?thesis by blast
qed

text \<open>Compiling token by token; the names that are handed out later do not disturb what was compiled before.\<close>

lemma computes_all_cong:
  assumes "list_all2 (\<lambda>m P. computes t run outer Q {..<d} S (\<lambda>e. m e context xml) P) ms Ps" "\<forall>k < d. S' k = S k" "d \<le> d'"
  shows "list_all2 (\<lambda>m P. computes t run outer Q {..<d'} S' (\<lambda>e. m e context xml) P) ms Ps"
  using assms(1)
proof (rule list_all2_mono)
  fix m P assume "computes t run outer Q {..<d} S (\<lambda>e. m e context xml) P"
  then have "computes t run outer Q {..<d} S' (\<lambda>e. m e context xml) P" using assms(2) by (subst computes_cong [where S = S]) auto
  then show "computes t run outer Q {..<d'} S' (\<lambda>e. m e context xml) P" by (rule computes_mono) (use assms(3) in auto)
qed

lemma tokens_loop_computes:
  assumes ok: "tree_ok t"
  shows "tokens_loop env t toks ms d = (Made ms', d') \<Longrightarrow> 0 < d \<Longrightarrow> S 0 = fieldset_kept t \<Longrightarrow> ms \<noteq> []
    \<Longrightarrow> list_all2 (\<lambda>m P. computes t run outer (is_element t) {..<d} S (\<lambda>e. m e context xml) P) ms Ps
    \<Longrightarrow> (\<And>e. is_element t e \<Longrightarrow> (\<forall>P \<in> set Ps. P e) \<longleftrightarrow> css_match env t base pre e)
    \<Longrightarrow> \<exists>S' Ps'. (\<forall>k < d. S' k = S k) \<and> d \<le> d' \<and> ms' \<noteq> []
      \<and> list_all2 (\<lambda>m P. computes t run outer (is_element t) {..<d'} S' (\<lambda>e. m e context xml) P) ms' Ps'
      \<and> (\<forall>e. is_element t e \<longrightarrow> (\<forall>P \<in> set Ps'. P e) \<longleftrightarrow> css_match env t base (rev toks @ pre) e)"
proof (induction toks arbitrary: ms d S Ps pre)
  case Nil
  then show ?case by auto
next
  case (Cons tok toks)
  show ?case
  proof (cases "token_relative tok")
    case (Some c)
    let ?P = "\<lambda>e. \<forall>P \<in> set Ps. P e"
    let ?m = "addCombinator t (elementMatcher ms) c False d"
    define S1 where "S1 = S(d := kept_result t c False ?P)"
    note next' = token_relative_next [OF Some]
    have S1: "\<forall>k < d. S1 k = S k" by (simp add: S1_def)
    have "computes t run outer (is_element t) {..<d} S1 (\<lambda>e. elementMatcher ms e context xml) ?P"
      by (rule elementMatcher_computes [OF computes_all_cong [OF Cons.prems(5) S1 order_refl] Cons.prems(4)])
    then have "computes t run outer (in_tree t) (insert d {..<d}) S1 (\<lambda>e. ?m e context xml) (combined t c False ?P)"
      by (rule addCombinator_computes) (use next' in \<open>auto simp: S1_def tried_def is_element_def\<close>)
    moreover have "insert d {..<d} = {..<Suc d}" by (auto simp: less_Suc_eq)
    ultimately have m: "computes t run outer (is_element t) {..<Suc d} S1 (\<lambda>e. ?m e context xml) (combined t c False ?P)"
      using computes_weaken is_element_in_tree by simp
    have meaning: "(\<forall>P \<in> set [combined t c False ?P]. P e) \<longleftrightarrow> css_match env t base (tok # pre) e" if e: "is_element t e" for e
    proof -
      have "is_element t a" if "a \<in> set (related t c False e)" for a
        using related_in_tree [OF is_element_in_tree [OF e] that] by (simp add: is_element_def tried_def)
      then show ?thesis using Some Cons.prems(6) combined_related [OF next', of t False ?P e] by (auto simp del: css_match.simps(1))
    qed
    have rest: "tokens_loop env t toks [?m] (Suc d) = (Made ms', d')" using Cons.prems(1) Some by simp
    have "S1 0 = fieldset_kept t" using Cons.prems(2,3) by (simp add: S1_def)
    then obtain S' Ps' where S': "\<forall>k < Suc d. S' k = S1 k" "Suc d \<le> d'" "ms' \<noteq> []"
        "list_all2 (\<lambda>m P. computes t run outer (is_element t) {..<d'} S' (\<lambda>e. m e context xml) P) ms' Ps'"
        "\<forall>e. is_element t e \<longrightarrow> (\<forall>P \<in> set Ps'. P e) \<longleftrightarrow> css_match env t base (rev toks @ tok # pre) e"
      using Cons.IH [OF rest _ _ _ _ meaning, of S1] m by (auto simp del: css_match.simps)
    have "\<forall>k < d. S' k = S k" using S'(1) S1 by simp
    then show ?thesis using S' by (intro exI [of _ S'] exI [of _ Ps']) auto
  next
    case None
    then obtain call m where call: "tk_kind tok = Filter call" "make_filter env t call = Made m"
        "tokens_loop env t toks (ms @ [m]) d = (Made ms', d')"
      using Cons.prems(1) by (auto split: token_kind.splits built.splits)
    have "computes t run outer (is_element t) {0} S (\<lambda>e. m e context xml) (filter_answer env t call)"
      by (rule make_filter_computes [of _ _ _ _ S, OF call(2) Cons.prems(3) ok])
    then have "computes t run outer (is_element t) {..<d} S (\<lambda>e. m e context xml) (filter_answer env t call)"
      by (rule computes_mono) (use Cons.prems(2) in auto)
    then have all: "list_all2 (\<lambda>m P. computes t run outer (is_element t) {..<d} S (\<lambda>e. m e context xml) P)
        (ms @ [m]) (Ps @ [filter_answer env t call])"
      using Cons.prems(5) by (simp add: list_all2_appendI)
    have "(\<forall>P \<in> set (Ps @ [filter_answer env t call]). P e) \<longleftrightarrow> css_match env t base (tok # pre) e"
      if "is_element t e" for e
      using Cons.prems(6) [OF that] None call(1) by auto
    from Cons.IH [OF call(3) Cons.prems(2,3) _ all this] show ?thesis by simp
  qed
qed

lemma matcherFromTokens_computes:
  assumes ok: "tree_ok t" and made: "matcherFromTokens env t toks d = (Made m, d')" and d: "0 < d" "S 0 = fieldset_kept t"
  shows "\<exists>S'. (\<forall>k < d. S' k = S k) \<and> d \<le> d'
    \<and> computes t run outer (is_element t) {..<d'} S' (\<lambda>e. m e context xml) (selects env t context xml outer toks)"
proof -
  obtain tok rest where toks: "toks = tok # rest" using made by (cases toks) (auto simp: matcherFromTokens_def)
  let ?lead = "token_relative tok"
  let ?c = "case ?lead of Some c \<Rightarrow> c | None \<Rightarrow> descendant"
  let ?body = "if ?lead \<noteq> None then rest else toks"
  obtain ms where ms: "tokens_loop env t ?body [base_matcher t (?lead \<noteq> None) ?c d] (d + 2) = (Made ms, d')" "m = elementMatcher ms"
    using made toks by (auto simp: matcherFromTokens_def Let_def split: prod.splits built.splits)
  have c: "cb_next ?c = None" using token_relative_next by (auto simp: descendant_def split: option.split)
  obtain S1 where S1: "\<forall>k < d. S1 k = S k" "computes t run outer (is_element t) {..<d + 2} S1 (\<lambda>e. base_matcher t (?lead \<noteq> None) ?c d e context xml)
      (\<lambda>e. \<not> ?lead \<noteq> None \<and> (xml \<or> differs context outer) \<or> (\<exists>a \<in> set (related t ?c True e). in_context context a))"
    using base_matcher_computes [where S = S and t = t and run = run and outer = outer and leading = "?lead \<noteq> None"
        and cx = "context" and xml = xml, OF c d(1)]
    by (elim exE conjE) (rule that)
  have reach: "(\<lambda>e. \<not> ?lead \<noteq> None \<and> (xml \<or> differs context outer) \<or> (\<exists>a \<in> set (related t ?c True e). in_context context a))
      = reaches t ?lead context xml outer"
    by (auto simp: reaches_def [abs_def])
  have "list_all2 (\<lambda>m P. computes t run outer (is_element t) {..<d + 2} S1 (\<lambda>e. m e context xml) P)
      [base_matcher t (?lead \<noteq> None) ?c d] [reaches t ?lead context xml outer]"
    using S1(2) unfolding reach by simp
  moreover have "S1 0 = fieldset_kept t" using S1(1) d by simp
  ultimately obtain S' Ps' where S': "\<forall>k < d + 2. S' k = S1 k" "d + 2 \<le> d'" "ms \<noteq> []"
      "list_all2 (\<lambda>m P. computes t run outer (is_element t) {..<d'} S' (\<lambda>e. m e context xml) P) ms Ps'"
      "\<forall>e. is_element t e \<longrightarrow> (\<forall>P \<in> set Ps'. P e) \<longleftrightarrow> css_match env t (reaches t ?lead context xml outer) (rev ?body @ []) e"
    using tokens_loop_computes [OF ok ms(1), of S1 run outer "context" xml "[reaches t ?lead context xml outer]"
        "reaches t ?lead context xml outer" "[]"] by auto
  have "computes t run outer (is_element t) {..<d'} S' (\<lambda>e. m e context xml) (\<lambda>e. \<forall>P \<in> set Ps'. P e)"
    unfolding ms(2) by (rule elementMatcher_computes [OF S'(4,3)])
  then have "computes t run outer (is_element t) {..<d'} S' (\<lambda>e. m e context xml) (selects env t context xml outer toks)"
    by (rule computes_eq) (use S'(5) toks in \<open>auto simp: selects_def Let_def\<close>)
  then show ?thesis using S'(1,2) S1(1) by (intro exI [of _ S']) auto
qed

lemma compile_groups_computes:
  assumes ok: "tree_ok t"
  shows "compile_groups env t groups d = (Made ms, d') \<Longrightarrow> 0 < d \<Longrightarrow> S 0 = fieldset_kept t
    \<Longrightarrow> \<exists>S'. (\<forall>k < d. S' k = S k) \<and> d \<le> d'
      \<and> list_all2 (\<lambda>m P. computes t run outer (is_element t) {..<d'} S' (\<lambda>e. m e context xml) P) ms
          (map (selects env t context xml outer) groups)"
proof (induction groups arbitrary: d S ms)
  case (Cons toks groups)
  obtain m ms2 d1 where m: "matcherFromTokens env t toks d = (Made m, d1)"
      "compile_groups env t groups d1 = (Made ms2, d')" "ms = m # ms2"
    using Cons.prems(1) by (auto split: prod.splits built.splits)
  obtain S1 where S1: "\<forall>k < d. S1 k = S k" "d \<le> d1"
      "computes t run outer (is_element t) {..<d1} S1 (\<lambda>e. m e context xml) (selects env t context xml outer toks)"
    using matcherFromTokens_computes [of _ _ _ _ _ _ S, OF ok m(1) Cons.prems(2,3)] by blast
  have "0 < d1" "S1 0 = fieldset_kept t" using S1(1,2) Cons.prems(2,3) by auto
  then obtain S' where S': "\<forall>k < d1. S' k = S1 k" "d1 \<le> d'"
      "list_all2 (\<lambda>m P. computes t run outer (is_element t) {..<d'} S' (\<lambda>e. m e context xml) P) ms2
        (map (selects env t context xml outer) groups)"
    using Cons.IH [OF m(2)] by blast
  have "list_all2 (\<lambda>m P. computes t run outer (is_element t) {..<d'} S' (\<lambda>e. m e context xml) P) [m]
      [selects env t context xml outer toks]"
    by (rule computes_all_cong [OF _ S'(1,2)]) (use S1(3) in simp)
  then show ?case using S' S1(1,2) m(3) by (intro exI [of _ S']) auto
qed auto

section \<open>Runs\<close>

text \<open>Between runs no cell is of a later run, which is all the next one needs.\<close>

definition between_runs :: "sel_state \<Rightarrow> bool" where
  "between_runs st \<longleftrightarrow>
     ss_outermost st = NoContext
     \<and> (\<forall>k a. ss_cache st k = Some a \<longrightarrow> a < length (ss_cells st) \<and> ce_run (ss_cells st ! a) \<le> ss_dirruns st)
     \<and> (\<forall>k v. ss_nth st k = Some v \<longrightarrow> fst v \<le> ss_dirruns st) \<and> (\<forall>k v. ss_nthLast st k = Some v \<longrightarrow> fst v \<le> ss_dirruns st)"

lemma between_runs_new: "between_runs sel_state_new"
  by (simp add: between_runs_def sel_state_new_def)

lemma run_starts:
  assumes "between_runs st"
  shows "settled t (ss_dirruns st + 1) outer D S (st\<lparr>ss_dirruns := ss_dirruns st + 1, ss_outermost := outer\<rparr>)"
  using assms by (fastforce simp: between_runs_def settled_def nth_ok_def)

lemma run_ends:
  assumes "settled t run outer D S st"
  shows "between_runs (st\<lparr>ss_dirruns := run, ss_outermost := NoContext\<rparr>)"
  using assms by (auto simp: between_runs_def settled_def nth_ok_def)

lemma any_matcher_computes:
  assumes "list_all2 (\<lambda>m P. computes t run outer Q D S (\<lambda>e. m e context xml) P) ms Ps"
  shows "computes t run outer Q D S (\<lambda>e. any_matcher ms e context xml) (\<lambda>e. \<exists>P \<in> set Ps. P e)"
  using assms
proof (induction rule: list_all2_induct)
  case (Cons m ms P Ps)
  show ?case
    unfolding computes_def
  proof (intro allI impI)
    fix elem st assume e: "Q elem" and st: "settled t run outer D S st"
    obtain st1 where st1: "m elem context xml st = (P elem, st1)" "settled t run outer D S st1" "frame D st st1"
      using computesE [OF Cons.hyps(1) e st] by blast
    obtain st2 where "any_matcher ms elem context xml st1 = (\<exists>P \<in> set Ps. P elem, st2)" "settled t run outer D S st2" "frame D st1 st2"
      using computesE [OF Cons.IH e st1(2)] by blast
    then show "\<exists>st'. any_matcher (m # ms) elem context xml st = (\<exists>P \<in> set (P # Ps). P elem, st') \<and> settled t run outer D S st' \<and> frame D st st'"
      using st1 frame_trans [OF st1(3)] by (cases "P elem") auto
  qed
qed (simp add: computes_def)

lemma elems_loop_computes:
  assumes m: "computes t run outer Q D S (\<lambda>e. any_matcher ms e context xml) P"
  shows "settled t run outer D S st \<Longrightarrow> \<forall>e \<in> set elems. Q e
    \<Longrightarrow> \<exists>st'. elems_loop ms context xml run elems results st = (results @ filter P elems, st') \<and> settled t run outer D S st'"
proof (induction elems arbitrary: results st)
  case (Cons e elems)
  obtain st1 where st1: "any_matcher ms e context xml st = (P e, st1)" "settled t run outer D S st1"
    using computesE [OF m _ Cons.prems(1), of e] Cons.prems(2) by (metis list.set_intros(1))
  then have "st1\<lparr>ss_dirruns := run\<rparr> = st1" by (simp add: settled_def)
  then show ?case using Cons.IH [OF st1(2), of "if P e then results @ [e] else results"] Cons.prems(2) st1(1)
    by (cases "P e") simp_all
qed simp

definition run_elems :: "dtree \<Rightarrow> node list option \<Rightarrow> node option \<Rightarrow> node list" where
  "run_elems t seed outermost =
     (case seed of Some s \<Rightarrow> s | None \<Rightarrow> (case outermost of Some c \<Rightarrow> getElementsByTagName t (js ''*'') c | None \<Rightarrow> []))"

lemma superMatcher_selects:
  assumes ok: "tree_ok t" and made: "compile env t groups d = (Made ms, d')" and d: "0 < d"
    and st: "between_runs st" and elems: "\<forall>e \<in> set (run_elems t seed outermost). is_element t e"
  shows "\<exists>st'. superMatcher t document ms seed c xml results outermost st
      = (results @ filter (\<lambda>e. \<exists>g \<in> set groups.
           selects env t (OneContext (case c of Some n \<Rightarrow> n | None \<Rightarrow> document)) xml (outermost_of document c outermost) g e)
         (run_elems t seed outermost), st') \<and> between_runs st'"
proof -
  let ?run = "ss_dirruns st + 1" and ?outer = "outermost_of document c outermost"
  let ?cx = "OneContext (case c of Some n \<Rightarrow> n | None \<Rightarrow> document)"
  obtain S where "list_all2 (\<lambda>m P. computes t ?run ?outer (is_element t) {..<d'} S (\<lambda>e. m e ?cx xml) P) ms
      (map (selects env t ?cx xml ?outer) (rev groups))"
    using compile_groups_computes [OF ok made [unfolded compile_def] d, of "\<lambda>_. fieldset_kept t" ?run ?outer ?cx xml] by blast
  from any_matcher_computes [OF this]
  have m: "computes t ?run ?outer (is_element t) {..<d'} S (\<lambda>e. any_matcher ms e ?cx xml)
      (\<lambda>e. \<exists>g \<in> set groups. selects env t ?cx xml ?outer g e)"
    by simp
  obtain st' where "elems_loop ms ?cx xml ?run (run_elems t seed outermost) results (st\<lparr>ss_dirruns := ?run, ss_outermost := ?outer\<rparr>)
      = (results @ filter (\<lambda>e. \<exists>g \<in> set groups. selects env t ?cx xml ?outer g e) (run_elems t seed outermost), st')"
      "settled t ?run ?outer {..<d'} S st'"
    using elems_loop_computes [OF m run_starts [OF st] elems] by blast
  moreover have "ss_outermost st = NoContext" using st by (simp add: between_runs_def)
  ultimately show ?thesis using run_ends by (auto simp: superMatcher_def Let_def run_elems_def)
qed

text \<open>The states the runs of a page lead to, whatever document each run finds.\<close>

inductive sel_reachable :: "sel_state \<Rightarrow> bool" where
  sel_start: "sel_reachable sel_state_new"
| sel_run: "sel_reachable st \<Longrightarrow> tree_ok t \<Longrightarrow> compile env t groups d = (Made ms, d') \<Longrightarrow> 0 < d
    \<Longrightarrow> list_all (is_element t) (run_elems t seed outermost)
    \<Longrightarrow> sel_reachable (snd (superMatcher t document ms seed c xml results outermost st))"

lemma sel_reachable_between: "sel_reachable st \<Longrightarrow> between_runs st"
proof (induction rule: sel_reachable.induct)
  case (sel_run st t env groups d ms d' seed outermost document c xml results)
  then have "\<forall>e \<in> set (run_elems t seed outermost). is_element t e" by (simp add: list_all_iff)
  then obtain rs st' where "superMatcher t document ms seed c xml results outermost st = (rs, st')" "between_runs st'"
    using superMatcher_selects [OF sel_run.hyps(2,3,4) sel_run.IH, of seed outermost document c xml results] by blast
  then show ?case by simp
qed (rule between_runs_new)

lemma tree_ok_check:
  "tree_ok t \<longleftrightarrow> nodeType t [] = 9 \<and> list_all (\<lambda>p. nodeType t p = 1 \<longrightarrow> nd_name (info t p) \<noteq> []) (descendants t [])"
proof -
  have all: "set (descendants t []) = {p. in_tree t p \<and> p \<noteq> []}" by (simp add: set_descendants in_ancestors)
  show ?thesis
  proof (cases "nodeType t [] = 9")
    case True
    then have "(\<forall>p. is_element t p \<longrightarrow> nd_name (info t p) \<noteq> []) \<longleftrightarrow> (\<forall>p \<in> set (descendants t []). nodeType t p = 1 \<longrightarrow> nd_name (info t p) \<noteq> [])"
      unfolding all is_element_def by force
    then show ?thesis by (simp add: tree_ok_def list_all_iff)
  qed (simp add: tree_ok_def)
qed

lemma getElementsByTagName_elements:
  assumes "in_tree t c" "e \<in> set (getElementsByTagName t tag c)"
  shows "is_element t e \<and> c \<in> set (ancestors e)"
  using assms by (auto simp: getElementsByTagName_def set_descendants is_element_def)

lemma sorted_getElementsByTagName: "sorted_wrt before (getElementsByTagName t tag c)"
  by (simp add: getElementsByTagName_def sorted_wrt_filter sorted_descendants)

end
