(* ===== verification/Selector_Properties.thy ===== *)
theory Selector_Properties
  imports Selector_Facts
begin

text \<open>The properties of the selector engine.\<close>

text \<open>
  C39. Whatever was run before, on whatever documents, and whatever its caches hold, a run of a compiled
  selector gives the elements that the selector describes: a group of it, read from the right, asks each
  filter of the element, related elements for its combinators, and the context at its left end. What the
  nodes keep of walks and counts never changes an answer.
\<close>

theorem cached_matching_is_declarative:
  assumes "sel_reachable st" "tree_ok t" "compile env t groups d = (Made ms, d')" "0 < d"
    "list_all (is_element t) (run_elems t seed outermost)"
  shows "fst (superMatcher t document ms seed c xml results outermost st)
    = results @ filter (\<lambda>e. \<exists>g \<in> set groups.
        selects env t (OneContext (case c of Some n \<Rightarrow> n | None \<Rightarrow> document)) xml (outermost_of document c outermost) g e)
      (run_elems t seed outermost)"
  using superMatcher_selects [OF assms(2-4) sel_reachable_between [OF assms(1)], of seed outermost document c xml results] assms(5)
  by (fastforce simp: list_all_iff)

definition sample_info :: "nat \<Rightarrow> string \<Rightarrow> (jstring \<times> jstring) list \<Rightarrow> node_info" where
  "sample_info ty name attrs = \<lparr>nd_type = ty, nd_name = js name, nd_attrs = attrs, nd_className = None, nd_kind = [], nd_form = False,
     nd_label = False, nd_disabled = None, nd_isDisabled = None, nd_checked = False, nd_selected = False, nd_href = None,
     nd_tabIndex = -1, nd_lang = [], nd_text = []\<rparr>"

text \<open>A document with a \<open>div\<close> of two paragraphs and a paragraph beside it.\<close>

definition sample_tree :: dtree where
  "sample_tree = DNode (sample_info 9 '''' [])
     [DNode (sample_info 1 ''HTML'' [])
        [DNode (sample_info 1 ''DIV'' []) [DNode (sample_info 1 ''P'' []) [], DNode (sample_info 1 ''P'' []) []],
         DNode (sample_info 1 ''P'' []) []]]"

definition sample_page :: page_env where
  "sample_page = \<lparr>pe_hash = None, pe_active = None, pe_hasFocus = False, pe_documentElement = Some [0]\<rparr>"

text \<open>\<open>div p:nth-child(2n+0)\<close>\<close>

definition sample_groups :: "sel_token list list" where
  "sample_groups = [[\<lparr>tk_value = js ''div'', tk_kind = Filter (FTAG (js ''div''))\<rparr>, \<lparr>tk_value = js '' '', tk_kind = Relative (js '' '')\<rparr>,
     \<lparr>tk_value = js ''p'', tk_kind = Filter (FTAG (js ''p''))\<rparr>,
     \<lparr>tk_value = js '':nth-child(even)'', tk_kind = Filter (FCHILD (js ''nth'') (js ''child'') (Some (2, 0)))\<rparr>]]"

definition sample_matchers :: "sel_fn list" where
  "sample_matchers = (case fst (compile sample_page sample_tree sample_groups 1) of Made ms \<Rightarrow> ms | _ \<Rightarrow> [])"

lemma sample_compiled: "compile sample_page sample_tree sample_groups 1 = (Made sample_matchers, 4)"
  by (simp add: sample_matchers_def compile_def sample_groups_def matcherFromTokens_def token_relative_def relative_def make_filter_def)

lemma sample_tree_ok: "tree_ok sample_tree"
  unfolding tree_ok_check by code_simp

lemma sample_run: "list_all (is_element sample_tree) (run_elems sample_tree None (Some []))"
  by code_simp

definition sample_again :: sel_state where
  "sample_again = snd (superMatcher sample_tree [] sample_matchers None (Some []) False [] (Some []) sel_state_new)"

lemma sample_again_reachable: "sel_reachable sample_again"
  unfolding sample_again_def
  by (rule sel_run [OF sel_start sample_tree_ok sample_compiled _ sample_run]) simp

theorem cached_matching_is_declarative_witness:
  "fst (superMatcher sample_tree [] sample_matchers None (Some []) False [] (Some []) sample_again) = [[1, 0, 0]]"
proof -
  have "fst (superMatcher sample_tree [] sample_matchers None (Some []) False [] (Some []) sample_again)
    = [] @ filter (\<lambda>e. \<exists>g \<in> set sample_groups. selects sample_page sample_tree
        (OneContext (case Some [] of Some n \<Rightarrow> n | None \<Rightarrow> [])) False (outermost_of [] (Some []) (Some [])) g e)
      (run_elems sample_tree None (Some []))"
    by (rule cached_matching_is_declarative [OF sample_again_reachable sample_tree_ok sample_compiled _ sample_run]) simp
  also have "\<dots> = [[1, 0, 0]]" by code_simp
  finally show ?thesis .
qed

text \<open>
  C40. Without a seed, what a run gives are elements of the document below the outermost context, each once
  and in the order of the document.
\<close>

theorem selected_elements_are_in_document_order:
  assumes "sel_reachable st" "tree_ok t" "compile env t groups d = (Made ms, d')" "0 < d" "in_tree t root"
  shows "\<exists>found. fst (superMatcher t document ms None c xml [] (Some root) st) = found
    \<and> list_all (\<lambda>e. is_element t e \<and> root \<in> set (ancestors e)) found \<and> sorted_wrt before found \<and> distinct found"
proof -
  have "\<forall>e \<in> set (run_elems t None (Some root)). is_element t e \<and> root \<in> set (ancestors e)"
    using getElementsByTagName_elements [OF assms(5)] by (simp add: run_elems_def)
  moreover have "sorted_wrt before (run_elems t None (Some root))"
    by (simp add: run_elems_def sorted_getElementsByTagName)
  moreover obtain P st' where "superMatcher t document ms None c xml [] (Some root) st = ([] @ filter P (run_elems t None (Some root)), st')"
    using superMatcher_selects [OF assms(2-4) sel_reachable_between [OF assms(1)], of None "Some root" document c xml "[]"] calculation(1)
    by blast
  ultimately show ?thesis
    by (auto simp: list_all_iff sorted_wrt_filter intro: sorted_before_distinct)
qed

theorem selected_elements_are_in_document_order_witness:
  "\<exists>found. fst (superMatcher sample_tree [] sample_matchers None (Some []) False [] (Some [0]) sample_again) = found
    \<and> list_all (\<lambda>e. is_element sample_tree e \<and> [0] \<in> set (ancestors e)) found \<and> sorted_wrt before found \<and> distinct found"
  by (rule selected_elements_are_in_document_order [OF sample_again_reachable sample_tree_ok sample_compiled]) (simp, code_simp)

end
