(* ===== verification/Check_Digits.thy ===== *)
theory Check_Digits
  imports Validate_Result
begin

text \<open>
  The validation methods that compute a check digit, in
  \<open>wwwroot/lib/jquery-validation/dist/additional-methods.js\<close>, loop by loop. A character that is not
  a digit makes a sum \<open>NaN\<close>, as in the code. \<open>upper\<close> is \<open>toUpperCase\<close>.
\<close>

section \<open>Payment\<close>

definition abaRoutingNumber :: "jstring \<Rightarrow> method_result" where
  "abaRoutingNumber value =
     (if length value \<noteq> 9 then RBool False
      else
        let token = (\<lambda>i. parseInt (charAt value i));
            checksum = foldl (\<lambda>s i. num_add s
              (num_add (num_add (num_mul (token i) (Some 3)) (num_mul (token (i + 1)) (Some 7))) (token (i + 2))))
              (Some 0) [0, 3, 6]
        in RBool (checksum \<noteq> Some 0 \<and> num_eq (num_mod checksum 10) (Some 0)))"

text \<open>Luhn's sum, from the last digit backwards; \<open>bEven\<close> alternates.\<close>

fun luhn_loop :: "bool \<Rightarrow> jstring \<Rightarrow> jnum \<Rightarrow> jnum" where
  "luhn_loop bEven [] nCheck = nCheck"
| "luhn_loop bEven (cDigit # s) nCheck =
     (let nDigit = parseInt [cDigit];
          nDigit = (if bEven then
                      (let n2 = num_mul nDigit (Some 2) in if num_rel (>) n2 9 then num_sub n2 (Some 9) else n2)
                    else nDigit)
      in luhn_loop (\<not> bEven) s (num_add nCheck nDigit))"

definition creditcard :: "bool \<Rightarrow> jstring \<Rightarrow> method_result" where
  "creditcard opt value =
     (if opt then RMismatch
      else if regex_test False ''[^0-9 ~-]+'' value then RBool False
      else
        let value = remove_units (\<lambda>c. \<not> is_digit c) value in
        if length value < 13 \<or> length value > 19 then RBool False
        else RBool (num_eq (num_mod (luhn_loop False (rev value) (Some 0)) 10) (Some 0)))"

text \<open>The types of card a page accepts, as the properties of the parameter that are truthy.\<close>

record card_types =
  ct_mastercard :: bool
  ct_visa :: bool
  ct_amex :: bool
  ct_dinersclub :: bool
  ct_enroute :: bool
  ct_discover :: bool
  ct_jcb :: bool
  ct_unknown :: bool
  ct_all :: bool

unbundle bit_operations_syntax

definition valid_types :: "card_types \<Rightarrow> int" where
  "valid_types param =
     (if ct_all param then 0x0001 OR 0x0002 OR 0x0004 OR 0x0008 OR 0x0010 OR 0x0020 OR 0x0040 OR 0x0080
      else (if ct_mastercard param then 0x0001 else 0) OR (if ct_visa param then 0x0002 else 0)
        OR (if ct_amex param then 0x0004 else 0) OR (if ct_dinersclub param then 0x0008 else 0)
        OR (if ct_enroute param then 0x0010 else 0) OR (if ct_discover param then 0x0020 else 0)
        OR (if ct_jcb param then 0x0040 else 0) OR (if ct_unknown param then 0x0080 else 0))"

definition creditcardtypes :: "card_types \<Rightarrow> jstring \<Rightarrow> method_result" where
  "creditcardtypes param value =
     (if regex_test False ''[^0-9~-]+'' value then RBool False
      else
        let value = remove_units (\<lambda>c. \<not> is_digit c) value;
            validTypes = valid_types param;
            has = (\<lambda>mask. validTypes AND mask \<noteq> 0);
            re = (\<lambda>p. regex_test False p value)
        in
        if has 0x0001 \<and> (re ''^(5[12345])'' \<or> re ''^(2[234567])'') then RBool (length value = 16)
        else if has 0x0002 \<and> re ''^(4)'' then RBool (length value = 16)
        else if has 0x0004 \<and> re ''^(3[47])'' then RBool (length value = 15)
        else if has 0x0008 \<and> re ''^(3(0[012345]|[68]))'' then RBool (length value = 14)
        else if has 0x0010 \<and> re ''^(2(014|149))'' then RBool (length value = 15)
        else if has 0x0020 \<and> re ''^(6011)'' then RBool (length value = 16)
        else if has 0x0040 \<and> re ''^(3)'' then RBool (length value = 16)
        else if has 0x0040 \<and> re ''^(2131|1800)'' then RBool (length value = 15)
        else RBool (has 0x0080))"

section \<open>Bank accounts\<close>

definition bankaccountNL :: "bool \<Rightarrow> jstring \<Rightarrow> method_result" where
  "bankaccountNL opt value =
     (if opt then RBool True
      else if \<not> regex_test False ''^[0-9]{9}|([0-9]{2} ){3}[0-9]{3}$'' value then RBool False
      else
        let account = remove_units (\<lambda>c. c = 32) value;
            len = length account;
            acc = for_sum 0 len (\<lambda>pos. num_mul (Some (int (len - pos))) (char_number (substring account pos (pos + 1))))
        in RBool (num_eq (num_mod acc 11) (Some 0)))"

definition giroaccountNL :: "bool \<Rightarrow> jstring \<Rightarrow> method_result" where
  "giroaccountNL opt value = optional_or opt (RBool (regex_test False ''^[0-9]{1,7}$'' value))"

definition bankorgiroaccountNL :: "bool \<Rightarrow> jstring \<Rightarrow> method_result" where
  "bankorgiroaccountNL opt value =
     optional_or opt (if truthy (bankaccountNL opt value) then bankaccountNL opt value else giroaccountNL opt value)"

section \<open>Brazil\<close>

text \<open>The punctuation that three of the methods strip.\<close>

definition special_units :: jstring where
  "special_units = js ''~!@#$%^&*()_+=`{}[]-|'' @ [92] @ js '':;'' @ [39] @ js ''<>,./? ''"

definition strip_special :: "jstring \<Rightarrow> jstring" where
  "strip_special value = remove_units (\<lambda>c. c \<in> set special_units) value"

definition cnhBR :: "jstring \<Rightarrow> method_result" where
  "cnhBR value =
     (let value = strip_special value in
      if length value \<noteq> 11 then RBool False
      else if replicate 11 (hd value) = value then RBool False
      else
        let sum1 = for_sum 0 9 (\<lambda>i. num_mul (char_number (charAt value i)) (Some (9 - int i)));
            firstCN = num_mod sum1 11;
            dsc = (if num_rel (\<ge>) firstCN 10 then 2 else 0);
            firstCN = (if num_rel (\<ge>) firstCN 10 then Some 0 else firstCN);
            sum2 = for_sum 0 9 (\<lambda>i. num_mul (char_number (charAt value i)) (Some (1 + int i)));
            secondCN = num_mod sum2 11;
            secondCN = (if num_rel (\<ge>) secondCN 10 then Some 0 else num_sub secondCN (Some dsc))
        in RBool (js_of_num firstCN @ js_of_num secondCN = last_chars 2 value))"

text \<open>The sum of a CNPJ: the factor runs down from \<open>pos\<close> to 2 and starts over at 9.\<close>

fun cnpj_soma :: "int \<Rightarrow> jstring \<Rightarrow> jnum \<Rightarrow> jnum" where
  "cnpj_soma pos [] soma = soma"
| "cnpj_soma pos (c # numeros) soma =
     cnpj_soma (if pos - 1 < 2 then 9 else pos - 1) numeros (num_add soma (num_mul (char_number [c]) (Some pos)))"

definition cnpj_resultado :: "jnum \<Rightarrow> jnum" where
  "cnpj_resultado soma = (if num_rel (<) (num_mod soma 11) 2 then Some 0 else num_sub (Some 11) (num_mod soma 11))"

definition cnpjBR :: "bool \<Rightarrow> jstring \<Rightarrow> method_result" where
  "cnpjBR opt value =
     (if opt then RBool True
      else
        let value = remove_units (\<lambda>c. \<not> is_digit c) value in
        if length value \<noteq> 14 then RBool False
        else if \<exists>d \<in> set [48..<58]. value = replicate 14 d then RBool False
        else
          let tamanho = length value - 2;
              digitos = substr_from value tamanho;
              resultado = cnpj_resultado (cnpj_soma (int tamanho - 7) (substring value 0 tamanho) (Some 0))
          in if \<not> num_eq resultado (parseInt (charAt digitos 0)) then RBool False
             else
               let tamanho = tamanho + 1;
                   resultado = cnpj_resultado (cnpj_soma (int tamanho - 7) (substring value 0 tamanho) (Some 0))
               in RBool (num_eq resultado (parseInt (charAt digitos 1))))"

definition cpf_checkResult :: "jnum \<Rightarrow> jnum \<Rightarrow> bool" where
  "cpf_checkResult acc cn =
     (let result = num_mod (num_mul acc (Some 10)) 11;
          result = (if result = Some 10 \<or> result = Some 11 then Some 0 else result)
      in num_eq result cn)"

definition cpfBR :: "bool \<Rightarrow> jstring \<Rightarrow> method_result" where
  "cpfBR opt value =
     (if opt then RBool True
      else
        let value = strip_special value in
        if length value \<noteq> 11 then RBool False
        else
          let firstCN = parseInt (substring value 9 10);
              secondCN = parseInt (substring value 10 11)
          in if value = [] \<or> (\<exists>d \<in> set [48..<58]. value = replicate 11 d) then RBool False
             else if cpf_checkResult (for_sum 1 10 (\<lambda>i. num_mul (parseInt (substring value (i - 1) i)) (Some (11 - int i)))) firstCN
             then RBool (cpf_checkResult (for_sum 1 11 (\<lambda>i. num_mul (parseInt (substring value (i - 1) i)) (Some (12 - int i)))) secondCN)
             else RBool False)"

text \<open>The sum of a NIS: the digits of a number from its last one, with factors 2 to 9, 2 and 3.\<close>

fun nis_sum :: "nat list \<Rightarrow> jnum \<Rightarrow> jnum \<Rightarrow> jnum" where
  "nis_sum [] number acc = acc"
| "nis_sum (count # cs) number acc =
     (let multiplier = (if count = 10 then 2 else if count = 11 then 3 else int count)
      in nis_sum cs (map_option (\<lambda>n. n div 10) number) (num_add acc (num_mul (num_mod number 10) (Some multiplier))))"

definition nisBR :: "jstring \<Rightarrow> method_result" where
  "nisBR value =
     (let value = strip_special value in
      if length value \<noteq> 11 then RBool False
      else
        let cn = parseInt (substring value 10 11);
            number = parseInt (substring value 0 10);
            dv = num_mod (nis_sum [2..<12] number (Some 0)) 11;
            dv = (if num_rel (>) dv 1 then num_sub (Some 11) dv else Some 0)
        in RBool (num_eq cn dv))"

section \<open>Spain and Poland\<close>

text \<open>One pass over the digits of the number: doubled at the even indexes, which the code calls odd.\<close>

fun cif_loop :: "nat \<Rightarrow> jstring \<Rightarrow> jnum \<Rightarrow> jnum \<Rightarrow> jnum" where
  "cif_loop i [] odd_sum even_sum = num_add even_sum odd_sum"
| "cif_loop i (c # number) odd_sum even_sum =
     (let n = parseInt [c] in
      if i mod 2 = 0 then
        (let n = num_mul n (Some 2)
         in cif_loop (Suc i) number (num_add odd_sum (if num_rel (<) n 10 then n else num_sub n (Some 9))) even_sum)
      else cif_loop (Suc i) number odd_sum (num_add even_sum n))"

definition cifES :: "bool \<Rightarrow> jstring \<Rightarrow> method_result" where
  "cifES opt value =
     (if opt then RBool True
      else
        let letter = substring value 0 1; number = substring value 1 8; control = substring value 8 9 in
        if length value \<noteq> 9 \<or> \<not> regex_test True ''^([ABCDEFGHJKLMNPQRSUVW])(~d{7})([0-9A-J])$'' value then RBool False
        else
          let all_sum = cif_loop 0 number (Some 0) (Some 0);
              control_digit = js_of_num (num_sub (Some 10) (num_mod all_sum 10));
              control_digit = (if num_rel (>) (parseInt control_digit) 9 then js ''0'' else control_digit);
              control_letter = substr (js ''JABCDEFGHI'') (case parseInt control_digit of None \<Rightarrow> 0 | Some n \<Rightarrow> nat n) 1
          in if regex_test False ''[ABEH]'' letter then RBool (control = control_digit)
             else if regex_test False ''[KPQS]'' letter then RBool (control = control_letter)
             else RBool (control = control_digit \<or> control = control_letter))"

text \<open>\<open>s.charAt(n)\<close> reads \<open>NaN\<close> as position zero.\<close>

definition charAt_num :: "jstring \<Rightarrow> jnum \<Rightarrow> jstring" where
  "charAt_num s n = (case n of None \<Rightarrow> charAt s 0 | Some i \<Rightarrow> if i < 0 then [] else charAt s (nat i))"

definition nie_first :: "jstring \<Rightarrow> jstring" where
  "nie_first value = (case value of [] \<Rightarrow> []
     | c # s \<Rightarrow> if c = unit_of CHR ''X'' then unit_of CHR ''0'' # s
         else if c = unit_of CHR ''Y'' then unit_of CHR ''1'' # s
         else if c = unit_of CHR ''Z'' then unit_of CHR ''2'' # s else c # s)"

definition nieES :: "(jstring \<Rightarrow> jstring) \<Rightarrow> bool \<Rightarrow> jstring \<Rightarrow> method_result" where
  "nieES upper opt value =
     (if opt then RBool True
      else
        let letter = upper (substr_from value (length value - 1));
            value = upper value
        in if length value > 10 \<or> length value < 9
             \<or> \<not> regex_test True ''^[MXYZ]{1}[0-9]{7,8}[TRWAGMYFPDXBNJZSQVHLCKET]{1}$'' value then RBool False
           else
             let value = nie_first value;
                 number = (if length value = 9 then substr value 0 8 else substr value 0 9)
             in RBool (charAt_num (js ''TRWAGMYFPDXBNJZSQVHLCKET'') (num_mod (parseInt number) 23) = letter))"

definition nif_letters :: jstring where
  "nif_letters = js ''TRWAGMYFPDXBNJZSQVHLCKE''"

text \<open>\<open>Number(s)\<close> of a string of digits, which is what the format tests leave of it.\<close>

definition digits_number :: "jstring \<Rightarrow> jnum" where
  "digits_number s = (if s = [] then Some 0 else if list_all is_digit s then Some (digits_value 0 s) else None)"

definition nifES :: "(jstring \<Rightarrow> jstring) \<Rightarrow> bool \<Rightarrow> jstring \<Rightarrow> method_result" where
  "nifES upper opt value =
     (if opt then RBool True
      else
        let value = upper value in
        if \<not> regex_test False ''((^[A-Z]{1}[0-9]{7}[A-Z0-9]{1}$|^[T]{1}[A-Z0-9]{8}$)|^[0-9]{8}[A-Z]{1}$)'' value then RBool False
        else if regex_test False ''^[0-9]{8}[A-Z]{1}$'' value then
          RBool (charAt_num nif_letters (num_mod (digits_number (substring value 8 0)) 23) = charAt value 8)
        else if regex_test False ''^[KLM]{1}'' value then
          RBool (charAt value 8 = charAt_num nif_letters (num_mod (digits_number (substring value 8 1)) 23))
        else RBool False)"

definition nip_steps :: "int list" where
  "nip_steps = [6, 5, 7, 2, 3, 4, 5, 6, 7]"

definition nipPL :: "jstring \<Rightarrow> method_result" where
  "nipPL value =
     (let value = remove_units (\<lambda>c. \<not> is_digit c) value in
      if length value \<noteq> 10 then RBool False
      else
        let intSum = for_sum 0 9 (\<lambda>i. num_mul (Some (nip_steps ! i)) (char_number (charAt value i)));
            int2 = num_mod intSum 11;
            intControlNr = (if int2 = Some 10 then Some 0 else int2)
        in RBool (num_eq intControlNr (parseInt (charAt value 9))))"

section \<open>Vehicles\<close>

definition vin_LL :: "jstring list" where
  "vin_LL = map (\<lambda>c. [c]) (js ''ABCDEFGHJKLMNPRSTUVWXYZ'')"

definition vin_VL :: "int list" where
  "vin_VL = [1, 2, 3, 4, 5, 6, 7, 8, 1, 2, 3, 4, 5, 7, 9, 2, 3, 4, 5, 6, 7, 8, 9]"

definition vin_FL :: "int list" where
  "vin_FL = [8, 7, 6, 5, 4, 3, 2, 10, 0, 9, 8, 7, 6, 5, 4, 3, 2]"

text \<open>One character: its upper case if it is not a number, and its value, undefined for I, O and Q.\<close>

definition vin_unit :: "(jstring \<Rightarrow> jstring) \<Rightarrow> jstring \<Rightarrow> jstring \<times> jnum" where
  "vin_unit upper d =
     (if char_number d = None then
        let d = upper d in (d, map_of (zip vin_LL vin_VL) d)
      else (d, parseInt d))"

definition vinUS :: "(jstring \<Rightarrow> jstring) \<Rightarrow> jstring \<Rightarrow> method_result" where
  "vinUS upper v =
     (if length v \<noteq> 17 then RBool False
      else
        let unit = (\<lambda>i. vin_unit upper (substring v i (i + 1)));
            cdv = (if fst (unit 8) = js ''X'' then Some 10 else snd (unit 8));
            rs = for_sum 0 17 (\<lambda>i. num_mul (snd (unit i)) (Some (vin_FL ! i)));
            cd = num_mod rs 11
        in RBool (num_eq cd cdv))"

end
