(* ===== verification/Iban.thy ===== *)
theory Iban
  imports Check_Digits
begin

text \<open>
  The \<open>iban\<close> method of \<open>additional-methods.js\<close>: the format of the country, and the remainder by 97 of
  a number too long for the machine, taken digit by digit on its text. \<open>upper\<close> is \<open>toUpperCase\<close>.
\<close>

definition bbancountrypatterns :: "(jstring \<times> string) list" where
  "bbancountrypatterns =
    [(js ''AL'', ''~d{8}[~dA-Z]{16}''),
     (js ''AD'', ''~d{8}[~dA-Z]{12}''),
     (js ''AT'', ''~d{16}''),
     (js ''AZ'', ''[~dA-Z]{4}~d{20}''),
     (js ''BE'', ''~d{12}''),
     (js ''BH'', ''[A-Z]{4}[~dA-Z]{14}''),
     (js ''BA'', ''~d{16}''),
     (js ''BR'', ''~d{23}[A-Z][~dA-Z]''),
     (js ''BG'', ''[A-Z]{4}~d{6}[~dA-Z]{8}''),
     (js ''CR'', ''~d{17}''),
     (js ''HR'', ''~d{17}''),
     (js ''CY'', ''~d{8}[~dA-Z]{16}''),
     (js ''CZ'', ''~d{20}''),
     (js ''DK'', ''~d{14}''),
     (js ''DO'', ''[A-Z]{4}~d{20}''),
     (js ''EE'', ''~d{16}''),
     (js ''FO'', ''~d{14}''),
     (js ''FI'', ''~d{14}''),
     (js ''FR'', ''~d{10}[~dA-Z]{11}~d{2}''),
     (js ''GE'', ''[~dA-Z]{2}~d{16}''),
     (js ''DE'', ''~d{18}''),
     (js ''GI'', ''[A-Z]{4}[~dA-Z]{15}''),
     (js ''GR'', ''~d{7}[~dA-Z]{16}''),
     (js ''GL'', ''~d{14}''),
     (js ''GT'', ''[~dA-Z]{4}[~dA-Z]{20}''),
     (js ''HU'', ''~d{24}''),
     (js ''IS'', ''~d{22}''),
     (js ''IE'', ''[~dA-Z]{4}~d{14}''),
     (js ''IL'', ''~d{19}''),
     (js ''IT'', ''[A-Z]~d{10}[~dA-Z]{12}''),
     (js ''KZ'', ''~d{3}[~dA-Z]{13}''),
     (js ''KW'', ''[A-Z]{4}[~dA-Z]{22}''),
     (js ''LV'', ''[A-Z]{4}[~dA-Z]{13}''),
     (js ''LB'', ''~d{4}[~dA-Z]{20}''),
     (js ''LI'', ''~d{5}[~dA-Z]{12}''),
     (js ''LT'', ''~d{16}''),
     (js ''LU'', ''~d{3}[~dA-Z]{13}''),
     (js ''MK'', ''~d{3}[~dA-Z]{10}~d{2}''),
     (js ''MT'', ''[A-Z]{4}~d{5}[~dA-Z]{18}''),
     (js ''MR'', ''~d{23}''),
     (js ''MU'', ''[A-Z]{4}~d{19}[A-Z]{3}''),
     (js ''MC'', ''~d{10}[~dA-Z]{11}~d{2}''),
     (js ''MD'', ''[~dA-Z]{2}~d{18}''),
     (js ''ME'', ''~d{18}''),
     (js ''NL'', ''[A-Z]{4}~d{10}''),
     (js ''NO'', ''~d{11}''),
     (js ''PK'', ''[~dA-Z]{4}~d{16}''),
     (js ''PS'', ''[~dA-Z]{4}~d{21}''),
     (js ''PL'', ''~d{24}''),
     (js ''PT'', ''~d{21}''),
     (js ''RO'', ''[A-Z]{4}[~dA-Z]{16}''),
     (js ''SM'', ''[A-Z]~d{10}[~dA-Z]{12}''),
     (js ''SA'', ''~d{2}[~dA-Z]{18}''),
     (js ''RS'', ''~d{18}''),
     (js ''SK'', ''~d{20}''),
     (js ''SI'', ''~d{15}''),
     (js ''ES'', ''~d{20}''),
     (js ''SE'', ''~d{20}''),
     (js ''CH'', ''~d{5}[~dA-Z]{12}''),
     (js ''TN'', ''~d{20}''),
     (js ''TR'', ''~d{5}[~dA-Z]{17}''),
     (js ''AE'', ''~d{3}~d{16}''),
     (js ''GB'', ''[A-Z]{4}~d{14}''),
     (js ''VG'', ''[~dA-Z]{4}~d{16}'')]"

text \<open>The country's format, which only a known country has.\<close>

definition country_format_ok :: "jstring \<Rightarrow> bool" where
  "country_format_ok iban =
     (case map_of bbancountrypatterns (substring iban 0 2) of
        None \<Rightarrow> True
      | Some bbanpattern \<Rightarrow> regex_test False (''^[A-Z]{2}~d{2}'' @ bbanpattern @ ''$'') iban)"

definition iban_alphabet :: jstring where
  "iban_alphabet = js ''0123456789ABCDEFGHIJKLMNOPQRSTUVWXYZ''"

definition js_of_int :: "int \<Rightarrow> jstring" where
  "js_of_int n = js_of_num (Some n)"

text \<open>The digits the text stands for, from the first one that is not a leading zero.\<close>

fun iban_digits :: "bool \<Rightarrow> jstring \<Rightarrow> jstring" where
  "iban_digits leadingZeroes [] = []"
| "iban_digits leadingZeroes (c # s) =
     (let leadingZeroes = (if c \<noteq> 48 then False else leadingZeroes)
      in (if leadingZeroes then [] else js_of_int (index_of_char iban_alphabet c)) @ iban_digits leadingZeroes s)"

text \<open>
  The remainder so far is the empty text or a number. \<open>cOperator\<close> is its text followed by the next
  character, read as a number: that is \<open>NaN\<close> unless the character is a digit (which is the only other
  character but a minus sign that \<open>iban_digits\<close> leaves).
\<close>

definition iban_step :: "jnum option \<Rightarrow> code_unit \<Rightarrow> jnum option" where
  "iban_step cRest cChar =
     Some (case cRest of
        None \<Rightarrow> num_mod (digits_number [cChar]) 97
      | Some rest \<Rightarrow> num_mod (digits_number (js_of_num rest @ [cChar])) 97)"

definition iban :: "(jstring \<Rightarrow> jstring) \<Rightarrow> bool \<Rightarrow> jstring \<Rightarrow> method_result" where
  "iban upper opt value =
     (if opt then RBool True
      else
        let iban = upper (remove_units (\<lambda>c. c = 32) value) in
        if length iban < 5 then RBool False
        else if \<not> country_format_ok iban then RBool False
        else
          let ibancheck = substring iban 4 (length iban) @ substring iban 0 4;
              ibancheckdigits = iban_digits True ibancheck
          in RBool (foldl iban_step None ibancheckdigits = Some (Some 1)))"

section \<open>The number the text stands for\<close>

definition alnum :: "code_unit \<Rightarrow> bool" where
  "alnum c \<longleftrightarrow> is_digit c \<or> is_upper c"

definition alnum_value :: "code_unit \<Rightarrow> int" where
  "alnum_value c = (if is_digit c then int c - 48 else int c - 55)"

fun iban_number :: "int \<Rightarrow> jstring \<Rightarrow> int" where
  "iban_number acc [] = acc"
| "iban_number acc (c # s) =
     iban_number (if is_digit c then 10 * acc + alnum_value c else 100 * acc + alnum_value c) s"

lemma index_alphabet:
  assumes "alnum c"
  shows "index_of_char iban_alphabet c = alnum_value c"
proof -
  have "list_all (\<lambda>c. index_of_char iban_alphabet c = alnum_value c) ([48..<58] @ [65..<91])" by code_simp
  moreover have "c \<in> set ([48..<58] @ [65..<91])" using assms by (auto simp: alnum_def is_digit_def is_upper_def simp del: upt_conv_Cons upt_rec_numeral)
  ultimately show ?thesis unfolding list_all_iff by blast
qed

lemma digits_number_Some: "s \<noteq> [] \<Longrightarrow> list_all is_digit s \<Longrightarrow> digits_number s = Some (digits_value 0 s)"
  by (simp add: digits_number_def)

lemma digits_value_acc: "digits_value acc s = acc * 10 ^ length s + digits_value 0 s"
proof (induction s arbitrary: acc)
  case (Cons c s)
  show ?case
    using Cons [of "10 * acc + digit_value c"] Cons [of "digit_value c"] by (simp add: algebra_simps)
qed simp

text \<open>Folding the step over digits is the remainder of the number they write.\<close>

lemma fold_step_from:
  assumes "list_all is_digit s" "0 \<le> r" "r < 97" "r = a mod 97"
  shows "foldl iban_step (Some (Some r)) s = Some (Some (digits_value a s mod 97))"
  using assms
proof (induction s arbitrary: r a)
  case (Cons c s)
  have "list_all is_digit (js_of_num (Some r) @ [c])" "js_of_num (Some r) @ [c] \<noteq> []"
    using Cons.prems decimal_digits [of "nat r"] by (auto simp: js_of_num_def)
  then have "iban_step (Some (Some r)) c = Some (Some (digits_value 0 (js_of_num (Some r) @ [c]) mod 97))"
    by (simp add: iban_step_def digits_number_Some)
  also have "digits_value 0 (js_of_num (Some r) @ [c]) = 10 * r + digit_value c"
    using Cons.prems(2) by (simp add: js_of_num_def digits_value_app digits_value_decimal)
  finally have step: "iban_step (Some (Some r)) c = Some (Some ((10 * r + digit_value c) mod 97))" .
  have "(10 * r + digit_value c) mod 97 = (10 * a + digit_value c) mod 97"
    unfolding Cons.prems(4) by (metis mod_add_left_eq mod_mult_right_eq)
  then show ?case using Cons.IH [of "(10 * r + digit_value c) mod 97" "10 * a + digit_value c"] Cons.prems(1) step by simp
qed simp

lemma fold_step:
  assumes "list_all is_digit s" "s \<noteq> []"
  shows "foldl iban_step None s = Some (Some (digits_value 0 s mod 97))"
proof (cases s)
  case (Cons c t)
  have "iban_step None c = Some (Some (digit_value c mod 97))"
    using assms Cons by (simp add: iban_step_def digits_number_def)
  then show ?thesis using fold_step_from [of t "digit_value c mod 97" "digit_value c"] assms Cons by simp
qed (use assms in simp)

lemma digits_of_alnum:
  assumes "alnum c"
  shows "js_of_int (index_of_char iban_alphabet c) = decimal (nat (alnum_value c))" "0 \<le> alnum_value c"
  using assms by (auto simp: index_alphabet js_of_int_def js_of_num_def alnum_value_def alnum_def is_digit_def is_upper_def)

lemma decimal_two: "10 \<le> n \<Longrightarrow> n < 100 \<Longrightarrow> length (decimal n) = 2"
  using decimal.simps [of n] decimal.simps [of "n div 10"] by auto

lemma digits_value_step:
  assumes "alnum c"
  shows "digits_value acc (decimal (nat (alnum_value c))) = (if is_digit c then 10 * acc + alnum_value c else 100 * acc + alnum_value c)"
proof -
  have "length (decimal (nat (alnum_value c))) = (if is_digit c then 1 else 2)"
  proof (cases "is_digit c")
    case True
    then have "nat (alnum_value c) < 10" by (auto simp: alnum_value_def is_digit_def)
    then show ?thesis using True by (simp add: decimal_less_10)
  next
    case False
    then have "10 \<le> nat (alnum_value c)" "nat (alnum_value c) < 100" using assms by (auto simp: alnum_def alnum_value_def is_upper_def)
    then show ?thesis using False by (simp add: decimal_two)
  qed
  then show ?thesis
    using digits_value_acc [of acc "decimal (nat (alnum_value c))"] digits_of_alnum(2) [OF assms]
    by (simp add: digits_value_decimal)
qed

lemma iban_digits_all:
  assumes "list_all alnum s"
  shows "list_all is_digit (iban_digits b s)"
  using assms by (induction b s rule: iban_digits.induct) (auto simp: Let_def digits_of_alnum decimal_digits)

lemma iban_digits_False:
  assumes "list_all alnum s"
  shows "digits_value acc (iban_digits False s) = iban_number acc s"
  using assms
  by (induction s arbitrary: acc) (auto simp: Let_def digits_of_alnum digits_value_app digits_value_step)

lemma iban_digits_True:
  assumes "list_all alnum s"
  shows "digits_value 0 (iban_digits True s) = iban_number 0 s"
  using assms
proof (induction s)
  case (Cons c s)
  show ?case
  proof (cases "c = 48")
    case True
    then show ?thesis using Cons by (simp add: is_digit_def alnum_value_def)
  next
    case False
    then show ?thesis
      using Cons.prems digits_value_step [of c 0] iban_digits_False [of s]
      by (simp add: digits_of_alnum digits_value_app)
  qed
qed simp

text \<open>The method is the arithmetic test, and the format of the country.\<close>

lemma iban_checks_remainder:
  assumes "list_all alnum s" "upper (remove_units (\<lambda>c. c = 32) value) = s"
  shows "iban upper False value =
     RBool (5 \<le> length s \<and> country_format_ok s \<and> iban_number 0 (drop 4 s @ take 4 s) mod 97 = 1)"
proof (cases "5 \<le> length s \<and> country_format_ok s")
  case True
  have cut: "substring s 4 (length s) @ substring s 0 4 = drop 4 s @ take 4 s"
    using True by (simp add: substring_def)
  let ?r = "drop 4 s @ take 4 s"
  have r: "list_all alnum ?r" using assms(1) by (auto simp: list_all_iff dest: in_set_dropD in_set_takeD)
  have "foldl iban_step None (iban_digits True ?r) = Some (Some 1) \<longleftrightarrow> iban_number 0 ?r mod 97 = 1"
  proof (cases "iban_digits True ?r = []")
    case True
    then have "iban_number 0 ?r = 0" using iban_digits_True [OF r] by simp
    then show ?thesis using True by simp
  next
    case False
    then show ?thesis using fold_step [OF iban_digits_all [OF r] False] iban_digits_True [OF r] by simp
  qed
  then show ?thesis using True assms(2) by (simp add: iban_def Let_def cut)
qed (use assms(2) in \<open>auto simp: iban_def Let_def\<close>)

end
