(* ===== verification/Pattern_Methods.thy ===== *)
theory Pattern_Methods
  imports Check_Digits
begin

text \<open>
  The validation methods of \<open>jquery.validate.js\<close> and \<open>additional-methods.js\<close> that test the value
  against a regular expression, each with the text the code has (a tilde for a backslash). Those
  whose expression is built from a parameter may raise.
\<close>

section \<open>Words and numbers\<close>

definition alphanumeric :: "bool \<Rightarrow> jstring \<Rightarrow> method_result" where
  "alphanumeric opt value = optional_or opt (RBool (regex_test True ''^~w+$'' value))"

definition lettersonly :: "bool \<Rightarrow> jstring \<Rightarrow> method_result" where
  "lettersonly opt value = optional_or opt (RBool (regex_test True ''^[a-z]+$'' value))"

definition letterswithbasicpunc :: "bool \<Rightarrow> jstring \<Rightarrow> method_result" where
  "letterswithbasicpunc opt value = optional_or opt (RBool (regex_test True ''^[a-z~-.,()'\"~s]+$'' value))"

definition nowhitespace :: "bool \<Rightarrow> jstring \<Rightarrow> method_result" where
  "nowhitespace opt value = optional_or opt (RBool (regex_test True ''^~S+$'' value))"

definition integer_method :: "bool \<Rightarrow> jstring \<Rightarrow> method_result" where
  "integer_method opt value = optional_or opt (RBool (regex_test False ''^-?~d+$'' value))"

definition number_method :: "bool \<Rightarrow> jstring \<Rightarrow> method_result" where
  "number_method opt value = optional_or opt (RBool (regex_test False ''^(?:-?~d+|-?~d{1,3}(?:,~d{3})+)?(?:-?~.~d+)?$'' value))"

definition digits_method :: "bool \<Rightarrow> jstring \<Rightarrow> method_result" where
  "digits_method opt value = optional_or opt (RBool (regex_test False ''^~d+$'' value))"

section \<open>Dates and times\<close>

definition dateISO :: "bool \<Rightarrow> jstring \<Rightarrow> method_result" where
  "dateISO opt value = optional_or opt (RBool (regex_test False ''^~d{4}[~/~-](0?[1-9]|1[012])[~/~-](0?[1-9]|[12][0-9]|3[01])$'' value))"

definition dateFA :: "bool \<Rightarrow> jstring \<Rightarrow> method_result" where
  "dateFA opt value = optional_or opt (RBool (regex_test False ''^[1-4]~d{3}~/((0?[1-6]~/((3[0-1])|([1-2][0-9])|(0?[1-9])))|((1[0-2]|(0?[7-9]))~/(30|([1-2][0-9])|(0?[1-9]))))$'' value))"

definition dateNL :: "bool \<Rightarrow> jstring \<Rightarrow> method_result" where
  "dateNL opt value = optional_or opt (RBool (regex_test False ''^(0?[1-9]|[12]~d|3[01])[~.~/~-](0?[1-9]|1[012])[~.~/~-]([12]~d)?(~d~d)$'' value))"

definition time_method :: "bool \<Rightarrow> jstring \<Rightarrow> method_result" where
  "time_method opt value = optional_or opt (RBool (regex_test False ''^([01]~d|2[0-3]|[0-9])(:[0-5]~d){1,2}$'' value))"

definition time12h :: "bool \<Rightarrow> jstring \<Rightarrow> method_result" where
  "time12h opt value = optional_or opt (RBool (regex_test True ''^((0?[1-9]|1[012])(:[0-5]~d){1,2}(~ ?[AP]M))$'' value))"

section \<open>Network\<close>

definition ipv4 :: "bool \<Rightarrow> jstring \<Rightarrow> method_result" where
  "ipv4 opt value = optional_or opt (RBool (regex_test True ''^(25[0-5]|2[0-4]~d|[01]?~d~d?)~.(25[0-5]|2[0-4]~d|[01]?~d~d?)~.(25[0-5]|2[0-4]~d|[01]?~d~d?)~.(25[0-5]|2[0-4]~d|[01]?~d~d?)$'' value))"

definition ipv6 :: "bool \<Rightarrow> jstring \<Rightarrow> method_result" where
  "ipv6 opt value = optional_or opt (RBool (regex_test True ''^((([0-9A-Fa-f]{1,4}:){7}[0-9A-Fa-f]{1,4})|(([0-9A-Fa-f]{1,4}:){6}:[0-9A-Fa-f]{1,4})|(([0-9A-Fa-f]{1,4}:){5}:([0-9A-Fa-f]{1,4}:)?[0-9A-Fa-f]{1,4})|(([0-9A-Fa-f]{1,4}:){4}:([0-9A-Fa-f]{1,4}:){0,2}[0-9A-Fa-f]{1,4})|(([0-9A-Fa-f]{1,4}:){3}:([0-9A-Fa-f]{1,4}:){0,3}[0-9A-Fa-f]{1,4})|(([0-9A-Fa-f]{1,4}:){2}:([0-9A-Fa-f]{1,4}:){0,4}[0-9A-Fa-f]{1,4})|(([0-9A-Fa-f]{1,4}:){6}((~b((25[0-5])|(1~d{2})|(2[0-4]~d)|(~d{1,2}))~b)~.){3}(~b((25[0-5])|(1~d{2})|(2[0-4]~d)|(~d{1,2}))~b))|(([0-9A-Fa-f]{1,4}:){0,5}:((~b((25[0-5])|(1~d{2})|(2[0-4]~d)|(~d{1,2}))~b)~.){3}(~b((25[0-5])|(1~d{2})|(2[0-4]~d)|(~d{1,2}))~b))|(::([0-9A-Fa-f]{1,4}:){0,5}((~b((25[0-5])|(1~d{2})|(2[0-4]~d)|(~d{1,2}))~b)~.){3}(~b((25[0-5])|(1~d{2})|(2[0-4]~d)|(~d{1,2}))~b))|([0-9A-Fa-f]{1,4}::([0-9A-Fa-f]{1,4}:){0,5}[0-9A-Fa-f]{1,4})|(::([0-9A-Fa-f]{1,4}:){0,6}[0-9A-Fa-f]{1,4})|(([0-9A-Fa-f]{1,4}:){1,7}:))$'' value))"

definition netmask :: "bool \<Rightarrow> jstring \<Rightarrow> method_result" where
  "netmask opt value = optional_or opt (RBool (regex_test True ''^(254|252|248|240|224|192|128)~.0~.0~.0|255~.(254|252|248|240|224|192|128|0)~.0~.0|255~.255~.(254|252|248|240|224|192|128|0)~.0|255~.255~.255~.(254|252|248|240|224|192|128|0)'' value))"

definition email :: "bool \<Rightarrow> jstring \<Rightarrow> method_result" where
  "email opt value = optional_or opt (RBool (regex_test False ''^[a-zA-Z0-9.!#$%&'*+~/=?^_`{|}~~-]+@[a-zA-Z0-9](?:[a-zA-Z0-9-]{0,61}[a-zA-Z0-9])?(?:~.[a-zA-Z0-9](?:[a-zA-Z0-9-]{0,61}[a-zA-Z0-9])?)*$'' value))"

definition url :: "bool \<Rightarrow> jstring \<Rightarrow> method_result" where
  "url opt value = optional_or opt (RBool (regex_test True ''^(?:(?:(?:https?|ftp):)?~/~/)(?:(?:[^~]~[?~/<~~#`!@$^&*()+=}|:\";',>{ ]|%[0-9A-Fa-f]{2})+(?::(?:[^~]~[?~/<~~#`!@$^&*()+=}|:\";',>{ ]|%[0-9A-Fa-f]{2})*)?@)?(?:(?!(?:10|127)(?:~.~d{1,3}){3})(?!(?:169~.254|192~.168)(?:~.~d{1,3}){2})(?!172~.(?:1[6-9]|2~d|3[0-1])(?:~.~d{1,3}){2})(?:[1-9]~d?|1~d~d|2[01]~d|22[0-3])(?:~.(?:1?~d{1,2}|2[0-4]~d|25[0-5])){2}(?:~.(?:[1-9]~d?|1~d~d|2[0-4]~d|25[0-4]))|(?:(?:[a-z0-9~u00a1-~uffff][a-z0-9~u00a1-~uffff_-]{0,62})?[a-z0-9~u00a1-~uffff]~.)+(?:[a-z~u00a1-~uffff]{2,}~.?))(?::~d{2,5})?(?:[/?#]~S*)?$'' value))"

definition url2 :: "bool \<Rightarrow> jstring \<Rightarrow> method_result" where
  "url2 opt value = optional_or opt (RBool (regex_test True ''^(?:(?:(?:https?|ftp):)?~/~/)(?:(?:[^~]~[?~/<~~#`!@$^&*()+=}|:\";',>{ ]|%[0-9A-Fa-f]{2})+(?::(?:[^~]~[?~/<~~#`!@$^&*()+=}|:\";',>{ ]|%[0-9A-Fa-f]{2})*)?@)?(?:(?!(?:10|127)(?:~.~d{1,3}){3})(?!(?:169~.254|192~.168)(?:~.~d{1,3}){2})(?!172~.(?:1[6-9]|2~d|3[0-1])(?:~.~d{1,3}){2})(?:[1-9]~d?|1~d~d|2[01]~d|22[0-3])(?:~.(?:1?~d{1,2}|2[0-4]~d|25[0-5])){2}(?:~.(?:[1-9]~d?|1~d~d|2[0-4]~d|25[0-4]))|(?:(?:[a-z0-9~u00a1-~uffff][a-z0-9~u00a1-~uffff_-]{0,62})?[a-z0-9~u00a1-~uffff]~.)+(?:[a-z~u00a1-~uffff]{2,}~.?)|(?:(?:[a-z0-9~u00a1-~uffff][a-z0-9~u00a1-~uffff_-]{0,62})?[a-z0-9~u00a1-~uffff])|(?:(?:[a-z0-9~u00a1-~uffff][a-z0-9~u00a1-~uffff_-]{0,62}~.)))(?::~d{2,5})?(?:[/?#]~S*)?$'' value))"

section \<open>Post\<close>

definition postalcodeBR :: "bool \<Rightarrow> jstring \<Rightarrow> method_result" where
  "postalcodeBR opt value = optional_or opt (RBool (regex_test False ''^~d{2}.~d{3}-~d{3}?$|^~d{5}-?~d{3}?$'' value))"

definition postalCodeCA :: "bool \<Rightarrow> jstring \<Rightarrow> method_result" where
  "postalCodeCA opt value = optional_or opt (RBool (regex_test True ''^[ABCEGHJKLMNPRSTVXY]~d[ABCEGHJKLMNPRSTVWXYZ] *~d[ABCEGHJKLMNPRSTVWXYZ]~d$'' value))"

definition postalcodeIT :: "bool \<Rightarrow> jstring \<Rightarrow> method_result" where
  "postalcodeIT opt value = optional_or opt (RBool (regex_test False ''^~d{5}$'' value))"

definition postalcodeNL :: "bool \<Rightarrow> jstring \<Rightarrow> method_result" where
  "postalcodeNL opt value = optional_or opt (RBool (regex_test False ''^[1-9][0-9]{3}~s?[a-zA-Z]{2}$'' value))"

definition postcodeUK :: "bool \<Rightarrow> jstring \<Rightarrow> method_result" where
  "postcodeUK opt value = optional_or opt (RBool (regex_test True ''^((([A-PR-UWYZ][0-9])|([A-PR-UWYZ][0-9][0-9])|([A-PR-UWYZ][A-HK-Y][0-9])|([A-PR-UWYZ][A-HK-Y][0-9][0-9])|([A-PR-UWYZ][0-9][A-HJKSTUW])|([A-PR-UWYZ][A-HK-Y][0-9][ABEHMNPRVWXY]))~s?([0-9][ABD-HJLNP-UW-Z]{2})|(GIR)~s?(0AA))$'' value))"

definition zipcodeUS :: "bool \<Rightarrow> jstring \<Rightarrow> method_result" where
  "zipcodeUS opt value = optional_or opt (RBool (regex_test False ''^~d{5}(-~d{4})?$'' value))"

definition ziprange :: "bool \<Rightarrow> jstring \<Rightarrow> method_result" where
  "ziprange opt value = optional_or opt (RBool (regex_test False ''^90[2-5]~d~{2~}-~d{4}$'' value))"

section \<open>Telephones\<close>

definition mobileNL :: "bool \<Rightarrow> jstring \<Rightarrow> method_result" where
  "mobileNL opt value = optional_or opt (RBool (regex_test False ''^((~+|00(~s|~s?~-~s?)?)31(~s|~s?~-~s?)?(~(0~)[~-~s]?)?|0)6((~s|~s?~-~s?)?[0-9]){8}$'' value))"

definition phoneNL :: "bool \<Rightarrow> jstring \<Rightarrow> method_result" where
  "phoneNL opt value = optional_or opt (RBool (regex_test False ''^((~+|00(~s|~s?~-~s?)?)31(~s|~s?~-~s?)?(~(0~)[~-~s]?)?|0)[1-9]((~s|~s?~-~s?)?[0-9]){8}$'' value))"

text \<open>The telephone numbers from which parentheses, white space and dashes are first removed.\<close>

definition strip_phone :: "jstring \<Rightarrow> jstring" where
  "strip_phone value = remove_units (\<lambda>c. c = 40 \<or> c = 41 \<or> is_space c \<or> c = 45) value"

definition mobileRU :: "bool \<Rightarrow> jstring \<Rightarrow> method_result" where
  "mobileRU opt phone_number =
     (let ruPhone_number = strip_phone phone_number
      in optional_or opt (RBool (length ruPhone_number > 9
           \<and> regex_test False ''^((~+7|7|8)+([0-9]){10})$'' ruPhone_number)))"

text \<open>\<open>n.length > 9 && n.match(\<dots>)\<close>\<close>

definition long_match :: "jstring \<Rightarrow> string \<Rightarrow> method_result" where
  "long_match n source = (if length n > 9 then match_result (regex_test False source n) else RBool False)"

definition mobileUK :: "bool \<Rightarrow> jstring \<Rightarrow> method_result" where
  "mobileUK opt phone_number = (let n = strip_phone phone_number in
     optional_or opt (long_match n ''^(?:(?:(?:00~s?|~+)44~s?|0)7(?:[1345789]~d{2}|624)~s?~d{3}~s?~d{3})$''))"

definition phonesUK :: "bool \<Rightarrow> jstring \<Rightarrow> method_result" where
  "phonesUK opt phone_number = (let n = strip_phone phone_number in
     optional_or opt (long_match n
       ''^(?:(?:(?:00~s?|~+)44~s?|0)(?:1~d{8,9}|[23]~d{9}|7(?:[1345789]~d{8}|624~d{6})))$''))"

definition phoneUK :: "bool \<Rightarrow> jstring \<Rightarrow> method_result" where
  "phoneUK opt phone_number = (let n = strip_phone phone_number in
     optional_or opt (long_match n
       ''^(?:(?:(?:00~s?|~+)44~s?)|(?:~(?0))(?:~d{2}~)?~s?~d{4}~s?~d{4}|~d{3}~)?~s?~d{3}~s?~d{3,4}|~d{4}~)?~s?(?:~d{5}|~d{3}~s?~d{3})|~d{5}~)?~s?~d{4,5})$''))"

definition phoneUS :: "bool \<Rightarrow> jstring \<Rightarrow> method_result" where
  "phoneUS opt phone_number = (let n = remove_units is_space phone_number in
     optional_or opt (long_match n
       ''^(~+?1-?)?(~([2-9]([02-9]~d|1[02-9])~)|[2-9]([02-9]~d|1[02-9]))-?[2-9]~d{2}-?~d{4}$''))"

definition phonePL :: "bool \<Rightarrow> jstring \<Rightarrow> method_result" where
  "phonePL opt phone_number = (let n = remove_units is_space phone_number in
     optional_or opt (RBool (regex_test False
       ''^(?:(?:(?:~+|00)?48)|(?:~(~+?48~)))?(?:1[2-8]|2[2-69]|3[2-49]|4[1-68]|5[0-9]|6[0-35-9]|[7-8][1-9]|9[145])~d{7}$'' n)))"

section \<open>Codes\<close>

definition bic :: "(jstring \<Rightarrow> jstring) \<Rightarrow> bool \<Rightarrow> jstring \<Rightarrow> method_result" where
  "bic upper opt value = optional_or opt (RBool (regex_test False
     ''^([A-Z]{6}[A-Z2-9][A-NP-Z1-9])(X{3}|[A-WY-Z0-9][A-Z0-9]{2})?$'' (upper value)))"

record state_options =
  so_caseSensitive :: "bool option"
  so_includeTerritories :: "bool option"
  so_includeMilitary :: "bool option"

definition given :: "state_options option \<Rightarrow> (state_options \<Rightarrow> bool option) \<Rightarrow> bool" where
  "given options field =
     (case options of None \<Rightarrow> False | Some o' \<Rightarrow> (case field o' of None \<Rightarrow> False | Some b \<Rightarrow> b))"

definition stateUS :: "state_options option \<Rightarrow> bool \<Rightarrow> jstring \<Rightarrow> method_result" where
  "stateUS options opt value =
     (let caseSensitive = given options so_caseSensitive;
          includeTerritories = given options so_includeTerritories;
          includeMilitary = given options so_includeMilitary;
          regex =
            (if \<not> includeTerritories \<and> \<not> includeMilitary then
               ''^(A[KLRZ]|C[AOT]|D[CE]|FL|GA|HI|I[ADLN]|K[SY]|LA|M[ADEINOST]|N[CDEHJMVY]|O[HKR]|PA|RI|S[CD]|T[NX]|UT|V[AT]|W[AIVY])$''
             else if includeTerritories \<and> includeMilitary then
               ''^(A[AEKLPRSZ]|C[AOT]|D[CE]|FL|G[AU]|HI|I[ADLN]|K[SY]|LA|M[ADEINOPST]|N[CDEHJMVY]|O[HKR]|P[AR]|RI|S[CD]|T[NX]|UT|V[AIT]|W[AIVY])$''
             else if includeTerritories then
               ''^(A[KLRSZ]|C[AOT]|D[CE]|FL|G[AU]|HI|I[ADLN]|K[SY]|LA|M[ADEINOPST]|N[CDEHJMVY]|O[HKR]|P[AR]|RI|S[CD]|T[NX]|UT|V[AIT]|W[AIVY])$''
             else
               ''^(A[AEKLPRZ]|C[AOT]|D[CE]|FL|GA|HI|I[ADLN]|K[SY]|LA|M[ADEINOST]|N[CDEHJMVY]|O[HKR]|PA|RI|S[CD]|T[NX]|UT|V[AT]|W[AIVY])$'')
      in optional_or opt (RBool (regex_test (\<not> caseSensitive) regex value)))"

section \<open>Dates\<close>

text \<open>
  The fields of a date in UTC, read back from the time \<open>Date.UTC(y, m, d, 12, 0, 0, 0)\<close> makes: a
  year from 0 to 99 counts from 1900, a month beyond the year and a day beyond the month roll over.
  The fuel bounds how many months a day of at most 99 rolls over.
\<close>

definition leap_year :: "int \<Rightarrow> bool" where
  "leap_year y \<longleftrightarrow> y mod 4 = 0 \<and> (y mod 100 \<noteq> 0 \<or> y mod 400 = 0)"

definition month_length :: "int \<Rightarrow> int \<Rightarrow> int" where
  "month_length y m =
     (if m = 1 then (if leap_year y then 29 else 28) else if m \<in> {3, 5, 8, 10} then 30 else 31)"

fun roll_days :: "nat \<Rightarrow> int \<Rightarrow> int \<Rightarrow> int \<Rightarrow> int \<times> int \<times> int" where
  "roll_days 0 y m d = (y, m, d)"
| "roll_days (Suc n) y m d =
     (if d < 1 then
        (let y' = (if m = 0 then y - 1 else y); m' = (if m = 0 then 11 else m - 1)
         in roll_days n y' m' (d + month_length y' m'))
      else if d > month_length y m then
        roll_days n (if m = 11 then y + 1 else y) (if m = 11 then 0 else m + 1) (d - month_length y m)
      else (y, m, d))"

definition UTC_fields :: "int \<Rightarrow> int \<Rightarrow> int \<Rightarrow> int \<times> int \<times> int" where
  "UTC_fields y m d =
     (let y = (if 0 \<le> y \<and> y \<le> 99 then 1900 + y else y)
      in roll_days 5 (y + m div 12) (m mod 12) d)"

definition dateITA :: "bool \<Rightarrow> jstring \<Rightarrow> method_result" where
  "dateITA opt value =
     (let check =
        (if regex_test False ''^~d{1,2}~/~d{1,2}~/~d{4}$'' value then
           (let adata = split_char 47 value in
            case (parseInt (adata ! 0), parseInt (adata ! 1), parseInt (adata ! 2)) of
              (Some gg, Some mm, Some aaaa) \<Rightarrow> UTC_fields aaaa (mm - 1) gg = (aaaa, mm - 1, gg)
            | _ \<Rightarrow> False)
         else False)
      in optional_or opt (RBool check))"

section \<open>Expressions built from a parameter\<close>

definition new_RegExp :: "bool \<Rightarrow> jstring \<Rightarrow> (rx \<Rightarrow> js_error + 'a) \<Rightarrow> js_error + 'a" where
  "new_RegExp ci source k = (case RegExp source of None \<Rightarrow> Inl SyntaxError | Some r \<Rightarrow> k r)"

definition extension :: "jstring option \<Rightarrow> bool \<Rightarrow> jstring \<Rightarrow> js_error + method_result" where
  "extension param opt value =
     (let param = (case param of
          Some p \<Rightarrow> map (\<lambda>c. if c = unit_of CHR '','' then unit_of CHR ''|'' else c) p
        | None \<Rightarrow> js ''png|jpe?g|gif'')
      in if opt then Inr RMismatch
         else new_RegExp True (source_text ''~.('' @ param @ js '')$'')
                (\<lambda>r. Inr (match_result (rx_test True r value))))"

datatype currency_param = CurrencySymbol jstring | CurrencyPair jstring bool

definition currency :: "currency_param \<Rightarrow> bool \<Rightarrow> jstring \<Rightarrow> js_error + method_result" where
  "currency param opt value =
     (let symbol = (case param of CurrencySymbol s \<Rightarrow> s | CurrencyPair s _ \<Rightarrow> s);
          soft = (case param of CurrencySymbol _ \<Rightarrow> True | CurrencyPair _ b \<Rightarrow> b);
          symbol = remove_units (\<lambda>c. c = unit_of CHR '','') symbol;
          symbol = (if soft then symbol @ js '']'' else symbol @ js '']?'');
          regex = js ''^['' @ symbol @ source_text
            ''([1-9]{1}[0-9]{0,2}(~,[0-9]{3})*(~.[0-9]{0,2})?|[1-9]{1}[0-9]{0,}(~.[0-9]{0,2})?|0(~.[0-9]{0,2})?|(~.[0-9]{1,2})?)$''
      in new_RegExp False regex (\<lambda>r. Inr (optional_or opt (RBool (rx_test False r value)))))"

datatype pattern_param = PatternText jstring | PatternRegExp bool rx

definition pattern_method :: "pattern_param \<Rightarrow> bool \<Rightarrow> jstring \<Rightarrow> js_error + method_result" where
  "pattern_method param opt value =
     (if opt then Inr (RBool True)
      else case param of
        PatternText p \<Rightarrow> new_RegExp False (js ''^(?:'' @ p @ js '')$'') (\<lambda>r. Inr (RBool (rx_test False r value)))
      | PatternRegExp ci r \<Rightarrow> Inr (RBool (rx_test ci r value)))"

text \<open>\<open>accept\<close>: the mime types of the parameter become one expression, dots and slashes escaped.\<close>

definition accept_special :: jstring where
  "accept_special = js ''-[]/{}()+?.'' @ [92] @ js ''^$|''"

definition escape_special :: "jstring \<Rightarrow> jstring" where
  "escape_special s = concat (map (\<lambda>c. if c \<in> set accept_special then [92, c] else [c]) s)"

fun widen_stars :: "jstring \<Rightarrow> jstring" where
  "widen_stars (a # b # s) =
     (if a = unit_of CHR ''/'' \<and> b = unit_of CHR ''*'' then js ''/.*'' @ widen_stars s else a # widen_stars (b # s))"
| "widen_stars s = s"

definition accept_type :: "jstring \<Rightarrow> jstring" where
  "accept_type s = widen_stars (map (\<lambda>c. if c = unit_of CHR '','' then unit_of CHR ''|'' else c) (escape_special s))"

record input_file =
  if_type :: jstring
  if_size :: int

text \<open>The element of a file input: its \<open>type\<close> attribute and its list of files, if the browser has one.\<close>

record file_element =
  ff_type :: "jstring option"
  ff_files :: "input_file list option"

definition is_file :: "file_element \<Rightarrow> bool" where
  "is_file element \<longleftrightarrow> ff_type element = Some (js ''file'')"

definition files_of :: "file_element \<Rightarrow> input_file list" where
  "files_of element = (case ff_files element of None \<Rightarrow> [] | Some fs \<Rightarrow> fs)"

definition accept :: "jstring option \<Rightarrow> file_element \<Rightarrow> bool \<Rightarrow> js_error + method_result" where
  "accept param element opt =
     (let typeParam = (case param of Some p \<Rightarrow> remove_units is_space p | None \<Rightarrow> js ''image/*'')
      in if opt then Inr RMismatch
         else if is_file element \<and> files_of element \<noteq> [] then
           new_RegExp True (js ''.?('' @ accept_type typeParam @ js '')$'')
             (\<lambda>regex. Inr (RBool (list_all (\<lambda>file. rx_test True regex (if_type file)) (files_of element))))
         else Inr (RBool True))"

section \<open>Files\<close>

definition maxfiles :: "int \<Rightarrow> file_element \<Rightarrow> bool \<Rightarrow> method_result" where
  "maxfiles param element opt =
     (if opt then RBool True
      else if is_file element \<and> ff_files element \<noteq> None \<and> int (length (files_of element)) > param then RBool False
      else RBool True)"

definition maxsize :: "int \<Rightarrow> file_element \<Rightarrow> bool \<Rightarrow> method_result" where
  "maxsize param element opt =
     (if opt then RBool True
      else if is_file element \<and> list_ex (\<lambda>file. if_size file > param) (files_of element) then RBool False
      else RBool True)"

fun total_within :: "int \<Rightarrow> int \<Rightarrow> input_file list \<Rightarrow> bool" where
  "total_within param totalSize [] = True"
| "total_within param totalSize (file # fs) =
     (if totalSize + if_size file > param then False else total_within param (totalSize + if_size file) fs)"

definition maxsizetotal :: "int \<Rightarrow> file_element \<Rightarrow> bool \<Rightarrow> method_result" where
  "maxsizetotal param element opt =
     (if opt then RBool True
      else if is_file element then RBool (total_within param 0 (files_of element))
      else RBool True)"

section \<open>Words\<close>

text \<open>\<open>replace(/<.[^<>]*?>/g, \<dots>)\<close>: a tag starts with any unit but a line terminator.\<close>

function strip_tags :: "jstring \<Rightarrow> jstring" where
  "strip_tags [] = []"
| "strip_tags (c # s) =
     (if c = unit_of CHR ''<'' \<and> s \<noteq> [] \<and> hd s \<notin> {10, 13, 0x2028, 0x2029}
         \<and> (case dropWhile (\<lambda>d. d \<noteq> unit_of CHR ''<'' \<and> d \<noteq> unit_of CHR ''>'') (tl s) of
              [] \<Rightarrow> False | e # _ \<Rightarrow> e = unit_of CHR ''>'')
      then 32 # strip_tags (tl (dropWhile (\<lambda>d. d \<noteq> unit_of CHR ''<'' \<and> d \<noteq> unit_of CHR ''>'') (tl s)))
      else c # strip_tags s)"
  by pat_completeness auto
termination
proof (relation "measure length", simp, goal_cases)
  case (1 c s)
  have "length (dropWhile P (tl s)) \<le> length s" for P
    using length_dropWhile_le [of P "tl s"] by simp
  then show ?case by (simp add: less_Suc_eq_le le_diff_conv le_SucI)
qed simp

fun replace_text :: "jstring \<Rightarrow> jstring \<Rightarrow> jstring \<Rightarrow> jstring" where
  "replace_text fuel p [] = []"
| "replace_text [] p s = s"
| "replace_text (f # fuel) p (c # s) =
     (if p \<noteq> [] \<and> starts_with (ascii_lower p) (ascii_lower (c # s)) then 32 # replace_text fuel p (drop (length p) (c # s))
      else c # replace_text fuel p s)"

definition stripHtml :: "jstring \<Rightarrow> jstring" where
  "stripHtml value =
     (let s = strip_tags value;
          s = replace_text s (js ''&nbsp;'') s;
          s = replace_text s (js ''&#160;'') s
      in remove_units (\<lambda>c. c \<in> set (js ''.(),;:!?%#$'' @ [39, 34] @ js ''_+=/-'' @ [0x201C, 0x201D, 0x2019])) s)"

text \<open>The length of \<open>match(/\b\w+\b/g)\<close>, which is null when no word is found: reading it then raises.\<close>

fun count_words :: "bool \<Rightarrow> jstring \<Rightarrow> nat" where
  "count_words inside [] = 0"
| "count_words inside (c # s) =
     (if is_word c then (if inside then 0 else 1) + count_words True s else count_words False s)"

definition words_match :: "jstring \<Rightarrow> js_error + int" where
  "words_match s = (let n = count_words False s in if n = 0 then Inl TypeError else Inr (int n))"

definition words_check :: "bool \<Rightarrow> jstring \<Rightarrow> (int \<Rightarrow> bool) \<Rightarrow> js_error + method_result" where
  "words_check opt value P =
     (if opt then Inr RMismatch
      else case words_match (stripHtml value) of Inl e \<Rightarrow> Inl e | Inr n \<Rightarrow> Inr (RBool (P n)))"

definition maxWords :: "int \<Rightarrow> bool \<Rightarrow> jstring \<Rightarrow> js_error + method_result" where
  "maxWords params opt value = words_check opt value (\<lambda>n. n \<le> params)"

definition minWords :: "int \<Rightarrow> bool \<Rightarrow> jstring \<Rightarrow> js_error + method_result" where
  "minWords params opt value = words_check opt value (\<lambda>n. n \<ge> params)"

definition rangeWords :: "int \<Rightarrow> int \<Rightarrow> bool \<Rightarrow> jstring \<Rightarrow> js_error + method_result" where
  "rangeWords lo hi opt value = words_check opt value (\<lambda>n. n \<ge> lo \<and> n \<le> hi)"

end
