(* ===== verification/Check_Digit_Facts.thy ===== *)
theory Check_Digit_Facts
  imports Iban Pattern_Methods
begin

text \<open>
  What the check-digit methods guarantee: Luhn's sum notices every altered digit, a CNPJ has exactly
  one pair of check digits; and where their loops let something through.
\<close>

section \<open>A class repeated, and anchored\<close>

text \<open>An unanchored \<open>[\<dots>]+\<close> is found in a string that has a unit of the class.\<close>

lemma some_unit_iff:
  "rx_test ci (Seq (Rep 1 None (Cls neg rs)) Eps) s \<longleftrightarrow> list_ex (cls_match ci neg rs) s"
proof
  assume "rx_test ci (Seq (Rep 1 None (Cls neg rs)) Eps) s"
  then obtain i j n where n: "1 \<le> n" "(i, j) \<in> rx_rel (Cls neg rs) ci s ^^ n"
    by (auto simp: rx_test_iff)
  then obtain k where "(i, k) \<in> rx_rel (Cls neg rs) ci s"
    by (cases n) (auto simp: relpow_first simp del: relpow.simps)
  then show "list_ex (cls_match ci neg rs) s" by (auto simp: list_ex_length)
next
  assume "list_ex (cls_match ci neg rs) s"
  then obtain i where i: "i < length s" "cls_match ci neg rs (s ! i)" by (auto simp: list_ex_length)
  then have "(i, Suc i) \<in> rx_rel (Cls neg rs) ci s ^^ 1" by simp
  then have "(i, Suc i) \<in> rx_rel (Rep 1 None (Cls neg rs)) ci s" using i(1) by (auto intro!: exI [of _ 1])
  then show "rx_test ci (Seq (Rep 1 None (Cls neg rs)) Eps) s"
    using i(1) unfolding rx_test_iff by (intro exI [of _ i] exI [of _ "Suc i"]) (simp only: rx_rel.simps, rule relcompI, assumption, simp)
qed

section \<open>Luhn's sum\<close>

definition luhn_digit :: "bool \<Rightarrow> code_unit \<Rightarrow> int" where
  "luhn_digit bEven c =
     (let d = digit_value c in if bEven then (if 2 * d > 9 then 2 * d - 9 else 2 * d) else d)"

fun luhn_sum :: "bool \<Rightarrow> jstring \<Rightarrow> int" where
  "luhn_sum bEven [] = 0"
| "luhn_sum bEven (c # s) = luhn_digit bEven c + luhn_sum (\<not> bEven) s"

lemma luhn_loop_sum: "list_all is_digit s \<Longrightarrow> luhn_loop b s (Some a) = Some (a + luhn_sum b s)"
  by (induction s arbitrary: b a) (auto simp: Let_def parseInt_digit luhn_digit_def algebra_simps)

lemma luhn_sum_append: "luhn_sum b (s @ t) = luhn_sum b s + luhn_sum (b = even (length s)) t"
proof (induction s arbitrary: b)
  case (Cons c s)
  have "((\<not> b) = even (length s)) = (b = odd (length s))" by auto
  then show ?case by (simp add: Cons)
qed simp

lemma luhn_digit_distinct:
  assumes "is_digit c" "is_digit d" "c \<noteq> d"
  shows "(luhn_digit b c - luhn_digit b d) mod 10 \<noteq> 0"
proof -
  have "list_all (\<lambda>(x, y). (luhn_digit True x - luhn_digit True y) mod 10 \<noteq> 0 \<and> (luhn_digit False x - luhn_digit False y) mod 10 \<noteq> 0)
     (filter (\<lambda>(x, y). x \<noteq> y) (List.product [48..<58] [48..<58]))" by code_simp
  moreover have "(c, d) \<in> set (filter (\<lambda>(x, y). x \<noteq> y) (List.product [48..<58] [48..<58]))"
    using assms by (auto simp: is_digit_def simp del: upt_conv_Cons upt_rec_numeral)
  ultimately have "(luhn_digit True c - luhn_digit True d) mod 10 \<noteq> 0 \<and> (luhn_digit False c - luhn_digit False d) mod 10 \<noteq> 0"
    unfolding list_all_iff by (drule_tac bspec) (assumption, simp)
  then show ?thesis by (cases b) auto
qed

lemma not_digits_or_separators:
  "regex_test False ''[^0-9 ~-]+'' s \<longleftrightarrow> \<not> list_all (\<lambda>c. is_digit c \<or> c = 32 \<or> c = 45) s"
proof -
  have "RegExp (source_text ''[^0-9 ~-]+'') = Some (Seq (Rep 1 None (Cls True [(48, 57), (32, 32), (45, 45)])) Eps)"
    by code_simp
  then show ?thesis
    by (simp only: regex_test_parsed some_unit_iff)
      (auto simp: cls_match_def in_ranges_def list_all_iff list_ex_iff is_digit_def)
qed

lemma creditcard_iff:
  "creditcard False value = RBool (list_all (\<lambda>c. is_digit c \<or> c = 32 \<or> c = 45) value
     \<and> length (filter is_digit value) \<in> {13..19} \<and> luhn_sum False (rev (filter is_digit value)) mod 10 = 0)"
proof -
  have "list_all is_digit (rev (filter is_digit value))" by (auto simp: list_all_iff)
  from luhn_loop_sum [OF this, of False 0] show ?thesis
    by (auto simp: creditcard_def not_digits_or_separators remove_units_def Let_def)
qed

lemma luhn_detects:
  assumes "creditcard False (pre @ c # post) = RBool True" "is_digit c" "is_digit d" "c \<noteq> d"
  shows "creditcard False (pre @ d # post) = RBool False"
proof -
  let ?L = "\<lambda>x. luhn_sum False (rev (filter is_digit (pre @ x # post)))"
  let ?b = "False = even (length (filter is_digit post))"
  have split: "?L x = luhn_sum False (rev (filter is_digit post)) + (luhn_digit ?b x
      + luhn_sum (\<not> ?b) (rev (filter is_digit pre)))" if "is_digit x" for x
    using that by (simp add: luhn_sum_append)
  have "?L c mod 10 = 0" using assms(1) by (simp add: creditcard_iff)
  moreover have "?L c - ?L d = luhn_digit ?b c - luhn_digit ?b d" using split assms(2,3) by simp
  ultimately have "?L d mod 10 \<noteq> 0"
    using luhn_digit_distinct [OF assms(2-4), of ?b] by (metis diff_self mod_0 mod_diff_eq)
  then show ?thesis by (simp add: creditcard_iff)
qed

section \<open>The check digits of a CNPJ\<close>

definition cnpj_digit :: "int \<Rightarrow> jstring \<Rightarrow> int" where
  "cnpj_digit pos s = (case cnpj_resultado (cnpj_soma pos s (Some 0)) of Some r \<Rightarrow> r | None \<Rightarrow> 0)"

lemma cnpj_soma_Some: "list_all is_digit s \<Longrightarrow> \<exists>n. cnpj_soma pos s (Some a) = Some n"
  by (induction s arbitrary: pos a) (auto simp: char_number_digit)

lemma cnpj_resultado_digit:
  assumes "list_all is_digit s"
  shows "cnpj_resultado (cnpj_soma pos s (Some 0)) = Some (cnpj_digit pos s)" "0 \<le> cnpj_digit pos s" "cnpj_digit pos s \<le> 9"
proof -
  obtain n where n: "cnpj_soma pos s (Some 0) = Some n" using cnpj_soma_Some [OF assms] by blast
  have "n mod 11 < 11" "0 \<le> n mod 11" by simp_all
  then show "cnpj_resultado (cnpj_soma pos s (Some 0)) = Some (cnpj_digit pos s)" "0 \<le> cnpj_digit pos s" "cnpj_digit pos s \<le> 9"
    by (auto simp: cnpj_digit_def n cnpj_resultado_def)
qed

definition digit_unit :: "int \<Rightarrow> code_unit" where
  "digit_unit n = 48 + nat n"

lemma digit_unit_iff: "is_digit c \<Longrightarrow> 0 \<le> n \<Longrightarrow> n \<le> 9 \<Longrightarrow> digit_value c = n \<longleftrightarrow> c = digit_unit n"
  by (auto simp: digit_unit_def digit_value_def is_digit_def)

lemma digit_unit_digit: "0 \<le> n \<Longrightarrow> n \<le> 9 \<Longrightarrow> is_digit (digit_unit n)"
  by (auto simp: digit_unit_def is_digit_def)

lemma cnpj_unique:
  assumes "list_all is_digit body" "length body = 12"
  shows "\<exists>a b. is_digit a \<and> is_digit b \<and> (\<forall>x y. is_digit x \<and> is_digit y \<longrightarrow>
     (cnpjBR False (body @ [x, y]) = RBool True \<longleftrightarrow> x = a \<and> y = b \<and> (\<forall>d. body @ [x, y] \<noteq> replicate 14 d)))"
proof -
  define a where "a = digit_unit (cnpj_digit 5 body)"
  define b where "b = digit_unit (cnpj_digit 6 (body @ [a]))"
  note da = cnpj_resultado_digit [OF assms(1), of 5]
  have a: "is_digit a" unfolding a_def using da by (intro digit_unit_digit)
  have all: "list_all is_digit (body @ [a])" using assms(1) a by simp
  note db = cnpj_resultado_digit [OF all, of 6]
  have b: "is_digit b" unfolding b_def using db by (intro digit_unit_digit)
  have "cnpjBR False (body @ [x, y]) = RBool True \<longleftrightarrow> x = a \<and> y = b \<and> (\<forall>d. body @ [x, y] \<noteq> replicate 14 d)"
    if "is_digit x" "is_digit y" for x y
  proof -
    have id: "remove_units (\<lambda>c. \<not> is_digit c) (body @ [x, y]) = body @ [x, y]"
      using assms(1) that by (simp add: remove_units_def list_all_iff)
    have rep: "(\<exists>d \<in> {48..<58}. body @ [x, y] = replicate 14 d) \<longleftrightarrow> (\<exists>d. body @ [x, y] = replicate 14 d)" (is "_ \<longleftrightarrow> ?E")
    proof
      assume ?E
      then obtain d where d: "body @ [x, y] = replicate 14 d" by blast
      then have "d = x" by (metis Un_iff append_Cons in_set_conv_decomp in_set_replicate set_append list.set_intros(1))
      then show "\<exists>d \<in> {48..<58}. body @ [x, y] = replicate 14 d"
        using d that(1) by (auto simp: is_digit_def simp del: upt_conv_Cons upt_rec_numeral)
    qed auto
    have cuts: "substring (body @ [x, y]) 0 12 = body" "substring (body @ [x, y]) 0 13 = body @ [x]"
      "charAt (substr_from (body @ [x, y]) 12) 0 = [x]" "charAt (substr_from (body @ [x, y]) 12) (Suc 0) = [y]"
      using assms(2) by (simp_all add: substring_def substr_from_def charAt_def)
    have "cnpjBR False (body @ [x, y]) = RBool True \<longleftrightarrow> (\<forall>d. body @ [x, y] \<noteq> replicate 14 d)
        \<and> num_eq (cnpj_resultado (cnpj_soma 5 body (Some 0))) (parseInt [x])
        \<and> num_eq (cnpj_resultado (cnpj_soma 6 (body @ [x]) (Some 0))) (parseInt [y])"
      unfolding cnpjBR_def by (simp add: id Let_def rep cuts assms(2) del: upt_conv_Cons upt_rec_numeral)
    also have "num_eq (cnpj_resultado (cnpj_soma 5 body (Some 0))) (parseInt [x]) \<longleftrightarrow> x = a"
      using da(2,3) digit_unit_iff [OF that(1), of "cnpj_digit 5 body"] that(1)
      by (simp add: da(1) parseInt_digit a_def eq_commute [of _ "digit_value x"])
    finally show ?thesis
      using db(2,3) digit_unit_iff [OF that(2), of "cnpj_digit 6 (body @ [a])"] that(2)
      by (auto simp: db(1) parseInt_digit b_def eq_commute [of _ "digit_value y"])
  qed
  with a b show ?thesis by blast
qed

end
