(* ===== verification/Validation_Properties.thy ===== *)
theory Validation_Properties
  imports Check_Digit_Facts
begin

text \<open>Properties of the validation methods: what their check digits detect, and what slips through.\<close>

section \<open>Check digits\<close>

text \<open>
  C30. The credit card method notices a single altered digit: if a number is accepted, the same text
  with one digit changed to another is rejected, wherever its spaces and dashes are.
\<close>

theorem creditcard_detects_an_altered_digit:
  assumes "creditcard False (pre @ c # post) = RBool True" "is_digit c" "is_digit d" "c \<noteq> d"
  shows "creditcard False (pre @ d # post) = RBool False"
  by (rule luhn_detects [OF assms])

theorem creditcard_detects_an_altered_digit_witness:
  "creditcard False (js ''4111-1111 1111-1111'') = RBool True \<and> creditcard False (js ''4111-2111 1111-1111'') = RBool False"
proof -
  have ok: "creditcard False (js ''4111-'' @ 49 # js ''111 1111-1111'') = RBool True"
    unfolding creditcard_iff by code_simp
  have "js ''4111-1111 1111-1111'' = js ''4111-'' @ 49 # js ''111 1111-1111''"
    "js ''4111-2111 1111-1111'' = js ''4111-'' @ 50 # js ''111 1111-1111''"
    by (simp_all add: unit_of_def)
  then show ?thesis
    using ok creditcard_detects_an_altered_digit [OF ok, of 50] by (simp add: is_digit_def)
qed

text \<open>
  C29. The digit-by-digit loop of the IBAN method decides the arithmetic test of the standard: the
  text, with its first four characters moved to the end and its letters replaced by two-digit
  numbers, is 1 modulo 97 (and fits the format of its country, if that is known).
\<close>

theorem iban_is_the_remainder_test:
  assumes "upper (remove_units (\<lambda>c. c = 32) value) = s" "list_all alnum s"
  shows "iban upper False value =
     RBool (5 \<le> length s \<and> country_format_ok s \<and> iban_number 0 (drop 4 s @ take 4 s) mod 97 = 1)"
  by (rule iban_checks_remainder [where upper = upper, OF assms(2,1)])

theorem iban_is_the_remainder_test_witness:
  "iban ascii_upper False (js ''xx82 west 1234 5698 7654 32'') = RBool (iban_number 0 (js ''WEST12345698765432XX82'') mod 97 = 1)"
proof -
  have "ascii_upper (remove_units (\<lambda>c. c = 32) (js ''xx82 west 1234 5698 7654 32'')) = js ''XX82WEST12345698765432''"
    "list_all alnum (js ''XX82WEST12345698765432'')" "country_format_ok (js ''XX82WEST12345698765432'')"
    "5 \<le> length (js ''XX82WEST12345698765432'')"
    "drop 4 (js ''XX82WEST12345698765432'') @ take 4 (js ''XX82WEST12345698765432'') = js ''WEST12345698765432XX82''"
    by (simp_all add: ascii_upper_def remove_units_def upper_unit_def is_lower_def unit_of_def alnum_def is_digit_def is_upper_def
      country_format_ok_def bbancountrypatterns_def substring_def)
  note facts = this
  show ?thesis
    unfolding iban_is_the_remainder_test [where upper = ascii_upper, OF facts(1,2)] using facts(3-5) by (simp only: HOL.simp_thms)
qed

text \<open>
  Every twelve digits have exactly one pair of check digits with which they are accepted as a
  CNPJ, unless the result repeats a single digit, which is always refused.
\<close>

theorem cnpj_check_digits_are_unique:
  assumes "list_all is_digit body" "length body = 12"
  shows "\<exists>a b. is_digit a \<and> is_digit b \<and> (\<forall>x y. is_digit x \<and> is_digit y \<longrightarrow>
     (cnpjBR False (body @ [x, y]) = RBool True \<longleftrightarrow> x = a \<and> y = b \<and> (\<forall>d. body @ [x, y] \<noteq> replicate 14 d)))"
  by (rule cnpj_unique [OF assms])

theorem cnpj_check_digits_are_unique_witness:
  "\<exists>a b. is_digit a \<and> is_digit b \<and> (cnpjBR False (js ''112223330001'' @ [a, b]) = RBool True \<longleftrightarrow>
     (\<nexists>d. js ''112223330001'' @ [a, b] = replicate 14 d))"
proof -
  have "list_all is_digit (js ''112223330001'')" "length (js ''112223330001'') = 12" by code_simp+
  from cnpj_check_digits_are_unique [OF this] show ?thesis by blast
qed

section \<open>What slips through\<close>

text \<open>
  The method that should take ZIP codes from 902xx-xxxx to 905xx-xxxx refuses every one of them:
  its expression escapes the braces of the repetition, so it asks for the text of the braces.
\<close>

lemma ziprange_refuses_its_range:
  assumes "c \<in> {50, 51, 52, 53}" "list_all is_digit [d, e, f, g, h, i]"
  shows "ziprange False (js ''90'' @ [c, d, e] @ js ''-'' @ [f, g, h, i]) = RBool False"
proof -
  have parsed: "RegExp (source_text ''^90[2-5]~d~{2~}-~d{4}$'') = Some (Seq Bol (Seq (Cls False [(57, 57)])
     (Seq (Cls False [(48, 48)]) (Seq (Cls False [(50, 53)]) (Seq (Cls False [(48, 57)]) (Seq (Cls False [(123, 123)])
     (Seq (Cls False [(50, 50)]) (Seq (Cls False [(125, 125)]) (Seq (Cls False [(45, 45)])
     (Seq (Rep 4 (Some 4) (Cls False [(48, 57)])) (Seq Eol Eps)))))))))))" (is "_ = Some ?r")
    by code_simp
  have "\<not> cls_match False False [(123, 123)] e"
    using assms(2) by (simp add: cls_match_def in_ranges_def is_digit_def)
  then have "rx_ends ?r False ([57, 48, c, d, e, 45, f, g, h, i]) j = []" for j by simp
  then show ?thesis by (simp add: ziprange_def regex_test_parsed [OF parsed] rx_test_def unit_of_def list_ex_iff del: upt_Suc)
qed

lemma ziprange_example: "ziprange False (js ''90210-1234'') = RBool False"
proof -
  have "js ''90210-1234'' = js ''90'' @ [50, 49, 48] @ js ''-'' @ [49, 50, 51, 52]" by (simp add: unit_of_def)
  then show ?thesis using ziprange_refuses_its_range [of 50 49 48 49 50 51 52] by (simp add: is_digit_def)
qed

definition is_letter :: "code_unit \<Rightarrow> bool" where
  "is_letter c \<longleftrightarrow> is_upper c \<or> is_lower c"

lemma letter_not_special: "is_letter c \<or> is_digit c \<Longrightarrow> c \<notin> set special_units \<and> (is_letter c \<longrightarrow> \<not> is_space c \<and> \<not> is_digit c)"
  by (auto simp: is_letter_def special_units_def unit_of_def is_upper_def is_lower_def is_digit_def is_space_def in_ranges_def
      space_units_def)

lemma nis_sum_NaN: "cs \<noteq> [] \<Longrightarrow> nis_sum cs None a = None"
proof (induction cs arbitrary: a)
  case (Cons c cs)
  show ?case
  proof (cases "cs = []")
    case False
    then show ?thesis using Cons.IH by (simp add: Let_def)
  qed (simp add: Let_def)
qed simp

lemma parseInt_letters:
  assumes "is_letter c"
  shows "parseInt (c # s) = None"
  using assms letter_not_special [of c]
  by (auto simp: parseInt_def parse_digits_def is_letter_def is_upper_def is_lower_def)

lemma class_run:
  assumes "\<And>k. i \<le> k \<Longrightarrow> k < i + n \<Longrightarrow> k < length s \<and> cls_match ci neg rs (s ! k)"
  shows "(i, i + n) \<in> rx_rel (Cls neg rs) ci s ^^ n"
  using assms
proof (induction n)
  case (Suc n)
  then have "(i, i + n) \<in> rx_rel (Cls neg rs) ci s ^^ n" by auto
  moreover have "(i + n, Suc (i + n)) \<in> rx_rel (Cls neg rs) ci s" using Suc.prems [of "i + n"] by simp
  ultimately show ?case by auto
qed simp

lemma class_one: "i < length s \<Longrightarrow> cls_match ci neg rs (s ! i) \<Longrightarrow> (i, i + 1) \<in> rx_rel (Cls neg rs) ci s ^^ 1"
  by (rule class_run) (metis Suc_eq_plus1 le_antisym less_Suc_eq_le)

lemma rep_run:
  assumes "(i, j) \<in> rx_rel r ci s ^^ n" "lo \<le> n" "n \<le> hi" "i \<le> length s"
  shows "(i, j) \<in> rx_rel (Rep lo (Some hi) r) ci s"
  using assms by auto

lemma nie_M:
  assumes "list_all is_digit ds" "length ds = 7" "case_mapping upper"
  shows "nieES upper False (js ''M'' @ ds @ js ''T'') = RBool True"
proof -
  let ?v = "js ''M'' @ ds @ js ''T''"
  have low: "list_all (\<lambda>c. \<not> is_lower c) ?v" "ascii ?v"
    using assms(1) by (auto simp: list_all_iff ascii_def unit_of_def is_lower_def is_digit_def)
  have up: "upper ?v = ?v" "upper (js ''T'') = js ''T''"
    using case_mapping.upper_no_lower [OF assms(3)] low by (auto simp: unit_of_def ascii_def is_lower_def)
  have parsed: "RegExp (source_text ''^[MXYZ]{1}[0-9]{7,8}[TRWAGMYFPDXBNJZSQVHLCKET]{1}$'') =
     Some (Seq Bol (Seq (Rep 1 (Some 1) (Cls False [(77, 77), (88, 88), (89, 89), (90, 90)]))
       (Seq (Rep 7 (Some 8) (Cls False [(48, 57)]))
         (Seq (Rep 1 (Some 1) (Cls False (map (\<lambda>c. (c, c)) (js ''TRWAGMYFPDXBNJZSQVHLCKET'')))) (Seq Eol Eps)))))"
    by code_simp
  have len: "length ?v = 9" using assms(2) by simp
  have nth: "?v ! 0 = 77" "?v ! 8 = 84" by (simp_all add: nth_append assms(2) unit_of_def)
  have digits: "is_digit (?v ! k)" if "1 \<le> k" "k < 8" for k
    using that assms(1,2) by (cases k) (auto simp: nth_append list_all_length)
  have "(0, 0 + 1) \<in> rx_rel (Cls False [(77, 77), (88, 88), (89, 89), (90, 90)]) True ?v ^^ 1"
    using nth by (intro class_one) (simp_all add: assms(2) cls_match_def in_ranges_def)
  moreover have "(1, 1 + 7) \<in> rx_rel (Cls False [(48, 57)]) True ?v ^^ 7"
    using digits by (intro class_run) (simp add: cls_match_def in_ranges_def is_digit_def assms(2))
  moreover have "(8, 8 + 1) \<in> rx_rel (Cls False (map (\<lambda>c. (c, c)) (js ''TRWAGMYFPDXBNJZSQVHLCKET''))) True ?v ^^ 1"
    using nth by (intro class_one) (simp_all add: assms(2) cls_match_def in_ranges_def unit_of_def)
  ultimately have "(0, 9) \<in> rx_rel (Seq Bol (Seq (Rep 1 (Some 1) (Cls False [(77, 77), (88, 88), (89, 89), (90, 90)]))
       (Seq (Rep 7 (Some 8) (Cls False [(48, 57)]))
         (Seq (Rep 1 (Some 1) (Cls False (map (\<lambda>c. (c, c)) (js ''TRWAGMYFPDXBNJZSQVHLCKET'')))) (Seq Eol Eps))))) True ?v"
    unfolding rx_rel.simps(3) using len
    by (intro relcompI [of 0 0] relcompI [of 0 1] relcompI [of 1 8] relcompI [of 8 9] relcompI [of 9 9] rep_run [where n = 1] rep_run [where n = 7])
      simp_all
  then have "regex_test True ''^[MXYZ]{1}[0-9]{7,8}[TRWAGMYFPDXBNJZSQVHLCKET]{1}$'' ?v"
    unfolding regex_test_parsed [OF parsed] rx_test_iff by blast
  moreover have "parseInt (substr (nie_first ?v) 0 8) = None"
    by (simp add: nie_first_def unit_of_def substr_def parseInt_letters is_letter_def is_upper_def)
  ultimately show ?thesis
    using up by (simp add: nieES_def Let_def substr_from_def charAt_num_def charAt_def assms(2) nie_first_def unit_of_def)
qed

text \<open>
  A number that cannot be read counts as zero: any ten letters followed by a zero pass for a NIS,
  and a NIE that starts with M passes with the letter T, whatever its digits.
\<close>

theorem unreadable_numbers_count_as_zero:
  assumes "list_all is_letter s" "length s = 10" "list_all is_digit ds" "length ds = 7" "case_mapping upper"
  shows "nisBR (s @ js ''0'') = RBool True \<and> nieES upper False (js ''M'' @ ds @ js ''T'') = RBool True"
proof -
  have keep: "strip_special (s @ js ''0'') = s @ js ''0''"
    using assms(1) letter_not_special unfolding strip_special_def remove_units_def
    by (intro filter_True) (auto simp: list_all_iff unit_of_def special_units_def)
  obtain c t where "s = c # t" using assms(2) by (cases s) auto
  then have nan: "parseInt s = None" using assms(1) by (simp add: parseInt_letters)
  have "substring (s @ js ''0'') 0 10 = s" "substring (s @ js ''0'') 10 11 = js ''0''"
    using assms(2) by (simp_all add: substring_def)
  then have "nisBR (s @ js ''0'') = RBool True"
    unfolding nisBR_def keep Let_def using assms(2)
    by (simp add: nan nis_sum_NaN parseInt_digit unit_of_def is_digit_def digit_value_def del: upt_rec_numeral upt_conv_Cons)
  then show ?thesis using nie_M [OF assms(3-5)] by simp
qed

theorem unreadable_numbers_count_as_zero_witness:
  "nisBR (js ''abcdefghij'' @ js ''0'') = RBool True \<and> nieES ascii_upper False (js ''M'' @ js ''1234567'' @ js ''T'') = RBool True"
  by (rule unreadable_numbers_count_as_zero [OF _ _ _ _ ascii_case.case_mapping_axioms])
    (simp_all add: unit_of_def is_letter_def is_lower_def is_digit_def)

lemma set_replace_text: "set (replace_text fuel p s) \<subseteq> insert 32 (set s)"
proof (induction fuel p s rule: replace_text.induct)
  case (3 f fuel p c s)
  then show ?case using set_drop_subset [of "length p" "c # s"] by (auto simp del: drop_Suc_Cons)
qed auto

lemma set_strip_tags: "set (strip_tags s) \<subseteq> insert 32 (set s)"
proof (induction s rule: strip_tags.induct)
  case (2 c s)
  let ?P = "\<lambda>d. d \<noteq> unit_of CHR ''<'' \<and> d \<noteq> unit_of CHR ''>''"
  have "set (tl (dropWhile ?P (tl s))) \<subseteq> set s"
    by (metis (no_types, lifting) list.set_sel(2) set_dropWhileD subsetI tl_Nil)
  then show ?case using 2 by (subst strip_tags.simps) (auto split: if_splits)
qed simp

lemma count_words_none: "list_all (\<lambda>c. \<not> is_word c) s \<Longrightarrow> count_words b s = 0"
  by (induction s arbitrary: b) auto

text \<open>
  The methods that count words raise a TypeError for a value without any: the match is null and
  its length is read.
\<close>

lemma counting_no_words_raises:
  assumes "list_all (\<lambda>c. \<not> is_word c) value"
  shows "maxWords n False value = Inl TypeError \<and> minWords n False value = Inl TypeError \<and> rangeWords n m False value = Inl TypeError"
proof -
  have "set (stripHtml value) \<subseteq> insert 32 (set value)"
    unfolding stripHtml_def Let_def remove_units_def
    using set_strip_tags [of "value"] set_replace_text [of "strip_tags value" "js ''&nbsp;''" "strip_tags value"]
      set_replace_text [of "replace_text (strip_tags value) (js ''&nbsp;'') (strip_tags value)" "js ''&#160;''"
        "replace_text (strip_tags value) (js ''&nbsp;'') (strip_tags value)"]
    by (auto simp del: js_simps)
  then have "list_all (\<lambda>c. \<not> is_word c) (stripHtml value)"
    using assms by (auto simp: list_all_iff is_word_def is_digit_def is_upper_def is_lower_def)
  then show ?thesis
    by (simp add: maxWords_def minWords_def rangeWords_def words_check_def words_match_def count_words_none)
qed

lemma counting_no_words_example: "maxWords 5 False (js ''!!!'') = Inl TypeError"
  using counting_no_words_raises [of "js ''!!!''" 5 5] by (simp add: unit_of_def is_word_def is_digit_def is_upper_def is_lower_def)

end
