(* ===== verification/JS_Literal.thy ===== *)
theory JS_Literal
  imports JS_Regex_Syntax
begin

text \<open>
  Expressions that are alternatives of plain words: they test for an occurrence of one of the words,
  which is how the models of the scripts compute them.
\<close>

definition literal :: "jstring \<Rightarrow> rx" where
  "literal p = foldr (\<lambda>c r. Seq (Cls False [(c, c)]) r) p Eps"

definition same_unit :: "bool \<Rightarrow> code_unit \<Rightarrow> code_unit \<Rightarrow> bool" where
  "same_unit ci p c \<longleftrightarrow> c = p \<or> ci \<and> (upper_unit c = p \<or> lower_unit c = p)"

fun prefix_units :: "bool \<Rightarrow> jstring \<Rightarrow> jstring \<Rightarrow> bool" where
  "prefix_units ci [] s = True"
| "prefix_units ci (p # ps) [] = False"
| "prefix_units ci (p # ps) (c # s) = (if same_unit ci p c then prefix_units ci ps s else False)"

fun occurs :: "bool \<Rightarrow> jstring \<Rightarrow> jstring \<Rightarrow> bool" where
  "occurs ci p [] = (p = [])"
| "occurs ci p (c # s) = (if prefix_units ci p (c # s) then True else occurs ci p s)"

lemma cls_match_one: "cls_match ci False [(p, p)] c \<longleftrightarrow> same_unit ci p c"
  by (auto simp: cls_match_def same_unit_def in_ranges_def)

lemma literal_ends: "i \<le> length s \<Longrightarrow> rx_ends (literal p) ci s i = (if prefix_units ci p (drop i s) then [i + length p] else [])"
proof (induction p arbitrary: i)
  case (Cons c p)
  show ?case
  proof (cases "i < length s")
    case True
    then have "drop i s = s ! i # drop (Suc i) s" by (rule Cons_nth_drop_Suc [symmetric])
    then show ?thesis using True Cons.IH [of "Suc i"] by (simp add: literal_def cls_match_one)
  qed (use Cons.prems in \<open>simp add: literal_def\<close>)
qed (simp add: literal_def)

lemma occurs_iff: "occurs ci p s \<longleftrightarrow> (\<exists>i \<le> length s. prefix_units ci p (drop i s))"
proof (induction s)
  case Nil
  then show ?case by (cases p) simp_all
next
  case (Cons c s)
  have "(\<exists>i \<le> length (c # s). prefix_units ci p (drop i (c # s))) \<longleftrightarrow>
      prefix_units ci p (c # s) \<or> (\<exists>i \<le> length s. prefix_units ci p (drop i s))"
    by (metis (no_types, lifting) Suc_le_mono drop0 drop_Suc_Cons length_Cons less_eq_nat.simps(1) not0_implies_Suc)
  then show ?case using Cons by simp
qed

lemma rx_test_literal: "rx_test ci (literal p) s \<longleftrightarrow> occurs ci p s"
  by (auto simp: rx_test_def occurs_iff list_ex_iff literal_ends less_Suc_eq_le simp del: upt_Suc split: if_splits)

lemma rx_test_Or: "rx_test ci (Or a b) s \<longleftrightarrow> rx_test ci a s \<or> rx_test ci b s"
proof -
  have "rx_ends (Or a b) ci s i \<noteq> [] \<longleftrightarrow> rx_ends a ci s i \<noteq> [] \<or> rx_ends b ci s i \<noteq> []" for i by simp
  then show ?thesis unfolding rx_test_def list_ex_iff by blast
qed

text \<open>The expressions the validator's own code tests for every element and rule.\<close>

lemma min_max_step [code_unfold]:
  "regex_test False ''min|max|step'' s \<longleftrightarrow>
     occurs False [109, 105, 110] s \<or> occurs False [109, 97, 120] s \<or> occurs False [115, 116, 101, 112] s"
proof -
  have "RegExp (source_text ''min|max|step'') =
      Some (Or (Or (literal [109, 105, 110]) (literal [109, 97, 120])) (literal [115, 116, 101, 112]))"
    by code_simp
  from regex_test_parsed [OF this] show ?thesis by (simp add: rx_test_Or rx_test_literal)
qed

lemma number_range_text [code_unfold]:
  "regex_test False ''number|range|text'' s \<longleftrightarrow>
     occurs False [110, 117, 109, 98, 101, 114] s \<or> occurs False [114, 97, 110, 103, 101] s \<or> occurs False [116, 101, 120, 116] s"
proof -
  have "RegExp (source_text ''number|range|text'') =
      Some (Or (Or (literal [110, 117, 109, 98, 101, 114]) (literal [114, 97, 110, 103, 101])) (literal [116, 101, 120, 116]))"
    by code_simp
  from regex_test_parsed [OF this] show ?thesis by (simp add: rx_test_Or rx_test_literal)
qed

lemma radio_checkbox [code_unfold]:
  "regex_test True ''radio|checkbox'' s \<longleftrightarrow>
     occurs True [114, 97, 100, 105, 111] s \<or> occurs True [99, 104, 101, 99, 107, 98, 111, 120] s"
proof -
  have "RegExp (source_text ''radio|checkbox'') =
      Some (Or (literal [114, 97, 100, 105, 111]) (literal [99, 104, 101, 99, 107, 98, 111, 120]))"
    by code_simp
  from regex_test_parsed [OF this] show ?thesis by (simp add: rx_test_Or rx_test_literal)
qed

end
