(* ===== verification/Rule_Values.thy ===== *)
theory Rule_Values
  imports Validate_Result JS_Literal
begin

text \<open>
  The rules of an element in \<open>jquery.validate.js\<close>: collected from its classes, attributes, data
  attributes and the settings, and normalized. Numbers are those of any ordered ring \<open>'n\<close>;
  \<open>num_of\<close> is \<open>Number\<close> on strings, \<open>None\<close> being \<open>NaN\<close>.
\<close>

section \<open>Values\<close>

text \<open>The value of an element, as \<open>val()\<close> gives it.\<close>

datatype field_value = FUndef | FNull | FStr jstring | FArr "jstring list"

datatype 'n rule_val =
    VUndef
  | VNull
  | VBool bool
  | VNum "'n option"
  | VStr jstring
  | VArr "'n rule_val list"
  | VDep "'n rule_val option" "'n dependency" \<comment> \<open>an object with \<open>param\<close> or \<open>depends\<close>\<close>
  | VFun "nat \<Rightarrow> 'n rule_val" \<comment> \<open>a function of the element\<close>
  | VNormalizer "nat \<Rightarrow> field_value \<Rightarrow> field_value" \<comment> \<open>the function of a \<open>normalizer\<close> rule\<close>
and 'n dependency =
    NoDepends
  | DependsOn jstring \<comment> \<open>a selector\<close>
  | DependsIf "nat \<Rightarrow> bool"
  | OtherDepends

fun val_truthy :: "'n::zero rule_val \<Rightarrow> bool" where
  "val_truthy VUndef = False"
| "val_truthy VNull = False"
| "val_truthy (VBool b) = b"
| "val_truthy (VNum x) = (x \<noteq> None \<and> x \<noteq> Some 0)"
| "val_truthy (VStr s) = (s \<noteq> [])"
| "val_truthy _ = True"

text \<open>Tests that look at the constructor only, so that they compute for functions too.\<close>

definition is_absent :: "'n rule_val \<Rightarrow> bool" where
  "is_absent x = (case x of VUndef \<Rightarrow> True | VNull \<Rightarrow> True | _ \<Rightarrow> False)"

definition is_false :: "'n rule_val \<Rightarrow> bool" where
  "is_false x = (case x of VBool b \<Rightarrow> \<not> b | _ \<Rightarrow> False)"

definition is_zero :: "'n::zero rule_val \<Rightarrow> bool" where
  "is_zero x = (case x of VNum n \<Rightarrow> n = Some 0 | _ \<Rightarrow> False)"

definition is_empty_text :: "'n rule_val \<Rightarrow> bool" where
  "is_empty_text x = (case x of VStr s \<Rightarrow> s = [] | _ \<Rightarrow> False)"

definition no_depends :: "'n dependency \<Rightarrow> bool" where
  "no_depends d = (case d of NoDepends \<Rightarrow> True | _ \<Rightarrow> False)"

text \<open>\<open>Number(v)\<close>; of an array or an object the scripts never take it.\<close>

fun Number :: "(jstring \<Rightarrow> 'n::{zero,one} option) \<Rightarrow> 'n rule_val \<Rightarrow> 'n option" where
  "Number num_of VUndef = None"
| "Number num_of VNull = Some 0"
| "Number num_of (VBool b) = Some (if b then 1 else 0)"
| "Number num_of (VNum x) = x"
| "Number num_of (VStr s) = num_of s"
| "Number num_of _ = None"

type_synonym 'n rules = "'n rule_val obj"

section \<open>Where rules come from\<close>

text \<open>\<open>normalizeRule\<close>: a string of names stands for an object of true properties.\<close>

fun split_space :: "jstring \<Rightarrow> jstring list" where
  "split_space [] = [[]]"
| "split_space (c # s) =
     (if is_space c then [] # split_space s
      else case split_space s of [] \<Rightarrow> [[c]] | p # ps \<Rightarrow> (c # p) # ps)"

datatype 'n rule_data = RuleNames jstring | RuleObject "'n rules"

definition normalizeRule :: "'n rule_data \<Rightarrow> 'n rules" where
  "normalizeRule data = (case data of
      RuleNames s \<Rightarrow> foldl (\<lambda>transformed name. obj_set name (VBool True) transformed) [] (split_space s)
    | RuleObject r \<Rightarrow> r)"

definition addClassRules :: "jstring \<Rightarrow> 'n rules \<Rightarrow> 'n rules obj \<Rightarrow> 'n rules obj" where
  "addClassRules className rules settings = obj_set className rules settings"

definition classRuleSettings :: "'n rules obj" where
  "classRuleSettings = map (\<lambda>m. (m, [(m, VBool True)]))
     [js ''required'', js ''email'', js ''url'', js ''date'', js ''dateISO'', js ''number'', js ''digits'', js ''creditcard'']"

text \<open>\<open>addMethod\<close>: a method of fewer than three parameters is a class rule too.\<close>

record ('m, 'n) method_table =
  mt_methods :: "'m obj"
  mt_messages :: "jstring obj"
  mt_classes :: "'n rules obj"

definition addMethod :: "jstring \<Rightarrow> 'm \<Rightarrow> nat \<Rightarrow> jstring option \<Rightarrow> ('m, 'n) method_table \<Rightarrow> ('m, 'n) method_table" where
  "addMethod name method arity message t =
     (let t = t\<lparr>mt_methods := obj_set name method (mt_methods t)\<rparr>;
          t = (case message of Some m \<Rightarrow> t\<lparr>mt_messages := obj_set name m (mt_messages t)\<rparr> | None \<Rightarrow> t)
      in if arity < 3 then t\<lparr>mt_classes := addClassRules name (normalizeRule (RuleNames name)) (mt_classes t)\<rparr> else t)"

definition classRules :: "'n rules obj \<Rightarrow> jstring option \<Rightarrow> 'n rules" where
  "classRules settings classes =
     (case classes of
        None \<Rightarrow> []
      | Some cs \<Rightarrow>
          if cs = [] then []
          else foldl (\<lambda>rules c. case obj_get settings c of Some r \<Rightarrow> obj_extend rules r | None \<Rightarrow> rules) [] (split_char 32 cs))"

definition normalizeAttributeRule ::
  "(jstring \<Rightarrow> 'n::{zero,one} option) \<Rightarrow> 'n rules \<Rightarrow> jstring option \<Rightarrow> jstring \<Rightarrow> 'n rule_val \<Rightarrow> 'n rules" where
  "normalizeAttributeRule num_of rules type method val =
     (let val =
        (if regex_test False ''min|max|step'' method
             \<and> (case type of None \<Rightarrow> True | Some t \<Rightarrow> regex_test False ''number|range|text'' t) then
           (case Number num_of val of None \<Rightarrow> VUndef | Some n \<Rightarrow> VNum (Some n))
         else val)
      in if val_truthy val \<or> is_zero val then obj_set method val rules
         else if type = Some method \<and> type \<noteq> Some (js ''range'') then
           obj_set (if type = Some (js ''date'') then js ''dateISO'' else method) (VBool True) rules
         else rules)"

text \<open>
  What \<open>attributeRules\<close> and \<open>dataRules\<close> read of an element: its attributes, and its data under the
  names the validator asks for. \<open>methods\<close> are the names of the methods, in order.
\<close>

record 'n rule_element =
  re_attr :: "jstring \<Rightarrow> jstring option"
  re_data :: "jstring \<Rightarrow> 'n rule_val"

definition attr_val :: "jstring option \<Rightarrow> 'n rule_val" where
  "attr_val a = (case a of None \<Rightarrow> VUndef | Some s \<Rightarrow> VStr s)"

definition required_val :: "jstring option \<Rightarrow> 'n rule_val" where
  "required_val a = VBool (case a of None \<Rightarrow> False | Some _ \<Rightarrow> True)"

definition attributeRules ::
  "(jstring \<Rightarrow> 'n::{zero,one} option) \<Rightarrow> ('n option \<Rightarrow> jstring) \<Rightarrow> jstring list \<Rightarrow> 'n rule_element \<Rightarrow> 'n rules" where
  "attributeRules num_of text_of methods element =
     (let type = re_attr element (js ''type'');
          rules = foldl (\<lambda>rules method. normalizeAttributeRule num_of rules type method
            (if method = js ''required'' then required_val (re_attr element method) else attr_val (re_attr element method)))
            [] methods;
          shown = (\<lambda>v. case v of VStr s \<Rightarrow> s | VNum x \<Rightarrow> text_of x | VBool b \<Rightarrow> (if b then js ''true'' else js ''false'') | _ \<Rightarrow> [])
      in case obj_get rules (js ''maxlength'') of
           None \<Rightarrow> rules
         | Some v \<Rightarrow> if val_truthy v \<and> regex_test False ''-1|2147483647|524288'' (shown v)
             then obj_delete (js ''maxlength'') rules else rules)"

definition data_key :: "jstring \<Rightarrow> jstring" where
  "data_key method = js ''rule'' @ ascii_upper (charAt method 0) @ ascii_lower (substr_from method 1)"

definition dataRules :: "(jstring \<Rightarrow> 'n::{zero,one} option) \<Rightarrow> jstring list \<Rightarrow> 'n rule_element \<Rightarrow> 'n rules" where
  "dataRules num_of methods element =
     foldl (\<lambda>rules method.
        let val = re_data element (data_key method); val = (if is_empty_text val then VBool True else val)
        in normalizeAttributeRule num_of rules (re_attr element (js ''type'')) method val) [] methods"

definition staticRules :: "'n rule_data obj \<Rightarrow> jstring \<Rightarrow> 'n rules" where
  "staticRules settings_rules name =
     (case obj_get settings_rules name of None \<Rightarrow> [] | Some d \<Rightarrow> normalizeRule d)"

section \<open>Normalization\<close>

text \<open>Whether a rule with a dependency is kept; \<open>selects\<close> is whether a selector finds something in the form.\<close>

definition keep_rule :: "(jstring \<Rightarrow> bool) \<Rightarrow> nat \<Rightarrow> 'n dependency \<Rightarrow> bool" where
  "keep_rule selects element dep = (case dep of
      DependsOn sel \<Rightarrow> selects sel | DependsIf f \<Rightarrow> f element | NoDepends \<Rightarrow> True | OtherDepends \<Rightarrow> True)"

definition depends_rule ::
  "(jstring \<Rightarrow> bool) \<Rightarrow> nat \<Rightarrow> jstring \<times> 'n::zero rule_val \<Rightarrow> (jstring \<times> 'n rule_val) option" where
  "depends_rule selects element r = (case r of (prop, val) \<Rightarrow>
     if is_false val then None
     else case val of
       VDep param dep \<Rightarrow>
         if (case param of None \<Rightarrow> False | Some p \<Rightarrow> val_truthy p) \<or> \<not> no_depends dep then
           (if keep_rule selects element dep then Some (prop, case param of Some p \<Rightarrow> p | None \<Rightarrow> VBool True) else None)
         else Some (prop, val)
     | _ \<Rightarrow> Some (prop, val))"

definition evaluate_rule :: "nat \<Rightarrow> jstring \<times> 'n rule_val \<Rightarrow> jstring \<times> 'n rule_val" where
  "evaluate_rule element r = (case r of (rule, parameter) \<Rightarrow>
     (rule, case parameter of VFun f \<Rightarrow> if rule \<noteq> js ''normalizer'' then f element else parameter | _ \<Rightarrow> parameter))"

definition clean_length ::
  "(jstring \<Rightarrow> 'n::{zero,one} option) \<Rightarrow> jstring \<Rightarrow> 'n rules \<Rightarrow> 'n rules" where
  "clean_length num_of name rules =
     (case obj_get rules name of
        Some v \<Rightarrow> if val_truthy v then obj_set name (VNum (Number num_of v)) rules else rules
      | None \<Rightarrow> rules)"

fun split_commas :: "jstring \<Rightarrow> jstring list" where
  "split_commas [] = [[]]"
| "split_commas (c # s) =
     (if is_space c \<or> c = unit_of CHR '','' then
        (case s of
           d # _ \<Rightarrow> if is_space d \<or> d = unit_of CHR '','' then split_commas s else [] # split_commas s
         | [] \<Rightarrow> [[], []])
      else case split_commas s of [] \<Rightarrow> [[c]] | p # ps \<Rightarrow> (c # p) # ps)"

definition nth_val :: "'n rule_val list \<Rightarrow> nat \<Rightarrow> 'n rule_val" where
  "nth_val xs i = (if i < length xs then xs ! i else VUndef)"

definition clean_range ::
  "(jstring \<Rightarrow> 'n::{zero,one} option) \<Rightarrow> jstring \<Rightarrow> 'n rules \<Rightarrow> 'n rules" where
  "clean_range num_of name rules =
     (case obj_get rules name of
        Some v \<Rightarrow>
          if \<not> val_truthy v then rules
          else (case v of
            VArr xs \<Rightarrow> obj_set name (VArr [VNum (Number num_of (nth_val xs 0)), VNum (Number num_of (nth_val xs 1))]) rules
          | VStr s \<Rightarrow>
              (let parts = map VStr (split_commas (remove_units (\<lambda>c. c = unit_of CHR ''['' \<or> c = unit_of CHR '']'') s))
               in obj_set name (VArr [VNum (Number num_of (nth_val parts 0)), VNum (Number num_of (nth_val parts 1))]) rules)
          | _ \<Rightarrow> rules)
      | None \<Rightarrow> rules)"

text \<open>\<open>rules.a != null\<close>\<close>

definition defined :: "'n rules \<Rightarrow> jstring \<Rightarrow> bool" where
  "defined rules k = (case obj_get rules k of None \<Rightarrow> False | Some v \<Rightarrow> \<not> is_absent v)"

definition merge_range :: "jstring \<Rightarrow> jstring \<Rightarrow> jstring \<Rightarrow> 'n rules \<Rightarrow> 'n rules" where
  "merge_range lo hi both rules =
     (if defined rules lo \<and> defined rules hi then
        (case (obj_get rules lo, obj_get rules hi) of
           (Some a, Some b) \<Rightarrow> obj_delete hi (obj_delete lo (obj_set both (VArr [a, b]) rules))
         | _ \<Rightarrow> rules)
      else rules)"

definition normalizeRules ::
  "(jstring \<Rightarrow> 'n::{zero,one} option) \<Rightarrow> bool \<Rightarrow> (jstring \<Rightarrow> bool) \<Rightarrow> nat \<Rightarrow> 'n rules \<Rightarrow> 'n rules" where
  "normalizeRules num_of autoCreateRanges selects element rules =
     (let rules = List.map_filter (depends_rule selects element) rules;
          rules = map (evaluate_rule element) rules;
          rules = clean_length num_of (js ''maxlength'') (clean_length num_of (js ''minlength'') rules);
          rules = clean_range num_of (js ''range'') (clean_range num_of (js ''rangelength'') rules)
      in if autoCreateRanges then
           merge_range (js ''minlength'') (js ''maxlength'') (js ''rangelength'')
             (merge_range (js ''min'') (js ''max'') (js ''range'') rules)
         else rules)"

section \<open>The rules of an element\<close>

text \<open>\<open>required\<close> moves to the front, \<open>remote\<close> to the back.\<close>

definition required_first :: "'n::zero rules \<Rightarrow> 'n rules" where
  "required_first data =
     (case obj_get data (js ''required'') of
        Some param \<Rightarrow> if val_truthy param then (js ''required'', param) # obj_delete (js ''required'') data else data
      | None \<Rightarrow> data)"

definition remote_last :: "'n::zero rules \<Rightarrow> 'n rules" where
  "remote_last data =
     (case obj_get data (js ''remote'') of
        Some param \<Rightarrow> if val_truthy param then obj_delete (js ''remote'') data @ [(js ''remote'', param)] else data
      | None \<Rightarrow> data)"

definition merged_rules :: "'n rules \<Rightarrow> 'n rules \<Rightarrow> 'n rules \<Rightarrow> 'n rules \<Rightarrow> 'n rules" where
  "merged_rules cls attr data static = obj_extend (obj_extend (obj_extend (obj_extend [] cls) attr) data) static"

definition rules_of ::
  "(jstring \<Rightarrow> 'n::{zero,one} option) \<Rightarrow> bool \<Rightarrow> (jstring \<Rightarrow> bool) \<Rightarrow> nat
     \<Rightarrow> 'n rules \<Rightarrow> 'n rules \<Rightarrow> 'n rules \<Rightarrow> 'n rules \<Rightarrow> 'n rules" where
  "rules_of num_of autoCreateRanges selects element cls attr data static =
     remote_last (required_first
       (normalizeRules num_of autoCreateRanges selects element (merged_rules cls attr data static)))"

text \<open>\<open>rules("add", \<dots>)\<close> and \<open>rules("remove", \<dots>)\<close> on the static rules of the settings.\<close>

definition rules_add :: "jstring \<Rightarrow> 'n rule_data \<Rightarrow> 'n rule_data obj \<Rightarrow> 'n rule_data obj" where
  "rules_add name argument settings_rules =
     (let existing = obj_delete (js ''messages'') (obj_extend (staticRules settings_rules name) (normalizeRule argument))
      in obj_set name (RuleObject existing) settings_rules)"

definition rules_remove_all :: "jstring \<Rightarrow> 'n rule_data obj \<Rightarrow> 'n rule_data obj" where
  "rules_remove_all name settings_rules = obj_delete name settings_rules"

text \<open>The rules removed by name, and what is left of the element's static rules.\<close>

definition rules_remove :: "jstring \<Rightarrow> 'n rules \<Rightarrow> 'n rule_val option obj \<times> 'n rules" where
  "rules_remove argument existing =
     foldl (\<lambda>(filtered, existing) method. (obj_set method (obj_get existing method) filtered, obj_delete method existing))
       ([], existing) (split_space argument)"

section \<open>Facts\<close>

lemma obj_ok_map_filter:
  assumes "obj_ok rules" "\<And>k v r. f (k, v) = Some r \<Longrightarrow> fst r = k"
  shows "obj_ok (List.map_filter f rules)"
  using assms(1)
proof (induction rules)
  case (Cons p rules)
  have sub: "fst ` set (List.map_filter f rules) \<subseteq> fst ` set rules"
  proof -
    have "fst r = fst p" if "f p = Some r" for p r using assms(2) [of "fst p" "snd p" r] that by simp
    then show ?thesis by (force simp: List.map_filter_def image_iff)
  qed
  show ?case
  proof (cases "f p")
    case (Some r)
    then have "fst r = fst p" using assms(2) [of "fst p" "snd p" r] by simp
    then show ?thesis using Cons sub Some by (auto simp: obj_ok_def List.map_filter_simps)
  qed (use Cons in \<open>simp add: obj_ok_def List.map_filter_simps\<close>)
qed (simp add: List.map_filter_simps)

lemma obj_ok_evaluate: "obj_ok rules \<Longrightarrow> obj_ok (map (evaluate_rule e) rules)"
  by (simp add: obj_ok_def comp_def evaluate_rule_def case_prod_beta)

lemma obj_ok_normalizeRules: "obj_ok rules \<Longrightarrow> obj_ok (normalizeRules num_of auto selects e rules)"
proof -
  assume ok: "obj_ok rules"
  have 1: "obj_ok (List.map_filter (depends_rule selects e) rules)"
    by (rule obj_ok_map_filter [OF ok]) (auto simp: depends_rule_def split: if_splits rule_val.splits)
  note 2 = obj_ok_evaluate [OF 1, of e]
  have 3: "obj_ok r \<Longrightarrow> obj_ok (clean_length num_of n r)" for n r by (simp add: clean_length_def split: option.split)
  have 4: "obj_ok r \<Longrightarrow> obj_ok (clean_range num_of n r)" for n r
    by (simp add: clean_range_def Let_def split: option.split rule_val.split)
  have 5: "obj_ok r \<Longrightarrow> obj_ok (merge_range a b c r)" for a b c r by (simp add: merge_range_def split: option.split)
  show ?thesis using 2 by (simp add: normalizeRules_def Let_def 3 4 5)
qed

lemma obj_ok_merged: "obj_ok (merged_rules a b c d)"
  by (simp add: merged_rules_def)

lemma obj_ok_rules_of: "obj_ok (rules_of num_of auto selects e a b c d)"
proof -
  let ?r = "normalizeRules num_of auto selects e (merged_rules a b c d)"
  have "obj_ok ?r" by (rule obj_ok_normalizeRules [OF obj_ok_merged])
  then have "obj_ok (required_first ?r)"
    by (auto simp: required_first_def obj_ok_def obj_delete_def distinct_map_filter split: option.split)
  then show ?thesis
    by (auto simp: rules_of_def remote_last_def obj_ok_def obj_delete_def distinct_map_filter split: option.split)
qed

text \<open>A required element is checked for that first, and a remote rule comes last.\<close>

lemma required_comes_first:
  assumes "obj_get (rules_of num_of auto selects e a b c d) (js ''required'') = Some v" "val_truthy v"
  shows "\<exists>rest. rules_of num_of auto selects e a b c d = (js ''required'', v) # rest"
proof -
  let ?r = "normalizeRules num_of auto selects e (merged_rules a b c d)"
  have ne: "js ''required'' \<noteq> js ''remote''" by simp
  have app: "obj_get (xs @ ys) k = (case obj_get xs k of Some v \<Rightarrow> Some v | None \<Rightarrow> obj_get ys k)" for xs ys :: "'a rules" and k
    by (simp add: obj_get_def map_add_def split: option.split)
  have one: "obj_get [(k', v)] k = (if k = k' then Some v else None)" for v :: "'a rule_val" and k k'
    by (simp add: obj_get_def)
  have keep: "obj_get (remote_last r) (js ''required'') = obj_get r (js ''required'')" for r :: "'a rules"
    using ne by (simp add: remote_last_def app one del: js_simps split: option.split)
  have front: "obj_get ((k', v) # r) k = (if k = k' then Some v else obj_get r k)" for r :: "'a rules" and v k k'
    by (simp add: obj_get_def)
  have same: "obj_get (required_first ?r) (js ''required'') = obj_get ?r (js ''required'')"
    by (simp add: required_first_def front del: js_simps split: option.split)
  have "obj_get ?r (js ''required'') = Some v"
    using assms(1) by (simp only: rules_of_def keep same)
  then have first: "required_first ?r = (js ''required'', v) # obj_delete (js ''required'') ?r"
    using assms(2) by (simp add: required_first_def del: js_simps)
  have cons: "obj_delete k ((k', v) # r) = (k', v) # obj_delete k r" if "k' \<noteq> k" for k k' and v :: "'a rule_val" and r
    using that by (simp add: obj_delete_def)
  have "\<exists>rest. remote_last ((js ''required'', v) # r) = (js ''required'', v) # rest" for r :: "'a rules"
    unfolding remote_last_def cons [OF ne] by (auto split: option.split)
  then show ?thesis unfolding rules_of_def first .
qed

end
