(* ===== verification/JQuery_Param.thy ===== *)
theory JQuery_Param
  imports Validate_Result
begin

text \<open>
  \<open>jQuery.param\<close> and \<open>buildParams\<close>: data as a query string. \<open>encodeURIComponent\<close> is the language's
  own function: the UTF-8 bytes of the code points, percent-encoded.
\<close>

section \<open>Percent encoding\<close>

definition unreserved :: "code_unit \<Rightarrow> bool" where
  "unreserved c \<longleftrightarrow> is_word c \<or> c \<in> set (js ''-.!~*()'') \<or> c = 39"

definition hex_upper :: "nat \<Rightarrow> code_unit" where
  "hex_upper k = (if k < 10 then 48 + k else 55 + k)"

definition percent :: "nat \<Rightarrow> jstring" where
  "percent b = [unit_of CHR ''%'', hex_upper (b div 16), hex_upper (b mod 16)]"

definition utf8_bytes :: "nat \<Rightarrow> nat list" where
  "utf8_bytes p =
     (if p < 128 then [p]
      else if p < 2048 then [192 + p div 64, 128 + p mod 64]
      else if p < 65536 then [224 + p div 4096, 128 + p div 64 mod 64, 128 + p mod 64]
      else [240 + p div 262144, 128 + p div 4096 mod 64, 128 + p div 64 mod 64, 128 + p mod 64])"

definition high_surrogate :: "code_unit \<Rightarrow> bool" where
  "high_surrogate c \<longleftrightarrow> 0xD800 \<le> c \<and> c \<le> 0xDBFF"

definition low_surrogate :: "code_unit \<Rightarrow> bool" where
  "low_surrogate c \<longleftrightarrow> 0xDC00 \<le> c \<and> c \<le> 0xDFFF"

text \<open>The code points of a string; a lone surrogate makes the language raise a \<open>URIError\<close>.\<close>

fun code_points :: "jstring \<Rightarrow> nat list option" where
  "code_points [] = Some []"
| "code_points (c # s) =
     (if low_surrogate c then None
      else if high_surrogate c then
        (case s of
           [] \<Rightarrow> None
         | d # t \<Rightarrow> if low_surrogate d
             then map_option (Cons (0x10000 + (c - 0xD800) * 1024 + (d - 0xDC00))) (code_points t) else None)
      else map_option (Cons c) (code_points s))"

definition encode_point :: "nat \<Rightarrow> jstring" where
  "encode_point p = (if unreserved p then [p] else concat (map percent (utf8_bytes p)))"

definition encodeURIComponent :: "jstring \<Rightarrow> js_error + jstring" where
  "encodeURIComponent s =
     (case code_points s of
        None \<Rightarrow> Inl (PlainError (js ''URIError''))
      | Some ps \<Rightarrow> Inr (concat (map encode_point ps)))"

section \<open>Data\<close>

text \<open>
  The values \<open>param\<close> meets. A number or a boolean is its text; a function is what it returns.
\<close>

datatype js_data =
    DUndef
  | DNull
  | DText jstring
  | DArray "js_data list"
  | DObject "(jstring \<times> js_data) list"
  | DFunction js_data

text \<open>The text the language makes of a value: of an array its items with commas, where null is empty.\<close>

fun text_of_data :: "js_data \<Rightarrow> jstring" where
  "text_of_data DUndef = js ''undefined''"
| "text_of_data DNull = js ''null''"
| "text_of_data (DText s) = s"
| "text_of_data (DArray xs) =
     join_with (js '','') (map (\<lambda>x. if x = DUndef \<or> x = DNull then [] else text_of_data x) xs)"
| "text_of_data (DObject _) = js ''[object Object]''"
| "text_of_data (DFunction _) = js ''function''"

fun typeof_object :: "js_data \<Rightarrow> bool" where
  "typeof_object (DArray _) = True"
| "typeof_object (DObject _) = True"
| "typeof_object _ = False"

section \<open>buildParams\<close>

definition rbracket :: "jstring \<Rightarrow> bool" where
  "rbracket s \<longleftrightarrow> last_chars 2 s = js ''[]''"

text \<open>The calls of \<open>add\<close>, in order.\<close>

function buildParams :: "jstring \<Rightarrow> js_data \<Rightarrow> bool \<Rightarrow> (jstring \<times> js_data) list" where
  "buildParams prefix obj traditional =
     (case obj of
        DArray xs \<Rightarrow>
          concat (map (\<lambda>(i, v).
            if traditional \<or> rbracket prefix then [(prefix, v)]
            else buildParams (prefix @ js ''['' @ (if typeof_object v then decimal i else []) @ js '']'') v traditional)
            (enumerate 0 xs))
      | DObject ps \<Rightarrow>
          if traditional then [(prefix, obj)]
          else concat (map (\<lambda>(name, v). buildParams (prefix @ js ''['' @ name @ js '']'') v traditional) ps)
      | _ \<Rightarrow> [(prefix, obj)])"
  by pat_completeness auto

lemma size_enumerate: "(i, v) \<in> set (enumerate n xs) \<Longrightarrow> size v < Suc (size_list size xs)"
  by (metis in_set_enumerate_eq le_imp_less_Suc nth_mem size_list_estimation' order_refl snd_conv add_diff_inverse_nat
      less_diff_conv2 nat_neq_iff not_less_eq)

lemma size_member: "(k, v) \<in> set ps \<Longrightarrow> size v < Suc (size_list (size_prod (\<lambda>_. 0) size) ps)"
  by (induction ps) (auto simp: less_Suc_eq_le)

termination buildParams
  by (relation "measure (\<lambda>(_, obj, _). size obj)") (auto dest: size_enumerate size_member)

section \<open>The query string\<close>

definition param_value :: "js_data \<Rightarrow> js_data" where
  "param_value v = (case v of DFunction r \<Rightarrow> r | _ \<Rightarrow> v)"

definition param_pair :: "jstring \<Rightarrow> js_data \<Rightarrow> js_error + jstring" where
  "param_pair key valueOrFunction =
     (let v = param_value valueOrFunction
      in case encodeURIComponent key of
           Inl e \<Rightarrow> Inl e
         | Inr k \<Rightarrow> (case encodeURIComponent (if v = DUndef \<or> v = DNull then [] else text_of_data v) of
             Inl e \<Rightarrow> Inl e
           | Inr t \<Rightarrow> Inr (k @ js ''='' @ t)))"

fun param_pairs :: "(jstring \<times> js_data) list \<Rightarrow> js_error + jstring list" where
  "param_pairs [] = Inr []"
| "param_pairs ((k, v) # ps) =
     (case param_pair k v of
        Inl e \<Rightarrow> Inl e
      | Inr s \<Rightarrow> (case param_pairs ps of Inl e \<Rightarrow> Inl e | Inr ss \<Rightarrow> Inr (s # ss)))"

text \<open>An array stands for form elements: objects with a \<open>name\<close> and a \<open>value\<close>.\<close>

definition form_entry :: "js_data \<Rightarrow> jstring \<times> js_data" where
  "form_entry x =
     (let field = (\<lambda>k. case x of DObject ps \<Rightarrow> (case obj_get ps k of Some v \<Rightarrow> v | None \<Rightarrow> DUndef) | _ \<Rightarrow> DUndef)
      in (text_of_data (field (js ''name'')), field (js ''value'')))"

definition jQuery_param :: "js_data \<Rightarrow> bool \<Rightarrow> js_error + jstring" where
  "jQuery_param a traditional =
     (let adds = (case a of
         DArray xs \<Rightarrow> map form_entry xs
       | DObject ps \<Rightarrow> concat (map (\<lambda>(prefix, v). buildParams prefix v traditional) ps)
       | _ \<Rightarrow> [])
      in case param_pairs adds of Inl e \<Rightarrow> Inl e | Inr ss \<Rightarrow> Inr (join_with (js ''&'') ss))"

section \<open>Facts\<close>

lemma hex_upper_plain: "hex_upper k \<noteq> 38 \<and> hex_upper k \<noteq> 61"
  by (auto simp: hex_upper_def)

lemma unreserved_plain: "\<not> unreserved 38 \<and> \<not> unreserved 61"
  by (simp add: unreserved_def is_word_def is_digit_def is_lower_def is_upper_def unit_of_def)

lemma encode_point_plain: "c \<in> set (encode_point p) \<Longrightarrow> c \<noteq> 38 \<and> c \<noteq> 61"
  using hex_upper_plain unreserved_plain by (auto simp: encode_point_def percent_def unit_of_def split: if_splits)

text \<open>Neither separator of the query string is left in an encoded text.\<close>

lemma encodeURIComponent_plain:
  "encodeURIComponent s = Inr t \<Longrightarrow> unit_of CHR ''&'' \<notin> set t \<and> unit_of CHR ''='' \<notin> set t"
  using encode_point_plain by (fastforce simp: encodeURIComponent_def unit_of_def split: option.splits)

end
