(* ===== verification/Form_State.thy ===== *)
theory Form_State
  imports Rule_Values Css_Escape JQuery_Param
begin

text \<open>
  The page as the form validator of \<open>jquery.validate.js\<close> sees it, the validator object, and the
  queries the validator makes: names, labels, values, lengths, the \<open>required\<close> method.

  Elements, error labels and error containers are numbers: positions in the lists of the state. The
  form is number zero among the forms; an element knows the form that owns it.
\<close>

section \<open>Elements and labels\<close>

record 'n felem =
  fe_node :: jstring
  fe_type :: jstring
  fe_name :: jstring
  fe_id :: jstring
  fe_title :: jstring
  fe_form :: "nat option"
  fe_closest :: nat \<comment> \<open>the form around it\<close>
  fe_attr :: "jstring \<Rightarrow> jstring option"
  fe_data :: "jstring \<Rightarrow> 'n rule_val"
  fe_msg :: "jstring \<Rightarrow> jstring option" \<comment> \<open>the data attributes that hold messages\<close>
  fe_val :: field_value
  fe_text :: jstring
  fe_checked :: bool
  fe_badInput :: "bool option" \<comment> \<open>\<open>None\<close> where the browser has no \<open>validity\<close>\<close>
  fe_selected :: nat \<comment> \<open>how many options are selected\<close>
  fe_parent :: "nat option" \<comment> \<open>the parent node, where it is one of the elements\<close>
  fe_ignored :: bool \<comment> \<open>it matches \<open>settings.ignore\<close>\<close>
  fe_visible :: bool
  fe_left_out :: bool \<comment> \<open>it matches \<open>:submit, :reset, :image, :disabled\<close>\<close>
  fe_validated :: bool \<comment> \<open>an input, select, textarea, contenteditable or custom element\<close>
  fe_classes :: "jstring list"
  fe_labels :: "jstring list" \<comment> \<open>what the labels around it are for\<close>

text \<open>An error label: where it was put, what it is for, and what it shows.\<close>

datatype place = InContainer | ByPlacement nat | AfterElement nat

record err_label =
  el_id :: jstring
  el_for :: "jstring option"
  el_inside :: "jstring list" \<comment> \<open>what the labels around it are for\<close>
  el_text :: jstring
  el_html :: bool \<comment> \<open>the text was set as markup\<close>
  el_classes :: "jstring list"
  el_place :: place
  el_shown :: bool
  el_wrapped :: bool
  el_wrapper_shown :: bool

datatype item = Label nat | Box nat

datatype 'n message = MsgUndef | MsgText jstring | MsgFun "'n rule_val \<Rightarrow> nat \<Rightarrow> jstring"

datatype 'n field_messages = MsgAll jstring | MsgBy "'n message obj"

record list_error =
  le_message :: jstring
  le_element :: nat
  le_method :: "jstring option"

record 'n previous_value =
  pv_old :: "jstring option"
  pv_valid :: "bool option"
  pv_message :: jstring
  pv_original :: "'n message"

record button =
  bt_name :: jstring
  bt_val :: jstring
  bt_cancel :: bool
  bt_novalidate :: bool

text \<open>An Ajax request of the \<open>remote\<close> method, with what its callback has captured.\<close>

record request =
  rq_element :: nat
  rq_method :: jstring
  rq_previous :: nat
  rq_value :: field_value

datatype effect =
    InvalidForm \<comment> \<open>the event \<open>invalid-form\<close>\<close>
  | Focus nat
  | Submitted "(jstring \<times> jstring) option" \<comment> \<open>the form is sent, with the hidden input in it\<close>
  | HandlerCalled "(jstring \<times> jstring) option"
  | Sent nat
  | Aborted nat

section \<open>The validator\<close>

record 'n validator =
  v_elems :: "'n felem list"
  v_labels :: "err_label list"
  v_boxes :: "bool list" \<comment> \<open>which of the error containers are shown\<close>
  v_label_container :: bool
  v_groups :: "jstring obj"
  v_messages :: "'n field_messages obj"
  v_submitted :: "jstring obj"
  v_invalid :: "bool obj"
  v_pending :: "bool obj"
  v_pendingRequest :: nat
  v_errorList :: "list_error list"
  v_errorMap :: "jstring obj"
  v_successList :: "nat list"
  v_currentElements :: "nat list"
  v_toShow :: "item list"
  v_toHide :: "item list"
  v_formSubmitted :: bool
  v_submitButton :: "button option"
  v_cancelSubmit :: bool
  v_lastActive :: "nat option"
  v_hidden :: "(jstring \<times> jstring) list"
  v_previous :: "(nat \<times> nat) list" \<comment> \<open>the data \<open>previousValue\<close> of the elements\<close>
  v_previous_heap :: "'n previous_value list"
  v_open :: "(nat \<times> request) list" \<comment> \<open>requests without an answer\<close>
  v_ports :: "nat obj"
  v_next :: nat
  v_blur :: "(nat \<times> nat) list" \<comment> \<open>elements to check again when a target is left\<close>
  v_log :: "effect list"

type_synonym ('a, 'n) run = "(js_error + 'a) \<times> 'n validator"

definition elem :: "'n validator \<Rightarrow> nat \<Rightarrow> 'n felem" where
  "elem v i = v_elems v ! i"

definition set_elem :: "nat \<Rightarrow> ('n felem \<Rightarrow> 'n felem) \<Rightarrow> 'n validator \<Rightarrow> 'n validator" where
  "set_elem i f v = v\<lparr>v_elems := (v_elems v)[i := f (v_elems v ! i)]\<rparr>"

definition set_label :: "nat \<Rightarrow> (err_label \<Rightarrow> err_label) \<Rightarrow> 'n validator \<Rightarrow> 'n validator" where
  "set_label i f v = v\<lparr>v_labels := (v_labels v)[i := f (v_labels v ! i)]\<rparr>"

definition name_of :: "'n validator \<Rightarrow> nat \<Rightarrow> jstring" where
  "name_of v i = fe_name (elem v i)"

definition emit :: "effect \<Rightarrow> 'n validator \<Rightarrow> 'n validator" where
  "emit e v = v\<lparr>v_log := v_log v @ [e]\<rparr>"

section \<open>Classes\<close>

text \<open>The names a class argument holds; an empty text holds none.\<close>

definition class_names :: "jstring \<Rightarrow> jstring list" where
  "class_names c = filter (\<lambda>s. s \<noteq> []) (split_space c)"

definition add_class :: "jstring \<Rightarrow> jstring list \<Rightarrow> jstring list" where
  "add_class c cs = foldl (\<lambda>cs d. if d \<in> set cs then cs else cs @ [d]) cs (class_names c)"

definition remove_class :: "jstring \<Rightarrow> jstring list \<Rightarrow> jstring list" where
  "remove_class c cs = filter (\<lambda>d. d \<notin> set (class_names c)) cs"

definition elem_class :: "jstring \<Rightarrow> jstring \<Rightarrow> 'n felem \<Rightarrow> 'n felem" where
  "elem_class add remove e = e\<lparr>fe_classes := remove_class remove (add_class add (fe_classes e))\<rparr>"

section \<open>Finding things\<close>

text \<open>\<open>$.trim\<close> of the script: white space, byte order marks and no-break spaces at both ends.\<close>

definition trim :: "jstring \<Rightarrow> jstring" where
  "trim str = rev (dropWhile is_space (rev (dropWhile is_space str)))"

definition field_text :: "field_value \<Rightarrow> jstring" where
  "field_text val = (case val of FUndef \<Rightarrow> js ''undefined'' | FNull \<Rightarrow> js ''null'' | FStr s \<Rightarrow> s
     | FArr ss \<Rightarrow> join_with (js '','') ss)"

definition blank_pseudo :: "'n felem \<Rightarrow> bool" where
  "blank_pseudo a = (trim (field_text (fe_val a)) = [])"

definition filled_pseudo :: "'n felem \<Rightarrow> bool" where
  "filled_pseudo a = (fe_val a \<noteq> FNull \<and> trim (field_text (fe_val a)) \<noteq> [])"

definition unchecked_pseudo :: "'n felem \<Rightarrow> bool" where
  "unchecked_pseudo a = (\<not> fe_checked a)"

text \<open>\<open>[name='\<dots>']\<close> matches what the engine reads from the escaped name.\<close>

definition findByName :: "'n validator \<Rightarrow> jstring \<Rightarrow> nat list" where
  "findByName v name =
     filter (\<lambda>i. fe_name (elem v i) = runescape (escapeCssMeta (Some name))) [0..<length (v_elems v)]"

definition checkable :: "'n felem \<Rightarrow> bool" where
  "checkable element = regex_test True ''radio|checkbox'' (fe_type element)"

definition idOrName :: "'n validator \<Rightarrow> nat \<Rightarrow> jstring" where
  "idOrName v i =
     (let e = elem v i
      in case obj_get (v_groups v) (fe_name e) of
           Some g \<Rightarrow> if g \<noteq> [] then g
             else if checkable e then fe_name e else if fe_id e \<noteq> [] then fe_id e else fe_name e
         | None \<Rightarrow> if checkable e then fe_name e else if fe_id e \<noteq> [] then fe_id e else fe_name e)"

definition validationTargetFor :: "'n validator \<Rightarrow> nat \<Rightarrow> nat option" where
  "validationTargetFor v i =
     (let found = (if checkable (elem v i) then findByName v (fe_name (elem v i)) else [i])
      in case filter (\<lambda>j. \<not> fe_ignored (elem v j)) found of [] \<Rightarrow> None | j # _ \<Rightarrow> Some j)"

text \<open>
  \<open>errorsFor\<close>: the labels for the element's identifier, what is inside such labels, and those the
  attribute \<open>aria-describedby\<close> names.
\<close>

definition described_ids :: "jstring option \<Rightarrow> jstring list" where
  "described_ids describer =
     (case describer of
        None \<Rightarrow> []
      | Some d \<Rightarrow> class_names d)"

definition errors :: "jstring \<Rightarrow> 'n validator \<Rightarrow> nat list" where
  "errors errorClass v =
     filter (\<lambda>k. \<forall>c \<in> set (class_names errorClass). c \<in> set (el_classes (v_labels v ! k)))
       [0..<length (v_labels v)]"

definition errorsFor :: "jstring \<Rightarrow> 'n validator \<Rightarrow> nat \<Rightarrow> nat list" where
  "errorsFor errorClass v i =
     (let name = runescape (escapeCssMeta (Some (idOrName v i)));
          ids = described_ids (fe_attr (elem v i) (js ''aria-describedby''))
      in filter (\<lambda>k. let l = v_labels v ! k
           in el_for l = Some name \<or> name \<in> set (el_inside l) \<or> el_id l \<in> set ids)
         (errors errorClass v))"

section \<open>Values\<close>

definition is_editable :: "'n felem \<Rightarrow> bool" where
  "is_editable e = (case fe_attr e (js ''contenteditable'') of None \<Rightarrow> False | Some t \<Rightarrow> t \<noteq> js ''false'')"

definition after_last :: "code_unit \<Rightarrow> jstring \<Rightarrow> jstring option" where
  "after_last c s = (if c \<in> set s then Some (rev (takeWhile (\<lambda>d. d \<noteq> c) (rev s))) else None)"

definition fakepath :: jstring where
  "fakepath = source_text ''C:~fakepath~''"

definition file_name :: "jstring \<Rightarrow> jstring" where
  "file_name val =
     (if substr val 0 12 = fakepath then substr_from val 12
      else case after_last 47 val of
             Some s \<Rightarrow> s
           | None \<Rightarrow> (case after_last 92 val of Some s \<Rightarrow> s | None \<Rightarrow> val))"

definition elementValue :: "'n validator \<Rightarrow> nat \<Rightarrow> field_value" where
  "elementValue v i =
     (let e = elem v i
      in if fe_type e = js ''radio'' \<or> fe_type e = js ''checkbox'' then
           (case filter (\<lambda>j. fe_checked (elem v j)) (findByName v (fe_name e)) of
              [] \<Rightarrow> FUndef | j # _ \<Rightarrow> fe_val (elem v j))
         else if fe_type e = js ''number'' \<and> fe_badInput e \<noteq> None then
           (if fe_badInput e = Some True then FStr (js ''NaN'') else fe_val e)
         else
           (let val = (if is_editable e then FStr (fe_text e) else fe_val e)
            in case val of
                 FStr s \<Rightarrow> FStr (if fe_type e = js ''file'' then file_name s else remove_units (\<lambda>c. c = 13) s)
               | _ \<Rightarrow> val))"

text \<open>\<open>getLength\<close>; \<open>None\<close> is the error of reading the length of \<open>undefined\<close> or \<open>null\<close>.\<close>

definition getLength :: "'n validator \<Rightarrow> field_value \<Rightarrow> nat \<Rightarrow> nat option" where
  "getLength v val i =
     (let e = elem v i; node = ascii_lower (fe_node e)
      in if node = js ''select'' then Some (fe_selected e)
         else if node = js ''input'' \<and> checkable e then
           Some (length (filter (\<lambda>j. fe_checked (elem v j)) (findByName v (fe_name e))))
         else case val of FStr s \<Rightarrow> Some (length s) | FArr ss \<Rightarrow> Some (length ss) | _ \<Rightarrow> None)"

section \<open>The required method\<close>

text \<open>\<open>dependTypes\<close> and \<open>depend\<close>; a parameter of another type has no entry and counts as met.\<close>

definition depend :: "(jstring \<Rightarrow> bool) \<Rightarrow> 'n::zero rule_val \<Rightarrow> nat \<Rightarrow> bool" where
  "depend selects param i = (case param of
      VBool b \<Rightarrow> b
    | VStr sel \<Rightarrow> selects sel
    | VFun f \<Rightarrow> val_truthy (f i)
    | _ \<Rightarrow> True)"

definition required ::
  "(jstring \<Rightarrow> bool) \<Rightarrow> 'n::zero validator \<Rightarrow> field_value \<Rightarrow> nat \<Rightarrow> 'n rule_val \<Rightarrow> method_result" where
  "required selects v val i param =
     (if \<not> depend selects param i then RMismatch
      else let e = elem v i
        in if ascii_lower (fe_node e) = js ''select'' then
             (case fe_val e of FStr s \<Rightarrow> RBool (s \<noteq> []) | FArr ss \<Rightarrow> RBool (ss \<noteq> []) | _ \<Rightarrow> RBool False)
           else if checkable e then
             RBool (case getLength v val i of Some n \<Rightarrow> n > 0 | None \<Rightarrow> False)
           else (case val of FStr s \<Rightarrow> RBool (s \<noteq> []) | FArr ss \<Rightarrow> RBool (ss \<noteq> []) | _ \<Rightarrow> RBool False))"

text \<open>\<open>optional\<close> calls \<open>required\<close> without a parameter.\<close>

definition optional :: "(jstring \<Rightarrow> bool) \<Rightarrow> 'n::zero validator \<Rightarrow> nat \<Rightarrow> bool" where
  "optional selects v i = (\<not> truthy (required selects v (elementValue v i) i VUndef))"

section \<open>Facts\<close>

lemma findByName_iff: "i \<in> set (findByName v name) \<longleftrightarrow> i < length (v_elems v) \<and> fe_name (elem v i) = name"
  by (auto simp: findByName_def escapeCssMeta_def runescape_meta)

lemma add_class_set [simp]: "set (add_class c cs) = set cs \<union> set (class_names c)"
proof -
  have "set (foldl (\<lambda>cs d. if d \<in> set cs then cs else cs @ [d]) cs ds) = set cs \<union> set ds" for ds :: "jstring list"
    by (induction ds arbitrary: cs) auto
  then show ?thesis by (simp add: add_class_def)
qed

lemma remove_class_set [simp]: "set (remove_class c cs) = set cs - set (class_names c)"
  by (auto simp: remove_class_def)

lemma set_elem_fields [simp]:
  "v_labels (set_elem i f v) = v_labels v" "v_pending (set_elem i f v) = v_pending v"
  "v_pendingRequest (set_elem i f v) = v_pendingRequest v" "v_open (set_elem i f v) = v_open v"
  "v_errorList (set_elem i f v) = v_errorList v" "v_errorMap (set_elem i f v) = v_errorMap v"
  "length (v_elems (set_elem i f v)) = length (v_elems v)" "v_log (set_elem i f v) = v_log v"
  by (simp_all add: set_elem_def)

lemma set_label_fields [simp]:
  "v_elems (set_label i f v) = v_elems v" "v_pending (set_label i f v) = v_pending v"
  "v_pendingRequest (set_label i f v) = v_pendingRequest v" "v_open (set_label i f v) = v_open v"
  "v_errorList (set_label i f v) = v_errorList v" "v_errorMap (set_label i f v) = v_errorMap v"
  "length (v_labels (set_label i f v)) = length (v_labels v)" "v_log (set_label i f v) = v_log v"
  by (simp_all add: set_label_def)

end
