(* ===== verification/Form_Messages.thy ===== *)
theory Form_Messages
  imports Form_State
begin

text \<open>
  Messages and labels of the form validator: \<open>format\<close>, the choice of a message, \<open>formatAndAdd\<close>, and
  what is shown and hidden by \<open>showErrors\<close>.
\<close>

section \<open>Settings\<close>

text \<open>
  The settings, the tables of \<open>$.validator\<close> and what the validator asks the page: functions are
  those the caller passed, with \<open>None\<close> where there is none.
\<close>

datatype success_setting = SuccessClass jstring | SuccessFun "err_label \<Rightarrow> nat \<Rightarrow> err_label"

type_synonym 'n method_fun = "'n validator \<Rightarrow> field_value \<Rightarrow> nat \<Rightarrow> 'n rule_val \<Rightarrow> (method_result, 'n) run"

record 'n settings =
  c_errorClass :: jstring
  c_validClass :: jstring
  c_pendingClass :: jstring
  c_errorElement :: jstring
  c_focusCleanup :: bool
  c_focusInvalid :: bool
  c_onfocusout :: bool
  c_debug :: bool
  c_ignoreTitle :: bool
  c_escapeHtml :: bool
  c_wrapper :: bool
  c_success :: "success_setting option"
  c_errorPlacement :: "(nat \<Rightarrow> jstring list) option" \<comment> \<open>the labels around the place it chooses\<close>
  c_highlight :: "('n validator \<Rightarrow> nat \<Rightarrow> jstring \<Rightarrow> jstring \<Rightarrow> 'n validator) option"
  c_unhighlight :: "('n validator \<Rightarrow> nat \<Rightarrow> jstring \<Rightarrow> jstring \<Rightarrow> 'n validator) option"
  c_showErrors :: "('n validator \<Rightarrow> 'n validator) option"
  c_submitHandler :: "('n validator \<Rightarrow> bool option \<times> 'n validator) option"
  c_normalizer :: "(nat \<Rightarrow> field_value \<Rightarrow> field_value) option"
  c_messages :: "'n message obj" \<comment> \<open>\<open>$.validator.messages\<close>\<close>
  c_methods :: "'n method_fun obj"
  c_class_rules :: "'n rules obj"
  c_rules :: "'n rule_data obj"
  c_autoCreateRanges :: bool
  c_num_of :: "jstring \<Rightarrow> 'n option"
  c_text_of :: "'n option \<Rightarrow> jstring"
  c_selects :: "jstring \<Rightarrow> bool"
  c_target :: "'n rule_val \<Rightarrow> nat option"
  c_remote_data :: "'n rule_val \<Rightarrow> (jstring \<times> js_data) list"

section \<open>format\<close>

fun show_val :: "('n option \<Rightarrow> jstring) \<Rightarrow> 'n rule_val \<Rightarrow> jstring" where
  "show_val text_of VUndef = js ''undefined''"
| "show_val text_of VNull = js ''null''"
| "show_val text_of (VBool b) = (if b then js ''true'' else js ''false'')"
| "show_val text_of (VNum x) = text_of x"
| "show_val text_of (VStr s) = s"
| "show_val text_of (VArr xs) = join_with (js '','') (map (show_val text_of) xs)"
| "show_val text_of (VDep _ _) = js ''[object Object]''"
| "show_val text_of (VFun _) = js ''function''"
| "show_val text_of (VNormalizer _) = js ''function''"

function replace_all :: "jstring \<Rightarrow> jstring \<Rightarrow> jstring \<Rightarrow> jstring" where
  "replace_all p t [] = []"
| "replace_all p t (c # s) =
     (if p \<noteq> [] \<and> take (length p) (c # s) = p then t @ replace_all p t (drop (length p - 1) s)
      else c # replace_all p t s)"
  by pat_completeness auto
termination by (relation "measure (\<lambda>(_, _, s). length s)") auto

definition placeholder :: "nat \<Rightarrow> jstring" where
  "placeholder i = js ''{'' @ decimal i @ js ''}''"

definition format_params :: "('n option \<Rightarrow> jstring) \<Rightarrow> jstring \<Rightarrow> 'n rule_val \<Rightarrow> jstring" where
  "format_params text_of source params =
     (case params of
        VUndef \<Rightarrow> source
      | _ \<Rightarrow>
          (let ns = (case params of VArr xs \<Rightarrow> xs | _ \<Rightarrow> [params])
           in foldl (\<lambda>source (i, n). replace_all (placeholder i) (show_val text_of n) source) source (enumerate 0 ns)))"

text \<open>The messages that ship with the validator.\<close>

definition format_message :: "('n option \<Rightarrow> jstring) \<Rightarrow> jstring \<Rightarrow> 'n rule_val \<Rightarrow> nat \<Rightarrow> jstring" where
  "format_message text_of source params i = format_params text_of source params"

definition default_messages :: "('n option \<Rightarrow> jstring) \<Rightarrow> 'n message obj" where
  "default_messages text_of =
     [(js ''required'', MsgText (js ''This field is required.'')),
      (js ''remote'', MsgText (js ''Please fix this field.'')),
      (js ''email'', MsgText (js ''Please enter a valid email address.'')),
      (js ''url'', MsgText (js ''Please enter a valid URL.'')),
      (js ''date'', MsgText (js ''Please enter a valid date.'')),
      (js ''dateISO'', MsgText (js ''Please enter a valid date (ISO).'')),
      (js ''number'', MsgText (js ''Please enter a valid number.'')),
      (js ''digits'', MsgText (js ''Please enter only digits.'')),
      (js ''equalTo'', MsgText (js ''Please enter the same value again.'')),
      (js ''maxlength'', MsgFun (format_message text_of (js ''Please enter no more than {0} characters.''))),
      (js ''minlength'', MsgFun (format_message text_of (js ''Please enter at least {0} characters.''))),
      (js ''rangelength'', MsgFun (format_message text_of (js ''Please enter a value between {0} and {1} characters long.''))),
      (js ''range'', MsgFun (format_message text_of (js ''Please enter a value between {0} and {1}.''))),
      (js ''max'', MsgFun (format_message text_of (js ''Please enter a value less than or equal to {0}.''))),
      (js ''min'', MsgFun (format_message text_of (js ''Please enter a value greater than or equal to {0}.''))),
      (js ''step'', MsgFun (format_message text_of (js ''Please enter a multiple of {0}.'')))]"

section \<open>The message of a rule\<close>

definition customDataMessage :: "'n felem \<Rightarrow> jstring \<Rightarrow> 'n message" where
  "customDataMessage e method =
     (let own = fe_msg e (js ''msg'' @ ascii_upper (charAt method 0) @ ascii_lower (substr_from method 1))
      in case own of
           Some s \<Rightarrow> if s \<noteq> [] then MsgText s else (case fe_msg e (js ''msg'') of Some t \<Rightarrow> MsgText t | None \<Rightarrow> MsgUndef)
         | None \<Rightarrow> (case fe_msg e (js ''msg'') of Some t \<Rightarrow> MsgText t | None \<Rightarrow> MsgUndef))"

definition customMessage :: "'n validator \<Rightarrow> jstring \<Rightarrow> jstring \<Rightarrow> 'n message" where
  "customMessage v name method =
     (case obj_get (v_messages v) name of
        None \<Rightarrow> MsgUndef
      | Some (MsgAll s) \<Rightarrow> MsgText s
      | Some (MsgBy m) \<Rightarrow> (case obj_get m method of Some x \<Rightarrow> x | None \<Rightarrow> MsgUndef))"

fun findDefined :: "'n message list \<Rightarrow> 'n message" where
  "findDefined [] = MsgUndef"
| "findDefined (m # ms) = (case m of MsgUndef \<Rightarrow> findDefined ms | _ \<Rightarrow> m)"

text \<open>\<open>{n}\<close> at the start of a text, and the expression \<open>theregex\<close> with an optional dollar before it.\<close>

definition placeholder_at :: "jstring \<Rightarrow> bool" where
  "placeholder_at s =
     (case s of c # t \<Rightarrow> c = unit_of CHR ''{'' \<and> takeWhile is_digit t \<noteq> [] \<and>
          charAt (dropWhile is_digit t) 0 = js ''}''
      | [] \<Rightarrow> False)"

fun has_placeholder :: "jstring \<Rightarrow> bool" where
  "has_placeholder [] = False"
| "has_placeholder (c # s) = (placeholder_at (c # s) \<or> has_placeholder s)"

fun drop_dollars :: "jstring \<Rightarrow> jstring" where
  "drop_dollars [] = []"
| "drop_dollars (c # s) = (if c = unit_of CHR ''$'' \<and> placeholder_at s then drop_dollars s else c # drop_dollars s)"

definition defaultMessage :: "'n settings \<Rightarrow> 'n validator \<Rightarrow> nat \<Rightarrow> jstring \<Rightarrow> 'n rule_val \<Rightarrow> jstring" where
  "defaultMessage cfg v i method parameters =
     (let e = elem v i;
          message = findDefined
            [customMessage v (fe_name e) method,
             customDataMessage e method,
             (if \<not> c_ignoreTitle cfg \<and> fe_title e \<noteq> [] then MsgText (fe_title e) else MsgUndef),
             (case obj_get (c_messages cfg) method of Some m \<Rightarrow> m | None \<Rightarrow> MsgUndef),
             MsgText (js ''<strong>Warning: No message defined for '' @ fe_name e @ js ''</strong>'')]
      in case message of
           MsgFun f \<Rightarrow> f parameters i
         | MsgText s \<Rightarrow> if has_placeholder s then format_params (c_text_of cfg) (drop_dollars s) parameters else s
         | MsgUndef \<Rightarrow> [])"

definition formatAndAdd :: "'n settings \<Rightarrow> nat \<Rightarrow> jstring \<Rightarrow> 'n rule_val \<Rightarrow> 'n validator \<Rightarrow> 'n validator" where
  "formatAndAdd cfg i method parameters v =
     (let message = defaultMessage cfg v i method parameters; name = name_of v i
      in v\<lparr>v_errorList := v_errorList v @ [\<lparr>le_message = message, le_element = i, le_method = Some method\<rparr>],
           v_errorMap := obj_set name message (v_errorMap v),
           v_submitted := obj_set name message (v_submitted v)\<rparr>)"

section \<open>Showing and hiding\<close>

definition containers :: "'n validator \<Rightarrow> item list" where
  "containers v = map Box [0..<length (v_boxes v)]"

definition add_items :: "item list \<Rightarrow> item list \<Rightarrow> item list" where
  "add_items xs ys = xs @ filter (\<lambda>y. y \<notin> set xs) ys"

definition not_items :: "item list \<Rightarrow> item list \<Rightarrow> item list" where
  "not_items xs ys = filter (\<lambda>x. x \<notin> set ys) xs"

text \<open>\<open>addWrapper(items).show()\<close> and \<open>hide()\<close>: the wrapper of a label goes with it.\<close>

definition set_shown :: "'n settings \<Rightarrow> bool \<Rightarrow> item \<Rightarrow> 'n validator \<Rightarrow> 'n validator" where
  "set_shown cfg b it v = (case it of
      Label k \<Rightarrow> set_label k (\<lambda>l. l\<lparr>el_shown := b,
        el_wrapper_shown := (if c_wrapper cfg \<and> el_wrapped l then b else el_wrapper_shown l)\<rparr>) v
    | Box k \<Rightarrow> v\<lparr>v_boxes := (v_boxes v)[k := b]\<rparr>)"

definition clear_text :: "item \<Rightarrow> 'n validator \<Rightarrow> 'n validator" where
  "clear_text it v = (case it of Label k \<Rightarrow> set_label k (\<lambda>l. l\<lparr>el_text := []\<rparr>) v | Box k \<Rightarrow> v)"

definition hideThese :: "'n settings \<Rightarrow> item list \<Rightarrow> 'n validator \<Rightarrow> 'n validator" where
  "hideThese cfg errs v = fold (set_shown cfg False) errs (fold clear_text (not_items errs (containers v)) v)"

definition hideErrors :: "'n settings \<Rightarrow> 'n validator \<Rightarrow> 'n validator" where
  "hideErrors cfg v = hideThese cfg (v_toHide v) v"

definition highlight :: "'n validator \<Rightarrow> nat \<Rightarrow> jstring \<Rightarrow> jstring \<Rightarrow> 'n validator" where
  "highlight v i errorClass validClass =
     fold (\<lambda>j. set_elem j (elem_class errorClass validClass))
       (if fe_type (elem v i) = js ''radio'' then findByName v (name_of v i) else [i]) v"

definition unhighlight :: "'n validator \<Rightarrow> nat \<Rightarrow> jstring \<Rightarrow> jstring \<Rightarrow> 'n validator" where
  "unhighlight v i errorClass validClass =
     fold (\<lambda>j. set_elem j (\<lambda>e. e\<lparr>fe_classes := add_class validClass (remove_class errorClass (fe_classes e))\<rparr>))
       (if fe_type (elem v i) = js ''radio'' then findByName v (name_of v i) else [i]) v"

section \<open>showLabel\<close>

definition describe :: "jstring option \<Rightarrow> jstring \<Rightarrow> jstring" where
  "describe describedBy errorID =
     (case describedBy of
        None \<Rightarrow> errorID
      | Some d \<Rightarrow>
          if d = [] then errorID
          else if (case RegExp (source_text ''~b'' @ escapeCssMeta (Some errorID) @ source_text ''~b'') of
                     None \<Rightarrow> False | Some r \<Rightarrow> rx_test False r d) then d
          else d @ js '' '' @ errorID)"

definition set_described :: "jstring \<Rightarrow> 'n felem \<Rightarrow> 'n felem" where
  "set_described d e = e\<lparr>fe_attr := (fe_attr e)(js ''aria-describedby'' := Some d)\<rparr>"

definition describe_group :: "nat \<Rightarrow> jstring \<Rightarrow> 'n validator \<Rightarrow> 'n validator" where
  "describe_group i errorID v =
     (case obj_get (v_groups v) (name_of v i) of
        None \<Rightarrow> v
      | Some grp \<Rightarrow>
          if grp = [] then v
          else fold (\<lambda>(name, testgroup) v.
            if testgroup = grp then fold (\<lambda>j. set_elem j (set_described errorID)) (findByName v name) v else v)
            (v_groups v) v)"

definition new_label :: "'n settings \<Rightarrow> 'n validator \<Rightarrow> nat \<Rightarrow> jstring \<Rightarrow> err_label" where
  "new_label cfg v i message =
     (let elementID = idOrName v i;
          (place, inside) =
            (if v_label_container v then (InContainer, [])
             else case c_errorPlacement cfg of
                    Some f \<Rightarrow> (ByPlacement i, f i)
                  | None \<Rightarrow> (AfterElement i, fe_labels (elem v i)))
      in \<lparr>el_id = elementID @ js ''-error'',
          el_for = (if c_errorElement cfg = js ''label'' then Some elementID else None),
          el_inside = inside, el_text = message, el_html = (\<not> c_escapeHtml cfg), el_classes = [c_errorClass cfg],
          el_place = place, el_shown = True, el_wrapped = c_wrapper cfg, el_wrapper_shown = True\<rparr>)"

definition refresh_label :: "'n settings \<Rightarrow> jstring \<Rightarrow> err_label \<Rightarrow> err_label" where
  "refresh_label cfg message l =
     l\<lparr>el_classes := add_class (c_errorClass cfg) (remove_class (c_validClass cfg) (el_classes l)),
       el_text := message, el_html := \<not> c_escapeHtml cfg\<rparr>"

definition show_success :: "'n settings \<Rightarrow> nat \<Rightarrow> err_label \<Rightarrow> err_label" where
  "show_success cfg i l = (case c_success cfg of
      None \<Rightarrow> l
    | Some (SuccessClass c) \<Rightarrow> l\<lparr>el_text := [], el_classes := add_class c (el_classes l)\<rparr>
    | Some (SuccessFun f) \<Rightarrow> f (l\<lparr>el_text := []\<rparr>) i)"

definition showLabel :: "'n settings \<Rightarrow> nat \<Rightarrow> jstring \<Rightarrow> 'n validator \<Rightarrow> 'n validator" where
  "showLabel cfg i message v =
     (let found = errorsFor (c_errorClass cfg) v i;
          describedBy = fe_attr (elem v i) (js ''aria-describedby'');
          (err, v) =
            (if found \<noteq> [] then (found, fold (\<lambda>k. set_label k (refresh_label cfg message)) found v)
             else
               (let l = new_label cfg v i message; k = length (v_labels v); v = v\<lparr>v_labels := v_labels v @ [l]\<rparr>
                in if c_errorElement cfg = js ''label'' \<or> idOrName v i \<in> set (el_inside l) then ([k], v)
                   else ([k], describe_group i (el_id l)
                           (set_elem i (set_described (describe describedBy (el_id l))) v))));
          v = (if message = [] then fold (\<lambda>k. set_label k (show_success cfg i)) err v else v)
      in v\<lparr>v_toShow := add_items (v_toShow v) (map Label err)\<rparr>)"

section \<open>showErrors\<close>

definition invalidElements :: "'n validator \<Rightarrow> nat list" where
  "invalidElements v = map le_element (v_errorList v)"

definition validElements :: "'n validator \<Rightarrow> nat list" where
  "validElements v = filter (\<lambda>i. i \<notin> set (invalidElements v)) (v_currentElements v)"

definition show_error :: "'n settings \<Rightarrow> list_error \<Rightarrow> 'n validator \<Rightarrow> 'n validator" where
  "show_error cfg err v =
     (let v = (case c_highlight cfg of Some f \<Rightarrow> f v (le_element err) (c_errorClass cfg) (c_validClass cfg) | None \<Rightarrow> v)
      in showLabel cfg (le_element err) (le_message err) v)"

definition defaultShowErrors :: "'n settings \<Rightarrow> 'n validator \<Rightarrow> 'n validator" where
  "defaultShowErrors cfg v =
     (let v = fold (show_error cfg) (v_errorList v) v;
          v = (if v_errorList v \<noteq> [] then v\<lparr>v_toShow := add_items (v_toShow v) (containers v)\<rparr> else v);
          v = (if c_success cfg \<noteq> None then fold (\<lambda>i. showLabel cfg i []) (v_successList v) v else v);
          v = (case c_unhighlight cfg of
                 Some f \<Rightarrow> fold (\<lambda>i v. f v i (c_errorClass cfg) (c_validClass cfg)) (validElements v) v | None \<Rightarrow> v);
          v = hideErrors cfg (v\<lparr>v_toHide := not_items (v_toHide v) (v_toShow v)\<rparr>)
      in fold (set_shown cfg True) (v_toShow v) v)"

text \<open>\<open>showErrors(errors)\<close>; without an argument the list is shown as it is.\<close>

definition merge_errors :: "jstring obj \<Rightarrow> 'n validator \<Rightarrow> 'n validator" where
  "merge_errors errs v =
     (let m = obj_extend (v_errorMap v) errs
      in v\<lparr>v_errorMap := m,
           v_errorList := map (\<lambda>(name, message). \<lparr>le_message = message,
             le_element = (case findByName v name of j # _ \<Rightarrow> j | [] \<Rightarrow> length (v_elems v)), le_method = None\<rparr>) m,
           v_successList := filter (\<lambda>i. obj_get errs (name_of v i) = None) (v_successList v)\<rparr>)"

definition showErrors :: "'n settings \<Rightarrow> jstring obj option \<Rightarrow> 'n validator \<Rightarrow> 'n validator" where
  "showErrors cfg errs v =
     (let v = (case errs of Some es \<Rightarrow> merge_errors es v | None \<Rightarrow> v)
      in case c_showErrors cfg of Some f \<Rightarrow> f v | None \<Rightarrow> defaultShowErrors cfg v)"

end
