(* ===== verification/Form_Check.thy ===== *)
theory Form_Check
  imports Form_Messages
begin

text \<open>
  The validator at work: the rules of an element, the elements that are checked, \<open>check\<close>,
  \<open>checkForm\<close>, \<open>form\<close> and \<open>element\<close>, the pending requests of the method \<open>remote\<close>, and the resets. A run
  gives a value or the error that was thrown, with the state it leaves.
\<close>

section \<open>Rules and elements\<close>

text \<open>An editable element without a form takes the form around it and its attribute as a name.\<close>

definition adopt_form :: "'n felem \<Rightarrow> 'n felem" where
  "adopt_form e =
     e\<lparr>fe_form := Some (fe_closest e),
       fe_name := (case fe_attr e (js ''name'') of Some n \<Rightarrow> n | None \<Rightarrow> [])\<rparr>"

definition adopt :: "nat \<Rightarrow> 'n validator \<Rightarrow> 'n validator" where
  "adopt i v = (if fe_form (elem v i) = None \<and> is_editable (elem v i) then set_elem i adopt_form v else v)"

definition element_rules :: "'n::{zero,one} settings \<Rightarrow> 'n validator \<Rightarrow> nat \<Rightarrow> 'n rules" where
  "element_rules cfg v i =
     (let e = elem v i; re = \<lparr>re_attr = fe_attr e, re_data = fe_data e\<rparr>; methods = map fst (c_methods cfg)
      in if fe_form e = None then []
         else rules_of (c_num_of cfg) (c_autoCreateRanges cfg) (c_selects cfg) i
           (classRules (c_class_rules cfg) (fe_attr e (js ''class'')))
           (attributeRules (c_num_of cfg) (c_text_of cfg) methods re)
           (dataRules (c_num_of cfg) methods re)
           (staticRules (c_rules cfg) (fe_name e)))"

definition objectLength :: "'n rules \<Rightarrow> nat" where
  "objectLength ob = length (filter (\<lambda>(_, x). \<not> is_absent x \<and> \<not> is_false x) ob)"

definition numberOfInvalids :: "'n validator \<Rightarrow> nat" where
  "numberOfInvalids v = length (filter snd (v_invalid v))"

text \<open>
  \<open>elements\<close>: of the elements of the form, the first of each name that has rules. The filter gives
  editable elements their form and name on the way.
\<close>

definition element_step ::
  "'n::{zero,one} settings \<Rightarrow> nat \<Rightarrow> nat list \<times> jstring list \<times> 'n validator \<Rightarrow> nat list \<times> jstring list \<times> 'n validator" where
  "element_step cfg i s = (case s of (found, rulesCache, v) \<Rightarrow>
     let e = elem v i;
         name = (if fe_name e \<noteq> [] then fe_name e else case fe_attr e (js ''name'') of Some n \<Rightarrow> n | None \<Rightarrow> []);
         v = (if is_editable e then set_elem i (\<lambda>e. e\<lparr>fe_form := Some (fe_closest e), fe_name := name\<rparr>) v else v)
     in if fe_form (elem v i) \<noteq> Some 0 then (found, rulesCache, v)
        else if name \<in> set rulesCache \<or> objectLength (element_rules cfg v i) = 0 then (found, rulesCache, v)
        else (found @ [i], name # rulesCache, v))"

definition elements :: "'n::{zero,one} settings \<Rightarrow> 'n validator \<Rightarrow> nat list \<times> 'n validator" where
  "elements cfg v =
     (let candidates = filter (\<lambda>i. fe_validated (elem v i) \<and> \<not> fe_left_out (elem v i) \<and> \<not> fe_ignored (elem v i))
            [0..<length (v_elems v)];
          (found, _, v) = fold (element_step cfg) candidates ([], [], v)
      in (found, v))"

section \<open>Resets\<close>

definition resetInternals :: "'n validator \<Rightarrow> 'n validator" where
  "resetInternals v = v\<lparr>v_successList := [], v_errorList := [], v_errorMap := [], v_toShow := [], v_toHide := []\<rparr>"

definition reset :: "'n validator \<Rightarrow> 'n validator" where
  "reset v = (resetInternals v)\<lparr>v_currentElements := []\<rparr>"

definition prepareForm :: "'n settings \<Rightarrow> 'n validator \<Rightarrow> 'n validator" where
  "prepareForm cfg v =
     (let v = reset v in v\<lparr>v_toHide := map Label (errors (c_errorClass cfg) v) @ containers v\<rparr>)"

definition prepareElement :: "'n settings \<Rightarrow> nat \<Rightarrow> 'n validator \<Rightarrow> 'n validator" where
  "prepareElement cfg i v = (let v = reset v in v\<lparr>v_toHide := map Label (errorsFor (c_errorClass cfg) v i)\<rparr>)"

section \<open>Pending requests\<close>

definition elementAjaxPort :: "'n validator \<Rightarrow> nat \<Rightarrow> jstring" where
  "elementAjaxPort v i = js ''validate'' @ name_of v i"

definition is_pending :: "'n validator \<Rightarrow> jstring \<Rightarrow> bool" where
  "is_pending v name \<longleftrightarrow> obj_get (v_pending v) name = Some True"

definition startRequest :: "'n settings \<Rightarrow> nat \<Rightarrow> 'n validator \<Rightarrow> 'n validator" where
  "startRequest cfg i v =
     (if \<not> is_pending v (name_of v i) then
        set_elem i (\<lambda>e. e\<lparr>fe_classes := add_class (c_pendingClass cfg) (fe_classes e)\<rparr>)
          (v\<lparr>v_pendingRequest := v_pendingRequest v + 1, v_pending := obj_set (name_of v i) True (v_pending v)\<rparr>)
      else v)"

text \<open>The counter stays at zero when it would fall below; so does subtraction of natural numbers.\<close>

definition drop_pending :: "'n settings \<Rightarrow> nat \<Rightarrow> 'n validator \<Rightarrow> 'n validator" where
  "drop_pending cfg i v =
     set_elem i (\<lambda>e. e\<lparr>fe_classes := remove_class (c_pendingClass cfg) (fe_classes e)\<rparr>)
       (v\<lparr>v_pendingRequest := v_pendingRequest v - 1, v_pending := obj_delete (name_of v i) (v_pending v)\<rparr>)"

text \<open>\<open>$.ajaxAbort\<close>: an aborted request gets no answer any more.\<close>

definition ajaxAbort :: "jstring \<Rightarrow> 'n validator \<Rightarrow> 'n validator" where
  "ajaxAbort port v =
     (case obj_get (v_ports v) port of
        None \<Rightarrow> v
      | Some xhr \<Rightarrow> emit (Aborted xhr)
          (v\<lparr>v_open := filter (\<lambda>(x, _). x \<noteq> xhr) (v_open v), v_ports := obj_delete port (v_ports v)\<rparr>))"

definition abortRequest :: "'n settings \<Rightarrow> nat \<Rightarrow> 'n validator \<Rightarrow> 'n validator" where
  "abortRequest cfg i v =
     (if is_pending v (name_of v i) then drop_pending cfg i (ajaxAbort (elementAjaxPort v i) v) else v)"

text \<open>\<open>$.ajax\<close> in the mode \<open>abort\<close>: the prefilter aborts the request of the port and keeps the new one.\<close>

definition ajax_abort_mode :: "jstring \<Rightarrow> request \<Rightarrow> 'n validator \<Rightarrow> 'n validator" where
  "ajax_abort_mode port rq v =
     (let v = ajaxAbort port v; xhr = v_next v
      in emit (Sent xhr)
           (v\<lparr>v_next := xhr + 1, v_ports := obj_set port xhr (v_ports v), v_open := v_open v @ [(xhr, rq)]\<rparr>))"

section \<open>check\<close>

datatype checked = CDone bool | CPending | CInvalid

fun check_rules ::
  "'n::zero settings \<Rightarrow> nat \<Rightarrow> field_value \<Rightarrow> nat \<Rightarrow> 'n rules \<Rightarrow> bool \<Rightarrow> 'n validator \<Rightarrow> (checked, 'n) run" where
  "check_rules cfg i val rulesCount [] dependencyMismatch v = (Inr (CDone dependencyMismatch), v)"
| "check_rules cfg i val rulesCount ((method, parameters) # rules) dependencyMismatch v =
     (case obj_get (c_methods cfg) method of
        None \<Rightarrow> (Inl TypeError, v)
      | Some f \<Rightarrow>
          (case f v val i parameters of
             (Inl e, v') \<Rightarrow> (Inl e, v')
           | (Inr result, v') \<Rightarrow>
               if result = RPending then
                 (Inr CPending, v'\<lparr>v_toHide := not_items (v_toHide v') (map Label (errorsFor (c_errorClass cfg) v' i))\<rparr>)
               else if \<not> truthy result then (Inr CInvalid, formatAndAdd cfg i method parameters v')
               else check_rules cfg i val rulesCount rules (result = RMismatch \<and> rulesCount = 1) v'))"

definition normalizer_of :: "'n settings \<Rightarrow> 'n rules \<Rightarrow> (nat \<Rightarrow> field_value \<Rightarrow> field_value) option" where
  "normalizer_of cfg rules =
     (case obj_get rules (js ''normalizer'') of
        Some (VNormalizer f) \<Rightarrow> Some f
      | _ \<Rightarrow> c_normalizer cfg)"

text \<open>The result is \<open>None\<close> where the function returns \<open>undefined\<close>.\<close>

definition check_target :: "'n::{zero,one} settings \<Rightarrow> nat \<Rightarrow> 'n validator \<Rightarrow> (bool option, 'n) run" where
  "check_target cfg i v =
     (let v = adopt i v;
          rules = element_rules cfg v i;
          rulesCount = length rules;
          val = elementValue v i;
          v = abortRequest cfg i v;
          (val, rules) =
            (case normalizer_of cfg rules of
               Some f \<Rightarrow> (f i val, obj_delete (js ''normalizer'') rules)
             | None \<Rightarrow> (val, rules))
      in case check_rules cfg i val rulesCount rules False v of
           (Inl e, v) \<Rightarrow> (Inl e, v)
         | (Inr CPending, v) \<Rightarrow> (Inr None, v)
         | (Inr CInvalid, v) \<Rightarrow> (Inr (Some False), v)
         | (Inr (CDone dependencyMismatch), v) \<Rightarrow>
             if dependencyMismatch then (Inr None, v)
             else (Inr (Some True), if objectLength rules > 0 then v\<lparr>v_successList := v_successList v @ [i]\<rparr> else v))"

definition check :: "'n::{zero,one} settings \<Rightarrow> nat \<Rightarrow> 'n validator \<Rightarrow> (bool option, 'n) run" where
  "check cfg i v = (case validationTargetFor v i of None \<Rightarrow> (Inl TypeError, v) | Some j \<Rightarrow> check_target cfg j v)"

section \<open>form\<close>

fun check_all :: "'n::{zero,one} settings \<Rightarrow> nat list \<Rightarrow> 'n validator \<Rightarrow> (unit, 'n) run" where
  "check_all cfg [] v = (Inr (), v)"
| "check_all cfg (i # is) v =
     (case check cfg i v of (Inl e, v') \<Rightarrow> (Inl e, v') | (Inr _, v') \<Rightarrow> check_all cfg is v')"

text \<open>\<open>valid\<close> and \<open>size\<close>\<close>

definition size_errors :: "'n validator \<Rightarrow> nat" where
  "size_errors v = length (v_errorList v)"

definition is_valid :: "'n validator \<Rightarrow> bool" where
  "is_valid v = (size_errors v = 0)"

definition checkForm :: "'n::{zero,one} settings \<Rightarrow> 'n validator \<Rightarrow> (bool, 'n) run" where
  "checkForm cfg v =
     (let (els, v) = elements cfg (prepareForm cfg v)
      in case check_all cfg els (v\<lparr>v_currentElements := els\<rparr>) of
           (Inl e, v) \<Rightarrow> (Inl e, v)
         | (Inr _, v) \<Rightarrow> (Inr (is_valid v), v))"

definition form :: "'n::{zero,one} settings \<Rightarrow> 'n validator \<Rightarrow> (bool, 'n) run" where
  "form cfg v =
     (case checkForm cfg v of
        (Inl e, v) \<Rightarrow> (Inl e, v)
      | (Inr _, v) \<Rightarrow>
          (let v = v\<lparr>v_submitted := obj_extend (v_submitted v) (v_errorMap v),
                     v_invalid := map (\<lambda>(name, _). (name, True)) (v_errorMap v)\<rparr>;
               v = (if \<not> is_valid v then emit InvalidForm v else v);
               v = showErrors cfg None v
           in (Inr (is_valid v), v)))"

section \<open>element\<close>

text \<open>
  The other elements of the group that were invalid are checked too; an element that is not found has
  no type to read.
\<close>

fun check_group ::
  "'n::{zero,one} settings \<Rightarrow> jstring \<Rightarrow> jstring \<Rightarrow> jstring obj \<Rightarrow> bool \<Rightarrow> 'n validator \<Rightarrow> (bool, 'n) run" where
  "check_group cfg grp own [] result v = (Inr result, v)"
| "check_group cfg grp own ((name, testgroup) # groups) result v =
     (if testgroup = grp \<and> name \<noteq> own then
        (case findByName v name of
           [] \<Rightarrow> (Inl TypeError, v)
         | j # _ \<Rightarrow>
             (case validationTargetFor v j of
                None \<Rightarrow> check_group cfg grp own groups result v
              | Some k \<Rightarrow>
                  if obj_get (v_invalid v) (name_of v k) \<noteq> None then
                    (case check cfg k (v\<lparr>v_currentElements := v_currentElements v @ [k]\<rparr>) of
                       (Inl e, v') \<Rightarrow> (Inl e, v')
                     | (Inr r, v') \<Rightarrow> check_group cfg grp own groups (r = Some True \<and> result) v')
                  else check_group cfg grp own groups result v))
      else check_group cfg grp own groups result v)"

definition set_aria_invalid :: "bool \<Rightarrow> 'n felem \<Rightarrow> 'n felem" where
  "set_aria_invalid b e =
     e\<lparr>fe_attr := (fe_attr e)(js ''aria-invalid'' := Some (if b then js ''true'' else js ''false''))\<rparr>"

definition element :: "'n::{zero,one} settings \<Rightarrow> nat \<Rightarrow> 'n validator \<Rightarrow> (bool, 'n) run" where
  "element cfg i v =
     (case validationTargetFor v i of
        None \<Rightarrow> (Inr True, v\<lparr>v_invalid := obj_delete (name_of v i) (v_invalid v)\<rparr>)
      | Some k \<Rightarrow>
          (let v = (prepareElement cfg k v)\<lparr>v_currentElements := [k]\<rparr>;
               name = name_of v k;
               grouped =
                 (case obj_get (v_groups v) name of
                    Some grp \<Rightarrow> if grp \<noteq> [] then check_group cfg grp name (v_groups v) True v else (Inr True, v)
                  | None \<Rightarrow> (Inr True, v))
           in case grouped of
                (Inl e, v) \<Rightarrow> (Inl e, v)
              | (Inr result, v) \<Rightarrow>
                  (case check cfg k v of
                     (Inl e, v) \<Rightarrow> (Inl e, v)
                   | (Inr r, v) \<Rightarrow>
                       (let rs = (r \<noteq> Some False);
                            v = v\<lparr>v_invalid := obj_set name (\<not> rs) (v_invalid v)\<rparr>;
                            v = (if numberOfInvalids v = 0 then v\<lparr>v_toHide := add_items (v_toHide v) (containers v)\<rparr> else v);
                            v = showErrors cfg None v
                        in (Inr (result \<and> rs), set_elem i (set_aria_invalid (\<not> rs)) v)))))"

section \<open>resetForm\<close>

definition resetElements :: "'n settings \<Rightarrow> nat list \<Rightarrow> 'n validator \<Rightarrow> 'n validator" where
  "resetElements cfg els v =
     (let no_class = (\<lambda>c e. e\<lparr>fe_classes := remove_class c (fe_classes e)\<rparr>)
      in case c_unhighlight cfg of
           Some f \<Rightarrow> fold (\<lambda>i v. fold (\<lambda>j. set_elem j (no_class (c_validClass cfg))) (findByName v (name_of v i))
                       (f v i (c_errorClass cfg) [])) els v
         | None \<Rightarrow> fold (\<lambda>i. set_elem i (\<lambda>e. no_class (c_validClass cfg) (no_class (c_errorClass cfg) e))) els v)"

definition resetForm :: "'n::{zero,one} settings \<Rightarrow> 'n validator \<Rightarrow> 'n validator" where
  "resetForm cfg v =
     (let v = hideErrors cfg (prepareForm cfg (v\<lparr>v_invalid := [], v_submitted := []\<rparr>));
          (els, v) = elements cfg v;
          v = v\<lparr>v_previous := filter (\<lambda>(i, _). i \<notin> set els) (v_previous v)\<rparr>;
          v = fold (\<lambda>i. set_elem i (\<lambda>e. e\<lparr>fe_attr := (fe_attr e)(js ''aria-invalid'' := None)\<rparr>)) els v
      in resetElements cfg els v)"

end
