(* ===== verification/Form_Methods.thy ===== *)
theory Form_Methods
  imports Complex_Main Form_Check Pattern_Methods
begin

text \<open>
  The methods of the validator that look at more than the text: lengths, bounds, steps, and the
  comparison with another element. Numbers are those of an archimedean ordered field, exact where
  the language rounds to doubles.
\<close>

section \<open>Comparisons of the language\<close>

text \<open>Two texts are compared unit by unit, anything else as numbers; a comparison with \<open>NaN\<close> fails.\<close>

datatype 'n prim = PText jstring | PNum "'n option"

fun text_less :: "jstring \<Rightarrow> jstring \<Rightarrow> bool" where
  "text_less s [] = False"
| "text_less [] (d # t) = True"
| "text_less (c # s) (d # t) = (c < d \<or> (c = d \<and> text_less s t))"

definition text_le :: "jstring \<Rightarrow> jstring \<Rightarrow> bool" where
  "text_le s t = (\<not> text_less t s)"

definition prim_number :: "(jstring \<Rightarrow> 'n option) \<Rightarrow> 'n prim \<Rightarrow> 'n option" where
  "prim_number num_of p = (case p of PText s \<Rightarrow> num_of s | PNum x \<Rightarrow> x)"

definition js_compare ::
  "(jstring \<Rightarrow> jstring \<Rightarrow> bool) \<Rightarrow> ('n \<Rightarrow> 'n \<Rightarrow> bool) \<Rightarrow> (jstring \<Rightarrow> 'n option) \<Rightarrow> 'n prim \<Rightarrow> 'n prim \<Rightarrow> bool" where
  "js_compare on_text on_num num_of a b =
     (case (a, b) of
        (PText s, PText t) \<Rightarrow> on_text s t
      | _ \<Rightarrow> (case (prim_number num_of a, prim_number num_of b) of (Some x, Some y) \<Rightarrow> on_num x y | _ \<Rightarrow> False))"

definition js_le :: "(jstring \<Rightarrow> 'n::linorder option) \<Rightarrow> 'n prim \<Rightarrow> 'n prim \<Rightarrow> bool" where
  "js_le = js_compare text_le (\<le>)"

definition js_less :: "(jstring \<Rightarrow> 'n::linorder option) \<Rightarrow> 'n prim \<Rightarrow> 'n prim \<Rightarrow> bool" where
  "js_less = js_compare text_less (<)"

definition field_prim :: "field_value \<Rightarrow> 'n::zero prim" where
  "field_prim val = (case val of FUndef \<Rightarrow> PNum None | FNull \<Rightarrow> PNum (Some 0) | _ \<Rightarrow> PText (field_text val))"

definition rule_prim :: "('n option \<Rightarrow> jstring) \<Rightarrow> 'n::{zero,one} rule_val \<Rightarrow> 'n prim" where
  "rule_prim text_of val = (case val of
      VUndef \<Rightarrow> PNum None | VNull \<Rightarrow> PNum (Some 0) | VBool b \<Rightarrow> PNum (Some (if b then 1 else 0)) | VNum x \<Rightarrow> PNum x
    | _ \<Rightarrow> PText (show_val text_of val))"

text \<open>\<open>param[k]\<close>; \<open>None\<close> is the error of indexing \<open>undefined\<close> or \<open>null\<close>.\<close>

definition param_at :: "'n rule_val \<Rightarrow> nat \<Rightarrow> 'n rule_val option" where
  "param_at p k = (case p of
      VUndef \<Rightarrow> None | VNull \<Rightarrow> None
    | VArr xs \<Rightarrow> Some (nth_val xs k)
    | VStr s \<Rightarrow> Some (if k < length s then VStr [s ! k] else VUndef)
    | _ \<Rightarrow> Some VUndef)"

text \<open>A method that leaves the validator alone, as one of the table.\<close>

definition pure_method ::
  "('n settings \<Rightarrow> 'n validator \<Rightarrow> field_value \<Rightarrow> nat \<Rightarrow> 'n rule_val \<Rightarrow> js_error + method_result) \<Rightarrow> 'n settings \<Rightarrow> 'n method_fun" where
  "pure_method f cfg v val i p = (f cfg v val i p, v)"

definition required_rule :: "'n::zero settings \<Rightarrow> 'n validator \<Rightarrow> field_value \<Rightarrow> nat \<Rightarrow> 'n rule_val \<Rightarrow> js_error + method_result" where
  "required_rule cfg v val i p = Inr (required (c_selects cfg) v val i p)"

section \<open>Lengths and bounds\<close>

definition length_of :: "'n validator \<Rightarrow> field_value \<Rightarrow> nat \<Rightarrow> nat option" where
  "length_of v val i = (case val of FArr ss \<Rightarrow> Some (length ss) | _ \<Rightarrow> getLength v val i)"

text \<open>The length is read before anything else, also of an optional element.\<close>

definition with_length ::
  "'n::floor_ceiling settings \<Rightarrow> ('n prim \<Rightarrow> js_error + bool) \<Rightarrow> 'n validator \<Rightarrow> field_value \<Rightarrow> nat \<Rightarrow> js_error + method_result" where
  "with_length cfg test v val i =
     (case length_of v val i of
        None \<Rightarrow> Inl TypeError
      | Some n \<Rightarrow>
          if optional (c_selects cfg) v i then Inr RMismatch
          else (case test (PNum (Some (of_nat n))) of Inl e \<Rightarrow> Inl e | Inr b \<Rightarrow> Inr (RBool b)))"

definition minlength :: "'n::floor_ceiling settings \<Rightarrow> 'n validator \<Rightarrow> field_value \<Rightarrow> nat \<Rightarrow> 'n rule_val \<Rightarrow> js_error + method_result" where
  "minlength cfg v val i p =
     with_length cfg (\<lambda>n. Inr (js_le (c_num_of cfg) (rule_prim (c_text_of cfg) p) n)) v val i"

definition maxlength :: "'n::floor_ceiling settings \<Rightarrow> 'n validator \<Rightarrow> field_value \<Rightarrow> nat \<Rightarrow> 'n rule_val \<Rightarrow> js_error + method_result" where
  "maxlength cfg v val i p =
     with_length cfg (\<lambda>n. Inr (js_le (c_num_of cfg) n (rule_prim (c_text_of cfg) p))) v val i"

definition in_bounds :: "'n::floor_ceiling settings \<Rightarrow> 'n rule_val \<Rightarrow> 'n prim \<Rightarrow> js_error + bool" where
  "in_bounds cfg p x =
     (case (param_at p 0, param_at p 1) of
        (Some lo, Some hi) \<Rightarrow>
          Inr (js_le (c_num_of cfg) (rule_prim (c_text_of cfg) lo) x \<and> js_le (c_num_of cfg) x (rule_prim (c_text_of cfg) hi))
      | _ \<Rightarrow> Inl TypeError)"

definition rangelength :: "'n::floor_ceiling settings \<Rightarrow> 'n validator \<Rightarrow> field_value \<Rightarrow> nat \<Rightarrow> 'n rule_val \<Rightarrow> js_error + method_result" where
  "rangelength cfg v val i p = with_length cfg (in_bounds cfg p) v val i"

definition min_method :: "'n::floor_ceiling settings \<Rightarrow> 'n validator \<Rightarrow> field_value \<Rightarrow> nat \<Rightarrow> 'n rule_val \<Rightarrow> js_error + method_result" where
  "min_method cfg v val i p =
     Inr (optional_or (optional (c_selects cfg) v i)
       (RBool (js_le (c_num_of cfg) (rule_prim (c_text_of cfg) p) (field_prim val))))"

definition max_method :: "'n::floor_ceiling settings \<Rightarrow> 'n validator \<Rightarrow> field_value \<Rightarrow> nat \<Rightarrow> 'n rule_val \<Rightarrow> js_error + method_result" where
  "max_method cfg v val i p =
     Inr (optional_or (optional (c_selects cfg) v i)
       (RBool (js_le (c_num_of cfg) (field_prim val) (rule_prim (c_text_of cfg) p))))"

definition range_method :: "'n::floor_ceiling settings \<Rightarrow> 'n validator \<Rightarrow> field_value \<Rightarrow> nat \<Rightarrow> 'n rule_val \<Rightarrow> js_error + method_result" where
  "range_method cfg v val i p =
     (if optional (c_selects cfg) v i then Inr RMismatch
      else case in_bounds cfg p (field_prim val) of Inl e \<Rightarrow> Inl e | Inr b \<Rightarrow> Inr (RBool b))"

section \<open>step\<close>

definition decimalPlaces :: "jstring \<Rightarrow> nat" where
  "decimalPlaces num =
     (let ds = takeWhile is_digit (rev num)
      in if charAt (rev num) (length ds) = js ''.'' then length ds else 0)"

definition toInt :: "nat \<Rightarrow> 'n::floor_ceiling option \<Rightarrow> int option" where
  "toInt decimals num = map_option (\<lambda>x. \<lfloor>x * 10 ^ decimals + 1 / 2\<rfloor>) num"

definition step_type_ok :: "jstring option \<Rightarrow> js_error + bool" where
  "step_type_ok type =
     (case type of
        None \<Rightarrow> Inr True
      | Some t \<Rightarrow>
          (case RegExp (source_text ''~b'' @ t @ source_text ''~b'') of
             None \<Rightarrow> Inl SyntaxError
           | Some r \<Rightarrow> Inr (t = [] \<or> rx_test False r (js ''text,number,range''))))"

definition multiple_of :: "int option \<Rightarrow> int option \<Rightarrow> bool" where
  "multiple_of a b = (case (a, b) of (Some x, Some y) \<Rightarrow> y \<noteq> 0 \<and> x mod y = 0 | _ \<Rightarrow> False)"

definition step_method :: "'n::floor_ceiling settings \<Rightarrow> 'n validator \<Rightarrow> field_value \<Rightarrow> nat \<Rightarrow> 'n rule_val \<Rightarrow> js_error + method_result" where
  "step_method cfg v val i p =
     (let type = fe_attr (elem v i) (js ''type'')
      in case step_type_ok type of
           Inl e \<Rightarrow> Inl e
         | Inr False \<Rightarrow> Inl (PlainError (js ''Step attribute on input type '' @ the type @ js '' is not supported.''))
         | Inr True \<Rightarrow>
             (let decimals = decimalPlaces (show_val (c_text_of cfg) p);
                  value_int = toInt decimals (prim_number (c_num_of cfg) (field_prim val));
                  step_int = toInt decimals (prim_number (c_num_of cfg) (rule_prim (c_text_of cfg) p));
                  valid = (decimalPlaces (field_text val) \<le> decimals \<and> multiple_of value_int step_int)
              in Inr (optional_or (optional (c_selects cfg) v i) (RBool valid))))"

section \<open>Comparison with another element\<close>

text \<open>The first comparison marks the target and has the element checked again when the target is left.\<close>

definition watch_target :: "'n settings \<Rightarrow> jstring \<Rightarrow> nat \<Rightarrow> nat option \<Rightarrow> 'n validator \<Rightarrow> 'n validator" where
  "watch_target cfg mark i target v =
     (case target of
        None \<Rightarrow> v
      | Some t \<Rightarrow>
          if c_onfocusout cfg \<and> mark \<notin> set (fe_classes (elem v t)) then
            (set_elem t (\<lambda>e. e\<lparr>fe_classes := add_class mark (fe_classes e)\<rparr>) v)\<lparr>v_blur := v_blur v @ [(t, i)]\<rparr>
          else v)"

definition target_val :: "'n validator \<Rightarrow> nat option \<Rightarrow> field_value" where
  "target_val v target = (case target of None \<Rightarrow> FUndef | Some t \<Rightarrow> fe_val (elem v t))"

fun strict_eq :: "field_value \<Rightarrow> field_value \<Rightarrow> bool" where
  "strict_eq (FArr _) _ = False"
| "strict_eq _ (FArr _) = False"
| "strict_eq a b = (a = b)"

definition equalTo :: "'n::floor_ceiling settings \<Rightarrow> 'n method_fun" where
  "equalTo cfg v val i p =
     (let target = c_target cfg p; v = watch_target cfg (js ''validate-equalTo-blur'') i target v
      in (Inr (RBool (strict_eq val (target_val v target))), v))"

definition notEqualTo :: "'n::floor_ceiling settings \<Rightarrow> 'n method_fun" where
  "notEqualTo cfg v val i p =
     (if optional (c_selects cfg) v i then (Inr RMismatch, v)
      else case equalTo cfg v val i p of (Inl e, v) \<Rightarrow> (Inl e, v) | (Inr r, v) \<Rightarrow> (Inr (RBool (\<not> truthy r)), v))"

definition greaterThan :: "'n::floor_ceiling settings \<Rightarrow> 'n method_fun" where
  "greaterThan cfg v val i p =
     (let target = c_target cfg p; v = watch_target cfg (js ''validate-greaterThan-blur'') i target v
      in (Inr (RBool (js_less (c_num_of cfg) (field_prim (target_val v target)) (field_prim val))), v))"

definition greaterThanEqual :: "'n::floor_ceiling settings \<Rightarrow> 'n method_fun" where
  "greaterThanEqual cfg v val i p =
     (let target = c_target cfg p; v = watch_target cfg (js ''validate-greaterThanEqual-blur'') i target v
      in (Inr (RBool (js_le (c_num_of cfg) (field_prim (target_val v target)) (field_prim val))), v))"

definition lessThan :: "'n::floor_ceiling settings \<Rightarrow> 'n method_fun" where
  "lessThan cfg v val i p =
     (let target = c_target cfg p; v = watch_target cfg (js ''validate-lessThan-blur'') i target v
      in (Inr (RBool (js_less (c_num_of cfg) (field_prim val) (field_prim (target_val v target)))), v))"

definition lessThanEqual :: "'n::floor_ceiling settings \<Rightarrow> 'n method_fun" where
  "lessThanEqual cfg v val i p =
     (let target = c_target cfg p; v = watch_target cfg (js ''validate-lessThanEqual-blur'') i target v
      in (Inr (RBool (js_le (c_num_of cfg) (field_prim val) (field_prim (target_val v target)))), v))"

section \<open>Methods of the text alone\<close>

definition on_text :: "(bool \<Rightarrow> jstring \<Rightarrow> method_result) \<Rightarrow> 'n::zero settings \<Rightarrow> 'n method_fun" where
  "on_text f cfg v val i p = (Inr (f (optional (c_selects cfg) v i) (field_text val)), v)"

text \<open>\<open>date\<close>: \<open>date_text\<close> is \<open>new Date(value).toString()\<close>, whose parsing each browser defines.\<close>

definition date_method :: "(jstring \<Rightarrow> jstring) \<Rightarrow> bool \<Rightarrow> jstring \<Rightarrow> method_result" where
  "date_method date_text opt value = optional_or opt (RBool (\<not> regex_test False ''Invalid|NaN'' (date_text value)))"

end
