(* ===== verification/Form_Submit.thy ===== *)
theory Form_Submit
  imports Form_Methods
begin

text \<open>
  The validator and its events: creation, the method \<open>remote\<close> with the answers to its requests, the
  click and submit handlers, focus and keys, and \<open>valid\<close>. The table of the standard methods is here.
\<close>

section \<open>Creation\<close>

datatype group_names = GroupText jstring | GroupList "jstring list"

definition init_groups :: "group_names obj \<Rightarrow> jstring obj" where
  "init_groups gs =
     foldl (\<lambda>groups (key, val).
       foldl (\<lambda>groups name. obj_set name key groups) groups
         (case val of GroupText s \<Rightarrow> split_space s | GroupList ns \<Rightarrow> ns)) [] gs"

definition init_rules :: "'n rule_data obj \<Rightarrow> 'n rule_data obj" where
  "init_rules rules = map (\<lambda>(key, val). (key, RuleObject (normalizeRule val))) rules"

definition init :: "'n felem list \<Rightarrow> nat \<Rightarrow> bool \<Rightarrow> group_names obj \<Rightarrow> 'n field_messages obj \<Rightarrow> 'n validator" where
  "init elems boxes label_container groups messages =
     \<lparr>v_elems = elems, v_labels = [], v_boxes = replicate boxes False, v_label_container = label_container,
       v_groups = init_groups groups, v_messages = messages, v_submitted = [], v_invalid = [], v_pending = [],
       v_pendingRequest = 0, v_errorList = [], v_errorMap = [], v_successList = [], v_currentElements = [],
       v_toShow = [], v_toHide = [], v_formSubmitted = False, v_submitButton = None, v_cancelSubmit = False,
       v_lastActive = None, v_hidden = [], v_previous = [], v_previous_heap = [], v_open = [], v_ports = [],
       v_next = 0, v_blur = [], v_log = []\<rparr>"

section \<open>The method remote\<close>

definition previousValue ::
  "'n settings \<Rightarrow> nat \<Rightarrow> jstring \<Rightarrow> 'n validator \<Rightarrow> nat \<times> 'n validator" where
  "previousValue cfg i method v =
     (case map_of (v_previous v) i of
        Some k \<Rightarrow> (k, v)
      | None \<Rightarrow>
          (let p = \<lparr>pv_old = None, pv_valid = Some True, pv_message = defaultMessage cfg v i method VUndef, pv_original = MsgUndef\<rparr>;
               k = length (v_previous_heap v)
           in (k, v\<lparr>v_previous_heap := v_previous_heap v @ [p], v_previous := (i, k) # v_previous v\<rparr>)))"

definition set_previous :: "nat \<Rightarrow> ('n previous_value \<Rightarrow> 'n previous_value) \<Rightarrow> 'n validator \<Rightarrow> 'n validator" where
  "set_previous k f v = v\<lparr>v_previous_heap := (v_previous_heap v)[k := f (v_previous_heap v ! k)]\<rparr>"

definition message_of :: "'n validator \<Rightarrow> jstring \<Rightarrow> jstring \<Rightarrow> 'n message" where
  "message_of v name method =
     (case obj_get (v_messages v) name of
        Some (MsgBy m) \<Rightarrow> (case obj_get m method of Some x \<Rightarrow> x | None \<Rightarrow> MsgUndef)
      | _ \<Rightarrow> MsgUndef)"

text \<open>An assignment to a property of a text has no effect.\<close>

definition set_message :: "jstring \<Rightarrow> jstring \<Rightarrow> 'n message \<Rightarrow> 'n validator \<Rightarrow> 'n validator" where
  "set_message name method x v =
     (case obj_get (v_messages v) name of
        Some (MsgBy m) \<Rightarrow> v\<lparr>v_messages := obj_set name (MsgBy (obj_set method x m)) (v_messages v)\<rparr>
      | _ \<Rightarrow> v)"

definition message_truthy :: "'n message \<Rightarrow> bool" where
  "message_truthy x = (case x of MsgUndef \<Rightarrow> False | MsgText s \<Rightarrow> s \<noteq> [] | MsgFun _ \<Rightarrow> True)"

definition field_data :: "field_value \<Rightarrow> js_data" where
  "field_data val = (case val of FUndef \<Rightarrow> DUndef | FNull \<Rightarrow> DNull | FStr s \<Rightarrow> DText s | FArr ss \<Rightarrow> DArray (map DText ss))"

definition field_rule_val :: "field_value \<Rightarrow> 'n rule_val" where
  "field_rule_val val = (case val of FUndef \<Rightarrow> VUndef | FNull \<Rightarrow> VNull | FStr s \<Rightarrow> VStr s | FArr ss \<Rightarrow> VArr (map VStr ss))"

definition remember_message :: "nat \<Rightarrow> jstring \<Rightarrow> nat \<Rightarrow> 'n validator \<Rightarrow> 'n validator" where
  "remember_message i method k v =
     (let name = name_of v i;
          no_messages = (case obj_get (v_messages v) name of None \<Rightarrow> True | Some (MsgAll s) \<Rightarrow> s = [] | Some (MsgBy _) \<Rightarrow> False);
          v = (if no_messages then v\<lparr>v_messages := obj_set name (MsgBy []) (v_messages v)\<rparr> else v);
          v = set_previous k (\<lambda>p. p\<lparr>pv_original := (if message_truthy (pv_original p) then pv_original p
                else message_of v name method)\<rparr>) v
      in set_message name method (MsgText (pv_message (v_previous_heap v ! k))) v)"

definition remote :: "'n::floor_ceiling settings \<Rightarrow> jstring option \<Rightarrow> 'n method_fun" where
  "remote cfg method_arg v val i p =
     (if optional (c_selects cfg) v i then (Inr RMismatch, v)
      else
        (let method = (case method_arg of Some m \<Rightarrow> if m \<noteq> [] then m else js ''remote'' | None \<Rightarrow> js ''remote'');
             (k, v) = previousValue cfg i method v;
             v = remember_message i method k v;
             previous = v_previous_heap v ! k
         in case jQuery_param (DObject (obj_extend [(js ''data'', field_data val)] (c_remote_data cfg p))) False of
              Inl e \<Rightarrow> (Inl e, v)
            | Inr optionDataString \<Rightarrow>
                (case (pv_valid previous, pv_old previous = Some optionDataString) of
                   (Some b, True) \<Rightarrow> (Inr (RBool b), v)
                 | _ \<Rightarrow>
                     (let v = set_previous k (\<lambda>q. q\<lparr>pv_old := Some optionDataString, pv_valid := None\<rparr>) v;
                          v = startRequest cfg i v
                      in (Inr RPending, ajax_abort_mode (elementAjaxPort v i)
                            \<lparr>rq_element = i, rq_method = method, rq_previous = k, rq_value = val\<rparr> v)))))"

section \<open>The table of methods\<close>

definition remote_rule :: "'n::floor_ceiling settings \<Rightarrow> 'n method_fun" where
  "remote_rule cfg = remote cfg None"

definition standard_methods :: "(jstring \<Rightarrow> jstring) \<Rightarrow> ('n::floor_ceiling settings \<Rightarrow> 'n method_fun) obj" where
  "standard_methods date_text =
     [(js ''required'', pure_method required_rule),
      (js ''email'', on_text email),
      (js ''url'', on_text url),
      (js ''date'', on_text (date_method date_text)),
      (js ''dateISO'', on_text dateISO),
      (js ''number'', on_text number_method),
      (js ''digits'', on_text digits_method),
      (js ''minlength'', pure_method minlength),
      (js ''maxlength'', pure_method maxlength),
      (js ''rangelength'', pure_method rangelength),
      (js ''min'', pure_method min_method),
      (js ''max'', pure_method max_method),
      (js ''range'', pure_method range_method),
      (js ''step'', pure_method step_method),
      (js ''equalTo'', equalTo),
      (js ''remote'', remote_rule)]"

section \<open>Submitting\<close>

text \<open>
  The handler of \<open>submit\<close>: whether the event goes on. \<open>handle\<close> puts a hidden input for the button into
  the form, and takes it away again after a handler of the caller.
\<close>

definition handle :: "'n settings \<Rightarrow> 'n validator \<Rightarrow> bool \<times> 'n validator" where
  "handle cfg v =
     (let hidden =
        (case v_submitButton v of
           Some b \<Rightarrow> if c_submitHandler cfg \<noteq> None \<or> v_formSubmitted v then Some (bt_name b, bt_val b) else None
         | None \<Rightarrow> None);
          v' = (case hidden of Some h \<Rightarrow> v\<lparr>v_hidden := v_hidden v @ [h]\<rparr> | None \<Rightarrow> v)
      in case c_submitHandler cfg of
           Some f \<Rightarrow>
             if \<not> c_debug cfg then
               (let (result, w) = f (emit (HandlerCalled hidden) v');
                    w = (if hidden \<noteq> None then w\<lparr>v_hidden := butlast (v_hidden w)\<rparr> else w)
                in (case result of Some b \<Rightarrow> b | None \<Rightarrow> False, w))
             else (True, v')
         | None \<Rightarrow> (True, v'))"

definition onfocusin :: "'n settings \<Rightarrow> nat \<Rightarrow> 'n validator \<Rightarrow> 'n validator" where
  "onfocusin cfg i v =
     (let v = v\<lparr>v_lastActive := Some i\<rparr>
      in if c_focusCleanup cfg then
           (let v = (case c_unhighlight cfg of Some f \<Rightarrow> f v i (c_errorClass cfg) (c_validClass cfg) | None \<Rightarrow> v)
            in hideThese cfg (map Label (errorsFor (c_errorClass cfg) v i)) v)
         else v)"

definition findLastActive :: "'n validator \<Rightarrow> nat option" where
  "findLastActive v =
     (case v_lastActive v of
        None \<Rightarrow> None
      | Some a \<Rightarrow> if length (filter (\<lambda>n. name_of v (le_element n) = name_of v a) (v_errorList v)) = 1 then Some a else None)"

definition focusInvalid :: "'n settings \<Rightarrow> 'n validator \<Rightarrow> 'n validator" where
  "focusInvalid cfg v =
     (if \<not> c_focusInvalid cfg then v
      else case (case findLastActive v of
                   Some a \<Rightarrow> Some a
                 | None \<Rightarrow> (case v_errorList v of [] \<Rightarrow> None | e # _ \<Rightarrow> Some (le_element e))) of
             None \<Rightarrow> v
           | Some i \<Rightarrow> if fe_visible (elem v i) then
               (let v = emit (Focus i) v
                in if fe_form (elem v i) = Some 0 \<and> \<not> fe_ignored (elem v i) then onfocusin cfg i v else v)
             else v)"

definition submit_handler :: "'n::floor_ceiling settings \<Rightarrow> 'n validator \<Rightarrow> (bool, 'n) run" where
  "submit_handler cfg v =
     (if v_cancelSubmit v then
        (let (b, v) = handle cfg (v\<lparr>v_cancelSubmit := False\<rparr>) in (Inr b, v))
      else case form cfg v of
             (Inl e, v) \<Rightarrow> (Inl e, v)
           | (Inr True, v) \<Rightarrow>
               if v_pendingRequest v > 0 then (Inr False, v\<lparr>v_formSubmitted := True\<rparr>)
               else (let (b, v) = handle cfg v in (Inr b, v))
           | (Inr False, v) \<Rightarrow> (Inr False, focusInvalid cfg v))"

text \<open>
  The event \<open>submit\<close>: the browser sends the form unless the handler prevents it, by its result or in
  debug mode. An error in the handler does not prevent it.
\<close>

definition send :: "bool \<Rightarrow> 'n validator \<Rightarrow> 'n validator" where
  "send go_on v = (if go_on then emit (Submitted (case v_hidden v of [] \<Rightarrow> None | h # _ \<Rightarrow> Some h)) v else v)"

definition submit_event :: "'n::floor_ceiling settings \<Rightarrow> 'n validator \<Rightarrow> 'n validator" where
  "submit_event cfg v =
     (case submit_handler cfg v of
        (Inl e, w) \<Rightarrow> send (\<not> c_debug cfg) w
      | (Inr b, w) \<Rightarrow> send (b \<and> \<not> c_debug cfg) w)"

text \<open>The handler of a click on a submit button.\<close>

definition click_submit :: "button \<Rightarrow> 'n validator \<Rightarrow> 'n validator" where
  "click_submit b v =
     (let v = v\<lparr>v_submitButton := Some b\<rparr>;
          v = (if bt_cancel b then v\<lparr>v_cancelSubmit := True\<rparr> else v)
      in if bt_novalidate b then v\<lparr>v_cancelSubmit := True\<rparr> else v)"

section \<open>Answers\<close>

definition remove_hidden :: "button \<Rightarrow> 'n validator \<Rightarrow> 'n validator" where
  "remove_hidden b v = v\<lparr>v_hidden := filter (\<lambda>h. fst h \<noteq> bt_name b) (v_hidden v)\<rparr>"

definition stopRequest :: "'n::floor_ceiling settings \<Rightarrow> nat \<Rightarrow> bool \<Rightarrow> 'n validator \<Rightarrow> (unit, 'n) run" where
  "stopRequest cfg i valid v =
     (let v = drop_pending cfg i v
      in if valid \<and> v_pendingRequest v = 0 \<and> v_formSubmitted v then
           (case form cfg v of
              (Inl e, v) \<Rightarrow> (Inl e, v)
            | (Inr ok, v) \<Rightarrow>
                if ok \<and> v_pendingRequest v = 0 then
                  (case submit_handler cfg v of
                     (Inl e, v) \<Rightarrow> (Inl e, v)
                   | (Inr b, v) \<Rightarrow>
                       (let v = send (b \<and> \<not> c_debug cfg) v;
                            v = (case v_submitButton v of Some b \<Rightarrow> remove_hidden b v | None \<Rightarrow> v)
                        in (Inr (), v\<lparr>v_formSubmitted := False\<rparr>)))
                else (Inr (), v))
         else if \<not> valid \<and> v_pendingRequest v = 0 \<and> v_formSubmitted v then
           (Inr (), (emit InvalidForm v)\<lparr>v_formSubmitted := False\<rparr>)
         else (Inr (), v))"

datatype response = RespTrue | RespText jstring | RespNothing

text \<open>The callback \<open>success\<close> of a request that is still open; other answers reach nobody.\<close>

definition on_valid :: "'n settings \<Rightarrow> request \<Rightarrow> 'n validator \<Rightarrow> 'n validator" where
  "on_valid cfg rq v =
     (let i = rq_element rq
      in showErrors cfg None
           (v\<lparr>v_toHide := map Label (errorsFor (c_errorClass cfg) v i), v_successList := v_successList v @ [i],
              v_invalid := obj_set (name_of v i) False (v_invalid v)\<rparr>))"

definition on_invalid :: "'n settings \<Rightarrow> request \<Rightarrow> response \<Rightarrow> 'n validator \<Rightarrow> 'n validator" where
  "on_invalid cfg rq response v =
     (let i = rq_element rq; name = name_of v i;
          message = (case response of
              RespText s \<Rightarrow> if s \<noteq> [] then s else defaultMessage cfg v i (rq_method rq) (field_rule_val (rq_value rq))
            | _ \<Rightarrow> defaultMessage cfg v i (rq_method rq) (field_rule_val (rq_value rq)));
          v = set_previous (rq_previous rq) (\<lambda>p. p\<lparr>pv_message := message\<rparr>) v
      in showErrors cfg (Some [(name, message)]) (v\<lparr>v_invalid := obj_set name True (v_invalid v)\<rparr>))"

definition remote_success :: "'n::floor_ceiling settings \<Rightarrow> request \<Rightarrow> response \<Rightarrow> 'n validator \<Rightarrow> (unit, 'n) run" where
  "remote_success cfg rq response v =
     (let i = rq_element rq;
          valid = (response = RespTrue \<or> response = RespText (js ''true''));
          v = set_message (name_of v i) (rq_method rq) (pv_original (v_previous_heap v ! rq_previous rq)) v;
          v = (if valid then on_valid cfg rq v else on_invalid cfg rq response v);
          v = set_previous (rq_previous rq) (\<lambda>p. p\<lparr>pv_valid := Some valid\<rparr>) v
      in stopRequest cfg i valid v)"

definition answer :: "'n::floor_ceiling settings \<Rightarrow> nat \<Rightarrow> response \<Rightarrow> 'n validator \<Rightarrow> (unit, 'n) run" where
  "answer cfg xhr response v =
     (case map_of (v_open v) xhr of
        None \<Rightarrow> (Inr (), v)
      | Some rq \<Rightarrow> remote_success cfg rq response (v\<lparr>v_open := filter (\<lambda>(x, _). x \<noteq> xhr) (v_open v)\<rparr>))"

text \<open>A request that fails has no callback.\<close>

definition request_failed :: "nat \<Rightarrow> 'n validator \<Rightarrow> 'n validator" where
  "request_failed xhr v = v\<lparr>v_open := filter (\<lambda>(x, _). x \<noteq> xhr) (v_open v)\<rparr>"

section \<open>Focus, keys and clicks\<close>

definition run_element :: "'n::floor_ceiling settings \<Rightarrow> nat \<Rightarrow> 'n validator \<Rightarrow> (unit, 'n) run" where
  "run_element cfg i v = (case element cfg i v of (Inl e, v) \<Rightarrow> (Inl e, v) | (Inr _, v) \<Rightarrow> (Inr (), v))"

definition onfocusout :: "'n::floor_ceiling settings \<Rightarrow> nat \<Rightarrow> 'n validator \<Rightarrow> (unit, 'n) run" where
  "onfocusout cfg i v =
     (if \<not> checkable (elem v i) \<and> (obj_get (v_submitted v) (name_of v i) \<noteq> None \<or> \<not> optional (c_selects cfg) v i)
      then run_element cfg i v else (Inr (), v))"

definition excludedKeys :: "nat list" where
  "excludedKeys = [16, 17, 18, 20, 35, 36, 37, 38, 39, 40, 45, 144, 225]"

definition onkeyup :: "'n::floor_ceiling settings \<Rightarrow> nat \<Rightarrow> nat \<Rightarrow> nat \<Rightarrow> 'n validator \<Rightarrow> (unit, 'n) run" where
  "onkeyup cfg i which keyCode v =
     (if (which = 9 \<and> elementValue v i = FStr []) \<or> keyCode \<in> set excludedKeys then (Inr (), v)
      else if obj_get (v_submitted v) (name_of v i) \<noteq> None \<or> obj_get (v_invalid v) (name_of v i) \<noteq> None
      then run_element cfg i v else (Inr (), v))"

definition onclick :: "'n::floor_ceiling settings \<Rightarrow> nat \<Rightarrow> 'n validator \<Rightarrow> (unit, 'n) run" where
  "onclick cfg i v =
     (if obj_get (v_submitted v) (name_of v i) \<noteq> None then run_element cfg i v
      else case fe_parent (elem v i) of
             Some p \<Rightarrow> if obj_get (v_submitted v) (name_of v p) \<noteq> None then run_element cfg p v else (Inr (), v)
           | None \<Rightarrow> (Inr (), v))"

datatype ui_event = Focusin | Focusout | Keyup nat nat | Click

definition delegate :: "'n::floor_ceiling settings \<Rightarrow> nat \<Rightarrow> ui_event \<Rightarrow> 'n validator \<Rightarrow> (unit, 'n) run" where
  "delegate cfg i event v =
     (let v = adopt i v
      in if fe_form (elem v i) \<noteq> Some 0 \<or> fe_ignored (elem v i) then (Inr (), v)
         else case event of
                Focusin \<Rightarrow> (Inr (), onfocusin cfg i v)
              | Focusout \<Rightarrow> if c_onfocusout cfg then onfocusout cfg i v else (Inr (), v)
              | Keyup which keyCode \<Rightarrow> onkeyup cfg i which keyCode v
              | Click \<Rightarrow> onclick cfg i v)"

text \<open>\<open>$(elements).valid()\<close>\<close>

fun valid_elements :: "'n::floor_ceiling settings \<Rightarrow> nat list \<Rightarrow> bool \<Rightarrow> list_error list \<Rightarrow> 'n validator \<Rightarrow> (bool, 'n) run" where
  "valid_elements cfg [] valid errs v = (Inr valid, v\<lparr>v_errorList := errs\<rparr>)"
| "valid_elements cfg (i # is) valid errs v =
     (case element cfg i v of
        (Inl e, v') \<Rightarrow> (Inl e, v')
      | (Inr b, v') \<Rightarrow> valid_elements cfg is (b \<and> valid) (if \<not> (b \<and> valid) then errs @ v_errorList v' else errs) v')"

definition valid_plugin :: "'n::floor_ceiling settings \<Rightarrow> nat list option \<Rightarrow> 'n validator \<Rightarrow> (bool, 'n) run" where
  "valid_plugin cfg els v = (case els of None \<Rightarrow> form cfg v | Some is \<Rightarrow> valid_elements cfg is True [] v)"

end
