(* ===== verification/Form_Core.thy ===== *)
theory Form_Core
  imports Form_Submit
begin

text \<open>
  What showing messages leaves alone: the requests of the validator and the names of its elements,
  together the core of its state.
\<close>

section \<open>The core\<close>

definition key_info :: "'n felem \<Rightarrow> jstring \<times> bool \<times> bool" where
  "key_info e = (fe_name e, is_editable e, fe_form e = None)"

definition keys :: "'n validator \<Rightarrow> (jstring \<times> bool \<times> bool) list" where
  "keys v = map key_info (v_elems v)"

definition core ::
  "'n validator \<Rightarrow> bool obj \<times> nat \<times> (nat \<times> request) list \<times> nat obj \<times> nat \<times> (jstring \<times> bool \<times> bool) list" where
  "core v = (v_pending v, v_pendingRequest v, v_open v, v_ports v, v_next v, keys v)"

lemma core_eqI:
  "v_pending w = v_pending v \<Longrightarrow> v_pendingRequest w = v_pendingRequest v \<Longrightarrow> v_open w = v_open v \<Longrightarrow>
     v_ports w = v_ports v \<Longrightarrow> v_next w = v_next v \<Longrightarrow> v_elems w = v_elems v \<Longrightarrow> core w = core v"
  by (simp add: core_def keys_def)

lemma keys_set_elem:
  assumes "\<And>e. key_info (f e) = key_info e"
  shows "keys (set_elem i f v) = keys v"
proof (cases "i < length (v_elems v)")
  case True
  then have "(map key_info (v_elems v))[i := key_info (v_elems v ! i)] = map key_info (v_elems v)"
    by (metis list_update_id nth_map)
  then show ?thesis by (simp add: keys_def set_elem_def map_update assms)
qed (simp add: keys_def set_elem_def list_update_beyond)

lemma core_set_elem:
  assumes "\<And>e. key_info (f e) = key_info e"
  shows "core (set_elem i f v) = core v"
  unfolding core_def keys_set_elem [OF assms] by (simp add: set_elem_def)

lemma core_set_label [simp]: "core (set_label k f v) = core v"
  by (rule core_eqI) (simp_all add: set_label_def)

lemma core_fold:
  assumes "\<And>x v. x \<in> set xs \<Longrightarrow> core (f x v) = core v"
  shows "core (fold f xs v) = core v"
  using assms by (induction xs arbitrary: v) auto

lemma core_emit [simp]: "core (emit e v) = core v"
  by (rule core_eqI) (simp_all add: emit_def)

lemma core_updates [simp]:
  "core (v\<lparr>v_labels := a\<rparr>) = core v" "core (v\<lparr>v_boxes := b\<rparr>) = core v" "core (v\<lparr>v_messages := m\<rparr>) = core v"
  "core (v\<lparr>v_submitted := s\<rparr>) = core v" "core (v\<lparr>v_invalid := iv\<rparr>) = core v" "core (v\<lparr>v_errorList := el\<rparr>) = core v"
  "core (v\<lparr>v_errorMap := em\<rparr>) = core v" "core (v\<lparr>v_successList := sl\<rparr>) = core v"
  "core (v\<lparr>v_currentElements := ce\<rparr>) = core v" "core (v\<lparr>v_toShow := ts\<rparr>) = core v" "core (v\<lparr>v_toHide := th\<rparr>) = core v"
  "core (v\<lparr>v_formSubmitted := fs\<rparr>) = core v" "core (v\<lparr>v_submitButton := sb\<rparr>) = core v"
  "core (v\<lparr>v_cancelSubmit := cs\<rparr>) = core v" "core (v\<lparr>v_lastActive := la\<rparr>) = core v" "core (v\<lparr>v_hidden := h\<rparr>) = core v"
  "core (v\<lparr>v_previous := p\<rparr>) = core v" "core (v\<lparr>v_previous_heap := ph\<rparr>) = core v" "core (v\<lparr>v_blur := bl\<rparr>) = core v"
  "core (v\<lparr>v_log := lg\<rparr>) = core v"
  by (rule core_eqI; simp)+

lemma key_info_fields [simp]:
  "key_info (e\<lparr>fe_classes := c\<rparr>) = key_info e" "key_info (e\<lparr>fe_val := x\<rparr>) = key_info e"
  "key_info (e\<lparr>fe_checked := b\<rparr>) = key_info e" "key_info (e\<lparr>fe_text := t\<rparr>) = key_info e"
  by (simp_all add: key_info_def is_editable_def)

lemma key_info_attr: "k \<noteq> js ''contenteditable'' \<Longrightarrow> key_info (e\<lparr>fe_attr := (fe_attr e)(k := x)\<rparr>) = key_info e"
  by (simp add: key_info_def is_editable_def)

lemma key_info_described [simp]: "key_info (set_described d e) = key_info e"
  unfolding set_described_def by (rule key_info_attr) simp

lemma key_info_aria [simp]: "key_info (set_aria_invalid b e) = key_info e"
  unfolding set_aria_invalid_def by (rule key_info_attr) simp

lemma key_info_elem_class [simp]: "key_info (elem_class a r e) = key_info e"
  by (simp add: elem_class_def)

section \<open>Showing and hiding\<close>

lemma core_set_shown [simp]: "core (set_shown cfg b it v) = core v"
  by (simp add: set_shown_def split: item.split)

lemma core_clear_text [simp]: "core (clear_text it v) = core v"
  by (simp add: clear_text_def split: item.split)

lemma core_fold_shown [simp]: "core (fold (set_shown cfg b) xs v) = core v"
  by (rule core_fold) simp

lemma core_hideThese [simp]: "core (hideThese cfg xs v) = core v"
proof -
  have "core (fold clear_text ys v) = core v" for ys by (rule core_fold) simp
  then show ?thesis by (simp add: hideThese_def)
qed

lemma core_hideErrors [simp]: "core (hideErrors cfg v) = core v"
  by (simp add: hideErrors_def)

lemma core_fold_elem:
  assumes "\<And>e. key_info (f e) = key_info e"
  shows "core (fold (\<lambda>j. set_elem j f) xs v) = core v"
  by (rule core_fold) (rule core_set_elem [OF assms])

lemma core_highlight [simp]: "core (highlight v i a b) = core v"
  unfolding highlight_def by (rule core_fold_elem) simp

lemma core_unhighlight [simp]: "core (unhighlight v i a b) = core v"
  unfolding unhighlight_def by (rule core_fold_elem) simp

lemma core_describe_group [simp]: "core (describe_group i d v) = core v"
proof -
  have "core (fold (\<lambda>j. set_elem j (set_described d)) xs v) = core v" for xs and v :: "'a validator"
    by (rule core_fold_elem) simp
  then have "core (fold (\<lambda>(name, testgroup) v.
       if testgroup = grp then fold (\<lambda>j. set_elem j (set_described d)) (findByName v name) v else v) gs v) = core v" for grp :: jstring and gs
    by (intro core_fold) (auto split: prod.split)
  then show ?thesis by (simp add: describe_group_def split: option.split)
qed

lemma core_showLabel [simp]: "core (showLabel cfg i message v) = core v"
proof -
  have lab: "core (fold (\<lambda>k. set_label k f) xs v) = core v" for f xs and v :: "'a validator"
    by (rule core_fold) simp
  have des: "core (set_elem i (set_described d) v) = core v" for d and v :: "'a validator"
    by (rule core_set_elem) simp
  show ?thesis by (simp add: showLabel_def Let_def lab des)
qed

lemma core_set_message [simp]: "core (set_message n m x v) = core v"
  by (simp add: set_message_def split: option.split field_messages.split)

lemma core_set_previous [simp]: "core (set_previous k f v) = core v"
  by (simp add: set_previous_def)

section \<open>Settings that respect the core\<close>

text \<open>
  What the callbacks of the caller promise: they leave the requests and the names alone. The default
  settings satisfy it, and so does every set of callbacks that only changes how things look.
\<close>

locale quiet_callbacks =
  fixes cfg :: "'n::floor_ceiling settings"
  assumes highlight_quiet: "c_highlight cfg = Some f \<Longrightarrow> core (f v i a b) = core v"
    and unhighlight_quiet: "c_unhighlight cfg = Some f \<Longrightarrow> core (f v i a b) = core v"
    and showErrors_quiet: "c_showErrors cfg = Some g \<Longrightarrow> core (g v) = core v"
    and submitHandler_quiet: "c_submitHandler cfg = Some h \<Longrightarrow> core (snd (h v)) = core v"
begin

lemma core_show_error [simp]: "core (show_error cfg err v) = core v"
  using highlight_quiet by (simp add: show_error_def Let_def split: option.split)

lemma core_defaultShowErrors [simp]: "core (defaultShowErrors cfg v) = core v"
proof -
  have 1: "core (fold (show_error cfg) xs v) = core v" for xs and v :: "'n validator"
    by (rule core_fold) simp
  have 2: "core (fold (\<lambda>i. showLabel cfg i m) xs v) = core v" for xs m and v :: "'n validator"
    by (rule core_fold) simp
  have 3: "c_unhighlight cfg = Some f \<Longrightarrow> core (fold (\<lambda>i v. f v i a b) xs v) = core v" for f a b xs and v :: "'n validator"
    by (rule core_fold) (rule unhighlight_quiet)
  show ?thesis by (simp add: defaultShowErrors_def Let_def 1 2 3 split: option.split)
qed

lemma core_merge_errors [simp]: "core (merge_errors es v) = core v"
  by (simp add: merge_errors_def Let_def)

lemma core_showErrors [simp]: "core (showErrors cfg es v) = core v"
  using showErrors_quiet by (simp add: showErrors_def Let_def split: option.split)

lemma core_onfocusin [simp]: "core (onfocusin cfg i v) = core v"
  using unhighlight_quiet by (simp add: onfocusin_def Let_def split: option.split)

lemma core_focusInvalid [simp]: "core (focusInvalid cfg v) = core v"
  by (simp add: focusInvalid_def Let_def split: option.split list.split)

lemma core_handle [simp]: "core (snd (handle cfg v)) = core v"
proof -
  define hidden where "hidden = (case v_submitButton v of
      Some b \<Rightarrow> if c_submitHandler cfg \<noteq> None \<or> v_formSubmitted v then Some (bt_name b, bt_val b) else None | None \<Rightarrow> None)"
  define u where "u = (case hidden of Some h \<Rightarrow> v\<lparr>v_hidden := v_hidden v @ [h]\<rparr> | None \<Rightarrow> v)"
  have u: "core u = core v" by (simp add: u_def split: option.split)
  show ?thesis
  proof (cases "c_submitHandler cfg")
    case None
    then show ?thesis using u by (simp add: handle_def hidden_def [symmetric] u_def [symmetric])
  next
    case (Some f)
    obtain r w where f: "f (emit (HandlerCalled hidden) u) = (r, w)" by fastforce
    then have "core w = core v" using submitHandler_quiet [OF Some, of "emit (HandlerCalled hidden) u"] u by simp
    then show ?thesis using u Some f by (simp add: handle_def hidden_def [symmetric] u_def [symmetric])
  qed
qed

end

text \<open>
  The bookkeeping of pending requests: the counter is the number of pending names, and every request
  that can still be answered belongs to a pending name and to the port of that name. Every event of
  the page keeps this.
\<close>

section \<open>The invariant\<close>

text \<open>Every editable element has a form and a name already, so nothing is renamed later.\<close>

definition named :: "'n validator \<Rightarrow> bool" where
  "named v = list_all (\<lambda>(n, editable, no_form). editable \<longrightarrow> n \<noteq> [] \<and> \<not> no_form) (keys v)"

definition open_ok :: "'n validator \<Rightarrow> nat \<times> request \<Rightarrow> bool" where
  "open_ok v = (\<lambda>(x, rq). rq_element rq < length (v_elems v) \<and> is_pending v (name_of v (rq_element rq)) \<and>
     obj_get (v_ports v) (elementAjaxPort v (rq_element rq)) = Some x \<and> x < v_next v)"

definition requests_ok :: "'n validator \<Rightarrow> bool" where
  "requests_ok v \<longleftrightarrow>
     obj_ok (v_pending v) \<and> list_all snd (v_pending v) \<and> v_pendingRequest v = length (v_pending v) \<and>
     distinct (map fst (v_open v)) \<and> list_all (open_ok v) (v_open v) \<and> named v"

lemma length_keys: "length (keys v) = length (v_elems v)"
  by (simp add: keys_def)

lemma name_of_keys: "i < length (v_elems v) \<Longrightarrow> name_of v i = fst (keys v ! i)"
  by (simp add: keys_def name_of_def elem_def key_info_def)

lemma keys_core: "core w = core v \<Longrightarrow> keys w = keys v"
  by (simp add: core_def)

lemma requests_ok_core:
  assumes "core w = core v"
  shows "requests_ok w = requests_ok v"
proof -
  have eq: "v_pending w = v_pending v" "v_pendingRequest w = v_pendingRequest v" "v_open w = v_open v"
    "v_ports w = v_ports v" "v_next w = v_next v" "keys w = keys v"
    using assms by (simp_all add: core_def)
  have len: "length (v_elems w) = length (v_elems v)" using eq(6) length_keys by metis
  have "open_ok w p = open_ok v p" for p
    using eq len by (cases p) (auto simp: open_ok_def is_pending_def elementAjaxPort_def name_of_keys)
  then have "open_ok w = open_ok v" by (rule ext)
  then show ?thesis using eq by (simp add: requests_ok_def named_def)
qed

section \<open>Pending names\<close>

lemma length_obj_set: "length (obj_set k x ob) = (if obj_get ob k = None then Suc (length ob) else length ob)"
  by (induction ob) (auto simp: obj_get_def)

lemma length_obj_delete: "obj_ok ob \<Longrightarrow> length (obj_delete k ob) = (if obj_get ob k = None then length ob else length ob - 1)"
proof (induction ob)
  case (Cons p ob)
  obtain k' x where p: "p = (k', x)" by (cases p)
  have ok: "obj_ok ob" and fresh: "obj_get ob k' = None" using Cons.prems by (auto simp: p obj_ok_def obj_get_None)
  show ?case
  proof (cases "k' = k")
    case True
    have "obj_delete k ob = ob" using fresh unfolding True obj_delete_def obj_get_None by (intro filter_True) force
    then show ?thesis using True by (simp add: p obj_delete_def obj_get_def)
  next
    case False
    then have "length ob > 0" if "obj_get ob k \<noteq> None" using that by (cases ob) auto
    then show ?thesis using False Cons.IH [OF ok] by (auto simp: p obj_delete_def obj_get_def)
  qed
qed (simp add: obj_delete_def)

lemma set_obj_set: "set (obj_set k x ob) \<subseteq> insert (k, x) (set ob)"
proof (induction ob)
  case (Cons p ob)
  then show ?case by (cases p) auto
qed simp

lemma pending_true: "list_all snd ob \<Longrightarrow> obj_get ob k = None \<or> obj_get ob k = Some True"
  by (induction ob) (auto simp: obj_get_def)

definition ok_step :: "'n validator \<Rightarrow> 'n validator \<Rightarrow> bool" where
  "ok_step v w \<longleftrightarrow> (requests_ok v \<longrightarrow> requests_ok w) \<and> keys w = keys v"

lemma ok_step_refl [simp]: "ok_step v v"
  by (simp add: ok_step_def)

lemma ok_step_trans: "ok_step u v \<Longrightarrow> ok_step v w \<Longrightarrow> ok_step u w"
  by (auto simp: ok_step_def)

lemma ok_step_core: "core w = core v \<Longrightarrow> ok_step v w"
  using requests_ok_core keys_core by (auto simp: ok_step_def)

lemma ok_step_core_trans: "ok_step u v \<Longrightarrow> core w = core v \<Longrightarrow> ok_step u w"
  using ok_step_trans ok_step_core by blast

lemma ok_step_length: "ok_step v w \<Longrightarrow> length (v_elems w) = length (v_elems v)"
  unfolding ok_step_def by (metis length_keys)

lemma core_class_set [simp]: "core (set_elem i (\<lambda>e. e\<lparr>fe_classes := g (fe_classes e)\<rparr>) v) = core v"
  by (rule core_set_elem) simp

lemma startRequest_ok: "i < length (v_elems v) \<Longrightarrow> ok_step v (startRequest cfg i v)"
proof (cases "is_pending v (name_of v i)")
  case False
  assume i: "i < length (v_elems v)"
  let ?w = "v\<lparr>v_pendingRequest := v_pendingRequest v + 1, v_pending := obj_set (name_of v i) True (v_pending v)\<rparr>"
  have "requests_ok ?w" if ok: "requests_ok v"
  proof -
    have none: "obj_get (v_pending v) (name_of v i) = None"
      using False ok pending_true by (auto simp: is_pending_def requests_ok_def)
    have "open_ok ?w p" if "open_ok v p" for p
      using that by (cases p) (auto simp: open_ok_def is_pending_def elementAjaxPort_def name_of_def elem_def)
    moreover have "list_all snd (obj_set (name_of v i) True (v_pending v))"
      using ok set_obj_set [of "name_of v i" True "v_pending v"] by (fastforce simp: requests_ok_def list_all_iff)
    ultimately show ?thesis
      using ok none by (auto simp: requests_ok_def length_obj_set named_def keys_def list_all_iff)
  qed
  moreover have "core (startRequest cfg i v) = core ?w" using False by (simp add: startRequest_def)
  ultimately show ?thesis using requests_ok_core [of "startRequest cfg i v" ?w]
    by (simp add: ok_step_def) (simp add: core_def keys_def)
qed (simp add: startRequest_def)

text \<open>A name stops being pending together with its requests.\<close>

lemma drop_pending_core:
  "core (drop_pending cfg i v) = core (v\<lparr>v_pendingRequest := v_pendingRequest v - 1, v_pending := obj_delete (name_of v i) (v_pending v)\<rparr>)"
  by (simp add: drop_pending_def)

lemma drop_pending_ok:
  assumes ok: "requests_ok v" and pending: "is_pending v (name_of v i)"
    and gone: "\<And>x rq. (x, rq) \<in> set (v_open v) \<Longrightarrow> name_of v (rq_element rq) \<noteq> name_of v i"
  shows "requests_ok (drop_pending cfg i v) \<and> keys (drop_pending cfg i v) = keys v"
proof -
  let ?w = "v\<lparr>v_pendingRequest := v_pendingRequest v - 1, v_pending := obj_delete (name_of v i) (v_pending v)\<rparr>"
  have "open_ok ?w p" if "p \<in> set (v_open v)" "open_ok v p" for p
    using that gone by (cases p) (auto simp: open_ok_def is_pending_def elementAjaxPort_def name_of_def elem_def)
  moreover have "list_all snd (obj_delete (name_of v i) (v_pending v))"
    using ok by (auto simp: requests_ok_def list_all_iff obj_delete_def)
  ultimately have "requests_ok ?w"
    using ok pending by (auto simp: requests_ok_def length_obj_delete is_pending_def named_def keys_def list_all_iff)
  moreover have "keys ?w = keys v" by (simp add: keys_def)
  ultimately show ?thesis using requests_ok_core [OF drop_pending_core] keys_core [OF drop_pending_core] by metis
qed

lemma open_same_port:
  assumes "requests_ok v" "(x, rq) \<in> set (v_open v)" "obj_get (v_ports v) (elementAjaxPort v i) = Some y"
    "name_of v (rq_element rq) = name_of v i"
  shows "x = y"
  using assms by (auto simp: requests_ok_def list_all_iff open_ok_def elementAjaxPort_def)

lemma ajaxAbort_ok:
  assumes ok: "requests_ok v"
  shows "requests_ok (ajaxAbort (elementAjaxPort v i) v)"
    "(x, rq) \<in> set (v_open (ajaxAbort (elementAjaxPort v i) v)) \<Longrightarrow> name_of v (rq_element rq) \<noteq> name_of v i"
proof -
  let ?p = "elementAjaxPort v i"
  show "requests_ok (ajaxAbort ?p v)"
  proof (cases "obj_get (v_ports v) ?p")
    case (Some y)
    let ?w = "v\<lparr>v_open := filter (\<lambda>(x, _). x \<noteq> y) (v_open v), v_ports := obj_delete ?p (v_ports v)\<rparr>"
    have "open_ok ?w q" if q: "q \<in> set (v_open v)" "fst q \<noteq> y" "open_ok v q" for q
    proof -
      obtain x rq where q': "q = (x, rq)" by (cases q)
      then have "elementAjaxPort v (rq_element rq) \<noteq> ?p" using q Some by (auto simp: open_ok_def)
      then show ?thesis
        using q(3) by (auto simp: q' open_ok_def is_pending_def elementAjaxPort_def name_of_def elem_def)
    qed
    then have "requests_ok ?w"
      using ok by (auto simp: requests_ok_def named_def keys_def list_all_iff distinct_map_filter)
    then show ?thesis using Some requests_ok_core [OF core_emit, of "Aborted y" ?w] by (simp add: ajaxAbort_def)
  qed (simp add: ajaxAbort_def ok)
next
  assume mem: "(x, rq) \<in> set (v_open (ajaxAbort (elementAjaxPort v i) v))"
  show "name_of v (rq_element rq) \<noteq> name_of v i"
  proof (cases "obj_get (v_ports v) (elementAjaxPort v i)")
    case None
    then show ?thesis using mem ok by (auto simp: ajaxAbort_def requests_ok_def list_all_iff open_ok_def elementAjaxPort_def)
  next
    case (Some y)
    then have "(x, rq) \<in> set (v_open v)" "x \<noteq> y" using mem by (auto simp: ajaxAbort_def emit_def)
    then show ?thesis using open_same_port [OF ok _ Some] by blast
  qed
qed

lemma ajaxAbort_fields [simp]:
  "v_elems (ajaxAbort p v) = v_elems v" "v_pending (ajaxAbort p v) = v_pending v" "v_next (ajaxAbort p v) = v_next v"
  "keys (ajaxAbort p v) = keys v" "name_of (ajaxAbort p v) i = name_of v i" "elementAjaxPort (ajaxAbort p v) i = elementAjaxPort v i"
  "is_pending (ajaxAbort p v) n = is_pending v n"
  by (simp_all add: ajaxAbort_def emit_def keys_def name_of_def elem_def elementAjaxPort_def is_pending_def split: option.split)

lemma abortRequest_ok: "ok_step v (abortRequest cfg i v)"
proof -
  have "requests_ok (abortRequest cfg i v)" if ok: "requests_ok v"
  proof (cases "is_pending v (name_of v i)")
    case True
    have "requests_ok (drop_pending cfg i (ajaxAbort (elementAjaxPort v i) v))"
      using drop_pending_ok [OF ajaxAbort_ok(1) [OF ok], of i i cfg] True ajaxAbort_ok(2) [OF ok] by simp
    then show ?thesis using True by (simp add: abortRequest_def)
  qed (simp add: abortRequest_def ok)
  moreover have "keys (abortRequest cfg i v) = keys v"
    using keys_core [OF drop_pending_core [of cfg i "ajaxAbort (elementAjaxPort v i) v"]]
    by (simp add: abortRequest_def) (simp add: keys_def)
  ultimately show ?thesis by (simp add: ok_step_def)
qed

lemma ajax_abort_mode_ok:
  assumes pending: "is_pending v (name_of v i)" and rq: "rq_element rq = i" "i < length (v_elems v)"
  shows "ok_step v (ajax_abort_mode (elementAjaxPort v i) rq v)"
proof -
  let ?p = "elementAjaxPort v i"
  let ?u = "ajaxAbort ?p v"
  let ?w = "?u\<lparr>v_next := v_next ?u + 1, v_ports := obj_set ?p (v_next ?u) (v_ports ?u), v_open := v_open ?u @ [(v_next ?u, rq)]\<rparr>"
  have core: "core (ajax_abort_mode ?p rq v) = core ?w" by (simp add: ajax_abort_mode_def Let_def)
  have "requests_ok ?w" if ok: "requests_ok v"
  proof -
    note u = ajaxAbort_ok(1) [OF ok, of i]
    have old: "open_ok ?w (x, q)" if q: "(x, q) \<in> set (v_open ?u)" for x q
    proof -
      have "open_ok ?u (x, q)" using u q by (auto simp: requests_ok_def list_all_iff)
      moreover have "elementAjaxPort v (rq_element q) \<noteq> ?p"
        using ajaxAbort_ok(2) [OF ok q] by (simp add: elementAjaxPort_def)
      ultimately show ?thesis
        by (auto simp: open_ok_def is_pending_def elementAjaxPort_def name_of_def elem_def)
    qed
    have new: "open_ok ?w (v_next ?u, rq)" using pending rq
      by (simp add: open_ok_def is_pending_def elementAjaxPort_def name_of_def elem_def)
    have fresh: "v_next ?u \<notin> fst ` set (v_open ?u)"
      using u by (auto simp: requests_ok_def list_all_iff open_ok_def)
    have all: "list_all (open_ok ?w) (v_open ?w)" using old new by (auto simp: list_all_iff)
    show ?thesis using u all fresh unfolding requests_ok_def named_def
      by (simp add: keys_def)
  qed
  then show ?thesis using requests_ok_core [OF core] keys_core [OF core] by (simp add: ok_step_def) (simp add: keys_def)
qed

end
