(* ===== verification/Form_Steps.thy ===== *)
theory Form_Steps
  imports Form_Core
begin

text \<open>
  The events of a page with a validated form, the states they reach, and the proof that each keeps the
  bookkeeping of requests. The client of the interface \<open>sound_settings\<close> is the validator, its
  provider the settings: the callbacks are quiet and the methods keep the invariant.
\<close>

section \<open>Naming is settled\<close>

lemma named_elem:
  assumes "named v" "i < length (v_elems v)" "is_editable (elem v i)"
  shows "fe_name (elem v i) \<noteq> [] \<and> fe_form (elem v i) \<noteq> None"
  using assms by (auto simp: named_def keys_def list_all_length key_info_def elem_def)

lemma adopt_named: "named v \<Longrightarrow> i < length (v_elems v) \<Longrightarrow> adopt i v = v"
  using named_elem [of v i] by (auto simp: adopt_def)

lemma core_set_elem_at:
  assumes "key_info (f (elem v i)) = key_info (elem v i)"
  shows "core (set_elem i f v) = core v"
proof (cases "i < length (v_elems v)")
  case True
  then have "(map key_info (v_elems v))[i := key_info (v_elems v ! i)] = map key_info (v_elems v)"
    by (metis list_update_id nth_map)
  then have "keys (set_elem i f v) = keys v" using assms by (simp add: keys_def set_elem_def map_update elem_def)
  then show ?thesis by (simp add: core_def set_elem_def)
qed (simp add: core_def keys_def set_elem_def list_update_beyond)

lemma core_renamed:
  assumes "named v" "i < length (v_elems v)" "is_editable (elem v i)" "nm = fe_name (elem v i)"
  shows "core (set_elem i (\<lambda>e. e\<lparr>fe_form := Some (fe_closest e), fe_name := nm\<rparr>) v) = core v"
  using named_elem [OF assms(1-3)] assms(3,4)
  by (intro core_set_elem_at) (simp add: key_info_def is_editable_def)

lemma snd_snd_if: "snd (snd (if b then (a, c, w) else if b' then (a', c', w) else (a'', c'', w))) = w"
  by simp

lemma core_element_step:
  assumes "named v" "i < length (v_elems v)"
  shows "core (snd (snd (element_step cfg i (found, cache, v)))) = core v"
proof (cases "is_editable (elem v i)")
  case True
  define nm where "nm = (if fe_name (elem v i) \<noteq> [] then fe_name (elem v i)
    else case fe_attr (elem v i) (js ''name'') of Some n \<Rightarrow> n | None \<Rightarrow> [])"
  define w where "w = set_elem i (\<lambda>e. e\<lparr>fe_form := Some (fe_closest e), fe_name := nm\<rparr>) v"
  have "nm = fe_name (elem v i)" using named_elem [OF assms True] by (simp add: nm_def)
  then have "core w = core v" unfolding w_def by (rule core_renamed [OF assms True])
  moreover have "snd (snd (element_step cfg i (found, cache, v))) = w"
    unfolding element_step_def Let_def prod.case nm_def [symmetric] if_P [OF True] w_def [symmetric]
    by (rule snd_snd_if)
  ultimately show ?thesis by simp
next
  case False
  have "snd (snd (element_step cfg i (found, cache, v))) = v"
    unfolding element_step_def Let_def prod.case if_not_P [OF False]
    by (rule snd_snd_if)
  then show ?thesis by simp
qed

lemma named_core: "core w = core v \<Longrightarrow> named w = named v"
  by (drule keys_core) (simp add: named_def)

lemma length_core: "core w = core v \<Longrightarrow> length (v_elems w) = length (v_elems v)"
  by (drule keys_core) (simp flip: length_keys)

lemma element_steps:
  assumes "named v" "list_all (\<lambda>i. i < length (v_elems v)) is"
  shows "core (snd (snd (fold (element_step cfg) is (found, cache, v)))) = core v \<and>
    set (fst (fold (element_step cfg) is (found, cache, v))) \<subseteq> set found \<union> set is"
  using assms
proof (induction "is" arbitrary: found cache v)
  case (Cons i "is")
  obtain found' cache' v' where step: "element_step cfg i (found, cache, v) = (found', cache', v')"
    by (cases "element_step cfg i (found, cache, v)")
  have core: "core v' = core v" using core_element_step [OF Cons.prems(1), of i cfg found cache] Cons.prems(2) step by simp
  have "set found' \<subseteq> insert i (set found)" using step by (auto simp: element_step_def Let_def split: if_splits)
  then show ?case
    using Cons.IH [of v' found' cache'] Cons.prems core named_core [OF core] length_core [OF core] by (auto simp: step)
qed simp

lemma elements_ok:
  assumes "named v"
  shows "core (snd (elements cfg v)) = core v" "i \<in> set (fst (elements cfg v)) \<Longrightarrow> i < length (v_elems v)"
proof -
  let ?is = "filter (\<lambda>i. fe_validated (elem v i) \<and> \<not> fe_left_out (elem v i) \<and> \<not> fe_ignored (elem v i)) [0..<length (v_elems v)]"
  note steps = element_steps [OF assms, of ?is cfg "[]" "[]"]
  have "list_all (\<lambda>i. i < length (v_elems v)) ?is" by (auto simp: list_all_iff)
  note steps = steps [OF this]
  show "core (snd (elements cfg v)) = core v" using steps by (simp add: elements_def Let_def case_prod_beta)
  show "i \<in> set (fst (elements cfg v)) \<Longrightarrow> i < length (v_elems v)"
    using steps by (auto simp: elements_def Let_def case_prod_beta)
qed

lemma validationTargetFor_bound: "validationTargetFor v i = Some j \<Longrightarrow> i < length (v_elems v) \<Longrightarrow> j < length (v_elems v)"
proof -
  assume a: "validationTargetFor v i = Some j" "i < length (v_elems v)"
  have "k < length (v_elems v)" if "k \<in> set (if checkable (elem v i) then findByName v (fe_name (elem v i)) else [i])" for k
    using that a(2) by (auto simp: findByName_iff split: if_splits)
  moreover have "j \<in> set (if checkable (elem v i) then findByName v (fe_name (elem v i)) else [i])"
  proof -
    obtain ks where "filter (\<lambda>j. \<not> fe_ignored (elem v j)) (if checkable (elem v i) then findByName v (fe_name (elem v i)) else [i]) = j # ks"
      using a(1) by (auto simp: validationTargetFor_def split: list.splits)
    then have "j \<in> set (filter (\<lambda>j. \<not> fe_ignored (elem v j)) (if checkable (elem v i) then findByName v (fe_name (elem v i)) else [i]))"
      by simp
    then show ?thesis by simp
  qed
  ultimately show ?thesis by blast
qed

section \<open>The interface between the validator and its settings\<close>

locale sound_settings = quiet_callbacks cfg
  for cfg :: "'n::floor_ceiling settings" +
  assumes methods_ok: "(k, f) \<in> set (c_methods cfg) \<Longrightarrow> i < length (v_elems v) \<Longrightarrow> ok_step v (snd (f v val i p))"
begin

lemma method_ok: "obj_get (c_methods cfg) k = Some f \<Longrightarrow> i < length (v_elems v) \<Longrightarrow> ok_step v (snd (f v val i p))"
  using methods_ok by (auto simp: obj_get_def dest: map_of_SomeD)

lemma formatAndAdd_core [simp]: "core (formatAndAdd cfg i m p v) = core v"
  by (simp add: formatAndAdd_def Let_def)

lemma check_rules_ok: "i < length (v_elems v) \<Longrightarrow> ok_step v (snd (check_rules cfg i val n rules d v))"
proof (induction rules arbitrary: d v)
  case (Cons r rules)
  obtain k p where r: "r = (k, p)" by (cases r)
  show ?case
  proof (cases "obj_get (c_methods cfg) k")
    case (Some f)
    obtain out v' where f: "f v val i p = (out, v')" by fastforce
    have step: "ok_step v v'" using method_ok [OF Some Cons.prems, of val p] f by simp
    have len: "i < length (v_elems v')" using ok_step_length [OF step] Cons.prems by simp
    show ?thesis
    proof (cases out)
      case (Inr result)
      note rest = ok_step_trans [OF step Cons.IH [OF len, of "result = RMismatch \<and> n = 1"]]
      show ?thesis using Some f Inr rest ok_step_core_trans [OF step] by (simp add: r)
    qed (use Some f step in \<open>simp add: r\<close>)
  qed (simp add: r)
qed simp

lemma check_target_ok:
  assumes "requests_ok v" "i < length (v_elems v)"
  shows "ok_step v (snd (check_target cfg i v))"
proof -
  have adopted: "adopt i v = v" using assms adopt_named [of v i] by (simp add: requests_ok_def)
  let ?u = "abortRequest cfg i v"
  have u: "ok_step v ?u" by (rule abortRequest_ok)
  have len: "i < length (v_elems ?u)" using ok_step_length [OF u] assms(2) by simp
  have run: "ok_step v (snd (check_rules cfg i val n rules d ?u))" for val n rules d
    using ok_step_trans [OF u check_rules_ok [OF len]] .
  have "ok_step v w" if "check_rules cfg i val n rules d ?u = (out, w)" for val n rules d out w
    using run [of val n rules d] that by simp
  moreover from this have "ok_step v (w\<lparr>v_successList := s\<rparr>)" if "check_rules cfg i val n rules d ?u = (out, w)" for val n rules d out w s
    using ok_step_core_trans [OF _ core_updates(8)] that by blast
  ultimately show ?thesis
    unfolding check_target_def Let_def adopted
    by (auto split: option.split prod.split sum.split checked.split)
qed

lemma check_ok:
  assumes "requests_ok v" "i < length (v_elems v)"
  shows "ok_step v (snd (check cfg i v))"
  using check_target_ok [OF assms(1) validationTargetFor_bound [OF _ assms(2)]]
  by (auto simp: check_def split: option.split)

lemma ok_stepD: "ok_step v w \<Longrightarrow> requests_ok v \<Longrightarrow> requests_ok w \<and> length (v_elems w) = length (v_elems v)"
  using ok_step_length by (auto simp: ok_step_def)

lemma check_all_ok:
  assumes "requests_ok v" "list_all (\<lambda>i. i < length (v_elems v)) is"
  shows "ok_step v (snd (check_all cfg is v))"
  using assms
proof (induction "is" arbitrary: v)
  case (Cons i "is")
  obtain r v' where check: "check cfg i v = (r, v')" by fastforce
  have step: "ok_step v v'" using check_ok [of v i] Cons.prems check by simp
  then show ?case
    using Cons.IH [of v'] Cons.prems ok_stepD [OF step Cons.prems(1)] ok_step_trans [OF step] check
    by (cases r) auto
qed simp

lemma core_reset [simp]: "core (reset v) = core v" "core (resetInternals v) = core v"
  by (simp_all add: reset_def resetInternals_def)

lemma core_prepare [simp]: "core (prepareForm cfg v) = core v" "core (prepareElement cfg i v) = core v"
  by (simp_all add: prepareForm_def prepareElement_def Let_def)

lemma requests_named: "requests_ok v \<Longrightarrow> named v"
  by (simp add: requests_ok_def)

lemma checkForm_ok:
  assumes "requests_ok v"
  shows "ok_step v (snd (checkForm cfg v))"
proof -
  let ?p = "prepareForm cfg v"
  have p: "requests_ok ?p" using requests_ok_core [OF core_prepare(1)] assms by simp
  obtain els u where els: "elements cfg ?p = (els, u)" by fastforce
  have u: "core u = core v" using elements_ok(1) [OF requests_named [OF p], of cfg] els by simp
  let ?u = "u\<lparr>v_currentElements := els\<rparr>"
  have uu: "core ?u = core v" using u by simp
  have bound: "list_all (\<lambda>i. i < length (v_elems ?u)) els"
    using elements_ok(2) [OF requests_named [OF p], of _ cfg] els length_core [OF u] length_core [OF core_prepare(1), of v]
    by (auto simp: list_all_iff)
  have ok: "requests_ok ?u" using requests_ok_core [OF uu] assms by simp
  obtain r w where run: "check_all cfg els ?u = (r, w)" by fastforce
  have "ok_step v w"
    using ok_step_trans [OF ok_step_core [OF uu] check_all_ok [OF ok bound]] run by simp
  then show ?thesis by (cases r) (simp_all add: checkForm_def els run)
qed

lemma form_ok:
  assumes "requests_ok v"
  shows "ok_step v (snd (form cfg v))"
proof -
  obtain r w where r: "checkForm cfg v = (r, w)" by fastforce
  have w: "ok_step v w" using checkForm_ok [OF assms] r by simp
  show ?thesis
  proof (cases r)
    case (Inr b)
    show ?thesis unfolding form_def r Inr Let_def using w by (simp add: ok_step_core_trans)
  qed (use w in \<open>simp add: form_def r\<close>)
qed

lemma check_group_ok: "requests_ok v \<Longrightarrow> ok_step v (snd (check_group cfg grp own gs b v))"
proof (induction gs arbitrary: b v)
  case (Cons g gs)
  obtain name testgroup where g: "g = (name, testgroup)" by (cases g)
  show ?case
  proof (cases "testgroup = grp \<and> name \<noteq> own")
    case True
    show ?thesis
    proof (cases "findByName v name")
      case (Cons j js)
      then have j: "j < length (v_elems v)" using findByName_iff [of j v name] by simp
      show ?thesis
      proof (cases "validationTargetFor v j")
        case (Some k)
        then have k: "k < length (v_elems v)" using validationTargetFor_bound j by blast
        let ?v = "v\<lparr>v_currentElements := v_currentElements v @ [k]\<rparr>"
        have v: "core ?v = core v" by simp
        obtain r w where check: "check cfg k ?v = (r, w)" by fastforce
        have "ok_step ?v w" using check_ok [of ?v k] check requests_ok_core [OF v] Cons.prems k by simp
        then have w: "ok_step v w" using ok_step_trans [OF ok_step_core [OF v]] by blast
        have "requests_ok w" using ok_stepD [OF w Cons.prems] by blast
        then have "ok_step v (snd (check_group cfg grp own gs b' w))" for b'
          using ok_step_trans [OF w Cons.IH] by blast
        then show ?thesis using g True Cons Some check w Cons.IH [OF Cons.prems] by (cases r) simp_all
      qed (use g True Cons in \<open>simp add: Cons.IH Cons.prems\<close>)
    qed (use g True in simp)
  qed (use g in \<open>auto simp: Cons.IH Cons.prems\<close>)
qed simp

lemma element_ok:
  assumes "requests_ok v" "i < length (v_elems v)"
  shows "ok_step v (snd (element cfg i v))"
proof (cases "validationTargetFor v i")
  case (Some k)
  then have k: "k < length (v_elems v)" using validationTargetFor_bound assms(2) by blast
  let ?v = "(prepareElement cfg k v)\<lparr>v_currentElements := [k]\<rparr>"
  let ?name = "name_of ?v k"
  have v: "core ?v = core v" by simp
  have ok: "requests_ok ?v" using requests_ok_core [OF v] assms(1) by simp
  obtain r u where grouped: "(case obj_get (v_groups ?v) ?name of
      Some grp \<Rightarrow> if grp \<noteq> [] then check_group cfg grp ?name (v_groups ?v) True ?v else (Inr True, ?v) | None \<Rightarrow> (Inr True, ?v)) = (r, u)"
    by fastforce
  have "ok_step ?v u"
    using check_group_ok [OF ok] grouped by (auto split: option.splits if_splits) (metis snd_conv)
  then have u: "ok_step v u" using ok_step_trans [OF ok_step_core [OF v]] by blast
  have uk: "requests_ok u" "k < length (v_elems u)" using ok_stepD [OF u assms(1)] k by auto
  obtain r' w where check: "check cfg k u = (r', w)" by fastforce
  have w: "ok_step v w" using ok_step_trans [OF u check_ok [OF uk]] check by simp
  have aria: "core (set_elem i (set_aria_invalid b) x) = core x" for b and x :: "'n validator" by (rule core_set_elem) simp
  have finish: "ok_step v (set_elem i (set_aria_invalid b) (showErrors cfg None
      (if c then w\<lparr>v_invalid := iv, v_toHide := th\<rparr> else w\<lparr>v_invalid := iv\<rparr>)))" for b c iv th
    by (rule ok_step_core_trans [OF w]) (simp add: aria)
  show ?thesis
  proof (cases r)
    case (Inl e)
    then show ?thesis using u by (simp only: element_def Some option.case Let_def grouped prod.case sum.case snd_conv)
  next
    case (Inr b)
    show ?thesis
    proof (cases r')
      case Inl
      then show ?thesis using w Inr by (simp only: element_def Some option.case Let_def grouped prod.case sum.case snd_conv check)
    next
      case (Inr b')
      show ?thesis
        unfolding element_def Some option.case Let_def grouped \<open>r = Inr b\<close> prod.case sum.case check Inr snd_conv
        using finish [of "\<not> (b' \<noteq> Some False)" _ _ _] by (auto split: if_splits intro!: finish)
    qed
  qed
qed (simp add: element_def ok_step_core)

lemma submit_handler_ok:
  assumes "requests_ok v"
  shows "ok_step v (snd (submit_handler cfg v))"
proof -
  have handled: "ok_step v (snd (handle cfg w))" if "ok_step v w" for w
    using ok_step_core_trans [OF that core_handle] .
  obtain r w where form: "form cfg v = (r, w)" by fastforce
  have w: "ok_step v w" using form_ok [OF assms] form by simp
  have c: "ok_step v (v\<lparr>v_cancelSubmit := False\<rparr>)" by (rule ok_step_core) simp
  have f: "ok_step v (w\<lparr>v_formSubmitted := True\<rparr>)" "ok_step v (focusInvalid cfg w)"
    by (rule ok_step_core_trans [OF w], simp)+
  show ?thesis
    using handled [OF c] handled [OF w] w f form
    by (cases r) (auto simp: submit_handler_def case_prod_beta split: bool.split)
qed

lemma core_send [simp]: "core (send b v) = core v"
  by (simp add: send_def)

lemma submit_event_ok: "requests_ok v \<Longrightarrow> ok_step v (submit_event cfg v)"
  using submit_handler_ok [of v] ok_step_core_trans [OF _ core_send]
  by (cases "submit_handler cfg v"; cases "fst (submit_handler cfg v)") (simp_all add: submit_event_def)

lemma stopRequest_ok:
  assumes "requests_ok v" "is_pending v (name_of v i)"
    "\<And>x rq. (x, rq) \<in> set (v_open v) \<Longrightarrow> name_of v (rq_element rq) \<noteq> name_of v i"
  shows "ok_step v (snd (stopRequest cfg i b v))"
proof -
  let ?d = "drop_pending cfg i v"
  have d: "ok_step v ?d" using drop_pending_ok [OF assms] by (simp add: ok_step_def)
  have dok: "requests_ok ?d" using ok_stepD [OF d assms(1)] by blast
  obtain r w where form: "form cfg ?d = (r, w)" by fastforce
  have w: "ok_step v w" using ok_step_trans [OF d form_ok [OF dok]] form by simp
  have wok: "requests_ok w" using ok_stepD [OF w assms(1)] by blast
  obtain r' x where sub: "submit_handler cfg w = (r', x)" by fastforce
  have x: "ok_step v x" using ok_step_trans [OF w submit_handler_ok [OF wok]] sub by simp
  have hid: "core (remove_hidden bt y) = core y" for bt and y :: "'n validator" by (simp add: remove_hidden_def)
  have final: "ok_step v ((case bt of Some bt \<Rightarrow> remove_hidden bt (send g x) | None \<Rightarrow> send g x)\<lparr>v_formSubmitted := False\<rparr>)" for g bt
    by (rule ok_step_core_trans [OF x]) (simp add: hid split: option.split)
  have inv: "ok_step v ((emit InvalidForm ?d)\<lparr>v_formSubmitted := False\<rparr>)"
    by (rule ok_step_core_trans [OF d]) simp
  show ?thesis
    using d w x final inv
    by (cases r; cases r') (auto simp: stopRequest_def Let_def form sub)
qed

lemma core_on_valid [simp]: "core (on_valid cfg rq v) = core v"
  by (simp add: on_valid_def Let_def)

lemma core_on_invalid [simp]: "core (on_invalid cfg rq r v) = core v"
  by (simp add: on_invalid_def Let_def)

lemma name_of_core: "core w = core v \<Longrightarrow> i < length (v_elems v) \<Longrightarrow> name_of w i = name_of v i"
  using length_core [of w v] keys_core [of w v] name_of_keys [of i v] name_of_keys [of i w] by simp

lemma answered_ok:
  assumes ok: "requests_ok v" and mem: "(x, rq) \<in> set (v_open v)"
  defines "w \<equiv> v\<lparr>v_open := filter (\<lambda>(y, _). y \<noteq> x) (v_open v)\<rparr>"
  shows "ok_step v w" "is_pending w (name_of w (rq_element rq))" "rq_element rq < length (v_elems w)"
    "(y, q) \<in> set (v_open w) \<Longrightarrow> name_of w (rq_element q) \<noteq> name_of w (rq_element rq)"
proof -
  have o: "open_ok w = open_ok v"
    by (rule ext) (auto simp: w_def open_ok_def is_pending_def elementAjaxPort_def name_of_def elem_def)
  then show "ok_step v w"
    using ok by (auto simp: ok_step_def requests_ok_def w_def named_def keys_def list_all_iff distinct_map_filter)
  have r: "open_ok v (x, rq)" using ok mem by (auto simp: requests_ok_def list_all_iff)
  then show "is_pending w (name_of w (rq_element rq))" "rq_element rq < length (v_elems w)"
    by (auto simp: w_def open_ok_def is_pending_def name_of_def elem_def)
  show "name_of w (rq_element q) \<noteq> name_of w (rq_element rq)" if "(y, q) \<in> set (v_open w)"
  proof
    assume same: "name_of w (rq_element q) = name_of w (rq_element rq)"
    have y: "(y, q) \<in> set (v_open v)" "y \<noteq> x" using that by (auto simp: w_def)
    then have "open_ok v (y, q)" using ok by (auto simp: requests_ok_def list_all_iff)
    moreover have "name_of v (rq_element q) = name_of v (rq_element rq)" using same by (simp add: w_def name_of_def elem_def)
    ultimately show False using r y(2) by (simp add: open_ok_def elementAjaxPort_def)
  qed
qed

lemma answer_ok:
  assumes ok: "requests_ok v"
  shows "ok_step v (snd (answer cfg xhr response v))"
proof (cases "map_of (v_open v) xhr")
  case (Some rq)
  define w where "w = v\<lparr>v_open := filter (\<lambda>(y, _). y \<noteq> xhr) (v_open v)\<rparr>"
  note a = answered_ok [OF ok map_of_SomeD [OF Some], folded w_def]
  define b where "b = (response = RespTrue \<or> response = RespText (js ''true''))"
  define m where "m = set_message (name_of w (rq_element rq)) (rq_method rq) (pv_original (v_previous_heap w ! rq_previous rq)) w"
  define u where "u = set_previous (rq_previous rq) (\<lambda>p. p\<lparr>pv_valid := Some b\<rparr>)
      (if b then on_valid cfg rq m else on_invalid cfg rq response m)"
  have u: "core u = core w" by (simp add: u_def m_def)
  have wok: "requests_ok w" using a(1) ok by (simp add: ok_step_def)
  have uok: "requests_ok u" using requests_ok_core [OF u] wok by simp
  have names: "name_of u j = name_of w j" if "j < length (v_elems w)" for j using name_of_core [OF u that] .
  have same: "v_pending u = v_pending w" "v_open u = v_open w" using u by (simp_all add: core_def)
  have bound: "rq_element q < length (v_elems w)" if "(y, q) \<in> set (v_open w)" for y q
    using wok that by (auto simp: requests_ok_def list_all_iff open_ok_def)
  have "ok_step u (snd (stopRequest cfg (rq_element rq) b u))"
    using uok a(2-4) by (intro stopRequest_ok) (auto simp: is_pending_def same names bound)
  then have "ok_step v (snd (stopRequest cfg (rq_element rq) b u))"
    using ok_step_trans [OF ok_step_trans [OF a(1) ok_step_core [OF u]]] by blast
  moreover have "answer cfg xhr response v = stopRequest cfg (rq_element rq) b u"
    unfolding answer_def Some option.case w_def [symmetric] remote_success_def Let_def b_def [symmetric] m_def [symmetric] u_def ..
  ultimately show ?thesis by simp
qed (simp add: answer_def)

lemma request_failed_ok: "requests_ok v \<Longrightarrow> ok_step v (request_failed x v)"
proof -
  assume ok: "requests_ok v"
  have "open_ok (request_failed x v) = open_ok v"
    by (rule ext) (auto simp: request_failed_def open_ok_def is_pending_def elementAjaxPort_def name_of_def elem_def)
  then show ?thesis
    using ok by (auto simp: ok_step_def requests_ok_def request_failed_def named_def keys_def list_all_iff distinct_map_filter)
qed

end

end
