(* ===== verification/Form_Page.thy ===== *)
theory Form_Page
  imports Form_Steps
begin

text \<open>
  A page with the default settings and the standard methods: the provider of \<open>sound_settings\<close>. The
  events of the page form a step relation, and the bookkeeping of requests holds in every state it
  reaches.
\<close>

section \<open>The standard methods\<close>

lemma watch_target_core [simp]: "core (watch_target cfg m i t v) = core v"
proof -
  have "core (w\<lparr>v_blur := b\<rparr>) = core w" for w :: "'a validator" and b by simp
  then show ?thesis by (simp add: watch_target_def split: option.split)
qed

lemma previousValue_core: "previousValue cfg i m v = (k, w) \<Longrightarrow> core w = core v"
proof -
  assume a: "previousValue cfg i m v = (k, w)"
  show ?thesis
  proof (cases "map_of (v_previous v) i")
    case None
    then have w: "w = v\<lparr>v_previous_heap := v_previous_heap w, v_previous := v_previous w\<rparr>"
      using a by (auto simp: previousValue_def Let_def)
    show ?thesis by (subst w) simp
  qed (use a in \<open>simp add: previousValue_def\<close>)
qed

lemma remember_message_core [simp]: "core (remember_message i m k v) = core v"
  by (simp add: remember_message_def Let_def)

lemma is_pending_start: "is_pending (startRequest cfg i v) (name_of (startRequest cfg i v) i)"
proof -
  have "name_of (set_elem i (\<lambda>e. e\<lparr>fe_classes := g e\<rparr>) w) i = name_of w i" for g and w :: "'a validator"
    by (cases "i < length (v_elems w)") (auto simp: name_of_def elem_def set_elem_def list_update_beyond)
  then show ?thesis by (simp add: startRequest_def is_pending_def name_of_def elem_def)
qed

lemma remote_ok:
  assumes "i < length (v_elems v)"
  shows "ok_step v (snd (remote cfg a v val i p))"
proof -
  define mname where "mname = (case a of Some m \<Rightarrow> if m \<noteq> [] then m else js ''remote'' | None \<Rightarrow> js ''remote'')"
  obtain k u where pv: "previousValue cfg i mname v = (k, u)" by fastforce
  define w where "w = remember_message i mname k u"
  have w: "core w = core v" using previousValue_core [OF pv] by (simp add: w_def)
  define s where "s = (\<lambda>q. set_previous k (\<lambda>r. r\<lparr>pv_old := Some q, pv_valid := None\<rparr>) w)"
  have s: "core (s q) = core v" for q using w by (simp add: s_def)
  have len: "i < length (v_elems (s q))" for q using length_core [OF s] assms by simp
  have start: "ok_step v (startRequest cfg i (s q))" for q
    using ok_step_trans [OF ok_step_core [OF s] startRequest_ok [OF len]] .
  have ajax: "ok_step v (ajax_abort_mode (elementAjaxPort (startRequest cfg i (s q)) i) rq (startRequest cfg i (s q)))"
    if "rq_element rq = i" for q rq
    using ok_step_trans [OF start ajax_abort_mode_ok [OF is_pending_start that]] ok_step_length [OF start] assms by simp
  have w': "ok_step v w" by (rule ok_step_core [OF w])
  show ?thesis
    unfolding remote_def Let_def mname_def [symmetric] pv prod.case w_def [symmetric]
    using w' ajax [unfolded s_def] by (auto split: sum.split option.split bool.split)
qed

lemma standard_methods_ok:
  assumes "(k, f) \<in> set (standard_methods d)" "i < length (v_elems v)"
  shows "ok_step v (snd (f cfg v val i p))"
proof -
  have eq: "ok_step v (snd (equalTo cfg v val i p))"
    by (rule ok_step_core) (simp add: equalTo_def Let_def)
  have f: "f \<in> {equalTo, remote_rule} \<or> (\<exists>g. f = on_text g) \<or> (\<exists>g. f = pure_method g)"
    using assms(1) unfolding standard_methods_def by (auto simp del: js_simps)
  have shown: "ok_step v (snd (on_text g cfg v val i p))" "ok_step v (snd (pure_method h cfg v val i p))" for g h by (simp_all add: on_text_def pure_method_def)
  show ?thesis unfolding remote_rule_def using f eq remote_ok [OF assms(2), of cfg None val p] shown by (auto simp: remote_rule_def)
qed

section \<open>The default settings\<close>

text \<open>
  The defaults of \<open>$.validator\<close>; the rules and the page are the arguments, and so are the tables of
  messages and class rules, which a page may extend (\<open>default_messages\<close> and \<open>classRuleSettings\<close> are
  those of the script). \<open>methods\<close> says which of the standard methods are in the table.
\<close>

definition base_settings ::
  "'n message obj \<Rightarrow> 'n rules obj \<Rightarrow> 'n rule_data obj \<Rightarrow> (jstring \<Rightarrow> 'n::floor_ceiling option) \<Rightarrow> ('n option \<Rightarrow> jstring) \<Rightarrow> (jstring \<Rightarrow> bool) \<Rightarrow>
     ('n rule_val \<Rightarrow> nat option) \<Rightarrow> ('n rule_val \<Rightarrow> (jstring \<times> js_data) list) \<Rightarrow> 'n settings" where
  "base_settings messages class_rules rules num_of text_of selects target remote_data =
     \<lparr>c_errorClass = js ''error'', c_validClass = js ''valid'', c_pendingClass = js ''pending'', c_errorElement = js ''label'',
       c_focusCleanup = False, c_focusInvalid = True, c_onfocusout = True, c_debug = False, c_ignoreTitle = False,
       c_escapeHtml = False, c_wrapper = False, c_success = None, c_errorPlacement = None,
       c_highlight = Some highlight, c_unhighlight = Some unhighlight, c_showErrors = None, c_submitHandler = None,
       c_normalizer = None, c_messages = messages, c_methods = [],
       c_class_rules = class_rules, c_rules = init_rules rules, c_autoCreateRanges = False,
       c_num_of = num_of, c_text_of = text_of, c_selects = selects, c_target = target, c_remote_data = remote_data\<rparr>"

definition default_settings ::
  "(jstring \<Rightarrow> bool) \<Rightarrow> 'n message obj \<Rightarrow> 'n rules obj \<Rightarrow> (jstring \<Rightarrow> jstring) \<Rightarrow> 'n rule_data obj \<Rightarrow> (jstring \<Rightarrow> 'n::floor_ceiling option) \<Rightarrow> ('n option \<Rightarrow> jstring) \<Rightarrow>
     (jstring \<Rightarrow> bool) \<Rightarrow> ('n rule_val \<Rightarrow> nat option) \<Rightarrow> ('n rule_val \<Rightarrow> (jstring \<times> js_data) list) \<Rightarrow> 'n settings" where
  "default_settings methods messages class_rules date_text rules num_of text_of selects target remote_data =
     (let cfg = base_settings messages class_rules rules num_of text_of selects target remote_data
      in cfg\<lparr>c_methods := map (\<lambda>(m, f). (m, f cfg)) (filter (\<lambda>(m, _). methods m) (standard_methods date_text))\<rparr>)"

interpretation default_form: sound_settings
  "default_settings methods messages class_rules date_text rules num_of text_of selects target remote_data"
  for methods messages class_rules date_text and rules :: "'n::floor_ceiling rule_data obj" and num_of text_of selects target remote_data
  by unfold_locales (auto simp: default_settings_def base_settings_def Let_def intro: standard_methods_ok)

section \<open>The events of a page\<close>

text \<open>
  The user edits a field, acts on an element, clicks a submit button and submits; the server answers or
  fails; a script calls \<open>valid\<close> or \<open>resetForm\<close>. A target that is left has its watchers checked.
\<close>

datatype page_event =
    Edit nat field_value jstring bool
  | Ui nat ui_event
  | ClickSubmit button
  | Submit
  | Answer nat response
  | Failure nat
  | CallValid "nat list option"
  | CallReset
  | Left nat nat

definition edit_field :: "nat \<Rightarrow> field_value \<Rightarrow> jstring \<Rightarrow> bool \<Rightarrow> 'n validator \<Rightarrow> 'n validator" where
  "edit_field i val shown chk v = set_elem i (\<lambda>e. e\<lparr>fe_val := val, fe_text := shown, fe_checked := chk\<rparr>) v"

fun page_step :: "'n::floor_ceiling settings \<Rightarrow> page_event \<Rightarrow> 'n validator \<Rightarrow> 'n validator" where
  "page_step cfg (Edit i val shown chk) v = edit_field i val shown chk v"
| "page_step cfg (Ui i ev) v = snd (delegate cfg i ev v)"
| "page_step cfg (ClickSubmit b) v = click_submit b v"
| "page_step cfg Submit v = submit_event cfg v"
| "page_step cfg (Answer x r) v = snd (answer cfg x r v)"
| "page_step cfg (Failure x) v = request_failed x v"
| "page_step cfg (CallValid els) v = snd (valid_plugin cfg els v)"
| "page_step cfg CallReset v = resetForm cfg v"
| "page_step cfg (Left t i) v = (if (t, i) \<in> set (v_blur v) then snd (valid_plugin cfg (Some [i]) v) else v)"

text \<open>The elements an event names are elements of the page; parents of options too.\<close>

fun event_ok :: "page_event \<Rightarrow> 'n validator \<Rightarrow> bool" where
  "event_ok (Ui i ev) v = (i < length (v_elems v) \<and> (case fe_parent (elem v i) of None \<Rightarrow> True | Some p \<Rightarrow> p < length (v_elems v)))"
| "event_ok (CallValid (Some is)) v = list_all (\<lambda>i. i < length (v_elems v)) is"
| "event_ok (Left t i) v = (i < length (v_elems v))"
| "event_ok _ v = True"

inductive page_reachable :: "'n::floor_ceiling settings \<Rightarrow> 'n validator \<Rightarrow> 'n validator \<Rightarrow> bool" for cfg v0 where
  page_start: "page_reachable cfg v0 v0"
| page_next: "page_reachable cfg v0 v \<Longrightarrow> event_ok ev v \<Longrightarrow> page_reachable cfg v0 (page_step cfg ev v)"

context sound_settings
begin

lemma run_element_ok:
  assumes "requests_ok v" "i < length (v_elems v)"
  shows "ok_step v (snd (run_element cfg i v))"
  using element_ok [OF assms] by (cases "element cfg i v"; cases "fst (element cfg i v)") (simp_all add: run_element_def)

lemma delegate_ok:
  assumes "requests_ok v" "event_ok (Ui i ev) v"
  shows "ok_step v (snd (delegate cfg i ev v))"
proof -
  have i: "i < length (v_elems v)" using assms(2) by simp
  have adopted: "adopt i v = v" using assms(1) adopt_named [OF requests_named i] by simp
  have run: "ok_step v (snd (run_element cfg i v))" by (rule run_element_ok [OF assms(1) i])
  have parent: "ok_step v (snd (run_element cfg p v))" if "fe_parent (elem v i) = Some p" for p
    using run_element_ok [OF assms(1)] assms(2) that by simp
  have focus: "ok_step v (onfocusin cfg i v)" by (rule ok_step_core) simp
  show ?thesis
    unfolding delegate_def Let_def adopted
    using run parent focus
    by (auto simp: onfocusout_def onkeyup_def onclick_def split: ui_event.split option.split)
qed

lemma valid_elements_ok:
  "requests_ok v \<Longrightarrow> list_all (\<lambda>i. i < length (v_elems v)) is \<Longrightarrow> ok_step v (snd (valid_elements cfg is b errs v))"
proof (induction "is" arbitrary: b errs v)
  case (Cons i "is")
  obtain r w where run: "element cfg i v = (r, w)" by fastforce
  have w: "ok_step v w" using element_ok [of v i] Cons.prems run by simp
  have wok: "requests_ok w" "length (v_elems w) = length (v_elems v)" using ok_stepD [OF w Cons.prems(1)] by auto
  have rest: "ok_step v (snd (valid_elements cfg is b' errs' w))" for b' errs'
    using ok_step_trans [OF w Cons.IH [OF wok(1)]] Cons.prems(2) wok(2) by simp
  show ?case using w rest by (cases r) (simp_all add: run)
qed (simp add: ok_step_core)

lemma resetElements_core: "core (resetElements cfg els v) = core v"
proof -
  have cls: "core (fold (\<lambda>j. set_elem j (\<lambda>e. e\<lparr>fe_classes := remove_class c (fe_classes e)\<rparr>)) xs w) = core w" for c xs and w :: "'n validator"
    by (rule core_fold_elem) simp
  have two: "core (fold (\<lambda>i. set_elem i (\<lambda>e. e\<lparr>fe_classes := remove_class c (remove_class d (fe_classes e))\<rparr>)) xs w) = core w"
    for c d xs and w :: "'n validator" by (rule core_fold_elem) simp
  have un: "core (fold (\<lambda>i v. fold (\<lambda>j. set_elem j (\<lambda>e. e\<lparr>fe_classes := remove_class c (fe_classes e)\<rparr>))
      (findByName v (name_of v i)) (f v i a b)) xs w) = core w" if "c_unhighlight cfg = Some f" for c f a b xs and w :: "'n validator"
    by (rule core_fold) (simp add: cls unhighlight_quiet [OF that])
  show ?thesis by (simp add: resetElements_def Let_def two un split: option.split)
qed

lemma resetForm_ok:
  assumes "requests_ok v"
  shows "ok_step v (resetForm cfg v)"
proof -
  let ?h = "hideErrors cfg (prepareForm cfg (v\<lparr>v_invalid := [], v_submitted := []\<rparr>))"
  have h: "core ?h = core v" by simp
  have hok: "requests_ok ?h" using requests_ok_core [OF h] assms by simp
  obtain els u where els: "elements cfg ?h = (els, u)" by fastforce
  have u: "core u = core v" using elements_ok(1) [OF requests_named [OF hok], of cfg] els h by simp
  have at: "core (fold (\<lambda>i. set_elem i (\<lambda>e. e\<lparr>fe_attr := (fe_attr e)(js ''aria-invalid'' := None)\<rparr>)) xs w) = core w"
    for xs and w :: "'n validator" by (rule core_fold_elem) (rule key_info_attr, simp)
  have "core (resetForm cfg v) = core v"
    unfolding resetForm_def Let_def els prod.case resetElements_core at core_updates using u by simp
  then show ?thesis by (rule ok_step_core)
qed

lemma page_step_ok:
  assumes "requests_ok v" "event_ok ev v"
  shows "ok_step v (page_step cfg ev v)"
proof (cases ev)
  case (Edit i val shown chk)
  have "core (edit_field i val shown chk v) = core v" unfolding edit_field_def by (rule core_set_elem) simp
  then show ?thesis using Edit by (simp add: ok_step_core)
next
  case (Ui i e)
  then show ?thesis using delegate_ok assms by simp
next
  case (ClickSubmit b)
  then show ?thesis by (simp add: click_submit_def Let_def ok_step_core)
next
  case (CallValid els)
  then show ?thesis using assms form_ok valid_elements_ok by (cases els) (simp_all add: valid_plugin_def)
next
  case (Left t i)
  then show ?thesis using assms valid_elements_ok [of v "[i]"] by (simp add: valid_plugin_def)
qed (use assms in \<open>simp_all add: submit_event_ok answer_ok request_failed_ok resetForm_ok\<close>)

lemma reachable_ok: "page_reachable cfg v0 v \<Longrightarrow> requests_ok v0 \<Longrightarrow> requests_ok v"
  by (induction rule: page_reachable.induct) (use page_step_ok in \<open>auto simp: ok_step_def\<close>)

end

section \<open>A new page\<close>

definition settled_page :: "'n felem list \<Rightarrow> bool" where
  "settled_page els = list_all (\<lambda>e. is_editable e \<longrightarrow> fe_name e \<noteq> [] \<and> fe_form e \<noteq> None) els"

lemma requests_ok_init: "settled_page els \<Longrightarrow> requests_ok (init els boxes lc gs ms)"
  by (auto simp: init_def requests_ok_def named_def keys_def settled_page_def key_info_def list_all_iff)

end
