(* ===== verification/Form_Errors.thy ===== *)
theory Form_Errors
  imports Form_Page
begin

text \<open>
  Only \<open>formatAndAdd\<close> adds to the error list and only a reset empties it: showing messages, requests
  and the standard methods leave it alone. So a form without errors had no rule broken.
\<close>

section \<open>What leaves the error list alone\<close>

lemma errs_fold:
  assumes "\<And>x v. v_errorList (f x v) = v_errorList v"
  shows "v_errorList (fold f xs v) = v_errorList v"
  using assms by (induction xs arbitrary: v) auto

lemma errs_emit [simp]: "v_errorList (emit e v) = v_errorList v"
  by (simp add: emit_def)

lemma errs_set_shown [simp]: "v_errorList (set_shown cfg b it v) = v_errorList v"
  by (simp add: set_shown_def split: item.split)

lemma errs_clear_text [simp]: "v_errorList (clear_text it v) = v_errorList v"
  by (simp add: clear_text_def split: item.split)

lemma errs_folds [simp]:
  "v_errorList (fold (set_shown cfg b) xs v) = v_errorList v"
  "v_errorList (fold clear_text xs v) = v_errorList v"
  "v_errorList (fold (\<lambda>j. set_elem j f) ys v) = v_errorList v"
  "v_errorList (fold (\<lambda>k. set_label k g) ys v) = v_errorList v"
  by (rule errs_fold, simp)+

lemma errs_hide [simp]: "v_errorList (hideThese cfg xs v) = v_errorList v" "v_errorList (hideErrors cfg v) = v_errorList v"
  by (simp_all add: hideThese_def hideErrors_def)

lemma errs_highlight [simp]: "v_errorList (highlight v i a b) = v_errorList v" "v_errorList (unhighlight v i a b) = v_errorList v"
  by (simp_all add: highlight_def unhighlight_def)

lemma errs_describe_group [simp]: "v_errorList (describe_group i d v) = v_errorList v"
proof -
  have "v_errorList (fold (\<lambda>(name, testgroup) v.
       if testgroup = grp then fold (\<lambda>j. set_elem j (set_described d)) (findByName v name) v else v) gs v) = v_errorList v"
    for grp :: jstring and gs
    by (rule errs_fold) (simp split: prod.split)
  then show ?thesis by (simp add: describe_group_def split: option.split)
qed

lemma errs_showLabel [simp]: "v_errorList (showLabel cfg i m v) = v_errorList v"
  by (simp add: showLabel_def Let_def)

section \<open>The default settings\<close>

locale plain_settings =
  fixes cfg :: "'n::floor_ceiling settings"
  assumes highlight_plain: "c_highlight cfg = Some highlight" and unhighlight_plain: "c_unhighlight cfg = Some unhighlight"
    and no_showErrors: "c_showErrors cfg = None" and no_submitHandler: "c_submitHandler cfg = None"
    and methods_plain: "(k, f) \<in> set (c_methods cfg) \<Longrightarrow> v_errorList (snd (f v val i p)) = v_errorList v"
begin

lemma errs_show_error [simp]: "v_errorList (show_error cfg e v) = v_errorList v"
  by (simp add: show_error_def Let_def highlight_plain)

lemma errs_showErrors [simp]: "v_errorList (showErrors cfg None v) = v_errorList v"
proof -
  have "v_errorList (fold (show_error cfg) xs v) = v_errorList v" "v_errorList (fold (\<lambda>i. showLabel cfg i m) is v) = v_errorList v"
    "v_errorList (fold (\<lambda>i v. unhighlight v i a b) is v) = v_errorList v" for xs m "is" a b and v :: "'n validator"
    by (rule errs_fold, simp)+
  then show ?thesis by (simp add: showErrors_def no_showErrors defaultShowErrors_def Let_def unhighlight_plain)
qed

lemma errs_drop_pending [simp]: "v_errorList (drop_pending cfg i v) = v_errorList v"
  by (simp add: drop_pending_def)

lemma errs_abortRequest [simp]: "v_errorList (abortRequest cfg i v) = v_errorList v"
  by (simp add: abortRequest_def ajaxAbort_def split: option.split)

text \<open>A rule that is broken stays in the list.\<close>

lemma check_rules_errs:
  "check_rules cfg i val n rules d v = (out, w) \<Longrightarrow>
     v_errorList w = v_errorList v \<and> out \<noteq> Inr CInvalid \<or> out = Inr CInvalid \<and> (\<exists>e. v_errorList w = v_errorList v @ [e])"
proof (induction rules arbitrary: d v)
  case (Cons r rules)
  obtain k p where r: "r = (k, p)" by (cases r)
  show ?case
  proof (cases "obj_get (c_methods cfg) k")
    case (Some f)
    obtain out' v' where f: "f v val i p = (out', v')" by fastforce
    have mem: "(k, f) \<in> set (c_methods cfg)" using Some by (auto simp: obj_get_def dest: map_of_SomeD)
    have v': "v_errorList v' = v_errorList v" using methods_plain [OF mem, of v val i p] f by simp
    show ?thesis
      using Cons.prems Cons.IH [of _ v'] v' f Some r
      by (cases out') (auto simp: formatAndAdd_def Let_def split: if_splits)
  qed (use Cons.prems r in auto)
qed auto

lemma check_errs:
  assumes "check cfg i v = (out, w)"
  shows "(v_errorList w = v_errorList v \<and> out \<noteq> Inr (Some False)) \<or> (out = Inr (Some False) \<and> (\<exists>e. v_errorList w = v_errorList v @ [e]))"
proof (cases "validationTargetFor v i")
  case (Some j)
  let ?u = "abortRequest cfg j (adopt j v)"
  have u: "v_errorList ?u = v_errorList v" by (simp add: adopt_def)
  obtain val rules n where run: "check_target cfg j v =
      (case check_rules cfg j val n rules False ?u of
         (Inl e, v) \<Rightarrow> (Inl e, v) | (Inr CPending, v) \<Rightarrow> (Inr None, v) | (Inr CInvalid, v) \<Rightarrow> (Inr (Some False), v)
       | (Inr (CDone dependencyMismatch), v) \<Rightarrow>
           if dependencyMismatch then (Inr None, v)
           else (Inr (Some True), if objectLength rules > 0 then v\<lparr>v_successList := v_successList v @ [j]\<rparr> else v))"
    unfolding check_target_def Let_def by (cases "normalizer_of cfg (element_rules cfg (adopt j v) j)") auto
  obtain o' x where rules: "check_rules cfg j val n rules False ?u = (o', x)" by fastforce
  show ?thesis
    using assms Some run check_rules_errs [OF rules] u rules
    by (auto simp: check_def split: sum.splits checked.splits if_splits)
qed (use assms in \<open>auto simp: check_def\<close>)

text \<open>Every check of the form came out without a broken rule, one after the other.\<close>

lemma check_all_grows: "check_all cfg is v = (out, w) \<Longrightarrow> length (v_errorList v) \<le> length (v_errorList w)"
proof (induction "is" arbitrary: v)
  case (Cons i "is")
  obtain r v' where c: "check cfg i v = (r, v')" by fastforce
  have "length (v_errorList v) \<le> length (v_errorList v')" using check_errs [OF c] by auto
  then show ?case using Cons c by (cases r) fastforce+
qed simp

end

fun all_pass :: "'n::floor_ceiling settings \<Rightarrow> nat list \<Rightarrow> 'n validator \<Rightarrow> bool" where
  "all_pass cfg [] v = True"
| "all_pass cfg (i # is) v =
     (case check cfg i v of (Inl e, v') \<Rightarrow> False | (Inr r, v') \<Rightarrow> r \<noteq> Some False \<and> all_pass cfg is v')"

text \<open>The elements a form check goes through, and the state it starts from.\<close>

definition form_elements :: "'n::floor_ceiling settings \<Rightarrow> 'n validator \<Rightarrow> nat list" where
  "form_elements cfg v = fst (elements cfg (prepareForm cfg v))"

definition form_state :: "'n::floor_ceiling settings \<Rightarrow> 'n validator \<Rightarrow> 'n validator" where
  "form_state cfg v = (snd (elements cfg (prepareForm cfg v)))\<lparr>v_currentElements := form_elements cfg v\<rparr>"

lemma checkForm_unfold:
  "checkForm cfg v =
     (case check_all cfg (form_elements cfg v) (form_state cfg v) of (Inl e, v) \<Rightarrow> (Inl e, v) | (Inr _, v) \<Rightarrow> (Inr (is_valid v), v))"
  by (simp add: checkForm_def form_elements_def form_state_def case_prod_beta)

context plain_settings
begin

lemma all_pass_iff:
  "check_all cfg is v = (Inr (), w) \<Longrightarrow> v_errorList v = [] \<Longrightarrow> v_errorList w = [] \<longleftrightarrow> all_pass cfg is v"
proof (induction "is" arbitrary: v)
  case (Cons i "is")
  obtain r v' where c: "check cfg i v = (r, v')" by fastforce
  then obtain b where b: "r = Inr b" and rest: "check_all cfg is v' = (Inr (), w)" using Cons.prems(1) by (cases r) auto
  show ?case
  proof (cases "b = Some False")
    case True
    then have "v_errorList v' \<noteq> []" using check_errs [OF c] b by auto
    then have "v_errorList w \<noteq> []" using check_all_grows [OF rest] by auto
    then show ?thesis using c b True by simp
  next
    case False
    then have "v_errorList v' = []" using check_errs [OF c] b Cons.prems(2) by auto
    then show ?thesis using Cons.IH [OF rest] c b False by simp
  qed
qed simp

lemma form_state_errs: "v_errorList (form_state cfg v) = []"
proof -
  have step: "v_errorList (snd (snd (element_step cfg i s))) = v_errorList (snd (snd s))" for i s
    by (cases s) (simp add: element_step_def Let_def)
  have "v_errorList (snd (snd (fold (element_step cfg) is s))) = v_errorList (snd (snd s))" for "is" s
    by (induction "is" arbitrary: s) (simp_all add: step)
  then show ?thesis
    by (simp add: form_state_def elements_def Let_def case_prod_beta prepareForm_def reset_def resetInternals_def)
qed

lemma form_true:
  assumes "form cfg v = (Inr b, w)"
  shows "b \<longleftrightarrow> all_pass cfg (form_elements cfg v) (form_state cfg v)"
proof -
  obtain r u where c: "check_all cfg (form_elements cfg v) (form_state cfg v) = (r, u)" by fastforce
  then have r: "r = Inr ()" using assms by (cases r) (auto simp: form_def checkForm_unfold)
  have "b = (v_errorList u = [])"
    using assms unfolding form_def checkForm_unfold c r Let_def
    by (simp add: is_valid_def size_errors_def emit_def split: if_splits)
  then show ?thesis using all_pass_iff [OF c [unfolded r] form_state_errs] by simp
qed

end

section \<open>The provider\<close>

lemma standard_methods_plain:
  assumes "(k, f) \<in> set (standard_methods d)"
  shows "v_errorList (snd (f cfg v val i p)) = v_errorList v"
proof -
  have eq: "v_errorList (snd (equalTo cfg v val i p)) = v_errorList v"
    by (simp add: equalTo_def Let_def watch_target_def split: option.split)
  have f: "f \<in> {equalTo, remote_rule} \<or> (\<exists>g. f = on_text g) \<or> (\<exists>g. f = pure_method g)"
    using assms(1) unfolding standard_methods_def by (auto simp del: js_simps)
  have plain: "v_errorList (snd (on_text g cfg v val i p)) = v_errorList v" "v_errorList (snd (pure_method h cfg v val i p)) = v_errorList v" for g h by (simp_all add: on_text_def pure_method_def)
  have prev: "v_errorList (snd (previousValue cfg i m v)) = v_errorList v" for m
    by (simp add: previousValue_def Let_def split: option.split)
  have msg: "v_errorList (set_message n m x w) = v_errorList w" for n m x and w :: "'a validator"
    by (simp add: set_message_def split: option.split field_messages.split)
  have heap: "v_errorList (set_previous n g w) = v_errorList w" for n g and w :: "'a validator" by (simp add: set_previous_def)
  have rem: "v_errorList (remember_message i m n w) = v_errorList w" for m n and w :: "'a validator"
    by (simp add: remember_message_def Let_def msg heap)
  have start: "v_errorList (startRequest cfg i w) = v_errorList w" for w :: "'a validator" by (simp add: startRequest_def)
  have ajax: "v_errorList (ajax_abort_mode port rq w) = v_errorList w" for port rq and w :: "'a validator"
    by (simp add: ajax_abort_mode_def ajaxAbort_def Let_def split: option.split)
  have "v_errorList (snd (remote cfg None v val i p)) = v_errorList v"
    unfolding remote_def Let_def case_prod_beta
    by (simp add: prev rem heap start ajax split: sum.split option.split bool.split)
  then show ?thesis unfolding remote_rule_def using f eq plain by (auto simp: remote_rule_def)
qed

interpretation default_plain: plain_settings
  "default_settings methods messages class_rules date_text rules num_of text_of selects target remote_data"
  for methods messages class_rules date_text and rules :: "'n::floor_ceiling rule_data obj" and num_of text_of selects target remote_data
  by unfold_locales (auto simp: default_settings_def base_settings_def Let_def intro: standard_methods_plain)

text \<open>
  A small page for the witnesses: a field \<open>user\<close> that the server checks and a required field \<open>code\<close>.
\<close>

definition sample_field :: "jstring \<Rightarrow> rat felem" where
  "sample_field name =
     \<lparr>fe_node = js ''INPUT'', fe_type = js ''text'', fe_name = name, fe_id = [], fe_title = [], fe_form = Some 0, fe_closest = 0,
       fe_attr = (\<lambda>k. if k = js ''type'' then Some (js ''text'') else None), fe_data = (\<lambda>_. VUndef), fe_msg = (\<lambda>_. None),
       fe_val = FStr [], fe_text = [], fe_checked = False, fe_badInput = None, fe_selected = 0, fe_parent = None,
       fe_ignored = False, fe_visible = True, fe_left_out = False, fe_validated = True, fe_classes = [], fe_labels = []\<rparr>"

abbreviation sample_settings :: "rat settings" where
  "sample_settings \<equiv> default_settings (\<lambda>m. m \<in> {js ''required'', js ''remote''}) [] [] (\<lambda>s. s)
     [(js ''user'', RuleObject [(js ''remote'', VStr (js ''/check''))]), (js ''code'', RuleNames (js ''required''))]
     (\<lambda>_. None) (\<lambda>_. []) (\<lambda>_. False) (\<lambda>_. None) (\<lambda>_. [])"

definition sample_page :: "rat validator" where
  "sample_page = init [sample_field (js ''user''), sample_field (js ''code'')] 0 False [] []"

end
