(* ===== verification/Form_Properties.thy ===== *)
theory Form_Properties
  imports Form_Errors
begin

text \<open>The properties of the form validator.\<close>

text \<open>
  C27. On a page with the default settings and the standard methods, after any events, the counter of
  pending requests is the number of fields that wait for the server, every request that can still be
  answered belongs to such a field, and no two open requests share a port.
\<close>

theorem pending_requests_are_counted:
  assumes "page_reachable (default_settings methods messages class_rules date_text rules num_of text_of selects target remote_data)
      (init els boxes lc gs ms) v"
    and "settled_page els"
  shows "v_pendingRequest v = length (v_pending v) \<and>
    list_all (\<lambda>(x, rq). is_pending v (name_of v (rq_element rq))) (v_open v) \<and>
    distinct (map (\<lambda>(x, rq). elementAjaxPort v (rq_element rq)) (v_open v))"
proof -
  have ok: "requests_ok v" by (rule default_form.reachable_ok [OF assms(1) requests_ok_init [OF assms(2)]])
  have "inj_on (\<lambda>(x, rq). elementAjaxPort v (rq_element rq)) (set (v_open v))"
  proof (rule inj_onI, clarify)
    fix x rq y q
    assume mem: "(x, rq) \<in> set (v_open v)" "(y, q) \<in> set (v_open v)"
      and same: "elementAjaxPort v (rq_element rq) = elementAjaxPort v (rq_element q)"
    have "open_ok v (x, rq)" "open_ok v (y, q)" using ok mem by (auto simp: requests_ok_def list_all_iff)
    then have "x = y" using same by (simp add: open_ok_def)
    then show "x = y \<and> rq = q" using ok mem by (auto simp: requests_ok_def dest: eq_key_imp_eq_value)
  qed
  moreover have "distinct (v_open v)" using ok by (auto simp: requests_ok_def distinct_map)
  ultimately show ?thesis using ok by (auto simp: requests_ok_def distinct_map list_all_iff open_ok_def)
qed

theorem pending_requests_are_counted_witness:
  "v_pendingRequest (page_step sample_settings (Failure 7) (page_step sample_settings (Edit 0 (FStr (js ''ann'')) [] False) sample_page)) = 0"
proof -
  let ?v = "page_step sample_settings (Failure 7) (page_step sample_settings (Edit 0 (FStr (js ''ann'')) [] False) sample_page)"
  have "page_reachable sample_settings (init [sample_field (js ''user''), sample_field (js ''code'')] 0 False [] []) ?v"
    unfolding sample_page_def by (intro page_reachable.intros) simp_all
  moreover have "settled_page [sample_field (js ''user''), sample_field (js ''code'')]"
    by (simp add: settled_page_def is_editable_def sample_field_def)
  ultimately have "v_pendingRequest ?v = length (v_pending ?v)"
    by (rule pending_requests_are_counted [THEN conjunct1])
  then show ?thesis by (simp add: request_failed_def edit_field_def sample_page_def init_def)
qed





text \<open>
  C31. The check of an element reports the first rule it breaks, with the message of that rule, and no later
  one, as long as the methods before it only look.
\<close>

theorem first_broken_rule_is_reported:
  assumes "list_all (\<lambda>(m, p). \<exists>f r. obj_get (c_methods cfg) m = Some f \<and> f v val i p = (Inr r, v) \<and> r \<noteq> RPending \<and> truthy r) before"
    and "obj_get (c_methods cfg) m = Some g" "g v val i p = (Inr r, v)" "\<not> truthy r"
  shows "check_rules cfg i val n (before @ (m, p) # after) d v = (Inr CInvalid, formatAndAdd cfg i m p v)"
  using assms
proof (induction before arbitrary: d)
  case Nil
  then show ?case by (cases r) auto
next
  case (Cons b before)
  obtain k q where b: "b = (k, q)" by (cases b)
  obtain f r' where f: "obj_get (c_methods cfg) k = Some f" "f v val i q = (Inr r', v)" "r' \<noteq> RPending" "truthy r'"
    using Cons.prems(1) by (auto simp: b)
  have "check_rules cfg i val n (before @ (m, p) # after) d' v = (Inr CInvalid, formatAndAdd cfg i m p v)" for d'
    by (rule Cons.IH [OF _ Cons.prems(2-4)]) (use Cons.prems(1) in simp)
  then show ?case using f by (simp add: b)
qed

definition two_rules :: "rat settings" where
  "two_rules = (base_settings [] [] [] (\<lambda>_. None) (\<lambda>_. []) (\<lambda>_. False) (\<lambda>_. None) (\<lambda>_. []))
     \<lparr>c_methods := [(js ''digits'', \<lambda>v val i p. (Inr (RBool True), v)), (js ''max'', \<lambda>v val i p. (Inr (RBool False), v))]\<rparr>"

theorem first_broken_rule_is_reported_witness:
  "fst (check_rules two_rules 0 (FStr (js ''12'')) 3
     ([(js ''digits'', VBool True)] @ (js ''max'', VNum (Some 9)) # [(js ''max'', VNum (Some 5))]) False sample_page) = Inr CInvalid"
  by (subst first_broken_rule_is_reported [where g = "\<lambda>v val i p. (Inr (RBool False), v)" and r = "RBool False"])
    (simp_all add: two_rules_def obj_get_def)

text \<open>
  C32. Names survive the way into a selector and back: the engine reads from the escaped name the name
  itself, whatever characters it has, so a search by name finds exactly the elements of that name; the
  general function of jQuery is undone likewise for texts without a null character.
\<close>

theorem escaped_names_are_read_back:
  assumes "0 \<notin> set sel"
  shows "runescape (escapeCssMeta (Some name)) = name \<and> runescape (escapeSelector sel) = sel \<and>
    (i \<in> set (findByName v name) \<longleftrightarrow> i < length (v_elems v) \<and> fe_name (elem v i) = name)"
  using runescape_meta [of name] runescape_escapeSelector [OF assms] findByName_iff [of i v name]
  by (simp add: escapeCssMeta_def)

theorem escaped_names_are_read_back_witness: "runescape (escapeSelector (js ''7-a.b[1]'')) = js ''7-a.b[1]''"
  by (rule escaped_names_are_read_back [THEN conjunct2, THEN conjunct1]) (simp add: unit_of_def)

end
