(* ===== verification/Site_Scripts.thy ===== *)
theory Site_Scripts
  imports Validate_Result
begin

text \<open>
  The scripts of \<open>site.js\<close> and \<open>confirmModal.js\<close>: phrases with placeholders, the color theme with its
  storage and toggles, and the confirmation dialog with its promise.
\<close>

section \<open>Phrases\<close>

text \<open>
  \<open>fmt\<close> replaces \<open>{n}\<close> by the value of that index; the text between the braces is the property name that
  is looked up, so \<open>{01}\<close> names no value.
\<close>

definition fmt_arg :: "jstring option list \<Rightarrow> jstring \<Rightarrow> jstring option" where
  "fmt_arg args index =
     (let n = nat (digits_value 0 index)
      in if decimal n = index \<and> n < length args then args ! n else None)"

function fmt :: "jstring \<Rightarrow> jstring option list \<Rightarrow> jstring" where
  "fmt [] args = []"
| "fmt (c # s) args =
     (let index = takeWhile is_digit s; rest = dropWhile is_digit s
      in if c = unit_of CHR ''{'' \<and> index \<noteq> [] \<and> charAt rest 0 = js ''}'' then
           (case fmt_arg args index of Some t \<Rightarrow> t | None \<Rightarrow> c # index @ js ''}'') @ fmt (tl rest) args
         else c # fmt s args)"
  by pat_completeness auto

lemma length_tl_dropWhile: "length (tl (dropWhile P s)) \<le> length s"
  using length_dropWhile_le [of P s] by simp

termination fmt
  using length_tl_dropWhile by (relation "measure (\<lambda>(s, _). length s)") (auto simp: less_Suc_eq_le)

section \<open>The color theme\<close>

text \<open>
  What the script uses of the page: the storage, which may be blocked, the browser's preference, the theme
  on the document element, the toggles, the icon, and the events it sends.
\<close>

record theme_toggle =
  tt_choice :: "jstring option"
  tt_active :: bool
  tt_pressed :: "jstring option"

record theme_page =
  tp_items :: "jstring obj"
  tp_readable :: bool
  tp_writable :: bool
  tp_prefers_dark :: bool
  tp_root :: "jstring option"
  tp_toggles :: "theme_toggle list"
  tp_icon :: "jstring option"
  tp_events :: "(jstring \<times> jstring) list"

definition themeStorageKey :: jstring where
  "themeStorageKey = js ''catmq-theme''"

definition getThemePreference :: "theme_page \<Rightarrow> jstring" where
  "getThemePreference p =
     (if tp_readable p then
        (case obj_get (tp_items p) themeStorageKey of
           Some stored \<Rightarrow> if stored = js ''light'' \<or> stored = js ''dark'' then stored else js ''auto''
         | None \<Rightarrow> js ''auto'')
      else js ''auto'')"

definition getEffectiveTheme :: "theme_page \<Rightarrow> jstring \<Rightarrow> jstring" where
  "getEffectiveTheme p preference =
     (if preference = js ''auto'' then if tp_prefers_dark p then js ''dark'' else js ''light'' else preference)"

definition set_toggle :: "jstring \<Rightarrow> theme_toggle \<Rightarrow> theme_toggle" where
  "set_toggle preference el =
     (let active = (tt_choice el = Some preference)
      in el\<lparr>tt_active := active, tt_pressed := Some (if active then js ''true'' else js ''false'')\<rparr>)"

definition icon_class :: "jstring \<Rightarrow> jstring \<Rightarrow> jstring" where
  "icon_class preference theme =
     js ''bi '' @ (if preference = js ''auto'' then js ''bi-circle-half''
       else if theme = js ''dark'' then js ''bi-moon-stars-fill'' else js ''bi-sun-fill'')"

text \<open>The toggles are the elements with the attribute \<open>data-theme-choice\<close>.\<close>

definition applyTheme :: "theme_page \<Rightarrow> theme_page" where
  "applyTheme p =
     (let preference = getThemePreference p; theme = getEffectiveTheme p preference
      in p\<lparr>tp_root := Some theme,
           tp_toggles := map (set_toggle preference) (tp_toggles p),
           tp_icon := map_option (\<lambda>_. icon_class preference theme) (tp_icon p),
           tp_events := tp_events p @ [(theme, preference)]\<rparr>)"

definition setThemePreference :: "jstring \<Rightarrow> theme_page \<Rightarrow> theme_page" where
  "setThemePreference preference p =
     applyTheme
       (if tp_writable p then
          p\<lparr>tp_items := (if preference = js ''auto'' then obj_delete themeStorageKey (tp_items p)
              else obj_set themeStorageKey preference (tp_items p))\<rparr>
        else p)"

text \<open>What the script does when it is loaded, and its listeners.\<close>

datatype theme_event = HeadLoaded | PrefersDark bool | StorageChanged jstring "jstring option" | ContentLoaded | Choose jstring

definition store_from_tab :: "jstring \<Rightarrow> jstring option \<Rightarrow> theme_page \<Rightarrow> theme_page" where
  "store_from_tab key val p =
     p\<lparr>tp_items := (case val of Some x \<Rightarrow> obj_set key x (tp_items p) | None \<Rightarrow> obj_delete key (tp_items p))\<rparr>"

fun theme_step :: "theme_event \<Rightarrow> theme_page \<Rightarrow> theme_page" where
  "theme_step HeadLoaded p = p\<lparr>tp_root := Some (getEffectiveTheme p (getThemePreference p))\<rparr>"
| "theme_step (PrefersDark b) p =
     (let p = p\<lparr>tp_prefers_dark := b\<rparr> in if getThemePreference p = js ''auto'' then applyTheme p else p)"
| "theme_step (StorageChanged key val) p =
     (let p = store_from_tab key val p in if key = themeStorageKey then applyTheme p else p)"
| "theme_step ContentLoaded p = applyTheme p"
| "theme_step (Choose preference) p = setThemePreference preference p"

section \<open>The confirmation dialog\<close>

text \<open>
  Every call of \<open>showConfirmModal\<close> is numbered; the two buttons hold the handler of a call, the dialog a
  list of listeners, and the promises their answers. Hiding is announced later, by the event
  \<open>hidden.bs.modal\<close>.
\<close>

record confirm_page =
  cp_message :: jstring
  cp_ok :: "nat option"
  cp_cancel :: "nat option"
  cp_listeners :: "nat list"
  cp_promises :: "bool option list"
  cp_shown :: bool

definition cleanup :: "nat \<Rightarrow> confirm_page \<Rightarrow> confirm_page" where
  "cleanup k p = p\<lparr>cp_ok := None, cp_cancel := None, cp_listeners := removeAll k (cp_listeners p)\<rparr>"

text \<open>A promise keeps its first answer.\<close>

definition resolve :: "nat \<Rightarrow> bool \<Rightarrow> confirm_page \<Rightarrow> confirm_page" where
  "resolve k b p = (if cp_promises p ! k = None then p\<lparr>cp_promises := (cp_promises p)[k := Some b]\<rparr> else p)"

definition showConfirmModal :: "jstring \<Rightarrow> confirm_page \<Rightarrow> confirm_page" where
  "showConfirmModal message p =
     (let k = length (cp_promises p)
      in p\<lparr>cp_message := message, cp_ok := Some k, cp_cancel := Some k, cp_listeners := cp_listeners p @ [k],
           cp_promises := cp_promises p @ [None], cp_shown := True\<rparr>)"

datatype confirm_event = Ask jstring | ClickOk | ClickCancel | Dismiss | Hidden

fun confirm_step :: "confirm_event \<Rightarrow> confirm_page \<Rightarrow> confirm_page" where
  "confirm_step (Ask message) p = showConfirmModal message p"
| "confirm_step ClickOk p =
     (case cp_ok p of Some k \<Rightarrow> resolve k True ((cleanup k p)\<lparr>cp_shown := False\<rparr>) | None \<Rightarrow> p)"
| "confirm_step ClickCancel p =
     (let p = p\<lparr>cp_shown := False\<rparr>
      in case cp_cancel p of Some k \<Rightarrow> resolve k False (cleanup k p) | None \<Rightarrow> p)"
| "confirm_step Dismiss p = p\<lparr>cp_shown := False\<rparr>"
| "confirm_step Hidden p = fold cleanup (cp_listeners p) p"

definition confirm_start :: confirm_page where
  "confirm_start = \<lparr>cp_message = [], cp_ok = None, cp_cancel = None, cp_listeners = [], cp_promises = [], cp_shown = False\<rparr>"

definition confirm_run :: "confirm_event list \<Rightarrow> confirm_page" where
  "confirm_run evs = fold confirm_step evs confirm_start"

text \<open>Both buttons always hold the handler of the same call, and only of one without an answer.\<close>

definition confirm_ok :: "confirm_page \<Rightarrow> bool" where
  "confirm_ok p \<longleftrightarrow>
     cp_ok p = cp_cancel p \<and>
     (case cp_ok p of None \<Rightarrow> True | Some k \<Rightarrow> Suc k = length (cp_promises p) \<and> cp_promises p ! k = None) \<and>
     list_all (\<lambda>k. k < length (cp_promises p)) (cp_listeners p)"

lemma cleanup_fields [simp]:
  "cp_ok (cleanup k p) = None" "cp_cancel (cleanup k p) = None" "cp_promises (cleanup k p) = cp_promises p"
  "cp_shown (cleanup k p) = cp_shown p" "cp_listeners (cleanup k p) = removeAll k (cp_listeners p)"
  by (simp_all add: cleanup_def)

lemma fold_cleanup: "ks \<noteq> [] \<Longrightarrow> cp_ok (fold cleanup ks p) = None \<and> cp_cancel (fold cleanup ks p) = None"
  by (induction ks arbitrary: p rule: rev_induct) auto

lemma fold_cleanup_promises: "cp_promises (fold cleanup ks p) = cp_promises p"
  by (induction ks arbitrary: p) auto

lemma fold_cleanup_listeners: "set (cp_listeners (fold cleanup ks p)) \<subseteq> set (cp_listeners p)"
  by (induction ks arbitrary: p) fastforce+

lemma confirm_hidden_ok: "confirm_ok p \<Longrightarrow> confirm_ok (fold cleanup (cp_listeners p) p)"
  using fold_cleanup [of "cp_listeners p" p] fold_cleanup_listeners [of "cp_listeners p" p]
  by (cases "cp_listeners p = []") (auto simp: confirm_ok_def fold_cleanup_promises list_all_iff)

lemma confirm_step_ok:
  assumes "confirm_ok p"
  shows "confirm_ok (confirm_step e p)"
proof (cases e)
  case (Ask m)
  then show ?thesis using assms by (auto simp: confirm_ok_def showConfirmModal_def Let_def list_all_iff)
next
  case ClickOk
  show ?thesis
  proof (cases "cp_ok p")
    case (Some k)
    have step: "confirm_step e p = resolve k True ((cleanup k p)\<lparr>cp_shown := False\<rparr>)" by (simp add: ClickOk Some)
    show ?thesis unfolding step using assms by (auto simp: confirm_ok_def resolve_def list_all_iff)
  qed (use assms ClickOk in simp)
next
  case ClickCancel
  show ?thesis
  proof (cases "cp_cancel p")
    case (Some k)
    have step: "confirm_step e p = resolve k False (cleanup k (p\<lparr>cp_shown := False\<rparr>))" by (simp add: ClickCancel Some)
    show ?thesis unfolding step using assms by (auto simp: confirm_ok_def resolve_def list_all_iff)
  qed (use assms ClickCancel in \<open>simp add: confirm_ok_def list_all_iff\<close>)
next
  case Dismiss
  then show ?thesis using assms by (auto simp: confirm_ok_def split: option.splits)
next
  case Hidden
  then show ?thesis using confirm_hidden_ok [OF assms] by simp
qed

lemma confirm_run_ok: "confirm_ok (confirm_run evs)"
proof (induction evs rule: rev_induct)
  case (snoc e evs)
  then show ?case using confirm_step_ok by (simp add: confirm_run_def)
qed (simp add: confirm_run_def confirm_start_def confirm_ok_def)

lemma confirm_run_snoc: "confirm_run (evs @ [e]) = confirm_step e (confirm_run evs)"
  by (simp add: confirm_run_def)

end
