(* ===== verification/Queue_Chart.thy ===== *)
theory Queue_Chart
  imports Validate_Result
begin

text \<open>
  The script \<open>queueChart.js\<close>: the chart on the start page, its refresh every five seconds, the theme and
  the visibility of the tab. A refresh has two parts, before and after it waits for the server. Values are
  of any type \<open>'a\<close>.
\<close>

section \<open>The chart\<close>

record chart_color =
  cc_border :: jstring
  cc_background :: jstring

definition chartColors :: "chart_color list" where
  "chartColors =
     [\<lparr>cc_border = js ''rgb(75, 192, 192)'', cc_background = js ''rgba(75, 192, 192, 0.2)''\<rparr>,
      \<lparr>cc_border = js ''rgb(255, 99, 132)'', cc_background = js ''rgba(255, 99, 132, 0.2)''\<rparr>,
      \<lparr>cc_border = js ''rgb(54, 162, 235)'', cc_background = js ''rgba(54, 162, 235, 0.2)''\<rparr>,
      \<lparr>cc_border = js ''rgb(255, 159, 64)'', cc_background = js ''rgba(255, 159, 64, 0.2)''\<rparr>,
      \<lparr>cc_border = js ''rgb(153, 102, 255)'', cc_background = js ''rgba(153, 102, 255, 0.2)''\<rparr>,
      \<lparr>cc_border = js ''rgb(201, 203, 207)'', cc_background = js ''rgba(201, 203, 207, 0.2)''\<rparr>]"

record 'a series =
  se_label :: jstring
  se_values :: "'a list"
  se_yAxisId :: "jstring option"

record 'a dataset =
  ds_label :: jstring
  ds_data :: "'a list"
  ds_yAxisID :: jstring
  ds_color :: chart_color
  ds_borderWidth :: nat
  ds_mode :: jstring
  ds_fill :: bool
  ds_pointRadius :: nat
  ds_pointHoverRadius :: nat
  ds_hitRadius :: nat

text \<open>\<open>s.yAxisId || "y"\<close>\<close>

definition axis_of :: "'a series \<Rightarrow> jstring" where
  "axis_of s = (case se_yAxisId s of Some a \<Rightarrow> if a = [] then js ''y'' else a | None \<Rightarrow> js ''y'')"

definition buildDataset :: "'a series \<Rightarrow> nat \<Rightarrow> 'a dataset" where
  "buildDataset s i =
     \<lparr>ds_label = se_label s, ds_data = se_values s, ds_yAxisID = axis_of s,
       ds_color = chartColors ! (i mod length chartColors), ds_borderWidth = 2, ds_mode = js ''monotone'', ds_fill = True,
       ds_pointRadius = 0, ds_pointHoverRadius = 0, ds_hitRadius = 6\<rparr>"

record 'a chart =
  ch_labels :: "jstring list"
  ch_datasets :: "'a dataset list"
  ch_theme :: "jstring \<times> jstring" \<comment> \<open>the default colors when it was built\<close>

text \<open>
  What a request for the data gives: no connection, a status that is not ok, a body that is no JSON, or
  data, where missing lists count as empty and null as nothing.
\<close>

datatype 'a fetched =
    Unreachable
  | NotOk nat
  | BadJson
  | NoData
  | ChartData "jstring list option" "'a series list option"

datatype chart_log = LoadFailed nat | UpdateError | NoCanvas

record 'a chart_page =
  qc_chart :: "'a chart option"
  qc_refreshInFlight :: bool
  qc_requests :: nat \<comment> \<open>refreshes that wait for the server\<close>
  qc_hidden :: bool
  qc_canvas :: bool
  qc_style :: "jstring \<times> jstring" \<comment> \<open>the properties of the theme, possibly empty\<close>
  qc_ready :: bool \<comment> \<open>the listeners and the timer are installed\<close>
  qc_log :: "chart_log list"

section \<open>Refreshing\<close>

text \<open>\<open>applyChartTheme\<close>: the default colors, with a fallback for a property that is not set.\<close>

definition trim_space :: "jstring \<Rightarrow> jstring" where
  "trim_space s = rev (dropWhile is_space (rev (dropWhile is_space s)))"

definition applyChartTheme :: "jstring \<times> jstring \<Rightarrow> jstring \<times> jstring" where
  "applyChartTheme style =
     (if trim_space (fst style) = [] then js ''#666'' else trim_space (fst style),
      if trim_space (snd style) = [] then js ''rgba(0, 0, 0, 0.1)'' else trim_space (snd style))"

definition built_chart :: "jstring \<times> jstring \<Rightarrow> jstring list \<Rightarrow> 'a series list \<Rightarrow> 'a chart" where
  "built_chart style labels ss =
     \<lparr>ch_labels = labels, ch_datasets = map2 buildDataset ss [0..<length ss], ch_theme = applyChartTheme style\<rparr>"

definition update_dataset :: "'a series \<Rightarrow> 'a dataset \<Rightarrow> 'a dataset" where
  "update_dataset s ds = ds\<lparr>ds_label := se_label s, ds_data := se_values s, ds_yAxisID := axis_of s\<rparr>"

definition update_chart :: "jstring list \<Rightarrow> 'a series list \<Rightarrow> 'a chart \<Rightarrow> 'a chart" where
  "update_chart labels ss c = c\<lparr>ch_labels := labels, ch_datasets := map2 update_dataset ss (ch_datasets c)\<rparr>"

text \<open>\<open>buildOrUpdateChart\<close> up to the request, and after the answer, \<open>finally\<close> included.\<close>

definition start_refresh :: "'a chart_page \<Rightarrow> 'a chart_page" where
  "start_refresh p =
     (if qc_refreshInFlight p \<or> qc_hidden p then p
      else p\<lparr>qc_refreshInFlight := True, qc_requests := qc_requests p + 1\<rparr>)"

definition show_data :: "jstring list \<Rightarrow> 'a series list \<Rightarrow> 'a chart_page \<Rightarrow> 'a chart_page" where
  "show_data labels ss p =
     (if \<not> qc_canvas p then p\<lparr>qc_log := qc_log p @ [NoCanvas]\<rparr>
      else p\<lparr>qc_chart := Some
        (case qc_chart p of
           Some c \<Rightarrow> if length (ch_datasets c) \<noteq> length ss then built_chart (qc_style p) labels ss else update_chart labels ss c
         | None \<Rightarrow> built_chart (qc_style p) labels ss)\<rparr>)"

definition or_empty :: "'b list option \<Rightarrow> 'b list" where
  "or_empty x = (case x of Some xs \<Rightarrow> xs | None \<Rightarrow> [])"

definition finish_refresh :: "'a fetched \<Rightarrow> 'a chart_page \<Rightarrow> 'a chart_page" where
  "finish_refresh r p =
     (if qc_requests p = 0 then p
      else (case r of
          Unreachable \<Rightarrow> p\<lparr>qc_log := qc_log p @ [UpdateError]\<rparr>
        | NotOk status \<Rightarrow> p\<lparr>qc_log := qc_log p @ [LoadFailed status]\<rparr>
        | BadJson \<Rightarrow> p\<lparr>qc_log := qc_log p @ [UpdateError]\<rparr>
        | NoData \<Rightarrow> p
        | ChartData labels ss \<Rightarrow> show_data (or_empty labels) (or_empty ss) p)
        \<lparr>qc_refreshInFlight := False, qc_requests := qc_requests p - 1, qc_ready := True\<rparr>)"

text \<open>
  The events: the document is loaded, the timer ticks, an answer arrives, the theme changes its
  properties and announces it, the tab is hidden or shown. Before the first refresh has returned there
  are no listeners and no timer.
\<close>

datatype 'a chart_event =
    Loaded
  | Tick
  | Arrived "'a fetched"
  | ThemeChange "jstring \<times> jstring"
  | Visibility bool

definition chart_start :: "bool \<Rightarrow> bool \<Rightarrow> jstring \<times> jstring \<Rightarrow> 'a chart_page" where
  "chart_start hidden canvas style =
     \<lparr>qc_chart = None, qc_refreshInFlight = False, qc_requests = 0, qc_hidden = hidden, qc_canvas = canvas,
       qc_style = style, qc_ready = False, qc_log = []\<rparr>"

fun chart_step :: "'a chart_event \<Rightarrow> 'a chart_page \<Rightarrow> 'a chart_page" where
  "chart_step Loaded p = (let q = start_refresh p in q\<lparr>qc_ready := (qc_requests q = 0)\<rparr>)"
| "chart_step Tick p = (if qc_ready p then start_refresh p else p)"
| "chart_step (Arrived r) p = finish_refresh r p"
| "chart_step (ThemeChange style) p =
     (let p = p\<lparr>qc_style := style\<rparr> in if qc_ready p then start_refresh (p\<lparr>qc_chart := None\<rparr>) else p)"
| "chart_step (Visibility hidden) p =
     (let p = p\<lparr>qc_hidden := hidden\<rparr> in if qc_ready p \<and> \<not> hidden then start_refresh p else p)"

definition chart_run :: "'a chart_page \<Rightarrow> 'a chart_event list \<Rightarrow> 'a chart_page" where
  "chart_run p evs = fold chart_step evs p"

section \<open>The invariant\<close>

text \<open>
  One refresh at a time, marked by the flag; the chart's datasets are as built, apart from their data; and
  the chart has the colors of the current theme.
\<close>

definition datasets_ok :: "'a chart \<Rightarrow> bool" where
  "datasets_ok c \<longleftrightarrow> (\<exists>ss. ch_datasets c = map2 buildDataset ss [0..<length ss])"

definition chart_ok :: "'a chart_page \<Rightarrow> bool" where
  "chart_ok p \<longleftrightarrow>
     qc_requests p = (if qc_refreshInFlight p then 1 else 0) \<and>
     (case qc_chart p of
        None \<Rightarrow> True
      | Some c \<Rightarrow> qc_ready p \<and> datasets_ok c \<and> ch_theme c = applyChartTheme (qc_style p))"

lemma update_dataset_build: "update_dataset s (buildDataset t i) = buildDataset s i"
  by (simp add: update_dataset_def buildDataset_def)

lemma update_datasets:
  assumes "length ss = length ts"
  shows "map2 update_dataset ss (map2 buildDataset ts [0..<length ts]) = map2 buildDataset ss [0..<length ss]"
  using assms by (intro nth_equalityI) (simp_all add: update_dataset_build)

text \<open>Updating in place gives what building anew gives.\<close>

lemma update_is_build:
  assumes "datasets_ok c" "ch_theme c = applyChartTheme style" "length (ch_datasets c) = length ss"
  shows "update_chart labels ss c = built_chart style labels ss"
proof -
  obtain ts where ts: "ch_datasets c = map2 buildDataset ts [0..<length ts]" using assms(1) by (auto simp: datasets_ok_def)
  then have "length ss = length ts" using assms(3) by simp
  from update_datasets [OF this] show ?thesis
    using assms(2) by (simp add: update_chart_def built_chart_def ts)
qed

lemma show_data_chart:
  assumes "chart_ok p" "qc_canvas p"
  shows "qc_chart (show_data labels ss p) = Some (built_chart (qc_style p) labels ss)"
proof (cases "qc_chart p")
  case (Some c)
  then have "datasets_ok c" "ch_theme c = applyChartTheme (qc_style p)" using assms(1) by (auto simp: chart_ok_def)
  then show ?thesis using update_is_build [of c "qc_style p" ss labels] Some assms(2) by (simp add: show_data_def)
qed (use assms(2) in \<open>simp add: show_data_def\<close>)

lemma built_chart_ok: "datasets_ok (built_chart style labels ss) \<and> ch_theme (built_chart style labels ss) = applyChartTheme style"
  by (auto simp: datasets_ok_def built_chart_def)

lemma show_data_fields [simp]:
  "qc_requests (show_data l s p) = qc_requests p" "qc_style (show_data l s p) = qc_style p" "qc_canvas (show_data l s p) = qc_canvas p"
  by (simp_all add: show_data_def)

lemma start_refresh_ok: "chart_ok p \<Longrightarrow> chart_ok (start_refresh p)"
  by (auto simp: chart_ok_def start_refresh_def split: option.splits if_splits)

lemma finish_refresh_ok:
  assumes "chart_ok p"
  shows "chart_ok (finish_refresh r p)"
proof (cases "qc_requests p = 0")
  case False
  then have one: "qc_requests p = 1" using assms by (auto simp: chart_ok_def split: if_splits)
  show ?thesis
  proof (cases r)
    case (ChartData labels ss)
    show ?thesis
    proof (cases "qc_canvas p")
      case True
      show ?thesis
        using show_data_chart [OF assms True] built_chart_ok False one ChartData
        by (simp add: finish_refresh_def chart_ok_def)
    next
      case no_canvas: False
      then show ?thesis
        using assms one ChartData by (auto simp: finish_refresh_def chart_ok_def show_data_def split: option.splits)
    qed
  qed (use assms one in \<open>auto simp: finish_refresh_def chart_ok_def split: option.splits\<close>)
qed (simp add: finish_refresh_def assms)

lemma chart_step_ok:
  assumes "chart_ok p" "e = Loaded \<Longrightarrow> qc_chart p = None"
  shows "chart_ok (chart_step e p)"
proof (cases e)
  case Loaded
  then show ?thesis
    using assms start_refresh_ok [OF assms(1)] by (auto simp: chart_ok_def Let_def start_refresh_def split: if_splits)
next
  case (ThemeChange style)
  have "chart_ok (p\<lparr>qc_style := style, qc_chart := None\<rparr>)" using assms(1) by (simp add: chart_ok_def split: if_splits)
  from start_refresh_ok [OF this] show ?thesis
    using assms(1) ThemeChange by (auto simp: Let_def chart_ok_def split: option.splits)
next
  case (Visibility hidden)
  have "chart_ok (p\<lparr>qc_hidden := hidden\<rparr>)" using assms(1) by (auto simp: chart_ok_def split: option.splits)
  from start_refresh_ok [OF this] this show ?thesis using Visibility by (auto simp: Let_def)
qed (use assms in \<open>auto simp: start_refresh_ok finish_refresh_ok\<close>)

text \<open>The document is loaded once, before anything else.\<close>

lemma chart_run_ok:
  assumes "Loaded \<notin> set evs"
  shows "chart_ok (chart_run (chart_start hidden canvas style) (Loaded # evs))"
  using assms
proof (induction evs rule: rev_induct)
  case (snoc e evs)
  then have "chart_ok (chart_run (chart_start hidden canvas style) (Loaded # evs))" "e \<noteq> Loaded" by auto
  from chart_step_ok [OF this(1), of e] this(2) show ?case by (simp add: chart_run_def)
qed (auto simp: chart_run_def chart_start_def chart_ok_def start_refresh_def Let_def)

end
