(* ===== verification/Page_Properties.thy ===== *)
theory Page_Properties
  imports Site_Scripts Queue_Chart
begin

text \<open>The properties of the scripts of the pages: theme, confirmation dialog, chart.\<close>

text \<open>
  Where the storage works, a theme that is chosen is the preference from then on, the document shows it
  (or what the browser prefers, for auto), and exactly its toggle is active.
\<close>

theorem chosen_theme_is_applied:
  assumes "tp_readable p" "tp_writable p" "preference \<in> {js ''auto'', js ''light'', js ''dark''}"
  shows "getThemePreference (setThemePreference preference p) = preference \<and>
    tp_root (setThemePreference preference p) = Some (getEffectiveTheme p preference) \<and>
    list_all (\<lambda>t. tt_active t = (tt_choice t = Some preference)) (tp_toggles (setThemePreference preference p))"
proof -
  define q where "q = p\<lparr>tp_items := (if preference = js ''auto'' then obj_delete themeStorageKey (tp_items p)
      else obj_set themeStorageKey preference (tp_items p))\<rparr>"
  have pref: "getThemePreference q = preference"
    using assms by (auto simp: q_def getThemePreference_def simp del: js_simps)
  have set: "setThemePreference preference p = applyTheme q" using assms(2) by (simp add: setThemePreference_def q_def)
  have "getThemePreference (applyTheme q) = getThemePreference q" by (simp add: applyTheme_def getThemePreference_def Let_def)
  moreover have "getEffectiveTheme q preference = getEffectiveTheme p preference" by (simp add: getEffectiveTheme_def q_def)
  ultimately show ?thesis
    using pref unfolding set by (simp add: applyTheme_def Let_def list_all_iff set_toggle_def)
qed

definition sample_theme :: theme_page where
  "sample_theme = \<lparr>tp_items = [], tp_readable = True, tp_writable = True, tp_prefers_dark = True, tp_root = None,
     tp_toggles = [\<lparr>tt_choice = Some (js ''light''), tt_active = False, tt_pressed = None\<rparr>], tp_icon = None, tp_events = []\<rparr>"

theorem chosen_theme_is_applied_witness:
  "tp_root (setThemePreference (js ''light'') sample_theme) = Some (js ''light'')"
  using chosen_theme_is_applied [of sample_theme "js ''light''"]
  by (simp add: sample_theme_def getEffectiveTheme_def del: js_simps)

text \<open>
  Where the storage is blocked, a chosen theme is not applied to the page either: the document keeps
  following the browser, and the toggle of auto is the active one.
\<close>

lemma blocked_storage_ignores_the_choice:
  assumes "\<not> tp_readable p"
  shows "tp_root (setThemePreference preference p) = Some (getEffectiveTheme p (js ''auto'')) \<and>
    list_all (\<lambda>t. tt_active t = (tt_choice t = Some (js ''auto''))) (tp_toggles (setThemePreference preference p))"
  using assms
  by (simp add: setThemePreference_def applyTheme_def getThemePreference_def getEffectiveTheme_def Let_def list_all_iff set_toggle_def
      del: js_simps)

lemma blocked_storage_example:
  "tp_root (setThemePreference (js ''light'') (sample_theme\<lparr>tp_readable := False, tp_writable := False\<rparr>)) = Some (js ''dark'')"
  using blocked_storage_ignores_the_choice [of "sample_theme\<lparr>tp_readable := False, tp_writable := False\<rparr>" "js ''light''"]
  by (simp add: sample_theme_def getEffectiveTheme_def del: js_simps)

lemma orphan_step:
  assumes "k < length (cp_promises p)" "cp_promises p ! k = None" "cp_ok p \<noteq> Some k" "cp_cancel p \<noteq> Some k"
  shows "k < length (cp_promises (confirm_step e p)) \<and> cp_promises (confirm_step e p) ! k = None \<and>
    cp_ok (confirm_step e p) \<noteq> Some k \<and> cp_cancel (confirm_step e p) \<noteq> Some k"
proof (cases e)
  case ClickOk
  then show ?thesis using assms by (cases "cp_ok p") (auto simp: resolve_def nth_list_update)
next
  case ClickCancel
  then show ?thesis using assms by (cases "cp_cancel p") (auto simp: resolve_def nth_list_update Let_def)
next
  case Hidden
  then show ?thesis
    using assms fold_cleanup [of "cp_listeners p" p] by (cases "cp_listeners p = []") (auto simp: fold_cleanup_promises)
qed (use assms in \<open>auto simp: showConfirmModal_def Let_def nth_append\<close>)

lemma orphan_run:
  assumes "k < length (cp_promises p)" "cp_promises p ! k = None" "cp_ok p \<noteq> Some k" "cp_cancel p \<noteq> Some k"
  shows "cp_promises (fold confirm_step evs p) ! k = None"
  using assms
proof (induction evs arbitrary: p)
  case (Cons e evs)
  then show ?case using orphan_step [OF Cons.prems, of e] by simp
qed simp

lemma asked_run:
  assumes "list_all (\<lambda>e. e = Dismiss) evs"
  shows "cp_listeners (fold confirm_step evs p) = cp_listeners p \<and> cp_promises (fold confirm_step evs p) = cp_promises p"
  using assms by (induction evs arbitrary: p) auto

text \<open>
  C37. Once the dialog has been announced as hidden before a button was pressed, because it was dismissed or
  because the announcement of an earlier dialog came late, the promise of the call is never answered,
  whatever is clicked or asked afterwards.
\<close>

theorem hidden_dialogs_never_answer:
  assumes "list_all (\<lambda>e. e = Dismiss) dismissals"
  shows "cp_promises (confirm_run (before @ [Ask m] @ dismissals @ [Hidden] @ later)) ! length (cp_promises (confirm_run before)) = None"
proof -
  let ?p = "confirm_run before"
  let ?k = "length (cp_promises ?p)"
  let ?q = "fold confirm_step dismissals (showConfirmModal m ?p)"
  have q: "?k \<in> set (cp_listeners ?q)" "cp_promises ?q = cp_promises ?p @ [None]"
    using asked_run [OF assms] by (simp_all add: showConfirmModal_def Let_def)
  then have "cp_listeners ?q \<noteq> []" by auto
  note hidden = fold_cleanup [OF this, of ?q]
  have "cp_promises (fold confirm_step later (fold cleanup (cp_listeners ?q) ?q)) ! ?k = None"
    using hidden q(2) by (intro orphan_run) (simp_all add: fold_cleanup_promises)
  then show ?thesis by (simp add: confirm_run_def)
qed

theorem hidden_dialogs_never_answer_witness:
  "cp_promises (confirm_run [Ask (js ''Delete?''), ClickOk, Ask (js ''Really?''), Hidden, ClickOk]) ! 1 = None"
proof -
  have one: "length (cp_promises (confirm_run [Ask (js ''Delete?''), ClickOk])) = 1"
    by (simp add: confirm_run_def confirm_start_def showConfirmModal_def resolve_def del: js_simps)
  show ?thesis
    using hidden_dialogs_never_answer [of "[]" "[Ask (js ''Delete?''), ClickOk]" "js ''Really?''" "[ClickOk]"] one by simp
qed

text \<open>
  C36. The chart shows the data of the last answer: whether it is updated in place or built anew, it comes out
  as a new chart of that data in the colors of the current theme, and only one refresh is under way at a
  time.
\<close>

theorem chart_shows_the_answer:
  assumes "Loaded \<notin> set evs" "p = chart_run (chart_start hidden canvas style) (Loaded # evs)"
    and "0 < qc_requests p" "qc_canvas p"
  shows "qc_requests p = 1 \<and>
    qc_chart (chart_step (Arrived (ChartData (Some labels) (Some ss))) p) = Some (built_chart (qc_style p) labels ss)"
proof -
  have ok: "chart_ok p" unfolding assms(2) by (rule chart_run_ok [OF assms(1)])
  then have "qc_requests p = 1" using assms(3) by (auto simp: chart_ok_def split: if_splits)
  moreover have "qc_chart (show_data labels ss p) = Some (built_chart (qc_style p) labels ss)"
    by (rule show_data_chart [OF ok assms(4)])
  ultimately show ?thesis by (simp add: finish_refresh_def or_empty_def)
qed

definition sample_series :: "nat \<Rightarrow> nat series" where
  "sample_series n = \<lparr>se_label = js ''Depth'', se_values = [n], se_yAxisId = None\<rparr>"

definition sample_chart_events :: "nat chart_event list" where
  "sample_chart_events = [Arrived (ChartData (Some [js ''1'']) (Some [sample_series 3])), Tick]"

theorem chart_shows_the_answer_witness:
  "qc_chart (chart_step (Arrived (ChartData (Some [js ''2'']) (Some [sample_series 5])))
     (chart_run (chart_start False True ([], [])) (Loaded # sample_chart_events)))
   = Some (built_chart ([], []) [js ''2''] [sample_series 5])"
proof -
  let ?p = "chart_run (chart_start False True ([], [])) (Loaded # sample_chart_events) :: nat chart_page"
  have p: "qc_requests ?p = 1" "qc_canvas ?p" "qc_style ?p = ([], [])"
    by (simp_all add: chart_run_def sample_chart_events_def chart_start_def start_refresh_def finish_refresh_def show_data_def or_empty_def
        Let_def del: js_simps)
  show ?thesis
    using chart_shows_the_answer [of sample_chart_events ?p False True "([], [])" "[js ''2'']" "[sample_series 5]"] p
    by (simp add: sample_chart_events_def del: js_simps chart_step.simps)
qed

end
