(* ===== verification/Callbacks_Facts.thy ===== *)
theory Callbacks_Facts
  imports JQuery_Callbacks
begin

text \<open>
  Facts on the callback lists of \<open>jquery.js\<close>: running a machine, a list that fires once and remembers,
  and what a callback that raises an error leaves.
\<close>

section \<open>Running\<close>

lemma cb_run_done [simp]: "mc_stack m = [] \<Longrightarrow> cb_run beh m = Some m"
  by (simp add: cb_run_def while_option_unfold)

lemma cb_run_step: "mc_stack m \<noteq> [] \<Longrightarrow> cb_run beh m = cb_run beh (cb_step beh m)"
  unfolding cb_run_def by (subst while_option_unfold) simp

lemma set_list_simps [simp]:
  "mc_stack (set_list k g m) = mc_stack m" "mc_calls (set_list k g m) = mc_calls m" "mc_threw (set_list k g m) = mc_threw m"
  "mc_heap (set_list k g m) = (mc_heap m)[k := g (mc_heap m ! k)]"
  by (simp_all add: set_list_def)

text \<open>What every step of a machine keeps holds in all it reaches.\<close>

locale machine_invariant =
  fixes beh :: "('f, 'a) behaviour" and P :: "('f, 'a) machine \<Rightarrow> bool"
  assumes kept: "P m \<Longrightarrow> P (cb_step beh m)"
begin

lemma reachable: "cb_reachable beh m m' \<Longrightarrow> P m \<Longrightarrow> P m'"
  by (induction rule: cb_reachable.induct) (auto intro: kept)

end

lemma once_memory_flags:
  "flag (js ''once'') (createOptions (js ''once memory''))" "flag (js ''memory'') (createOptions (js ''once memory''))"
  "\<not> flag (js ''unique'') (createOptions (js ''once memory''))" "\<not> flag (js ''stopOnFalse'') (createOptions (js ''once memory''))"
  by code_simp+

section \<open>A list that fires once and remembers\<close>

text \<open>Callbacks that leave the lists alone; what they give does not matter without \<open>stopOnFalse\<close>.\<close>

definition quiet :: "('f, 'a) behaviour \<Rightarrow> bool" where
  "quiet beh \<longleftrightarrow> (\<forall>calls. \<exists>b. beh calls = ([], Returns b))"

definition once_memory :: "('f, 'a) callbacks \<Rightarrow> bool" where
  "once_memory cb \<longleftrightarrow> cb_options cb = createOptions (js ''once memory'')"

lemma after_call_once_memory: "once_memory cb \<Longrightarrow> after_call b cb = cb"
  by (simp add: after_call_def once_memory_def once_memory_flags del: js_simps)

lemma set_list_same: "g (mc_heap m ! k) = mc_heap m ! k \<Longrightarrow> set_list k g m = m"
  by (simp add: set_list_def)

text \<open>From the head of the loop over the list, what is left of it is called in order.\<close>

lemma run_calls:
  assumes "quiet beh" "mc_stack m = NextCall k # rest" "k < length (mc_heap m)" "once_memory (mc_heap m ! k)"
    and "- 1 \<le> cb_firingIndex (mc_heap m ! k)"
  shows "cb_run beh m = cb_run beh ((set_list k (\<lambda>cb. cb\<lparr>cb_firingIndex := - 1\<rparr>) m)
     \<lparr>mc_stack := NextFire k # rest,
      mc_calls := mc_calls m @ map (\<lambda>f. \<lparr>call_list = k, call_fun = f, call_args = cb_memory (mc_heap m ! k)\<rparr>)
        (drop (nat (cb_firingIndex (mc_heap m ! k) + 1)) (items (mc_heap m ! k)))\<rparr>)"
  using assms(2-)
proof (induction "length (items (mc_heap m ! k)) - nat (cb_firingIndex (mc_heap m ! k) + 1)" arbitrary: m)
  case 0
  then have "length (items (mc_heap m ! k)) \<le> nat (cb_firingIndex (mc_heap m ! k) + 1)" by simp
  then have "cb_step beh m = (set_list k (\<lambda>cb. cb\<lparr>cb_firingIndex := - 1\<rparr>) m)\<lparr>mc_stack := NextFire k # rest\<rparr>"
    "drop (nat (cb_firingIndex (mc_heap m ! k) + 1)) (items (mc_heap m ! k)) = []"
    using 0 by (simp_all add: cb_step_def next_call_def Let_def)
  then show ?case using 0 by (subst cb_run_step) (simp, rule arg_cong [where f = "cb_run beh"], rule machine.equality, simp_all)
next
  case (Suc n)
  define cb where "cb = mc_heap m ! k"
  define i where "i = nat (cb_firingIndex cb + 1)"
  define call where "call = \<lparr>call_list = k, call_fun = items cb ! i, call_args = cb_memory cb\<rparr>"
  from Suc.hyps(2) have i: "i < length (items cb)" by (simp add: cb_def i_def)
  have int_i: "int i = cb_firingIndex cb + 1" using Suc.prems(4) by (simp add: i_def cb_def)
  obtain b where b: "beh (mc_calls m @ [call]) = ([], Returns b)" using assms(1) by (auto simp: quiet_def)
  define m1 where "m1 = (set_list k (\<lambda>cb. cb\<lparr>cb_firingIndex := int i\<rparr>) m)
    \<lparr>mc_calls := mc_calls m @ [call], mc_stack := NextCall k # rest\<rparr>"
  have heap1: "mc_heap m1 ! k = cb\<lparr>cb_firingIndex := int i\<rparr>" using Suc.prems(2) by (simp add: m1_def cb_def)
  have one: "cb_step beh m = m1\<lparr>mc_stack := Body k [] (Returns b) # rest\<rparr>"
    using i b Suc.prems(1) by (simp add: cb_step_def next_call_def Let_def cb_def [symmetric] i_def [symmetric] int_i [symmetric] call_def m1_def set_list_def)
  have two: "cb_step beh (m1\<lparr>mc_stack := Body k [] (Returns b) # rest\<rparr>) = m1"
  proof -
    have "set_list k (after_call b) (m1\<lparr>mc_stack := Body k [] (Returns b) # rest\<rparr>) = m1\<lparr>mc_stack := Body k [] (Returns b) # rest\<rparr>"
      by (rule set_list_same) (use heap1 Suc.prems(3) in \<open>simp add: after_call_once_memory once_memory_def cb_def\<close>)
    then show ?thesis by (simp add: cb_step_def) (simp add: m1_def)
  qed
  have "cb_run beh m = cb_run beh m1"
    using Suc.prems(1) by (subst cb_run_step) (simp, subst one, subst cb_run_step, simp_all add: two)
  also have "\<dots> = cb_run beh ((set_list k (\<lambda>cb. cb\<lparr>cb_firingIndex := - 1\<rparr>) m1)
     \<lparr>mc_stack := NextFire k # rest,
      mc_calls := mc_calls m1 @ map (\<lambda>f. \<lparr>call_list = k, call_fun = f, call_args = cb_memory (mc_heap m1 ! k)\<rparr>)
        (drop (nat (cb_firingIndex (mc_heap m1 ! k) + 1)) (items (mc_heap m1 ! k)))\<rparr>)"
  proof (rule Suc.hyps(1))
    show "n = length (items (mc_heap m1 ! k)) - nat (cb_firingIndex (mc_heap m1 ! k) + 1)"
      using Suc.hyps(2) by (simp add: heap1 items_def cb_def [symmetric] i_def [symmetric] nat_add_distrib)
    show "mc_stack m1 = NextCall k # rest" by (simp add: m1_def)
    show "k < length (mc_heap m1)" using Suc.prems(2) by (simp add: m1_def)
    show "once_memory (mc_heap m1 ! k)" using Suc.prems(3) by (simp add: heap1 once_memory_def cb_def)
    show "- 1 \<le> cb_firingIndex (mc_heap m1 ! k)" by (simp add: heap1)
  qed
  also have "(set_list k (\<lambda>cb. cb\<lparr>cb_firingIndex := - 1\<rparr>) m1)
     \<lparr>mc_stack := NextFire k # rest,
      mc_calls := mc_calls m1 @ map (\<lambda>f. \<lparr>call_list = k, call_fun = f, call_args = cb_memory (mc_heap m1 ! k)\<rparr>)
        (drop (nat (cb_firingIndex (mc_heap m1 ! k) + 1)) (items (mc_heap m1 ! k)))\<rparr>
    = (set_list k (\<lambda>cb. cb\<lparr>cb_firingIndex := - 1\<rparr>) m)
     \<lparr>mc_stack := NextFire k # rest,
      mc_calls := mc_calls m @ map (\<lambda>f. \<lparr>call_list = k, call_fun = f, call_args = cb_memory cb\<rparr>) (drop i (items cb))\<rparr>"
    using i Suc.prems(2)
    by (simp add: m1_def set_list_def items_def cb_def [symmetric] call_def nat_add_distrib Cons_nth_drop_Suc [symmetric])
  finally show ?case by (simp add: cb_def i_def)
qed


section \<open>Scripts over one list\<close>

text \<open>The first fire of a script, and the functions it adds, in order.\<close>

fun first_fire :: "(nat \<times> ('f, 'a) cb_op) list \<Rightarrow> 'a option" where
  "first_fire [] = None"
| "first_fire ((k, FireWith a) # ops) = Some a"
| "first_fire (_ # ops) = first_fire ops"

fun added_functions :: "(nat \<times> ('f, 'a) cb_op) list \<Rightarrow> 'f list" where
  "added_functions [] = []"
| "added_functions ((k, Add args) # ops) = concat (map arg_functions args) @ added_functions ops"
| "added_functions (_ # ops) = added_functions ops"

fun adds_or_fires :: "nat \<times> ('f, 'a) cb_op \<Rightarrow> bool" where
  "adds_or_fires (k, Add args) = (k = 0)"
| "adds_or_fires (k, FireWith a) = (k = 0)"
| "adds_or_fires _ = False"

definition called :: "'f list \<Rightarrow> 'a \<Rightarrow> ('f, 'a) call list" where
  "called fs a = map (\<lambda>f. \<lparr>call_list = 0, call_fun = f, call_args = Some a\<rparr>) fs"

lemma called_append: "called (fs @ gs) a = called fs a @ called gs a"
  by (simp add: called_def)

lemma fold_push_callback:
  assumes "\<not> flag (js ''unique'') (cb_options cb)" "cb_list cb = Some gs"
  shows "foldl push_callback cb fs = cb\<lparr>cb_list := Some (gs @ fs)\<rparr>"
  using assms
proof (induction fs arbitrary: cb gs)
  case (Cons f fs)
  have "push_callback cb f = cb\<lparr>cb_list := Some (gs @ [f])\<rparr>" using Cons.prems by (simp add: push_callback_def items_def del: js_simps)
  then show ?case using Cons.IH [of "cb\<lparr>cb_list := Some (gs @ [f])\<rparr>" "gs @ [f]"] Cons.prems by (simp del: js_simps)
qed simp

text \<open>The two states of the list between operations: not fired, and fired with what it remembers.\<close>

definition waiting_list :: "'f list \<Rightarrow> ('f, 'a) callbacks" where
  "waiting_list fs = (Callbacks (createOptions (js ''once memory'')))\<lparr>cb_list := Some fs\<rparr>"

definition fired_list :: "'a \<Rightarrow> ('f, 'a) callbacks" where
  "fired_list a = (Callbacks (createOptions (js ''once memory'')))\<lparr>cb_memory := Some a, cb_fired := True, cb_locked := True\<rparr>"

definition at_script :: "(nat \<times> ('f, 'a) cb_op) list \<Rightarrow> ('f, 'a) callbacks \<Rightarrow> ('f, 'a) call list \<Rightarrow> ('f, 'a) machine" where
  "at_script ops cb calls = \<lparr>mc_heap = [cb], mc_stack = [Script ops], mc_calls = calls, mc_threw = False\<rparr>"

text \<open>A fire of the list, from its beginning to its end.\<close>

lemma run_fire:
  assumes "quiet beh" "once_memory cb" "cb_list cb = Some fs" "cb_queue cb = [a]" "- 1 \<le> cb_firingIndex cb" "cb_locked cb" "cb_firing cb" "cb_fired cb"
  shows "cb_run beh \<lparr>mc_heap = [cb], mc_stack = [NextFire 0, Script ops], mc_calls = calls, mc_threw = False\<rparr>
    = cb_run beh (at_script ops (fired_list a) (calls @ called (drop (nat (cb_firingIndex cb + 1)) fs) a))"
proof -
  define cb1 where "cb1 = cb\<lparr>cb_memory := Some a, cb_queue := []\<rparr>"
  define new where "new = called (drop (nat (cb_firingIndex cb + 1)) fs) a"
  let ?m = "\<lparr>mc_heap = [cb1], mc_stack = [NextCall 0, Script ops], mc_calls = calls, mc_threw = False\<rparr>"
  let ?n = "\<lparr>mc_heap = [cb1\<lparr>cb_firingIndex := - 1\<rparr>], mc_stack = [NextFire 0, Script ops], mc_calls = calls @ new, mc_threw = False\<rparr>"
  have ended: "end_fire (cb1\<lparr>cb_firingIndex := - 1\<rparr>) = fired_list a"
    using assms(2,6-8) by (simp add: end_fire_def cb1_def fired_list_def Callbacks_def once_memory_def once_memory_flags del: js_simps)
  have "cb_run beh \<lparr>mc_heap = [cb], mc_stack = [NextFire 0, Script ops], mc_calls = calls, mc_threw = False\<rparr> = cb_run beh ?m"
    by (subst cb_run_step) (simp_all add: cb_step_def next_fire_def assms(4) cb1_def set_list_def)
  also have "\<dots> = cb_run beh ?n"
    using run_calls [OF assms(1), of ?m 0 "[Script ops]"] assms(2,3,5)
    by (simp add: cb1_def once_memory_def items_def set_list_def new_def called_def)
  also have "\<dots> = cb_run beh (at_script ops (fired_list a) (calls @ new))"
    using ended by (subst cb_run_step) (simp_all add: cb_step_def next_fire_def cb1_def set_list_def at_script_def)
  finally show ?thesis by (simp add: new_def)
qed

lemma run_operation: "cb_run beh (at_script ((k, op) # ops) cb calls) = cb_run beh (operate k op (at_script ops cb calls))"
  by (subst cb_run_step) (simp_all add: at_script_def cb_step_def)

lemma run_fired:
  assumes "quiet beh" "list_all adds_or_fires ops"
  shows "\<exists>m. cb_run beh (at_script ops (fired_list a) calls) = Some m \<and> mc_calls m = calls @ called (added_functions ops) a"
  using assms(2)
proof (induction ops arbitrary: calls)
  case Nil
  have "cb_run beh (at_script [] (fired_list a) calls) = Some \<lparr>mc_heap = [fired_list a], mc_stack = [], mc_calls = calls, mc_threw = False\<rparr>"
    by (subst cb_run_step) (simp_all add: at_script_def cb_step_def)
  then show ?case by (simp add: called_def)
next
  case (Cons kop ops)
  obtain k op where kop: "kop = (k, op)" by (cases kop)
  show ?case
  proof (cases op)
    case (Add args)
    let ?fs = "concat (map arg_functions args)"
    let ?cb = "(fired_list a)\<lparr>cb_list := Some ?fs, cb_queue := [a], cb_firing := True\<rparr>"
    have k: "k = 0" using Cons.prems by (simp add: kop Add)
    have added: "add_callbacks args (fired_list a) = ((fired_list a)\<lparr>cb_list := Some ?fs, cb_queue := [a]\<rparr>, True)"
      by (simp add: add_callbacks_def fired_list_def Callbacks_def items_def fold_push_callback [where gs = "[]"] once_memory_flags del: js_simps)
    have begun: "begin_fire ((fired_list a)\<lparr>cb_list := Some ?fs, cb_queue := [a]\<rparr>) = ?cb"
      by (simp add: begin_fire_def fired_list_def Callbacks_def)
    have op: "operate 0 (Add args) (at_script ops (fired_list a) calls)
        = \<lparr>mc_heap = [?cb], mc_stack = [NextFire 0, Script ops], mc_calls = calls, mc_threw = False\<rparr>"
      by (simp add: operate_def at_script_def set_list_def added begun)
    have "cb_run beh (at_script (kop # ops) (fired_list a) calls) = cb_run beh (at_script ops (fired_list a) (calls @ called ?fs a))"
      unfolding kop Add k run_operation op
      by (subst run_fire [OF assms(1)]) (simp_all add: once_memory_def fired_list_def Callbacks_def)
    then show ?thesis using Cons.IH [of "calls @ called ?fs a"] Cons.prems by (simp add: kop Add called_append)
  next
    case (FireWith b)
    have "operate k op (at_script ops (fired_list a) calls) = at_script ops (fired_list a) calls"
      using Cons.prems by (simp add: kop operate_def FireWith fireWith_def fired_list_def at_script_def set_list_def)
    then show ?thesis using Cons.IH [of calls] Cons.prems by (simp add: kop run_operation) (simp add: FireWith)
  qed (use Cons.prems in \<open>simp_all add: kop\<close>)
qed

lemma run_waiting:
  fixes ops :: "(nat \<times> ('f, 'a) cb_op) list" and beh :: "('f, 'a) behaviour"
  assumes "quiet beh" "list_all adds_or_fires ops"
  shows "\<exists>m. cb_run beh (at_script ops (waiting_list fs) []) = Some m \<and>
    mc_calls m = (case first_fire ops of None \<Rightarrow> [] | Some a \<Rightarrow> called (fs @ added_functions ops) a)"
  using assms(2)
proof (induction ops arbitrary: fs)
  case Nil
  have "cb_run beh (at_script [] (waiting_list fs) []) = Some \<lparr>mc_heap = [waiting_list fs], mc_stack = [], mc_calls = [], mc_threw = False\<rparr>"
    by (subst cb_run_step) (simp_all add: at_script_def cb_step_def)
  then show ?case by simp
next
  case (Cons kop ops)
  obtain k op where kop: "kop = (k, op)" by (cases kop)
  show ?case
  proof (cases op)
    case (Add args)
    let ?fs = "concat (map arg_functions args)"
    have "add_callbacks args (waiting_list fs :: ('f, 'a) callbacks) = (waiting_list (fs @ ?fs), False)"
      by (simp add: add_callbacks_def waiting_list_def Callbacks_def fold_push_callback [where gs = fs] once_memory_flags del: js_simps)
    then have "operate k op (at_script ops (waiting_list fs) []) = at_script ops (waiting_list (fs @ ?fs)) []"
      using Cons.prems by (simp add: kop Add operate_def at_script_def set_list_def)
    then show ?thesis using Cons.IH [of "fs @ ?fs"] Cons.prems by (simp add: kop Add run_operation cong: option.case_cong)
  next
    case (FireWith a)
    let ?cb = "(waiting_list fs)\<lparr>cb_queue := [a], cb_locked := True, cb_fired := True, cb_firing := True\<rparr>"
    have k: "k = 0" using Cons.prems by (simp add: kop FireWith)
    have op: "operate 0 (FireWith a) (at_script ops (waiting_list fs) [])
        = \<lparr>mc_heap = [?cb], mc_stack = [NextFire 0, Script ops], mc_calls = [], mc_threw = False\<rparr>"
      by (simp add: operate_def at_script_def set_list_def fireWith_def begin_fire_def waiting_list_def Callbacks_def once_memory_flags
          del: js_simps)
    have "cb_run beh (at_script (kop # ops) (waiting_list fs) []) = cb_run beh (at_script ops (fired_list a) (called fs a))"
      unfolding kop FireWith k run_operation op
      by (subst run_fire [OF assms(1)]) (simp_all add: once_memory_def waiting_list_def Callbacks_def)
    then show ?thesis using run_fired [OF assms(1), of ops a "called fs a"] Cons.prems by (simp add: kop FireWith called_append)
  qed (use Cons.prems in \<open>simp_all add: kop\<close>)
qed

section \<open>Errors\<close>

text \<open>
  A callback that raises an error ends the script and leaves its list marked as firing. No function of
  that list is called again, whatever is added to it or fired afterwards.
\<close>

definition not_running :: "nat \<Rightarrow> ('f, 'a) frame \<Rightarrow> bool" where
  "not_running k fr \<longleftrightarrow> (case fr of Script _ \<Rightarrow> True | NextFire j \<Rightarrow> j \<noteq> k | NextCall j \<Rightarrow> j \<noteq> k | Body j _ _ \<Rightarrow> j \<noteq> k)"

definition stuck :: "nat \<Rightarrow> ('f, 'a) machine \<Rightarrow> bool" where
  "stuck k m \<longleftrightarrow> k < length (mc_heap m) \<and> cb_firing (mc_heap m ! k) \<and> list_all (not_running k) (mc_stack m)"

lemma firing_push: "cb_firing (foldl push_callback cb fs) = cb_firing cb"
  by (induction fs arbitrary: cb) (simp_all add: push_callback_def)

lemma firing_remove: "cb_firing (fold remove_callback fs cb) = cb_firing cb"
  by (induction fs arbitrary: cb) (simp_all add: remove_callback_def split: option.split prod.split)

lemma firing_list_op: "cb_firing cb \<Longrightarrow> \<exists>cb'. list_op op cb = (cb', False) \<and> cb_firing cb'"
  by (cases op)
     (auto simp: add_callbacks_def firing_push firing_remove empty_callbacks_def disable_def lock_def fireWith_def Let_def split: option.split)

lemma stuck_set_list: "stuck k m \<Longrightarrow> j \<noteq> k \<Longrightarrow> stuck k (set_list j g m)"
  by (simp add: stuck_def set_list_def)

lemma stuck_stack: "stuck k m \<Longrightarrow> list_all (not_running k) st \<Longrightarrow> stuck k (m\<lparr>mc_stack := st\<rparr>)"
  by (simp add: stuck_def)

lemma stuck_operate:
  assumes "stuck k m"
  shows "stuck k (operate j op m)" "mc_calls (operate j op m) = mc_calls m"
proof -
  show "stuck k (operate j op m)"
  proof (cases "j = k")
    case True
    then show ?thesis
      using firing_list_op [of "mc_heap m ! k" op] assms by (auto simp: operate_def stuck_def set_list_def)
  next
    case False
    then show ?thesis
      using assms by (auto simp: operate_def stuck_def set_list_def not_running_def split: prod.split bool.split)
  qed
  show "mc_calls (operate j op m) = mc_calls m" by (auto simp: operate_def split: prod.split bool.split)
qed

lemma stuck_step:
  assumes "stuck k m"
  shows "stuck k (cb_step beh m) \<and> filter (\<lambda>c. call_list c = k) (mc_calls (cb_step beh m)) = filter (\<lambda>c. call_list c = k) (mc_calls m)"
proof (cases "mc_stack m")
  case Nil
  then show ?thesis using assms by (simp add: cb_step_def)
next
  case (Cons fr rest)
  have fr: "not_running k fr" and rest: "list_all (not_running k) rest" using assms Cons by (simp_all add: stuck_def)
  show ?thesis
  proof (cases fr)
    case (Script ops)
    have "list_all (not_running k) (Script ops' # rest)" for ops' using rest by (simp add: not_running_def)
    then show ?thesis
      using assms rest Cons stuck_stack [OF assms] stuck_operate [OF stuck_stack [OF assms]]
      by (cases ops) (auto simp: cb_step_def Script)
  next
    case (NextFire j)
    then have j: "j \<noteq> k" using fr by (simp add: not_running_def)
    then have "list_all (not_running k) (NextCall j # rest)" using rest by (simp add: not_running_def)
    then show ?thesis
      using Cons NextFire rest by (auto simp: cb_step_def next_fire_def intro!: stuck_stack stuck_set_list assms j split: list.split)
  next
    case (NextCall j)
    then have j: "j \<noteq> k" using fr by (simp add: not_running_def)
    then have "list_all (not_running k) (NextFire j # rest)" "list_all (not_running k) (Body j ops end # rest)" for ops "end"
      using rest by (simp_all add: not_running_def)
    then show ?thesis
      using assms j Cons NextCall by (auto simp: cb_step_def next_call_def Let_def stuck_def split: prod.split)
  next
    case (Body j ops "end")
    then have j: "j \<noteq> k" using fr by (simp add: not_running_def)
    then have ok: "list_all (not_running k) (NextCall j # rest)" "list_all (not_running k) (Body j ops' end # rest)" for ops'
      using rest by (simp_all add: not_running_def)
    show ?thesis
    proof (cases ops)
      case Nil
      then show ?thesis
        using assms j Cons Body ok by (cases "end") (auto simp: cb_step_def stuck_def)
    next
      case (Cons jop ops')
      then show ?thesis
        using \<open>mc_stack m = fr # rest\<close> Body ok(2) stuck_operate [OF stuck_stack [OF assms]]
        by (cases jop) (simp add: cb_step_def)
    qed
  qed
qed

interpretation stuck_list: machine_invariant beh "\<lambda>m. stuck k m \<and> filter (\<lambda>c. call_list c = k) (mc_calls m) = cs"
  by unfold_locales (use stuck_step in metis)

lemma stuck_for_good:
  assumes "cb_reachable beh m m'" "stuck k m"
  shows "filter (\<lambda>c. call_list c = k) (mc_calls m') = filter (\<lambda>c. call_list c = k) (mc_calls m)"
  using stuck_list.reachable [OF assms(1), of k] assms(2) by blast

lemma error_leaves_stuck:
  assumes "mc_stack m = Body k [] Throws # rest" "cb_firing (mc_heap m ! k)" "k < length (mc_heap m)"
  shows "stuck k ((cb_step beh m)\<lparr>mc_stack := [Script ops]\<rparr>)"
  using assms by (simp add: cb_step_def stuck_def not_running_def)

end
