(* ===== verification/JQuery_Deferred.thy ===== *)
theory JQuery_Deferred
  imports Callbacks_Facts
begin

text \<open>
  \<open>jQuery.Deferred\<close> of \<open>jquery.js\<close>: its six callback lists, wired as the code wires them, its state, and
  the operations of the deferred and of its promise. The lists are numbered: the callbacks of
  notify, resolve and reject, then the handlers of the three.
\<close>

section \<open>The lists\<close>

text \<open>What a list may hold: the methods of other lists that the constructor adds, and functions of the user.\<close>

datatype 'u df_fun =
    SetState jstring
  | DisableList nat
  | LockList nat
  | FireList nat
  | User 'u

record deferred_tuple =
  dt_action :: jstring
  dt_listener :: jstring
  dt_options :: jstring
  dt_argument :: nat \<comment> \<open>which argument of \<open>then\<close> handles it\<close>
  dt_state :: "jstring option"

definition tuples :: "deferred_tuple list" where
  "tuples =
     [\<lparr>dt_action = js ''notify'', dt_listener = js ''progress'', dt_options = js ''memory'', dt_argument = 2, dt_state = None\<rparr>,
      \<lparr>dt_action = js ''resolve'', dt_listener = js ''done'', dt_options = js ''once memory'', dt_argument = 0, dt_state = Some (js ''resolved'')\<rparr>,
      \<lparr>dt_action = js ''reject'', dt_listener = js ''fail'', dt_options = js ''once memory'', dt_argument = 1, dt_state = Some (js ''rejected'')\<rparr>]"

definition callbacks_of :: "nat \<Rightarrow> nat" where
  "callbacks_of i = i"

definition handlers_of :: "nat \<Rightarrow> nat" where
  "handlers_of i = 3 + i"

definition tuple_functions :: "nat \<Rightarrow> 'u df_fun list" where
  "tuple_functions i =
     (case dt_state (tuples ! i) of
        Some stateString \<Rightarrow>
          [SetState stateString, DisableList (callbacks_of (3 - i)), DisableList (handlers_of (3 - i)),
           LockList (callbacks_of 0), LockList (handlers_of 0)]
      | None \<Rightarrow> []) @ [FireList (handlers_of i)]"

definition deferred_lists :: "('u df_fun, 'a) callbacks list" where
  "deferred_lists =
     map (\<lambda>i. fst (add_callbacks (map Fn (tuple_functions i)) (Callbacks (createOptions (dt_options (tuples ! i)))))) [0, 1, 2] @
     map (\<lambda>i. Callbacks (createOptions (dt_options (tuples ! i)))) [0, 1, 2]"

section \<open>Operations\<close>

datatype ('u, 'a) deferred_op =
    Progress "'u arg list" | Done "'u arg list" | Fail "'u arg list" | Always "'u arg list"
  | Notify 'a | Resolve 'a | Reject 'a

text \<open>Listeners are \<open>add\<close> of a list, and settling is \<open>fireWith\<close> of one.\<close>

definition user_args :: "'u arg list \<Rightarrow> 'u df_fun arg list" where
  "user_args args = map (map_arg User) args"

fun list_ops :: "('u, 'a) deferred_op \<Rightarrow> (nat \<times> ('u df_fun, 'a) cb_op) list" where
  "list_ops (Progress args) = [(callbacks_of 0, Add (user_args args))]"
| "list_ops (Done args) = [(callbacks_of 1, Add (user_args args))]"
| "list_ops (Fail args) = [(callbacks_of 2, Add (user_args args))]"
| "list_ops (Always args) = [(callbacks_of 1, Add (user_args args)), (callbacks_of 2, Add (user_args args))]"
| "list_ops (Notify a) = [(callbacks_of 0, FireWith a)]"
| "list_ops (Resolve a) = [(callbacks_of 1, FireWith a)]"
| "list_ops (Reject a) = [(callbacks_of 2, FireWith a)]"

text \<open>
  What the functions do. Those of the user may use the deferred and its promise, whatever was called
  before, and may raise an error.
\<close>

type_synonym ('u, 'a) user_behaviour = "('u df_fun, 'a) call list \<Rightarrow> ('u, 'a) deferred_op list \<times> outcome"

definition deferred_behaviour :: "('u, 'a) user_behaviour \<Rightarrow> ('u df_fun, 'a) behaviour" where
  "deferred_behaviour user calls =
     (case call_fun (last calls) of
        SetState _ \<Rightarrow> ([], Returns False)
      | DisableList k \<Rightarrow> ([(k, Disable)], Returns False)
      | LockList k \<Rightarrow> ([(k, Lock)], Returns False)
      | FireList k \<Rightarrow> (case call_args (last calls) of Some a \<Rightarrow> [(k, FireWith a)] | None \<Rightarrow> [], Returns False)
      | User _ \<Rightarrow> (case user calls of (ops, end) \<Rightarrow> (concat (map list_ops ops), end)))"

text \<open>\<open>state()\<close>: what the last call of a state setter set.\<close>

definition deferred_state :: "('u df_fun, 'a) call list \<Rightarrow> jstring" where
  "deferred_state calls =
     foldl (\<lambda>state c. case call_fun c of SetState s \<Rightarrow> s | _ \<Rightarrow> state) (js ''pending'') calls"

definition start_deferred :: "('u, 'a) deferred_op list \<Rightarrow> ('u df_fun, 'a) machine" where
  "start_deferred ops = start_machine deferred_lists (concat (map list_ops ops))"

section \<open>What the lists may hold\<close>

text \<open>The list with the number \<open>s\<close>, one or two, settles the deferred; the other has the number \<open>3 - s\<close>.\<close>

definition state_name :: "nat \<Rightarrow> jstring" where
  "state_name s = (if s = 1 then js ''resolved'' else js ''rejected'')"

definition settling_functions :: "nat \<Rightarrow> 'u df_fun list" where
  "settling_functions s = [SetState (state_name s), DisableList (3 - s), DisableList (6 - s), LockList 0, LockList 3, FireList (3 + s)]"

lemma tuple_functions_settling:
  assumes "s \<in> {1, 2}"
  shows "tuple_functions s = settling_functions s"
  using assms by (auto simp: tuple_functions_def settling_functions_def tuples_def state_name_def callbacks_of_def handlers_of_def
      simp del: js_simps)

fun is_user :: "'u df_fun \<Rightarrow> bool" where
  "is_user (User u) = True"
| "is_user _ = False"

fun calm :: "'u df_fun \<Rightarrow> bool" where
  "calm (User u) = True"
| "calm (FireList k) = (k \<in> {3, 4, 5})"
| "calm _ = False"

text \<open>The operations that do not settle the deferred but by resolving and rejecting it.\<close>

fun harmless :: "nat \<times> ('u df_fun, 'a) cb_op \<Rightarrow> bool" where
  "harmless (k, Add args) \<longleftrightarrow> k < 6 \<and> list_all is_user (concat (map arg_functions args))"
| "harmless (k, FireWith a) \<longleftrightarrow> k < 6"
| "harmless (k, _) \<longleftrightarrow> k \<in> {0, 3, 4, 5}"

definition frame_ok :: "(nat \<times> ('u df_fun, 'a) cb_op \<Rightarrow> bool) \<Rightarrow> nat set \<Rightarrow> ('u df_fun, 'a) frame \<Rightarrow> bool" where
  "frame_ok allowed ks fr = (case fr of
      Script ops \<Rightarrow> list_all allowed ops
    | NextFire k \<Rightarrow> k \<in> ks
    | NextCall k \<Rightarrow> k \<in> ks
    | Body k ops _ \<Rightarrow> k \<in> ks \<and> list_all allowed ops)"

lemma user_arg_functions: "list_all is_user (concat (map arg_functions (user_args args)))"
proof -
  have "list_all is_user (arg_functions (map_arg User a))" for a :: "'u arg"
    by (induction a) (auto simp: list_all_iff)
  then show ?thesis by (auto simp: user_args_def list_all_iff)
qed

lemma list_ops_harmless: "list_all harmless (list_ops op)"
  using user_arg_functions by (cases op) (auto simp: callbacks_of_def)

lemma concat_list_ops_harmless: "list_all harmless (concat (map list_ops ops))"
  using list_ops_harmless by (induction ops) auto

text \<open>What operations and firing do to the functions of a list.\<close>

lemma items_push: "set (items (push_callback cb f)) \<subseteq> insert f (set (items cb))"
  by (auto simp: push_callback_def items_def)

lemma items_fold_push: "set (items (foldl push_callback cb fs)) \<subseteq> set fs \<union> set (items cb)"
proof (induction fs arbitrary: cb)
  case (Cons f fs)
  show ?case using Cons [of "push_callback cb f"] items_push [of cb f] by auto
qed simp

lemma push_simps [simp]:
  "cb_memory (push_callback cb f) = cb_memory cb" "cb_firing (push_callback cb f) = cb_firing cb"
  "cb_locked (push_callback cb f) = cb_locked cb" "cb_queue (push_callback cb f) = cb_queue cb"
  "cb_options (push_callback cb f) = cb_options cb" "cb_firingIndex (push_callback cb f) = cb_firingIndex cb"
  "cb_fired (push_callback cb f) = cb_fired cb"
  by (simp_all add: push_callback_def)

lemma fold_push_simps [simp]:
  "cb_memory (foldl push_callback cb fs) = cb_memory cb" "cb_firing (foldl push_callback cb fs) = cb_firing cb"
  "cb_locked (foldl push_callback cb fs) = cb_locked cb" "cb_queue (foldl push_callback cb fs) = cb_queue cb"
  "cb_options (foldl push_callback cb fs) = cb_options cb" "cb_firingIndex (foldl push_callback cb fs) = cb_firingIndex cb"
  "cb_fired (foldl push_callback cb fs) = cb_fired cb"
  by (induction fs arbitrary: cb) simp_all

lemma items_simps [simp]:
  "items (cb\<lparr>cb_firingIndex := i\<rparr>) = items cb" "items (cb\<lparr>cb_queue := q\<rparr>) = items cb" "items (cb\<lparr>cb_memory := x\<rparr>) = items cb"
  "items (cb\<lparr>cb_locked := b\<rparr>) = items cb" "items (cb\<lparr>cb_firing := b\<rparr>) = items cb" "items (cb\<lparr>cb_fired := b\<rparr>) = items cb"
  by (simp_all add: items_def)

lemma items_add: "set (items (fst (add_callbacks args cb))) \<subseteq> set (concat (map arg_functions args)) \<union> set (items cb)"
proof -
  have "set (items (foldl push_callback c (concat (map arg_functions args)))) \<subseteq> set (concat (map arg_functions args)) \<union> set (items cb)"
    if "items c = items cb" for c :: "('a, 'b) callbacks"
    using items_fold_push [of c] that by metis
  then show ?thesis by (auto simp: add_callbacks_def Let_def split: option.splits dest!: subsetD)
qed

text \<open>
  A deferred settles once: the invariant of the machine that runs its lists, in three phases. Before
  anything settles it, both settling lists are untouched; while the first functions of one of them
  run, nothing else can run; and after that the other list is spent for good.
\<close>

section \<open>Operations and the functions of a list\<close>

fun op_functions :: "('f, 'a) cb_op \<Rightarrow> 'f list" where
  "op_functions (Add args) = concat (map arg_functions args)"
| "op_functions _ = []"

lemma remove_from_subset: "set (fst (remove_from f k xs i)) \<subseteq> set xs"
  by (induction f k xs i rule: remove_from.induct) (auto split: prod.splits)

lemma items_remove: "set (items (remove_callback f cb)) \<subseteq> set (items cb)"
  using remove_from_subset [of f 0 "items cb" "cb_firingIndex cb"]
  by (auto simp: remove_callback_def items_def split: option.splits prod.splits)

lemma items_fold_remove: "set (items (fold remove_callback fs cb)) \<subseteq> set (items cb)"
proof (induction fs arbitrary: cb)
  case (Cons f fs)
  show ?case using Cons [of "remove_callback f cb"] items_remove [of f cb] by auto
qed simp

lemma items_list_op: "set (items (fst (list_op op cb))) \<subseteq> set (op_functions op) \<union> set (items cb)"
proof (cases op)
  case (Add args)
  then show ?thesis using items_add [of args cb] by simp
next
  case (Remove fs)
  then show ?thesis using items_fold_remove [of fs cb] by simp
qed (auto simp: empty_callbacks_def disable_def lock_def fireWith_def items_def Let_def split: option.splits)

lemma items_begin_fire [simp]: "items (begin_fire cb) = items cb"
  by (simp add: begin_fire_def)

lemma items_end_fire: "set (items (end_fire cb)) \<subseteq> set (items cb)"
  by (auto simp: end_fire_def items_def Let_def)

lemma items_after_call [simp]: "items (after_call b cb) = items cb"
  by (simp add: after_call_def)

section \<open>The lists that do not settle\<close>

definition others_ok :: "('u df_fun, 'a) machine \<Rightarrow> bool" where
  "others_ok m \<longleftrightarrow> length (mc_heap m) = 6 \<and> (\<forall>k \<in> {0, 3, 4, 5}. \<forall>f \<in> set (items (mc_heap m ! k)). calm f)"

definition same_settlers :: "('u df_fun, 'a) machine \<Rightarrow> ('u df_fun, 'a) machine \<Rightarrow> bool" where
  "same_settlers m m' \<longleftrightarrow> mc_heap m' ! 1 = mc_heap m ! 1 \<and> mc_heap m' ! 2 = mc_heap m ! 2"

lemma others_ok_set_list:
  assumes "others_ok m" "k \<in> {0, 3, 4, 5}" "\<forall>f \<in> set (items (g (mc_heap m ! k))). calm f"
  shows "others_ok (set_list k g m)" "same_settlers m (set_list k g m)"
proof -
  have "mc_heap (set_list k g m) ! j = (if j = k then g (mc_heap m ! k) else mc_heap m ! j)" if "j < 6" for j
    using assms(1,2) that by (auto simp: others_ok_def nth_list_update)
  then show "others_ok (set_list k g m)" "same_settlers m (set_list k g m)"
    using assms by (auto simp: others_ok_def same_settlers_def)
qed

lemma is_user_calm: "is_user f \<Longrightarrow> calm f"
  by (cases f) auto

lemma others_ok_stack [simp]: "others_ok (m\<lparr>mc_stack := st\<rparr>) = others_ok m" "others_ok (m\<lparr>mc_calls := cs\<rparr>) = others_ok m"
  "others_ok (m\<lparr>mc_threw := b\<rparr>) = others_ok m"
  by (simp_all add: others_ok_def)

lemma same_settlers_stack [simp]:
  "same_settlers m (m'\<lparr>mc_stack := st\<rparr>) = same_settlers m m'" "same_settlers m (m'\<lparr>mc_calls := cs\<rparr>) = same_settlers m m'"
  "same_settlers (m\<lparr>mc_stack := st\<rparr>) m' = same_settlers m m'"
  by (simp_all add: same_settlers_def)

text \<open>An operation on one of them leaves the settling lists alone.\<close>

lemma operate_other:
  assumes "others_ok m" "k \<in> {0, 3, 4, 5}" "harmless (k, op)"
  shows "others_ok (operate k op m)" "same_settlers m (operate k op m)" "mc_calls (operate k op m) = mc_calls m"
    "mc_stack (operate k op m) \<in> {mc_stack m, NextFire k # mc_stack m}"
proof -
  have "\<forall>f \<in> set (op_functions op). calm f"
    using assms(3) by (cases op) (auto simp: list_all_iff intro: is_user_calm)
  then have calm: "\<forall>f \<in> set (items (fst (list_op op (mc_heap m ! k)))). calm f"
    using items_list_op [of op "mc_heap m ! k"] assms(1,2) by (auto simp: others_ok_def)
  obtain cb b where op: "list_op op (mc_heap m ! k) = (cb, b)" by (cases "list_op op (mc_heap m ! k)")
  then have calm: "\<forall>f \<in> set (items cb). calm f" using calm by simp
  show "others_ok (operate k op m)" "same_settlers m (operate k op m)" "mc_calls (operate k op m) = mc_calls m"
    "mc_stack (operate k op m) \<in> {mc_stack m, NextFire k # mc_stack m}"
    using others_ok_set_list [OF assms(1,2), of "\<lambda>_. cb"] others_ok_set_list [OF assms(1,2), of "\<lambda>_. begin_fire cb"] calm
    by (auto simp: operate_def op split: bool.splits)
qed

lemma next_fire_other:
  assumes "others_ok m" "k \<in> {0, 3, 4, 5}"
  shows "others_ok (next_fire k rest m)" "same_settlers m (next_fire k rest m)" "mc_calls (next_fire k rest m) = mc_calls m"
    "mc_stack (next_fire k rest m) \<in> {rest, NextCall k # rest}"
proof -
  have calm: "\<forall>f \<in> set (items (mc_heap m ! k)). calm f" using assms by (auto simp: others_ok_def)
  then have ended: "\<forall>f \<in> set (items (end_fire (mc_heap m ! k))). calm f"
    using items_end_fire [of "mc_heap m ! k"] by (meson subsetD)
  show "others_ok (next_fire k rest m)" "same_settlers m (next_fire k rest m)" "mc_calls (next_fire k rest m) = mc_calls m"
    "mc_stack (next_fire k rest m) \<in> {rest, NextCall k # rest}"
    using others_ok_set_list [OF assms, of end_fire, OF ended]
      others_ok_set_list [OF assms, of "\<lambda>cb. cb\<lparr>cb_memory := Some (hd (cb_queue (mc_heap m ! k))), cb_queue := tl (cb_queue (mc_heap m ! k))\<rparr>"]
      calm
    by (cases "cb_queue (mc_heap m ! k)"; simp add: next_fire_def)+
qed

text \<open>A call from one of them is of a calm function, whose operations are harmless.\<close>

lemma calm_behaviour:
  assumes "calm (call_fun (last calls))" "deferred_behaviour user calls = (ops, end)"
  shows "list_all harmless ops"
proof (cases "call_fun (last calls)")
  case (User u)
  then show ?thesis using assms(2) concat_list_ops_harmless by (auto simp: deferred_behaviour_def split: prod.splits)
next
  case (FireList k)
  then show ?thesis using assms by (auto simp: deferred_behaviour_def split: option.splits)
qed (use assms in simp_all)

definition settler_call :: "('u df_fun, 'a) call \<Rightarrow> bool" where
  "settler_call c \<longleftrightarrow> call_list c \<in> {1, 2} \<or> (case call_fun c of SetState _ \<Rightarrow> True | _ \<Rightarrow> False)"

lemma next_call_other:
  assumes "others_ok m" "k \<in> {0, 3, 4, 5}"
  shows "others_ok (next_call (deferred_behaviour user) k rest m)" "same_settlers m (next_call (deferred_behaviour user) k rest m)"
    "filter settler_call (mc_calls (next_call (deferred_behaviour user) k rest m)) = filter settler_call (mc_calls m)"
    "mc_stack (next_call (deferred_behaviour user) k rest m) = NextFire k # rest \<or>
     (\<exists>ops end. mc_stack (next_call (deferred_behaviour user) k rest m) = Body k ops end # rest \<and> list_all harmless ops)"
proof -
  define i where "i = nat (cb_firingIndex (mc_heap m ! k) + 1)"
  have calm: "\<forall>f \<in> set (items (mc_heap m ! k)). calm f" using assms by (auto simp: others_ok_def)
  have set: "others_ok (set_list k (\<lambda>cb. cb\<lparr>cb_firingIndex := x\<rparr>) m)" "same_settlers m (set_list k (\<lambda>cb. cb\<lparr>cb_firingIndex := x\<rparr>) m)" for x
    using others_ok_set_list [OF assms, of "\<lambda>cb. cb\<lparr>cb_firingIndex := x\<rparr>"] calm by simp_all
  show "others_ok (next_call (deferred_behaviour user) k rest m)" "same_settlers m (next_call (deferred_behaviour user) k rest m)"
    using set by (simp_all add: next_call_def Let_def split: prod.split)
  have f: "calm (items (mc_heap m ! k) ! i)" if "i < length (items (mc_heap m ! k))" using calm that by simp
  have "\<not> settler_call \<lparr>call_list = k, call_fun = items (mc_heap m ! k) ! i, call_args = a\<rparr>" if "i < length (items (mc_heap m ! k))" for a
    using f [OF that] assms(2) by (cases "items (mc_heap m ! k) ! i") (auto simp: settler_call_def)
  then show "filter settler_call (mc_calls (next_call (deferred_behaviour user) k rest m)) = filter settler_call (mc_calls m)"
    by (auto simp: next_call_def Let_def i_def [symmetric] split: prod.split)
  show "mc_stack (next_call (deferred_behaviour user) k rest m) = NextFire k # rest \<or>
     (\<exists>ops end. mc_stack (next_call (deferred_behaviour user) k rest m) = Body k ops end # rest \<and> list_all harmless ops)"
  proof (cases "i < length (items (mc_heap m ! k))")
    case True
    define calls where "calls = mc_calls m @ [\<lparr>call_list = k, call_fun = items (mc_heap m ! k) ! i, call_args = cb_memory (mc_heap m ! k)\<rparr>]"
    obtain ops "end" where b: "deferred_behaviour user calls = (ops, end)" by (cases "deferred_behaviour user calls")
    have "list_all harmless ops" by (rule calm_behaviour [OF _ b]) (simp add: calls_def f [OF True])
    then show ?thesis using True b by (auto simp: next_call_def Let_def i_def [symmetric] calls_def [symmetric])
  qed (simp add: next_call_def Let_def i_def [symmetric])
qed

section \<open>Phases\<close>

definition idle :: "nat \<Rightarrow> ('u df_fun, 'a) callbacks \<Rightarrow> bool" where
  "idle s cb \<longleftrightarrow> once_memory cb \<and> \<not> cb_locked cb \<and> \<not> cb_firing cb \<and> cb_memory cb = None \<and> cb_queue cb = [] \<and>
     cb_firingIndex cb = - 1 \<and> (\<exists>us. cb_list cb = Some (settling_functions s @ us) \<and> list_all is_user us)"

definition dead :: "('f, 'a) callbacks \<Rightarrow> bool" where
  "dead cb \<longleftrightarrow> cb_locked cb \<and> cb_list cb = None \<and> cb_queue cb = [] \<and> cb_memory cb = None \<and> \<not> cb_firing cb"

definition settled :: "nat \<Rightarrow> 'a \<Rightarrow> ('u df_fun, 'a) callbacks \<Rightarrow> bool" where
  "settled s a cb \<longleftrightarrow> once_memory cb \<and> cb_locked cb \<and> cb_memory cb = Some a \<and> set (cb_queue cb) \<subseteq> {a} \<and>
     (\<forall>f \<in> set (items cb). f \<in> set (settling_functions s) \<or> is_user f)"

definition state_call :: "nat \<Rightarrow> 'a \<Rightarrow> ('u df_fun, 'a) call" where
  "state_call s a = \<lparr>call_list = s, call_fun = SetState (state_name s), call_args = Some a\<rparr>"

definition call_ok :: "nat \<Rightarrow> 'a \<Rightarrow> ('u df_fun, 'a) call \<Rightarrow> bool" where
  "call_ok s a c \<longleftrightarrow> call_list c = s \<and> call_args c = Some a \<and> (\<forall>x. call_fun c = SetState x \<longrightarrow> x = state_name s)"

text \<open>Where the firing of a settling list stands until it has disabled the other.\<close>

definition early :: "nat \<Rightarrow> 'a \<Rightarrow> ('u df_fun, 'a) callbacks \<Rightarrow> ('u df_fun, 'a) frame \<Rightarrow> ('u df_fun, 'a) call list \<Rightarrow> bool" where
  "early s a cb fr calls \<longleftrightarrow> once_memory cb \<and> cb_locked cb \<and>
     (\<exists>us. cb_list cb = Some (settling_functions s @ us) \<and> list_all is_user us) \<and>
     (fr = NextFire s \<and> cb_queue cb = [a] \<and> cb_firingIndex cb = - 1 \<and> calls = [] \<or>
      cb_memory cb = Some a \<and> cb_queue cb = [] \<and>
      (fr = NextCall s \<and> cb_firingIndex cb = - 1 \<and> calls = [] \<or>
       fr = Body s [] (Returns False) \<and> cb_firingIndex cb = 0 \<and> calls = [state_call s a] \<or>
       fr = NextCall s \<and> cb_firingIndex cb = 0 \<and> calls = [state_call s a] \<or>
       fr = Body s [(3 - s, Disable)] (Returns False) \<and> cb_firingIndex cb = 1 \<and>
         calls = [state_call s a, \<lparr>call_list = s, call_fun = DisableList (3 - s), call_args = Some a\<rparr>]))"

definition late_op :: "nat \<Rightarrow> nat \<times> ('u df_fun, 'a) cb_op \<Rightarrow> bool" where
  "late_op s kop \<longleftrightarrow> harmless kop \<or> kop = (3 - s, Disable)"

definition phase_a :: "('u df_fun, 'a) machine \<Rightarrow> bool" where
  "phase_a m \<longleftrightarrow> others_ok m \<and> idle 1 (mc_heap m ! 1) \<and> idle 2 (mc_heap m ! 2) \<and>
     list_all (frame_ok harmless {0, 3, 4, 5}) (mc_stack m) \<and> filter settler_call (mc_calls m) = []"

definition phase_b :: "nat \<Rightarrow> 'a \<Rightarrow> ('u df_fun, 'a) machine \<Rightarrow> bool" where
  "phase_b s a m \<longleftrightarrow> s \<in> {1, 2} \<and> others_ok m \<and> idle (3 - s) (mc_heap m ! (3 - s)) \<and>
     (\<exists>fr rest. mc_stack m = fr # rest \<and> list_all (frame_ok harmless {0, 3, 4, 5}) rest \<and>
        early s a (mc_heap m ! s) fr (filter settler_call (mc_calls m)))"

definition phase_c :: "nat \<Rightarrow> 'a \<Rightarrow> ('u df_fun, 'a) machine \<Rightarrow> bool" where
  "phase_c s a m \<longleftrightarrow> s \<in> {1, 2} \<and> others_ok m \<and> dead (mc_heap m ! (3 - s)) \<and> settled s a (mc_heap m ! s) \<and>
     list_all (frame_ok (late_op s) {0, 3, 4, 5, s}) (mc_stack m) \<and>
     list_all (call_ok s a) (filter settler_call (mc_calls m)) \<and> state_call s a \<in> set (mc_calls m)"

lemma set_settler:
  assumes "others_ok m" "s \<in> {1, 2}"
  shows "others_ok (set_list s g m)" "mc_heap (set_list s g m) ! s = g (mc_heap m ! s)"
    "mc_heap (set_list s g m) ! (3 - s) = mc_heap m ! (3 - s)"
  using assms by (auto simp: others_ok_def nth_list_update)

lemma frames_mono:
  assumes "list_all (frame_ok P ks) st" "\<And>x. P x \<Longrightarrow> Q x" "ks \<subseteq> ls"
  shows "list_all (frame_ok Q ls) st"
proof -
  have "frame_ok P ks fr \<Longrightarrow> frame_ok Q ls fr" for fr
    using assms(2,3) by (auto simp: frame_ok_def list_all_iff split: frame.splits)
  then show ?thesis using assms(1) by (auto simp: list_all_iff)
qed

section \<open>Before anything settles\<close>

lemma same_settlers_at: "same_settlers m m' \<Longrightarrow> s \<in> {1, 2} \<Longrightarrow> mc_heap m' ! s = mc_heap m ! s"
  by (auto simp: same_settlers_def)

lemma phase_a_other:
  assumes "phase_a m" "others_ok m'" "same_settlers m m'" "filter settler_call (mc_calls m') = filter settler_call (mc_calls m)"
    and "list_all (frame_ok harmless {0, 3, 4, 5}) (mc_stack m')"
  shows "phase_a m'"
  using assms by (simp add: phase_a_def same_settlers_def)

lemma idle_add:
  assumes "idle s cb" "list_all is_user (concat (map arg_functions args))"
  shows "\<exists>cb'. add_callbacks args cb = (cb', False) \<and> idle s cb'"
proof -
  obtain us where us: "cb_list cb = Some (settling_functions s @ us)" "list_all is_user us" using assms(1) by (auto simp: idle_def)
  have "\<not> flag (js ''unique'') (cb_options cb)" using assms(1) by (simp add: idle_def once_memory_def once_memory_flags del: js_simps)
  then have "add_callbacks args cb = (cb\<lparr>cb_list := Some ((settling_functions s @ us) @ concat (map arg_functions args))\<rparr>, False)"
    using assms(1) us(1) by (simp add: add_callbacks_def idle_def fold_push_callback [OF _ us(1)] del: js_simps)
  then show ?thesis using assms us by (simp add: idle_def once_memory_def)
qed

lemma idle_fire:
  assumes "idle s cb"
  shows "\<exists>cb'. fireWith a cb = (cb', True) \<and> early s a (begin_fire cb') (NextFire s) []"
  using assms by (simp add: idle_def fireWith_def begin_fire_def early_def once_memory_def once_memory_flags del: js_simps)

lemma operate_a:
  assumes "phase_a m" "harmless (k, op)"
  shows "phase_a (operate k op m) \<or> (\<exists>s a. phase_b s a (operate k op m))"
proof (cases "k \<in> {1, 2}")
  case False
  then have k: "k \<in> {0, 3, 4, 5}" using assms(2) by (cases op) auto
  have ok: "others_ok m" using assms(1) by (simp add: phase_a_def)
  note op = operate_other [OF ok k assms(2)]
  have "list_all (frame_ok harmless {0, 3, 4, 5}) (mc_stack (operate k op m))"
    using op(4) assms(1) k by (auto simp: phase_a_def frame_ok_def)
  then show ?thesis using phase_a_other [OF assms(1) op(1,2)] op(3) by simp
next
  case True
  have ok: "others_ok m" and idle: "idle k (mc_heap m ! k)" "idle (3 - k) (mc_heap m ! (3 - k))"
    using assms(1) True by (auto simp: phase_a_def)
  note set = set_settler [OF ok True]
  show ?thesis
  proof (cases op)
    case (Add args)
    obtain cb where cb: "add_callbacks args (mc_heap m ! k) = (cb, False)" "idle k cb"
      using idle_add [OF idle(1), of args] assms(2) by (auto simp: Add)
    have "operate k op m = set_list k (\<lambda>_. cb) m" by (simp add: operate_def Add cb)
    moreover have "phase_a (set_list k (\<lambda>_. cb) m)"
      using assms(1) set [of "\<lambda>_. cb"] cb(2) True by (auto simp: phase_a_def)
    ultimately show ?thesis by simp
  next
    case (FireWith a)
    obtain cb where cb: "fireWith a (mc_heap m ! k) = (cb, True)" "early k a (begin_fire cb) (NextFire k) []"
      using idle_fire [OF idle(1)] by blast
    have "operate k op m = (set_list k (\<lambda>_. begin_fire cb) m)\<lparr>mc_stack := NextFire k # mc_stack m\<rparr>"
      by (simp add: operate_def FireWith cb)
    moreover have "phase_b k a ((set_list k (\<lambda>_. begin_fire cb) m)\<lparr>mc_stack := NextFire k # mc_stack m\<rparr>)"
      using assms(1) set [of "\<lambda>_. begin_fire cb"] cb(2) True idle(2) by (simp add: phase_b_def phase_a_def)
    ultimately show ?thesis by auto
  qed (use assms(2) True in auto)
qed

lemma step_a:
  assumes "phase_a m"
  shows "phase_a (cb_step (deferred_behaviour user) m) \<or> (\<exists>s a. phase_b s a (cb_step (deferred_behaviour user) m))"
proof (cases "mc_stack m")
  case Nil
  then show ?thesis using assms by (simp add: cb_step_def)
next
  case (Cons fr rest)
  have ok: "others_ok m" and rest: "list_all (frame_ok harmless {0, 3, 4, 5}) rest" and fr: "frame_ok harmless {0, 3, 4, 5} fr"
    using assms Cons by (auto simp: phase_a_def)
  have popped: "phase_a (m\<lparr>mc_stack := st\<rparr>)" if "list_all (frame_ok harmless {0, 3, 4, 5}) st" for st
    using assms that by (simp add: phase_a_def)
  show ?thesis
  proof (cases fr)
    case (Script ops)
    show ?thesis
    proof (cases ops)
      case (Cons kop ops')
      obtain k op where kop: "kop = (k, op)" by (cases kop)
      have "phase_a (m\<lparr>mc_stack := Script ops' # rest\<rparr>)" "harmless (k, op)"
        using fr rest by (auto simp: Script Cons kop frame_ok_def intro: popped)
      from operate_a [OF this] show ?thesis using \<open>mc_stack m = fr # rest\<close> by (simp add: cb_step_def Script Cons kop)
    qed (use popped [OF rest] \<open>mc_stack m = fr # rest\<close> in \<open>simp add: cb_step_def Script\<close>)
  next
    case (NextFire k)
    then have k: "k \<in> {0, 3, 4, 5}" using fr by (simp add: frame_ok_def)
    note nx = next_fire_other [OF ok k, of rest]
    have "phase_a (next_fire k rest m)"
      by (rule phase_a_other [OF assms nx(1,2)]) (use nx rest k in \<open>auto simp: frame_ok_def\<close>)
    then show ?thesis using Cons by (simp add: cb_step_def NextFire)
  next
    case (NextCall k)
    then have k: "k \<in> {0, 3, 4, 5}" using fr by (simp add: frame_ok_def)
    note nx = next_call_other [OF ok k, of user rest]
    have "phase_a (next_call (deferred_behaviour user) k rest m)"
      by (rule phase_a_other [OF assms nx(1,2)]) (use nx(3,4) rest k in \<open>auto simp: frame_ok_def\<close>)
    then show ?thesis using Cons by (simp add: cb_step_def NextCall)
  next
    case (Body k ops "end")
    then have k: "k \<in> {0, 3, 4, 5}" using fr by (simp add: frame_ok_def)
    show ?thesis
    proof (cases ops)
      case Nil
      show ?thesis
      proof (cases "end")
        case (Returns b)
        have "\<forall>f \<in> set (items (after_call b (mc_heap m ! k))). calm f" using ok k by (auto simp: others_ok_def)
        note set = others_ok_set_list [OF ok k, of "after_call b", OF this]
        have "phase_a ((set_list k (after_call b) m)\<lparr>mc_stack := NextCall k # rest\<rparr>)"
          by (rule phase_a_other [OF assms]) (use set rest k in \<open>auto simp: frame_ok_def\<close>)
        then show ?thesis using Cons by (simp add: cb_step_def Body Nil Returns)
      next
        case Throws
        then show ?thesis using Cons assms by (simp add: cb_step_def Body Nil phase_a_def)
      qed
    next
      case (Cons jop ops')
      obtain j op where jop: "jop = (j, op)" by (cases jop)
      have "phase_a (m\<lparr>mc_stack := Body k ops' end # rest\<rparr>)" "harmless (j, op)"
        using fr rest by (auto simp: Body Cons jop frame_ok_def intro: popped)
      from operate_a [OF this] show ?thesis using \<open>mc_stack m = fr # rest\<close> by (simp add: cb_step_def Body Cons jop)
    qed
  qed
qed

section \<open>While the first functions run\<close>

lemma idle_dead: "idle s cb \<Longrightarrow> dead (disable cb)"
  by (simp add: idle_def dead_def disable_def)

lemma early_settled: "early s a cb fr calls \<Longrightarrow> cb_memory cb = Some a \<Longrightarrow> cb_queue cb = [] \<Longrightarrow> settled s a cb"
  by (auto simp: early_def settled_def items_def list_all_iff)

lemma state_behaviour:
  "deferred_behaviour user (calls @ [state_call s a]) = ([], Returns False)"
  "deferred_behaviour user (calls @ [\<lparr>call_list = s, call_fun = DisableList k, call_args = x\<rparr>]) = ([(k, Disable)], Returns False)"
  by (simp_all add: deferred_behaviour_def state_call_def)

lemma settler_call_list: "k \<in> {1, 2} \<Longrightarrow> settler_call \<lparr>call_list = k, call_fun = f, call_args = x\<rparr>"
  by (simp add: settler_call_def)

lemma early_next:
  assumes "early s a cb (NextCall s) calls" "s \<in> {1, 2}"
  shows "cb_firingIndex cb \<in> {- 1, 0}" "items cb ! nat (cb_firingIndex cb + 1) = settling_functions s ! nat (cb_firingIndex cb + 1)"
    "nat (cb_firingIndex cb + 1) < length (items cb)"
  using assms by (auto simp: early_def items_def settling_functions_def nth_append)

lemma step_b:
  assumes "phase_b s a m"
  shows "phase_b s a (cb_step (deferred_behaviour user) m) \<or> phase_c s a (cb_step (deferred_behaviour user) m)"
proof -
  obtain fr rest where st: "mc_stack m = fr # rest" "list_all (frame_ok harmless {0, 3, 4, 5}) rest"
    and early: "early s a (mc_heap m ! s) fr (filter settler_call (mc_calls m))"
    using assms by (auto simp: phase_b_def)
  have s: "s \<in> {1, 2}" and ok: "others_ok m" and idle: "idle (3 - s) (mc_heap m ! (3 - s))" using assms by (simp_all add: phase_b_def)
  define cb where "cb = mc_heap m ! s"
  note set = set_settler [OF ok s]
  have b: "phase_b s a m'"
    if "others_ok m'" "mc_heap m' ! (3 - s) = mc_heap m ! (3 - s)" "mc_stack m' = fr' # rest"
      "early s a (mc_heap m' ! s) fr' (filter settler_call (mc_calls m'))" for m' fr'
    using that s idle st(2) by (auto simp: phase_b_def)
  from early consider
      (fire) "fr = NextFire s" "cb_queue cb = [a]" "cb_firingIndex cb = - 1" "filter settler_call (mc_calls m) = []"
    | (first) "fr = NextCall s" "cb_firingIndex cb = - 1" "filter settler_call (mc_calls m) = []" "cb_memory cb = Some a" "cb_queue cb = []"
    | (state) "fr = Body s [] (Returns False)" "cb_firingIndex cb = 0" "filter settler_call (mc_calls m) = [state_call s a]"
        "cb_memory cb = Some a" "cb_queue cb = []"
    | (second) "fr = NextCall s" "cb_firingIndex cb = 0" "filter settler_call (mc_calls m) = [state_call s a]"
        "cb_memory cb = Some a" "cb_queue cb = []"
    | (disable) "fr = Body s [(3 - s, Disable)] (Returns False)" "cb_firingIndex cb = 1"
        "filter settler_call (mc_calls m) = [state_call s a, \<lparr>call_list = s, call_fun = DisableList (3 - s), call_args = Some a\<rparr>]"
        "cb_memory cb = Some a" "cb_queue cb = []"
    unfolding early_def cb_def [symmetric] by blast
  then show ?thesis
  proof cases
    case fire
    have "cb_step (deferred_behaviour user) m = (set_list s (\<lambda>cb. cb\<lparr>cb_memory := Some a, cb_queue := []\<rparr>) m)\<lparr>mc_stack := NextCall s # rest\<rparr>"
      using fire st by (simp add: cb_step_def next_fire_def cb_def)
    moreover have "phase_b s a \<dots>"
      by (rule b [where fr' = "NextCall s"]) (use set [of "\<lambda>cb. cb\<lparr>cb_memory := Some a, cb_queue := []\<rparr>"] early fire in \<open>auto simp: early_def once_memory_def cb_def simp del: js_simps\<close>)
    ultimately show ?thesis by simp
  next
    case first
    have f: "nat (cb_firingIndex cb + 1) = 0" "0 < length (items cb)" "items cb ! 0 = SetState (state_name s)"
      using early_next [OF early [unfolded first(1)] s] first(2) by (simp_all add: cb_def settling_functions_def)
    have "cb_step (deferred_behaviour user) m = (set_list s (\<lambda>cb. cb\<lparr>cb_firingIndex := 0\<rparr>) m)
        \<lparr>mc_calls := mc_calls m @ [state_call s a], mc_stack := Body s [] (Returns False) # rest\<rparr>"
      using first st f state_behaviour(1) [of user "mc_calls m" s a]
      by (simp add: cb_step_def next_call_def Let_def cb_def [symmetric] state_call_def)
    moreover have "phase_b s a \<dots>"
      by (rule b [where fr' = "Body s [] (Returns False)"])
         (use set [of "\<lambda>cb. cb\<lparr>cb_firingIndex := 0\<rparr>"] early first s in
            \<open>auto simp: early_def once_memory_def cb_def settler_call_def state_call_def simp del: js_simps\<close>)
    ultimately show ?thesis by simp
  next
    case state
    have "set_list s (after_call False) m = m" by (rule set_list_same) (simp add: after_call_def)
    then have "cb_step (deferred_behaviour user) m = m\<lparr>mc_stack := NextCall s # rest\<rparr>"
      using state st by (simp add: cb_step_def)
    moreover have "phase_b s a \<dots>"
      by (rule b [where fr' = "NextCall s"]) (use ok early state in \<open>auto simp: early_def cb_def\<close>)
    ultimately show ?thesis by simp
  next
    case second
    have f: "nat (cb_firingIndex cb + 1) = 1" "1 < length (items cb)" "items cb ! 1 = DisableList (3 - s)"
      using early_next [OF early [unfolded second(1)] s] second(2) by (simp_all add: cb_def settling_functions_def)
    have "cb_step (deferred_behaviour user) m = (set_list s (\<lambda>cb. cb\<lparr>cb_firingIndex := 1\<rparr>) m)
        \<lparr>mc_calls := mc_calls m @ [\<lparr>call_list = s, call_fun = DisableList (3 - s), call_args = Some a\<rparr>],
         mc_stack := Body s [(3 - s, Disable)] (Returns False) # rest\<rparr>"
      using second st f state_behaviour(2) [of user "mc_calls m" s "3 - s" "Some a"]
      by (simp add: cb_step_def next_call_def Let_def cb_def [symmetric])
    moreover have "phase_b s a \<dots>"
      by (rule b [where fr' = "Body s [(3 - s, Disable)] (Returns False)"])
         (use set [of "\<lambda>cb. cb\<lparr>cb_firingIndex := 1\<rparr>"] early second s in
            \<open>auto simp: early_def once_memory_def cb_def settler_call_def simp del: js_simps\<close>)
    ultimately show ?thesis by simp
  next
    case disable
    have o: "3 - s \<in> {1, 2}" "3 - (3 - s) = s" using s by auto
    note seto = set_settler [OF ok o(1), unfolded o(2)]
    have "cb_step (deferred_behaviour user) m = (set_list (3 - s) disable m)\<lparr>mc_stack := Body s [] (Returns False) # rest\<rparr>"
      using disable st by (simp add: cb_step_def operate_def set_list_def)
    moreover have "settled s a (mc_heap m ! s)" using early_settled [OF early] disable by (simp add: cb_def)
    moreover have "list_all (frame_ok (late_op s) {0, 3, 4, 5, s}) rest"
      by (rule frames_mono [OF st(2)]) (auto simp: late_op_def)
    moreover have "state_call s a \<in> set (mc_calls m)" using disable(3) by (metis filter_is_subset in_mono list.set_intros(1))
    ultimately have "phase_c s a (cb_step (deferred_behaviour user) m)"
      using s seto [of disable] idle_dead [OF idle] disable(3)
      by (simp add: phase_c_def frame_ok_def call_ok_def state_call_def)
    then show ?thesis by simp
  qed
qed

section \<open>Afterwards\<close>

lemma dead_op: "dead cb \<Longrightarrow> harmless (k, op) \<and> k \<in> {1, 2} \<or> op = Disable \<Longrightarrow> \<exists>cb'. list_op op cb = (cb', False) \<and> dead cb'"
  by (cases op) (auto simp: dead_def add_callbacks_def fireWith_def disable_def)

lemma settled_op:
  assumes "settled s a cb" "harmless (k, op)" "k \<in> {1, 2}"
  shows "settled s a (fst (list_op op cb))" "settled s a (begin_fire (fst (list_op op cb)))"
proof -
  have "settled s a (fst (list_op op cb))"
  proof (cases op)
    case (Add args)
    have "\<forall>f \<in> set (items (fst (add_callbacks args cb))). f \<in> set (settling_functions s) \<or> is_user f"
      using items_add [of args cb] assms(1,2) by (auto simp: Add settled_def list_all_iff)
    moreover have "once_memory (fst (add_callbacks args cb)) \<and> cb_locked (fst (add_callbacks args cb)) \<and>
        cb_memory (fst (add_callbacks args cb)) = Some a \<and> set (cb_queue (fst (add_callbacks args cb))) \<subseteq> {a}"
      using assms(1) by (auto simp: add_callbacks_def Let_def settled_def once_memory_def)
    ultimately show ?thesis by (simp add: Add settled_def)
  next
    case (FireWith b)
    then show ?thesis using assms(1) by (simp add: fireWith_def settled_def)
  qed (use assms(2,3) in auto)
  then show "settled s a (fst (list_op op cb))" "settled s a (begin_fire (fst (list_op op cb)))"
    by (simp_all add: settled_def begin_fire_def once_memory_def)
qed

lemma operate_c:
  assumes "phase_c s a m" "late_op s (k, op)"
  shows "phase_c s a (operate k op m)"
proof -
  have s: "s \<in> {1, 2}" and ok: "others_ok m" and dead: "dead (mc_heap m ! (3 - s))" and settled: "settled s a (mc_heap m ! s)"
    using assms(1) by (simp_all add: phase_c_def)
  have o: "3 - s \<in> {1, 2}" "3 - (3 - s) = s" using s by auto
  consider (other) "k \<in> {0, 3, 4, 5}" "harmless (k, op)" | (same) "k = s" "harmless (k, op)" | (spent) "k = 3 - s" "harmless (k, op) \<or> op = Disable"
  proof -
    have "k < 6" if "harmless (k, op)" using that by (cases op) auto
    then have "k \<in> {0, 3, 4, 5} \<or> k = s \<or> k = 3 - s" if "harmless (k, op)" using that s by force
    then show ?thesis using assms(2) that by (auto simp: late_op_def)
  qed
  then show ?thesis
  proof cases
    case other
    note op = operate_other [OF ok other]
    have "mc_heap (operate k op m) ! s = mc_heap m ! s" "mc_heap (operate k op m) ! (3 - s) = mc_heap m ! (3 - s)"
      using same_settlers_at [OF op(2)] s o(1) by auto
    then show ?thesis using assms(1) op(1,3,4) other(1) by (auto simp: phase_c_def frame_ok_def)
  next
    case same
    obtain cb b where cb: "list_op op (mc_heap m ! s) = (cb, b)" by (cases "list_op op (mc_heap m ! s)")
    then have "settled s a cb" "settled s a (begin_fire cb)" using settled_op [OF settled same(2)] s same(1) by auto
    then show ?thesis
      using assms(1) set_settler [OF ok s, of "\<lambda>_. cb"] set_settler [OF ok s, of "\<lambda>_. begin_fire cb"] cb
      by (cases b) (simp_all add: operate_def same(1) phase_c_def frame_ok_def)
  next
    case spent
    obtain cb where cb: "list_op op (mc_heap m ! k) = (cb, False)" "dead cb"
      using dead_op [OF dead, of k op] spent o(1) by auto
    then show ?thesis
      using assms(1) set_settler [OF ok o(1), of "\<lambda>_. cb"] by (simp add: operate_def spent(1) phase_c_def o(2))
  qed
qed

lemma settled_end_fire: "settled s a cb \<Longrightarrow> settled s a (end_fire cb)"
  by (simp add: settled_def end_fire_def once_memory_def once_memory_flags items_def del: js_simps)

lemma settling_behaviour:
  assumes "f \<in> set (settling_functions s) \<or> is_user f" "s \<in> {1, 2}" "call_fun (last calls) = f" "deferred_behaviour user calls = (ops, end)"
  shows "list_all (late_op s) ops"
proof (cases f)
  case (User u)
  then have "list_all harmless ops"
    using assms(3,4) concat_list_ops_harmless by (auto simp: deferred_behaviour_def split: prod.splits)
  then show ?thesis by (auto simp: late_op_def list_all_iff)
qed (use assms in \<open>auto simp: deferred_behaviour_def settling_functions_def late_op_def split: option.splits\<close>)

lemma settler_state_call [simp]: "settler_call (state_call s a)"
  by (simp add: settler_call_def state_call_def)

lemma state_call_filtered: "state_call s a \<in> set cs \<longleftrightarrow> state_call s a \<in> set (filter settler_call cs)"
  by simp

lemma phase_c_other:
  assumes "phase_c s a m" "others_ok m'" "same_settlers m m'" "filter settler_call (mc_calls m') = filter settler_call (mc_calls m)"
    and "list_all (frame_ok (late_op s) {0, 3, 4, 5, s}) (mc_stack m')"
  shows "phase_c s a m'"
proof -
  have s: "s \<in> {1, 2}" "3 - s \<in> {1, 2}" using assms(1) by (auto simp: phase_c_def)
  have "state_call s a \<in> set (mc_calls m') \<longleftrightarrow> state_call s a \<in> set (mc_calls m)"
    unfolding state_call_filtered [of s a "mc_calls m"] state_call_filtered [of s a "mc_calls m'"] assms(4) ..
  then show ?thesis
    using assms same_settlers_at [OF assms(3) s(1)] same_settlers_at [OF assms(3) s(2)] by (simp add: phase_c_def)
qed

lemma late_frames:
  assumes "list_all (frame_ok (late_op s) {0, 3, 4, 5, s}) rest" "k \<in> {0, 3, 4, 5}" "list_all harmless ops"
  shows "list_all (frame_ok (late_op s) {0, 3, 4, 5, s}) (NextFire k # rest)" "list_all (frame_ok (late_op s) {0, 3, 4, 5, s}) (NextCall k # rest)"
    "list_all (frame_ok (late_op s) {0, 3, 4, 5, s}) (Body k ops end # rest)"
  using assms by (auto simp: frame_ok_def list_all_iff late_op_def)

text \<open>The settling list itself goes on: its queue holds only what it was settled with.\<close>

lemma next_fire_settled:
  assumes "phase_c s a m" "list_all (frame_ok (late_op s) {0, 3, 4, 5, s}) rest"
  shows "phase_c s a (next_fire s rest m)"
proof -
  have s: "s \<in> {1, 2}" and ok: "others_ok m" and settled: "settled s a (mc_heap m ! s)" using assms(1) by (simp_all add: phase_c_def)
  show ?thesis
  proof (cases "cb_queue (mc_heap m ! s)")
    case Nil
    then show ?thesis
      using assms set_settler [OF ok s, of end_fire] settled_end_fire [OF settled] by (simp add: next_fire_def phase_c_def)
  next
    case (Cons b q)
    then have "settled s a ((mc_heap m ! s)\<lparr>cb_memory := Some b, cb_queue := q\<rparr>)"
      using settled by (auto simp: settled_def once_memory_def)
    then show ?thesis
      using assms set_settler [OF ok s, of "\<lambda>cb. cb\<lparr>cb_memory := Some b, cb_queue := q\<rparr>"] Cons
      by (simp add: next_fire_def phase_c_def frame_ok_def)
  qed
qed

lemma next_call_settled:
  assumes "phase_c s a m" "list_all (frame_ok (late_op s) {0, 3, 4, 5, s}) rest"
  shows "phase_c s a (next_call (deferred_behaviour user) s rest m)"
proof -
  have s: "s \<in> {1, 2}" and ok: "others_ok m" and settled: "settled s a (mc_heap m ! s)" using assms(1) by (simp_all add: phase_c_def)
  have moved: "settled s a ((mc_heap m ! s)\<lparr>cb_firingIndex := x\<rparr>)" for x using settled by (simp add: settled_def once_memory_def)
  define i where "i = nat (cb_firingIndex (mc_heap m ! s) + 1)"
  show ?thesis
  proof (cases "i < length (items (mc_heap m ! s))")
    case True
    define f where "f = items (mc_heap m ! s) ! i"
    define calls where "calls = mc_calls m @ [\<lparr>call_list = s, call_fun = f, call_args = Some a\<rparr>]"
    have f: "f \<in> set (settling_functions s) \<or> is_user f" using settled True by (simp add: settled_def f_def)
    obtain ops "end" where b: "deferred_behaviour user calls = (ops, end)" by (cases "deferred_behaviour user calls")
    have "list_all (late_op s) ops" by (rule settling_behaviour [OF f s _ b]) (simp add: calls_def)
    moreover have "next_call (deferred_behaviour user) s rest m =
        (set_list s (\<lambda>cb. cb\<lparr>cb_firingIndex := cb_firingIndex (mc_heap m ! s) + 1\<rparr>) m)\<lparr>mc_calls := calls, mc_stack := Body s ops end # rest\<rparr>"
      using True b settled by (simp add: next_call_def Let_def i_def [symmetric] f_def [symmetric] settled_def calls_def)
    moreover have "call_ok s a \<lparr>call_list = s, call_fun = f, call_args = Some a\<rparr>"
      using f by (auto simp: call_ok_def settling_functions_def)
    ultimately show ?thesis
      using assms set_settler [OF ok s, of "\<lambda>cb. cb\<lparr>cb_firingIndex := cb_firingIndex (mc_heap m ! s) + 1\<rparr>"] moved
      by (simp add: phase_c_def frame_ok_def calls_def)
  next
    case False
    then show ?thesis
      using assms set_settler [OF ok s, of "\<lambda>cb. cb\<lparr>cb_firingIndex := - 1\<rparr>"] moved
      by (simp add: next_call_def Let_def i_def [symmetric] phase_c_def frame_ok_def)
  qed
qed

lemma step_c:
  assumes "phase_c s a m"
  shows "phase_c s a (cb_step (deferred_behaviour user) m)"
proof (cases "mc_stack m")
  case Nil
  then show ?thesis using assms by (simp add: cb_step_def)
next
  case (Cons fr rest)
  note st = Cons
  let ?ok = "list_all (frame_ok (late_op s) {0, 3, 4, 5, s})"
  have ok: "others_ok m" and s: "s \<in> {1, 2}" and rest: "?ok rest" and fr: "frame_ok (late_op s) {0, 3, 4, 5, s} fr"
    using assms Cons by (auto simp: phase_c_def)
  have popped: "phase_c s a (m\<lparr>mc_stack := st\<rparr>)" if "?ok st" for st
    using assms that by (simp add: phase_c_def)
  show ?thesis
  proof (cases fr)
    case (Script ops)
    show ?thesis
    proof (cases ops)
      case (Cons kop ops')
      obtain k op where kop: "kop = (k, op)" by (cases kop)
      have "phase_c s a (m\<lparr>mc_stack := Script ops' # rest\<rparr>)" "late_op s (k, op)"
        using fr rest by (auto simp: Script Cons kop frame_ok_def intro: popped)
      from operate_c [OF this] show ?thesis using st by (simp add: cb_step_def Script Cons kop)
    qed (use popped [OF rest] st in \<open>simp add: cb_step_def Script\<close>)
  next
    case (NextFire k)
    show ?thesis
    proof (cases "k = s")
      case False
      then have k: "k \<in> {0, 3, 4, 5}" using fr by (auto simp: NextFire frame_ok_def)
      note nx = next_fire_other [OF ok k, of rest]
      have "phase_c s a (next_fire k rest m)"
        by (rule phase_c_other [OF assms nx(1,2)]) (use nx(3,4) rest late_frames [OF rest k, of "[]"] in auto)
      then show ?thesis using st by (simp add: cb_step_def NextFire)
    qed (use next_fire_settled [OF assms rest] st in \<open>simp add: cb_step_def NextFire\<close>)
  next
    case (NextCall k)
    show ?thesis
    proof (cases "k = s")
      case False
      then have k: "k \<in> {0, 3, 4, 5}" using fr by (auto simp: NextCall frame_ok_def)
      note nx = next_call_other [OF ok k, of user rest]
      have "phase_c s a (next_call (deferred_behaviour user) k rest m)"
        by (rule phase_c_other [OF assms nx(1,2,3)]) (use nx(4) late_frames(1) [OF rest k, of "[]"] late_frames(3) [OF rest k] in auto)
      then show ?thesis using st by (simp add: cb_step_def NextCall)
    qed (use next_call_settled [OF assms rest, of user] st in \<open>simp add: cb_step_def NextCall\<close>)
  next
    case (Body k ops "end")
    show ?thesis
    proof (cases ops)
      case (Cons jop ops')
      obtain j op where jop: "jop = (j, op)" by (cases jop)
      have "phase_c s a (m\<lparr>mc_stack := Body k ops' end # rest\<rparr>)" "late_op s (j, op)"
        using fr rest by (auto simp: Body Cons jop frame_ok_def intro: popped)
      from operate_c [OF this] show ?thesis using st by (simp add: cb_step_def Body Cons jop)
    next
      case Nil
      show ?thesis
      proof (cases "end")
        case Throws
        then show ?thesis using st assms by (simp add: cb_step_def Body Nil phase_c_def)
      next
        case (Returns b)
        show ?thesis
        proof (cases "k = s")
          case True
          have "after_call b (mc_heap m ! s) = mc_heap m ! s"
            using assms by (auto simp: phase_c_def settled_def intro: after_call_once_memory)
          then have "set_list s (after_call b) m = m" by (rule set_list_same)
          moreover have "phase_c s a (m\<lparr>mc_stack := NextCall s # rest\<rparr>)" by (rule popped) (use rest in \<open>simp add: frame_ok_def\<close>)
          ultimately show ?thesis using st by (simp add: cb_step_def Body Nil Returns True)
        next
          case False
          then have k: "k \<in> {0, 3, 4, 5}" using fr by (auto simp: Body frame_ok_def)
          have "\<forall>f \<in> set (items (after_call b (mc_heap m ! k))). calm f" using ok k by (auto simp: others_ok_def)
          note set = others_ok_set_list [OF ok k, of "after_call b", OF this]
          have "phase_c s a ((set_list k (after_call b) m)\<lparr>mc_stack := NextCall k # rest\<rparr>)"
            by (rule phase_c_other [OF assms]) (use set late_frames [OF rest k, of "[]"] in auto)
          then show ?thesis using st by (simp add: cb_step_def Body Nil Returns)
        qed
      qed
    qed
  qed
qed

section \<open>The invariant\<close>

definition deferred_inv :: "('u df_fun, 'a) machine \<Rightarrow> bool" where
  "deferred_inv m \<longleftrightarrow> phase_a m \<or> (\<exists>s a. phase_b s a m \<or> phase_c s a m)"

lemma deferred_inv_step: "deferred_inv m \<Longrightarrow> deferred_inv (cb_step (deferred_behaviour user) m)"
  unfolding deferred_inv_def using step_a step_b step_c by metis

lemma deferred_lists_start:
  "deferred_lists =
     [(Callbacks (createOptions (js ''memory'')))\<lparr>cb_list := Some [FireList 3]\<rparr>,
      (Callbacks (createOptions (js ''once memory'')))\<lparr>cb_list := Some (settling_functions 1)\<rparr>,
      (Callbacks (createOptions (js ''once memory'')))\<lparr>cb_list := Some (settling_functions 2)\<rparr>,
      Callbacks (createOptions (js ''memory'')), Callbacks (createOptions (js ''once memory'')),
      Callbacks (createOptions (js ''once memory''))]"
proof -
  have memory: "\<not> flag (js ''unique'') (createOptions (js ''memory''))" by code_simp
  have add: "fst (add_callbacks (map Fn fs) (Callbacks opts)) = (Callbacks opts)\<lparr>cb_list := Some fs\<rparr>" if "\<not> flag (js ''unique'') opts" for fs :: "'u df_fun list" and opts
  proof -
    have "concat (map arg_functions (map Fn fs)) = fs" by (induction fs) auto
    then show ?thesis using that by (simp add: add_callbacks_def fold_push_callback [where gs = "[]"] Callbacks_def del: js_simps)
  qed
  show ?thesis
    by (simp add: deferred_lists_def tuple_functions_settling add memory once_memory_flags tuples_def del: js_simps)
       (simp add: tuple_functions_def tuples_def handlers_of_def del: js_simps)
qed

lemma start_phase_a: "phase_a (start_deferred ops :: ('u df_fun, 'a) machine)"
  using concat_list_ops_harmless [of ops]
  by (simp add: phase_a_def start_deferred_def start_machine_def deferred_lists_start others_ok_def idle_def once_memory_def frame_ok_def
      Callbacks_def items_def settling_functions_def del: js_simps)

interpretation settling: machine_invariant "deferred_behaviour user" deferred_inv
  by unfold_locales (rule deferred_inv_step)

lemma deferred_reachable_inv:
  assumes "cb_reachable (deferred_behaviour user) (start_deferred ops) m"
  shows "deferred_inv m"
  by (rule settling.reachable [OF assms]) (simp add: deferred_inv_def start_phase_a)

text \<open>What the invariant says of the calls.\<close>

definition one_outcome :: "('u df_fun, 'a) call list \<Rightarrow> bool" where
  "one_outcome calls \<longleftrightarrow> (\<exists>s a. s \<in> {1, 2} \<and> (\<forall>c \<in> set calls. call_list c \<in> {callbacks_of 1, callbacks_of 2} \<longrightarrow>
     call_list c = callbacks_of s \<and> call_args c = Some a \<and> (is_user (call_fun c) \<longrightarrow> deferred_state calls = state_name s)))"

lemma deferred_state_settled:
  assumes "\<forall>c \<in> set calls. \<forall>x. call_fun c = SetState x \<longrightarrow> x = n" "\<exists>c \<in> set calls. \<exists>x. call_fun c = SetState x"
  shows "deferred_state calls = n"
  using assms
proof (induction calls rule: rev_induct)
  case (snoc c calls)
  show ?case
  proof (cases "\<exists>x. call_fun c = SetState x")
    case False
    then have "deferred_state (calls @ [c]) = deferred_state calls" by (simp add: deferred_state_def split: df_fun.split)
    then show ?thesis using snoc False by auto
  qed (use snoc.prems(1) in \<open>auto simp: deferred_state_def\<close>)
qed simp

lemma early_calls:
  "early s a cb fr calls \<Longrightarrow> \<forall>c \<in> set calls. call_list c = s \<and> call_args c = Some a \<and> \<not> is_user (call_fun c)"
  by (auto simp: early_def state_call_def)

lemma deferred_inv_outcome:
  fixes m :: "('u df_fun, 'a) machine"
  assumes "deferred_inv m"
  shows "one_outcome (mc_calls m)"
proof -
  have settler: "call_list c \<in> {1, 2} \<Longrightarrow> settler_call c" "call_fun c = SetState x \<Longrightarrow> settler_call c" for c :: "('u df_fun, 'a) call" and x
    by (simp_all add: settler_call_def)
  consider (a) "phase_a m" | (b) s a where "phase_b s a m" | (c) s a where "phase_c s a m" using assms by (auto simp: deferred_inv_def)
  then show ?thesis
  proof cases
    case a
    then have "\<forall>c \<in> set (mc_calls m). \<not> settler_call c" by (auto simp: phase_a_def filter_empty_conv)
    then have "\<forall>c \<in> set (mc_calls m). call_list c \<notin> {1, 2}" using settler(1) by auto
    then show ?thesis unfolding one_outcome_def callbacks_of_def by (intro exI [of _ 1] exI [of _ undefined]) simp
  next
    case (b s a)
    then have calls: "\<forall>c \<in> set (filter settler_call (mc_calls m)). call_list c = s \<and> call_args c = Some a \<and> \<not> is_user (call_fun c)" 
      using early_calls unfolding phase_b_def by fast
    have "s \<in> {1, 2}" using \<open>phase_b s a m\<close> by (simp add: phase_b_def)
    have "\<forall>c \<in> set (mc_calls m). call_list c \<in> {1, 2} \<longrightarrow> call_list c = s \<and> call_args c = Some a \<and> \<not> is_user (call_fun c)"
    proof (intro ballI impI)
      fix c assume "c \<in> set (mc_calls m)" "call_list c \<in> {1, 2}"
      then have "c \<in> set (filter settler_call (mc_calls m))" using settler(1) [of c] by simp
      then show "call_list c = s \<and> call_args c = Some a \<and> \<not> is_user (call_fun c)" using calls by blast
    qed
    then show ?thesis
      using \<open>s \<in> {1, 2}\<close> unfolding one_outcome_def callbacks_of_def by (intro exI [of _ s] exI [of _ a]) simp
  next
    case (c s a)
    then have calls: "\<forall>c \<in> set (mc_calls m). settler_call c \<longrightarrow> call_ok s a c" and s: "s \<in> {1, 2}"
      by (auto simp: phase_c_def list_all_iff)
    have "deferred_state (mc_calls m) = state_name s"
    proof (rule deferred_state_settled)
      show "\<forall>c \<in> set (mc_calls m). \<forall>x. call_fun c = SetState x \<longrightarrow> x = state_name s"
        using calls settler(2) by (fastforce simp: call_ok_def)
      show "\<exists>c \<in> set (mc_calls m). \<exists>x. call_fun c = SetState x"
        using c unfolding phase_c_def state_call_def by (metis call.select_convs(2))
    qed
    moreover have "\<forall>c \<in> set (mc_calls m). call_list c \<in> {1, 2} \<longrightarrow> call_list c = s \<and> call_args c = Some a"
    proof (intro ballI impI)
      fix c assume "c \<in> set (mc_calls m)" "call_list c \<in> {1, 2}"
      then show "call_list c = s \<and> call_args c = Some a" using calls settler(1) [of c] unfolding call_ok_def by blast
    qed
    ultimately show ?thesis
      using s unfolding one_outcome_def callbacks_of_def by (intro exI [of _ s] exI [of _ a]) simp
  qed
qed

lemma reachable_steps: "cb_reachable beh m ((cb_step beh ^^ n) m)"
  by (induction n) (auto intro: cb_reachable.intros)

end
