(* ===== verification/JQuery_Events.thy ===== *)
theory JQuery_Events
  imports JQuery_Callbacks Validate_Result "HOL-Library.List_Lexorder"
begin

text \<open>
  The events of \<open>jquery.js\<close>: the tables of handlers \<open>jQuery.event\<close> keeps for an element, adding to them and
  removing from them, and the dispatch of an event to delegated and direct handlers.
\<close>

section \<open>Handlers\<close>

text \<open>A handler with its identity \<open>guid\<close>; no namespace at all makes it universal.\<close>

record 'h handle_obj =
  ho_type :: jstring
  ho_origType :: jstring
  ho_handler :: 'h
  ho_guid :: nat
  ho_selector :: "jstring option"
  ho_namespace :: "jstring option"

record 'h type_handlers =
  th_list :: "'h handle_obj list"
  th_delegateCount :: nat

text \<open>What an element has: its table, while there is one, and its native listeners.\<close>

record 'h event_data =
  ev_events :: "'h type_handlers obj option"
  ev_listeners :: "jstring list"

text \<open>
  The special handling of a type: other types to bind or delegate under, and whether its own setup
  and teardown take the place of the native listener.
\<close>

record special =
  sp_bindType :: "jstring option"
  sp_delegateType :: "jstring option"
  sp_setup :: bool
  sp_teardown :: bool

definition no_special :: special where
  "no_special = \<lparr>sp_bindType = None, sp_delegateType = None, sp_setup = False, sp_teardown = False\<rparr>"

definition special_of :: "special obj \<Rightarrow> jstring \<Rightarrow> special" where
  "special_of specials type = (case obj_get specials type of None \<Rightarrow> no_special | Some s \<Rightarrow> s)"

definition truthy_text :: "jstring option \<Rightarrow> bool" where
  "truthy_text t \<longleftrightarrow> (case t of None \<Rightarrow> False | Some s \<Rightarrow> s \<noteq> [])"

definition special_type :: "special obj \<Rightarrow> jstring option \<Rightarrow> jstring \<Rightarrow> jstring" where
  "special_type specials selector type =
     (let sp = special_of specials type; other = (if truthy_text selector then sp_delegateType sp else sp_bindType sp)
      in if truthy_text other then the other else type)"

text \<open>\<open>rtypenamespace\<close>: the type up to the first dot, and what is behind it if that is not empty.\<close>

definition type_part :: "jstring \<Rightarrow> jstring" where
  "type_part s = takeWhile (\<lambda>c. c \<noteq> 46) s"

definition namespace_part :: "jstring \<Rightarrow> jstring" where
  "namespace_part s = drop 1 (dropWhile (\<lambda>c. c \<noteq> 46) s)"

definition namespaces_of :: "jstring \<Rightarrow> jstring list" where
  "namespaces_of s = sort (split_char 46 (namespace_part s))"

definition event_words :: "jstring \<Rightarrow> jstring list" where
  "event_words types = (case html_words types of [] \<Rightarrow> [[]] | ws \<Rightarrow> ws)"

section \<open>Adding\<close>

definition no_handlers :: "'h type_handlers" where
  "no_handlers = \<lparr>th_list = [], th_delegateCount = 0\<rparr>"

text \<open>Delegates go in front of the direct handlers, behind the other delegates.\<close>

definition insert_handler :: "'h handle_obj \<Rightarrow> 'h type_handlers \<Rightarrow> 'h type_handlers" where
  "insert_handler h hs =
     (if truthy_text (ho_selector h) then
        hs\<lparr>th_list := take (th_delegateCount hs) (th_list hs) @ h # drop (th_delegateCount hs) (th_list hs),
          th_delegateCount := th_delegateCount hs + 1\<rparr>
      else hs\<lparr>th_list := th_list hs @ [h]\<rparr>)"

definition table :: "'h event_data \<Rightarrow> 'h type_handlers obj" where
  "table ev = (case ev_events ev of None \<Rightarrow> [] | Some t \<Rightarrow> t)"

definition add_word :: "special obj \<Rightarrow> 'h \<Rightarrow> nat \<Rightarrow> jstring option \<Rightarrow> 'h event_data \<Rightarrow> jstring \<Rightarrow> 'h event_data" where
  "add_word specials handler guid selector ev w =
     (let origType = type_part w
      in if origType = [] then ev
         else
           let type = special_type specials selector origType;
               h = \<lparr>ho_type = type, ho_origType = origType, ho_handler = handler, ho_guid = guid, ho_selector = selector,
                 ho_namespace = Some (join_with [46] (namespaces_of w))\<rparr>
           in case obj_get (table ev) type of
                Some hs \<Rightarrow> ev\<lparr>ev_events := Some (obj_set type (insert_handler h hs) (table ev))\<rparr>
              | None \<Rightarrow> ev\<lparr>ev_events := Some (obj_set type (insert_handler h no_handlers) (table ev)),
                  ev_listeners := (if sp_setup (special_of specials type) then ev_listeners ev else ev_listeners ev @ [type])\<rparr>)"

text \<open>The words are taken from the last to the first; an element without a table gets one in any case.\<close>

definition event_add :: "special obj \<Rightarrow> jstring \<Rightarrow> 'h \<Rightarrow> nat \<Rightarrow> jstring option \<Rightarrow> 'h event_data \<Rightarrow> 'h event_data" where
  "event_add specials types handler guid selector ev =
     foldl (add_word specials handler guid selector) (ev\<lparr>ev_events := Some (table ev)\<rparr>) (rev (event_words types))"

section \<open>Removing\<close>

text \<open>The expression the namespaces of a handler must match: those given, in order, with anything between.\<close>

definition namespace_source :: "jstring list \<Rightarrow> jstring" where
  "namespace_source ns = source_text ''(^|~.)'' @ join_with (source_text ''~.(?:.*~.|)'') ns @ source_text ''(~.|$)''"

datatype namespace_test = AnyNamespace | Matching rx

definition namespace_test_of :: "jstring \<Rightarrow> js_error + namespace_test" where
  "namespace_test_of w =
     (if namespace_part w = [] then Inr AnyNamespace
      else case RegExp (namespace_source (namespaces_of w)) of None \<Rightarrow> Inl SyntaxError | Some r \<Rightarrow> Inr (Matching r))"

definition passes :: "namespace_test \<Rightarrow> jstring option \<Rightarrow> bool" where
  "passes t ns \<longleftrightarrow> (case t of AnyNamespace \<Rightarrow> True
     | Matching r \<Rightarrow> rx_test False r (case ns of None \<Rightarrow> js ''false'' | Some s \<Rightarrow> s))"

text \<open>Which handlers are meant: by type, identity, namespaces and selector, two asterisks for any.\<close>

definition is_meant :: "bool \<Rightarrow> jstring \<Rightarrow> nat option \<Rightarrow> namespace_test \<Rightarrow> jstring option \<Rightarrow> 'h handle_obj \<Rightarrow> bool" where
  "is_meant mappedTypes origType guid t selector h \<longleftrightarrow>
     (mappedTypes \<or> origType = ho_origType h) \<and> (case guid of None \<Rightarrow> True | Some g \<Rightarrow> g = ho_guid h) \<and> passes t (ho_namespace h) \<and>
     (\<not> truthy_text selector \<or> selector = ho_selector h \<or> selector = Some (js ''**'') \<and> truthy_text (ho_selector h))"

text \<open>The loop goes from the last handler to the first; what is kept stays in order.\<close>

definition drop_handlers :: "('h handle_obj \<Rightarrow> bool) \<Rightarrow> 'h type_handlers \<Rightarrow> 'h type_handlers" where
  "drop_handlers P hs =
     foldr (\<lambda>h acc. if P h then acc\<lparr>th_delegateCount := (if truthy_text (ho_selector h) then th_delegateCount acc - 1 else th_delegateCount acc)\<rparr>
         else acc\<lparr>th_list := h # th_list acc\<rparr>)
       (th_list hs) (hs\<lparr>th_list := []\<rparr>)"

definition remove_word :: "special obj \<Rightarrow> nat option \<Rightarrow> jstring option \<Rightarrow> bool \<Rightarrow> jstring \<Rightarrow> 'h event_data \<Rightarrow> js_error + 'h event_data" where
  "remove_word specials guid selector mappedTypes w ev =
     (let origType = type_part w; type = special_type specials selector origType
      in case namespace_test_of w of
           Inl e \<Rightarrow> Inl e
         | Inr t \<Rightarrow>
             (case obj_get (table ev) type of
                None \<Rightarrow> Inr ev
              | Some hs \<Rightarrow>
                  (let left = drop_handlers (is_meant mappedTypes origType guid t selector) hs
                   in if th_list hs \<noteq> [] \<and> th_list left = [] then
                        Inr (ev\<lparr>ev_events := Some (obj_delete type (table ev)),
                          ev_listeners := (if sp_teardown (special_of specials type) then ev_listeners ev
                            else filter (\<lambda>l. l \<noteq> type) (ev_listeners ev))\<rparr>)
                      else Inr (ev\<lparr>ev_events := Some (obj_set type left (table ev))\<rparr>))))"

definition bind_result :: "js_error + 'a \<Rightarrow> ('a \<Rightarrow> js_error + 'b) \<Rightarrow> js_error + 'b" where
  "bind_result r f = (case r of Inl e \<Rightarrow> Inl e | Inr x \<Rightarrow> f x)"

text \<open>A word without a type stands for all types the element has handlers for.\<close>

definition remove_types :: "special obj \<Rightarrow> nat option \<Rightarrow> jstring option \<Rightarrow> 'h event_data \<Rightarrow> jstring \<Rightarrow> js_error + 'h event_data" where
  "remove_types specials guid selector ev w =
     (if type_part w = [] then
        foldl (\<lambda>r k. bind_result r (\<lambda>ev. if obj_get (table ev) k = None then Inr ev else remove_word specials guid selector True (k @ w) ev))
          (Inr ev) (obj_keys (table ev))
      else remove_word specials guid selector False w ev)"

definition forget_empty :: "'h event_data \<Rightarrow> 'h event_data" where
  "forget_empty ev = (if ev_events ev = Some [] then ev\<lparr>ev_events := None\<rparr> else ev)"

definition event_remove :: "special obj \<Rightarrow> jstring \<Rightarrow> nat option \<Rightarrow> jstring option \<Rightarrow> 'h event_data \<Rightarrow> js_error + 'h event_data" where
  "event_remove specials types guid selector ev =
     (case ev_events ev of
        None \<Rightarrow> Inr ev
      | Some _ \<Rightarrow>
          bind_result (foldl (\<lambda>r w. bind_result r (\<lambda>ev. remove_types specials guid selector ev w)) (Inr ev) (rev (event_words types)))
            (\<lambda>ev. Inr (forget_empty ev)))"

section \<open>Dispatch\<close>

record path_node =
  pn_node :: nat
  pn_is_element :: bool
  pn_disabled :: bool

record dom_event =
  de_type :: jstring
  de_button :: int
  de_path :: "path_node list" \<comment> \<open>from the target up to, but not including, the element that listens\<close>
  de_rnamespace :: "rx option"

definition is_click :: "dom_event \<Rightarrow> bool" where
  "is_click event \<longleftrightarrow> de_type event = js ''click''"

text \<open>The queue: for every element on the path its matching delegates, and last the direct handlers.\<close>

definition delegates_at :: "(jstring \<Rightarrow> nat \<Rightarrow> bool) \<Rightarrow> 'h type_handlers \<Rightarrow> path_node \<Rightarrow> 'h handle_obj list" where
  "delegates_at matches hs cur =
     filter (\<lambda>h. matches (case ho_selector h of None \<Rightarrow> [] | Some s \<Rightarrow> s) (pn_node cur)) (take (th_delegateCount hs) (th_list hs))"

definition event_handlers :: "(jstring \<Rightarrow> nat \<Rightarrow> bool) \<Rightarrow> nat \<Rightarrow> dom_event \<Rightarrow> 'h type_handlers \<Rightarrow> (nat \<times> 'h handle_obj list) list" where
  "event_handlers matches this event hs =
     (if th_delegateCount hs \<noteq> 0 \<and> \<not> (is_click event \<and> de_button event \<ge> 1) then
        filter (\<lambda>(_, l). l \<noteq> [])
          (map (\<lambda>cur. (pn_node cur, delegates_at matches hs cur))
            (filter (\<lambda>cur. pn_is_element cur \<and> \<not> (is_click event \<and> pn_disabled cur)) (de_path event)))
      else []) @
     (if th_delegateCount hs < length (th_list hs) then [(this, drop (th_delegateCount hs) (th_list hs))] else [])"

text \<open>What a handler does to the event, and what it gives back; the flags of the event so far.\<close>

datatype handler_return = Undefined | GivesFalse | GivesOther

record handler_effect =
  he_return :: handler_return
  he_stop :: bool
  he_stopImmediate :: bool
  he_prevent :: bool

record 'h event_run =
  er_calls :: "(nat \<times> 'h handle_obj) list"
  er_stopped :: bool
  er_immediate :: bool
  er_prevented :: bool
  er_result :: handler_return

definition call_handler :: "((nat \<times> 'h handle_obj) list \<Rightarrow> handler_effect) \<Rightarrow> nat \<Rightarrow> 'h event_run \<Rightarrow> 'h handle_obj \<Rightarrow> 'h event_run" where
  "call_handler beh elem r h =
     (let calls = er_calls r @ [(elem, h)]; e = beh calls; no = (he_return e = GivesFalse)
      in r\<lparr>er_calls := calls,
         er_stopped := (er_stopped r \<or> he_stop e \<or> he_stopImmediate e \<or> no),
         er_immediate := (er_immediate r \<or> he_stopImmediate e),
         er_prevented := (er_prevented r \<or> he_prevent e \<or> no),
         er_result := (if he_return e = Undefined then er_result r else he_return e)\<rparr>)"

definition wants :: "dom_event \<Rightarrow> 'h handle_obj \<Rightarrow> bool" where
  "wants event h \<longleftrightarrow> (case de_rnamespace event of
       None \<Rightarrow> True | Some t \<Rightarrow> (case ho_namespace h of None \<Rightarrow> True | Some ns \<Rightarrow> rx_test False t ns))"

fun run_handlers :: "((nat \<times> 'h handle_obj) list \<Rightarrow> handler_effect) \<Rightarrow> dom_event \<Rightarrow> nat \<Rightarrow> 'h handle_obj list \<Rightarrow> 'h event_run \<Rightarrow> 'h event_run" where
  "run_handlers beh event elem [] r = r"
| "run_handlers beh event elem (h # hs) r =
     (if er_immediate r then r
      else run_handlers beh event elem hs (if wants event h then call_handler beh elem r h else r))"

fun run_queue :: "((nat \<times> 'h handle_obj) list \<Rightarrow> handler_effect) \<Rightarrow> dom_event \<Rightarrow> (nat \<times> 'h handle_obj list) list \<Rightarrow> 'h event_run \<Rightarrow> 'h event_run" where
  "run_queue beh event [] r = r"
| "run_queue beh event ((elem, hs) # q) r =
     (if er_stopped r then r else run_queue beh event q (run_handlers beh event elem hs r))"

definition event_dispatch ::
  "(jstring \<Rightarrow> nat \<Rightarrow> bool) \<Rightarrow> ((nat \<times> 'h handle_obj) list \<Rightarrow> handler_effect) \<Rightarrow> nat \<Rightarrow> dom_event \<Rightarrow> 'h event_data \<Rightarrow> 'h event_run" where
  "event_dispatch matches beh this event ev =
     (let hs = (case obj_get (table ev) (de_type event) of None \<Rightarrow> no_handlers | Some hs \<Rightarrow> hs)
      in run_queue beh event (event_handlers matches this event hs)
           \<lparr>er_calls = [], er_stopped = False, er_immediate = False, er_prevented = False, er_result = Undefined\<rparr>)"

text \<open>
  Facts on the event tables: what adding and removing keep of a table, which handlers a removal leaves,
  and in which order a dispatch calls them.
\<close>

section \<open>Delegates first\<close>

abbreviation is_delegate :: "'h handle_obj \<Rightarrow> bool" where
  "is_delegate h \<equiv> truthy_text (ho_selector h)"

definition delegates_first :: "'h type_handlers \<Rightarrow> bool" where
  "delegates_first hs \<longleftrightarrow>
     list_all is_delegate (take (th_delegateCount hs) (th_list hs)) \<and>
     list_all (\<lambda>h. \<not> is_delegate h) (drop (th_delegateCount hs) (th_list hs)) \<and> th_delegateCount hs \<le> length (th_list hs)"

lemma delegates_firstI:
  assumes "th_list hs = ds @ rs" "th_delegateCount hs = length ds" "list_all is_delegate ds" "list_all (\<lambda>h. \<not> is_delegate h) rs"
  shows "delegates_first hs"
  using assms by (simp add: delegates_first_def)

lemma delegates_firstE:
  assumes "delegates_first hs"
  obtains ds rs where "th_list hs = ds @ rs" "th_delegateCount hs = length ds" "list_all is_delegate ds" "list_all (\<lambda>h. \<not> is_delegate h) rs"
  using assms that [of "take (th_delegateCount hs) (th_list hs)" "drop (th_delegateCount hs) (th_list hs)"]
  by (simp add: delegates_first_def)

lemma delegates_filter:
  assumes "list_all is_delegate ds" "list_all (\<lambda>h. \<not> is_delegate h) rs"
  shows "filter is_delegate (ds @ rs) = ds" "filter (\<lambda>h. \<not> is_delegate h) (ds @ rs) = rs"
  using assms by (simp_all add: list_all_iff filter_id_conv)

lemma no_handlers_first: "delegates_first no_handlers"
  by (simp add: delegates_first_def no_handlers_def)

lemma insert_handler_first:
  assumes "delegates_first hs"
  shows "delegates_first (insert_handler h hs)"
  using assms
proof (rule delegates_firstE)
  fix ds rs
  assume hs: "th_list hs = ds @ rs" "th_delegateCount hs = length ds" "list_all is_delegate ds" "list_all (\<lambda>h. \<not> is_delegate h) rs"
  show ?thesis
  proof (cases "is_delegate h")
    case True
    then show ?thesis
      using hs by (intro delegates_firstI [where ds = "ds @ [h]" and rs = rs]) (simp_all add: insert_handler_def)
  next
    case False
    then show ?thesis
      using hs by (intro delegates_firstI [where ds = ds and rs = "rs @ [h]"]) (simp_all add: insert_handler_def)
  qed
qed

text \<open>The order among delegates and among direct handlers is that of adding.\<close>

lemma insert_handler_list:
  assumes "delegates_first hs"
  shows "filter is_delegate (th_list (insert_handler h hs)) = filter is_delegate (th_list hs) @ (if is_delegate h then [h] else [])"
    "filter (\<lambda>h. \<not> is_delegate h) (th_list (insert_handler h hs))
       = filter (\<lambda>h. \<not> is_delegate h) (th_list hs) @ (if is_delegate h then [] else [h])"
  using assms
  by (rule delegates_firstE; simp add: insert_handler_def filter_id_conv list_all_iff)+

lemma drop_handlers_fold:
  "foldr (\<lambda>h acc. if P h then acc\<lparr>th_delegateCount := (if is_delegate h then th_delegateCount acc - 1 else th_delegateCount acc)\<rparr>
       else acc\<lparr>th_list := h # th_list acc\<rparr>) xs (hs\<lparr>th_list := []\<rparr>)
   = hs\<lparr>th_list := filter (\<lambda>h. \<not> P h) xs, th_delegateCount := th_delegateCount hs - length (filter (\<lambda>h. P h \<and> is_delegate h) xs)\<rparr>"
  by (induction xs) auto

lemma drop_handlers_list: "th_list (drop_handlers P hs) = filter (\<lambda>h. \<not> P h) (th_list hs)"
  unfolding drop_handlers_def drop_handlers_fold by simp

lemma drop_handlers_first:
  assumes "delegates_first hs"
  shows "delegates_first (drop_handlers P hs)"
  using assms
proof (rule delegates_firstE)
  fix ds rs
  assume hs: "th_list hs = ds @ rs" "th_delegateCount hs = length ds" "list_all is_delegate ds" "list_all (\<lambda>h. \<not> is_delegate h) rs"
  have "filter (\<lambda>h. P h \<and> is_delegate h) (ds @ rs) = filter P ds"
    using hs(3,4) by (simp add: list_all_iff cong: filter_cong)
  moreover have "length ds - length (filter P ds) = length (filter (\<lambda>h. \<not> P h) ds)"
    using sum_length_filter_compl [of P ds] by simp
  ultimately have "th_delegateCount (drop_handlers P hs) = length (filter (\<lambda>h. \<not> P h) ds)"
    unfolding drop_handlers_def drop_handlers_fold hs(1) hs(2) by simp
  then show ?thesis
    using hs by (intro delegates_firstI [where ds = "filter (\<lambda>h. \<not> P h) ds" and rs = "filter (\<lambda>h. \<not> P h) rs"])
      (simp_all add: drop_handlers_list list_all_iff)
qed

section \<open>Tables\<close>

text \<open>Specials whose teardown mirrors their setup.\<close>

definition specials_ok :: "special obj \<Rightarrow> bool" where
  "specials_ok specials \<longleftrightarrow> (\<forall>type. sp_setup (special_of specials type) = sp_teardown (special_of specials type))"

text \<open>
  Every list of a table is inhabited and has its delegates first, and there is a native listener exactly
  for the types that have handlers and no setup of their own, and only one.
\<close>

definition events_ok :: "special obj \<Rightarrow> 'h event_data \<Rightarrow> bool" where
  "events_ok specials ev \<longleftrightarrow> obj_ok (table ev) \<and>
     (\<forall>type hs. obj_get (table ev) type = Some hs \<longrightarrow> delegates_first hs \<and> th_list hs \<noteq> []) \<and> distinct (ev_listeners ev) \<and>
     (\<forall>type. type \<in> set (ev_listeners ev) \<longleftrightarrow> obj_get (table ev) type \<noteq> None \<and> \<not> sp_setup (special_of specials type))"

lemma table_update [simp]: "table (ev\<lparr>ev_events := Some t\<rparr>) = t" "table (ev\<lparr>ev_events := Some t, ev_listeners := l\<rparr>) = t"
  by (simp_all add: table_def)

lemma insert_not_empty: "th_list (insert_handler h hs) \<noteq> []"
  by (simp add: insert_handler_def)

lemma add_word_ok:
  assumes "events_ok specials ev"
  shows "events_ok specials (add_word specials handler guid selector ev w)"
proof (cases "type_part w = []")
  case True
  then show ?thesis using assms by (simp add: add_word_def)
next
  case False
  define type where "type = special_type specials selector (type_part w)"
  define h where "h = \<lparr>ho_type = type, ho_origType = type_part w, ho_handler = handler, ho_guid = guid, ho_selector = selector,
    ho_namespace = Some (join_with [46] (namespaces_of w))\<rparr>"
  show ?thesis
  proof (cases "obj_get (table ev) type")
    case None
    then have "type \<notin> set (ev_listeners ev)" using assms by (simp add: events_ok_def)
    then show ?thesis
      using assms None False insert_handler_first [OF no_handlers_first, of h]
      by (auto simp: add_word_def Let_def type_def [symmetric] h_def [symmetric] events_ok_def insert_not_empty)
  next
    case (Some hs)
    then have "delegates_first hs" using assms by (simp add: events_ok_def)
    from insert_handler_first [OF this, of h] show ?thesis
      using assms Some False
      by (auto simp: add_word_def Let_def type_def [symmetric] h_def [symmetric] events_ok_def insert_not_empty)
  qed
qed

lemma fold_add_word_ok:
  "events_ok specials ev \<Longrightarrow> events_ok specials (foldl (add_word specials handler guid selector) ev ws)"
  by (induction ws arbitrary: ev) (simp_all add: add_word_ok)

lemma event_add_ok:
  assumes "events_ok specials ev"
  shows "events_ok specials (event_add specials types handler guid selector ev)"
proof -
  have "events_ok specials (ev\<lparr>ev_events := Some (table ev)\<rparr>)" using assms by (simp add: events_ok_def)
  then show ?thesis by (simp add: event_add_def fold_add_word_ok)
qed

lemma remove_word_ok:
  assumes "events_ok specials ev" "specials_ok specials" "remove_word specials guid selector mapped w ev = Inr ev'"
  shows "events_ok specials ev'"
proof -
  define type where "type = special_type specials selector (type_part w)"
  obtain t where t: "namespace_test_of w = Inr t" using assms(3) by (auto simp: remove_word_def Let_def split: sum.splits)
  show ?thesis
  proof (cases "obj_get (table ev) type")
    case None
    then show ?thesis using assms(1,3) t by (simp add: remove_word_def Let_def type_def)
  next
    case (Some hs)
    define left where "left = drop_handlers (is_meant mapped (type_part w) guid t selector) hs"
    have hs: "delegates_first hs" "th_list hs \<noteq> []" using assms(1) Some by (simp_all add: events_ok_def)
    have "delegates_first left" unfolding left_def by (rule drop_handlers_first [OF hs(1)])
    then show ?thesis
      using assms(1,2,3) t Some hs
      by (auto simp: remove_word_def Let_def type_def [symmetric] left_def [symmetric] events_ok_def specials_ok_def split: if_splits)
  qed
qed

lemma bind_result_simps [simp]: "bind_result (Inl e) f = Inl e" "bind_result (Inr x) f = f x"
  by (simp_all add: bind_result_def)

lemma fold_bind_error: "foldl (\<lambda>r x. bind_result r (\<lambda>ev. f ev x)) (Inl e) xs = Inl e"
  by (induction xs) simp_all

lemma fold_bind_ok:
  assumes "\<And>ev x ev'. P ev \<Longrightarrow> f ev x = Inr ev' \<Longrightarrow> P ev'" "P ev" "foldl (\<lambda>r x. bind_result r (\<lambda>ev. f ev x)) (Inr ev) xs = Inr ev'"
  shows "P ev'"
  using assms(2,3)
proof (induction xs arbitrary: ev)
  case (Cons x xs)
  then show ?case
    by (cases "f ev x") (auto simp: fold_bind_error intro: assms(1))
qed simp

lemma remove_types_ok:
  assumes "events_ok specials ev" "specials_ok specials" "remove_types specials guid selector ev w = Inr ev'"
  shows "events_ok specials ev'"
proof (cases "type_part w = []")
  case True
  have step: "events_ok specials b"
    if "events_ok specials a" "(if obj_get (table a) k = None then Inr a else remove_word specials guid selector True (k @ w) a) = Inr b" for a b k
    using that remove_word_ok [OF that(1) assms(2)] by (auto split: if_splits)
  show ?thesis
    by (rule fold_bind_ok [where P = "events_ok specials", OF step assms(1)])
       (use assms(3) True in \<open>simp_all add: remove_types_def\<close>)
next
  case False
  then show ?thesis using assms remove_word_ok by (auto simp: remove_types_def)
qed

lemma event_remove_ok:
  assumes "events_ok specials ev" "specials_ok specials" "event_remove specials types guid selector ev = Inr ev'"
  shows "events_ok specials ev'"
proof (cases "ev_events ev")
  case (Some t)
  then obtain ev'' where ev'': "foldl (\<lambda>r w. bind_result r (\<lambda>ev. remove_types specials guid selector ev w)) (Inr ev) (rev (event_words types)) = Inr ev''"
    "ev' = forget_empty ev''"
    using assms(3) unfolding event_remove_def
    by (cases "foldl (\<lambda>r w. bind_result r (\<lambda>ev. remove_types specials guid selector ev w)) (Inr ev) (rev (event_words types))") auto
  have "events_ok specials ev''"
    by (rule fold_bind_ok [where P = "events_ok specials", OF _ assms(1) ev''(1)]) (rule remove_types_ok [OF _ assms(2)])
  then show ?thesis by (simp add: ev''(2) forget_empty_def events_ok_def table_def)
qed (use assms in \<open>simp add: event_remove_def\<close>)

section \<open>Calls\<close>

definition flat :: "dom_event \<Rightarrow> (nat \<times> 'h handle_obj list) list \<Rightarrow> (nat \<times> 'h handle_obj) list" where
  "flat event queue = concat (map (\<lambda>(elem, hs). map (Pair elem) (filter (wants event) hs)) queue)"

lemma call_handler_calls [simp]: "er_calls (call_handler beh elem r h) = er_calls r @ [(elem, h)]"
  by (simp add: call_handler_def Let_def)

text \<open>Immediate stopping implies stopping, so that nothing runs after it.\<close>

lemma run_handlers_prefix:
  assumes "er_immediate r \<longrightarrow> er_stopped r"
  shows "\<exists>done rest. er_calls (run_handlers beh event elem hs r) = er_calls r @ done \<and>
    map (Pair elem) (filter (wants event) hs) = done @ rest \<and>
    (rest \<noteq> [] \<longrightarrow> er_immediate (run_handlers beh event elem hs r)) \<and>
    (er_immediate (run_handlers beh event elem hs r) \<longrightarrow> er_stopped (run_handlers beh event elem hs r))"
  using assms
proof (induction hs arbitrary: r)
  case (Cons h hs)
  show ?case
  proof (cases "er_immediate r")
    case True
    then show ?thesis using Cons.prems by (intro exI [of _ "[]"] exI) simp
  next
    case False
    define r' where "r' = (if wants event h then call_handler beh elem r h else r)"
    have "er_immediate r' \<longrightarrow> er_stopped r'" using Cons.prems by (auto simp: r'_def call_handler_def Let_def)
    from Cons.IH [OF this] obtain d rest where
      IH: "er_calls (run_handlers beh event elem hs r') = er_calls r' @ d" "map (Pair elem) (filter (wants event) hs) = d @ rest"
      "rest \<noteq> [] \<longrightarrow> er_immediate (run_handlers beh event elem hs r')"
      "er_immediate (run_handlers beh event elem hs r') \<longrightarrow> er_stopped (run_handlers beh event elem hs r')" by blast
    then show ?thesis
      using False by (intro exI [of _ "(if wants event h then [(elem, h)] else []) @ d"] exI [of _ rest]) (auto simp: r'_def)
  qed
qed simp

lemma run_queue_prefix:
  assumes "er_immediate r \<longrightarrow> er_stopped r"
  shows "\<exists>done rest. er_calls (run_queue beh event queue r) = er_calls r @ done \<and> flat event queue = done @ rest \<and>
    (rest \<noteq> [] \<longrightarrow> er_stopped (run_queue beh event queue r))"
  using assms
proof (induction queue arbitrary: r)
  case (Cons p queue)
  obtain elem hs where p: "p = (elem, hs)" by (cases p)
  show ?case
  proof (cases "er_stopped r")
    case True
    then show ?thesis by (intro exI [of _ "[]"] exI [of _ "flat event (p # queue)"]) (simp add: p)
  next
    case False
    define r' where "r' = run_handlers beh event elem hs r"
    obtain d1 rest1 where one: "er_calls r' = er_calls r @ d1" "map (Pair elem) (filter (wants event) hs) = d1 @ rest1"
      "rest1 \<noteq> [] \<longrightarrow> er_immediate r'" "er_immediate r' \<longrightarrow> er_stopped r'"
      using run_handlers_prefix [OF Cons.prems, of beh event elem hs] unfolding r'_def by blast
    show ?thesis
    proof (cases "er_stopped r'")
      case True
      then have "run_queue beh event queue r' = r'" by (cases queue) auto
      then show ?thesis
        using False one True by (intro exI [of _ d1] exI [of _ "rest1 @ flat event queue"]) (simp add: p r'_def [symmetric] flat_def)
    next
      case False
      then have rest1: "rest1 = []" using one(3,4) by auto
      obtain d rest where IH: "er_calls (run_queue beh event queue r') = er_calls r' @ d" "flat event queue = d @ rest"
        "rest \<noteq> [] \<longrightarrow> er_stopped (run_queue beh event queue r')" using Cons.IH [OF one(4)] by blast
      then show ?thesis
        using \<open>\<not> er_stopped r\<close> one rest1
        by (intro exI [of _ "d1 @ d"] exI [of _ rest]) (simp add: p r'_def [symmetric] flat_def)
    qed
  qed
qed (simp add: flat_def)

text \<open>The handlers for an event: those of the delegates, the closest element first, and then the direct ones.\<close>

definition expected_calls :: "(jstring \<Rightarrow> nat \<Rightarrow> bool) \<Rightarrow> nat \<Rightarrow> dom_event \<Rightarrow> 'h handle_obj list \<Rightarrow> (nat \<times> 'h handle_obj) list" where
  "expected_calls matches this event hs =
     (if is_click event \<and> de_button event \<ge> 1 then []
      else concat (map (\<lambda>cur. map (Pair (pn_node cur))
          (filter (wants event) (filter (\<lambda>h. case ho_selector h of None \<Rightarrow> False | Some s \<Rightarrow> matches s (pn_node cur)) (filter is_delegate hs))))
        (filter (\<lambda>cur. pn_is_element cur \<and> \<not> (is_click event \<and> pn_disabled cur)) (de_path event)))) @
     map (Pair this) (filter (wants event) (filter (\<lambda>h. \<not> is_delegate h) hs))"

lemma concat_filter_pairs: "flat event (filter (\<lambda>(_, l). l \<noteq> []) queue) = flat event queue"
  by (induction queue) (auto simp: flat_def)

lemma flat_append: "flat event (p @ q) = flat event p @ flat event q"
  by (simp add: flat_def)

lemma event_handlers_flat:
  assumes "delegates_first hs"
  shows "flat event (event_handlers matches this event hs) = expected_calls matches this event (th_list hs)"
  using assms
proof (rule delegates_firstE)
  fix ds rs
  assume hs: "th_list hs = ds @ rs" "th_delegateCount hs = length ds" "list_all is_delegate ds" "list_all (\<lambda>h. \<not> is_delegate h) rs"
  note split = delegates_filter [OF hs(3,4)]
  have some: "(case ho_selector h of None \<Rightarrow> False | Some s \<Rightarrow> matches s n) = matches (case ho_selector h of None \<Rightarrow> [] | Some s \<Rightarrow> s) n"
    if "h \<in> set ds" for h n
    using that hs(3) by (auto simp: list_all_iff truthy_text_def split: option.splits)
  then have at: "filter (\<lambda>h. case ho_selector h of None \<Rightarrow> False | Some s \<Rightarrow> matches s (pn_node cur)) ds = delegates_at matches hs cur" for cur
    by (simp add: delegates_at_def hs(1,2) cong: filter_cong)
  have delegated: "flat event (filter (\<lambda>(_, l). l \<noteq> []) (map (\<lambda>cur. (pn_node cur, delegates_at matches hs cur)) path))
      = concat (map (\<lambda>cur. map (Pair (pn_node cur)) (filter (wants event) (delegates_at matches hs cur))) path)" for path
    unfolding concat_filter_pairs by (simp add: flat_def comp_def)
  have none: "delegates_at matches hs cur = []" if "ds = []" for cur using that by (simp add: delegates_at_def hs(2))
  have direct: "flat event (if length ds < length (ds @ rs) then [(this, rs)] else []) = map (Pair this) (filter (wants event) rs)"
    by (cases rs) (simp_all add: flat_def)
  have empty: "flat event [] = []" "concat (map (\<lambda>cur. []) path) = []" for path :: "path_node list"
    by (simp_all add: flat_def)
  then show ?thesis
    using none
    by (simp add: event_handlers_def expected_calls_def flat_append hs(1,2) delegated direct [simplified] split [simplified] at empty
        cong: if_cong)
qed

section \<open>Reachable tables\<close>

text \<open>The tables that adding and removing make of an element without handlers.\<close>

inductive event_reachable :: "special obj \<Rightarrow> 'h event_data \<Rightarrow> bool" for specials where
  none: "event_reachable specials \<lparr>ev_events = None, ev_listeners = []\<rparr>"
| added: "event_reachable specials ev \<Longrightarrow> event_reachable specials (event_add specials types handler guid selector ev)"
| removed: "event_reachable specials ev \<Longrightarrow> event_remove specials types guid selector ev = Inr ev' \<Longrightarrow> event_reachable specials ev'"

lemma event_reachable_ok:
  assumes "event_reachable specials ev" "specials_ok specials"
  shows "events_ok specials ev"
  using assms(1)
proof induction
  case none
  show ?case by (simp add: events_ok_def table_def)
next
  case (added ev types handler guid selector)
  then show ?case by (simp add: event_add_ok)
next
  case (removed ev types guid selector ev')
  then show ?case using event_remove_ok [OF _ assms(2)] by blast
qed

lemma dispatch_prefix:
  assumes "events_ok specials ev" "obj_get (table ev) (de_type event) = Some hs"
  shows "\<exists>rest. expected_calls matches this event (th_list hs) = er_calls (event_dispatch matches beh this event ev) @ rest \<and>
    (rest \<noteq> [] \<longrightarrow> er_stopped (event_dispatch matches beh this event ev))"
proof -
  have "delegates_first hs" using assms by (simp add: events_ok_def)
  then show ?thesis
    using run_queue_prefix [of "\<lparr>er_calls = [], er_stopped = False, er_immediate = False, er_prevented = False, er_result = Undefined\<rparr>"
        beh event "event_handlers matches this event hs"]
    by (auto simp: event_dispatch_def assms(2) event_handlers_flat)
qed

end
