(* ===== verification/JS_Json.thy ===== *)
theory JS_Json
  imports JS_Regex_Syntax
begin

text \<open>\<open>JSON.parse\<close> of the language, which the scripts call on the texts of attributes.\<close>

datatype json = JNull | JBool bool | JNumber jstring | JString jstring | JArray "json list" | JObject "json obj"

definition json_space :: "jstring \<Rightarrow> jstring" where
  "json_space s = dropWhile (\<lambda>c. c \<in> {9, 10, 13, 32}) s"

text \<open>A literal word, if the text starts with it.\<close>

definition after_word :: "string \<Rightarrow> jstring \<Rightarrow> jstring option" where
  "after_word w s = (if starts_with (js w) s then Some (drop (length w) s) else None)"

text \<open>The inside of a text behind its opening quote.\<close>

definition simple_escape :: "code_unit \<Rightarrow> code_unit option" where
  "simple_escape c = map_of [(34, 34), (92, 92), (47, 47), (98, 8), (102, 12), (110, 10), (114, 13), (116, 9)] c"

definition is_hex_digit :: "code_unit \<Rightarrow> bool" where
  "is_hex_digit c \<longleftrightarrow> is_digit c \<or> (97 \<le> c \<and> c \<le> 102) \<or> (65 \<le> c \<and> c \<le> 70)"

function json_text :: "jstring \<Rightarrow> (jstring \<times> jstring) option" where
  "json_text [] = None"
| "json_text (c # s) =
     (if c = 34 then Some ([], s)
      else if c < 32 then None
      else if c \<noteq> 92 then map_option (\<lambda>(t, r). (c # t, r)) (json_text s)
      else case s of
        [] \<Rightarrow> None
      | d # s' \<Rightarrow>
          (case simple_escape d of
             Some e \<Rightarrow> map_option (\<lambda>(t, r). (e # t, r)) (json_text s')
           | None \<Rightarrow>
               if d = 117 \<and> 4 \<le> length s' \<and> list_all is_hex_digit (take 4 s') then
                 map_option (\<lambda>(t, r). (foldl (\<lambda>n h. 16 * n + hex_value h) 0 (take 4 s') # t, r)) (json_text (drop 4 s'))
               else None))"
  by pat_completeness auto

termination json_text
  by (relation "measure length") auto

text \<open>A number: its text, and what is behind it.\<close>

definition json_number :: "jstring \<Rightarrow> (jstring \<times> jstring) option" where
  "json_number s =
     (let sign = (if starts_with (js ''-'') s then js ''-'' else []);
          t = drop (length sign) s;
          whole = (if starts_with (js ''0'') t then js ''0'' else takeWhile is_digit t);
          t = drop (length whole) t;
          fraction = (if starts_with (js ''.'') t then js ''.'' @ takeWhile is_digit (drop 1 t) else []);
          t = drop (length fraction) t;
          mark = (if t \<noteq> [] \<and> hd t \<in> {69, 101} then [hd t] else []);
          u = drop (length mark) t;
          esign = (if mark \<noteq> [] \<and> u \<noteq> [] \<and> hd u \<in> {43, 45} then [hd u] else []);
          digits = (if mark \<noteq> [] then takeWhile is_digit (drop (length esign) u) else []);
          rest = drop (length esign + length digits) u
      in if whole = [] \<or> fraction = js ''.'' \<or> (mark \<noteq> [] \<and> digits = []) then None
         else Some (sign @ whole @ fraction @ mark @ esign @ digits, rest))"

text \<open>
  Values nested in arrays and objects. Every second call consumes a character of the text, so that
  twice its length is fuel enough.
\<close>

fun json_value :: "nat \<Rightarrow> jstring \<Rightarrow> (json \<times> jstring) option"
  and json_items :: "nat \<Rightarrow> jstring \<Rightarrow> (json list \<times> jstring) option"
  and json_members :: "nat \<Rightarrow> json obj \<Rightarrow> jstring \<Rightarrow> (json obj \<times> jstring) option" where
  "json_value 0 s = None"
| "json_value (Suc n) s =
     (case json_space s of
        [] \<Rightarrow> None
      | c # t \<Rightarrow>
          if c = 34 then map_option (\<lambda>(x, r). (JString x, r)) (json_text t)
          else if c = 91 then
            (case json_space t of
               [] \<Rightarrow> None
             | d # r \<Rightarrow> if d = 93 then Some (JArray [], r) else map_option (\<lambda>(xs, r). (JArray xs, r)) (json_items n t))
          else if c = 123 then
            (case json_space t of
               [] \<Rightarrow> None
             | d # r \<Rightarrow> if d = 125 then Some (JObject [], r) else map_option (\<lambda>(ms, r). (JObject ms, r)) (json_members n [] t))
          else case after_word ''null'' (c # t) of
            Some r \<Rightarrow> Some (JNull, r)
          | None \<Rightarrow> (case after_word ''true'' (c # t) of
              Some r \<Rightarrow> Some (JBool True, r)
            | None \<Rightarrow> (case after_word ''false'' (c # t) of
                Some r \<Rightarrow> Some (JBool False, r)
              | None \<Rightarrow> map_option (\<lambda>(x, r). (JNumber x, r)) (json_number (c # t)))))"
| "json_items 0 s = None"
| "json_items (Suc n) s =
     (case json_value n s of
        None \<Rightarrow> None
      | Some (x, r) \<Rightarrow>
          (case json_space r of
             [] \<Rightarrow> None
           | c # t \<Rightarrow>
               if c = 93 then Some ([x], t)
               else if c = 44 then map_option (\<lambda>(xs, r). (x # xs, r)) (json_items n t)
               else None))"
| "json_members 0 ms s = None"
| "json_members (Suc n) ms s =
     (case json_space s of
        [] \<Rightarrow> None
      | q # k \<Rightarrow>
          if q \<noteq> 34 then None
          else case json_text k of
            None \<Rightarrow> None
          | Some (key, r) \<Rightarrow>
              (case json_space r of
                 [] \<Rightarrow> None
               | colon # v \<Rightarrow>
                   if colon \<noteq> 58 then None
                   else case json_value n v of
                     None \<Rightarrow> None
                   | Some (x, r) \<Rightarrow>
                       (case json_space r of
                          [] \<Rightarrow> None
                        | c # t \<Rightarrow>
                            if c = 125 then Some (obj_set key x ms, t)
                            else if c = 44 then json_members n (obj_set key x ms) t
                            else None)))"

text \<open>\<open>None\<close> is the syntax error.\<close>

definition JSON_parse :: "jstring \<Rightarrow> json option" where
  "JSON_parse s =
     (case json_value (2 * length s + 2) s of
        Some (x, r) \<Rightarrow> if json_space r = [] then Some x else None
      | None \<Rightarrow> None)"

definition json_truthy :: "(jstring \<Rightarrow> 'n::zero option) \<Rightarrow> json \<Rightarrow> bool" where
  "json_truthy num_of x = (case x of
      JNull \<Rightarrow> False | JBool b \<Rightarrow> b | JNumber s \<Rightarrow> num_of s \<noteq> Some 0 | JString s \<Rightarrow> s \<noteq> [] | JArray _ \<Rightarrow> True | JObject _ \<Rightarrow> True)"

lemma JSON_parse_words: "JSON_parse (js ''true'') = Some (JBool True)" "JSON_parse (js ''false'') = Some (JBool False)"
  by code_simp+

lemma JSON_parse_bad: "JSON_parse (js ''True'') = None"
  by code_simp

end
