(* ===== verification/JQuery_Data.thy ===== *)
theory JQuery_Data
  imports JQuery_Callbacks JS_Json
begin

text \<open>
  The data store of \<open>jquery.js\<close>: one \<open>Data\<close> object keeps the values of each owner under camel-cased keys,
  in a cache it hangs on the owner. \<open>dataPriv\<close> and \<open>dataUser\<close> are two of them.
\<close>

section \<open>Keys\<close>

text \<open>\<open>string.replace(/^-ms-/, "ms-").replace(/-([a-z])/g, \<dots>)\<close>\<close>

fun camel_humps :: "jstring \<Rightarrow> jstring" where
  "camel_humps (c # d # s) = (if c = 45 \<and> is_lower d then upper_unit d # camel_humps s else c # camel_humps (d # s))"
| "camel_humps s = s"

definition camelCase :: "jstring \<Rightarrow> jstring" where
  "camelCase string = camel_humps (if starts_with (js ''-ms-'') string then drop 1 string else string)"

section \<open>Caches\<close>

record 'v data_owner =
  do_nodeType :: "nat option" \<comment> \<open>\<open>None\<close> for an object that is no node\<close>
  do_cache :: "'v obj option" \<comment> \<open>what hangs on the owner, if anything does\<close>

definition acceptData :: "'v data_owner \<Rightarrow> bool" where
  "acceptData owner \<longleftrightarrow> (case do_nodeType owner of None \<Rightarrow> True | Some n \<Rightarrow> n = 1 \<or> n = 9 \<or> n = 0)"

text \<open>The cache of an owner, made where the owner accepts data; otherwise an empty object that is forgotten.\<close>

definition data_cache :: "'v data_owner \<Rightarrow> 'v obj \<times> 'v data_owner" where
  "data_cache owner =
     (case do_cache owner of
        Some c \<Rightarrow> (c, owner)
      | None \<Rightarrow> ([], if acceptData owner then owner\<lparr>do_cache := Some []\<rparr> else owner))"

definition write_cache :: "'v obj \<Rightarrow> 'v data_owner \<Rightarrow> 'v data_owner" where
  "write_cache c owner = (if do_cache owner = None then owner else owner\<lparr>do_cache := Some c\<rparr>)"

text \<open>\<open>data\<close> is a key and a value, or an object whose properties are copied.\<close>

datatype 'v data_arg = Key jstring 'v | Props "'v obj"

definition data_set :: "'v data_arg \<Rightarrow> 'v data_owner \<Rightarrow> 'v obj \<times> 'v data_owner" where
  "data_set data owner = (case data_cache owner of (cache, owner) \<Rightarrow>
     let cache = (case data of
           Key k v \<Rightarrow> obj_set (camelCase k) v cache
         | Props ps \<Rightarrow> foldl (\<lambda>cache (k, v). obj_set (camelCase k) v cache) cache ps)
     in (cache, write_cache cache owner))"

definition data_get :: "jstring \<Rightarrow> 'v data_owner \<Rightarrow> 'v option" where
  "data_get key owner = (case do_cache owner of None \<Rightarrow> None | Some c \<Rightarrow> obj_get c (camelCase key))"

text \<open>
  \<open>access\<close> reads without a key, or with a key that is not empty and the value \<open>undefined\<close>, and writes
  otherwise; it gives back what it wrote, or the key for \<open>undefined\<close>.
\<close>

datatype 'v accessed = WholeCache "'v obj" | AtKey "'v option" | WroteValue 'v | WroteKey jstring

definition data_access :: "('v \<Rightarrow> bool) \<Rightarrow> jstring option \<Rightarrow> 'v \<Rightarrow> 'v data_owner \<Rightarrow> 'v accessed \<times> 'v data_owner" where
  "data_access undefined_val key val owner =
     (case key of
        None \<Rightarrow> (case data_cache owner of (c, owner) \<Rightarrow> (WholeCache c, owner))
      | Some k \<Rightarrow>
          if k \<noteq> [] \<and> undefined_val val then (AtKey (data_get k owner), owner)
          else (if undefined_val val then WroteKey k else WroteValue val, snd (data_set (Key k val) owner)))"

datatype remove_arg = AllKeys | KeyArray "jstring list" | KeyText jstring

text \<open>The keys to delete: a text that is no key as it stands is a list of them.\<close>

definition removed_keys :: "remove_arg \<Rightarrow> 'v obj \<Rightarrow> jstring list" where
  "removed_keys key cache = (case key of
      AllKeys \<Rightarrow> []
    | KeyArray ks \<Rightarrow> map camelCase ks
    | KeyText k \<Rightarrow> if obj_get cache (camelCase k) \<noteq> None then [camelCase k] else html_words (camelCase k))"

definition data_remove :: "remove_arg \<Rightarrow> 'v data_owner \<Rightarrow> 'v data_owner" where
  "data_remove key owner =
     (case do_cache owner of
        None \<Rightarrow> owner
      | Some cache \<Rightarrow>
          (let cache = foldr obj_delete (removed_keys key cache) cache
           in if key = AllKeys \<or> cache = [] then owner\<lparr>do_cache := None\<rparr> else owner\<lparr>do_cache := Some cache\<rparr>))"

definition hasData :: "'v data_owner \<Rightarrow> bool" where
  "hasData owner \<longleftrightarrow> do_cache owner \<noteq> None \<and> do_cache owner \<noteq> Some []"

section \<open>Facts\<close>

lemma camel_humps_no_dash: "45 \<notin> set s \<Longrightarrow> camel_humps s = s"
  by (induction s rule: camel_humps.induct) auto

lemma camelCase_plain: "45 \<notin> set s \<Longrightarrow> camelCase s = s"
  by (cases s) (auto simp: camelCase_def starts_with_def unit_of_def camel_humps_no_dash)

text \<open>What was set is read back under every spelling of its key, and other keys keep their values.\<close>

lemma data_get_set:
  assumes "acceptData owner"
  shows "data_get k' (snd (data_set (Key k v) owner)) = (if camelCase k' = camelCase k then Some v else data_get k' owner)"
  using assms by (cases "do_cache owner") (auto simp: data_get_def data_set_def data_cache_def write_cache_def Let_def obj_get_def [of "[_]"])

lemma data_set_refused: "\<not> acceptData owner \<Longrightarrow> do_cache owner = None \<Longrightarrow> snd (data_set data owner) = owner"
  by (simp add: data_set_def data_cache_def write_cache_def Let_def)

lemma obj_get_foldr_delete: "obj_get (foldr obj_delete ks ob) k = (if k \<in> set ks then None else obj_get ob k)"
  by (induction ks) auto

lemma data_get_remove:
  "data_get k (data_remove (KeyArray ks) owner) = (if camelCase k \<in> camelCase ` set ks then None else data_get k owner)"
proof (cases "do_cache owner")
  case (Some cache)
  define rest where "rest = foldr obj_delete (map camelCase ks) cache"
  have "obj_get rest (camelCase k) = (if camelCase k \<in> camelCase ` set ks then None else obj_get cache (camelCase k))"
    by (simp add: rest_def obj_get_foldr_delete)
  then show ?thesis
    by (cases "rest = []") (auto simp: data_get_def data_remove_def removed_keys_def Some rest_def [symmetric] Let_def)
qed (auto simp: data_get_def data_remove_def)

text \<open>Removing never leaves an empty cache behind, so that an owner without data has none.\<close>

lemma data_remove_clean: "hasData (data_remove key owner) \<longleftrightarrow> do_cache (data_remove key owner) \<noteq> None" if "do_cache owner \<noteq> Some []"
  using that by (auto simp: hasData_def data_remove_def Let_def split: option.split if_splits)

end
