(* ===== verification/Unobtrusive_Parse.thy ===== *)
theory Unobtrusive_Parse
  imports Form_Methods "HOL-Library.AList"
begin

text \<open>
  \<open>jquery.validate.unobtrusive.js\<close>, first part: the helpers on names, the adapters that turn the data
  attributes of an element into rules and messages, the table of them, and the methods the script
  adds to the validator.
\<close>

section \<open>Names\<close>

text \<open>\<open>split(/\s*,\s*/g)\<close> of the trimmed text: at the commas, with the white space around them.\<close>

definition splitAndTrim :: "jstring \<Rightarrow> jstring list" where
  "splitAndTrim val = map trim (split_char 44 (trim val))"

fun escapeAttributeValue :: "jstring \<Rightarrow> jstring" where
  "escapeAttributeValue [] = []"
| "escapeAttributeValue (c # s) =
     (if c \<in> set (js ''!#$%&()*+,./:;<=>?@[]^{|}~'') \<union> {34, 39, 92, 96} then 92 # c # escapeAttributeValue s
      else c # escapeAttributeValue s)"

definition lastIndexOf :: "jstring \<Rightarrow> code_unit \<Rightarrow> int" where
  "lastIndexOf s c = (if c \<in> set s then int (length s - 1 - length (takeWhile (\<lambda>d. d \<noteq> c) (rev s))) else - 1)"

definition getModelPrefix :: "jstring \<Rightarrow> jstring" where
  "getModelPrefix fieldName = substr fieldName 0 (nat (lastIndexOf fieldName 46 + 1))"

text \<open>
  What \<open>replace\<close> with a text inserts for a match without groups: a dollar sign and the sign after it
  stand for a dollar, the match, or what is before or after it.
\<close>

fun expand_dollars :: "jstring \<Rightarrow> jstring \<Rightarrow> jstring \<Rightarrow> jstring \<Rightarrow> jstring" where
  "expand_dollars before matched after (c # d # s) =
     (if c = 36 \<and> d = 36 then 36 # expand_dollars before matched after s
      else if c = 36 \<and> d = 38 then matched @ expand_dollars before matched after s
      else if c = 36 \<and> d = 96 then before @ expand_dollars before matched after s
      else if c = 36 \<and> d = 39 then after @ expand_dollars before matched after s
      else c # expand_dollars before matched after (d # s))"
| "expand_dollars before matched after s = s"

definition appendModelPrefix :: "jstring \<Rightarrow> jstring \<Rightarrow> jstring" where
  "appendModelPrefix val prefix =
     (if starts_with (js ''*.'') val then expand_dollars [] (js ''*.'') (drop 2 val) prefix @ drop 2 val else val)"

section \<open>Inputs of a form\<close>

record form_input =
  in_node :: nat
  in_name :: jstring
  in_checkbox :: bool
  in_radio :: bool
  in_checked :: bool
  in_hidden :: bool
  in_val :: field_value

fun field_truthy :: "field_value \<Rightarrow> bool" where
  "field_truthy (FStr s) = (s \<noteq> [])"
| "field_truthy (FArr _) = True"
| "field_truthy _ = False"

definition field_or :: "field_value \<Rightarrow> field_value \<Rightarrow> field_value" where
  "field_or a b = (if field_truthy a then a else b)"

text \<open>\<open>filter("[name='\<dots>']")\<close>, whose value the selector engine reads back.\<close>

definition named_inputs :: "jstring \<Rightarrow> form_input list \<Rightarrow> form_input list" where
  "named_inputs name inputs = filter (\<lambda>x. in_name x = runescape (escapeAttributeValue name)) inputs"

definition val_of :: "form_input list \<Rightarrow> field_value" where
  "val_of field = (case field of [] \<Rightarrow> FUndef | x # _ \<Rightarrow> in_val x)"

text \<open>What the remote adapter sends for a field, looked up when the request is made.\<close>

definition remote_field_value :: "form_input list \<Rightarrow> jstring \<Rightarrow> field_value" where
  "remote_field_value inputs paramName =
     (let field = named_inputs paramName inputs
      in if list_ex in_checkbox field then
           field_or (val_of (filter in_checked field)) (field_or (val_of (filter in_hidden field)) (FStr []))
         else if list_ex in_radio field then field_or (val_of (filter in_checked field)) (FStr [])
         else val_of field)"

section \<open>Adapters\<close>

text \<open>
  The parameter of a rule: the remote rule's is an object of address, type and the fields to send,
  each a function, which is written down by the name it has captured.
\<close>

record remote_param =
  rp_url :: "jstring option"
  rp_type :: jstring
  rp_data :: "jstring obj"

datatype rule_param =
    PUndef
  | PTrue
  | PString jstring
  | PStrings jstring jstring
  | PElement nat
  | PRemote remote_param

record adapt_options =
  op_name :: jstring
  op_tag :: jstring
  op_type :: jstring
  op_inputs :: "form_input list"
  op_message :: jstring
  op_params :: "jstring option obj"
  op_rules :: "rule_param obj"
  op_messages :: "jstring obj"

text \<open>A name that is \<open>undefined\<close> becomes that word when it is used as a key.\<close>

definition rule_key :: "jstring option \<Rightarrow> jstring" where
  "rule_key ruleName = (case ruleName of None \<Rightarrow> js ''undefined'' | Some n \<Rightarrow> n)"

definition setValidationValues :: "jstring option \<Rightarrow> rule_param \<Rightarrow> adapt_options \<Rightarrow> adapt_options" where
  "setValidationValues ruleName val options =
     (let options = options\<lparr>op_rules := obj_set (rule_key ruleName) val (op_rules options)\<rparr>
      in if op_message options \<noteq> [] then
           options\<lparr>op_messages := obj_set (rule_key ruleName) (op_message options) (op_messages options)\<rparr>
         else options)"

text \<open>\<open>options.params.k\<close>: the attribute's text, where the parameter was declared and is there.\<close>

definition option_param :: "adapt_options \<Rightarrow> jstring \<Rightarrow> jstring option" where
  "option_param options k = Option.bind (obj_get (op_params options) k) (\<lambda>v. v)"

definition text_truthy :: "jstring option \<Rightarrow> bool" where
  "text_truthy t = (case t of None \<Rightarrow> False | Some s \<Rightarrow> s \<noteq> [])"

definition text_or :: "jstring option \<Rightarrow> jstring \<Rightarrow> jstring" where
  "text_or t s = (if text_truthy t then the t else s)"

definition string_param :: "jstring option \<Rightarrow> rule_param" where
  "string_param t = (case t of None \<Rightarrow> PUndef | Some s \<Rightarrow> PString s)"

record adapter =
  ad_name :: jstring
  ad_params :: "jstring list"
  ad_adapt :: "adapt_options \<Rightarrow> js_error + adapt_options"

definition add_adapter :: "jstring \<Rightarrow> jstring list option \<Rightarrow> (adapt_options \<Rightarrow> js_error + adapt_options) \<Rightarrow> adapter list \<Rightarrow> adapter list" where
  "add_adapter adapterName params fn adapters =
     adapters @ [\<lparr>ad_name = adapterName, ad_params = (case params of None \<Rightarrow> [] | Some ps \<Rightarrow> ps), ad_adapt = fn\<rparr>]"

definition addBool :: "jstring \<Rightarrow> jstring option \<Rightarrow> adapter list \<Rightarrow> adapter list" where
  "addBool adapterName ruleName =
     add_adapter adapterName None (\<lambda>options. Inr (setValidationValues (Some (text_or ruleName adapterName)) PTrue options))"

definition adapt_min_max :: "jstring \<Rightarrow> jstring option \<Rightarrow> jstring option \<Rightarrow> adapt_options \<Rightarrow> adapt_options" where
  "adapt_min_max minRuleName maxRuleName minMaxRuleName options =
     (let min = option_param options (js ''min''); max = option_param options (js ''max'')
      in if text_truthy min \<and> text_truthy max then setValidationValues minMaxRuleName (PStrings (the min) (the max)) options
         else if text_truthy min then setValidationValues (Some minRuleName) (string_param min) options
         else if text_truthy max then setValidationValues maxRuleName (string_param max) options
         else options)"

definition addMinMax ::
  "jstring \<Rightarrow> jstring \<Rightarrow> jstring option \<Rightarrow> jstring option \<Rightarrow> jstring option \<Rightarrow> jstring option \<Rightarrow> adapter list \<Rightarrow> adapter list" where
  "addMinMax adapterName minRuleName maxRuleName minMaxRuleName minAttribute maxAttribute =
     add_adapter adapterName (Some [text_or minAttribute (js ''min''), text_or maxAttribute (js ''max'')])
       (\<lambda>options. Inr (adapt_min_max minRuleName maxRuleName minMaxRuleName options))"

definition addSingleVal :: "jstring \<Rightarrow> jstring option \<Rightarrow> jstring option \<Rightarrow> adapter list \<Rightarrow> adapter list" where
  "addSingleVal adapterName attribute ruleName =
     add_adapter adapterName (Some [text_or attribute (js ''val'')])
       (\<lambda>options. Inr (setValidationValues (Some (text_or ruleName adapterName))
          (string_param (option_param options (rule_key attribute))) options))"

text \<open>The other name is read without a test, so that an element that does not give it raises an error.\<close>

definition adapt_equalto :: "adapt_options \<Rightarrow> js_error + adapt_options" where
  "adapt_equalto options =
     (case option_param options (js ''other'') of
        None \<Rightarrow> Inl TypeError
      | Some other \<Rightarrow>
          (let fullOtherName = appendModelPrefix other (getModelPrefix (op_name options))
           in Inr (setValidationValues (Some (js ''equalTo''))
                (case named_inputs fullOtherName (op_inputs options) of [] \<Rightarrow> PUndef | x # _ \<Rightarrow> PElement (in_node x)) options)))"

definition adapt_required :: "adapt_options \<Rightarrow> adapt_options" where
  "adapt_required options =
     (if ascii_upper (op_tag options) \<noteq> js ''INPUT'' \<or> ascii_upper (op_type options) \<noteq> js ''CHECKBOX''
      then setValidationValues (Some (js ''required'')) PTrue options else options)"

definition adapt_remote :: "adapt_options \<Rightarrow> adapt_options" where
  "adapt_remote options =
     (let prefix = getModelPrefix (op_name options);
          fields = splitAndTrim (text_or (option_param options (js ''additionalfields'')) (op_name options));
          data = foldl (\<lambda>data fieldName. let paramName = appendModelPrefix fieldName prefix in obj_set paramName paramName data) [] fields
      in setValidationValues (Some (js ''remote''))
           (PRemote \<lparr>rp_url = option_param options (js ''url''), rp_type = text_or (option_param options (js ''type'')) (js ''GET''),
              rp_data = data\<rparr>) options)"

definition adapt_password :: "adapt_options \<Rightarrow> adapt_options" where
  "adapt_password options =
     (let set_if = (\<lambda>param ruleName options.
            if text_truthy (option_param options param)
            then setValidationValues (Some ruleName) (string_param (option_param options param)) options else options)
      in set_if (js ''regex'') (js ''regex'')
           (set_if (js ''nonalphamin'') (js ''nonalphamin'') (set_if (js ''min'') (js ''minlength'') options)))"

text \<open>The table, built in the order of the script; \<open>has_extension\<close> is whether the validator has that method.\<close>

definition extension_adapters :: "bool \<Rightarrow> adapter list \<Rightarrow> adapter list" where
  "extension_adapters has_extension adapters =
     (if has_extension then
        addSingleVal (js ''extension'') (Some (js ''extension'')) None
          (addSingleVal (js ''accept'') (Some (js ''mimtype'')) None adapters)
      else addSingleVal (js ''extension'') (Some (js ''extension'')) (Some (js ''accept'')) adapters)"

definition bool_adapters :: "jstring list" where
  "bool_adapters = [js ''creditcard'', js ''date'', js ''digits'', js ''email'', js ''number'', js ''url'']"

definition length_adapters :: "adapter list \<Rightarrow> adapter list" where
  "length_adapters adapters =
     addMinMax (js ''maxlength'') (js ''minlength'') (Some (js ''maxlength'')) None None None
       (addMinMax (js ''minlength'') (js ''minlength'') None None None None
         (addMinMax (js ''range'') (js ''min'') (Some (js ''max'')) (Some (js ''range'')) None None
           (addMinMax (js ''length'') (js ''minlength'') (Some (js ''maxlength'')) (Some (js ''rangelength'')) None None adapters)))"

definition standard_adapters :: "bool \<Rightarrow> adapter list" where
  "standard_adapters has_extension =
     add_adapter (js ''fileextensions'') (Some [js ''extensions''])
       (\<lambda>options. Inr (setValidationValues (Some (js ''extension'')) (string_param (option_param options (js ''extensions''))) options))
     (add_adapter (js ''password'') (Some [js ''min'', js ''nonalphamin'', js ''regex'']) (\<lambda>options. Inr (adapt_password options))
     (add_adapter (js ''remote'') (Some [js ''url'', js ''type'', js ''additionalfields'']) (\<lambda>options. Inr (adapt_remote options))
     (add_adapter (js ''required'') None (\<lambda>options. Inr (adapt_required options))
     (add_adapter (js ''equalto'') (Some [js ''other'']) adapt_equalto
     (length_adapters
     (foldl (\<lambda>adapters name. addBool name None adapters)
       (addSingleVal (js ''regex'') (Some (js ''pattern'')) None (extension_adapters has_extension []))
       bool_adapters))))))"

section \<open>The methods the script adds\<close>

definition dummy_method :: "'n settings \<Rightarrow> 'n validator \<Rightarrow> field_value \<Rightarrow> nat \<Rightarrow> 'n rule_val \<Rightarrow> js_error + method_result" where
  "dummy_method cfg v val i p = Inr (RBool True)"

text \<open>\<open>value.match(/\<dots>/g)\<close> counts the characters that are not of a word; \<open>undefined\<close> is falsy as \<open>null\<close> is.\<close>

definition nonalphamin :: "'n::floor_ceiling settings \<Rightarrow> 'n validator \<Rightarrow> field_value \<Rightarrow> nat \<Rightarrow> 'n rule_val \<Rightarrow> js_error + method_result" where
  "nonalphamin cfg v val i p =
     (if \<not> val_truthy p then Inr RNull
      else case val of
        FStr s \<Rightarrow>
          (let found = filter (\<lambda>c. \<not> is_word c) s
           in Inr (if found = [] then RNull
                else RBool (js_le (c_num_of cfg) (rule_prim (c_text_of cfg) p) (PNum (Some (of_nat (length found)))))))
      | _ \<Rightarrow> Inl TypeError)"

section \<open>What the adapters do\<close>

lemma escapeAttributeValue_meta: "escapeAttributeValue s = escape_meta s"
  by (induction s) (auto simp: css_meta_def)

lemma named_inputs_by_name: "named_inputs name inputs = filter (\<lambda>x. in_name x = name) inputs"
  by (simp add: named_inputs_def escapeAttributeValue_meta runescape_meta)

text \<open>A prefix ends with a dot, and a relative name stands for one with the prefix of the element.\<close>

lemma prefix_of_name:
  "\<exists>rest. s = getModelPrefix s @ rest \<and> 46 \<notin> set rest \<and> (getModelPrefix s = [] \<or> last (getModelPrefix s) = 46)"
proof (cases "46 \<in> set s")
  case True
  then obtain a b where s: "s = a @ 46 # b" "46 \<notin> set b" by (meson split_list_last)
  then have "takeWhile (\<lambda>d. d \<noteq> 46) (rev b @ 46 # rev a) = rev b" by (subst takeWhile_append2) auto
  with s have "takeWhile (\<lambda>d. d \<noteq> 46) (rev s) = rev b" by simp
  then have "lastIndexOf s 46 = int (length a)" using s by (auto simp: lastIndexOf_def)
  then have "getModelPrefix s = a @ [46]" using s by (simp add: getModelPrefix_def substr_def nat_add_distrib)
  with s show ?thesis by auto
qed (auto simp: getModelPrefix_def substr_def lastIndexOf_def)

lemma expand_plain: "36 \<notin> set s \<Longrightarrow> expand_dollars before matched after s = s"
  by (induction before matched after s rule: expand_dollars.induct) auto

lemma appendModelPrefix_relative:
  "36 \<notin> set prefix \<Longrightarrow> appendModelPrefix (js ''*.'' @ name) prefix = prefix @ name"
  by (simp add: appendModelPrefix_def starts_with_def expand_plain)

lemma text_or_simps [simp]: "text_or None s = s" "text_or (Some []) s = s" "text_or (Some (c # t)) s = c # t"
  by (simp_all add: text_or_def text_truthy_def)

text \<open>Every rule an adapter sets has the message of the element, where there is one.\<close>

lemma setValidationValues_simps [simp]:
  "op_rules (setValidationValues r x opts) = obj_set (rule_key r) x (op_rules opts)"
  "op_messages (setValidationValues r x opts) =
     (if op_message opts = [] then op_messages opts else obj_set (rule_key r) (op_message opts) (op_messages opts))"
  "op_message (setValidationValues r x opts) = op_message opts"
  "op_params (setValidationValues r x opts) = op_params opts"
  by (simp_all add: setValidationValues_def Let_def)

text \<open>
  A parameter under the default name \<open>val\<close> is never read: the rule is set without a value, whatever
  the element says; and of the names given to \<open>addMinMax\<close> only the defaults are read.
\<close>

lemma single_value_default_is_lost:
  assumes "option_param opts (js ''undefined'') = None" "ad \<in> set (addSingleVal name None ruleName [])" "ad_adapt ad opts = Inr opts'"
  shows "obj_get (op_rules opts') (text_or ruleName name) = Some PUndef"
  using assms by (auto simp: addSingleVal_def add_adapter_def rule_key_def string_param_def simp del: js_simps)

lemma min_max_names_are_not_read:
  assumes "option_param opts (js ''min'') = None" "option_param opts (js ''max'') = None"
    and "ad \<in> set (addMinMax name lo hi both a b [])" "ad_adapt ad opts = Inr opts'"
  shows "opts' = opts"
  using assms by (auto simp: addMinMax_def add_adapter_def adapt_min_max_def text_truthy_def simp del: js_simps)

text \<open>
  \<open>jquery.validate.unobtrusive.js\<close>, second part: the elements of a document are parsed for data
  attributes, the rules and messages are collected per form, and the validator of each form is made
  from them.

  A document is the list of its elements in document order, so that a parent comes before its
  children. A form is known by its position.
\<close>

section \<open>Documents\<close>

record doc_node =
  dn_tag :: jstring
  dn_parent :: "nat option"
  dn_name :: jstring
  dn_type :: jstring
  dn_attr :: "jstring obj"
  dn_checked :: bool
  dn_hidden :: bool
  dn_val :: field_value

type_synonym document = "doc_node list"

text \<open>\<open>parents()\<close>, the closest first.\<close>

function parents :: "document \<Rightarrow> nat \<Rightarrow> nat list" where
  "parents d i =
     (if i < length d then
        (case dn_parent (d ! i) of None \<Rightarrow> [] | Some p \<Rightarrow> if p < i then p # parents d p else [])
      else [])"
  by pat_completeness auto

termination parents
  by (relation "measure snd") auto

declare parents.simps [simp del]

definition is_form :: "document \<Rightarrow> nat \<Rightarrow> bool" where
  "is_form d i \<longleftrightarrow> dn_tag (d ! i) = js ''form''"

definition form_of :: "document \<Rightarrow> nat \<Rightarrow> nat option" where
  "form_of d i = List.find (is_form d) (parents d i)"

text \<open>\<open>attr(name)\<close> looks a name up in lower case, as a document in HTML has it.\<close>

definition attr_of :: "document \<Rightarrow> nat \<Rightarrow> jstring \<Rightarrow> jstring option" where
  "attr_of d i name = obj_get (dn_attr (d ! i)) (ascii_lower name)"

definition is_marked :: "document \<Rightarrow> nat \<Rightarrow> bool" where
  "is_marked d i \<longleftrightarrow> attr_of d i (js ''data-val'') = Some (js ''true'')"

definition inside :: "document \<Rightarrow> nat list \<Rightarrow> nat \<Rightarrow> bool" where
  "inside d selector i \<longleftrightarrow> list_ex (\<lambda>a. a \<in> set selector) (parents d i)"

text \<open>\<open>find(":input")\<close> of a form.\<close>

definition form_inputs :: "document \<Rightarrow> nat \<Rightarrow> form_input list" where
  "form_inputs d f =
     map (\<lambda>i. let n = d ! i in
         \<lparr>in_node = i, in_name = dn_name n, in_checkbox = (dn_type n = js ''checkbox''), in_radio = (dn_type n = js ''radio''),
          in_checked = dn_checked n, in_hidden = dn_hidden n, in_val = dn_val n\<rparr>)
       (filter (\<lambda>i. inside d [f] i \<and> dn_tag (d ! i) \<in> {js ''input'', js ''select'', js ''textarea'', js ''button''}) [0..<length d])"

section \<open>Forms\<close>

text \<open>The options a form's validation is made from, and the default options of the script.\<close>

record form_info =
  fi_errorClass :: jstring
  fi_errorElement :: jstring
  fi_rules :: "rule_param obj obj"
  fi_messages :: "jstring obj obj"

record unob_options =
  uo_errorClass :: "jstring option"
  uo_errorElement :: "jstring option"

record unob_page =
  up_infos :: "(nat \<times> form_info) list"
  up_validators :: "(nat \<times> form_info) list" \<comment> \<open>with the settings they were made with\<close>
  up_reset :: "nat list" \<comment> \<open>the forms with a handler of the reset event, one entry per handler\<close>

definition new_info :: "unob_options \<Rightarrow> form_info" where
  "new_info opts =
     \<lparr>fi_errorClass = text_or (uo_errorClass opts) (js ''input-validation-error''),
      fi_errorElement = text_or (uo_errorElement opts) (js ''span''), fi_rules = [], fi_messages = []\<rparr>"

definition validationInfo :: "unob_options \<Rightarrow> nat \<Rightarrow> unob_page \<Rightarrow> form_info \<times> unob_page" where
  "validationInfo opts fm p =
     (case map_of (up_infos p) fm of
        Some result \<Rightarrow> (result, p)
      | None \<Rightarrow> (new_info opts, p\<lparr>up_infos := AList.update fm (new_info opts) (up_infos p)\<rparr>))"

text \<open>
  \<open>validate(options)\<close> of the validator: a form that has a validator keeps it; a new one gets a deep
  copy of the options, in which entries that are \<open>undefined\<close> are left out.
\<close>

definition copied_rules :: "rule_param obj \<Rightarrow> rule_param obj" where
  "copied_rules rules = filter (\<lambda>(_, x). x \<noteq> PUndef) rules"

definition plugin_validate :: "form_info \<Rightarrow> nat \<Rightarrow> unob_page \<Rightarrow> unob_page" where
  "plugin_validate options fm p =
     (case map_of (up_validators p) fm of
        Some _ \<Rightarrow> p
      | None \<Rightarrow> p\<lparr>up_validators := AList.update fm
          (options\<lparr>fi_rules := map (\<lambda>(n, r). (n, copied_rules r)) (fi_rules options)\<rparr>) (up_validators p)\<rparr>)"

definition attachValidation :: "form_info \<Rightarrow> nat \<Rightarrow> unob_page \<Rightarrow> unob_page" where
  "attachValidation options fm p =
     plugin_validate options fm (p\<lparr>up_reset := filter (\<lambda>f. f \<noteq> fm) (up_reset p) @ [fm]\<rparr>)"

section \<open>Parsing\<close>

text \<open>One adapter on an element: it applies where the el has its attribute, empty or not.\<close>

definition adapt_element :: "document \<Rightarrow> nat \<Rightarrow> nat \<Rightarrow> adapter \<Rightarrow> rule_param obj \<times> jstring obj \<Rightarrow> js_error + (rule_param obj \<times> jstring obj)" where
  "adapt_element d el fm ad acc = (case acc of (rules, messages) \<Rightarrow>
     let prefix = js ''data-val-'' @ ad_name ad
     in case attr_of d el prefix of
          None \<Rightarrow> Inr (rules, messages)
        | Some message \<Rightarrow>
            (let paramValues = foldl (\<lambda>vs q. obj_set q (attr_of d el (prefix @ js ''-'' @ q)) vs) [] (ad_params ad);
                 n = d ! el
             in case ad_adapt ad \<lparr>op_name = dn_name n, op_tag = dn_tag n, op_type = dn_type n, op_inputs = form_inputs d fm,
                    op_message = message, op_params = paramValues, op_rules = rules, op_messages = messages\<rparr> of
                  Inl e \<Rightarrow> Inl e
                | Inr options \<Rightarrow> Inr (op_rules options, op_messages options)))"

text \<open>All adapters in turn; an error leaves the rules as far as they have come.\<close>

fun adapt_all :: "document \<Rightarrow> nat \<Rightarrow> nat \<Rightarrow> adapter list \<Rightarrow> rule_param obj \<times> jstring obj \<Rightarrow> js_error option \<times> rule_param obj \<times> jstring obj" where
  "adapt_all d el fm [] acc = (None, acc)"
| "adapt_all d el fm (ad # ads) acc =
     (case adapt_element d el fm ad acc of
        Inl e \<Rightarrow> (Some e, acc)
      | Inr acc \<Rightarrow> adapt_all d el fm ads acc)"

definition set_parsed :: "jstring \<Rightarrow> rule_param obj \<Rightarrow> jstring obj \<Rightarrow> form_info \<Rightarrow> form_info" where
  "set_parsed name rules messages info =
     info\<lparr>fi_rules := obj_set name rules (fi_rules info), fi_messages := obj_set name messages (fi_messages info)\<rparr>"

definition parseElement ::
  "adapter list \<Rightarrow> unob_options \<Rightarrow> document \<Rightarrow> nat \<Rightarrow> bool \<Rightarrow> unob_page \<Rightarrow> js_error option \<times> unob_page" where
  "parseElement adapters opts d el skipAttach p =
     (case form_of d el of
        None \<Rightarrow> (None, p)
      | Some fm \<Rightarrow>
          (case validationInfo opts fm p of (info, p) \<Rightarrow>
             (case adapt_all d el fm adapters ([], []) of (error, rules, messages) \<Rightarrow>
                (let rules = (if error = None then obj_set (js ''__dummy__'') PTrue rules else rules);
                     info = set_parsed (dn_name (d ! el)) rules messages info;
                     p = p\<lparr>up_infos := AList.update fm info (up_infos p)\<rparr>
                 in (error, if error = None \<and> \<not> skipAttach then attachValidation info fm p else p)))))"

fun parse_elements :: "adapter list \<Rightarrow> unob_options \<Rightarrow> document \<Rightarrow> nat list \<Rightarrow> unob_page \<Rightarrow> js_error option \<times> unob_page" where
  "parse_elements adapters opts d [] p = (None, p)"
| "parse_elements adapters opts d (i # is) p =
     (case parseElement adapters opts d i True p of
        (Some e, p) \<Rightarrow> (Some e, p)
      | (None, p) \<Rightarrow> parse_elements adapters opts d is p)"

definition attach_form :: "unob_options \<Rightarrow> nat \<Rightarrow> unob_page \<Rightarrow> unob_page" where
  "attach_form opts fm p = (case validationInfo opts fm p of (info, p) \<Rightarrow> attachValidation info fm p)"

text \<open>The marked elements inside the selection, and the forms around it, in it and inside it that have one.\<close>

definition marked_inside :: "document \<Rightarrow> nat list \<Rightarrow> nat list" where
  "marked_inside d selector = filter (\<lambda>i. inside d selector i \<and> is_marked d i) [0..<length d]"

definition selected_forms :: "document \<Rightarrow> nat list \<Rightarrow> nat list" where
  "selected_forms d selector =
     filter (\<lambda>f. is_form d f \<and> (f \<in> set selector \<or> list_ex (\<lambda>s. f \<in> set (parents d s)) selector \<or> inside d selector f)
         \<and> list_ex (\<lambda>i. inside d [f] i \<and> is_marked d i) [0..<length d]) [0..<length d]"

definition parse :: "adapter list \<Rightarrow> unob_options \<Rightarrow> document \<Rightarrow> nat list \<Rightarrow> unob_page \<Rightarrow> js_error option \<times> unob_page" where
  "parse adapters opts d selector p =
     (case parse_elements adapters opts d (marked_inside d selector) p of
        (Some e, p) \<Rightarrow> (Some e, p)
      | (None, p) \<Rightarrow> (None, fold (attach_form opts) (selected_forms d selector) p))"

section \<open>Parents\<close>

lemma parents_unfold:
  "a \<in> set (parents d i) \<Longrightarrow> \<exists>p. i < length d \<and> dn_parent (d ! i) = Some p \<and> p < i \<and> parents d i = p # parents d p"
  by (cases "i < length d"; cases "dn_parent (d ! i)") (simp_all add: parents.simps [of d i] split: if_splits)

lemma parents_smaller: "a \<in> set (parents d i) \<Longrightarrow> a < i"
proof (induction d i rule: parents.induct)
  case (1 d i)
  from parents_unfold [OF 1(2)] obtain p
    where p: "i < length d" "dn_parent (d ! i) = Some p" "p < i" "parents d i = p # parents d p" by blast
  with 1(2) have "a = p \<or> a \<in> set (parents d p)" by simp
  then show ?case using 1(1) [OF p(1-3)] p(3) by auto
qed

lemma parents_trans: "a \<in> set (parents d b) \<Longrightarrow> b \<in> set (parents d c) \<Longrightarrow> a \<in> set (parents d c)"
proof (induction d c rule: parents.induct)
  case (1 d c)
  from parents_unfold [OF 1(3)] obtain p
    where p: "c < length d" "dn_parent (d ! c) = Some p" "p < c" "parents d c = p # parents d p" by blast
  with 1(3) have "b = p \<or> b \<in> set (parents d p)" by simp
  then show ?case using 1(1) [OF p(1-3) 1(2)] 1(2) p(4) by auto
qed

lemma parents_comparable:
  "a \<in> set (parents d c) \<Longrightarrow> b \<in> set (parents d c) \<Longrightarrow> a = b \<or> a \<in> set (parents d b) \<or> b \<in> set (parents d a)"
proof (induction d c rule: parents.induct)
  case (1 d c)
  from parents_unfold [OF 1(3)] obtain p
    where p: "c < length d" "dn_parent (d ! c) = Some p" "p < c" "parents d c = p # parents d p" by blast
  then have "a = p \<or> a \<in> set (parents d p)" "b = p \<or> b \<in> set (parents d p)" using 1(2,3) by simp_all
  then show ?case using 1(1) [OF p(1-3)] by auto
qed

lemma form_of_Some: "form_of d i = Some f \<Longrightarrow> is_form d f \<and> f \<in> set (parents d i)"
  by (auto simp: form_of_def find_Some_iff)

text \<open>The form of a marked element inside the selection is among the selected forms.\<close>

lemma form_is_selected:
  assumes "i \<in> set (marked_inside d selector)" "form_of d i = Some f"
  shows "f \<in> set (selected_forms d selector)"
proof -
  from assms(1) obtain s where i: "i < length d" "is_marked d i" "s \<in> set selector" "s \<in> set (parents d i)"
    by (auto simp: marked_inside_def inside_def list_ex_iff)
  have f: "is_form d f" "f \<in> set (parents d i)" using form_of_Some [OF assms(2)] by simp_all
  have "f = s \<or> f \<in> set (parents d s) \<or> s \<in> set (parents d f)" using parents_comparable f(2) i(4) by blast
  moreover have "f < length d" using parents_smaller [OF f(2)] i(1) by simp
  ultimately show ?thesis using i f by (auto simp: selected_forms_def inside_def list_ex_iff)
qed

section \<open>What parsing leaves\<close>

text \<open>The rules the attributes of an element declare.\<close>

definition declared_rules :: "adapter list \<Rightarrow> document \<Rightarrow> nat \<Rightarrow> nat \<Rightarrow> rule_param obj" where
  "declared_rules adapters d i f = obj_set (js ''__dummy__'') PTrue (fst (snd (adapt_all d i f adapters ([], []))))"

lemma validationInfo_cases:
  obtains info q where "validationInfo opts f p = (info, q)" "up_validators q = up_validators p" "up_reset q = up_reset p"
    "\<And>g. g \<noteq> f \<Longrightarrow> map_of (up_infos q) g = map_of (up_infos p) g" "map_of (up_infos q) f = Some info"
    "\<And>x. map_of (up_infos p) f = Some x \<Longrightarrow> info = x"
proof (cases "map_of (up_infos p) f")
  case None
  then show ?thesis
    by (intro that [of "new_info opts" "p\<lparr>up_infos := AList.update f (new_info opts) (up_infos p)\<rparr>"])
       (simp_all add: validationInfo_def update_conv)
next
  case (Some x)
  then show ?thesis by (intro that [of x p]) (simp_all add: validationInfo_def)
qed

lemma parseElement_no_form: "form_of d i = None \<Longrightarrow> parseElement adapters opts d i True p = (None, p)"
  by (simp add: parseElement_def)

lemma parseElement_form:
  assumes "form_of d i = Some f" "parseElement adapters opts d i True p = (None, q)"
  shows "up_validators q = up_validators p" "\<And>g. g \<noteq> f \<Longrightarrow> map_of (up_infos q) g = map_of (up_infos p) g"
    "\<exists>info. map_of (up_infos q) f = Some info \<and> obj_get (fi_rules info) (dn_name (d ! i)) = Some (declared_rules adapters d i f) \<and>
       (\<forall>n x. n \<noteq> dn_name (d ! i) \<longrightarrow> map_of (up_infos p) f = Some x \<longrightarrow> obj_get (fi_rules info) n = obj_get (fi_rules x) n)"
proof -
  obtain info p' where v: "validationInfo opts f p = (info, p')" "up_validators p' = up_validators p"
    "\<And>g. g \<noteq> f \<Longrightarrow> map_of (up_infos p') g = map_of (up_infos p) g" "\<And>x. map_of (up_infos p) f = Some x \<Longrightarrow> info = x"
    by (rule validationInfo_cases [of opts f p]) blast
  obtain e rules messages where a: "adapt_all d i f adapters ([], []) = (e, rules, messages)" by (metis prod_cases3)
  have e: "e = None" and q: "q = p'\<lparr>up_infos := AList.update f
      (set_parsed (dn_name (d ! i)) (obj_set (js ''__dummy__'') PTrue rules) messages info) (up_infos p')\<rparr>"
    using assms by (auto simp: parseElement_def v(1) a Let_def simp del: js_simps split: if_splits)
  show "up_validators q = up_validators p" by (simp add: q v)
  show "map_of (up_infos q) g = map_of (up_infos p) g" if "g \<noteq> f" for g using that by (simp add: q v update_conv)
  show "\<exists>info. map_of (up_infos q) f = Some info \<and> obj_get (fi_rules info) (dn_name (d ! i)) = Some (declared_rules adapters d i f) \<and>
       (\<forall>n x. n \<noteq> dn_name (d ! i) \<longrightarrow> map_of (up_infos p) f = Some x \<longrightarrow> obj_get (fi_rules info) n = obj_get (fi_rules x) n)"
    using v(4) by (auto simp: q update_conv set_parsed_def declared_rules_def a simp del: js_simps)
qed

lemma parse_elements_validators:
  "parse_elements adapters opts d is p = (None, q) \<Longrightarrow> up_validators q = up_validators p"
proof (induction "is" arbitrary: p)
  case (Cons i "is")
  obtain p' where p': "parseElement adapters opts d i True p = (None, p')" "parse_elements adapters opts d is p' = (None, q)"
    using Cons.prems by (auto split: prod.splits option.splits)
  have "up_validators p' = up_validators p"
    using p'(1) parseElement_form(1) [of d i _ adapters opts p p'] by (cases "form_of d i") (auto simp: parseElement_no_form)
  then show ?case using Cons.IH [OF p'(2)] by simp
qed simp

text \<open>What is known of a form and a name stays as it is when neither is parsed again.\<close>

lemma parse_elements_keep:
  assumes "parse_elements adapters opts d is p = (None, q)" "map_of (up_infos p) f = Some x"
    and "\<forall>j \<in> set is. form_of d j = Some f \<longrightarrow> dn_name (d ! j) \<noteq> n"
  shows "\<exists>y. map_of (up_infos q) f = Some y \<and> obj_get (fi_rules y) n = obj_get (fi_rules x) n"
  using assms
proof (induction "is" arbitrary: p x)
  case (Cons i "is")
  obtain p' where p': "parseElement adapters opts d i True p = (None, p')" "parse_elements adapters opts d is p' = (None, q)"
    using Cons.prems(1) by (auto split: prod.splits option.splits)
  have "\<exists>y. map_of (up_infos p') f = Some y \<and> obj_get (fi_rules y) n = obj_get (fi_rules x) n"
  proof (cases "form_of d i = Some f")
    case True
    then show ?thesis using parseElement_form(3) [OF True p'(1)] Cons.prems(2,3) by auto
  next
    case False
    then show ?thesis
      using p'(1) Cons.prems(2) parseElement_form(2) [of d i _ adapters opts p p' f]
      by (cases "form_of d i") (auto simp: parseElement_no_form)
  qed
  then obtain y where "map_of (up_infos p') f = Some y" "obj_get (fi_rules y) n = obj_get (fi_rules x) n" by blast
  then show ?case using Cons.IH [OF p'(2)] Cons.prems(3) by auto
qed simp

lemma parse_elements_declared:
  assumes "parse_elements adapters opts d is p = (None, q)" "i \<in> set is" "form_of d i = Some f" "sorted is" "distinct is"
    and "\<forall>j \<in> set is. i < j \<longrightarrow> form_of d j = Some f \<longrightarrow> dn_name (d ! j) \<noteq> dn_name (d ! i)"
  shows "\<exists>y. map_of (up_infos q) f = Some y \<and> obj_get (fi_rules y) (dn_name (d ! i)) = Some (declared_rules adapters d i f)"
  using assms
proof (induction "is" arbitrary: p)
  case (Cons k "is")
  obtain p' where p': "parseElement adapters opts d k True p = (None, p')" "parse_elements adapters opts d is p' = (None, q)"
    using Cons.prems(1) by (auto split: prod.splits option.splits)
  show ?case
  proof (cases "i = k")
    case True
    then have later: "\<forall>j \<in> set is. form_of d j = Some f \<longrightarrow> dn_name (d ! j) \<noteq> dn_name (d ! i)"
      using Cons.prems(4-6) by (auto simp: le_less)
    obtain x where "map_of (up_infos p') f = Some x" "obj_get (fi_rules x) (dn_name (d ! i)) = Some (declared_rules adapters d i f)"
      using parseElement_form(3) [OF Cons.prems(3), of adapters opts p p'] p'(1) True by auto
    then show ?thesis using parse_elements_keep [OF p'(2) _ later] by auto
  next
    case False
    then show ?thesis using Cons.IH [OF p'(2)] Cons.prems by auto
  qed
qed simp

section \<open>Attaching\<close>

lemma attach_form_other:
  assumes "g \<noteq> f"
  shows "map_of (up_validators (attach_form opts g p)) f = map_of (up_validators p) f"
    "map_of (up_infos (attach_form opts g p)) f = map_of (up_infos p) f"
proof -
  obtain info q where v: "validationInfo opts g p = (info, q)" "up_validators q = up_validators p"
    "map_of (up_infos q) f = map_of (up_infos p) f"
    by (rule validationInfo_cases [of opts g p]) (use assms in auto)
  show "map_of (up_validators (attach_form opts g p)) f = map_of (up_validators p) f"
    "map_of (up_infos (attach_form opts g p)) f = map_of (up_infos p) f"
    using assms v by (simp_all add: attach_form_def attachValidation_def plugin_validate_def update_conv split: option.split)
qed

lemma attach_form_kept:
  assumes "map_of (up_validators p) f = Some s"
  shows "map_of (up_validators (attach_form opts g p)) f = Some s"
proof (cases "g = f")
  case True
  obtain info q where v: "validationInfo opts g p = (info, q)" "up_validators q = up_validators p"
    by (rule validationInfo_cases [of opts g p]) auto
  show ?thesis using assms v True by (simp add: attach_form_def attachValidation_def plugin_validate_def)
qed (use assms in \<open>simp add: attach_form_other\<close>)

lemma attach_forms_kept:
  "map_of (up_validators p) f = Some s \<Longrightarrow> map_of (up_validators (fold (attach_form opts) fs p)) f = Some s"
  by (induction fs arbitrary: p) (simp_all add: attach_form_kept)

lemma attach_forms_make:
  assumes "f \<in> set fs" "map_of (up_validators p) f = None" "map_of (up_infos p) f = Some info"
  shows "map_of (up_validators (fold (attach_form opts) fs p)) f
    = Some (info\<lparr>fi_rules := map (\<lambda>(n, r). (n, copied_rules r)) (fi_rules info)\<rparr>)"
  using assms
proof (induction fs arbitrary: p)
  case (Cons g fs)
  show ?case
  proof (cases "g = f")
    case True
    have "map_of (up_validators (attach_form opts g p)) f
        = Some (info\<lparr>fi_rules := map (\<lambda>(n, r). (n, copied_rules r)) (fi_rules info)\<rparr>)"
      using Cons.prems True by (simp add: attach_form_def validationInfo_def attachValidation_def plugin_validate_def update_conv)
    then show ?thesis by (simp add: attach_forms_kept)
  next
    case False
    then show ?thesis using Cons by (simp add: attach_form_other)
  qed
qed simp

lemma obj_get_map: "obj_get (map (\<lambda>(n, r). (n, h r)) xs) n = map_option h (obj_get xs n)"
  by (induction xs) (auto simp: obj_get_def)

lemma marked_inside_ordered: "sorted (marked_inside d selector)" "distinct (marked_inside d selector)"
  by (simp_all add: marked_inside_def sorted_wrt_filter)

text \<open>After parsing, a form without a validator has one with the declared rules of each of its elements.\<close>

lemma parse_makes:
  assumes "parse adapters opts d selector p = (None, q)" "i \<in> set (marked_inside d selector)" "form_of d i = Some f"
    and "\<forall>j \<in> set (marked_inside d selector). i < j \<longrightarrow> form_of d j = Some f \<longrightarrow> dn_name (d ! j) \<noteq> dn_name (d ! i)"
    and "map_of (up_validators p) f = None"
  shows "\<exists>s. map_of (up_validators q) f = Some s \<and>
    obj_get (fi_rules s) (dn_name (d ! i)) = Some (copied_rules (declared_rules adapters d i f))"
proof -
  obtain p' where p': "parse_elements adapters opts d (marked_inside d selector) p = (None, p')"
    and q: "q = fold (attach_form opts) (selected_forms d selector) p'"
    using assms(1) by (auto simp: parse_def split: prod.splits option.splits)
  obtain info where "map_of (up_infos p') f = Some info" "obj_get (fi_rules info) (dn_name (d ! i)) = Some (declared_rules adapters d i f)"
    using parse_elements_declared [OF p' assms(2,3) marked_inside_ordered assms(4)] by blast
  then show ?thesis
    using attach_forms_make [OF form_is_selected [OF assms(2,3)], of p' info opts] assms(5) parse_elements_validators [OF p']
    by (simp add: q obj_get_map)
qed

lemma parse_keeps:
  assumes "parse adapters opts d selector p = (None, q)" "map_of (up_validators p) f = Some s"
  shows "map_of (up_validators q) f = Some s"
proof -
  obtain p' where p': "parse_elements adapters opts d (marked_inside d selector) p = (None, p')"
    and q: "q = fold (attach_form opts) (selected_forms d selector) p'"
    using assms(1) by (auto simp: parse_def split: prod.splits option.splits)
  then show ?thesis using assms(2) parse_elements_validators [OF p'] by (simp add: attach_forms_kept)
qed

section \<open>Errors\<close>

text \<open>Of the standard adapters only that of \<open>equalto\<close> raises an error, for an element that names no other.\<close>

definition raises :: "document \<Rightarrow> nat \<Rightarrow> nat \<Rightarrow> adapter \<Rightarrow> bool" where
  "raises d i f ad \<longleftrightarrow> (\<forall>acc. \<exists>e. adapt_element d i f ad acc = Inl e)"

lemma adapt_all_error:
  assumes "\<forall>ad \<in> set ads. \<not> raises d i f ad \<longrightarrow> (\<forall>acc. \<exists>acc'. adapt_element d i f ad acc = Inr acc')"
  shows "fst (adapt_all d i f ads acc) \<noteq> None \<longleftrightarrow> list_ex (raises d i f) ads"
  using assms
proof (induction ads arbitrary: acc)
  case (Cons ad ads)
  show ?case
  proof (cases "raises d i f ad")
    case True
    then obtain e where "adapt_element d i f ad acc = Inl e" unfolding raises_def by blast
    then show ?thesis using True by simp
  next
    case False
    then obtain acc' where "adapt_element d i f ad acc = Inr acc'"
      using Cons.prems list.set_intros(1) by metis
    then show ?thesis using Cons False by simp
  qed
qed simp

lemma standard_adapters_total:
  assumes "ad \<in> set (standard_adapters b)" "ad_name ad \<noteq> js ''equalto''"
  shows "\<exists>o'. ad_adapt ad opts = Inr o'"
  using assms
  by (auto simp: standard_adapters_def extension_adapters_def length_adapters_def bool_adapters_def addBool_def addSingleVal_def addMinMax_def
      add_adapter_def simp del: js_simps split: if_splits)

lemma standard_equalto:
  assumes "ad \<in> set (standard_adapters b)" "ad_name ad = js ''equalto''"
  shows "ad_adapt ad = adapt_equalto \<and> ad_params ad = [js ''other'']"
  using assms
  by (auto simp: standard_adapters_def extension_adapters_def length_adapters_def bool_adapters_def addBool_def addSingleVal_def addMinMax_def
      add_adapter_def split: if_splits)

lemma adapt_element_total:
  assumes "\<And>opts. \<exists>o'. ad_adapt ad opts = Inr o'"
  shows "\<exists>acc'. adapt_element d i f ad acc = Inr acc'"
proof -
  obtain r m where acc: "acc = (r, m)" by (cases acc)
  show ?thesis
  proof (cases "attr_of d i (js ''data-val-'' @ ad_name ad)")
    case (Some message)
    obtain opts' where "ad_adapt ad \<lparr>op_name = dn_name (d ! i), op_tag = dn_tag (d ! i), op_type = dn_type (d ! i), op_inputs = form_inputs d f,
        op_message = message, op_params = foldl (\<lambda>vs q. obj_set q (attr_of d i ((js ''data-val-'' @ ad_name ad) @ js ''-'' @ q)) vs) [] (ad_params ad),
        op_rules = r, op_messages = m\<rparr> = Inr opts'"
      using assms by blast
    then show ?thesis using Some by (simp add: acc adapt_element_def Let_def del: js_simps)
  qed (simp add: acc adapt_element_def del: js_simps)
qed

lemma adapt_equalto_element:
  assumes "ad_adapt ad = adapt_equalto" "ad_name ad = js ''equalto''" "ad_params ad = [js ''other'']"
  shows "(\<exists>e. adapt_element d i f ad acc = Inl e) \<longleftrightarrow>
    attr_of d i (js ''data-val-equalto'') \<noteq> None \<and> attr_of d i (js ''data-val-equalto-other'') = None"
proof -
  obtain r m where acc: "acc = (r, m)" by (cases acc)
  have names: "js ''data-val-'' @ js ''equalto'' = js ''data-val-equalto''"
    "js ''data-val-equalto'' @ js ''-'' @ js ''other'' = js ''data-val-equalto-other''" by (simp_all)
  show ?thesis
    unfolding acc adapt_element_def assms adapt_equalto_def option_param_def
    by (auto simp: names Let_def obj_get_def simp del: js_simps split: option.splits)
qed

lemma standard_adapters_error:
  "fst (adapt_all d i f (standard_adapters b) acc) \<noteq> None \<longleftrightarrow>
     attr_of d i (js ''data-val-equalto'') \<noteq> None \<and> attr_of d i (js ''data-val-equalto-other'') = None" (is "_ \<longleftrightarrow> ?missing")
proof -
  have other: "\<exists>acc'. adapt_element d i f ad acc = Inr acc'"
    if "ad \<in> set (standard_adapters b)" "ad_name ad \<noteq> js ''equalto''" for ad acc
    using standard_adapters_total [OF that] by (rule adapt_element_total)
  have equalto: "(\<exists>e. adapt_element d i f ad acc = Inl e) \<longleftrightarrow> ?missing"
    if "ad \<in> set (standard_adapters b)" "ad_name ad = js ''equalto''" for ad acc
    using standard_equalto [OF that] that(2) by (intro adapt_equalto_element) simp_all
  have total: "\<forall>ad \<in> set (standard_adapters b). \<not> raises d i f ad \<longrightarrow> (\<forall>acc. \<exists>acc'. adapt_element d i f ad acc = Inr acc')"
    using other equalto unfolding raises_def by (metis old.sum.exhaust)
  have "\<exists>ad \<in> set (standard_adapters b). ad_name ad = js ''equalto''"
    by (simp add: standard_adapters_def add_adapter_def)
  then have "list_ex (raises d i f) (standard_adapters b) \<longleftrightarrow> ?missing"
    using other equalto unfolding list_ex_iff raises_def by (metis sum.distinct(1))
  then show ?thesis using adapt_all_error [OF total] by simp
qed

end
