(* ===== verification/Unobtrusive_Messages.thy ===== *)
theory Unobtrusive_Messages
  imports Unobtrusive_Parse JS_Json
begin

text \<open>
  \<open>jquery.validate.unobtrusive.js\<close>, third part: what becomes of the error labels of the validator.
  A message container of a field takes its label, a summary lists the messages, and a reset of the
  form clears both.
\<close>

section \<open>Containers and labels\<close>

record msg_container =
  mc_for :: "jstring option" \<comment> \<open>the attribute \<open>data-valmsg-for\<close>\<close>
  mc_summary :: bool \<comment> \<open>\<open>data-valmsg-summary\<close> is true\<close>
  mc_replace :: "jstring option"
  mc_classes :: "jstring list"
  mc_labels :: "nat list" \<comment> \<open>the labels in it\<close>
  mc_lists :: "jstring list list" \<comment> \<open>the items of the lists in it\<close>

record msg_label =
  ml_classes :: "jstring list"
  ml_shown :: bool
  ml_container :: "nat list option" \<comment> \<open>the data \<open>unobtrusiveContainer\<close>\<close>

record msg_page =
  mp_containers :: "msg_container list"
  mp_labels :: "msg_label list"
  mp_resetting :: bool

definition set_container :: "(msg_container \<Rightarrow> msg_container) \<Rightarrow> nat \<Rightarrow> msg_page \<Rightarrow> msg_page" where
  "set_container f k p = p\<lparr>mp_containers := (mp_containers p)[k := f (mp_containers p ! k)]\<rparr>"

definition set_msg_label :: "(msg_label \<Rightarrow> msg_label) \<Rightarrow> nat \<Rightarrow> msg_page \<Rightarrow> msg_page" where
  "set_msg_label f l p = p\<lparr>mp_labels := (mp_labels p)[l := f (mp_labels p ! l)]\<rparr>"

text \<open>\<open>removeClass\<close> and \<open>addClass\<close> in the order of the code.\<close>

definition swap_class :: "jstring \<Rightarrow> jstring \<Rightarrow> msg_container \<Rightarrow> msg_container" where
  "swap_class old new c = c\<lparr>mc_classes := add_class new (remove_class old (mc_classes c))\<rparr>"

definition clear_container :: "msg_label \<Rightarrow> msg_label" where
  "clear_container l = l\<lparr>ml_container := None\<rparr>"

text \<open>\<open>empty()\<close> removes what is in a container, and the data of the labels in it.\<close>

definition empty_container :: "nat \<Rightarrow> msg_page \<Rightarrow> msg_page" where
  "empty_container k p =
     set_container (\<lambda>c. c\<lparr>mc_labels := [], mc_lists := []\<rparr>) k
       (fold (set_msg_label clear_container) (mc_labels (mp_containers p ! k)) p)"

text \<open>\<open>appendTo\<close>: the label goes into the last of the containers, a copy with its data into each other.\<close>

definition append_copy :: "nat \<Rightarrow> nat \<Rightarrow> msg_page \<Rightarrow> msg_page" where
  "append_copy l k p =
     set_container (\<lambda>c. c\<lparr>mc_labels := mc_labels c @ [length (mp_labels p)]\<rparr>) k (p\<lparr>mp_labels := mp_labels p @ [mp_labels p ! l]\<rparr>)"

definition append_label :: "nat \<Rightarrow> nat \<Rightarrow> msg_page \<Rightarrow> msg_page" where
  "append_label l k p =
     set_container (\<lambda>c. c\<lparr>mc_labels := mc_labels c @ [l]\<rparr>) k
       (p\<lparr>mp_containers := map (\<lambda>c. c\<lparr>mc_labels := filter (\<lambda>m. m \<noteq> l) (mc_labels c)\<rparr>) (mp_containers p)\<rparr>)"

definition append_to :: "nat \<Rightarrow> nat list \<Rightarrow> msg_page \<Rightarrow> msg_page" where
  "append_to l ks p = (if ks = [] then p else append_label l (last ks) (fold (append_copy l) (butlast ks) p))"

definition containers_for :: "jstring \<Rightarrow> msg_page \<Rightarrow> nat list" where
  "containers_for name p =
     filter (\<lambda>k. mc_for (mp_containers p ! k) = Some (runescape (escapeAttributeValue name))) [0..<length (mp_containers p)]"

text \<open>The attribute \<open>data-valmsg-replace\<close> of the first of the containers, read as JSON where it is not empty.\<close>

definition read_replace :: "nat list \<Rightarrow> msg_page \<Rightarrow> js_error + json option" where
  "read_replace container p =
     (case container of
        [] \<Rightarrow> Inr None
      | k # _ \<Rightarrow>
          (case mc_replace (mp_containers p ! k) of
             None \<Rightarrow> Inr None
           | Some t \<Rightarrow> if t = [] then Inr None
               else (case JSON_parse t of None \<Rightarrow> Inl SyntaxError | Some x \<Rightarrow> Inr (Some x))))"

section \<open>Handlers\<close>

definition onError :: "nat \<Rightarrow> jstring \<Rightarrow> msg_page \<Rightarrow> js_error option \<times> msg_page" where
  "onError error name p =
     (let container = containers_for name p
      in case read_replace container p of
           Inl e \<Rightarrow> (Some e, p)
         | Inr r \<Rightarrow>
             (let replace = (case r of None \<Rightarrow> False | Some x \<Rightarrow> x \<noteq> JBool False);
                  p = fold (set_container (swap_class (js ''field-validation-valid'') (js ''field-validation-error''))) container p;
                  p = set_msg_label (\<lambda>l. l\<lparr>ml_container := Some container\<rparr>) error p
              in (None,
                  if replace then
                    append_to error container
                      (set_msg_label (\<lambda>l. l\<lparr>ml_classes := remove_class (js ''input-validation-error'') (ml_classes l)\<rparr>) error
                        (fold empty_container container p))
                  else set_msg_label (\<lambda>l. l\<lparr>ml_shown := False\<rparr>) error p)))"

text \<open>The summaries that hold a list show the messages of the errors, each in every list.\<close>

definition onErrors :: "jstring list \<Rightarrow> msg_page \<Rightarrow> msg_page" where
  "onErrors errorList p =
     (let container = filter (\<lambda>k. mc_summary (mp_containers p ! k)) [0..<length (mp_containers p)]
      in if list_ex (\<lambda>k. mc_lists (mp_containers p ! k) \<noteq> []) container \<and> errorList \<noteq> [] then
           fold (set_container (\<lambda>c. c\<lparr>mc_lists := map (\<lambda>_. errorList) (mc_lists c),
               mc_classes := remove_class (js ''validation-summary-valid'') (add_class (js ''validation-summary-errors'') (mc_classes c))\<rparr>))
             container p
         else p)"

definition onSuccess :: "(jstring \<Rightarrow> 'n::zero option) \<Rightarrow> nat \<Rightarrow> msg_page \<Rightarrow> js_error option \<times> msg_page" where
  "onSuccess num_of error p =
     (case ml_container (mp_labels p ! error) of
        None \<Rightarrow> (None, p)
      | Some container \<Rightarrow>
          (case read_replace container p of
             Inl e \<Rightarrow> (Some e, p)
           | Inr r \<Rightarrow>
               (let p = fold (set_container (\<lambda>c. c\<lparr>mc_classes :=
                      remove_class (js ''field-validation-error'') (add_class (js ''field-validation-valid'') (mc_classes c))\<rparr>)) container p;
                    p = set_msg_label clear_container error p
                in (None, if (case r of None \<Rightarrow> False | Some x \<Rightarrow> json_truthy num_of x) then fold empty_container container p else p))))"

text \<open>
  A reset asks the validator to reset the form; \<open>reset_call\<close> is that call, which may announce the reset
  once more. The flag keeps the second announcement from doing anything, and is cleared also when
  the call raises an error.
\<close>

definition clear_messages :: "msg_page \<Rightarrow> msg_page" where
  "clear_messages p =
     (let p = fold (set_container (\<lambda>c.
            if js ''validation-summary-errors'' \<in> set (mc_classes c) then
              c\<lparr>mc_classes := remove_class (js ''validation-summary-errors'') (add_class (js ''validation-summary-valid'') (mc_classes c))\<rparr>
            else c)) [0..<length (mp_containers p)] p;
          marked = filter (\<lambda>k. js ''field-validation-error'' \<in> set (mc_classes (mp_containers p ! k))) [0..<length (mp_containers p)];
          p = fold (set_container (\<lambda>c. c\<lparr>mc_classes :=
                remove_class (js ''field-validation-error'') (add_class (js ''field-validation-valid'') (mc_classes c))\<rparr>)) marked p
      in fold (set_msg_label clear_container) (concat (map (\<lambda>k. mc_labels (mp_containers p ! k)) marked)) p)"

definition onReset :: "(msg_page \<Rightarrow> js_error option \<times> msg_page) \<Rightarrow> msg_page \<Rightarrow> js_error option \<times> msg_page" where
  "onReset reset_call p =
     (if mp_resetting p then (None, p)
      else case reset_call (p\<lparr>mp_resetting := True\<rparr>) of
        (Some e, p) \<Rightarrow> (Some e, p\<lparr>mp_resetting := False\<rparr>)
      | (None, p) \<Rightarrow> (None, clear_messages (p\<lparr>mp_resetting := False\<rparr>)))"

section \<open>What they leave\<close>

lemma length_fold_set_container [simp]: "length (mp_containers (fold (set_container f) ks p)) = length (mp_containers p)"
  by (induction ks arbitrary: p) (simp_all add: set_container_def)

lemma set_msg_label_containers [simp]:
  "mp_containers (set_msg_label f l p) = mp_containers p" "mp_containers (fold (set_msg_label f) ls p) = mp_containers p"
  "mp_resetting (set_msg_label f l p) = mp_resetting p" "mp_resetting (fold (set_msg_label f) ls p) = mp_resetting p"
  by (induction ls arbitrary: p) (simp_all add: set_msg_label_def)

lemma set_container_simps [simp]:
  "mp_labels (set_container f k p) = mp_labels p" "mp_resetting (set_container f k p) = mp_resetting p"
  "mp_resetting (fold (set_container f) ks p) = mp_resetting p"
  "length (mp_containers (set_container f k p)) = length (mp_containers p)"
  by (induction ks arbitrary: p) (simp_all add: set_container_def)

lemma fold_set_container:
  assumes "k < length (mp_containers p)" "distinct ks"
  shows "mp_containers (fold (set_container f) ks p) ! k = (if k \<in> set ks then f (mp_containers p ! k) else mp_containers p ! k)"
  using assms
proof (induction ks arbitrary: p)
  case (Cons a ks)
  have "mp_containers (set_container f a p) ! k = (if a = k then f (mp_containers p ! k) else mp_containers p ! k)"
    using Cons.prems(1) by (simp add: set_container_def nth_list_update)
  then show ?case using Cons.IH [of "set_container f a p"] Cons.prems by auto
qed simp

lemma class_names_one:
  assumes "list_all (\<lambda>c. \<not> is_space c) s" "s \<noteq> []"
  shows "class_names s = [s]"
proof -
  have "split_space s = [s]" using assms(1) by (induction s) auto
  then show ?thesis using assms(2) by (simp add: class_names_def)
qed

text \<open>A reset leaves no field marked, and never leaves the flag behind; a nested announcement is ignored.\<close>

lemma nested_reset_is_ignored: "mp_resetting p \<Longrightarrow> onReset reset_call p = (None, p)"
  by (simp add: onReset_def)

lemma clear_messages_resetting [simp]: "mp_resetting (clear_messages p) = mp_resetting p"
  by (simp add: clear_messages_def Let_def)

lemma reset_flag_is_cleared:
  assumes "\<not> mp_resetting p"
  shows "\<not> mp_resetting (snd (onReset reset_call p))"
  using assms by (auto simp: onReset_def split: prod.split option.split)

lemma error_class_names: "class_names (js ''field-validation-error'') = [js ''field-validation-error'']"
  by (rule class_names_one) (code_simp, simp)

lemma not_marked_after: "js ''field-validation-error'' \<notin> set (remove_class (js ''field-validation-error'') cs)"
  by (simp add: remove_class_def error_class_names del: js_simps)

lemma clear_messages_unmarks:
  assumes "k < length (mp_containers p)"
  shows "js ''field-validation-error'' \<notin> set (mc_classes (mp_containers (clear_messages p) ! k))"
  using assms not_marked_after by (auto simp: clear_messages_def Let_def fold_set_container simp del: js_simps)

lemma reset_unmarks:
  assumes "onReset reset_call p = (None, q)" "\<not> mp_resetting p" "k < length (mp_containers q)"
  shows "js ''field-validation-error'' \<notin> set (mc_classes (mp_containers q ! k))"
proof -
  obtain p' where q: "q = clear_messages p'"
    using assms(1,2) by (auto simp: onReset_def split: prod.splits option.splits)
  have "length (mp_containers (clear_messages p')) = length (mp_containers p')" by (simp add: clear_messages_def Let_def)
  then show ?thesis using assms(3) clear_messages_unmarks [of k p'] by (simp add: q)
qed

text \<open>The message of a field with one container that is to be replaced is all the container holds.\<close>

lemma field_message_is_shown:
  assumes "containers_for name p = [k]" "mc_replace (mp_containers p ! k) = Some t" "t \<noteq> []"
    and "JSON_parse t = Some x" "x \<noteq> JBool False"
  shows "\<exists>q. onError l name p = (None, q) \<and> mc_labels (mp_containers q ! k) = [l] \<and>
    js ''field-validation-error'' \<in> set (mc_classes (mp_containers q ! k))"
proof -
  have k: "k < length (mp_containers p)"
  proof -
    have "k \<in> set (containers_for name p)" by (simp add: assms(1))
    then show ?thesis by (auto simp: containers_for_def)
  qed
  have add: "js ''field-validation-error'' \<in> set (class_names (js ''field-validation-error''))"
    by (simp only: error_class_names list.set insert_iff simp_thms)
  show ?thesis
    using assms k add
    by (simp add: onError_def read_replace_def append_to_def append_label_def empty_container_def set_container_def swap_class_def Let_def
        del: js_simps)
qed

end
