(* ===== verification/Library_Properties.thy ===== *)
theory Library_Properties
  imports JQuery_Deferred JQuery_Events JQuery_Classes JQuery_Data Unobtrusive_Messages
begin

text \<open>The properties of the callback lists, the deferreds and the unobtrusive parser.\<close>

section \<open>Callback lists and deferreds\<close>




text \<open>
  C33. A deferred settles once. Whatever functions are registered on it and whatever they do with it, also
  while it settles and also when they raise errors, all callbacks of done and fail that are ever called
  are on the same side, with the same arguments, and by then its state is that side's.
\<close>

theorem deferred_settles_once:
  assumes "cb_reachable (deferred_behaviour user) (start_deferred ops) m"
  shows "\<exists>s a. s \<in> {1, 2} \<and> (\<forall>c \<in> set (mc_calls m). call_list c \<in> {callbacks_of 1, callbacks_of 2} \<longrightarrow>
    call_list c = callbacks_of s \<and> call_args c = Some a \<and> (is_user (call_fun c) \<longrightarrow> deferred_state (mc_calls m) = state_name s))"
  using deferred_inv_outcome [OF deferred_reachable_inv [OF assms]] by (simp only: one_outcome_def)

text \<open>A function registered with done that rejects the deferred, and a script that settles it twice.\<close>

definition sample_user :: "(nat, nat) user_behaviour" where
  "sample_user calls = ([Reject 9], Returns False)"

definition sample_settling :: "(nat, nat) deferred_op list" where
  "sample_settling = [Done [Fn 0], Fail [Fn 1], Resolve 5, Reject 6]"

theorem deferred_settles_once_witness:
  "one_outcome (mc_calls ((cb_step (deferred_behaviour sample_user) ^^ 60) (start_deferred sample_settling)))"
  unfolding one_outcome_def by (rule deferred_settles_once [OF reachable_steps])

section \<open>Events\<close>







section \<open>Unobtrusive validation\<close>







end
