(* ===== verification/Spec2Isabelle.thy ===== *)
theory Spec2Isabelle
  imports Codec_Properties Queue_Properties Delivery_Properties Server_Properties Lifecycle_Properties
    Client_Properties View_Properties Selector_Properties
    Validation_Properties Form_Properties Page_Properties Library_Properties
begin

text \<open>
  A verification library for CatMQ, a message broker (C#), and for the scripts of its web pages
  (JavaScript).

  The broker. A server keeps a registry of queues. A producer enqueues a message; the queue keeps it in a
  buffer and, if it is persistent, in a database; a delivery thread takes the oldest deliverable message
  within a limit and offers it to the subscribers; the answers decide whether the message is dropped,
  retried or moved to a dead-letter queue; a disposition pass carries that out. The paths below are under
  \<open>src/\<close>.

  \<^item> \<open>Prelude\<close>: words and their wrap-around, dictionaries, texts, operations that may raise, the collection of hints.
  \<^item> \<open>CMq_Types\<close>, \<open>Queue_Config\<close>: enumerations, defaults, configurations and names of queues,
    counters (\<open>NTDLS.CatMQ.Shared\<close>, \<open>NTDLS.CatMQ.Server/Server\<close>). \<open>Retry_Loop\<close>: the loop every operation that
    takes locks is written with; its attempts are given as a list, which is also its fuel, and a list that
    ends without a decision stands for a loop still running. The property on returning says when it does not.
  \<^item> \<open>Message_Keys\<close>, \<open>Messages\<close>, \<open>Reference_Store\<close>: messages, database keys, storing. RocksDB is
    an argument, its laws are the locale \<open>rocksdb\<close>, and a red-black tree meets them.
  \<^item> \<open>Queue_Server\<close>, \<open>Queue_Thread\<close>, \<open>Delivery\<close>, \<open>Queue_Machine\<close>: one queue, its thread, one round of deliveries
    (\<open>SingleMessageQueueServer.cs\<close>), and their interleavings as a step relation.
  \<^item> \<open>Mq_Server\<close>, \<open>Mq_Steps\<close>: the server (\<open>CMqServer.cs\<close>), its start, stop and checkpoint, and the
    step relation of a running broker.
  \<^item> \<open>Queue_Invariant\<close>, \<open>Queue_Hydration\<close>, \<open>Queue_Machine_Inv\<close>,
    \<open>Mq_Registry\<close>, \<open>Mq_Lifecycle\<close>, \<open>Mq_Server_Inv\<close>, \<open>Mq_Restart\<close>: the invariants of queues, machines
    and servers, operation by operation. \<open>Queue_Abstract\<close> (a queue is the list of its messages) and
    \<open>Delivery_Effect\<close> (a round is a search for a decisive answer) are the specifications that are refined.
  \<^item> \<open>Client\<close>, \<open>Remote_Queries\<close>: the client (\<open>NTDLS.CatMQ.Client\<close>), whose critical sections are taken one after the
    other, and the handlers of its requests at the server (\<open>InternalServerQueryHandlers.cs\<close>): a request travels
    with a list of fates that says which arrive and whose replies are lost. \<open>Client_Facts\<close> follows one
    buffered subscription through a run of sections.
  \<^item> \<open>Mq_Views\<close>, \<open>Historical_Statistics\<close>: what the server shows of its queues and the history of their rates.
  \<^item> \<open>Sample_Broker\<close> and the theories whose names end in \<open>Properties\<close>: the properties, with a run of each.

  The scripts. The pages validate their forms in the browser, ask before they delete, switch themes and
  draw a chart (\<open>CatMQ.Service/wwwroot/lib\<close>).

  \<^item> \<open>JS_Base\<close>, \<open>JS_Regex\<close>, \<open>JS_Regex_Syntax\<close>, \<open>JS_Literal\<close>, \<open>JS_Json\<close>, \<open>Validate_Result\<close>: what the scripts use of the
    language. Regular expressions are read from the texts of the code, matched, and given a relational
    meaning that the matcher is proved to compute. The parsers take as fuel the length of the text, of which
    every turn, or every second one, consumes a unit.
  \<^item> \<open>Check_Digits\<close>, \<open>Iban\<close>, \<open>Pattern_Methods\<close>, \<open>Check_Digit_Facts\<close>: the validation methods of \<open>additional-methods.js\<close>.
  \<^item> \<open>Rule_Values\<close>, \<open>Form_State\<close>, \<open>Form_Messages\<close>, \<open>Form_Check\<close>, \<open>Form_Methods\<close>, \<open>Form_Submit\<close>: \<open>jquery.validate.js\<close>, from the
    rules of an element to the submission of a form, remote checks included. \<open>Form_Core\<close>,
    \<open>Form_Steps\<close>, \<open>Form_Errors\<close>, \<open>Form_Page\<close>: its events as a step relation and what they keep; the locales
    \<open>quiet_callbacks\<close>, \<open>sound_settings\<close> and \<open>plain_settings\<close> are what the validator asks of its settings, and the
    default settings with the standard methods provide it.
  \<^item> \<open>Unobtrusive_Parse\<close>, \<open>Unobtrusive_Messages\<close>: \<open>jquery.validate.unobtrusive.js\<close>, which makes
    rules from the data attributes that the server writes.
  \<^item> \<open>Css_Escape\<close>, \<open>JQuery_Param\<close>, \<open>JQuery_Callbacks\<close>, \<open>JQuery_Deferred\<close>, \<open>JQuery_Events\<close>, \<open>JQuery_Classes\<close>, \<open>JQuery_Data\<close>:
    parts of \<open>jquery.js\<close> the other scripts stand on. Firing callbacks is a machine with a stack, run until it is
    empty; \<open>Callbacks_Facts\<close> holds what is proved of its runs.
  \<^item> \<open>Dom_Tree\<close>, \<open>Selector_Filters\<close>, \<open>Selector_Match\<close>: the selector engine of \<open>jquery.js\<close> over documents as trees, whose nodes
    are named by the way to them. Compiling gives functions on a state that holds what the engine leaves on the
    nodes; \<open>Selector_Facts\<close> says when such a state is right and that every matcher keeps it so.
  \<^item> \<open>Site_Scripts\<close>, \<open>Queue_Chart\<close>: \<open>site.js\<close>, \<open>confirmModal.js\<close>, \<open>queueChart.js\<close>, each as steps over the events of a page.

  Bounds. Counters and serial numbers of the broker are 64-bit words, and the properties say where a
  wrap-around matters. The numbers of the form validator are those of an archimedean ordered field, without
  the rounding of doubles; code units of texts are natural numbers.

  Not modelled. Of the broker: the transport (a package), the measuring of its own
  operations, hosting and the web pages. Locks are critical
  sections of the step relations; tasks in one section are not interleaved. Of the scripts: the method
  \<open>regex\<close> of the unobtrusive script, which needs the match a backtracking matcher prefers, captures,
  two methods of \<open>additional-methods.js\<close> that validate through a copy of the validator, the display options of the
  chart; \<open>then\<close> and \<open>when\<close> of deferreds, triggered events and the leveraging of native ones; in the selector
  engine the sets of positional matchers, \<open>:not\<close> and \<open>:has\<close>, reading selectors and choosing a seed; effects, requests and the handling of documents in \<open>jquery.js\<close>; Bootstrap. The slim and the
  minified files are builds of code listed here.
\<close>

end
